(* ===== verification/Prelude.thy ===== *)
theory Prelude
  imports Main "HOL-Library.Word" "HOL-Library.Multiset"
begin

unbundle bit_operations_syntax

text \<open>
  What every component of the development shares.

  \<^item> The machine integers of the Rust sources, kept at their width: \<open>u8\<close>, \<open>u16\<close>, \<open>u32\<close>,
    \<open>u64\<close> and the two's complement \<open>i64\<close>, which is a 64-bit word read with \<open>sint\<close>.
    The arithmetic on them is the arithmetic of the release profile of the workspace (no
    \<^verbatim>\<open>overflow-checks\<close>), so \<open>+\<close>, \<open>-\<close> and \<open>*\<close> wrap.  A \<^verbatim>\<open>usize\<close> that counts or indexes the
    elements of a vector is a \<open>nat\<close>: a vector never has more than \<open>2 ^ 63 - 1\<close> elements.
  \<^item> The three ways a Rust function can end: it returns (\<open>Ok\<close>), it returns an error
    (\<open>Err\<close>), it panics (\<open>Panic\<close>), and, for the recursive decoders only, \<open>OutOfFuel\<close>,
    which the decoders are proved never to reach.
  \<^item> Loops over a slice, with and without failure, and vectors with empty slots
    (\<^verbatim>\<open>Vec<Option<T>>\<close>) as the process table has them.
\<close>

section \<open>Machine integers\<close>

type_synonym u8 = "8 word"
type_synonym u16 = "16 word"
type_synonym u32 = "32 word"
type_synonym u64 = "64 word"
type_synonym i64 = "64 word"

named_theorems word_codec \<open>facts that move between a packed word and its fields\<close>
named_theorems inv_intro \<open>preservation of the components' invariants\<close>

lemma low_bits_or_shift [word_codec]:
  fixes p k :: "'a::len word"
  shows "(push_bit n p OR k) AND mask n = k AND mask n"
  by (rule bit_word_eqI) (auto simp: bit_simps)

lemma drop_bit_or_small:
  fixes p k :: "'a::len word"
  assumes "k AND mask n = k"
  shows "drop_bit n (push_bit n p OR k) = take_bit (LENGTH('a) - n) p"
proof (rule bit_word_eqI)
  fix i assume "i < LENGTH('a)"
  have "\<not> bit k (n + i)"
    by (subst assms [symmetric]) (simp add: bit_simps)
  then show "bit (drop_bit n (push_bit n p OR k)) i = bit (take_bit (LENGTH('a) - n) p) i"
    using \<open>i < LENGTH('a)\<close>
    by (auto simp: bit_simps less_diff_conv ac_simps dest: bit_imp_le_length)
qed

lemma take_bit_word_id:
  fixes w :: "'a::len word"
  assumes "unat w < 2 ^ n"
  shows "take_bit n w = w"
proof -
  have "unat (take_bit n w) = take_bit n (unat w)" by (rule unsigned_take_bit_eq)
  also have "\<dots> = unat w" using assms by (rule take_bit_nat_eq_self)
  finally show ?thesis by (simp only: word_unat_eq_iff)
qed

lemma small_bits:
  fixes x :: "'a::len word"
  assumes "unat x < 2 ^ n" and "bit x k"
  shows "k < n"
proof -
  have "bit (take_bit n x) k"
    using assms(2) take_bit_word_id [OF assms(1)] by simp
  then show ?thesis by (simp add: bit_take_bit_iff)
qed

lemma ucast_u32_u64 [simp]:
  "unat (ucast (x :: u32) :: u64) = unat x"
  "(ucast (ucast x :: u64) :: u32) = x"
proof -
  have "unat x < 2 ^ 32" using unsigned_less [of x, where ?'a = nat] by simp
  then have "unat x < 2 ^ 64" by simp
  then show "unat (ucast x :: u64) = unat x"
    by (simp add: unsigned_ucast_eq take_bit_nat_eq_self)
  show "(ucast (ucast x :: u64) :: u32) = x"
    by (rule bit_word_eqI) (auto simp: bit_simps)
qed

lemma ucast_of_nat_u32 [simp]: "(ucast (of_nat n :: u64) :: u32) = of_nat n"
  by (rule bit_word_eqI) (auto simp: bit_simps)

lemma unat_of_nat_u32 [simp]: "n < 2 ^ 32 \<Longrightarrow> unat (of_nat n :: u32) = n"
  by (simp add: unsigned_of_nat take_bit_nat_eq_self)

lemma unat_of_nat_u64: "n < 2 ^ 64 \<Longrightarrow> unat (of_nat n :: u64) = n"
  by (simp add: unsigned_of_nat take_bit_nat_eq_self)

lemma mask_3_eq: "(7 :: 'a::len word) = mask 3"
  by (simp add: mask_eq_exp_minus_1)

lemma and_7_cases:
  fixes w :: u64
  obtains "w AND 7 = 0" | "w AND 7 = 1" | "w AND 7 = 2" | "w AND 7 = 3"
    | "w AND 7 = 4" | "w AND 7 = 5" | "w AND 7 = 6" | "w AND 7 = 7"
proof -
  have "uint (w AND 7) = uint w mod 8"
    by (simp add: mask_3_eq take_bit_eq_mask [symmetric] take_bit_eq_mod uint_mod)
  then have "uint (w AND 7) \<in> {0..<8}" by simp
  then have "uint (w AND 7) \<in> {0, 1, 2, 3, 4, 5, 6, 7}"
    unfolding atLeastLessThan_iff insert_iff empty_iff simp_thms
    by (elim conjE) presburger
  then have "w AND 7 \<in> {0, 1, 2, 3, 4, 5, 6, 7}"
    by (simp add: word_uint_eq_iff)
  then show thesis using that by blast
qed

lemma u64_inc:
  fixes x :: u64
  assumes "unat x + 1 < 2 ^ 64"
  shows "unat (x + 1) = unat x + 1" and "x < x + 1"
proof -
  show *: "unat (x + 1) = unat x + 1"
    using assms by (simp add: unat_word_ariths)
  then show "x < x + 1" by (simp add: word_less_nat_alt)
qed

lemma uint_sint_i64: "uint (w :: i64) = (if sint w < 0 then sint w + 2 ^ 64 else sint w)"
proof -
  have "sint w = signed_take_bit 63 (uint w)" by (simp add: sint_uint)
  also have "\<dots> = take_bit 64 (uint w) - 2 ^ 64 * of_bool (bit (uint w) 63)"
    using signed_take_bit_eq_take_bit_minus [of 63 "uint w"] by simp
  also have "take_bit 64 (uint w) = uint w"
    using take_bit_int_eq_self [of "uint w" 64] uint_lt2p [of w] by simp
  finally have "sint w = uint w - 2 ^ 64 * of_bool (bit (uint w) 63)" .
  then show ?thesis
    using uint_lt2p [of w] by (auto split: if_splits)
qed

lemma sint_neg_above:
  fixes x y :: i64
  assumes "sint x < 0" and "0 \<le> sint y"
  shows "y < x"
proof -
  have "sint y < 2 ^ 63" and "- (2 ^ 63) \<le> sint x"
    using sint_lt [of y] sint_ge [of x] by simp_all
  with assms show ?thesis
    by (simp add: word_less_def uint_sint_i64)
qed

lemma lex_key_less_iff:
  fixes a b m n k :: nat
  assumes "m < k" and "n < k"
  shows "a * k + m < b * k + n \<longleftrightarrow> a < b \<or> a = b \<and> m < n"
proof (cases a b rule: linorder_cases)
  case less
  then have "Suc a * k \<le> b * k" by (intro mult_le_mono1) simp
  with less assms show ?thesis by simp
next
  case greater
  then have "Suc b * k \<le> a * k" by (intro mult_le_mono1) simp
  with greater assms show ?thesis by simp
qed simp

lemma mod_add_small_iff: "a < m \<Longrightarrow> (a + n) mod m = a \<longleftrightarrow> n mod m = 0" for a m n :: nat
  using mod_eq_dvd_iff_nat [of a "a + n" m] by (simp add: mod_eq_0_iff_dvd)

text \<open>Rust's ordering of two values of a linear order.\<close>

datatype ordering = Less | Equal | Greater

definition cmp_of :: "'a::linorder \<Rightarrow> 'a \<Rightarrow> ordering" where
  "cmp_of a b = (if a < b then Less else if a = b then Equal else Greater)"

fun ordering_reverse :: "ordering \<Rightarrow> ordering" where
  "ordering_reverse Less = Greater"
| "ordering_reverse Equal = Equal"
| "ordering_reverse Greater = Less"

lemma cmp_of_reverse: "cmp_of b a = ordering_reverse (cmp_of a b)"
  by (auto simp: cmp_of_def)

lemma cmp_of_simps [simp]:
  "cmp_of a b = Equal \<longleftrightarrow> a = b"
  "cmp_of a b = Less \<longleftrightarrow> a < b"
  "cmp_of a b = Greater \<longleftrightarrow> b < a"
  by (auto simp: cmp_of_def)

section \<open>Results\<close>

datatype panic =
    IndexOutOfBounds
  | UnwrapNone
  | ExplicitPanic
  | DivOverflow

datatype ('e, 'a) outcome =
    Ok 'a
  | Err 'e
  | Panic panic
  | OutOfFuel

fun bind_o :: "('e, 'a) outcome \<Rightarrow> ('a \<Rightarrow> ('e, 'b) outcome) \<Rightarrow> ('e, 'b) outcome" where
  "bind_o (Ok a) f = f a"
| "bind_o (Err e) f = Err e"
| "bind_o (Panic p) f = Panic p"
| "bind_o OutOfFuel f = OutOfFuel"

lemma bind_o_Ok_iff: "bind_o m f = Ok b \<longleftrightarrow> (\<exists>a. m = Ok a \<and> f a = Ok b)"
  by (cases m) auto

lemma bind_o_OutOfFuel_iff:
  "bind_o m f = OutOfFuel \<longleftrightarrow> m = OutOfFuel \<or> (\<exists>a. m = Ok a \<and> f a = OutOfFuel)"
  by (cases m) auto

lemma bind_o_cong [fundef_cong]:
  "m = m' \<Longrightarrow> (\<And>a. m' = Ok a \<Longrightarrow> f a = g a) \<Longrightarrow> bind_o m f = bind_o m' g"
  by (cases m') auto

text \<open>Reading a slice at an index: out of range is a panic.\<close>

definition index_o :: "'a list \<Rightarrow> nat \<Rightarrow> ('e, 'a) outcome" where
  "index_o xs i = (if i < length xs then Ok (xs ! i) else Panic IndexOutOfBounds)"

lemma index_o_in [simp]: "i < length xs \<Longrightarrow> index_o xs i = Ok (xs ! i)"
  by (simp add: index_o_def)

lemma index_o_out [simp]: "length xs \<le> i \<Longrightarrow> index_o xs i = Panic IndexOutOfBounds"
  by (simp add: index_o_def)

lemma index_o_not_OutOfFuel [simp]: "index_o xs i \<noteq> OutOfFuel"
  by (simp add: index_o_def)

section \<open>Loops over a slice\<close>

text \<open>\<^verbatim>\<open>for (i, x) in xs.iter().enumerate()\<close> as a state transformer, started at
  index \<open>k\<close>.\<close>

primrec for_enum_from :: "nat \<Rightarrow> (nat \<Rightarrow> 'a \<Rightarrow> 's \<Rightarrow> 's) \<Rightarrow> 'a list \<Rightarrow> 's \<Rightarrow> 's" where
  "for_enum_from k f [] s = s"
| "for_enum_from k f (x # xs) s = for_enum_from (Suc k) f xs (f k x s)"

abbreviation for_enum :: "(nat \<Rightarrow> 'a \<Rightarrow> 's \<Rightarrow> 's) \<Rightarrow> 'a list \<Rightarrow> 's \<Rightarrow> 's" where
  "for_enum \<equiv> for_enum_from 0"

text \<open>Consecutive writes of a list of values from a base index.\<close>

primrec write_from :: "(nat \<Rightarrow> 'v \<Rightarrow> 's \<Rightarrow> 's) \<Rightarrow> nat \<Rightarrow> 'v list \<Rightarrow> 's \<Rightarrow> 's" where
  "write_from w b [] s = s"
| "write_from w b (v # vs) s = write_from w (Suc b) vs (w b v s)"

lemma for_enum_write:
  "(\<And>i x s. k \<le> i \<Longrightarrow> i < k + length xs \<Longrightarrow> f i x s = w (b + i) (g x) s) \<Longrightarrow>
   for_enum_from k f xs s = write_from w (b + k) (map g xs) s"
proof (induction xs arbitrary: k s)
  case Nil
  then show ?case by simp
next
  case (Cons x xs)
  have "for_enum_from (Suc k) f xs (f k x s) = write_from w (b + Suc k) (map g xs) (f k x s)"
    by (rule Cons.IH) (use Cons.prems in auto)
  with Cons.prems [of k x s] show ?case by simp
qed

lemma write_from_append:
  "write_from w b (vs @ vs') s = write_from w (b + length vs) vs' (write_from w b vs s)"
  by (induction vs arbitrary: b s) auto

section \<open>Loops that can fail\<close>

text \<open>A sequence of fallible conversions, and a fallible loop body over a list; both stop at the
  first failure.\<close>

fun map_o :: "('a \<Rightarrow> ('e, 'b) outcome) \<Rightarrow> 'a list \<Rightarrow> ('e, 'b list) outcome" where
  "map_o f [] = Ok []"
| "map_o f (x # xs) = bind_o (f x) (\<lambda>y. bind_o (map_o f xs) (\<lambda>ys. Ok (y # ys)))"

fun fold_o :: "('a \<Rightarrow> 's \<Rightarrow> ('e, 's) outcome) \<Rightarrow> 'a list \<Rightarrow> 's \<Rightarrow> ('e, 's) outcome" where
  "fold_o f [] s = Ok s"
| "fold_o f (x # xs) s = bind_o (f x s) (fold_o f xs)"

lemma map_o_Ok: "(\<And>x. x \<in> set xs \<Longrightarrow> f x = Ok (g x)) \<Longrightarrow> map_o f xs = Ok (map g xs)"
  by (induction xs) auto

lemma fold_o_Ok: "(\<And>x s. x \<in> set xs \<Longrightarrow> f x s = Ok (g x s)) \<Longrightarrow> fold_o f xs s = Ok (fold g xs s)"
  by (induction xs arbitrary: s) auto

lemma fold_o_append: "fold_o f (xs @ ys) s = bind_o (fold_o f xs s) (fold_o f ys)"
proof (induction xs arbitrary: s)
  case (Cons x xs)
  then show ?case by (cases "f x s") auto
qed simp

text \<open>A measure that each iteration raises by a fixed amount.\<close>

lemma fold_o_measure:
  assumes "\<And>x s s'. f x s = Ok s' \<Longrightarrow> m s' = m s + (g x :: nat)"
  shows "fold_o f xs s = Ok s' \<Longrightarrow> m s' = m s + sum_list (map g xs)"
proof (induction xs arbitrary: s)
  case (Cons x xs)
  then obtain s1 where "f x s = Ok s1" "fold_o f xs s1 = Ok s'" by (auto simp: bind_o_Ok_iff)
  with Cons.IH [of s1] assms [of x s s1] show ?case by simp
qed simp

section \<open>Vectors with empty slots\<close>

text \<open>\<^verbatim>\<open>Vec<Option<T>>\<close>: the first filled slot whose content satisfies a predicate, and the
  modification of a slot through a mutable reference.\<close>

fun slot_index :: "('a \<Rightarrow> bool) \<Rightarrow> 'a option list \<Rightarrow> nat option" where
  "slot_index P [] = None"
| "slot_index P (None # xs) = map_option Suc (slot_index P xs)"
| "slot_index P (Some a # xs) = (if P a then Some 0 else map_option Suc (slot_index P xs))"

definition slot_contents :: "'a option list \<Rightarrow> 'a list" where
  "slot_contents xs = List.map_filter id xs"

definition modify_slot :: "nat \<Rightarrow> ('a \<Rightarrow> 'a) \<Rightarrow> 'a option list \<Rightarrow> 'a option list" where
  "modify_slot i f xs = (if i < length xs then xs[i := map_option f (xs ! i)] else xs)"

lemma slot_contents_simps [simp]:
  "slot_contents [] = []"
  "slot_contents (None # xs) = slot_contents xs"
  "slot_contents (Some a # xs) = a # slot_contents xs"
  "slot_contents (xs @ ys) = slot_contents xs @ slot_contents ys"
  by (simp_all add: slot_contents_def List.map_filter_def)

lemma set_slot_contents: "a \<in> set (slot_contents xs) \<longleftrightarrow> Some a \<in> set xs"
  by (induction xs) (auto simp: slot_contents_def List.map_filter_def)

lemma slot_index_None: "slot_index P xs = None \<longleftrightarrow> (\<forall>a\<in>set (slot_contents xs). \<not> P a)"
  by (induction P xs rule: slot_index.induct) auto

lemma slot_index_Some:
  "slot_index P xs = Some i \<Longrightarrow> \<exists>a. i < length xs \<and> xs ! i = Some a \<and> P a"
  by (induction P xs arbitrary: i rule: slot_index.induct) (auto split: if_splits)

text \<open>When the key is unique, the slot that holds it is the one found.\<close>

lemma slot_index_unique:
  assumes "i < length xs" and "xs ! i = Some a" and "P a"
    and "\<And>j b. j < length xs \<Longrightarrow> xs ! j = Some b \<Longrightarrow> P b \<Longrightarrow> j = i"
  shows "slot_index P xs = Some i"
proof (cases "slot_index P xs")
  case None
  then have "a \<notin> set (slot_contents xs)" using assms(3) by (auto simp: slot_index_None)
  then show ?thesis using assms(1,2) nth_mem [of i xs] by (simp add: set_slot_contents)
next
  case (Some j)
  then show ?thesis using slot_index_Some [OF Some] assms(4) by auto
qed

lemma modify_slot_length [simp]: "length (modify_slot i f xs) = length xs"
  by (simp add: modify_slot_def)

lemma modify_slot_nth:
  "j < length xs \<Longrightarrow> modify_slot i f xs ! j = (if j = i then map_option f (xs ! j) else xs ! j)"
  by (auto simp: modify_slot_def)

lemma map_slot_contents_modify:
  "(\<And>a. g (f a) = g a) \<Longrightarrow> map g (slot_contents (modify_slot i f xs)) = map g (slot_contents xs)"
proof (induction xs arbitrary: i)
  case Nil
  then show ?case by (simp add: modify_slot_def)
next
  case (Cons x xs)
  have "modify_slot i f (x # xs) = (case i of 0 \<Rightarrow> map_option f x # xs | Suc k \<Rightarrow> x # modify_slot k f xs)"
    by (auto simp: modify_slot_def split: nat.split)
  with Cons.IH [OF Cons.prems] Cons.prems show ?case
    by (cases x) (auto split: nat.split)
qed

lemma slot_contents_clear:
  "i < length xs \<Longrightarrow> xs ! i = Some a \<Longrightarrow>
   mset (slot_contents xs) = add_mset a (mset (slot_contents (xs[i := None])))"
proof (induction xs arbitrary: i)
  case (Cons x xs)
  then show ?case by (cases i; cases x) auto
qed simp

lemma slot_index_cong:
  "(\<And>a. P (f a) \<longleftrightarrow> P a) \<Longrightarrow> slot_index P (modify_slot i f xs) = slot_index P xs"
proof (induction xs arbitrary: i)
  case Nil
  then show ?case by (simp add: modify_slot_def)
next
  case (Cons x xs)
  have "modify_slot i f (x # xs) = (case i of 0 \<Rightarrow> map_option f x # xs | Suc k \<Rightarrow> x # modify_slot k f xs)"
    by (auto simp: modify_slot_def split: nat.split)
  with Cons.IH [OF Cons.prems] Cons.prems show ?case
    by (cases x) (auto split: nat.split)
qed

end
