(* ===== verification/Interfaces.thy ===== *)
theory Interfaces
  imports Prelude "HOL-Library.Multiset"
begin

text \<open>
  The interfaces between the components, as locales.  Each is interpreted on the model's own
  definitions in the theory of the component that provides it.

  \<^item> \<open>fifo\<close>: a queue that hands its elements out in the order they were put in
    (\<^verbatim>\<open>SignalQueue\<close>, \<^verbatim>\<open>SaveQueue\<close>).
  \<^item> \<open>packed_codec\<close>: a packed representation and its partial inverse (\<^verbatim>\<open>to_raw\<close> and
    \<^verbatim>\<open>from_raw\<close> of the identifiers).
  \<^item> \<open>id_supply\<close>: an owner of numbered resources that numbers them with a counter (timers,
    ports, asynchronous ports).
  \<^item> \<open>cells\<close>: an indexed store whose reads follow its writes (the words of the process
    heap, the X and Y registers).
  \<^item> \<open>work_pool\<close>: a run queue as its clients see it, a multiset of entries with distinct
    keys from which work can be moved to another run queue.
\<close>

section \<open>First-in first-out queues\<close>

locale fifo =
  fixes push :: "'a \<Rightarrow> 'q \<Rightarrow> 'q"
    and pop :: "'q \<Rightarrow> 'a option \<times> 'q"
    and contents :: "'q \<Rightarrow> 'a list"
  assumes contents_push: "contents (push a q) = contents q @ [a]"
    and pop_nil: "contents q = [] \<Longrightarrow> pop q = (None, q)"
    and pop_cons: "contents q = a # as \<Longrightarrow> fst (pop q) = Some a \<and> contents (snd (pop q)) = as"
begin

fun pop_n :: "nat \<Rightarrow> 'q \<Rightarrow> 'a list \<times> 'q" where
  "pop_n 0 q = ([], q)"
| "pop_n (Suc n) q =
     (case pop q of
        (None, q') \<Rightarrow> ([], q')
      | (Some a, q') \<Rightarrow> (let (as, q'') = pop_n n q' in (a # as, q'')))"

lemma contents_push_list: "contents (fold push as q) = contents q @ as"
  by (induction as arbitrary: q) (auto simp: contents_push)

lemma pop_n_spec:
  "n \<le> length (contents q) \<Longrightarrow>
   fst (pop_n n q) = take n (contents q) \<and> contents (snd (pop_n n q)) = drop n (contents q)"
proof (induction n arbitrary: q)
  case 0
  then show ?case by simp
next
  case (Suc n)
  then obtain a as where q: "contents q = a # as"
    by (cases "contents q") auto
  then obtain q' where q': "pop q = (Some a, q')" "contents q' = as"
    using pop_cons [OF q] by (cases "pop q") auto
  with Suc.prems q have "n \<le> length (contents q')" by simp
  from Suc.IH [OF this] q q' show ?case
    by (auto split: prod.splits)
qed

text \<open>What is pushed on an empty queue comes out in the same order.\<close>

lemma push_pop_all:
  assumes "contents q = []"
  shows "fst (pop_n (length as) (fold push as q)) = as"
  using pop_n_spec [of "length as" "fold push as q"] assms
  by (simp add: contents_push_list)

lemma pop_push_nonempty:
  assumes "contents q \<noteq> []"
  shows "fst (pop (push a q)) = fst (pop q)"
proof -
  from assms obtain b bs where q: "contents q = b # bs" by (cases "contents q") auto
  then have "contents (push a q) = b # (bs @ [a])" by (simp add: contents_push)
  from pop_cons [OF this] pop_cons [OF q] show ?thesis by simp
qed

end

section \<open>Packed codecs\<close>

locale packed_codec =
  fixes enc :: "'a \<Rightarrow> 'b"
    and dec :: "'b \<Rightarrow> 'a option"
    and valid :: "'a \<Rightarrow> bool"
  assumes dec_enc: "valid a \<Longrightarrow> dec (enc a) = Some a"
    and enc_dec: "dec b = Some a \<Longrightarrow> enc a = b"
    and dec_valid: "dec b = Some a \<Longrightarrow> valid a"
begin

lemma enc_inject: "valid a \<Longrightarrow> valid a' \<Longrightarrow> enc a = enc a' \<longleftrightarrow> a = a'"
  using dec_enc by (metis option.inject)

lemma dec_inject: "dec b = Some a \<Longrightarrow> dec b' = Some a \<Longrightarrow> b = b'"
  using enc_dec by blast

lemma dom_dec: "dom dec = enc ` {a. valid a}"
  using dec_enc enc_dec dec_valid by (auto simp: dom_def image_def) metis

lemma dec_eq_iff: "dec b = Some a \<longleftrightarrow> valid a \<and> enc a = b"
  using dec_enc enc_dec dec_valid by auto

end

section \<open>Supplies of fresh identifiers\<close>

locale id_supply =
  fixes alloc :: "'arg \<Rightarrow> 's \<Rightarrow> u64 \<times> 's"
    and next_id :: "'s \<Rightarrow> u64"
    and ids :: "'s \<Rightarrow> u64 set"
  assumes alloc_fst: "fst (alloc arg s) = next_id s"
    and alloc_next: "next_id (snd (alloc arg s)) = next_id s + 1"
    and alloc_ids: "ids (snd (alloc arg s)) = insert (next_id s) (ids s)"
begin

definition below_next :: "'s \<Rightarrow> bool" where
  "below_next s \<longleftrightarrow> (\<forall>i\<in>ids s. i < next_id s)"

fun alloc_all :: "'arg list \<Rightarrow> 's \<Rightarrow> u64 list \<times> 's" where
  "alloc_all [] s = ([], s)"
| "alloc_all (a # as) s =
     (let (i, s') = alloc a s; (is, s'') = alloc_all as s' in (i # is, s''))"

lemma alloc_fresh: "below_next s \<Longrightarrow> fst (alloc arg s) \<notin> ids s"
  by (auto simp: below_next_def alloc_fst)

lemma alloc_below_next:
  assumes "below_next s" and "unat (next_id s) + 1 < 2 ^ 64"
  shows "below_next (snd (alloc arg s))"
  using assms(1) u64_inc(2) [OF assms(2)]
  by (auto simp: below_next_def alloc_next alloc_ids intro: less_trans)

text \<open>A run of allocations that does not exhaust the counter hands out distinct identifiers,
  none of them in use before.\<close>

lemma alloc_all_spec:
  "below_next s \<Longrightarrow> unat (next_id s) + length as < 2 ^ 64 \<Longrightarrow>
   distinct (fst (alloc_all as s)) \<and> set (fst (alloc_all as s)) \<inter> ids s = {} \<and>
   below_next (snd (alloc_all as s)) \<and>
   ids (snd (alloc_all as s)) = ids s \<union> set (fst (alloc_all as s))"
proof (induction as arbitrary: s)
  case Nil
  then show ?case by simp
next
  case (Cons a as)
  obtain i s' where al: "alloc a s = (i, s')" by force
  have ne: "unat (next_id s) + 1 < 2 ^ 64"
    using Cons.prems(2) by simp
  have i: "i = next_id s" and ids': "ids s' = insert i (ids s)" and nx: "next_id s' = next_id s + 1"
    using alloc_fst [of a s] alloc_ids [of a s] alloc_next [of a s] al by auto
  have b: "below_next s'"
    using alloc_below_next [OF Cons.prems(1) ne, of a] al by simp
  have "unat (next_id s') + length as < 2 ^ 64"
    unfolding nx using u64_inc(1) [OF ne] Cons.prems(2) by simp
  from Cons.IH [OF b this] show ?case
    using alloc_fresh [OF Cons.prems(1), of a] al ids'
    by (auto split: prod.splits)
qed

end

section \<open>Cell stores\<close>

text \<open>A store of cells addressed by index: reading after a write, with the writes that fall
  outside the store ignored.  \<open>ok\<close> is the invariant of the store.\<close>

locale cells =
  fixes rd :: "nat \<Rightarrow> 's \<Rightarrow> 'v"
    and wr :: "nat \<Rightarrow> 'v \<Rightarrow> 's \<Rightarrow> 's"
    and cap :: "'s \<Rightarrow> nat"
    and ok :: "'s \<Rightarrow> bool"
  assumes wr_ok: "ok s \<Longrightarrow> ok (wr i v s)"
    and wr_cap: "cap (wr i v s) = cap s"
    and rd_wr: "ok s \<Longrightarrow> rd j (wr i v s) = (if j = i \<and> i < cap s then v else rd j s)"
begin

lemma write_ok: "ok s \<Longrightarrow> ok (write_from wr b vs s)"
  by (induction vs arbitrary: b s) (auto simp: wr_ok)

lemma write_cap: "cap (write_from wr b vs s) = cap s"
  by (induction vs arbitrary: b s) (auto simp: wr_cap)

text \<open>A run of writes puts exactly its values into the cells it covers.\<close>

lemma rd_write:
  "ok s \<Longrightarrow> b + length vs \<le> cap s \<Longrightarrow>
   rd j (write_from wr b vs s) = (if b \<le> j \<and> j < b + length vs then vs ! (j - b) else rd j s)"
proof (induction vs arbitrary: b s)
  case Nil
  then show ?case by auto
next
  case (Cons v vs)
  have "rd j (write_from wr (Suc b) vs (wr b v s)) =
      (if Suc b \<le> j \<and> j < Suc b + length vs then vs ! (j - Suc b) else rd j (wr b v s))"
    by (rule Cons.IH) (use Cons.prems in \<open>simp_all add: wr_ok wr_cap\<close>)
  with Cons.prems show ?case
    by (auto simp: rd_wr nth_Cons' Suc_diff_Suc)
qed

lemma rd_write_in:
  "ok s \<Longrightarrow> b + length vs \<le> cap s \<Longrightarrow> i < length vs \<Longrightarrow> rd (b + i) (write_from wr b vs s) = vs ! i"
  by (simp add: rd_write)

lemma rd_write_below:
  "ok s \<Longrightarrow> b + length vs \<le> cap s \<Longrightarrow> j < b \<Longrightarrow> rd j (write_from wr b vs s) = rd j s"
  by (simp add: rd_write)

end

section \<open>Work pools\<close>

text \<open>A pool of entries with keys.  An entry whose key is in the pool is not added again, and a
  take hands out one entry.  \<open>move\<close> is what a work-stealing client does with two pools.\<close>

locale work_pool =
  fixes enq :: "'e \<Rightarrow> 'q \<Rightarrow> 'q"
    and deq :: "'q \<Rightarrow> 'e option \<times> 'q"
    and entries :: "'q \<Rightarrow> 'e multiset"
    and key :: "'e \<Rightarrow> 'k"
  assumes enq_new: "key e \<notin> key ` set_mset (entries q) \<Longrightarrow> entries (enq e q) = add_mset e (entries q)"
    and enq_known: "key e \<in> key ` set_mset (entries q) \<Longrightarrow> enq e q = q"
    and deq_empty: "entries q = {#} \<Longrightarrow> deq q = (None, q)"
    and deq_some: "entries q \<noteq> {#} \<Longrightarrow> \<exists>e. fst (deq q) = Some e \<and> e \<in># entries q"
    and deq_rest: "fst (deq q) = Some e \<Longrightarrow> entries (snd (deq q)) = entries q - {#e#}"
begin

definition keys :: "'q \<Rightarrow> 'k set" where
  "keys q = key ` set_mset (entries q)"

definition unique :: "'q \<Rightarrow> bool" where
  "unique q \<longleftrightarrow> inj_on key (set_mset (entries q)) \<and> (\<forall>e. count (entries q) e \<le> 1)"

fun move :: "nat \<Rightarrow> 'q \<Rightarrow> 'q \<Rightarrow> nat \<times> 'q \<times> 'q" where
  "move 0 victim thief = (0, victim, thief)"
| "move (Suc n) victim thief =
     (case deq victim of
        (Some e, victim') \<Rightarrow>
          (let (k, v, t) = move n victim' (enq e thief) in (Suc k, v, t))
      | (None, victim') \<Rightarrow> (0, victim', thief))"

lemma keys_enq [simp]: "keys (enq e q) = insert (key e) (keys q)"
  by (cases "key e \<in> keys q") (auto simp: keys_def enq_new enq_known)

lemma size_enq: "size (entries (enq e q)) = (if key e \<in> keys q then 0 else 1) + size (entries q)"
  by (simp add: keys_def enq_new enq_known)

lemma unique_new:
  assumes "unique q" and "key e \<notin> keys q"
  shows "unique (enq e q)"
proof -
  have "entries (enq e q) = add_mset e (entries q)" and "e \<notin># entries q"
    using assms(2) by (auto simp: enq_new keys_def)
  then show ?thesis
    using assms by (auto simp: unique_def keys_def inj_on_insert not_in_iff)
qed

lemma unique_enq: "unique q \<Longrightarrow> unique (enq e q)"
  using unique_new enq_known by (metis keys_def)

lemma deq_facts:
  assumes "deq q = (Some e, q')"
  shows "e \<in># entries q" "entries q' = entries q - {#e#}" "size (entries q') + 1 = size (entries q)"
    "insert (key e) (keys q') = keys q" "unique q \<Longrightarrow> unique q' \<and> key e \<notin> keys q'"
proof -
  have ne: "entries q \<noteq> {#}" using deq_empty [of q] assms by auto
  show m: "e \<in># entries q" using deq_some [OF ne] assms by auto
  show r: "entries q' = entries q - {#e#}" using deq_rest [of q e] assms by simp
  have a: "entries q = add_mset e (entries q')" using m r by simp
  then show "size (entries q') + 1 = size (entries q)" "insert (key e) (keys q') = keys q"
    by (simp_all add: keys_def)
  show "unique q' \<and> key e \<notin> keys q'" if u: "unique q"
  proof -
    have "e \<notin># entries q'"
    proof
      assume "e \<in># entries q'"
      then have "count (entries q) e \<ge> 2" unfolding a by (simp add: Suc_le_eq)
      with u show False by (auto simp: unique_def dest: spec [of _ e])
    qed
    moreover have "count (entries q') x \<le> 1" for x
      using u le_trans [of "count (entries q') x" "count (entries q) x" 1] unfolding unique_def a by simp
    ultimately show ?thesis
      using u unfolding unique_def keys_def a by (auto simp: inj_on_insert)
  qed
qed

lemma deq_None: "deq q = (None, q') \<Longrightarrow> q' = q \<and> entries q = {#}"
  using deq_empty [of q] deq_some [of q] by (cases "entries q = {#}") auto

text \<open>Moving work loses no key, and reports how many entries the victim gave up.\<close>

lemma move_spec:
  "move n victim thief = (k, v, t) \<Longrightarrow>
   k = min n (size (entries victim)) \<and> size (entries v) + k = size (entries victim)
   \<and> keys v \<union> keys t = keys victim \<union> keys thief \<and> keys v \<subseteq> keys victim
   \<and> (unique victim \<longrightarrow> unique v) \<and> (unique thief \<longrightarrow> unique t)"
proof (induction n arbitrary: victim thief k v t)
  case 0
  then show ?case by simp
next
  case (Suc n)
  show ?case
  proof (cases "deq victim")
    case (Pair r victim')
    show ?thesis
    proof (cases r)
      case None
      with Pair Suc.prems deq_None [of victim victim'] show ?thesis by auto
    next
      case (Some e)
      note d = deq_facts [of victim e victim']
      obtain k' where m: "move n victim' (enq e thief) = (k', v, t)" and k: "k = Suc k'"
        using Suc.prems Pair Some by (auto split: prod.splits)
      show ?thesis
        using Suc.IH [OF m] d Pair Some k unique_enq [of thief e] by auto
    qed
  qed
qed

text \<open>When the two pools share no key, every entry arrives: nothing is lost, nothing doubled.\<close>

lemma move_disjoint:
  "move n victim thief = (k, v, t) \<Longrightarrow> unique victim \<Longrightarrow> keys victim \<inter> keys thief = {} \<Longrightarrow>
   entries v + entries t = entries victim + entries thief \<and> keys v \<inter> keys t = {}"
proof (induction n arbitrary: victim thief k v t)
  case 0
  then show ?case by simp
next
  case (Suc n)
  show ?case
  proof (cases "deq victim")
    case (Pair r victim')
    show ?thesis
    proof (cases r)
      case None
      with Pair Suc.prems deq_None [of victim victim'] show ?thesis by auto
    next
      case (Some e)
      note d = deq_facts [of victim e victim']
      have e: "key e \<in> keys victim" "key e \<notin> keys thief"
        using d Pair Some Suc.prems(3) by auto
      obtain k' where m: "move n victim' (enq e thief) = (k', v, t)"
        using Suc.prems(1) Pair Some by (auto split: prod.splits)
      have "unique victim'" "keys victim' \<inter> keys (enq e thief) = {}"
        using d(4,5) Pair Some Suc.prems(2,3) by auto
      from Suc.IH [OF m this] show ?thesis
        using d(1,2) Pair Some e(2) by (simp add: enq_new keys_def)
    qed
  qed
qed

end

end
