(* ===== verification/Terms.thy ===== *)
theory Terms
  imports Prelude
begin

text \<open>
  Tagged terms (\<^verbatim>\<open>crates/chimera_erlang_beam_term/src/lib.rs\<close>).

  A term is one 64-bit word: the low three bits are the tag, the rest is a small integer, an
  atom index or a heap pointer.  The theory models the constructors, the decoders, the type
  tests, the two comparisons (\<open>term_compare\<close> for \<^verbatim>\<open>compare\<close> and \<open>term_cmp\<close>), the size
  and copy helpers and the reference iterator of the garbage collector.  The lemmas give the
  round trips between values and words, that \<open>term_cmp\<close> is a linear order (the instance
  \<open>beam_term :: linorder\<close>), and how the two comparisons relate on small integers.

  Not modelled: \<^verbatim>\<open>hash\<close> and \<^verbatim>\<open>hash_with\<close>, which only call the standard hasher.
\<close>

section \<open>Tags\<close>

datatype term_tag =
    TagSmallInteger
  | TagAtom
  | TagCons
  | TagTuple
  | TagFloat
  | TagBinary
  | TagMap
  | TagFun

text \<open>The discriminants of \<^verbatim>\<open>#[repr(u8)] enum TermTag\<close>.\<close>

fun tag_num :: "term_tag \<Rightarrow> u64" where
  "tag_num TagSmallInteger = 0"
| "tag_num TagAtom = 1"
| "tag_num TagCons = 2"
| "tag_num TagTuple = 3"
| "tag_num TagFloat = 4"
| "tag_num TagBinary = 5"
| "tag_num TagMap = 6"
| "tag_num TagFun = 7"

lemma tag_num_inject [simp]: "tag_num s = tag_num t \<longleftrightarrow> s = t"
  by (cases s; cases t) simp_all

lemma tag_num_and_mask [simp]: "tag_num t AND mask 3 = tag_num t"
  by (cases t) (simp_all add: mask_eq_exp_minus_1)

text \<open>\<^verbatim>\<open>TermTag\<close> derives its order from the discriminants.\<close>

instantiation term_tag :: linorder
begin

definition less_eq_term_tag :: "term_tag \<Rightarrow> term_tag \<Rightarrow> bool" where
  "less_eq_term_tag s t \<longleftrightarrow> tag_num s \<le> tag_num t"

definition less_term_tag :: "term_tag \<Rightarrow> term_tag \<Rightarrow> bool" where
  "less_term_tag s t \<longleftrightarrow> tag_num s < tag_num t"

instance
  by standard (auto simp: less_eq_term_tag_def less_term_tag_def order.strict_iff_order)

end

section \<open>Terms\<close>

datatype beam_term = Term (term_raw: u64)

definition from_raw :: "u64 \<Rightarrow> beam_term" where
  "from_raw val = Term val"

definition i64_to_u64_bits :: "i64 \<Rightarrow> u64" where
  "i64_to_u64_bits x = push_bit 3 x"

definition u64_bits_to_i64 :: "u64 \<Rightarrow> i64" where
  "u64_bits_to_i64 x = signed_drop_bit 3 x"

definition SMALL_MIN :: i64 where
  "SMALL_MIN = - (2 ^ 59)"

definition SMALL_MAX :: i64 where
  "SMALL_MAX = 2 ^ 59 - 1"

definition is_small_int :: "i64 \<Rightarrow> bool" where
  "is_small_int x \<longleftrightarrow> sint SMALL_MIN \<le> sint x \<and> sint x \<le> sint SMALL_MAX"

definition from_small_checked :: "i64 \<Rightarrow> beam_term option" where
  "from_small_checked x = (if is_small_int x then Some (Term (i64_to_u64_bits x)) else None)"

definition from_small_unchecked :: "i64 \<Rightarrow> beam_term" where
  "from_small_unchecked x = Term (i64_to_u64_bits x)"

definition from_small :: "i64 \<Rightarrow> ('e, beam_term) outcome" where
  "from_small x = (if is_small_int x then Ok (Term (i64_to_u64_bits x)) else Panic ExplicitPanic)"

definition to_small :: "beam_term \<Rightarrow> i64" where
  "to_small t = u64_bits_to_i64 (term_raw t)"

text \<open>The tag of a term: the low three bits, the last case unreachable.\<close>

definition tag :: "beam_term \<Rightarrow> term_tag" where
  "tag t =
     (let r = (ucast (term_raw t AND 7) :: u8)
      in if r = 0 then TagSmallInteger
         else if r = 1 then TagAtom
         else if r = 2 then TagCons
         else if r = 3 then TagTuple
         else if r = 4 then TagFloat
         else if r = 5 then TagBinary
         else if r = 6 then TagMap
         else if r = 7 then TagFun
         else TagSmallInteger)"

definition to_small_opt :: "beam_term \<Rightarrow> i64 option" where
  "to_small_opt t = (if tag t = TagSmallInteger then Some (to_small t) else None)"

definition is_small :: "beam_term \<Rightarrow> bool" where
  "is_small t \<longleftrightarrow> tag t = TagSmallInteger"

definition is_atom :: "beam_term \<Rightarrow> bool" where
  "is_atom t \<longleftrightarrow> tag t = TagAtom"

definition is_cons :: "beam_term \<Rightarrow> bool" where
  "is_cons t \<longleftrightarrow> tag t = TagCons"

definition is_map :: "beam_term \<Rightarrow> bool" where
  "is_map t \<longleftrightarrow> tag t = TagMap"

definition is_binary :: "beam_term \<Rightarrow> bool" where
  "is_binary t \<longleftrightarrow> tag t = TagBinary"

definition is_float :: "beam_term \<Rightarrow> bool" where
  "is_float t \<longleftrightarrow> tag t = TagFloat"

definition is_fun :: "beam_term \<Rightarrow> bool" where
  "is_fun t \<longleftrightarrow> tag t = TagFun"

definition is_immediate :: "beam_term \<Rightarrow> bool" where
  "is_immediate t \<longleftrightarrow> tag t = TagSmallInteger \<or> tag t = TagAtom"

definition is_boxed :: "beam_term \<Rightarrow> bool" where
  "is_boxed t \<longleftrightarrow> \<not> is_immediate t"

definition from_atom :: "u32 \<Rightarrow> beam_term" where
  "from_atom i = Term (push_bit 3 (ucast i) OR tag_num TagAtom)"

definition to_atom :: "beam_term \<Rightarrow> u32" where
  "to_atom t = ucast (drop_bit 3 (term_raw t))"

definition from_cons :: "u64 \<Rightarrow> beam_term" where
  "from_cons ptr = Term (push_bit 3 ptr OR tag_num TagCons)"

definition to_cons :: "beam_term \<Rightarrow> u64" where
  "to_cons t = drop_bit 3 (term_raw t)"

definition from_tuple :: "u64 \<Rightarrow> beam_term" where
  "from_tuple ptr = Term (push_bit 3 ptr OR tag_num TagTuple)"

definition to_tuple :: "beam_term \<Rightarrow> u64" where
  "to_tuple t = drop_bit 3 (term_raw t)"

definition from_map :: "u64 \<Rightarrow> beam_term" where
  "from_map ptr = Term (push_bit 3 ptr OR tag_num TagMap)"

definition to_map :: "beam_term \<Rightarrow> u64" where
  "to_map t = drop_bit 3 (term_raw t)"

definition from_binary_ptr :: "u64 \<Rightarrow> beam_term" where
  "from_binary_ptr ptr = Term (push_bit 3 ptr OR tag_num TagBinary)"

definition to_binary :: "beam_term \<Rightarrow> u64" where
  "to_binary t = drop_bit 3 (term_raw t)"

definition from_float_ptr :: "u64 \<Rightarrow> beam_term" where
  "from_float_ptr ptr = Term (push_bit 3 ptr OR tag_num TagFloat)"

definition to_float :: "beam_term \<Rightarrow> u64" where
  "to_float t = drop_bit 3 (term_raw t)"

definition from_fun_ptr :: "u64 \<Rightarrow> beam_term" where
  "from_fun_ptr ptr = Term (push_bit 3 ptr OR tag_num TagFun)"

definition to_fun :: "beam_term \<Rightarrow> u64" where
  "to_fun t = drop_bit 3 (term_raw t)"

definition nil :: beam_term where
  "nil = from_atom 2"

definition is_nil :: "beam_term \<Rightarrow> bool" where
  "is_nil t \<longleftrightarrow> term_raw t = term_raw nil"

definition as_atom_index :: "beam_term \<Rightarrow> u32 option" where
  "as_atom_index t = (if tag t = TagAtom then Some (to_atom t) else None)"

text \<open>The predefined atoms (\<^verbatim>\<open>mod atoms\<close>).\<close>

definition ATOM_FALSE :: u32 where "ATOM_FALSE = 0"
definition ATOM_TRUE :: u32 where "ATOM_TRUE = 1"
definition ATOM_NIL :: u32 where "ATOM_NIL = 2"
definition ATOM_UNDEFINED :: u32 where "ATOM_UNDEFINED = 3"
definition ATOM_OK :: u32 where "ATOM_OK = 4"
definition ATOM_ERROR :: u32 where "ATOM_ERROR = 5"
definition ATOM_BADARG :: u32 where "ATOM_BADARG = 6"
definition ATOM_EXIT :: u32 where "ATOM_EXIT = 7"
definition ATOM_NORMAL :: u32 where "ATOM_NORMAL = 8"
definition ATOM_KILL :: u32 where "ATOM_KILL = 9"
definition ATOM_RUNNING :: u32 where "ATOM_RUNNING = 15"
definition ATOM_WAITING :: u32 where "ATOM_WAITING = 16"
definition ATOM_EXITING :: u32 where "ATOM_EXITING = 17"
definition ATOM_GARBAGE_COLLECTING :: u32 where "ATOM_GARBAGE_COLLECTING = 18"
definition ATOM_SUSPENDED :: u32 where "ATOM_SUSPENDED = 19"
definition ATOM_DEAD :: u32 where "ATOM_DEAD = 20"
definition ATOM_LOW :: u32 where "ATOM_LOW = 21"
definition ATOM_HIGH :: u32 where "ATOM_HIGH = 22"
definition ATOM_MAX :: u32 where "ATOM_MAX = 23"
definition ATOM_MINOR :: u32 where "ATOM_MINOR = 28"
definition ATOM_MAJOR :: u32 where "ATOM_MAJOR = 29"

section \<open>Sizes, copying and tracing\<close>

definition term_size_words :: "beam_term \<Rightarrow> nat" where
  "term_size_words t =
     (case tag t of
        TagSmallInteger \<Rightarrow> 0
      | TagAtom \<Rightarrow> 0
      | TagCons \<Rightarrow> 3
      | TagTuple \<Rightarrow> 0
      | TagFloat \<Rightarrow> 3
      | TagBinary \<Rightarrow> 2
      | TagMap \<Rightarrow> 0
      | TagFun \<Rightarrow> 0)"

definition total_size_words :: "beam_term \<Rightarrow> nat" where
  "total_size_words t =
     (case tag t of
        TagSmallInteger \<Rightarrow> 1
      | TagAtom \<Rightarrow> 1
      | TagCons \<Rightarrow> 3
      | TagTuple \<Rightarrow> 1
      | TagFloat \<Rightarrow> 3
      | TagBinary \<Rightarrow> 2
      | TagMap \<Rightarrow> 1
      | TagFun \<Rightarrow> 1)"

definition term_copy_size_words :: "beam_term \<Rightarrow> nat" where
  "term_copy_size_words t = (if is_immediate t then 0 else 1)"

datatype copy_result = Copied beam_term | OutOfSpace | Unsupported

definition copy_to_buffer :: "beam_term \<Rightarrow> u64 list \<Rightarrow> nat \<Rightarrow> copy_result \<times> u64 list" where
  "copy_to_buffer t dest offset =
     (if is_immediate t then
        if offset < length dest
        then (Copied (Term (term_raw t)), dest[offset := term_raw t])
        else (OutOfSpace, dest)
      else
        if offset < length dest
        then (Copied (Term (term_raw t)), dest[offset := term_raw t])
        else (OutOfSpace, dest))"

datatype term_references = NoRefs | ConsRefs u64 | TupleRef u64

definition trace_references :: "beam_term \<Rightarrow> term_references" where
  "trace_references t =
     (case tag t of
        TagSmallInteger \<Rightarrow> NoRefs
      | TagAtom \<Rightarrow> NoRefs
      | TagCons \<Rightarrow> (let ptr = to_cons t in if ptr = 0 then NoRefs else ConsRefs ptr)
      | TagTuple \<Rightarrow> (let ptr = to_tuple t in if ptr = 0 then NoRefs else TupleRef ptr)
      | _ \<Rightarrow> NoRefs)"

text \<open>\<^verbatim>\<open>Iterator::next\<close>: the item and the iterator's next state.\<close>

fun references_next :: "term_references \<Rightarrow> beam_term option \<times> term_references" where
  "references_next NoRefs = (None, NoRefs)"
| "references_next (ConsRefs ptr) = (Some (from_cons ptr), NoRefs)"
| "references_next (TupleRef ptr) = (Some (from_tuple ptr), NoRefs)"

section \<open>Comparisons\<close>

definition term_eq :: "beam_term \<Rightarrow> beam_term \<Rightarrow> bool" where
  "term_eq a b \<longleftrightarrow> term_raw a = term_raw b"

definition term_compare :: "beam_term \<Rightarrow> beam_term \<Rightarrow> ordering option" where
  "term_compare a b =
     (let tag_ord = cmp_of (tag a) (tag b)
      in if tag_ord \<noteq> Equal then Some tag_ord
         else case tag a of
                TagSmallInteger \<Rightarrow> Some (cmp_of (sint (to_small a)) (sint (to_small b)))
              | TagAtom \<Rightarrow> Some (cmp_of (to_atom a) (to_atom b))
              | _ \<Rightarrow> Some (cmp_of (drop_bit 3 (term_raw a)) (drop_bit 3 (term_raw b))))"

fun tag_order :: "term_tag \<Rightarrow> u8" where
  "tag_order TagSmallInteger = 0"
| "tag_order TagCons = 1"
| "tag_order TagAtom = 2"
| "tag_order TagTuple = 3"
| "tag_order TagFloat = 4"
| "tag_order TagBinary = 5"
| "tag_order TagMap = 6"
| "tag_order TagFun = 7"

definition term_cmp :: "beam_term \<Rightarrow> beam_term \<Rightarrow> ordering" where
  "term_cmp a b =
     (if tag a = tag b then cmp_of (term_raw a) (term_raw b)
      else cmp_of (tag_order (tag a)) (tag_order (tag b)))"

section \<open>Tags of constructed terms\<close>

lemma ucast_and_7: "(ucast (w AND 7 :: u64) :: u8) = ucast w AND 7"
  by (rule bit_word_eqI) (auto simp: bit_simps mask_3_eq)

lemma tag_num_tag: "tag_num (tag t) = term_raw t AND 7"
  by (cases "term_raw t" rule: and_7_cases) (simp_all add: tag_def)

lemma tag_eqI: "term_raw t AND 7 = tag_num g \<Longrightarrow> tag t = g"
  by (simp add: tag_num_tag [symmetric])

lemma tag_shift_or [simp]: "tag (Term (push_bit 3 p OR tag_num g)) = g"
  by (rule tag_eqI) (simp add: mask_3_eq word_codec)

lemma tag_shift [simp]: "tag (Term (push_bit 3 p)) = TagSmallInteger"
  using tag_shift_or [of p TagSmallInteger] by simp

lemma payload_shift_or:
  fixes p :: u64
  shows "drop_bit 3 (push_bit 3 p OR tag_num g) = take_bit 61 p"
  using drop_bit_or_small [of "tag_num g" 3 p] by simp

lemma term_eq_parts:
  "Term w = Term (push_bit 3 (drop_bit 3 w) OR tag_num (tag (Term w)))"
proof -
  have "w = push_bit 3 (drop_bit 3 w) OR (w AND mask 3)"
    by (rule bit_word_eqI) (auto simp: bit_simps)
  then show ?thesis by (simp add: tag_num_tag mask_3_eq)
qed

lemmas term_constructor_defs =
  from_atom_def from_cons_def from_tuple_def from_map_def from_binary_ptr_def
  from_float_ptr_def from_fun_ptr_def

lemma tag_from [simp]:
  "tag (from_atom i) = TagAtom"
  "tag (from_cons p) = TagCons"
  "tag (from_tuple p) = TagTuple"
  "tag (from_map p) = TagMap"
  "tag (from_binary_ptr p) = TagBinary"
  "tag (from_float_ptr p) = TagFloat"
  "tag (from_fun_ptr p) = TagFun"
  by (simp_all only: term_constructor_defs tag_shift_or)

lemma to_from_ptr:
  "to_cons (from_cons p) = take_bit 61 p"
  "to_tuple (from_tuple p) = take_bit 61 p"
  "to_map (from_map p) = take_bit 61 p"
  "to_binary (from_binary_ptr p) = take_bit 61 p"
  "to_float (from_float_ptr p) = take_bit 61 p"
  "to_fun (from_fun_ptr p) = take_bit 61 p"
  unfolding term_constructor_defs to_cons_def to_tuple_def to_map_def to_binary_def
    to_float_def to_fun_def beam_term.sel payload_shift_or
  by (rule refl)+

lemma to_from_atom [simp]: "to_atom (from_atom i) = i"
proof -
  have "drop_bit 3 (term_raw (from_atom i)) = take_bit 61 (ucast i)"
    unfolding from_atom_def beam_term.sel by (rule payload_shift_or)
  then show ?thesis
    by (auto simp: to_atom_def bit_simps intro!: bit_word_eqI dest: bit_imp_le_length)
qed

lemma from_atom_inject [simp]: "from_atom i = from_atom j \<longleftrightarrow> i = j"
  by (metis to_from_atom)

lemma to_from_ptr_id:
  assumes "unat p < 2 ^ 61"
  shows "to_cons (from_cons p) = p"
    and "to_tuple (from_tuple p) = p"
    and "to_map (from_map p) = p"
    and "to_binary (from_binary_ptr p) = p"
    and "to_float (from_float_ptr p) = p"
    and "to_fun (from_fun_ptr p) = p"
  using take_bit_word_id [OF assms] by (simp_all add: to_from_ptr)

section \<open>Small integers\<close>

lemma is_small_int_iff: "is_small_int x \<longleftrightarrow> - (2 ^ 59) \<le> sint x \<and> sint x < 2 ^ 59"
proof -
  have "sint SMALL_MIN = - (2 ^ 59)" and "sint SMALL_MAX = 2 ^ 59 - 1"
    by (simp_all add: SMALL_MIN_def SMALL_MAX_def)
  then show ?thesis by (auto simp: is_small_int_def)
qed

lemma small_bits_roundtrip:
  assumes "- (2 ^ 60) \<le> sint x" and "sint x < 2 ^ 60"
  shows "u64_bits_to_i64 (i64_to_u64_bits x) = x"
proof -
  have "sint (push_bit 3 x) = signed_take_bit 63 (sint x * 8)"
    by (simp add: push_bit_eq_mult sint_word_mult)
  also have "\<dots> = sint x * 8"
    using assms by (intro signed_take_bit_int_eq_self) auto
  finally have "sint (signed_drop_bit 3 (push_bit 3 x)) = sint x"
    by (simp add: sint_signed_drop_bit_eq drop_bit_eq_div)
  then have "signed_drop_bit 3 (push_bit 3 x) = x"
    by (rule signed_word_eqI)
  then show ?thesis
    by (simp add: u64_bits_to_i64_def i64_to_u64_bits_def)
qed

lemma is_small_int_bounds:
  "is_small_int x \<Longrightarrow> - (2 ^ 60) \<le> sint x" "is_small_int x \<Longrightarrow> sint x < 2 ^ 60"
  by (simp_all add: is_small_int_iff)

lemma from_small_Ok:
  "from_small x = Ok t \<longleftrightarrow> is_small_int x \<and> t = Term (i64_to_u64_bits x)"
  by (auto simp: from_small_def)

lemma to_small_bits [simp]:
  "is_small_int x \<Longrightarrow> to_small (Term (i64_to_u64_bits x)) = x"
  using small_bits_roundtrip [OF is_small_int_bounds] by (simp add: to_small_def)

lemma tag_small_bits [simp]: "tag (Term (i64_to_u64_bits x)) = TagSmallInteger"
  by (simp add: i64_to_u64_bits_def)

lemma to_small_opt_bits [simp]:
  "is_small_int x \<Longrightarrow> to_small_opt (Term (i64_to_u64_bits x)) = Some x"
  by (simp add: to_small_opt_def)

section \<open>The order of terms\<close>

lemma tag_order_inject [simp]: "tag_order s = tag_order t \<longleftrightarrow> s = t"
  by (cases s; cases t) simp_all

lemma unat_tag_order_inject [simp]:
  "unat (tag_order s) = unat (tag_order t) \<longleftrightarrow> s = t"
  by (metis tag_order_inject unsigned_word_eqI)

lemma term_cmp_Equal: "term_cmp a b = Equal \<longleftrightarrow> a = b"
  by (cases a; cases b) (auto simp: term_cmp_def)

lemma term_cmp_reverse: "term_cmp b a = ordering_reverse (term_cmp a b)"
  by (auto simp: term_cmp_def intro: cmp_of_reverse)

text \<open>The order read as a number: the rank of the tag above the 64 bits of the word.\<close>

definition term_key :: "beam_term \<Rightarrow> nat" where
  "term_key t = unat (tag_order (tag t)) * 2 ^ 64 + unat (term_raw t)"

lemma term_key_less: "term_cmp a b = Less \<longleftrightarrow> term_key a < term_key b"
proof -
  have "term_key a < term_key b \<longleftrightarrow>
      unat (tag_order (tag a)) < unat (tag_order (tag b)) \<or>
      unat (tag_order (tag a)) = unat (tag_order (tag b)) \<and> unat (term_raw a) < unat (term_raw b)"
    unfolding term_key_def
    by (rule lex_key_less_iff) (use unsigned_less [where w = "term_raw a"] unsigned_less [where w = "term_raw b"] in simp_all)
  then show ?thesis
    by (auto simp: term_cmp_def word_less_nat_alt)
qed

lemma term_key_Greater: "term_cmp a b = Greater \<longleftrightarrow> term_key b < term_key a"
proof -
  have "term_cmp a b = Greater \<longleftrightarrow> term_cmp b a = Less"
    unfolding term_cmp_reverse [where a = a and b = b] by (cases "term_cmp a b") simp_all
  then show ?thesis by (simp add: term_key_less)
qed

lemma term_key_inject [simp]: "term_key a = term_key b \<longleftrightarrow> a = b"
proof
  assume "term_key a = term_key b"
  then have "term_cmp a b \<noteq> Less" and "term_cmp a b \<noteq> Greater"
    by (simp_all add: term_key_less term_key_Greater)
  then have "term_cmp a b = Equal" by (cases "term_cmp a b") simp_all
  then show "a = b" by (simp add: term_cmp_Equal)
qed simp

lemma term_key_le: "term_cmp a b \<noteq> Greater \<longleftrightarrow> term_key a \<le> term_key b"
  by (simp add: term_key_Greater not_less)

text \<open>\<^verbatim>\<open>impl Ord for Term\<close>: the order of the library's classes is \<open>term_cmp\<close>.\<close>

instantiation beam_term :: linorder
begin

definition less_beam_term :: "beam_term \<Rightarrow> beam_term \<Rightarrow> bool" where
  "less_beam_term a b \<longleftrightarrow> term_cmp a b = Less"

definition less_eq_beam_term :: "beam_term \<Rightarrow> beam_term \<Rightarrow> bool" where
  "less_eq_beam_term a b \<longleftrightarrow> term_cmp a b \<noteq> Greater"

instance
  by standard (auto simp: less_beam_term_def less_eq_beam_term_def term_key_less term_key_le)

end

lemma sint_small_bits:
  assumes "is_small_int x"
  shows "sint (i64_to_u64_bits x) = sint x * 8"
proof -
  have "sint (i64_to_u64_bits x) = signed_take_bit 63 (sint x * 8)"
    by (simp add: i64_to_u64_bits_def push_bit_eq_mult sint_word_mult)
  also have "\<dots> = sint x * 8"
    using assms by (intro signed_take_bit_int_eq_self) (auto simp: is_small_int_iff)
  finally show ?thesis .
qed

section \<open>Properties\<close>

text \<open>Small integers round-trip through the tagged word: inside the small range
  \<^verbatim>\<open>from_small\<close> and \<^verbatim>\<open>from_small_checked\<close> build a term with the small-integer tag
  whose value is read back unchanged; outside it the first panics and the second returns
  \<^verbatim>\<open>None\<close>.\<close>

theorem small_int_roundtrip:
  "if is_small_int x
   then \<exists>t. (from_small x :: ('e, beam_term) outcome) = Ok t \<and> from_small_checked x = Some t
          \<and> tag t = TagSmallInteger \<and> to_small_opt t = Some x
   else (from_small x :: ('e, beam_term) outcome) = Panic ExplicitPanic
          \<and> from_small_checked x = None"
  by (simp add: from_small_def from_small_checked_def)

text \<open>Tagged pointers and atoms: for every heap index below \<open>2 ^ 61\<close> each pointer
  constructor produces a term of its own tag from which its decoder returns the index, and
  every atom index survives unchanged.\<close>

theorem tagged_pointers_roundtrip:
  assumes "unat p < 2 ^ 61"
  shows "tag (from_cons p) = TagCons \<and> to_cons (from_cons p) = p
    \<and> tag (from_tuple p) = TagTuple \<and> to_tuple (from_tuple p) = p
    \<and> tag (from_map p) = TagMap \<and> to_map (from_map p) = p
    \<and> tag (from_binary_ptr p) = TagBinary \<and> to_binary (from_binary_ptr p) = p
    \<and> tag (from_float_ptr p) = TagFloat \<and> to_float (from_float_ptr p) = p
    \<and> tag (from_fun_ptr p) = TagFun \<and> to_fun (from_fun_ptr p) = p
    \<and> tag (from_atom i) = TagAtom \<and> to_atom (from_atom i) = i"
  using to_from_ptr_id [OF assms] by simp

theorem tagged_pointers_roundtrip_witness:
  "to_cons (from_cons 4096) = 4096 \<and> to_fun (from_fun_ptr 4096) = 4096"
  using tagged_pointers_roundtrip [of 4096 0] by simp

text \<open>\<^verbatim>\<open>Ord for Term\<close> is a linear order that agrees with equality of the words:
  it is antisymmetric, transitive and total, and \<^verbatim>\<open>Equal\<close> means the same term.\<close>

theorem term_cmp_linear:
  "(term_cmp a b = Equal \<longleftrightarrow> term_eq a b)
   \<and> term_cmp b a = ordering_reverse (term_cmp a b)
   \<and> (term_cmp a b \<noteq> Greater \<and> term_cmp b c \<noteq> Greater \<longrightarrow> term_cmp a c \<noteq> Greater)"
proof (intro conjI impI)
  show "term_cmp a b = Equal \<longleftrightarrow> term_eq a b"
    by (cases a; cases b) (auto simp: term_cmp_Equal term_eq_def)
  show "term_cmp b a = ordering_reverse (term_cmp a b)"
    by (rule term_cmp_reverse)
  assume "term_cmp a b \<noteq> Greater \<and> term_cmp b c \<noteq> Greater"
  then have "a \<le> b" and "b \<le> c" by (simp_all add: less_eq_beam_term_def)
  then show "term_cmp a c \<noteq> Greater"
    using order_trans [of a b c] by (simp add: less_eq_beam_term_def)
qed

theorem term_cmp_linear_witness:
  "term_cmp (from_atom 1) (from_atom 4) \<noteq> Greater"
proof -
  have "term_cmp (from_atom 1) (from_atom 2) \<noteq> Greater \<and> term_cmp (from_atom 2) (from_atom 4) \<noteq> Greater"
    by (simp add: term_cmp_def from_atom_def tag_def)
  then show ?thesis
    using term_cmp_linear [of "from_atom 1" "from_atom 2" "from_atom 4"] by blast
qed

text \<open>On small integers \<^verbatim>\<open>compare\<close> is the order of the values, while
  \<^verbatim>\<open>term_cmp\<close> compares the unsigned words and so puts every negative integer above every
  non-negative one.\<close>

theorem small_int_comparisons:
  assumes "is_small_int x" and "is_small_int y"
  shows "term_compare (Term (i64_to_u64_bits x)) (Term (i64_to_u64_bits y))
           = Some (cmp_of (sint x) (sint y))
    \<and> (sint x < 0 \<and> 0 \<le> sint y \<longrightarrow>
         term_cmp (Term (i64_to_u64_bits x)) (Term (i64_to_u64_bits y)) = Greater)"
  using assms sint_neg_above [of "i64_to_u64_bits x" "i64_to_u64_bits y"]
  by (auto simp: term_compare_def term_cmp_def sint_small_bits)

theorem small_int_comparisons_witness:
  "term_compare (Term (i64_to_u64_bits (- 1))) (Term (i64_to_u64_bits 1)) = Some Less
   \<and> term_cmp (Term (i64_to_u64_bits (- 1))) (Term (i64_to_u64_bits 1)) = Greater"
  using small_int_comparisons [of "- 1" 1] by (simp add: is_small_int_iff cmp_of_def)

end
