(* ===== verification/Boxed.thy ===== *)
theory Boxed
  imports Terms
begin

text \<open>
  Headers of boxed objects (\<^verbatim>\<open>crates/chimera_erlang_beam_term/src/boxed.rs\<close>).

  A header is a 64-bit word: three tag bits, a five-bit sub-tag and a 24-bit size in words.
  The theory models the header constructors and the extractors, and proves that a header
  made by \<open>boxed_header_new\<close> gives back its sub-tag and its size modulo \<open>2 ^ 24\<close>.
\<close>

datatype boxed_sub_tag =
    SubCons
  | SubTuple
  | SubFloat
  | SubBinary
  | SubMap
  | SubFun
  | SubBigInteger
  | SubRef

fun sub_tag_num :: "boxed_sub_tag \<Rightarrow> u64" where
  "sub_tag_num SubCons = 0"
| "sub_tag_num SubTuple = 1"
| "sub_tag_num SubFloat = 2"
| "sub_tag_num SubBinary = 3"
| "sub_tag_num SubMap = 4"
| "sub_tag_num SubFun = 5"
| "sub_tag_num SubBigInteger = 6"
| "sub_tag_num SubRef = 7"

datatype boxed_header = BoxedHeader (header_raw: u64)

definition boxed_header_new :: "boxed_sub_tag \<Rightarrow> u32 \<Rightarrow> boxed_header" where
  "boxed_header_new sub sz =
     BoxedHeader (tag_num TagCons OR push_bit 3 (sub_tag_num sub)
       OR push_bit 8 (ucast sz AND 0xFFFFFF))"

definition boxed_header_tag :: "boxed_header \<Rightarrow> term_tag" where
  "boxed_header_tag h = TagCons"

definition extract_tag :: "u64 \<Rightarrow> term_tag" where
  "extract_tag w =
     (let r = w AND 7
      in if r = 0 then TagSmallInteger
         else if r = 1 then TagAtom
         else if r = 2 then TagCons
         else if r = 3 then TagTuple
         else if r = 4 then TagFloat
         else if r = 5 then TagBinary
         else if r = 6 then TagMap
         else if r = 7 then TagFun
         else TagSmallInteger)"

definition extract_sub_tag :: "u64 \<Rightarrow> boxed_sub_tag" where
  "extract_sub_tag header =
     (let bits = drop_bit 3 header AND 0x1F
      in if bits = 0 then SubCons
         else if bits = 1 then SubTuple
         else if bits = 2 then SubFloat
         else if bits = 3 then SubBinary
         else if bits = 4 then SubMap
         else if bits = 5 then SubFun
         else if bits = 6 then SubBigInteger
         else if bits = 7 then SubRef
         else SubCons)"

definition extract_size :: "u64 \<Rightarrow> u32" where
  "extract_size header = ucast (drop_bit 8 header AND 0xFFFFFF)"

definition boxed_header_sub_tag :: "boxed_header \<Rightarrow> boxed_sub_tag" where
  "boxed_header_sub_tag h =
     (let bits = drop_bit 3 (header_raw h) AND 0x1F
      in if bits = 0 then SubCons
         else if bits = 1 then SubTuple
         else if bits = 2 then SubFloat
         else if bits = 3 then SubBinary
         else if bits = 4 then SubMap
         else if bits = 5 then SubFun
         else if bits = 6 then SubBigInteger
         else if bits = 7 then SubRef
         else SubCons)"

definition boxed_header_size :: "boxed_header \<Rightarrow> u32" where
  "boxed_header_size h = ucast (drop_bit 8 (header_raw h) AND 0xFFFFFF)"

definition boxed_header_is_cons :: "boxed_header \<Rightarrow> bool" where
  "boxed_header_is_cons h \<longleftrightarrow> boxed_header_sub_tag h = SubCons"

definition boxed_header_is_tuple :: "boxed_header \<Rightarrow> bool" where
  "boxed_header_is_tuple h \<longleftrightarrow> boxed_header_sub_tag h = SubTuple"

definition boxed_header_is_float :: "boxed_header \<Rightarrow> bool" where
  "boxed_header_is_float h \<longleftrightarrow> boxed_header_sub_tag h = SubFloat"

definition boxed_header_is_binary :: "boxed_header \<Rightarrow> bool" where
  "boxed_header_is_binary h \<longleftrightarrow> boxed_header_sub_tag h = SubBinary"

fun header_words :: "boxed_sub_tag \<Rightarrow> u32" where
  "header_words SubCons = 2"
| "header_words SubTuple = 1"
| "header_words SubFloat = 1"
| "header_words SubBinary = 2"
| "header_words SubMap = 1"
| "header_words SubFun = 3"
| "header_words SubBigInteger = 1"
| "header_words SubRef = 1"

definition total_size :: "boxed_sub_tag \<Rightarrow> u32 \<Rightarrow> u32" where
  "total_size sub element_count = header_words sub + element_count"

definition cons_header :: boxed_header where
  "cons_header = boxed_header_new SubCons 3"

definition tuple_header :: "u32 \<Rightarrow> boxed_header" where
  "tuple_header arity = boxed_header_new SubTuple (1 + arity)"

definition float_header :: boxed_header where
  "float_header = boxed_header_new SubFloat 3"

definition binary_header :: "u32 \<Rightarrow> boxed_header" where
  "binary_header size_bytes = boxed_header_new SubBinary (2 + (size_bytes + 7) div 8)"

definition map_header :: "u32 \<Rightarrow> boxed_header" where
  "map_header num_keys = boxed_header_new SubMap (1 + num_keys * 2)"

definition fun_header :: "u32 \<Rightarrow> boxed_header" where
  "fun_header num_free = boxed_header_new SubFun (4 + num_free)"

definition bigint_header :: "u32 \<Rightarrow> boxed_header" where
  "bigint_header num_digits = boxed_header_new SubBigInteger (2 + num_digits)"

definition ref_header :: boxed_header where
  "ref_header = boxed_header_new SubRef 2"

definition FORWARD_MAGIC :: u64 where
  "FORWARD_MAGIC = 0xDEADBEEFDEADBEEF"

definition is_forwarding_pointer :: "u64 \<Rightarrow> bool" where
  "is_forwarding_pointer w \<longleftrightarrow> w = FORWARD_MAGIC"

section \<open>Lemmas\<close>

lemma extract_tag_eq: "extract_tag w = tag (Term w)"
proof -
  have "tag_num (extract_tag w) = w AND 7"
    by (cases w rule: and_7_cases) (simp_all add: extract_tag_def)
  then show ?thesis
    by (metis beam_term.sel tag_num_inject tag_num_tag)
qed

lemma header_accessors:
  "boxed_header_sub_tag h = extract_sub_tag (header_raw h)"
  "boxed_header_size h = extract_size (header_raw h)"
  by (simp_all add: boxed_header_sub_tag_def extract_sub_tag_def
      boxed_header_size_def extract_size_def)

lemma mask_5_eq: "(0x1F :: 'a::len word) = mask 5"
  by (simp add: mask_eq_exp_minus_1)

lemma mask_24_eq: "(0xFFFFFF :: 'a::len word) = mask 24"
  by (simp add: mask_eq_exp_minus_1)

lemma sub_tag_num_small [simp]: "sub_tag_num s AND mask 5 = sub_tag_num s"
  by (cases s) (simp_all add: mask_eq_exp_minus_1)

lemma bit_sub_tag_num: "bit (sub_tag_num s) n \<Longrightarrow> n < 5"
  by (subst (asm) sub_tag_num_small [symmetric]) (simp add: bit_simps del: sub_tag_num_small)

lemma bit_tag_num: "bit (tag_num g) n \<Longrightarrow> n < 3"
  by (subst (asm) tag_num_and_mask [symmetric]) (simp add: bit_simps del: tag_num_and_mask)

lemma header_new_sub_bits:
  "drop_bit 3 (header_raw (boxed_header_new s n)) AND 0x1F = sub_tag_num s"
  by (rule bit_word_eqI)
    (auto simp: boxed_header_new_def mask_5_eq bit_simps simp del: tag_num.simps
      dest: bit_sub_tag_num bit_tag_num bit_imp_le_length)

lemma header_new_sub_tag: "boxed_header_sub_tag (boxed_header_new s n) = s"
  by (cases s) (simp_all add: boxed_header_sub_tag_def header_new_sub_bits)

lemma header_new_size: "boxed_header_size (boxed_header_new s n) = n AND 0xFFFFFF"
  by (rule bit_word_eqI)
    (auto simp: boxed_header_new_def boxed_header_size_def mask_24_eq bit_simps
      simp del: tag_num.simps dest: bit_sub_tag_num bit_tag_num bit_imp_le_length)

lemma header_new_tag: "extract_tag (header_raw (boxed_header_new s n)) = TagCons"
proof -
  have "header_raw (boxed_header_new s n) AND 7 = tag_num TagCons"
    by (rule bit_word_eqI)
      (auto simp: boxed_header_new_def mask_3_eq bit_simps simp del: tag_num.simps
        dest: bit_sub_tag_num bit_tag_num)
  then show ?thesis
    using tag_eqI [of "Term (header_raw (boxed_header_new s n))" TagCons]
    by (simp add: extract_tag_eq)
qed

lemma mask_24_id:
  fixes n :: u32
  assumes "unat n < 2 ^ 24"
  shows "n AND 0xFFFFFF = n"
  using take_bit_word_id [OF assms] by (simp add: mask_24_eq take_bit_eq_mask)

section \<open>Properties\<close>

text \<open>Header words round-trip: a header made by \<^verbatim>\<open>BoxedHeader::new\<close> with a size
  that fits its 24-bit field gives back its sub-tag and its size through the methods and
  through the free extractors, and its low bits always carry the cons tag.\<close>

theorem boxed_header_roundtrip:
  assumes "unat n < 2 ^ 24"
  shows "boxed_header_sub_tag (boxed_header_new s n) = s
    \<and> boxed_header_size (boxed_header_new s n) = n
    \<and> extract_sub_tag (header_raw (boxed_header_new s n)) = s
    \<and> extract_size (header_raw (boxed_header_new s n)) = n
    \<and> extract_tag (header_raw (boxed_header_new s n)) = boxed_header_tag (boxed_header_new s n)"
  using mask_24_id [OF assms]
  by (simp add: header_new_sub_tag header_new_size header_new_tag boxed_header_tag_def
      flip: header_accessors)

theorem boxed_header_roundtrip_witness:
  "boxed_header_size (boxed_header_new SubTuple 6) = 6"
  using boxed_header_roundtrip [of 6 SubTuple] by simp

end
