(* ===== verification/Ids.thy ===== *)
theory Ids
  imports Interfaces
begin

text \<open>
  Identifiers packed into words: the pid, reference and port terms of
  \<^verbatim>\<open>crates/chimera_erlang_beam_term/src/pid.rs\<close> and the process identifier \<open>pid\<close> of
  \<^verbatim>\<open>crates/chimera_erlang_beam_process/src/lib.rs\<close>.  Each pair of \<^verbatim>\<open>to_raw\<close> and
  \<^verbatim>\<open>from_raw\<close> is an instance of the interface \<open>packed_codec\<close>.
\<close>

section \<open>Pid terms\<close>

definition MAX_PID_INDEX :: u32 where "MAX_PID_INDEX = 0x3FFF"
definition MAX_SERIAL :: u32 where "MAX_SERIAL = 0x1FFF"
definition MAX_CREATION :: u32 where "MAX_CREATION = 3"

record pid_term =
  pt_id :: u32
  pt_serial :: u32
  pt_creation :: u32

definition pid_term_from_raw :: "u64 \<Rightarrow> pid_term option" where
  "pid_term_from_raw w =
     (if drop_bit 29 w \<noteq> 0 then None
      else
        let i = (ucast (w AND 0x3FFF) :: u32);
            s = (ucast (drop_bit 14 w AND 0x1FFF) :: u32);
            c = (ucast (drop_bit 27 w AND 0x3) :: u32)
        in if i > MAX_PID_INDEX \<or> s > MAX_SERIAL \<or> c > MAX_CREATION then None
           else Some \<lparr>pt_id = i, pt_serial = s, pt_creation = c\<rparr>)"

definition pid_term_to_raw :: "pid_term \<Rightarrow> u64" where
  "pid_term_to_raw p =
     (let i = (ucast (pt_id p AND 0x3FFF) :: u64);
          s = (ucast (pt_serial p AND 0x1FFF) :: u64);
          c = (ucast (pt_creation p AND 0x3) :: u64)
      in i OR push_bit 14 s OR push_bit 27 c)"

definition pid_term_is_local :: "pid_term \<Rightarrow> bool" where
  "pid_term_is_local p \<longleftrightarrow> pt_creation p = 0"

definition pid_term_heap_size :: "pid_term \<Rightarrow> nat" where
  "pid_term_heap_size p = 2"

definition pid_term_valid :: "pid_term \<Rightarrow> bool" where
  "pid_term_valid p \<longleftrightarrow>
     pt_id p \<le> MAX_PID_INDEX \<and> pt_serial p \<le> MAX_SERIAL \<and> pt_creation p \<le> MAX_CREATION"

section \<open>Reference and port terms\<close>

record ref_term =
  rt_id :: u32
  rt_creation :: u32

definition ref_term_from_raw :: "u64 \<Rightarrow> ref_term option" where
  "ref_term_from_raw w =
     (if drop_bit 30 w \<noteq> 0 then None
      else
        let i = (ucast (w AND 0xFFFFFFF) :: u32);
            c = (ucast (drop_bit 28 w AND 0x3) :: u32)
        in if c > MAX_CREATION then None
           else Some \<lparr>rt_id = i, rt_creation = c\<rparr>)"

definition ref_term_to_raw :: "ref_term \<Rightarrow> u64" where
  "ref_term_to_raw r =
     (let i = (ucast (rt_id r AND 0xFFFFFFF) :: u64);
          c = (ucast (rt_creation r AND 0x3) :: u64)
      in i OR push_bit 28 c)"

definition ref_term_valid :: "ref_term \<Rightarrow> bool" where
  "ref_term_valid r \<longleftrightarrow> rt_id r \<le> 0xFFFFFFF \<and> rt_creation r \<le> MAX_CREATION"

record port_term =
  po_id :: u32
  po_creation :: u32

definition port_term_from_raw :: "u64 \<Rightarrow> port_term option" where
  "port_term_from_raw w =
     (if drop_bit 30 w \<noteq> 0 then None
      else
        let i = (ucast (w AND 0xFFFFFFF) :: u32);
            c = (ucast (drop_bit 28 w AND 0x3) :: u32)
        in if c > MAX_CREATION then None
           else Some \<lparr>po_id = i, po_creation = c\<rparr>)"

definition port_term_to_raw :: "port_term \<Rightarrow> u64" where
  "port_term_to_raw r =
     (let i = (ucast (po_id r AND 0xFFFFFFF) :: u64);
          c = (ucast (po_creation r AND 0x3) :: u64)
      in i OR push_bit 28 c)"

definition port_term_valid :: "port_term \<Rightarrow> bool" where
  "port_term_valid r \<longleftrightarrow> po_id r \<le> 0xFFFFFFF \<and> po_creation r \<le> MAX_CREATION"

section \<open>Process identifiers\<close>

record pid =
  pid_id :: u32
  pid_serial :: u32
  pid_creation :: u32

definition pid_new :: "u32 \<Rightarrow> u32 \<Rightarrow> u32 \<Rightarrow> pid" where
  "pid_new i s c = \<lparr>pid_id = i, pid_serial = s, pid_creation = c\<rparr>"

definition pid_is_local :: "pid \<Rightarrow> bool" where
  "pid_is_local p \<longleftrightarrow> pid_creation p = 0"

definition pid_is_remote :: "pid \<Rightarrow> bool" where
  "pid_is_remote p \<longleftrightarrow> pid_creation p \<noteq> 0"

definition pid_next_serial :: "pid \<Rightarrow> u32" where
  "pid_next_serial p = (pid_serial p + 1) AND 0x1FFF"

definition pid_with_incremented_serial :: "pid \<Rightarrow> pid" where
  "pid_with_incremented_serial p = pid_new (pid_id p) (pid_next_serial p) (pid_creation p)"

definition pid_to_raw :: "pid \<Rightarrow> u64" where
  "pid_to_raw p =
     (let i = (ucast (pid_id p AND 0x3FFF) :: u64);
          s = (ucast (pid_serial p AND 0x1FFF) :: u64);
          c = (ucast (pid_creation p AND 0x3) :: u64)
      in i OR push_bit 14 s OR push_bit 27 c)"

definition pid_from_raw :: "u64 \<Rightarrow> pid option" where
  "pid_from_raw w =
     (if drop_bit 29 w \<noteq> 0 then None
      else
        let i = (ucast (w AND 0x3FFF) :: u32);
            s = (ucast (drop_bit 14 w AND 0x1FFF) :: u32);
            c = (ucast (drop_bit 27 w AND 0x3) :: u32)
        in Some \<lparr>pid_id = i, pid_serial = s, pid_creation = c\<rparr>)"

definition pid_packable :: "pid \<Rightarrow> bool" where
  "pid_packable p \<longleftrightarrow> pid_id p \<le> 0x3FFF \<and> pid_serial p \<le> 0x1FFF \<and> pid_creation p \<le> 0x3"

section \<open>The codecs\<close>

lemma field_masks:
  "(0x3FFF :: 'a::len word) = mask 14"
  "(0x1FFF :: 'a::len word) = mask 13"
  "(0xFFFFFFF :: 'a::len word) = mask 28"
  "(3 :: 'a::len word) = mask 2"
  by (simp_all add: mask_eq_exp_minus_1)

lemma drop_bit_zero_bits:
  fixes w :: "'a::len word"
  assumes "drop_bit n w = 0" and "bit w k"
  shows "k < n"
proof -
  have "take_bit n w = w"
    using assms(1) by (simp add: take_bit_eq_self_iff_drop_bit_eq_0)
  then have "bit (take_bit n w) k" using assms(2) by simp
  then show ?thesis by (simp add: bit_take_bit_iff)
qed

lemma and_masks_le:
  "(x :: u32) \<le> 0x3FFF \<longleftrightarrow> unat x < 2 ^ 14"
  "x \<le> 0x1FFF \<longleftrightarrow> unat x < 2 ^ 13"
  "x \<le> 0xFFFFFFF \<longleftrightarrow> unat x < 2 ^ 28"
  "x \<le> 3 \<longleftrightarrow> unat x < 2 ^ 2"
  by (simp_all add: word_le_nat_alt less_Suc_eq_le [symmetric])

lemma le_mask_iff:
  "(x :: u32) \<le> mask 14 \<longleftrightarrow> unat x < 2 ^ 14"
  "x \<le> mask 13 \<longleftrightarrow> unat x < 2 ^ 13"
  "x \<le> mask 28 \<longleftrightarrow> unat x < 2 ^ 28"
  "x \<le> mask 2 \<longleftrightarrow> unat x < 2 ^ 2"
  by (simp_all only: field_masks [symmetric] and_masks_le)

lemma unat_and_mask_less: "n < 32 \<Longrightarrow> unat ((ucast (w AND mask n) :: u32)) < 2 ^ n"
  for w :: u64
proof -
  assume n: "n < 32"
  have "(ucast (w AND mask n) :: u32) = take_bit n (ucast w)"
    using n by (intro bit_word_eqI) (auto simp: bit_simps)
  then have "unat (ucast (w AND mask n) :: u32) = take_bit n (unat (ucast w :: u32))"
    by (simp add: unsigned_take_bit_eq)
  then show ?thesis by (simp add: take_bit_nat_less_exp)
qed

lemma fields_join:
  fixes i s c :: u32
  assumes i: "unat i < 2 ^ a" and s: "unat s < 2 ^ b" and c: "unat c < 2 ^ d"
    and le: "a + b + d \<le> 32"
  defines "w \<equiv> (ucast i OR push_bit a (ucast s) OR push_bit (a + b) (ucast c) :: u64)"
  shows "drop_bit (a + b + d) w = 0" and "ucast (w AND mask a) = i"
    and "ucast (drop_bit a w AND mask b) = s" and "ucast (drop_bit (a + b) w AND mask d) = c"
proof -
  have bi: "\<And>k. bit i k \<Longrightarrow> k < a" by (rule small_bits [OF i])
  have bs: "\<And>k. bit s k \<Longrightarrow> k < b" by (rule small_bits [OF s])
  have bc: "\<And>k. bit c k \<Longrightarrow> k < d" by (rule small_bits [OF c])
  show "drop_bit (a + b + d) w = 0"
    unfolding w_def by (rule bit_word_eqI) (auto simp: bit_simps dest!: bi bs bc)
  show "ucast (w AND mask a) = i"
    unfolding w_def using le by (intro bit_word_eqI) (auto simp: bit_simps dest: bi)
  show "ucast (drop_bit a w AND mask b) = s"
    unfolding w_def using le
    by (intro bit_word_eqI) (auto simp: bit_simps dest: bi bs)
  show "ucast (drop_bit (a + b) w AND mask d) = c"
    unfolding w_def using le
    by (intro bit_word_eqI) (auto simp: bit_simps dest: bi bs bc)
qed

lemma fields_split:
  fixes w :: u64
  assumes w: "drop_bit (a + b + d) w = 0" and le: "a + b + d \<le> 32"
  shows "ucast (ucast (w AND mask a) :: u32)
    OR push_bit a (ucast (ucast (drop_bit a w AND mask b) :: u32))
    OR push_bit (a + b) (ucast (ucast (drop_bit (a + b) w AND mask d) :: u32)) = w"
    (is "?l = w")
proof (rule bit_word_eqI)
  fix n assume n: "n < LENGTH(64)"
  have high: "n < a + b + d" if "bit w n" using drop_bit_zero_bits [OF w that] .
  consider "n < a" | "a \<le> n" "n < a + b" | "a + b \<le> n" by linarith
  then show "bit ?l n = bit w n"
    using le n high by cases (auto simp: bit_simps)
qed

lemmas pid_join = fields_join [where a = 14 and b = 13 and d = 2, simplified]
lemmas pid_split = fields_split [where a = 14 and b = 13 and d = 2, simplified]
lemmas two_join = fields_join(1,2,3) [where a = 28 and b = 2 and d = 0 and c = 0, simplified]
lemmas two_split = fields_split [where a = 28 and b = 2 and d = 0, simplified]

lemma and_mask_small: "unat (x :: u32) < 2 ^ n \<Longrightarrow> x AND mask n = x"
  by (simp add: take_bit_word_id flip: take_bit_eq_mask)

lemma raw_field_le [simp]:
  "(ucast ((w :: u64) AND mask 14) :: u32) \<le> 0x3FFF"
  "(ucast (w AND mask 13) :: u32) \<le> 0x1FFF"
  "(ucast (w AND mask 28) :: u32) \<le> 0xFFFFFFF"
  "(ucast (w AND mask 2) :: u32) \<le> 3"
  unfolding and_masks_le by (rule unat_and_mask_less, simp)+


lemmas raw_field_bounds [simp] =
  unat_and_mask_less [of 14, simplified] unat_and_mask_less [of 13, simplified]
  unat_and_mask_less [of 28, simplified] unat_and_mask_less [of 2, simplified]

lemma raw_field_not_above [simp]:
  "\<not> mask 14 < (ucast ((w :: u64) AND mask 14) :: u32)"
  "\<not> mask 13 < (ucast (w AND mask 13) :: u32)"
  "\<not> mask 2 < (ucast (w AND mask 2) :: u32)"
  unfolding not_less le_mask_iff by simp_all

lemmas max_defs = MAX_PID_INDEX_def MAX_SERIAL_def MAX_CREATION_def

lemma pid_term_dec_enc: "pid_term_valid p \<Longrightarrow> pid_term_from_raw (pid_term_to_raw p) = Some p"
  using pid_join [of "pt_id p" "pt_serial p" "pt_creation p"]
  by (simp add: pid_term_valid_def pid_term_from_raw_def pid_term_to_raw_def max_defs le_mask_iff not_less Let_def field_masks
      and_mask_small)

lemma pid_term_enc_dec: "pid_term_from_raw w = Some p \<Longrightarrow> pid_term_to_raw p = w \<and> pid_term_valid p"
  using pid_split [of w]
  by (auto simp: pid_term_valid_def pid_term_from_raw_def pid_term_to_raw_def max_defs Let_def field_masks and_mask_small
      le_mask_iff not_less split: if_splits)

lemma ref_term_dec_enc: "ref_term_valid p \<Longrightarrow> ref_term_from_raw (ref_term_to_raw p) = Some p"
  using two_join [of "rt_id p" "rt_creation p"]
  by (simp add: ref_term_valid_def ref_term_from_raw_def ref_term_to_raw_def max_defs le_mask_iff not_less Let_def field_masks
      and_mask_small)

lemma ref_term_enc_dec: "ref_term_from_raw w = Some p \<Longrightarrow> ref_term_to_raw p = w \<and> ref_term_valid p"
  using two_split [of w]
  by (auto simp: ref_term_valid_def ref_term_from_raw_def ref_term_to_raw_def max_defs Let_def field_masks and_mask_small
      le_mask_iff not_less split: if_splits)

lemma port_term_dec_enc: "port_term_valid p \<Longrightarrow> port_term_from_raw (port_term_to_raw p) = Some p"
  using two_join [of "po_id p" "po_creation p"]
  by (simp add: port_term_valid_def port_term_from_raw_def port_term_to_raw_def max_defs le_mask_iff not_less Let_def field_masks
      and_mask_small)

lemma port_term_enc_dec: "port_term_from_raw w = Some p \<Longrightarrow> port_term_to_raw p = w \<and> port_term_valid p"
  using two_split [of w]
  by (auto simp: port_term_valid_def port_term_from_raw_def port_term_to_raw_def max_defs Let_def field_masks and_mask_small
      le_mask_iff not_less split: if_splits)

lemma pid_dec_enc: "pid_packable p \<Longrightarrow> pid_from_raw (pid_to_raw p) = Some p"
  using pid_join [of "pid_id p" "pid_serial p" "pid_creation p"]
  by (simp add: pid_packable_def pid_from_raw_def pid_to_raw_def le_mask_iff not_less Let_def field_masks
      and_mask_small)

lemma pid_enc_dec: "pid_from_raw w = Some p \<Longrightarrow> pid_to_raw p = w \<and> pid_packable p"
  using pid_split [of w]
  by (auto simp: pid_packable_def pid_from_raw_def pid_to_raw_def Let_def field_masks and_mask_small
      le_mask_iff not_less split: if_splits)

interpretation pid_term_codec: packed_codec pid_term_to_raw pid_term_from_raw pid_term_valid
  by unfold_locales (auto dest: pid_term_enc_dec pid_term_dec_enc)

interpretation ref_term_codec: packed_codec ref_term_to_raw ref_term_from_raw ref_term_valid
  by unfold_locales (auto dest: ref_term_enc_dec ref_term_dec_enc)

interpretation port_term_codec: packed_codec port_term_to_raw port_term_from_raw port_term_valid
  by unfold_locales (auto dest: port_term_enc_dec port_term_dec_enc)

interpretation pid_codec: packed_codec pid_to_raw pid_from_raw pid_packable
  by unfold_locales (auto dest: pid_enc_dec pid_dec_enc)

text \<open>The packed forms are exact: a raw word decodes to a pid (pid term, reference, port)
  just when that identifier fits its fields and packs to that very word, and the words that
  decode are all the words of 29 bits (30 for references and ports).\<close>

theorem identifiers_pack_exactly:
  "(pid_from_raw w = Some p \<longleftrightarrow> pid_packable p \<and> pid_to_raw p = w) \<and>
   (pid_term_from_raw w = Some pt \<longleftrightarrow> pid_term_valid pt \<and> pid_term_to_raw pt = w) \<and>
   (ref_term_from_raw w = Some r \<longleftrightarrow> ref_term_valid r \<and> ref_term_to_raw r = w) \<and>
   (port_term_from_raw w = Some po \<longleftrightarrow> port_term_valid po \<and> port_term_to_raw po = w) \<and>
   (pid_from_raw w \<noteq> None \<longleftrightarrow> drop_bit 29 w = 0) \<and>
   (pid_term_from_raw w \<noteq> None \<longleftrightarrow> drop_bit 29 w = 0) \<and>
   (ref_term_from_raw w \<noteq> None \<longleftrightarrow> drop_bit 30 w = 0) \<and>
   (port_term_from_raw w \<noteq> None \<longleftrightarrow> drop_bit 30 w = 0)"
  by (intro conjI pid_codec.dec_eq_iff pid_term_codec.dec_eq_iff ref_term_codec.dec_eq_iff
      port_term_codec.dec_eq_iff)
    (simp_all add: pid_from_raw_def pid_term_from_raw_def ref_term_from_raw_def
      port_term_from_raw_def max_defs Let_def field_masks)

lemma serial_step_mod: "unat ((x + 1 :: u32) AND 0x1FFF) = (unat x + 1) mod 8192"
proof -
  have "unat ((x + 1) AND 0x1FFF) = take_bit 13 (unat (x + 1))"
    by (simp only: field_masks take_bit_eq_mask [symmetric] unsigned_take_bit_eq)
  also have "\<dots> = (unat x + 1) mod 8192"
    by (simp add: take_bit_eq_mod unat_word_ariths mod_mod_cancel)
  finally show ?thesis .
qed

lemma pid_step_sel [simp]:
  "pid_id (pid_with_incremented_serial p) = pid_id p"
  "pid_creation (pid_with_incremented_serial p) = pid_creation p"
  "unat (pid_serial (pid_with_incremented_serial p)) = (unat (pid_serial p) + 1) mod 8192"
  unfolding pid_with_incremented_serial_def pid_next_serial_def pid_new_def pid.select_convs
    serial_step_mod by (rule refl)+

lemma serial_iterate:
  "pid_id ((pid_with_incremented_serial ^^ n) p) = pid_id p \<and>
   pid_creation ((pid_with_incremented_serial ^^ n) p) = pid_creation p \<and>
   unat (pid_serial ((pid_with_incremented_serial ^^ n) p)) =
     (if n = 0 then unat (pid_serial p) else (unat (pid_serial p) + n) mod 8192)"
  by (induction n) (auto simp: mod_simps)

text \<open>Incrementing the serial of a pid keeps the pid packable, and the serials of one slot
  repeat only after 8192 increments: any shorter run of increments gives another pid with
  another packed form.\<close>

theorem pid_serial_cycle:
  assumes "pid_packable p"
  shows "pid_packable ((pid_with_incremented_serial ^^ n) p) \<and>
    ((pid_with_incremented_serial ^^ n) p = p \<longleftrightarrow> n mod 8192 = 0) \<and>
    (pid_to_raw ((pid_with_incremented_serial ^^ n) p) = pid_to_raw p \<longleftrightarrow> n mod 8192 = 0)"
proof -
  let ?q = "(pid_with_incremented_serial ^^ n) p"
  note it = serial_iterate [of n p]
  have s: "unat (pid_serial p) < 8192"
    using assms by (simp add: pid_packable_def and_masks_le)
  have "unat (pid_serial ?q) < 8192"
    using it s by (simp split: if_splits)
  then have pq: "pid_packable ?q"
    using it assms by (simp add: pid_packable_def and_masks_le)
  have "?q = p \<longleftrightarrow> unat (pid_serial ?q) = unat (pid_serial p)"
    using it by (auto simp: word_unat_eq_iff intro: pid.equality)
  also have "\<dots> \<longleftrightarrow> n mod 8192 = 0"
  proof (cases "n = 0")
    case False
    have "(unat (pid_serial p) + n) mod 8192 = unat (pid_serial p) \<longleftrightarrow> n mod 8192 = 0"
      using mod_add_small_iff [OF s] .
    then show ?thesis using it False by simp
  qed (use it in simp)
  finally have eq: "?q = p \<longleftrightarrow> n mod 8192 = 0" .
  have "pid_to_raw ?q = pid_to_raw p \<longleftrightarrow> n mod 8192 = 0"
    using pid_codec.enc_inject [OF pq assms] eq by simp
  with pq eq show ?thesis by blast
qed

theorem pid_serial_cycle_witness:
  "pid_packable (pid_new 7 8191 0) \<and>
   (pid_with_incremented_serial ^^ 8192) (pid_new 7 8191 0) = pid_new 7 8191 0 \<and>
   pid_to_raw ((pid_with_incremented_serial ^^ 1) (pid_new 7 8191 0)) \<noteq> pid_to_raw (pid_new 7 8191 0)"
proof -
  have p: "pid_packable (pid_new 7 8191 0)"
    by (simp add: pid_packable_def pid_new_def)
  show ?thesis
    using p pid_serial_cycle [OF p, of 8192] pid_serial_cycle [OF p, of 1]
    by simp
qed

end
