(* ===== verification/OffHeap.thy ===== *)
theory OffHeap
  imports Prelude
begin

text \<open>
  Off-heap binaries (\<^verbatim>\<open>crates/chimera_erlang_beam_heap/src/off_heap_binary.rs\<close>): the
  reference-counted binary, the sub-binary that shares its bytes, and the accounting of a
  process (\<^verbatim>\<open>VirtualBinaryHeap\<close>).  The bytes of a binary never change, so a sub-binary holds
  its parent by value; counters are \<^verbatim>\<open>usize\<close>, 64-bit words that wrap when they grow and
  saturate at zero when they shrink.
\<close>

type_synonym usize = "64 word"

definition OFF_HEAP_BINARY_THRESHOLD :: nat where "OFF_HEAP_BINARY_THRESHOLD = 64"

definition saturating_sub :: "usize \<Rightarrow> usize \<Rightarrow> usize" where
  "saturating_sub a b = (if b \<le> a then a - b else 0)"

section \<open>Reference-counted binaries\<close>

record off_heap_binary =
  ref_count :: usize
  ohb_data :: "u8 list"

definition off_heap_binary_new :: "u8 list \<Rightarrow> off_heap_binary" where
  "off_heap_binary_new d = \<lparr>ref_count = 1, ohb_data = d\<rparr>"

definition increment_ref :: "off_heap_binary \<Rightarrow> off_heap_binary" where
  "increment_ref b = b\<lparr>ref_count := ref_count b + 1\<rparr>"

definition decrement_ref :: "off_heap_binary \<Rightarrow> bool \<times> off_heap_binary" where
  "decrement_ref b = (ref_count b = 1, b\<lparr>ref_count := ref_count b - 1\<rparr>)"

definition ohb_size :: "off_heap_binary \<Rightarrow> nat" where
  "ohb_size b = length (ohb_data b)"

section \<open>Sub-binaries\<close>

record sub_binary =
  sb_parent :: off_heap_binary
  sb_offset :: nat
  sb_size :: nat

definition sub_binary_new :: "off_heap_binary \<Rightarrow> nat \<Rightarrow> nat \<Rightarrow> ('e, sub_binary) outcome" where
  "sub_binary_new parent offset sz =
     (if offset + sz \<le> ohb_size parent
      then Ok \<lparr>sb_parent = parent, sb_offset = offset, sb_size = sz\<rparr>
      else Panic ExplicitPanic)"

definition sub_binary_data :: "sub_binary \<Rightarrow> ('e, u8 list) outcome" where
  "sub_binary_data s =
     (if sb_offset s + sb_size s \<le> length (ohb_data (sb_parent s))
      then Ok (take (sb_size s) (drop (sb_offset s) (ohb_data (sb_parent s))))
      else Panic IndexOutOfBounds)"

definition is_byte_aligned :: "sub_binary \<Rightarrow> bool" where
  "is_byte_aligned s \<longleftrightarrow> sb_offset s mod 8 = 0 \<and> sb_size s mod 8 = 0"

datatype binary_ref =
    OnHeap u64
  | OffHeapRef off_heap_binary
  | SubBinaryRef sub_binary

fun binary_ref_size :: "binary_ref \<Rightarrow> nat" where
  "binary_ref_size (OnHeap _) = 0"
| "binary_ref_size (OffHeapRef b) = ohb_size b"
| "binary_ref_size (SubBinaryRef s) = sb_size s"

fun is_off_heap :: "binary_ref \<Rightarrow> bool" where
  "is_off_heap (OnHeap _) = False"
| "is_off_heap (OffHeapRef _) = True"
| "is_off_heap (SubBinaryRef _) = True"

section \<open>The accounting of a process\<close>

record virtual_binary_heap =
  total_off_heap_bytes :: usize
  total_ref_count :: usize

definition vbh_new :: virtual_binary_heap where
  "vbh_new = \<lparr>total_off_heap_bytes = 0, total_ref_count = 0\<rparr>"

definition account_alloc :: "usize \<Rightarrow> usize \<Rightarrow> virtual_binary_heap \<Rightarrow> virtual_binary_heap" where
  "account_alloc sz rc v =
     v\<lparr>total_off_heap_bytes := total_off_heap_bytes v + sz,
       total_ref_count := total_ref_count v + rc\<rparr>"

definition account_dealloc :: "usize \<Rightarrow> usize \<Rightarrow> virtual_binary_heap \<Rightarrow> virtual_binary_heap" where
  "account_dealloc sz rc v =
     v\<lparr>total_off_heap_bytes := saturating_sub (total_off_heap_bytes v) sz,
       total_ref_count := saturating_sub (total_ref_count v) rc\<rparr>"

definition account_increment :: "virtual_binary_heap \<Rightarrow> virtual_binary_heap" where
  "account_increment v = v\<lparr>total_ref_count := total_ref_count v + 1\<rparr>"

definition account_decrement :: "virtual_binary_heap \<Rightarrow> virtual_binary_heap" where
  "account_decrement v = v\<lparr>total_ref_count := saturating_sub (total_ref_count v) 1\<rparr>"

section \<open>Lemmas\<close>

lemma saturating_sub_add [simp]:
  fixes a b :: usize
  assumes "unat a + unat b < 2 ^ 64"
  shows "saturating_sub (a + b) b = a"
proof -
  have "unat (a + b) = unat a + unat b"
    using assms by (simp add: unat_word_ariths)
  then have "b \<le> a + b" by (simp add: word_le_nat_alt)
  then show ?thesis by (simp add: saturating_sub_def)
qed

lemma sub_binary_new_ok:
  "sub_binary_new parent offset sz = Ok s \<Longrightarrow>
   (sub_binary_data s :: ('e, u8 list) outcome) = Ok (take sz (drop offset (ohb_data parent))) \<and>
   binary_ref_size (SubBinaryRef s) = sz"
  by (auto simp: sub_binary_new_def sub_binary_data_def ohb_size_def split: if_splits)

primrec decrements :: "nat \<Rightarrow> off_heap_binary \<Rightarrow> bool list \<times> off_heap_binary" where
  "decrements 0 b = ([], b)"
| "decrements (Suc n) b =
     (let (last, b') = decrement_ref b; (rest, b'') = decrements n b' in (last # rest, b''))"

lemma increments_count: "ref_count ((increment_ref ^^ n) b) = ref_count b + of_nat n"
  by (induction n) (simp_all add: increment_ref_def)

lemma increments_data: "ohb_data ((increment_ref ^^ n) b) = ohb_data b"
  by (induction n) (simp_all add: increment_ref_def)

lemma decrements_count:
  "n < 2 ^ 64 \<Longrightarrow> ref_count b = of_nat n + 1 \<Longrightarrow>
   fst (decrements n b) = replicate n False \<and> ref_count (snd (decrements n b)) = 1 \<and>
   ohb_data (snd (decrements n b)) = ohb_data b"
proof (induction n arbitrary: b)
  case 0
  then show ?case by simp
next
  case (Suc n)
  have "(of_nat (Suc n) :: usize) \<noteq> 0"
    using Suc.prems(1) by (simp only: of_nat_eq_0_iff word_of_nat_eq_0_iff) (auto dest: dvd_imp_le)
  then have neq: "ref_count b \<noteq> 1"
    using Suc.prems(2) by simp
  obtain l b' where d: "decrement_ref b = (l, b')" by force
  with neq Suc.prems(2) have b': "\<not> l" "ref_count b' = of_nat n + 1" "ohb_data b' = ohb_data b"
    by (auto simp: decrement_ref_def)
  have "n < 2 ^ 64" using Suc.prems(1) by simp
  from Suc.IH [OF this b'(2)] d b' show ?case
    by (auto split: prod.splits)
qed

lemma decrements_Suc_last:
  "decrements (Suc n) b =
   (let (as, b') = decrements n b; (l, b'') = decrement_ref b' in (as @ [l], b''))"
proof (induction n arbitrary: b)
  case 0
  then show ?case by (auto split: prod.splits)
next
  case (Suc n)
  obtain l b' where d: "decrement_ref b = (l, b')" by force
  have "decrements (Suc (Suc n)) b = (let (rest, b'') = decrements (Suc n) b' in (l # rest, b''))"
    by (simp add: d)
  also have "\<dots> = (let (as, b1) = decrements n b'; (l', b2) = decrement_ref b1 in (l # as @ [l'], b2))"
    by (subst Suc.IH) (simp split: prod.splits)
  finally show ?case by (simp add: d split: prod.splits)
qed

section \<open>Properties\<close>

text \<open>Reference counting frees a binary exactly once: after \<open>n\<close> increments of a new
  binary, the next \<open>n\<close> decrements all report that a reference is left, the one after them
  reports the last reference, and the bytes are untouched throughout.\<close>

theorem off_heap_freed_once:
  assumes "n < 2 ^ 64"
  shows "fst (decrements (Suc n) ((increment_ref ^^ n) (off_heap_binary_new d)))
           = replicate n False @ [True]
       \<and> ref_count (snd (decrements (Suc n) ((increment_ref ^^ n) (off_heap_binary_new d)))) = 0
       \<and> ohb_data (snd (decrements (Suc n) ((increment_ref ^^ n) (off_heap_binary_new d)))) = d"
proof -
  let ?b = "(increment_ref ^^ n) (off_heap_binary_new d)"
  have "ref_count ?b = of_nat n + 1" and "ohb_data ?b = d"
    by (simp_all add: increments_count increments_data off_heap_binary_new_def)
  with decrements_count [OF assms, of ?b] show ?thesis
    unfolding decrements_Suc_last by (auto simp: decrement_ref_def split: prod.splits)
qed

theorem off_heap_freed_once_witness:
  "fst (decrements (Suc 2) ((increment_ref ^^ 2) (off_heap_binary_new [7, 8])))
     = [False, False, True]"
proof -
  have "(2 :: nat) < 2 ^ 64" by simp
  from off_heap_freed_once [OF this, of "[7, 8]"]
  have "fst (decrements (Suc 2) ((increment_ref ^^ 2) (off_heap_binary_new [7, 8])))
      = replicate 2 False @ [True]" by (rule conjunct1)
  also have "replicate 2 False @ [True] = [False, False, True]"
    by (simp add: numeral_2_eq_2)
  finally show ?thesis .
qed

end
