(* ===== verification/Heap.thy ===== *)
theory Heap
  imports Complex_Main Interfaces Boxed OffHeap
begin

text \<open>
  The word heap of a process (\<^verbatim>\<open>crates/chimera_erlang_beam_heap/src/lib.rs\<close>): two word
  vectors, the bump pointer, and for every kind of heap object its allocator, its writers and
  its readers.

  Words and bytes keep their width; positions, sizes in words and the heap pointer are \<open>nat\<close>
  (a \<^verbatim>\<open>usize\<close> index into a vector).  A 64-bit float is the word of its bits
  (\<^verbatim>\<open>to_bits\<close>, \<^verbatim>\<open>from_bits\<close>); the configuration ratios, which are floats too, are
  rationals.  Under the invariant \<open>heap_ok\<close> (both vectors have length \<open>hend\<close>) no read or
  write is out of range, so they are total here.

  The heap is an instance of the interface \<open>cells\<close>; the lemmas about the constructors of
  objects follow from it.  The collectors are in the theories \<open>Gc\<close> and \<open>Yield_Gc\<close>.
\<close>

section \<open>State\<close>

record heap_config =
  initial_size :: nat
  min_size :: nat
  max_size :: nat
  growth_rate :: rat
  shrink_threshold :: rat
  survivor_ratio :: rat
  promotion_threshold :: nat

definition heap_config_default :: heap_config where
  "heap_config_default =
     \<lparr>initial_size = 8192 div 8, min_size = 1024 div 8, max_size = 16 * 1024 * 1024 div 8,
      growth_rate = 2, shrink_threshold = 3 / 10, survivor_ratio = 2 / 10,
      promotion_threshold = 3\<rparr>"

datatype gc_event = Minor | Major | Promotion

record gc_stats =
  collections :: u64
  minor_collections :: u64
  major_collections :: u64
  bytes_allocated :: u64
  bytes_freed :: u64
  words_collected :: u64
  off_heap_binary_bytes :: u64
  off_heap_binary_count :: u64
  promotions :: u64
  minor_gc_count :: u64

definition gc_stats_default :: gc_stats where
  "gc_stats_default =
     \<lparr>collections = 0, minor_collections = 0, major_collections = 0, bytes_allocated = 0,
      bytes_freed = 0, words_collected = 0, off_heap_binary_bytes = 0,
      off_heap_binary_count = 0, promotions = 0, minor_gc_count = 0\<rparr>"

record process_heap =
  from_space :: "u64 list"
  to_space :: "u64 list"
  hp :: nat
  hend :: nat
  in_to_space :: bool
  config :: heap_config
  stats :: gc_stats
  virtual_binary_heap :: virtual_binary_heap
  survivor_space_size :: nat

definition heap_new :: "heap_config \<Rightarrow> process_heap" where
  "heap_new c =
     \<lparr>from_space = replicate (initial_size c) 0, to_space = replicate (initial_size c) 0,
      hp = 0, hend = initial_size c, in_to_space = False, config = c,
      stats = gc_stats_default, virtual_binary_heap = vbh_new,
      survivor_space_size = nat \<lfloor>of_nat (initial_size c) * survivor_ratio c\<rfloor>\<rparr>"

definition active_buffer :: "process_heap \<Rightarrow> u64 list" where
  "active_buffer h = (if in_to_space h then to_space h else from_space h)"

definition set_active_buffer :: "u64 list \<Rightarrow> process_heap \<Rightarrow> process_heap" where
  "set_active_buffer ws h =
     (if in_to_space h then h\<lparr>to_space := ws\<rparr> else h\<lparr>from_space := ws\<rparr>)"

section \<open>Allocation\<close>

definition alloc :: "nat \<Rightarrow> process_heap \<Rightarrow> nat option \<times> process_heap" where
  "alloc words h =
     (let new_hp = hp h + words
      in if new_hp \<le> hend h
         then (Some (hp h),
               h\<lparr>hp := new_hp,
                 stats := (stats h)\<lparr>bytes_allocated :=
                   bytes_allocated (stats h) + of_nat (words * 8)\<rparr>\<rparr>)
         else (None, h))"

definition alloc_fast :: "nat \<Rightarrow> process_heap \<Rightarrow> nat \<times> process_heap" where
  "alloc_fast words h =
     (hp h,
      h\<lparr>hp := hp h + words,
        stats := (stats h)\<lparr>bytes_allocated := bytes_allocated (stats h) + of_nat (words * 8)\<rparr>\<rparr>)"

definition alloc_batch_hint :: "nat \<Rightarrow> nat \<Rightarrow> process_heap \<Rightarrow> nat option \<times> process_heap" where
  "alloc_batch_hint words batch_size h =
     (let needed = if batch_size > words then batch_size else words in alloc needed h)"

definition alloc_term :: "beam_term \<Rightarrow> process_heap \<Rightarrow> nat option \<times> process_heap" where
  "alloc_term t h = alloc 1 h"

definition remaining_words :: "process_heap \<Rightarrow> nat" where
  "remaining_words h = hend h - hp h"

definition can_alloc :: "nat \<Rightarrow> process_heap \<Rightarrow> bool" where
  "can_alloc words h \<longleftrightarrow> hp h + words \<le> hend h"

definition get_word :: "process_heap \<Rightarrow> nat \<Rightarrow> u64 option" where
  "get_word h i = (if i < length (active_buffer h) then Some (active_buffer h ! i) else None)"

definition set_word :: "nat \<Rightarrow> u64 \<Rightarrow> process_heap \<Rightarrow> process_heap" where
  "set_word i v h =
     (if i < hend h then set_active_buffer ((active_buffer h)[i := v]) h else h)"

text \<open>\<^verbatim>\<open>get_word(i).unwrap_or(0)\<close>, the read of every accessor below.\<close>

definition word_or_0 :: "nat \<Rightarrow> process_heap \<Rightarrow> u64" where
  "word_or_0 i h = (case get_word h i of Some w \<Rightarrow> w | None \<Rightarrow> 0)"

definition resize :: "nat \<Rightarrow> u64 list \<Rightarrow> u64 list" where
  "resize n ws = take n ws @ replicate (n - length ws) 0"

definition grow :: "process_heap \<Rightarrow> bool \<times> process_heap" where
  "grow h =
     (let current_size = length (from_space h);
          new_size_words = nat \<lfloor>of_nat current_size * growth_rate (config h)\<rfloor>
      in if new_size_words > max_size (config h) then (False, h)
         else (True,
               h\<lparr>from_space := resize new_size_words (from_space h),
                 to_space := resize new_size_words (to_space h),
                 hend := new_size_words,
                 stats := (stats h)\<lparr>bytes_allocated :=
                   bytes_allocated (stats h)
                     + (of_nat new_size_words - of_nat current_size) * 8\<rparr>\<rparr>))"

definition get_stats :: "process_heap \<Rightarrow> gc_stats" where
  "get_stats h =
     (stats h)\<lparr>off_heap_binary_bytes := total_off_heap_bytes (virtual_binary_heap h),
               off_heap_binary_count := total_ref_count (virtual_binary_heap h)\<rparr>"

definition account_off_heap_alloc :: "usize \<Rightarrow> usize \<Rightarrow> process_heap \<Rightarrow> process_heap" where
  "account_off_heap_alloc sz rc h =
     h\<lparr>virtual_binary_heap := account_alloc sz rc (virtual_binary_heap h)\<rparr>"

definition account_off_heap_dealloc :: "usize \<Rightarrow> usize \<Rightarrow> process_heap \<Rightarrow> process_heap" where
  "account_off_heap_dealloc sz rc h =
     h\<lparr>virtual_binary_heap := account_dealloc sz rc (virtual_binary_heap h)\<rparr>"

definition account_off_heap_increment :: "process_heap \<Rightarrow> process_heap" where
  "account_off_heap_increment h =
     h\<lparr>virtual_binary_heap := account_increment (virtual_binary_heap h)\<rparr>"

definition account_off_heap_decrement :: "process_heap \<Rightarrow> process_heap" where
  "account_off_heap_decrement h =
     h\<lparr>virtual_binary_heap := account_decrement (virtual_binary_heap h)\<rparr>"

text \<open>For a heap with at least one word, where the quotient is a number.\<close>

definition usage :: "process_heap \<Rightarrow> rat" where
  "usage h = of_nat (hp h) / of_nat (hend h)"

definition should_shrink :: "process_heap \<Rightarrow> bool" where
  "should_shrink h \<longleftrightarrow>
     usage h < shrink_threshold (config h) \<and> length (from_space h) > min_size (config h)"

definition reset :: "process_heap \<Rightarrow> process_heap" where
  "reset h =
     (let active = active_buffer h
      in (set_active_buffer
           (replicate (min (hend h) (length active)) 0 @ drop (hend h) active) h)\<lparr>hp := 0\<rparr>)"

definition total_heap_size :: "process_heap \<Rightarrow> nat" where
  "total_heap_size h = length (from_space h)"

definition used_size :: "process_heap \<Rightarrow> nat" where
  "used_size h = hp h"

section \<open>Cons cells\<close>

definition alloc_cons :: "process_heap \<Rightarrow> nat option \<times> process_heap" where
  "alloc_cons h = alloc 3 h"

definition write_cons :: "nat \<Rightarrow> beam_term \<Rightarrow> beam_term \<Rightarrow> process_heap \<Rightarrow> process_heap" where
  "write_cons pos hd_term tl_term h =
     (let header = sub_tag_num SubCons OR push_bit 8 3 OR tag_num TagCons
      in set_word (pos + 2) (term_raw tl_term)
          (set_word (pos + 1) (term_raw hd_term) (set_word pos header h)))"

definition read_cons_head :: "nat \<Rightarrow> process_heap \<Rightarrow> beam_term" where
  "read_cons_head pos h = Term (word_or_0 (pos + 1) h)"

definition read_cons_tail :: "nat \<Rightarrow> process_heap \<Rightarrow> beam_term" where
  "read_cons_tail pos h = Term (word_or_0 (pos + 2) h)"

definition make_cons :: "beam_term \<Rightarrow> beam_term \<Rightarrow> process_heap \<Rightarrow> nat option \<times> process_heap" where
  "make_cons hd_term tl_term h =
     (case alloc_cons h of
        (None, h') \<Rightarrow> (None, h')
      | (Some pos, h') \<Rightarrow> (Some pos, write_cons pos hd_term tl_term h'))"

section \<open>Tuples\<close>

definition alloc_tuple :: "u32 \<Rightarrow> process_heap \<Rightarrow> nat option \<times> process_heap" where
  "alloc_tuple arity h = alloc (1 + unat arity) h"

definition write_tuple_header :: "nat \<Rightarrow> u32 \<Rightarrow> process_heap \<Rightarrow> process_heap" where
  "write_tuple_header pos arity h =
     (let header = sub_tag_num SubTuple OR push_bit 8 (ucast (1 + arity)) OR tag_num TagTuple
      in set_word pos header h)"

definition write_tuple_element :: "nat \<Rightarrow> u32 \<Rightarrow> beam_term \<Rightarrow> process_heap \<Rightarrow> process_heap" where
  "write_tuple_element pos i e h = set_word (pos + 1 + unat i) (term_raw e) h"

definition read_tuple_element :: "nat \<Rightarrow> u32 \<Rightarrow> process_heap \<Rightarrow> beam_term" where
  "read_tuple_element pos i h = Term (word_or_0 (pos + 1 + unat i) h)"

definition tuple_arity :: "nat \<Rightarrow> process_heap \<Rightarrow> u32" where
  "tuple_arity pos h =
     (let sz = drop_bit 8 (word_or_0 pos h) AND 0xFFFFFF in ucast (sz - 1))"

definition make_tuple :: "beam_term list \<Rightarrow> process_heap \<Rightarrow> nat option \<times> process_heap" where
  "make_tuple elements h =
     (let arity = of_nat (length elements) :: u32
      in case alloc_tuple arity h of
           (None, h') \<Rightarrow> (None, h')
         | (Some pos, h') \<Rightarrow>
             (Some pos,
              for_enum (\<lambda>i e. write_tuple_element pos (of_nat i) e) elements
                (write_tuple_header pos arity h')))"

section \<open>Maps\<close>

definition alloc_map :: "u32 \<Rightarrow> process_heap \<Rightarrow> nat option \<times> process_heap" where
  "alloc_map num_keys h = (let words = 1 + unat num_keys * 2 in alloc words h)"

definition write_map_header :: "nat \<Rightarrow> u32 \<Rightarrow> process_heap \<Rightarrow> process_heap" where
  "write_map_header pos num_keys h =
     (let header = sub_tag_num SubMap OR push_bit 8 (ucast (1 + num_keys * 2)) OR tag_num TagMap
      in set_word pos header h)"

definition write_map_kv ::
  "nat \<Rightarrow> u32 \<Rightarrow> beam_term \<Rightarrow> beam_term \<Rightarrow> process_heap \<Rightarrow> process_heap" where
  "write_map_kv pos i k v h =
     (let base = pos + 1 + unat i * 2
      in set_word (base + 1) (term_raw v) (set_word base (term_raw k) h))"

definition map_size :: "nat \<Rightarrow> process_heap \<Rightarrow> u32" where
  "map_size pos h = ucast (drop_bit 8 (word_or_0 pos h) AND 0xFFFFFF) div 2"

definition make_map :: "(beam_term \<times> beam_term) list \<Rightarrow> process_heap \<Rightarrow> nat option \<times> process_heap" where
  "make_map kvs h =
     (let num_keys = of_nat (length kvs) :: u32
      in case alloc_map num_keys h of
           (None, h') \<Rightarrow> (None, h')
         | (Some pos, h') \<Rightarrow>
             (Some pos,
              for_enum (\<lambda>i (k, v). write_map_kv pos (of_nat i) k v) kvs
                (write_map_header pos num_keys h')))"

section \<open>Floats\<close>

definition alloc_float :: "process_heap \<Rightarrow> nat option \<times> process_heap" where
  "alloc_float h = alloc 3 h"

definition write_float :: "nat \<Rightarrow> u64 \<Rightarrow> process_heap \<Rightarrow> process_heap" where
  "write_float pos bits h =
     (let header = sub_tag_num SubFloat OR push_bit 8 3 OR tag_num TagFloat
      in set_word (pos + 2) (drop_bit 32 bits) (set_word (pos + 1) bits (set_word pos header h)))"

definition write_float_value :: "nat \<Rightarrow> u64 \<Rightarrow> process_heap \<Rightarrow> process_heap" where
  "write_float_value pos bits h =
     (let header = sub_tag_num SubFloat OR push_bit 8 3 OR tag_num TagFloat
      in set_word (pos + 1) bits (set_word pos header h))"

definition read_float :: "nat \<Rightarrow> process_heap \<Rightarrow> u64" where
  "read_float pos h = word_or_0 (pos + 1) h"

definition make_float :: "u64 \<Rightarrow> process_heap \<Rightarrow> nat option \<times> process_heap" where
  "make_float bits h =
     (case alloc_float h of
        (None, h') \<Rightarrow> (None, h')
      | (Some pos, h') \<Rightarrow> (Some pos, write_float pos bits h'))"

section \<open>Big integers\<close>

definition alloc_bigint :: "u32 \<Rightarrow> process_heap \<Rightarrow> nat option \<times> process_heap" where
  "alloc_bigint num_digits h = alloc (3 + unat num_digits) h"

definition write_bigint_header :: "nat \<Rightarrow> u32 \<Rightarrow> bool \<Rightarrow> process_heap \<Rightarrow> process_heap" where
  "write_bigint_header pos num_digits negative h =
     (let header = sub_tag_num SubBigInteger OR push_bit 8 (ucast (3 + num_digits))
            OR tag_num TagSmallInteger;
          sign_and_count = (if negative then push_bit 32 1 else 0) OR ucast num_digits
      in set_word (pos + 1) sign_and_count (set_word pos header h))"

definition write_bigint_digit :: "nat \<Rightarrow> u32 \<Rightarrow> u32 \<Rightarrow> process_heap \<Rightarrow> process_heap" where
  "write_bigint_digit pos i digit h = set_word (pos + 2 + unat i) (ucast digit) h"

definition read_bigint_digit :: "nat \<Rightarrow> u32 \<Rightarrow> process_heap \<Rightarrow> u32" where
  "read_bigint_digit pos i h = ucast (word_or_0 (pos + 2 + unat i) h)"

definition bigint_is_negative :: "nat \<Rightarrow> process_heap \<Rightarrow> bool" where
  "bigint_is_negative pos h \<longleftrightarrow> drop_bit 32 (word_or_0 (pos + 1) h) \<noteq> 0"

definition bigint_digit_count :: "nat \<Rightarrow> process_heap \<Rightarrow> u32" where
  "bigint_digit_count pos h = ucast (word_or_0 (pos + 1) h AND 0xFFFFFFFF)"

definition make_bigint :: "bool \<Rightarrow> u32 list \<Rightarrow> process_heap \<Rightarrow> nat option \<times> process_heap" where
  "make_bigint negative digits h =
     (let num_digits = of_nat (length digits) :: u32
      in case alloc_bigint num_digits h of
           (None, h') \<Rightarrow> (None, h')
         | (Some pos, h') \<Rightarrow>
             (Some pos,
              for_enum (\<lambda>i d. write_bigint_digit pos (of_nat i) d) digits
                (write_bigint_header pos num_digits negative h')))"

section \<open>Funs\<close>

definition alloc_fun :: "u32 \<Rightarrow> process_heap \<Rightarrow> nat option \<times> process_heap" where
  "alloc_fun num_free h = alloc (4 + unat num_free) h"

definition write_fun_header :: "nat \<Rightarrow> u32 \<Rightarrow> process_heap \<Rightarrow> process_heap" where
  "write_fun_header pos num_free h =
     (let header = sub_tag_num SubFun OR push_bit 8 (ucast (4 + num_free)) OR tag_num TagFun
      in set_word pos header h)"

definition write_fun_metadata :: "nat \<Rightarrow> u32 \<Rightarrow> u32 \<Rightarrow> u32 \<Rightarrow> process_heap \<Rightarrow> process_heap" where
  "write_fun_metadata pos old_index old_uniq num_free h =
     set_word (pos + 3) (ucast num_free)
       (set_word (pos + 2) (ucast old_uniq) (set_word (pos + 1) (ucast old_index) h))"

definition write_fun_free_term :: "nat \<Rightarrow> u32 \<Rightarrow> beam_term \<Rightarrow> process_heap \<Rightarrow> process_heap" where
  "write_fun_free_term pos i t h = set_word (pos + 4 + unat i) (term_raw t) h"

definition read_fun_free_term :: "nat \<Rightarrow> u32 \<Rightarrow> process_heap \<Rightarrow> beam_term" where
  "read_fun_free_term pos i h = Term (word_or_0 (pos + 4 + unat i) h)"

definition fun_num_free :: "nat \<Rightarrow> process_heap \<Rightarrow> u32" where
  "fun_num_free pos h = ucast (word_or_0 (pos + 3) h)"

definition fun_old_uniq :: "nat \<Rightarrow> process_heap \<Rightarrow> u32" where
  "fun_old_uniq pos h = ucast (word_or_0 (pos + 2) h)"

definition make_fun ::
  "u32 \<Rightarrow> u32 \<Rightarrow> u32 \<Rightarrow> beam_term list \<Rightarrow> process_heap \<Rightarrow> nat option \<times> process_heap" where
  "make_fun old_index old_uniq num_free free_terms h =
     (case alloc_fun num_free h of
        (None, h') \<Rightarrow> (None, h')
      | (Some pos, h') \<Rightarrow>
          (Some pos,
           for_enum (\<lambda>i t. write_fun_free_term pos (of_nat i) t) free_terms
             (write_fun_metadata pos old_index old_uniq num_free
               (write_fun_header pos num_free h'))))"

section \<open>Binaries\<close>

definition alloc_binary :: "u32 \<Rightarrow> process_heap \<Rightarrow> nat option \<times> process_heap" where
  "alloc_binary size_bytes h = (let words = 2 + unat ((size_bytes + 7) div 8) in alloc words h)"

definition write_binary_header :: "nat \<Rightarrow> u32 \<Rightarrow> process_heap \<Rightarrow> process_heap" where
  "write_binary_header pos size_bytes h =
     (let word_size = (size_bytes + 7) div 8;
          header = sub_tag_num SubBinary OR push_bit 8 (ucast (2 + word_size)) OR tag_num TagBinary
      in set_word (pos + 1) (ucast size_bytes) (set_word pos header h))"

text \<open>\<^verbatim>\<open>data.chunks(8)\<close>, and the little-endian word of a chunk.\<close>

fun chunks8 :: "'a list \<Rightarrow> 'a list list" where
  "chunks8 xs = (if xs = [] then [] else take 8 xs # chunks8 (drop 8 xs))"

declare chunks8.simps [simp del]

definition chunk_word :: "u8 list \<Rightarrow> u64" where
  "chunk_word chunk = for_enum (\<lambda>j byte w. w OR push_bit (j * 8) (ucast byte)) chunk 0"

definition write_binary_data :: "nat \<Rightarrow> u8 list \<Rightarrow> process_heap \<Rightarrow> process_heap" where
  "write_binary_data pos data h =
     (let base = pos + 2
      in for_enum (\<lambda>i chunk. set_word (base + i) (chunk_word chunk)) (chunks8 data) h)"

definition make_binary :: "u32 \<Rightarrow> u8 list \<Rightarrow> process_heap \<Rightarrow> nat option \<times> process_heap" where
  "make_binary size_bytes data h =
     (case alloc_binary size_bytes h of
        (None, h') \<Rightarrow> (None, h')
      | (Some pos, h') \<Rightarrow>
          (Some pos, write_binary_data pos data (write_binary_header pos size_bytes h')))"

definition binary_size :: "nat \<Rightarrow> process_heap \<Rightarrow> u32" where
  "binary_size pos h = ucast (word_or_0 (pos + 1) h)"

text \<open>The buffer the caller passes comes back with its first \<open>binary_size\<close> bytes filled.\<close>

definition read_binary_data :: "nat \<Rightarrow> u8 list \<Rightarrow> process_heap \<Rightarrow> u8 list" where
  "read_binary_data pos buffer h =
     (let base = pos + 2; size_bytes = unat (binary_size pos h)
      in map (\<lambda>(i, byte).
           if i < size_bytes
           then ucast (drop_bit (i mod 8 * 8) (word_or_0 (base + i div 8) h))
           else byte) (enumerate 0 buffer))"

definition alloc_nil :: "process_heap \<Rightarrow> nat option \<times> process_heap" where
  "alloc_nil h = (Some (unat ATOM_NIL), h)"

section \<open>The heap as a store of words\<close>

definition heap_ok :: "process_heap \<Rightarrow> bool" where
  "heap_ok h \<longleftrightarrow> length (from_space h) = hend h \<and> length (to_space h) = hend h \<and> hp h \<le> hend h"

lemma heap_new_ok [inv_intro]: "heap_ok (heap_new c)"
  by (simp add: heap_ok_def heap_new_def)

lemma active_buffer_length [simp]: "heap_ok h \<Longrightarrow> length (active_buffer h) = hend h"
  by (simp add: heap_ok_def active_buffer_def)

lemma set_word_fields [simp]:
  "hp (set_word i v h) = hp h" "hend (set_word i v h) = hend h"
  "in_to_space (set_word i v h) = in_to_space h" "config (set_word i v h) = config h"
  "stats (set_word i v h) = stats h"
  "virtual_binary_heap (set_word i v h) = virtual_binary_heap h"
  by (simp_all add: set_word_def set_active_buffer_def)

lemma set_word_ok [inv_intro]: "heap_ok h \<Longrightarrow> heap_ok (set_word i v h)"
  by (simp add: heap_ok_def set_word_def set_active_buffer_def active_buffer_def)

lemma word_or_0_set_word:
  "heap_ok h \<Longrightarrow> word_or_0 j (set_word i v h) = (if j = i \<and> i < hend h then v else word_or_0 j h)"
  by (auto simp: word_or_0_def get_word_def set_word_def set_active_buffer_def active_buffer_def
      heap_ok_def nth_list_update)

interpretation heap_cells: cells word_or_0 set_word hend heap_ok
  by unfold_locales (auto simp: word_or_0_set_word intro: inv_intro)

abbreviation write_words :: "nat \<Rightarrow> u64 list \<Rightarrow> process_heap \<Rightarrow> process_heap" where
  "write_words \<equiv> write_from set_word"

lemma write_words_fields [simp]:
  "hp (write_words b ws h) = hp h" "hend (write_words b ws h) = hend h"
  "in_to_space (write_words b ws h) = in_to_space h" "stats (write_words b ws h) = stats h"
  by (induction ws arbitrary: b h) simp_all

lemma alloc_Some_iff:
  "alloc n h = (Some p, h') \<longleftrightarrow> can_alloc n h \<and> p = hp h \<and>
   h' = h\<lparr>hp := hp h + n,
          stats := (stats h)\<lparr>bytes_allocated := bytes_allocated (stats h) + of_nat (n * 8)\<rparr>\<rparr>"
  by (auto simp: alloc_def can_alloc_def Let_def)

lemma alloc_None_iff: "alloc n h = (None, h') \<longleftrightarrow> \<not> can_alloc n h \<and> h' = h"
  by (auto simp: alloc_def can_alloc_def Let_def)

lemma alloc_facts:
  assumes "alloc n h = (Some p, h')" and "heap_ok h"
  shows "heap_ok h'" "p = hp h" "hp h' = hp h + n" "hend h' = hend h" "hp h + n \<le> hend h"
    "\<And>j. word_or_0 j h' = word_or_0 j h"
  using assms
  by (auto simp: alloc_Some_iff can_alloc_def heap_ok_def word_or_0_def get_word_def active_buffer_def)

text \<open>An object built by a constructor: the words written from the old heap pointer on, and
  nothing else of the heap touched.\<close>

definition built :: "process_heap \<Rightarrow> u64 list \<Rightarrow> nat \<Rightarrow> nat \<Rightarrow> process_heap \<Rightarrow> bool" where
  "built h ws n p h' \<longleftrightarrow> heap_ok h' \<and> p = hp h \<and> hp h' = hp h + n \<and> hend h' = hend h \<and>
     (\<forall>i<length ws. word_or_0 (p + i) h' = ws ! i) \<and> (\<forall>j<p. word_or_0 j h' = word_or_0 j h)"

lemma built_write:
  assumes "alloc n h = (Some p, h')" and "heap_ok h" and "length ws \<le> n"
  shows "built h ws n p (write_words p ws h')"
proof -
  note al = alloc_facts [OF assms(1,2)]
  have fit: "p + length ws \<le> hend h'" using al assms(3) by simp
  show ?thesis
    unfolding built_def
    using al heap_cells.write_ok [OF al(1)] heap_cells.rd_write_in [OF al(1) fit]
      heap_cells.rd_write_below [OF al(1) fit] by simp
qed

lemma built_nth: "built h ws n p h' \<Longrightarrow> i < length ws \<Longrightarrow> word_or_0 (p + i) h' = ws ! i"
  unfolding built_def by blast

lemma built_0: "built h (w # ws) n p h' \<Longrightarrow> word_or_0 p h' = w"
  using built_nth [of h "w # ws" n p h' 0] by simp

lemma header_size_field:
  fixes a b y :: u64
  assumes "unat a < 2 ^ 8" and "unat b < 2 ^ 8" and "unat y < 2 ^ 24"
  shows "drop_bit 8 (a OR push_bit 8 y OR b) AND 0xFFFFFF = y"
proof -
  have m: "(0xFFFFFF :: u64) = mask 24" by (simp add: mask_eq_exp_minus_1)
  have "\<And>w :: u64. unat w < 2 ^ 8 \<Longrightarrow> drop_bit 8 w = 0"
    using take_bit_word_id by (metis take_bit_eq_self_iff_drop_bit_eq_0)
  with assms have z: "drop_bit 8 a = 0" "drop_bit 8 b = 0" by blast+
  have "y AND mask 24 = y"
    using take_bit_word_id [OF assms(3)] by (simp add: take_bit_eq_mask)
  moreover have "drop_bit 8 (push_bit 8 y) = y"
  proof (rule bit_word_eqI)
    fix n assume "n < LENGTH(64)"
    have "bit y n \<Longrightarrow> n < 24"
      using \<open>y AND mask 24 = y\<close> by (metis bit_and_iff bit_mask_iff)
    then show "bit (drop_bit 8 (push_bit 8 y)) n = bit y n"
      by (auto simp: bit_simps)
  qed
  ultimately show ?thesis using z m by (simp add: drop_bit_or)
qed

text \<open>Each constructor, when it succeeds, builds exactly the words of its object.\<close>

definition tuple_words :: "beam_term list \<Rightarrow> u64 list" where
  "tuple_words es =
     (sub_tag_num SubTuple OR push_bit 8 (ucast (1 + of_nat (length es) :: u32)) OR tag_num TagTuple)
       # map term_raw es"

lemma make_tuple_built:
  assumes "make_tuple es h = (Some p, h')" and "heap_ok h" and "length es < 2 ^ 32"
  shows "built h (tuple_words es) (1 + length es) p h'"
proof -
  obtain h1 where al: "alloc (1 + length es) h = (Some p, h1)"
    and h': "h' = for_enum (\<lambda>i e. write_tuple_element p (of_nat i) e) es
        (write_tuple_header p (of_nat (length es)) h1)"
    using assms(1,3) by (auto simp: make_tuple_def alloc_tuple_def Let_def split: prod.splits option.splits)
  have "for_enum (\<lambda>i e. write_tuple_element p (of_nat i) e) es s
      = write_words (Suc p) (map term_raw es) s" for s
    using for_enum_write [where k = 0 and b = "p + 1" and w = set_word and g = term_raw and xs = es
        and f = "\<lambda>i e. write_tuple_element p (of_nat i) e" and s = s] assms(3)
    by (simp add: write_tuple_element_def)
  then have "h' = write_words p (tuple_words es) h1"
    by (simp add: h' tuple_words_def write_tuple_header_def)
  then show ?thesis
    using built_write [OF al assms(2), of "tuple_words es"] by (simp add: tuple_words_def)
qed

definition cons_words :: "beam_term \<Rightarrow> beam_term \<Rightarrow> u64 list" where
  "cons_words a b =
     [sub_tag_num SubCons OR push_bit 8 3 OR tag_num TagCons, term_raw a, term_raw b]"

lemma make_cons_built:
  assumes "make_cons a b h = (Some p, h')" and "heap_ok h"
  shows "built h (cons_words a b) 3 p h'"
proof -
  obtain h1 where al: "alloc 3 h = (Some p, h1)" and h': "h' = write_cons p a b h1"
    using assms(1) by (auto simp: make_cons_def alloc_cons_def split: prod.splits option.splits)
  have "h' = write_words p (cons_words a b) h1"
    by (simp add: h' cons_words_def write_cons_def)
  then show ?thesis
    using built_write [OF al assms(2), of "cons_words a b"] by (simp add: cons_words_def)
qed

definition float_words :: "u64 \<Rightarrow> u64 list" where
  "float_words bits =
     [sub_tag_num SubFloat OR push_bit 8 3 OR tag_num TagFloat, bits, drop_bit 32 bits]"

lemma make_float_built:
  assumes "make_float bits h = (Some p, h')" and "heap_ok h"
  shows "built h (float_words bits) 3 p h'"
proof -
  obtain h1 where al: "alloc 3 h = (Some p, h1)" and h': "h' = write_float p bits h1"
    using assms(1) by (auto simp: make_float_def alloc_float_def split: prod.splits option.splits)
  have "h' = write_words p (float_words bits) h1"
    by (simp add: h' float_words_def write_float_def)
  then show ?thesis
    using built_write [OF al assms(2), of "float_words bits"] by (simp add: float_words_def)
qed

definition map_words :: "(beam_term \<times> beam_term) list \<Rightarrow> u64 list" where
  "map_words kvs =
     (sub_tag_num SubMap OR push_bit 8 (ucast (1 + of_nat (length kvs) * 2 :: u32)) OR tag_num TagMap)
       # concat (map (\<lambda>(k, v). [term_raw k, term_raw v]) kvs)"

lemma map_words_length: "length (map_words kvs) = 1 + 2 * length kvs"
  by (induction kvs) (auto simp: map_words_def)

lemma write_map_kvs:
  "k + length kvs < 2 ^ 32 \<Longrightarrow>
   for_enum_from k (\<lambda>i (a, b). write_map_kv p (of_nat i) a b) kvs s
     = write_words (p + 1 + k * 2) (concat (map (\<lambda>(a, b). [term_raw a, term_raw b]) kvs)) s"
  by (induction kvs arbitrary: k s) (auto simp: write_map_kv_def Let_def ac_simps)

lemma make_map_built:
  assumes "make_map kvs h = (Some p, h')" and "heap_ok h" and "length kvs < 2 ^ 32"
  shows "built h (map_words kvs) (1 + 2 * length kvs) p h'"
proof -
  obtain h1 where al: "alloc (1 + 2 * length kvs) h = (Some p, h1)"
    and h': "h' = for_enum (\<lambda>i (a, b). write_map_kv p (of_nat i) a b) kvs
        (write_map_header p (of_nat (length kvs)) h1)"
    using assms(1,3) by (auto simp: make_map_def alloc_map_def Let_def ac_simps
        split: prod.splits option.splits)
  have "h' = write_words p (map_words kvs) h1"
    using write_map_kvs [of 0 kvs p] assms(3)
    by (simp add: h' map_words_def write_map_header_def)
  then show ?thesis
    using built_write [OF al assms(2), of "map_words kvs"] by (simp add: map_words_length)
qed

definition bigint_words :: "bool \<Rightarrow> u32 list \<Rightarrow> u64 list" where
  "bigint_words negative ds =
     (sub_tag_num SubBigInteger OR push_bit 8 (ucast (3 + of_nat (length ds) :: u32))
        OR tag_num TagSmallInteger)
     # ((if negative then push_bit 32 1 else 0) OR ucast (of_nat (length ds) :: u32)) # map ucast ds"

lemma make_bigint_built:
  assumes "make_bigint negative ds h = (Some p, h')" and "heap_ok h" and "length ds < 2 ^ 32"
  shows "built h (bigint_words negative ds) (3 + length ds) p h'"
proof -
  obtain h1 where al: "alloc (3 + length ds) h = (Some p, h1)"
    and h': "h' = for_enum (\<lambda>i d. write_bigint_digit p (of_nat i) d) ds
        (write_bigint_header p (of_nat (length ds)) negative h1)"
    using assms(1,3) by (auto simp: make_bigint_def alloc_bigint_def Let_def
        split: prod.splits option.splits)
  have "for_enum (\<lambda>i d. write_bigint_digit p (of_nat i) d) ds s
      = write_words (Suc (Suc p)) (map ucast ds) s" for s
    using for_enum_write [where k = 0 and b = "p + 2" and w = set_word and g = ucast and xs = ds
        and f = "\<lambda>i d. write_bigint_digit p (of_nat i) d" and s = s] assms(3)
    by (simp add: write_bigint_digit_def)
  then have "h' = write_words p (bigint_words negative ds) h1"
    by (simp add: h' bigint_words_def write_bigint_header_def)
  then show ?thesis
    using built_write [OF al assms(2), of "bigint_words negative ds"]
    by (simp add: bigint_words_def)
qed

definition fun_words :: "u32 \<Rightarrow> u32 \<Rightarrow> beam_term list \<Rightarrow> u64 list" where
  "fun_words old_index old_uniq fs =
     [sub_tag_num SubFun OR push_bit 8 (ucast (4 + of_nat (length fs) :: u32)) OR tag_num TagFun,
      ucast old_index, ucast old_uniq, ucast (of_nat (length fs) :: u32)] @ map term_raw fs"

lemma make_fun_built:
  assumes "make_fun oi ou (of_nat (length fs)) fs h = (Some p, h')" and "heap_ok h"
    and "length fs < 2 ^ 32"
  shows "built h (fun_words oi ou fs) (4 + length fs) p h'"
proof -
  obtain h1 where al: "alloc (4 + length fs) h = (Some p, h1)"
    and h': "h' = for_enum (\<lambda>i t. write_fun_free_term p (of_nat i) t) fs
        (write_fun_metadata p oi ou (of_nat (length fs)) (write_fun_header p (of_nat (length fs)) h1))"
    using assms(1,3) by (auto simp: make_fun_def alloc_fun_def Let_def
        split: prod.splits option.splits)
  have "for_enum (\<lambda>i t. write_fun_free_term p (of_nat i) t) fs s
      = write_words (p + 4) (map term_raw fs) s" for s
    using for_enum_write [where k = 0 and b = "p + 4" and w = set_word and g = term_raw and xs = fs
        and f = "\<lambda>i t. write_fun_free_term p (of_nat i) t" and s = s] assms(3)
    by (simp add: write_fun_free_term_def)
  moreover have e: "p + 4 = Suc (Suc (Suc (Suc p)))" "p + 3 = Suc (Suc (Suc p))" by simp_all
  ultimately have "h' = write_words p (fun_words oi ou fs) h1"
    by (simp add: h' fun_words_def write_fun_header_def write_fun_metadata_def e)
  then show ?thesis
    using built_write [OF al assms(2), of "fun_words oi ou fs"]
    by (simp add: fun_words_def)
qed

lemma chunks8_Nil [simp]: "chunks8 [] = []"
  by (simp add: chunks8.simps)

lemma Suc_chunk_count:
  fixes n :: nat
  assumes "0 < n"
  shows "Suc ((n - 8 + 7) div 8) = (n + 7) div 8"
proof (cases "n \<le> 8")
  case True
  from assms obtain m where "n = Suc m" by (cases n) auto
  with True have "m < 8" by simp
  with \<open>n = Suc m\<close> True show ?thesis by (simp add: div_add_self2 [of 8 m, simplified])
next
  case False
  then obtain m where "n = m + 8" using le_Suc_ex nat_le_linear by (metis add.commute)
  then show ?thesis by simp
qed

lemma chunks8_length: "length (chunks8 xs) = (length xs + 7) div 8"
proof (induction xs rule: chunks8.induct)
  case (1 xs)
  show ?case
  proof (cases "xs = []")
    case False
    then have "length (chunks8 xs) = Suc ((length (drop 8 xs) + 7) div 8)"
      using 1 by (simp add: chunks8.simps [of xs])
    also have "\<dots> = (length xs + 7) div 8"
    proof -
      have "0 < length xs" using False by simp
      from Suc_chunk_count [OF this] show ?thesis by simp
    qed
    finally show ?thesis .
  qed simp
qed

lemma chunks8_nth: "i < length (chunks8 xs) \<Longrightarrow> chunks8 xs ! i = take 8 (drop (8 * i) xs)"
proof (induction i arbitrary: xs)
  case 0
  then have "xs \<noteq> []" by auto
  then show ?case by (simp add: chunks8.simps [of xs])
next
  case (Suc i)
  then have "xs \<noteq> []" by auto
  then have c: "chunks8 xs = take 8 xs # chunks8 (drop 8 xs)" by (simp add: chunks8.simps [of xs])
  with Suc.prems have "i < length (chunks8 (drop 8 xs))" by simp
  from Suc.IH [OF this] show ?case by (simp add: c add.commute)
qed

text \<open>The bytes of a chunk can be read back from its word.\<close>

lemma chunk_word_bit:
  "for_enum_from k (\<lambda>j byte w. w OR push_bit (j * 8) (ucast byte)) (bs :: u8 list) (w :: u64) = w' \<Longrightarrow>
   bit w' n \<longleftrightarrow> bit w n \<or> n < 64 \<and> k \<le> n div 8 \<and> n div 8 < k + length bs \<and> bit (bs ! (n div 8 - k)) (n mod 8)"
proof (induction bs arbitrary: k w)
  case Nil
  then show ?case by auto
next
  case (Cons b bs)
  have bb: "bit (push_bit (k * 8) (ucast b) :: u64) n \<longleftrightarrow> n < 64 \<and> n div 8 = k \<and> bit b (n mod 8)"
  proof (cases "n div 8 = k")
    case True
    then have "k * 8 \<le> n" and "n - k * 8 = n mod 8"
      by (auto simp: minus_div_mult_eq_mod)
    then show ?thesis using True by (auto simp: bit_simps)
  next
    case False
    then have "k * 8 \<le> n \<Longrightarrow> 8 \<le> n - k * 8" by presburger
    then show ?thesis using False bit_imp_le_length [of b "n - k * 8"] by (auto simp: bit_simps)
  qed
  from Cons.IH [of "Suc k" "w OR push_bit (k * 8) (ucast b)"] Cons.prems
  show ?case
    by (auto simp: bb bit_or_iff nth_Cons' Suc_diff_le)
qed

lemma chunk_word_byte:
  assumes "length bs \<le> 8" and "j < length bs"
  shows "ucast (drop_bit (j * 8) (chunk_word bs)) = bs ! j"
proof (rule bit_word_eqI)
  fix n assume n: "n < LENGTH(8)"
  then have "(j * 8 + n) div 8 = j" and "(j * 8 + n) mod 8 = n" and "j * 8 + n < 64"
    using assms by simp_all
  with chunk_word_bit [of 0 bs 0 "chunk_word bs" "j * 8 + n"] assms n
  show "bit (ucast (drop_bit (j * 8) (chunk_word bs)) :: u8) n = bit (bs ! j) n"
    by (auto simp: bit_simps chunk_word_def)
qed

definition binary_words :: "u8 list \<Rightarrow> u64 list" where
  "binary_words data =
     (sub_tag_num SubBinary
        OR push_bit 8 (ucast (2 + (of_nat (length data) + 7) div 8 :: u32)) OR tag_num TagBinary)
     # ucast (of_nat (length data) :: u32) # map chunk_word (chunks8 data)"

lemma binary_word_count:
  assumes "length (data :: u8 list) + 7 < 2 ^ 32"
  shows "unat ((of_nat (length data) + 7) div 8 :: u32) = (length data + 7) div 8"
proof -
  have "unat (of_nat (length data) + 7 :: u32) = length data + 7"
    using unat_of_nat_u32 [OF assms] by simp
  then show ?thesis by (simp add: unat_div)
qed

lemma make_binary_built:
  assumes "make_binary (of_nat (length data)) data h = (Some p, h')" and "heap_ok h"
    and "length data + 7 < 2 ^ 32"
  shows "built h (binary_words data) (2 + (length data + 7) div 8) p h'"
proof -
  obtain h1 where al: "alloc (2 + (length data + 7) div 8) h = (Some p, h1)"
    and h': "h' = write_binary_data p data (write_binary_header p (of_nat (length data)) h1)"
    using assms(1) binary_word_count [OF assms(3)]
    by (auto simp: make_binary_def alloc_binary_def Let_def split: prod.splits option.splits)
  have "write_binary_data p data s = write_words (p + 2) (map chunk_word (chunks8 data)) s" for s
    using for_enum_write [where k = 0 and b = "p + 2" and w = set_word and g = chunk_word
        and xs = "chunks8 data" and f = "\<lambda>i chunk. set_word (p + 2 + i) (chunk_word chunk)" and s = s]
    by (simp add: write_binary_data_def)
  then have "h' = write_words p (binary_words data) h1"
    by (simp add: h' binary_words_def write_binary_header_def)
  then show ?thesis
    using built_write [OF al assms(2), of "binary_words data"]
    by (simp add: binary_words_def chunks8_length)
qed

lemma read_back_chunks:
  assumes "length data + 7 < 2 ^ 32" and "built h (binary_words data) n p h'" and "i < length data"
  shows "ucast (drop_bit (i mod 8 * 8) (word_or_0 (p + 2 + i div 8) h')) = data ! i"
proof -
  have c: "i div 8 < length (chunks8 data)"
    using assms(3) by (simp add: chunks8_length less_eq_Suc_le [symmetric])
  have "word_or_0 (p + (2 + i div 8)) h' = binary_words data ! (2 + i div 8)"
    using c by (intro built_nth [OF assms(2)]) (simp add: binary_words_def)
  also have "\<dots> = chunk_word (take 8 (drop (8 * (i div 8)) data))"
    using c by (simp add: binary_words_def chunks8_nth)
  finally have w: "word_or_0 (p + 2 + i div 8) h' = chunk_word (take 8 (drop (8 * (i div 8)) data))"
    by (simp add: add.assoc)
  have "i = 8 * (i div 8) + i mod 8" by simp
  then have "i mod 8 < length data - 8 * (i div 8)" using assms(3) by linarith
  then have "i mod 8 < length (take 8 (drop (8 * (i div 8)) data))" by simp
  from chunk_word_byte [OF _ this] show ?thesis
    unfolding w using assms(3) by (simp add: nth_drop)
qed

lemma make_None_iff:
  "fst (make_cons a b h) = None \<longleftrightarrow> \<not> can_alloc 3 h"
  "fst (make_float bits h) = None \<longleftrightarrow> \<not> can_alloc 3 h"
  "length es < 2 ^ 32 \<Longrightarrow> fst (make_tuple es h) = None \<longleftrightarrow> \<not> can_alloc (1 + length es) h"
  "length ds < 2 ^ 32 \<Longrightarrow> fst (make_bigint neg ds h) = None \<longleftrightarrow> \<not> can_alloc (3 + length ds) h"
  "length kvs < 2 ^ 32 \<Longrightarrow> fst (make_map kvs h) = None \<longleftrightarrow> \<not> can_alloc (1 + length kvs * 2) h"
  by (auto simp: make_cons_def alloc_cons_def make_float_def alloc_float_def make_tuple_def
      alloc_tuple_def make_bigint_def alloc_bigint_def make_map_def alloc_map_def alloc_def
      can_alloc_def Let_def)

lemma make_None_heap:
  "make_cons a b h = (None, h') \<Longrightarrow> h' = h"
  "make_tuple es h = (None, h') \<Longrightarrow> h' = h"
  "make_map kvs h = (None, h') \<Longrightarrow> h' = h"
  "make_binary n data h = (None, h') \<Longrightarrow> h' = h"
  by (auto simp: make_cons_def alloc_cons_def make_tuple_def alloc_tuple_def make_map_def
      alloc_map_def make_binary_def alloc_binary_def alloc_None_iff Let_def
      split: prod.splits option.splits)

lemma u32_count: "n < 2 ^ 24 - 1 \<Longrightarrow> unat (1 + of_nat n :: u32) = n + 1"
proof -
  assume "n < 2 ^ 24 - 1"
  then have "n + 1 < 2 ^ 32" by simp
  from unat_of_nat_u32 [OF this] show ?thesis by (simp add: ac_simps)
qed

lemma tuple_arity_built:
  assumes "built h (tuple_words es) n p h'" and "length es < 2 ^ 24 - 1"
  shows "unat (tuple_arity p h') = length es"
proof -
  have w: "word_or_0 p h' = (1 OR push_bit 8 (ucast (1 + of_nat (length es) :: u32)) OR 3)"
    using built_0 [OF assms(1) [unfolded tuple_words_def]] by simp
  have "drop_bit 8 (word_or_0 p h') AND 0xFFFFFF = ucast (1 + of_nat (length es) :: u32)"
    unfolding w by (rule header_size_field)
      (use u32_count [OF assms(2)] assms(2) in simp_all)
  moreover have "(ucast (1 + of_nat (length es) :: u32) :: u64) = 1 + of_nat (length es)"
    using u32_count [OF assms(2)] unat_of_nat_u64 [of "Suc (length es)"] assms(2)
    by (simp add: word_unat_eq_iff)
  ultimately have "tuple_arity p h' = of_nat (length es)"
    unfolding tuple_arity_def Let_def by simp
  then show ?thesis using assms(2) by (simp add: unsigned_of_nat take_bit_nat_eq_self)
qed

lemma sign_word_field:
  "drop_bit 32 ((if neg then push_bit 32 1 else 0) OR ucast (n :: u32) :: u64) \<noteq> 0 \<longleftrightarrow> neg"
proof -
  have "drop_bit 32 (ucast n :: u64) = 0"
    by (rule bit_word_eqI) (auto simp: bit_simps dest: bit_imp_le_length)
  then show ?thesis by (simp add: drop_bit_or)
qed

lemma sign_word_count:
  "(ucast (((if neg then push_bit 32 1 else 0) OR ucast (n :: u32)) AND 0xFFFFFFFF :: u64) :: u32) = n"
proof -
  have m: "(0xFFFFFFFF :: u64) = mask 32" by (simp add: mask_eq_exp_minus_1)
  have "(ucast ((push_bit 32 k OR ucast n) AND mask 32 :: u64) :: u32) = n" for k
    by (rule bit_word_eqI) (auto simp: bit_simps)
  from this [of 1] this [of 0] show ?thesis
    unfolding m by (cases neg) simp_all
qed

lemma unshifted_header_bits:
  fixes k :: u64
  assumes "unat k < 2 ^ 3"
  shows "(k OR push_bit 8 y) AND 7 = k" and "drop_bit 3 (k OR push_bit 8 y) AND 0x1F = 0"
proof -
  have m: "(7 :: u64) = mask 3" "(0x1F :: u64) = mask 5" by (simp_all add: mask_eq_exp_minus_1)
  have "\<And>n. bit k n \<Longrightarrow> n < 3" by (rule small_bits [OF assms])
  then show "(k OR push_bit 8 y) AND 7 = k" "drop_bit 3 (k OR push_bit 8 y) AND 0x1F = 0"
    unfolding m by (auto simp: bit_simps intro!: bit_word_eqI) fastforce+
qed

lemma unshifted_tag:
  "extract_tag (s OR push_bit 8 y OR t) = extract_tag (s OR t)" if "unat (s OR t) < 2 ^ 3"
  for s t :: u64
proof -
  have "s OR push_bit 8 y OR t = (s OR t) OR push_bit 8 y" by (simp add: ac_simps)
  with unshifted_header_bits(1) [OF that, of y] show ?thesis
    using unshifted_header_bits(1) [OF that, of 0] by (simp add: extract_tag_def)
qed

lemma unshifted_sub_tag:
  "extract_sub_tag (s OR push_bit 8 y OR t) = SubCons" if "unat (s OR t) < 2 ^ 3" for s t :: u64
proof -
  have "s OR push_bit 8 y OR t = (s OR t) OR push_bit 8 y" by (simp add: ac_simps)
  with unshifted_header_bits(2) [OF that, of y] show ?thesis by (simp add: extract_sub_tag_def)
qed

lemma extract_tag_consts: "extract_tag 3 = TagTuple" "extract_tag 6 = TagMap" "extract_tag 7 = TagFun"
  by (simp_all add: extract_tag_def)

lemma make_tuple_spec:
  assumes "heap_ok h" and "length es < 2 ^ 24 - 1"
  shows "case make_tuple es h of
      (None, h') \<Rightarrow> \<not> can_alloc (1 + length es) h \<and> h' = h
    | (Some p, h') \<Rightarrow>
        heap_ok h' \<and> p = hp h \<and> hp h' = hp h + 1 + length es
        \<and> unat (tuple_arity p h') = length es
        \<and> (\<forall>i<length es. read_tuple_element p (of_nat i) h' = es ! i)
        \<and> (\<forall>j<hp h. word_or_0 j h' = word_or_0 j h)"
proof (cases "make_tuple es h")
  case (Pair r h')
  have len: "length es < 2 ^ 32" using assms(2) by simp
  show ?thesis
  proof (cases r)
    case None
    then show ?thesis
      using Pair make_None_heap(2) [of es h h'] make_None_iff(3) [OF len, of h] by simp
  next
    case (Some p)
    have b: "built h (tuple_words es) (1 + length es) p h'"
      using make_tuple_built [OF _ assms(1) len] Pair Some by simp
    have "read_tuple_element p (of_nat i) h' = es ! i" if "i < length es" for i
      using built_nth [OF b, of "1 + i"] that len
      by (simp add: read_tuple_element_def tuple_words_def)
    with tuple_arity_built [OF b assms(2)] b Pair Some show ?thesis
      by (auto simp: built_def)
  qed
qed

section \<open>Properties\<close>

text \<open>\<^verbatim>\<open>make_tuple\<close> either finds no room and leaves the heap as it was, or returns the
  old heap pointer; then the tuple has the arity and, at each index, the element it was made
  from, the heap pointer has moved past it, the invariant holds, and no word below it has
  changed.\<close>

theorem make_tuple_roundtrip:
  assumes "heap_ok h" and "length es < 2 ^ 24 - 1"
  shows "case make_tuple es h of
      (None, h') \<Rightarrow> \<not> can_alloc (1 + length es) h \<and> h' = h
    | (Some p, h') \<Rightarrow>
        heap_ok h' \<and> p = hp h \<and> hp h' = hp h + 1 + length es
        \<and> unat (tuple_arity p h') = length es
        \<and> (\<forall>i<length es. read_tuple_element p (of_nat i) h' = es ! i)
        \<and> (\<forall>j<hp h. word_or_0 j h' = word_or_0 j h)"
  by (rule make_tuple_spec [OF assms])

theorem make_tuple_roundtrip_witness:
  "case make_tuple [from_atom 3, from_atom 5] (heap_new (heap_config_default\<lparr>initial_size := 4\<rparr>)) of
      (None, h') \<Rightarrow> False
    | (Some p, h') \<Rightarrow> p = 0 \<and> hp h' = 3 \<and> read_tuple_element p (of_nat 1) h' = from_atom 5"
  using make_tuple_roundtrip [OF heap_new_ok, of "[from_atom 3, from_atom 5]"
      "heap_config_default\<lparr>initial_size := 4\<rparr>"]
  by (auto simp: can_alloc_def heap_new_def split: prod.splits option.splits)

text \<open>Binaries keep their bytes: reading back a binary that \<^verbatim>\<open>make_binary\<close> built, into a
  buffer of its size, gives the bytes it was built from, and its size is their number.\<close>

theorem make_binary_roundtrip:
  assumes "heap_ok h" and "length data + 7 < 2 ^ 32"
    and "make_binary (of_nat (length data)) data h = (Some p, h')"
    and "length buffer = length data"
  shows "read_binary_data p buffer h' = data \<and> unat (binary_size p h') = length data \<and> heap_ok h'"
proof -
  have b: "built h (binary_words data) (2 + (length data + 7) div 8) p h'"
    by (rule make_binary_built [OF assms(3,1,2)])
  have "word_or_0 (p + 1) h' = ucast (of_nat (length data) :: u32)"
    using built_nth [OF b, of 1] by (simp add: binary_words_def)
  then have sz: "unat (binary_size p h') = length data"
    using assms(2) by (simp add: binary_size_def)
  have "read_binary_data p buffer h' = data"
  proof (rule nth_equalityI)
    show "length (read_binary_data p buffer h') = length data"
      by (simp add: read_binary_data_def Let_def assms(4))
    fix i assume "i < length (read_binary_data p buffer h')"
    then have i: "i < length data" by (simp add: read_binary_data_def Let_def assms(4))
    then show "read_binary_data p buffer h' ! i = data ! i"
      using read_back_chunks [OF assms(2) b i] sz assms(4)
      by (simp add: read_binary_data_def Let_def nth_enumerate_eq)
  qed
  with sz b show ?thesis by (simp add: built_def)
qed

theorem make_binary_roundtrip_witness:
  "read_binary_data 0 (replicate 9 0)
     (snd (make_binary 9 [1, 2, 3, 4, 5, 6, 7, 8, 9] (heap_new heap_config_default)))
   = [1, 2, 3, 4, 5, 6, 7, 8, 9]"
proof -
  let ?d = "[1, 2, 3, 4, 5, 6, 7, 8, 9] :: u8 list"
  let ?h = "heap_new heap_config_default"
  have "fst (make_binary 9 ?d ?h) = Some 0"
    by (simp add: make_binary_def alloc_binary_def alloc_def heap_new_def heap_config_default_def)
  then have "make_binary (of_nat (length ?d)) ?d ?h = (Some 0, snd (make_binary 9 ?d ?h))"
    by (simp add: prod_eq_iff)
  from make_binary_roundtrip [OF heap_new_ok _ this, of "replicate 9 0"] show ?thesis by simp
qed

text \<open>Every other constructor of heap objects is inverted by its readers: the head and
  tail of a cons cell, the bits of a float, the sign, digit count and digits of a big integer,
  and the captured terms of a fun come back as they were given, and the heap below the object
  is untouched.\<close>

theorem heap_objects_roundtrip:
  assumes "heap_ok h" and "length ds < 2 ^ 32" and "length fs < 2 ^ 32"
  shows "(make_cons a b h = (Some p, h') \<longrightarrow>
           read_cons_head p h' = a \<and> read_cons_tail p h' = b \<and> (\<forall>j<hp h. word_or_0 j h' = word_or_0 j h))
    \<and> (make_float bits h = (Some p, h') \<longrightarrow>
           read_float p h' = bits \<and> (\<forall>j<hp h. word_or_0 j h' = word_or_0 j h))
    \<and> (make_bigint neg ds h = (Some p, h') \<longrightarrow>
           bigint_is_negative p h' = neg \<and> unat (bigint_digit_count p h') = length ds
           \<and> (\<forall>i<length ds. read_bigint_digit p (of_nat i) h' = ds ! i)
           \<and> (\<forall>j<hp h. word_or_0 j h' = word_or_0 j h))
    \<and> (make_fun oi ou (of_nat (length fs)) fs h = (Some p, h') \<longrightarrow>
           fun_old_uniq p h' = ou \<and> unat (fun_num_free p h') = length fs
           \<and> (\<forall>i<length fs. read_fun_free_term p (of_nat i) h' = fs ! i)
           \<and> (\<forall>j<hp h. word_or_0 j h' = word_or_0 j h))"
proof (intro conjI impI)
  assume "make_cons a b h = (Some p, h')"
  from make_cons_built [OF this assms(1)] have b: "built h (cons_words a b) 3 p h'" .
  show "read_cons_head p h' = a" "read_cons_tail p h' = b"
    using built_nth [OF b, of 1] built_nth [OF b, of 2]
    by (simp_all add: cons_words_def read_cons_head_def read_cons_tail_def)
  show "\<forall>j<hp h. word_or_0 j h' = word_or_0 j h" using b by (simp add: built_def)
next
  assume "make_float bits h = (Some p, h')"
  from make_float_built [OF this assms(1)] have b: "built h (float_words bits) 3 p h'" .
  show "read_float p h' = bits"
    using built_nth [OF b, of 1] by (simp add: float_words_def read_float_def)
  show "\<forall>j<hp h. word_or_0 j h' = word_or_0 j h" using b by (simp add: built_def)
next
  assume "make_bigint neg ds h = (Some p, h')"
  from make_bigint_built [OF this assms(1,2)]
  have b: "built h (bigint_words neg ds) (3 + length ds) p h'" .
  let ?n = "of_nat (length ds) :: u32"
  have w: "word_or_0 (p + 1) h' = (if neg then push_bit 32 1 else 0) OR ucast ?n"
    using built_nth [OF b, of 1] by (simp add: bigint_words_def)
  show "bigint_is_negative p h' = neg"
    unfolding bigint_is_negative_def w by (rule sign_word_field)
  show "unat (bigint_digit_count p h') = length ds"
    unfolding bigint_digit_count_def w sign_word_count using assms(2) by simp
  show "\<forall>i<length ds. read_bigint_digit p (of_nat i) h' = ds ! i"
    using built_nth [OF b, of "2 + i" for i] assms(2)
    by (simp add: bigint_words_def read_bigint_digit_def)
  show "\<forall>j<hp h. word_or_0 j h' = word_or_0 j h" using b by (simp add: built_def)
next
  assume "make_fun oi ou (of_nat (length fs)) fs h = (Some p, h')"
  from make_fun_built [OF this assms(1,3)]
  have b: "built h (fun_words oi ou fs) (4 + length fs) p h'" .
  show "fun_old_uniq p h' = ou" "unat (fun_num_free p h') = length fs"
    using built_nth [OF b, of 2] built_nth [OF b, of 3] assms(3)
    by (simp_all add: fun_words_def fun_old_uniq_def fun_num_free_def)
  show "\<forall>i<length fs. read_fun_free_term p (of_nat i) h' = fs ! i"
    using built_nth [OF b, of "4 + i" for i] assms(3)
    by (simp add: fun_words_def read_fun_free_term_def add.assoc)
  show "\<forall>j<hp h. word_or_0 j h' = word_or_0 j h" using b by (simp add: built_def)
qed

theorem heap_objects_roundtrip_witness:
  "read_cons_head 0 (snd (make_cons (from_atom 3) nil (heap_new heap_config_default))) = from_atom 3
   \<and> read_bigint_digit 0 (of_nat 1)
       (snd (make_bigint True [7, 9] (heap_new heap_config_default))) = 9"
proof -
  let ?h = "heap_new heap_config_default"
  have "fst (make_cons (from_atom 3) nil ?h) = Some 0"
    "fst (make_bigint True [7, 9] ?h) = Some 0"
    by (simp_all add: make_cons_def alloc_cons_def make_bigint_def alloc_bigint_def alloc_def
        heap_new_def heap_config_default_def)
  then have c: "make_cons (from_atom 3) nil ?h = (Some 0, snd (make_cons (from_atom 3) nil ?h))"
    and b: "make_bigint True [7, 9] ?h = (Some 0, snd (make_bigint True [7, 9] ?h))"
    by (simp_all add: prod_eq_iff)
  have "length [7, 9 :: u32] < 2 ^ 32" and "length ([] :: beam_term list) < 2 ^ 32" by simp_all
  note rt = heap_objects_roundtrip [OF heap_new_ok this]
  have "\<forall>i<length [7, 9 :: u32]. read_bigint_digit 0 (of_nat i) (snd (make_bigint True [7, 9] ?h))
      = [7, 9] ! i"
    using rt b by blast
  from this [rule_format, of 1]
  have "read_bigint_digit 0 (of_nat 1) (snd (make_bigint True [7, 9] ?h)) = 9" by simp
  moreover have "read_cons_head 0 (snd (make_cons (from_atom 3) nil ?h)) = from_atom 3"
    using rt c by blast
  ultimately show ?thesis by blast
qed

text \<open>The headers the heap writes do not shift the sub-tag: the sub-tag field of every
  header reads as \<^verbatim>\<open>Cons\<close>, and because the sub-tag is or-ed over the tag bits a float and a
  big integer read as maps and a binary as a fun; cons cells, tuples and maps keep their tag.\<close>

theorem heap_header_tags:
  assumes "heap_ok h"
  shows "(make_cons a b h = (Some p, h') \<longrightarrow>
           extract_tag (word_or_0 p h') = TagCons \<and> extract_sub_tag (word_or_0 p h') = SubCons)
    \<and> (length es < 2 ^ 32 \<and> make_tuple es h = (Some p, h') \<longrightarrow>
           extract_tag (word_or_0 p h') = TagTuple \<and> extract_sub_tag (word_or_0 p h') = SubCons)
    \<and> (make_float bits h = (Some p, h') \<longrightarrow>
           extract_tag (word_or_0 p h') = TagMap \<and> extract_sub_tag (word_or_0 p h') = SubCons)
    \<and> (length ds < 2 ^ 32 \<and> make_bigint neg ds h = (Some p, h') \<longrightarrow>
           extract_tag (word_or_0 p h') = TagMap \<and> extract_sub_tag (word_or_0 p h') = SubCons)
    \<and> (length data + 7 < 2 ^ 32 \<and> make_binary (of_nat (length data)) data h = (Some p, h') \<longrightarrow>
           extract_tag (word_or_0 p h') = TagFun \<and> extract_sub_tag (word_or_0 p h') = SubCons)"
proof (intro conjI impI; (elim conjE)?)
  assume "make_cons a b h = (Some p, h')"
  from built_0 [OF make_cons_built [OF this assms, unfolded cons_words_def]]
  show "extract_tag (word_or_0 p h') = TagCons" "extract_sub_tag (word_or_0 p h') = SubCons"
    by (simp_all add: extract_tag_def extract_sub_tag_def)
next
  assume "length es < 2 ^ 32" and "make_tuple es h = (Some p, h')"
  from built_0 [OF make_tuple_built [OF this(2) assms this(1), unfolded tuple_words_def]]
  show "extract_tag (word_or_0 p h') = TagTuple" "extract_sub_tag (word_or_0 p h') = SubCons"
    by (simp_all add: unshifted_tag unshifted_tag [where t = 0, simplified] unshifted_sub_tag
        unshifted_sub_tag [where t = 0, simplified] extract_tag_consts)
next
  assume "make_float bits h = (Some p, h')"
  from built_0 [OF make_float_built [OF this assms, unfolded float_words_def]]
  show "extract_tag (word_or_0 p h') = TagMap" "extract_sub_tag (word_or_0 p h') = SubCons"
    by (simp_all add: extract_tag_def extract_sub_tag_def)
next
  assume "length ds < 2 ^ 32" and "make_bigint neg ds h = (Some p, h')"
  from built_0 [OF make_bigint_built [OF this(2) assms this(1), unfolded bigint_words_def]]
  show "extract_tag (word_or_0 p h') = TagMap" "extract_sub_tag (word_or_0 p h') = SubCons"
    by (simp_all add: unshifted_tag unshifted_tag [where t = 0, simplified] unshifted_sub_tag
        unshifted_sub_tag [where t = 0, simplified] extract_tag_consts)
next
  assume "length data + 7 < 2 ^ 32" and "make_binary (of_nat (length data)) data h = (Some p, h')"
  from built_0 [OF make_binary_built [OF this(2) assms this(1), unfolded binary_words_def]]
  show "extract_tag (word_or_0 p h') = TagFun" "extract_sub_tag (word_or_0 p h') = SubCons"
    by (simp_all add: unshifted_tag unshifted_tag [where t = 0, simplified] unshifted_sub_tag
        unshifted_sub_tag [where t = 0, simplified] extract_tag_consts)
qed

theorem heap_header_tags_witness:
  "extract_tag (word_or_0 0 (snd (make_float 0 (heap_new heap_config_default)))) = TagMap"
proof -
  let ?h = "heap_new heap_config_default"
  have "fst (make_float 0 ?h) = Some 0"
    by (simp add: make_float_def alloc_float_def alloc_def heap_new_def heap_config_default_def)
  then have "make_float 0 ?h = (Some 0, snd (make_float 0 ?h))" by (simp add: prod_eq_iff)
  then show ?thesis using heap_header_tags [OF heap_new_ok] by blast
qed

end
