(* ===== verification/Opcodes.thy ===== *)
theory Opcodes
  imports Prelude
begin

text \<open>
  The instruction set (\<^verbatim>\<open>enum Opcode\<close> of
  \<^verbatim>\<open>crates/chimera_erlang_beam_instr/src/lib.rs\<close>), the raw decoding of opcodes and the
  operand fields of an instruction word.
\<close>

section \<open>Opcodes\<close>

text \<open>The variants are grouped as the comments of the source group them.\<close>

datatype load_op = OpMove | OpLoadNil | OpLoadInt | OpLoadAtom
datatype call_op = OpCall | OpCallLast | OpCallOnly | OpReturn
datatype jump_op = OpJump | OpJumpOnVal | OpJumpOnFail
datatype alloc_op = OpAllocate | OpAllocateZero | OpDeallocate
datatype init_op = OpInit | OpInitNext | OpInitPutList
datatype list_op = OpGetList | OpGetTuple | OpPutList | OpPutTuple
datatype arith_op = OpAdd | OpSub | OpMul | OpDiv | OpRem | OpNeg | OpIntDiv | OpIntMult
  | OpIntSub | OpIntAdd
datatype compare_op = OpEq | OpNeq | OpLt | OpLte | OpGt | OpGte | OpExactEq | OpExactNeq
datatype type_test_op = OpIsAtom | OpIsInteger | OpIsFloat | OpIsNumber | OpIsTuple | OpIsList
  | OpIsNil | OpIsBinary | OpIsFunction
datatype send_op = OpSendOp | OpSendMsg
datatype recv_op = OpRecvOp | OpRecvWaitOp | OpRecvPopOp | OpRecvTimeoutOp
datatype exception_op = OpTryVal | OpTryEnd | OpCatchVal | OpCatchEnd | OpRaise
datatype select_op = OpSelectTupleArity | OpSelectVal | OpJumpWorks
datatype error_op = OpBadarg | OpBadmatch | OpCaseClause | OpIfClause | OpFunctionClause
  | OpSystemLimit
datatype frame_op = OpEnterFrame | OpLeaveFrame | OpRestore
datatype bif_op = OpBif0 | OpBif1 | OpBif2
datatype native_op = OpNative | OpNativeClosure
datatype map_op = OpMapCreate | OpMapPut | OpMapGet | OpMapRemove | OpMapSize
datatype float_op = OpFloatAdd | OpFloatSub | OpFloatMul | OpFloatDiv | OpFloatCmp
  | OpFloatOp | OpFloatLoad
datatype bs_op = OpBsInit | OpBsPut | OpBsMatch | OpBsSave | OpBsRestore

datatype opcode =
    ILoad load_op
  | ICall call_op
  | IJump jump_op
  | IAlloc alloc_op
  | IInit init_op
  | IList list_op
  | IArith arith_op
  | ICompare compare_op
  | ITypeTest type_test_op
  | ISend send_op
  | IRecv recv_op
  | IException exception_op
  | ISelect select_op
  | IError error_op
  | IFrame frame_op
  | IBif bif_op
  | INative native_op
  | IMap map_op
  | IFloat float_op
  | IBs bs_op

text \<open>The discriminants of \<^verbatim>\<open>#[repr(u16)] enum Opcode\<close>, group by group.\<close>

fun load_op_num :: "load_op \<Rightarrow> nat" where
  "load_op_num OpMove = 0"
| "load_op_num OpLoadNil = 1"
| "load_op_num OpLoadInt = 2"
| "load_op_num OpLoadAtom = 3"

fun call_op_num :: "call_op \<Rightarrow> nat" where
  "call_op_num OpCall = 10"
| "call_op_num OpCallLast = 11"
| "call_op_num OpCallOnly = 12"
| "call_op_num OpReturn = 20"

fun jump_op_num :: "jump_op \<Rightarrow> nat" where
  "jump_op_num OpJump = 30"
| "jump_op_num OpJumpOnVal = 31"
| "jump_op_num OpJumpOnFail = 32"

fun alloc_op_num :: "alloc_op \<Rightarrow> nat" where
  "alloc_op_num OpAllocate = 40"
| "alloc_op_num OpAllocateZero = 41"
| "alloc_op_num OpDeallocate = 42"

fun init_op_num :: "init_op \<Rightarrow> nat" where
  "init_op_num OpInit = 50"
| "init_op_num OpInitNext = 51"
| "init_op_num OpInitPutList = 52"

fun list_op_num :: "list_op \<Rightarrow> nat" where
  "list_op_num OpGetList = 60"
| "list_op_num OpGetTuple = 61"
| "list_op_num OpPutList = 62"
| "list_op_num OpPutTuple = 63"

fun arith_op_num :: "arith_op \<Rightarrow> nat" where
  "arith_op_num OpAdd = 70"
| "arith_op_num OpSub = 71"
| "arith_op_num OpMul = 72"
| "arith_op_num OpDiv = 73"
| "arith_op_num OpRem = 74"
| "arith_op_num OpNeg = 75"
| "arith_op_num OpIntDiv = 76"
| "arith_op_num OpIntMult = 77"
| "arith_op_num OpIntSub = 78"
| "arith_op_num OpIntAdd = 79"

fun compare_op_num :: "compare_op \<Rightarrow> nat" where
  "compare_op_num OpEq = 80"
| "compare_op_num OpNeq = 81"
| "compare_op_num OpLt = 82"
| "compare_op_num OpLte = 83"
| "compare_op_num OpGt = 84"
| "compare_op_num OpGte = 85"
| "compare_op_num OpExactEq = 86"
| "compare_op_num OpExactNeq = 87"

fun type_test_op_num :: "type_test_op \<Rightarrow> nat" where
  "type_test_op_num OpIsAtom = 90"
| "type_test_op_num OpIsInteger = 91"
| "type_test_op_num OpIsFloat = 92"
| "type_test_op_num OpIsNumber = 93"
| "type_test_op_num OpIsTuple = 94"
| "type_test_op_num OpIsList = 95"
| "type_test_op_num OpIsNil = 96"
| "type_test_op_num OpIsBinary = 97"
| "type_test_op_num OpIsFunction = 98"

fun send_op_num :: "send_op \<Rightarrow> nat" where
  "send_op_num OpSendOp = 110"
| "send_op_num OpSendMsg = 111"

fun recv_op_num :: "recv_op \<Rightarrow> nat" where
  "recv_op_num OpRecvOp = 112"
| "recv_op_num OpRecvWaitOp = 113"
| "recv_op_num OpRecvPopOp = 114"
| "recv_op_num OpRecvTimeoutOp = 115"

fun exception_op_num :: "exception_op \<Rightarrow> nat" where
  "exception_op_num OpTryVal = 120"
| "exception_op_num OpTryEnd = 121"
| "exception_op_num OpCatchVal = 122"
| "exception_op_num OpCatchEnd = 123"
| "exception_op_num OpRaise = 124"

fun select_op_num :: "select_op \<Rightarrow> nat" where
  "select_op_num OpSelectTupleArity = 130"
| "select_op_num OpSelectVal = 131"
| "select_op_num OpJumpWorks = 132"

fun error_op_num :: "error_op \<Rightarrow> nat" where
  "error_op_num OpBadarg = 140"
| "error_op_num OpBadmatch = 141"
| "error_op_num OpCaseClause = 142"
| "error_op_num OpIfClause = 143"
| "error_op_num OpFunctionClause = 144"
| "error_op_num OpSystemLimit = 145"

fun frame_op_num :: "frame_op \<Rightarrow> nat" where
  "frame_op_num OpEnterFrame = 150"
| "frame_op_num OpLeaveFrame = 151"
| "frame_op_num OpRestore = 152"

fun bif_op_num :: "bif_op \<Rightarrow> nat" where
  "bif_op_num OpBif0 = 160"
| "bif_op_num OpBif1 = 161"
| "bif_op_num OpBif2 = 162"

fun native_op_num :: "native_op \<Rightarrow> nat" where
  "native_op_num OpNative = 200"
| "native_op_num OpNativeClosure = 201"

fun map_op_num :: "map_op \<Rightarrow> nat" where
  "map_op_num OpMapCreate = 202"
| "map_op_num OpMapPut = 203"
| "map_op_num OpMapGet = 204"
| "map_op_num OpMapRemove = 205"
| "map_op_num OpMapSize = 206"

fun float_op_num :: "float_op \<Rightarrow> nat" where
  "float_op_num OpFloatAdd = 210"
| "float_op_num OpFloatSub = 211"
| "float_op_num OpFloatMul = 212"
| "float_op_num OpFloatDiv = 213"
| "float_op_num OpFloatCmp = 214"
| "float_op_num OpFloatOp = 215"
| "float_op_num OpFloatLoad = 216"

fun bs_op_num :: "bs_op \<Rightarrow> nat" where
  "bs_op_num OpBsInit = 220"
| "bs_op_num OpBsPut = 221"
| "bs_op_num OpBsMatch = 222"
| "bs_op_num OpBsSave = 223"
| "bs_op_num OpBsRestore = 224"

fun opcode_num :: "opcode \<Rightarrow> nat" where
  "opcode_num (ILoad op) = load_op_num op"
| "opcode_num (ICall op) = call_op_num op"
| "opcode_num (IJump op) = jump_op_num op"
| "opcode_num (IAlloc op) = alloc_op_num op"
| "opcode_num (IInit op) = init_op_num op"
| "opcode_num (IList op) = list_op_num op"
| "opcode_num (IArith op) = arith_op_num op"
| "opcode_num (ICompare op) = compare_op_num op"
| "opcode_num (ITypeTest op) = type_test_op_num op"
| "opcode_num (ISend op) = send_op_num op"
| "opcode_num (IRecv op) = recv_op_num op"
| "opcode_num (IException op) = exception_op_num op"
| "opcode_num (ISelect op) = select_op_num op"
| "opcode_num (IError op) = error_op_num op"
| "opcode_num (IFrame op) = frame_op_num op"
| "opcode_num (IBif op) = bif_op_num op"
| "opcode_num (INative op) = native_op_num op"
| "opcode_num (IMap op) = map_op_num op"
| "opcode_num (IFloat op) = float_op_num op"
| "opcode_num (IBs op) = bs_op_num op"

text \<open>The arms of \<^verbatim>\<open>Opcode::from_raw\<close>, in their order.\<close>

definition from_raw_arms :: "(nat \<times> opcode) list" where
  "from_raw_arms =
    [(0, ILoad OpMove), (1, ILoad OpLoadNil), (2, ILoad OpLoadInt), (3, ILoad OpLoadAtom),
     (10, ICall OpCall), (11, ICall OpCallLast), (12, ICall OpCallOnly),
     (20, ICall OpReturn), (30, IJump OpJump), (31, IJump OpJumpOnVal),
     (32, IJump OpJumpOnFail), (40, IAlloc OpAllocate), (41, IAlloc OpAllocateZero),
     (42, IAlloc OpDeallocate), (50, IInit OpInit), (51, IInit OpInitNext),
     (52, IInit OpInitPutList), (60, IList OpGetList), (61, IList OpGetTuple),
     (62, IList OpPutList), (63, IList OpPutTuple), (70, IArith OpAdd), (71, IArith OpSub),
     (72, IArith OpMul), (73, IArith OpDiv), (74, IArith OpRem), (75, IArith OpNeg),
     (76, IArith OpIntDiv), (77, IArith OpIntMult), (78, IArith OpIntSub),
     (79, IArith OpIntAdd), (80, ICompare OpEq), (81, ICompare OpNeq), (82, ICompare OpLt),
     (83, ICompare OpLte), (84, ICompare OpGt), (85, ICompare OpGte),
     (86, ICompare OpExactEq), (87, ICompare OpExactNeq), (90, ITypeTest OpIsAtom),
     (91, ITypeTest OpIsInteger), (92, ITypeTest OpIsFloat), (93, ITypeTest OpIsNumber),
     (94, ITypeTest OpIsTuple), (95, ITypeTest OpIsList), (96, ITypeTest OpIsNil),
     (97, ITypeTest OpIsBinary), (98, ITypeTest OpIsFunction), (110, ISend OpSendOp),
     (111, ISend OpSendMsg), (112, IRecv OpRecvOp), (113, IRecv OpRecvWaitOp),
     (114, IRecv OpRecvPopOp), (120, IException OpTryVal), (121, IException OpTryEnd),
     (122, IException OpCatchVal), (123, IException OpCatchEnd), (124, IException OpRaise),
     (130, ISelect OpSelectTupleArity), (131, ISelect OpSelectVal),
     (132, ISelect OpJumpWorks), (140, IError OpBadarg), (141, IError OpBadmatch),
     (142, IError OpCaseClause), (143, IError OpIfClause), (144, IError OpFunctionClause),
     (145, IError OpSystemLimit), (150, IFrame OpEnterFrame), (151, IFrame OpLeaveFrame),
     (152, IFrame OpRestore), (160, IBif OpBif0), (161, IBif OpBif1), (162, IBif OpBif2),
     (200, INative OpNative), (201, INative OpNativeClosure), (202, IMap OpMapCreate),
     (203, IMap OpMapPut), (204, IMap OpMapGet), (205, IMap OpMapRemove),
     (206, IMap OpMapSize), (210, IFloat OpFloatAdd), (211, IFloat OpFloatSub),
     (212, IFloat OpFloatMul), (213, IFloat OpFloatDiv), (214, IFloat OpFloatCmp),
     (215, IFloat OpFloatOp), (216, IFloat OpFloatLoad), (220, IBs OpBsInit),
     (221, IBs OpBsPut), (222, IBs OpBsMatch), (223, IBs OpBsSave), (224, IBs OpBsRestore)]"

definition opcode_from_raw :: "u16 \<Rightarrow> opcode option" where
  "opcode_from_raw raw = map_of from_raw_arms (unat raw)"

datatype decode_error =
    InvalidOpcode u16
  | InvalidRegister u8
  | TruncatedInstruction

datatype decode_result =
    Valid opcode
  | Invalid decode_error

fun decode_result_is_valid :: "decode_result \<Rightarrow> bool" where
  "decode_result_is_valid (Valid _) = True"
| "decode_result_is_valid (Invalid _) = False"

fun decode_result_opcode :: "decode_result \<Rightarrow> opcode option" where
  "decode_result_opcode (Valid op) = Some op"
| "decode_result_opcode (Invalid _) = None"

fun decode_result_unwrap :: "decode_result \<Rightarrow> ('e, opcode) outcome" where
  "decode_result_unwrap (Valid op) = Ok op"
| "decode_result_unwrap (Invalid _) = Panic ExplicitPanic"

definition opcode_try_from :: "u16 \<Rightarrow> (decode_error, opcode) outcome" where
  "opcode_try_from raw =
     (case opcode_from_raw raw of Some op \<Rightarrow> Ok op | None \<Rightarrow> Err (InvalidOpcode raw))"

definition decode_opcode :: "u64 \<Rightarrow> decode_result" where
  "decode_opcode word =
     (let raw = (ucast (word AND 0xFFFF) :: u16)
      in case opcode_try_from raw of Ok op \<Rightarrow> Valid op | _ \<Rightarrow> Invalid (InvalidOpcode raw))"

definition try_decode_opcode :: "u64 \<Rightarrow> opcode option" where
  "try_decode_opcode word = decode_result_opcode (decode_opcode word)"

section \<open>Operands\<close>

definition decode_dest :: "u64 \<Rightarrow> u32" where
  "decode_dest word = ucast (drop_bit 16 word AND 0xFF)"

definition decode_src :: "u64 \<Rightarrow> u32" where
  "decode_src word = ucast (drop_bit 24 word AND 0xFF)"

definition decode_src2 :: "u64 \<Rightarrow> u32" where
  "decode_src2 word = ucast (drop_bit 32 word AND 0xFF)"

definition decode_value :: "u64 \<Rightarrow> i64" where
  "decode_value word = drop_bit 32 word"

section \<open>Lemmas\<close>

lemma opcode_num_less: "opcode_num op < 2 ^ 16"
  by (cases op; (rename_tac o', case_tac o')) simp_all

lemma map_of_arms: "map_of from_raw_arms (opcode_num op) = (if op = IRecv OpRecvTimeoutOp then None else Some op)"
  by (cases op; (rename_tac o', case_tac o')) (simp_all add: from_raw_arms_def)

lemma from_raw_opcode_num:
  "opcode_from_raw (of_nat (opcode_num op)) = (if op = IRecv OpRecvTimeoutOp then None else Some op)"
  using opcode_num_less [of op]
  by (simp add: opcode_from_raw_def map_of_arms unsigned_of_nat take_bit_nat_eq_self)

lemma from_raw_Some: "opcode_from_raw raw = Some op \<Longrightarrow> of_nat (opcode_num op) = raw"
proof -
  assume "opcode_from_raw raw = Some op"
  then have "(unat raw, op) \<in> set from_raw_arms"
    unfolding opcode_from_raw_def by (rule map_of_SomeD)
  then have "opcode_num op = unat raw"
    unfolding from_raw_arms_def by auto
  then show ?thesis by simp
qed

lemma decode_opcode_Valid:
  "decode_opcode word = Valid op \<longleftrightarrow> opcode_from_raw (ucast (word AND 0xFFFF)) = Some op"
  by (auto simp: decode_opcode_def opcode_try_from_def Let_def split: option.splits)

section \<open>Properties\<close>

text \<open>Raw decoding is exact: \<^verbatim>\<open>from_raw\<close> returns an opcode just for that opcode's own
  discriminant, for every opcode of the enum except \<^verbatim>\<open>RecvTimeoutOp\<close>, which no raw value
  decodes to; so distinct opcodes have distinct discriminants.\<close>

theorem opcode_decoding_exact:
  "(opcode_from_raw raw = Some op \<longleftrightarrow>
     op \<noteq> IRecv OpRecvTimeoutOp \<and> raw = of_nat (opcode_num op))
   \<and> (opcode_num op = opcode_num op' \<longleftrightarrow> op = op')"
proof
  show "opcode_from_raw raw = Some op \<longleftrightarrow>
      op \<noteq> IRecv OpRecvTimeoutOp \<and> raw = of_nat (opcode_num op)"
    using from_raw_opcode_num [of op] from_raw_Some [of raw op] by (auto split: if_splits)
  show "opcode_num op = opcode_num op' \<longleftrightarrow> op = op'"
    using map_of_arms [of op] map_of_arms [of op']
    by (metis option.distinct(1) option.inject)
qed

end
