(* ===== verification/Exec.thy ===== *)
theory Exec
  imports Heap Opcodes
begin

text \<open>
  The execution context of the interpreter (\<^verbatim>\<open>ExecContext\<close> of
  \<^verbatim>\<open>crates/chimera_erlang_beam_instr/src/lib.rs\<close>): registers, pointers, reduction
  counter, the pending BIF call, receive and exception states, and the process heap the
  context borrows.

  The raw pointer \<^verbatim>\<open>heap: Option<*mut ProcessHeap>\<close> is the heap it points to, which no one
  else touches while the interpreter runs.  The two register files are lists of 64 and 256
  terms (\<open>ctx_ok\<close>) and instances of the interface \<open>cells\<close>.
\<close>

section \<open>State\<close>

datatype exec_result = ExecOk | Yield | Trap | ExecErr | ExitDispatch | Wait

definition MAX_REGISTERS :: nat where "MAX_REGISTERS = 64"
definition MAX_Y_REGISTERS :: nat where "MAX_Y_REGISTERS = 256"
definition DEFAULT_REDUCTION_BUDGET :: u64 where "DEFAULT_REDUCTION_BUDGET = 1000"

record bif_call =
  bc_bif_id :: u32
  bc_dest :: u32
  bc_arg1 :: u32
  bc_arg2 :: u32

definition bif_call_new :: "u32 \<Rightarrow> u32 \<Rightarrow> u32 \<Rightarrow> u32 \<Rightarrow> bif_call" where
  "bif_call_new i d a b = \<lparr>bc_bif_id = i, bc_dest = d, bc_arg1 = a, bc_arg2 = b\<rparr>"

definition bif_arg_count :: "bif_call \<Rightarrow> u32" where
  "bif_arg_count c = (if bc_arg2 c \<noteq> 0 then 2 else if bc_arg1 c \<noteq> 0 then 1 else 0)"

record receive_state =
  rs_save_index :: u32
  rs_timeout :: u64
  rs_waited_reductions :: u64
  rs_active_message :: "beam_term option"
  rs_message_arrived :: bool
  rs_saved_queue_len :: nat

record exception_state =
  es_reg :: u32
  es_handler :: u64
  es_stack_depth :: u32
  es_is_catch :: bool

record exec_context =
  ec_x :: "beam_term list"
  ec_y :: "beam_term list"
  ec_fp :: u64
  ec_ip :: u64
  ec_cp :: u64
  ec_live :: u32
  ec_reductions :: u64
  ec_reduction_budget :: u64
  ec_current_instruction :: u64
  ec_bif_call :: "bif_call option"
  ec_receive_state :: "receive_state option"
  ec_exception_state :: "exception_state option"
  ec_heap :: "process_heap option"

definition exec_context_new :: exec_context where
  "exec_context_new =
     \<lparr>ec_x = replicate MAX_REGISTERS nil, ec_y = replicate MAX_Y_REGISTERS nil,
      ec_fp = 0, ec_ip = 0, ec_cp = 0, ec_live = 0,
      ec_reductions = DEFAULT_REDUCTION_BUDGET, ec_reduction_budget = DEFAULT_REDUCTION_BUDGET,
      ec_current_instruction = 0, ec_bif_call = None, ec_receive_state = None,
      ec_exception_state = None, ec_heap = None\<rparr>"

definition set_heap :: "process_heap \<Rightarrow> exec_context \<Rightarrow> exec_context" where
  "set_heap h c = c\<lparr>ec_heap := Some h\<rparr>"

definition has_heap :: "exec_context \<Rightarrow> bool" where
  "has_heap c \<longleftrightarrow> ec_heap c \<noteq> None"

definition clear_bif_call :: "exec_context \<Rightarrow> exec_context" where
  "clear_bif_call c = c\<lparr>ec_bif_call := None\<rparr>"

definition has_bif_call :: "exec_context \<Rightarrow> bool" where
  "has_bif_call c \<longleftrightarrow> ec_bif_call c \<noteq> None"

definition has_receive_state :: "exec_context \<Rightarrow> bool" where
  "has_receive_state c \<longleftrightarrow> ec_receive_state c \<noteq> None"

definition clear_receive_state :: "exec_context \<Rightarrow> exec_context" where
  "clear_receive_state c = c\<lparr>ec_receive_state := None\<rparr>"

section \<open>Registers\<close>

definition x_cell :: "nat \<Rightarrow> exec_context \<Rightarrow> beam_term" where
  "x_cell i c = (if i < MAX_REGISTERS then ec_x c ! i else nil)"

definition y_cell :: "nat \<Rightarrow> exec_context \<Rightarrow> beam_term" where
  "y_cell i c = (if i < MAX_Y_REGISTERS then ec_y c ! i else nil)"

definition set_x :: "u32 \<Rightarrow> beam_term \<Rightarrow> exec_context \<Rightarrow> exec_context" where
  "set_x reg v c =
     (if unat reg < MAX_REGISTERS then c\<lparr>ec_x := (ec_x c)[unat reg := v]\<rparr> else c)"

definition get_x :: "exec_context \<Rightarrow> u32 \<Rightarrow> beam_term" where
  "get_x c reg = x_cell (unat reg) c"

definition set_y :: "u32 \<Rightarrow> beam_term \<Rightarrow> exec_context \<Rightarrow> exec_context" where
  "set_y slot v c =
     (if unat slot < MAX_Y_REGISTERS then c\<lparr>ec_y := (ec_y c)[unat slot := v]\<rparr> else c)"

definition get_y :: "exec_context \<Rightarrow> u32 \<Rightarrow> beam_term" where
  "get_y c slot = y_cell (unat slot) c"

section \<open>Reductions\<close>

definition decrement_reductions :: "u64 \<Rightarrow> exec_context \<Rightarrow> exec_context" where
  "decrement_reductions amount c =
     (if ec_reductions c \<ge> amount
      then c\<lparr>ec_reductions := ec_reductions c - amount\<rparr>
      else c\<lparr>ec_reductions := 0\<rparr>)"

definition is_exhausted :: "exec_context \<Rightarrow> bool" where
  "is_exhausted c \<longleftrightarrow> ec_reductions c = 0"

definition reset_reductions :: "exec_context \<Rightarrow> exec_context" where
  "reset_reductions c = c\<lparr>ec_reductions := ec_reduction_budget c\<rparr>"

definition init_from_pcb ::
  "u64 \<Rightarrow> u64 \<Rightarrow> u32 \<Rightarrow> beam_term list \<Rightarrow> u64 \<Rightarrow> u64 \<Rightarrow> bif_call option \<Rightarrow> receive_state option \<Rightarrow>
   exception_state option \<Rightarrow> exec_context \<Rightarrow> exec_context" where
  "init_from_pcb cp fp live y reduction_budget current_instruction bif rstate estate c =
     c\<lparr>ec_cp := cp, ec_fp := fp, ec_live := live, ec_y := y,
       ec_reductions := reduction_budget, ec_reduction_budget := reduction_budget,
       ec_current_instruction := current_instruction, ec_bif_call := bif,
       ec_receive_state := rstate, ec_exception_state := estate\<rparr>"

section \<open>The heap of the context\<close>

definition heap_alloc :: "nat \<Rightarrow> exec_context \<Rightarrow> nat option \<times> exec_context" where
  "heap_alloc words c =
     (case ec_heap c of
        None \<Rightarrow> (None, c)
      | Some h \<Rightarrow> (let (p, h') = alloc words h in (p, c\<lparr>ec_heap := Some h'\<rparr>)))"

definition heap_set_word :: "nat \<Rightarrow> u64 \<Rightarrow> exec_context \<Rightarrow> exec_context" where
  "heap_set_word i v c =
     (case ec_heap c of None \<Rightarrow> c | Some h \<Rightarrow> c\<lparr>ec_heap := Some (set_word i v h)\<rparr>)"

definition ctx_alloc_map :: "nat \<Rightarrow> exec_context \<Rightarrow> beam_term option \<times> exec_context" where
  "ctx_alloc_map num_pairs c =
     (let words_needed = 1 + num_pairs * 2
      in case heap_alloc words_needed c of
           (None, c') \<Rightarrow> (None, c')
         | (Some p, c') \<Rightarrow>
             (let header = 6 OR push_bit 8 (of_nat words_needed)
              in (Some (from_map (of_nat p)), heap_set_word p header c')))"

definition write_map_pair ::
  "nat \<Rightarrow> nat \<Rightarrow> beam_term \<Rightarrow> beam_term \<Rightarrow> exec_context \<Rightarrow> exec_context" where
  "write_map_pair map_ptr i k v c =
     (let pos = map_ptr + 1 + i * 2
      in heap_set_word (pos + 1) (term_raw v) (heap_set_word pos (term_raw k) c))"

definition ctx_alloc_tuple :: "nat \<Rightarrow> exec_context \<Rightarrow> beam_term option \<times> exec_context" where
  "ctx_alloc_tuple arity c =
     (case heap_alloc (1 + arity) c of
        (None, c') \<Rightarrow> (None, c')
      | (Some p, c') \<Rightarrow>
          (let header = 3 OR push_bit 8 (of_nat (1 + arity))
           in (Some (from_tuple (of_nat p)), heap_set_word p header c')))"

definition ctx_write_tuple_element ::
  "nat \<Rightarrow> nat \<Rightarrow> beam_term \<Rightarrow> exec_context \<Rightarrow> exec_context" where
  "ctx_write_tuple_element tuple_ptr i v c =
     (let pos = tuple_ptr + 1 + i in heap_set_word pos (term_raw v) c)"

definition ctx_alloc_cons :: "exec_context \<Rightarrow> beam_term option \<times> exec_context" where
  "ctx_alloc_cons c =
     (case heap_alloc 3 c of
        (None, c') \<Rightarrow> (None, c')
      | (Some p, c') \<Rightarrow>
          (let header = 2 OR push_bit 8 3
           in (Some (from_cons (of_nat p)), heap_set_word p header c')))"

definition ctx_write_cons ::
  "nat \<Rightarrow> beam_term \<Rightarrow> beam_term \<Rightarrow> exec_context \<Rightarrow> exec_context" where
  "ctx_write_cons cons_ptr hd_term tl_term c =
     heap_set_word (cons_ptr + 2) (term_raw tl_term)
       (heap_set_word (cons_ptr + 1) (term_raw hd_term) c)"

text \<open>Floats in registers: a float operand is the word of its bits, and \<^verbatim>\<open>make_float\<close> is a
  placeholder that returns nil.\<close>

definition get_float :: "exec_context \<Rightarrow> u32 \<Rightarrow> u64 option" where
  "get_float c reg =
     (let t = get_x c reg in if is_small t then Some (drop_bit 3 (term_raw t)) else None)"

definition ctx_make_float :: "u64 \<Rightarrow> beam_term" where
  "ctx_make_float v = nil"

section \<open>Lemmas\<close>

definition ctx_ok :: "exec_context \<Rightarrow> bool" where
  "ctx_ok c \<longleftrightarrow> length (ec_x c) = MAX_REGISTERS \<and> length (ec_y c) = MAX_Y_REGISTERS \<and>
     (\<forall>h. ec_heap c = Some h \<longrightarrow> heap_ok h)"

lemma exec_context_new_ok [inv_intro]: "ctx_ok exec_context_new"
  by (simp add: ctx_ok_def exec_context_new_def)

definition wr_x :: "nat \<Rightarrow> beam_term \<Rightarrow> exec_context \<Rightarrow> exec_context" where
  "wr_x i v c = (if i < MAX_REGISTERS then c\<lparr>ec_x := (ec_x c)[i := v]\<rparr> else c)"

definition wr_y :: "nat \<Rightarrow> beam_term \<Rightarrow> exec_context \<Rightarrow> exec_context" where
  "wr_y i v c = (if i < MAX_Y_REGISTERS then c\<lparr>ec_y := (ec_y c)[i := v]\<rparr> else c)"

interpretation x_regs: cells x_cell wr_x "\<lambda>c. MAX_REGISTERS" ctx_ok
  by unfold_locales (auto simp: x_cell_def wr_x_def ctx_ok_def nth_list_update)

interpretation y_regs: cells y_cell wr_y "\<lambda>c. MAX_Y_REGISTERS" ctx_ok
  by unfold_locales (auto simp: y_cell_def wr_y_def ctx_ok_def nth_list_update)

lemma set_x_wr: "set_x r v c = wr_x (unat r) v c"
  by (simp add: set_x_def wr_x_def)

lemma set_y_wr: "set_y r v c = wr_y (unat r) v c"
  by (simp add: set_y_def wr_y_def)

lemma get_x_set_x:
  "ctx_ok c \<Longrightarrow> get_x (set_x r v c) r' = (if r' = r \<and> unat r < 64 then v else get_x c r')"
  by (simp add: get_x_def set_x_wr x_regs.rd_wr MAX_REGISTERS_def word_unat_eq_iff)

lemma set_x_ok [inv_intro]: "ctx_ok c \<Longrightarrow> ctx_ok (set_x r v c)"
  by (simp add: set_x_wr x_regs.wr_ok)

lemma set_y_ok [inv_intro]: "ctx_ok c \<Longrightarrow> ctx_ok (set_y r v c)"
  by (simp add: set_y_wr y_regs.wr_ok)

lemma set_x_fields [simp]:
  "ec_y (set_x r v c) = ec_y c" "ec_fp (set_x r v c) = ec_fp c" "ec_ip (set_x r v c) = ec_ip c"
  "ec_cp (set_x r v c) = ec_cp c" "ec_live (set_x r v c) = ec_live c"
  "ec_reductions (set_x r v c) = ec_reductions c"
  "ec_reduction_budget (set_x r v c) = ec_reduction_budget c"
  "ec_current_instruction (set_x r v c) = ec_current_instruction c"
  "ec_bif_call (set_x r v c) = ec_bif_call c"
  "ec_receive_state (set_x r v c) = ec_receive_state c"
  "ec_exception_state (set_x r v c) = ec_exception_state c" "ec_heap (set_x r v c) = ec_heap c"
  by (simp_all add: set_x_def)

lemma heap_set_word_fields [simp]:
  "ec_reductions (heap_set_word i v c) = ec_reductions c"
  "ec_ip (heap_set_word i v c) = ec_ip c" "ec_x (heap_set_word i v c) = ec_x c"
  "ec_y (heap_set_word i v c) = ec_y c"
  by (simp_all add: heap_set_word_def split: option.splits)

lemma heap_set_word_ok [inv_intro]: "ctx_ok c \<Longrightarrow> ctx_ok (heap_set_word i v c)"
  by (auto simp: ctx_ok_def heap_set_word_def set_word_ok split: option.splits)

end
