(* ===== verification/Interp.thy ===== *)
theory Interp
  imports Exec "HOL-Library.Signed_Division"
begin

text \<open>
  One step of the interpreter (\<^verbatim>\<open>execute_instruction\<close> of
  \<^verbatim>\<open>crates/chimera_erlang_beam_instr/src/lib.rs\<close>), one definition per group of opcodes.
  A step returns the new context and its \<^verbatim>\<open>StepResult\<close>, or panics: an index out of range, or a
  small integer out of range in \<^verbatim>\<open>Term::from_small\<close>.
\<close>

record step_result =
  sr_ip :: u64
  sr_result :: exec_result

type_synonym exec_out = "(unit, exec_context \<times> step_result) outcome"

definition step_with :: "exec_result \<Rightarrow> u64 \<Rightarrow> exec_context \<Rightarrow> exec_out" where
  "step_with r ip c = Ok (c, \<lparr>sr_ip = ip, sr_result = r\<rparr>)"

abbreviation step_ok :: "u64 \<Rightarrow> exec_context \<Rightarrow> exec_out" where
  "step_ok \<equiv> step_with ExecOk"

text \<open>\<^verbatim>\<open>ctx.set_x(dest, Term::from_small(v))\<close> and the end of the arm.\<close>

definition set_small_ok :: "u64 \<Rightarrow> u32 \<Rightarrow> i64 \<Rightarrow> exec_context \<Rightarrow> exec_out" where
  "set_small_ok ip dest v c = bind_o (from_small v) (\<lambda>t. step_ok ip (set_x dest t c))"

definition bool_atom :: "bool \<Rightarrow> beam_term" where
  "bool_atom b = (if b then from_atom ATOM_TRUE else from_atom ATOM_FALSE)"

section \<open>Loads, jumps and calls\<close>

fun exec_load :: "load_op \<Rightarrow> u64 \<Rightarrow> u64 list \<Rightarrow> u64 \<Rightarrow> exec_context \<Rightarrow> exec_out" where
  "exec_load OpMove word code ip c =
     (let dest = decode_dest word; src = decode_src word; value = get_x c src
      in step_ok ip (set_x dest value c))"
| "exec_load OpLoadInt word code ip c =
     (let dest = decode_dest word; value = decode_value word
      in set_small_ok ip dest value c)"
| "exec_load OpLoadNil word code ip c =
     (let dest = decode_dest word in step_ok ip (set_x dest nil c))"
| "exec_load OpLoadAtom word code ip c =
     (let dest = decode_dest word
      in bind_o (index_o code (unat (ec_ip c))) (\<lambda>w.
           let c' = set_x dest (from_atom (ucast w)) c
           in step_ok ip (c'\<lparr>ec_ip := ec_ip c' + 1\<rparr>)))"

fun exec_jump :: "jump_op \<Rightarrow> u64 \<Rightarrow> u64 \<Rightarrow> exec_context \<Rightarrow> exec_out" where
  "exec_jump OpJump word ip c =
     (let target = decode_value word in step_ok ip (c\<lparr>ec_ip := target\<rparr>))"
| "exec_jump OpJumpOnVal word ip c =
     (let src = decode_src word; value = decode_value word; test_val = get_x c src
      in case to_small_opt test_val of
           Some v \<Rightarrow>
             if v = value then step_ok ip (c\<lparr>ec_ip := ec_ip c + 1\<rparr>)
             else step_ok ip (c\<lparr>ec_ip := ec_ip c + 1\<rparr>)
         | None \<Rightarrow> step_ok ip (c\<lparr>ec_ip := ec_ip c + 1\<rparr>))"
| "exec_jump OpJumpOnFail word ip c =
     (let src = decode_src word; test_val = get_x c src;
          is_fail = (test_val = from_atom ATOM_FALSE \<or> test_val = nil)
      in if is_fail then step_ok ip (c\<lparr>ec_ip := decode_value word\<rparr>)
         else step_ok ip (c\<lparr>ec_ip := ec_ip c + 1\<rparr>))"

fun exec_call :: "call_op \<Rightarrow> u64 \<Rightarrow> u64 \<Rightarrow> exec_context \<Rightarrow> exec_out" where
  "exec_call OpCall word ip c =
     (let arity = decode_dest word; target = decode_value word; return_addr = ec_ip c + 1
      in step_ok ip (c\<lparr>ec_cp := return_addr, ec_ip := target, ec_live := arity\<rparr>))"
| "exec_call OpCallLast word ip c =
     (let arity = decode_dest word; target = decode_value word
      in step_ok ip (c\<lparr>ec_ip := target, ec_live := arity\<rparr>))"
| "exec_call OpCallOnly word ip c =
     (let target = decode_value word in step_ok ip (c\<lparr>ec_ip := target\<rparr>))"
| "exec_call OpReturn word ip c = step_ok ip (c\<lparr>ec_ip := ec_cp c\<rparr>)"

section \<open>Arithmetic and comparisons\<close>

text \<open>Rust's signed division truncates, and panics for a zero divisor and for the one quotient
  that does not fit.\<close>

definition i64_quot :: "i64 \<Rightarrow> i64 \<Rightarrow> (unit, i64) outcome" where
  "i64_quot a b =
     (if sint b = 0 \<or> sint a = - (2 ^ 63) \<and> sint b = - 1 then Panic DivOverflow
      else Ok (word_of_int (sint a sdiv sint b)))"

definition i64_rem :: "i64 \<Rightarrow> i64 \<Rightarrow> (unit, i64) outcome" where
  "i64_rem a b =
     (if sint b = 0 \<or> sint a = - (2 ^ 63) \<and> sint b = - 1 then Panic DivOverflow
      else Ok (word_of_int (sint a smod sint b)))"

text \<open>The two operands of an instruction when both are small integers.\<close>

definition small_operands :: "u64 \<Rightarrow> exec_context \<Rightarrow> (i64 \<times> i64) option" where
  "small_operands word c =
     (case (to_small_opt (get_x c (decode_src word)), to_small_opt (get_x c (decode_src2 word))) of
        (Some ai, Some bi) \<Rightarrow> Some (ai, bi)
      | _ \<Rightarrow> None)"

definition arith_add :: "u64 \<Rightarrow> u64 \<Rightarrow> exec_context \<Rightarrow> exec_out" where
  "arith_add word ip c =
     (case small_operands word c of
        Some (ai, bi) \<Rightarrow> set_small_ok ip (decode_dest word) (ai + bi) c
      | None \<Rightarrow> step_ok ip c)"

definition arith_sub :: "u64 \<Rightarrow> u64 \<Rightarrow> exec_context \<Rightarrow> exec_out" where
  "arith_sub word ip c =
     (case small_operands word c of
        Some (ai, bi) \<Rightarrow> set_small_ok ip (decode_dest word) (ai - bi) c
      | None \<Rightarrow> step_ok ip c)"

definition arith_mul :: "u64 \<Rightarrow> u64 \<Rightarrow> exec_context \<Rightarrow> exec_out" where
  "arith_mul word ip c =
     (case small_operands word c of
        Some (ai, bi) \<Rightarrow> set_small_ok ip (decode_dest word) (ai * bi) c
      | None \<Rightarrow> step_ok ip c)"

definition arith_div :: "u64 \<Rightarrow> u64 \<Rightarrow> exec_context \<Rightarrow> exec_out" where
  "arith_div word ip c =
     (case small_operands word c of
        Some (ai, bi) \<Rightarrow>
          if bi \<noteq> 0 then bind_o (i64_quot ai bi) (\<lambda>q. set_small_ok ip (decode_dest word) q c)
          else step_ok ip c
      | None \<Rightarrow> step_ok ip c)"

definition arith_rem :: "u64 \<Rightarrow> u64 \<Rightarrow> exec_context \<Rightarrow> exec_out" where
  "arith_rem word ip c =
     (case small_operands word c of
        Some (ai, bi) \<Rightarrow>
          if bi \<noteq> 0 then bind_o (i64_rem ai bi) (\<lambda>r. set_small_ok ip (decode_dest word) r c)
          else step_ok ip c
      | None \<Rightarrow> step_ok ip c)"

definition arith_neg :: "u64 \<Rightarrow> u64 \<Rightarrow> exec_context \<Rightarrow> exec_out" where
  "arith_neg word ip c =
     (case to_small_opt (get_x c (decode_src word)) of
        Some ai \<Rightarrow> set_small_ok ip (decode_dest word) (- ai) c
      | None \<Rightarrow> step_ok ip c)"

fun exec_arith :: "arith_op \<Rightarrow> u64 \<Rightarrow> u64 \<Rightarrow> exec_context \<Rightarrow> exec_out" where
  "exec_arith OpAdd = arith_add"
| "exec_arith OpIntAdd = arith_add"
| "exec_arith OpSub = arith_sub"
| "exec_arith OpIntSub = arith_sub"
| "exec_arith OpMul = arith_mul"
| "exec_arith OpIntMult = arith_mul"
| "exec_arith OpDiv = arith_div"
| "exec_arith OpIntDiv = arith_div"
| "exec_arith OpRem = arith_rem"
| "exec_arith OpNeg = arith_neg"

text \<open>The ordering arms compare small integers only; anything else is false.\<close>

definition compare_smalls ::
  "(int \<Rightarrow> int \<Rightarrow> bool) \<Rightarrow> u64 \<Rightarrow> exec_context \<Rightarrow> beam_term" where
  "compare_smalls rel word c =
     (case small_operands word c of
        Some (ai, bi) \<Rightarrow> if rel (sint ai) (sint bi) then from_atom ATOM_TRUE else from_atom ATOM_FALSE
      | None \<Rightarrow> from_atom ATOM_FALSE)"

fun compare_value :: "compare_op \<Rightarrow> u64 \<Rightarrow> exec_context \<Rightarrow> beam_term" where
  "compare_value OpEq word c = bool_atom (get_x c (decode_src word) = get_x c (decode_src2 word))"
| "compare_value OpExactEq word c = bool_atom (get_x c (decode_src word) = get_x c (decode_src2 word))"
| "compare_value OpNeq word c = bool_atom (get_x c (decode_src word) \<noteq> get_x c (decode_src2 word))"
| "compare_value OpExactNeq word c = bool_atom (get_x c (decode_src word) \<noteq> get_x c (decode_src2 word))"
| "compare_value OpLt word c = compare_smalls (\<lambda>a b. a < b) word c"
| "compare_value OpLte word c = compare_smalls (\<lambda>a b. a \<le> b) word c"
| "compare_value OpGt word c = compare_smalls (\<lambda>a b. a > b) word c"
| "compare_value OpGte word c = compare_smalls (\<lambda>a b. a \<ge> b) word c"

definition exec_compare :: "compare_op \<Rightarrow> u64 \<Rightarrow> u64 \<Rightarrow> exec_context \<Rightarrow> exec_out" where
  "exec_compare op word ip c = step_ok ip (set_x (decode_dest word) (compare_value op word c) c)"

fun type_test :: "type_test_op \<Rightarrow> beam_term \<Rightarrow> bool" where
  "type_test OpIsAtom t = is_atom t"
| "type_test OpIsInteger t = is_small t"
| "type_test OpIsList t = (is_cons t \<or> t = nil)"
| "type_test OpIsTuple t = (tag t = TagTuple)"
| "type_test OpIsNil t = (t = nil)"
| "type_test OpIsFloat t = (tag t = TagFloat)"
| "type_test OpIsNumber t = (is_small t \<or> tag t = TagFloat)"
| "type_test OpIsBinary t = (tag t = TagBinary)"
| "type_test OpIsFunction t = (tag t = TagFun)"

definition exec_type_test :: "type_test_op \<Rightarrow> u64 \<Rightarrow> u64 \<Rightarrow> exec_context \<Rightarrow> exec_out" where
  "exec_type_test op word ip c =
     (let dest = decode_dest word; src = decode_src word
      in step_ok ip (set_x dest (bool_atom (type_test op (get_x c src))) c))"

section \<open>Frames\<close>

text \<open>Both allocations set the frame pointer from the length of the Y registers; only
  \<^verbatim>\<open>Allocate\<close> clears the slots.\<close>

fun exec_alloc :: "alloc_op \<Rightarrow> u64 \<Rightarrow> u64 \<Rightarrow> exec_context \<Rightarrow> exec_out" where
  "exec_alloc OpAllocate word ip c =
     (let slots = decode_dest word; live = decode_src word;
          c1 = c\<lparr>ec_fp := of_nat (length (ec_y c)) - ucast slots, ec_live := live\<rparr>;
          clear = (\<lambda>i d. let idx = unat (ec_fp d + of_nat i)
                     in if idx < length (ec_y d) then d\<lparr>ec_y := (ec_y d)[idx := nil]\<rparr> else d)
      in step_ok ip (fold clear [0..<unat slots] c1))"
| "exec_alloc OpAllocateZero word ip c =
     (let slots = decode_dest word; live = decode_src word
      in step_ok ip (c\<lparr>ec_fp := of_nat (length (ec_y c)) - ucast slots, ec_live := live\<rparr>))"
| "exec_alloc OpDeallocate word ip c =
     (let slots = decode_dest word in step_ok ip (c\<lparr>ec_fp := ec_fp c + ucast slots\<rparr>))"

definition write_y_index :: "u64 \<Rightarrow> beam_term \<Rightarrow> exec_context \<Rightarrow> (unit, exec_context) outcome" where
  "write_y_index i t c =
     (if unat i < length (ec_y c) then Ok (c\<lparr>ec_y := (ec_y c)[unat i := t]\<rparr>)
      else Panic IndexOutOfBounds)"

fun exec_frame :: "frame_op \<Rightarrow> u64 \<Rightarrow> u64 \<Rightarrow> exec_context \<Rightarrow> exec_out" where
  "exec_frame OpEnterFrame word ip c =
     (let slots = decode_dest word; live = decode_src word
      in bind_o (from_small (ec_fp c)) (\<lambda>t.
         bind_o (write_y_index (ec_fp c) t c) (\<lambda>c1.
           step_ok ip (c1\<lparr>ec_fp := of_nat (length (ec_y c1)) - ucast slots, ec_live := live\<rparr>))))"
| "exec_frame OpLeaveFrame word ip c =
     bind_o (index_o (ec_y c) (unat (ec_fp c))) (\<lambda>t.
       let old_fp = to_small t in step_ok ip (c\<lparr>ec_fp := old_fp\<rparr>))"
| "exec_frame OpRestore word ip c =
     (let slot = decode_dest word; src = decode_src word
      in bind_o (write_y_index (ec_fp c + ucast slot) (get_x c src) c) (step_ok ip))"

section \<open>Lists, tuples and messages\<close>

fun exec_list :: "list_op \<Rightarrow> u64 \<Rightarrow> u64 \<Rightarrow> exec_context \<Rightarrow> exec_out" where
  "exec_list OpGetList word ip c = step_ok ip (set_x (decode_dest word) nil c)"
| "exec_list OpGetTuple word ip c = step_ok ip (set_x (decode_dest word) nil c)"
| "exec_list OpPutList word ip c =
     (let h = decode_src word; t = decode_src2 word; dest = decode_dest word
      in step_ok ip
           (set_x dest (from_cons (push_bit 32 (term_raw (get_x c h)) OR term_raw (get_x c t))) c))"
| "exec_list OpPutTuple word ip c = step_ok ip (set_x (decode_dest word) nil c)"

text \<open>The two sends read their operands and return: the message goes nowhere.\<close>

fun exec_send :: "send_op \<Rightarrow> u64 \<Rightarrow> u64 \<Rightarrow> exec_context \<Rightarrow> exec_out" where
  "exec_send OpSendOp word ip c = step_ok (ip + 1) c"
| "exec_send OpSendMsg word ip c = step_ok (ip + 1) c"

definition receive_state_new :: "u32 \<Rightarrow> u64 \<Rightarrow> receive_state" where
  "receive_state_new save_index timeout =
     \<lparr>rs_save_index = save_index, rs_timeout = timeout, rs_waited_reductions = 0,
      rs_active_message = None, rs_message_arrived = False, rs_saved_queue_len = 0\<rparr>"

definition recv_wait :: "u64 \<Rightarrow> u64 \<Rightarrow> exec_context \<Rightarrow> exec_out" where
  "recv_wait word ip c =
     (let timeout = ucast (decode_dest word) :: u64; save_index = decode_src word
      in case ec_receive_state c of
           None \<Rightarrow>
             step_with Wait ip (c\<lparr>ec_receive_state := Some (receive_state_new save_index timeout)\<rparr>)
         | Some st0 \<Rightarrow>
             (let st = st0\<lparr>rs_timeout := timeout\<rparr>
              in if rs_message_arrived st then
                   (let c1 = c\<lparr>ec_receive_state :=
                          Some (st\<lparr>rs_message_arrived := False, rs_active_message := None\<rparr>)\<rparr>
                    in case rs_active_message st of
                         Some msg \<Rightarrow> step_ok ip (set_x 0 msg c1)
                       | None \<Rightarrow> step_ok ip c1)
                 else if rs_timeout st = 0 then
                   step_ok ip (set_x 0 (from_atom 0) (c\<lparr>ec_receive_state := None\<rparr>))
                 else
                   (let st1 = st\<lparr>rs_waited_reductions := rs_waited_reductions st + 1\<rparr>
                    in if rs_timeout st1 > 0 \<and> rs_waited_reductions st1 \<ge> rs_timeout st1 then
                         step_ok ip (set_x 0 (from_atom 0) (c\<lparr>ec_receive_state := None\<rparr>))
                       else step_with Wait ip (c\<lparr>ec_receive_state := Some st1\<rparr>))))"

fun exec_recv :: "recv_op \<Rightarrow> u64 \<Rightarrow> u64 \<Rightarrow> exec_context \<Rightarrow> exec_out" where
  "exec_recv OpRecvOp word ip c =
     (let save_index = decode_dest word
      in step_ok ip (c\<lparr>ec_receive_state := Some (receive_state_new save_index 0)\<rparr>))"
| "exec_recv OpRecvWaitOp word ip c = recv_wait word ip c"
| "exec_recv OpRecvPopOp word ip c =
     (let dest = decode_dest word in step_ok ip (set_x dest nil (c\<lparr>ec_receive_state := None\<rparr>)))"
| "exec_recv OpRecvTimeoutOp word ip c =
     step_ok ip (set_x 0 (from_atom ATOM_FALSE) (c\<lparr>ec_receive_state := None\<rparr>))"

section \<open>Maps\<close>

definition num_pairs_of :: "u64 \<Rightarrow> u64" where
  "num_pairs_of header = (drop_bit 8 header - 1) div 2"

definition key_pos :: "u64 \<Rightarrow> nat \<Rightarrow> nat" where
  "key_pos p i = unat (p + 1 + of_nat i * 2)"

definition val_pos :: "u64 \<Rightarrow> nat \<Rightarrow> nat" where
  "val_pos p i = unat (p + 1 + of_nat i * 2 + 1)"

text \<open>The pairs of the map at \<open>p\<close>.  A size field of zero wraps to a pair count that no vector
  can hold, and \<^verbatim>\<open>Vec::with_capacity\<close> panics.\<close>

definition pairs_at :: "process_heap \<Rightarrow> u64 \<Rightarrow> nat \<Rightarrow> (beam_term \<times> beam_term) list" where
  "pairs_at h p n =
     concat (map (\<lambda>i. case get_word h (key_pos p i) of
                        Some k \<Rightarrow> [(Term k, Term (word_or_0 (val_pos p i) h))]
                      | None \<Rightarrow> []) [0..<n])"

definition read_map_pairs ::
  "beam_term \<Rightarrow> exec_context \<Rightarrow> (unit, (beam_term \<times> beam_term) list option) outcome" where
  "read_map_pairs map_term c =
     (if is_map map_term then
        (case ec_heap c of
           None \<Rightarrow> Ok None
         | Some h \<Rightarrow>
             (let p = to_map map_term
              in case get_word h (unat p) of
                   None \<Rightarrow> Ok None
                 | Some header \<Rightarrow>
                     (let n = num_pairs_of header
                      in if unat n * 16 > 2 ^ 63 - 1 then Panic ExplicitPanic
                         else Ok (Some (pairs_at h p (unat n))))))
      else Ok None)"

definition write_pairs :: "nat \<Rightarrow> (beam_term \<times> beam_term) list \<Rightarrow> exec_context \<Rightarrow> exec_context" where
  "write_pairs p kvs c = for_enum (\<lambda>i (k, v). write_map_pair p i k v) kvs c"

text \<open>\<^verbatim>\<open>if let Some(m) = ctx.alloc_map(n)\<close>, the writes of its pairs, and the nil of the
  other branch.\<close>

definition with_new_map ::
  "u64 \<Rightarrow> u32 \<Rightarrow> nat \<Rightarrow> (nat \<Rightarrow> exec_context \<Rightarrow> exec_context) \<Rightarrow> exec_context \<Rightarrow> exec_out" where
  "with_new_map ip dest n body c =
     (case ctx_alloc_map n c of
        (Some map_term, c1) \<Rightarrow> step_ok ip (set_x dest map_term (body (unat (to_map map_term)) c1))
      | (None, c1) \<Rightarrow> step_ok ip (set_x dest nil c1))"

definition map_create :: "u64 \<Rightarrow> u64 \<Rightarrow> exec_context \<Rightarrow> exec_out" where
  "map_create word ip c =
     (let dest = decode_dest word; num_pairs = unat (decode_src word)
      in with_new_map ip dest num_pairs
           (\<lambda>map_ptr. fold (\<lambda>i d. write_map_pair map_ptr i (get_x d (of_nat i))
                                  (get_x d (of_nat (num_pairs + i))) d) [0..<num_pairs]) c)"

definition map_put :: "u64 \<Rightarrow> u64 \<Rightarrow> exec_context \<Rightarrow> exec_out" where
  "map_put word ip c =
     (let dest = decode_dest word;
          value_reg = (ucast (drop_bit 40 word AND 0xFF) :: u32);
          map_term = get_x c (decode_src word);
          key_term = get_x c (decode_src2 word);
          value_term = get_x c value_reg
      in bind_o (read_map_pairs map_term c) (\<lambda>existing.
           case existing of
             Some pairs \<Rightarrow>
               (let key_found = list_ex (\<lambda>(k, _). k = key_term) pairs;
                    new_num_pairs = (if key_found then length pairs else length pairs + 1)
                in with_new_map ip dest new_num_pairs
                     (\<lambda>new_ptr c1.
                       (let c2 = write_pairs new_ptr pairs c1
                        in if \<not> key_found
                           then write_map_pair new_ptr (length pairs) key_term value_term c2
                           else c2)) c)
           | None \<Rightarrow>
               with_new_map ip dest 1 (\<lambda>new_ptr. write_map_pair new_ptr 0 key_term value_term) c))"

primrec map_search :: "process_heap \<Rightarrow> u64 \<Rightarrow> beam_term \<Rightarrow> nat \<Rightarrow> nat \<Rightarrow> beam_term option" where
  "map_search h p key 0 i = None"
| "map_search h p key (Suc n) i =
     (case get_word h (key_pos p i) of
        Some stored_key \<Rightarrow>
          if Term stored_key = key then map_option Term (get_word h (val_pos p i))
          else map_search h p key n (Suc i)
      | None \<Rightarrow> map_search h p key n (Suc i))"

definition map_get :: "u64 \<Rightarrow> u64 \<Rightarrow> exec_context \<Rightarrow> exec_out" where
  "map_get word ip c =
     (let dest = decode_dest word;
          map_term = get_x c (decode_src word);
          key_term = get_x c (decode_src2 word);
          value =
            (case ec_heap c of
               Some h \<Rightarrow>
                 if is_map map_term then
                   (let p = to_map map_term
                    in case get_word h (unat p) of
                         Some header \<Rightarrow>
                           (case map_search h p key_term (unat (num_pairs_of header)) 0 of
                              Some v \<Rightarrow> v
                            | None \<Rightarrow> from_atom ATOM_UNDEFINED)
                       | None \<Rightarrow> nil)
                 else from_atom ATOM_UNDEFINED
             | None \<Rightarrow> from_atom ATOM_UNDEFINED)
      in step_ok ip (set_x dest value c))"

text \<open>The first position of a key.\<close>

fun position_of :: "beam_term \<Rightarrow> (beam_term \<times> beam_term) list \<Rightarrow> nat option" where
  "position_of key [] = None"
| "position_of key ((k, v) # kvs) =
     (if k = key then Some 0 else map_option Suc (position_of key kvs))"

definition map_remove :: "u64 \<Rightarrow> u64 \<Rightarrow> exec_context \<Rightarrow> exec_out" where
  "map_remove word ip c =
     (let dest = decode_dest word;
          map_term = get_x c (decode_src word);
          key_term = get_x c (decode_src2 word)
      in bind_o (read_map_pairs map_term c) (\<lambda>existing.
           case existing of
             None \<Rightarrow> step_ok ip (set_x dest map_term c)
           | Some pairs \<Rightarrow>
               (case position_of key_term pairs of
                  Some idx \<Rightarrow>
                    with_new_map ip dest (length pairs - 1)
                      (\<lambda>new_ptr. write_pairs new_ptr (take idx pairs @ drop (Suc idx) pairs)) c
                | None \<Rightarrow> with_new_map ip dest (length pairs) (\<lambda>new_ptr. write_pairs new_ptr pairs) c)))"

definition map_size_instr :: "u64 \<Rightarrow> u64 \<Rightarrow> exec_context \<Rightarrow> exec_out" where
  "map_size_instr word ip c =
     (let dest = decode_dest word;
          map_term = get_x c (decode_src word);
          sz = (if is_map map_term then
                  (case ec_heap c of
                     Some h \<Rightarrow>
                       (case get_word h (unat (to_map map_term)) of
                          Some header \<Rightarrow> num_pairs_of header
                        | None \<Rightarrow> 0)
                   | None \<Rightarrow> 0)
                else 0)
      in set_small_ok ip dest sz c)"

fun exec_map :: "map_op \<Rightarrow> u64 \<Rightarrow> u64 \<Rightarrow> exec_context \<Rightarrow> exec_out" where
  "exec_map OpMapCreate = map_create"
| "exec_map OpMapPut = map_put"
| "exec_map OpMapGet = map_get"
| "exec_map OpMapRemove = map_remove"
| "exec_map OpMapSize = map_size_instr"

section \<open>Floats and bitstrings\<close>

text \<open>The order of two 64-bit floats from their bits: not-a-number is unordered, and the
  magnitude of the others is signed by the top bit, so the two zeros are equal.\<close>

definition f64_is_nan :: "u64 \<Rightarrow> bool" where
  "f64_is_nan b \<longleftrightarrow> b AND 0x7FFFFFFFFFFFFFFF > 0x7FF0000000000000"

definition f64_key :: "u64 \<Rightarrow> int" where
  "f64_key b =
     (let m = uint (b AND 0x7FFFFFFFFFFFFFFF) in if drop_bit 63 b = 0 then m else - m)"

definition f64_cmp :: "(int \<Rightarrow> int \<Rightarrow> bool) \<Rightarrow> u64 \<Rightarrow> u64 \<Rightarrow> bool" where
  "f64_cmp rel a b \<longleftrightarrow> \<not> f64_is_nan a \<and> \<not> f64_is_nan b \<and> rel (f64_key a) (f64_key b)"

definition float_operand :: "exec_context \<Rightarrow> u32 \<Rightarrow> u64" where
  "float_operand c reg = (case get_float c reg of Some b \<Rightarrow> b | None \<Rightarrow> 0)"

definition float_cmp_value :: "u64 \<Rightarrow> exec_context \<Rightarrow> bool" where
  "float_cmp_value word c =
     (let a_val = float_operand c (decode_src word);
          b_val = float_operand c (decode_src2 word);
          cmp_type = (ucast (drop_bit 40 word AND 0xFF) :: u32)
      in if cmp_type = 0 then f64_cmp (\<lambda>a b. a < b) a_val b_val
         else if cmp_type = 1 then f64_cmp (\<lambda>a b. a \<le> b) a_val b_val
         else if cmp_type = 2 then f64_cmp (\<lambda>a b. a > b) a_val b_val
         else if cmp_type = 3 then f64_cmp (\<lambda>a b. a \<ge> b) a_val b_val
         else if cmp_type = 4 then f64_cmp (\<lambda>a b. a = b) a_val b_val
         else False)"

text \<open>Every arithmetic arm stores \<^verbatim>\<open>make_float\<close> of its result, which is nil whatever the
  result: the numbers \<open>0\<close> below stand for a value that is never looked at.\<close>

fun exec_float :: "float_op \<Rightarrow> u64 \<Rightarrow> u64 \<Rightarrow> exec_context \<Rightarrow> exec_out" where
  "exec_float OpFloatCmp word ip c =
     step_ok ip (set_x (decode_dest word) (bool_atom (float_cmp_value word c)) c)"
| "exec_float OpFloatLoad word ip c =
     step_ok ip (set_x (decode_dest word) (ctx_make_float (decode_value word)) c)"
| "exec_float OpFloatAdd word ip c = step_ok ip (set_x (decode_dest word) (ctx_make_float 0) c)"
| "exec_float OpFloatSub word ip c = step_ok ip (set_x (decode_dest word) (ctx_make_float 0) c)"
| "exec_float OpFloatMul word ip c = step_ok ip (set_x (decode_dest word) (ctx_make_float 0) c)"
| "exec_float OpFloatDiv word ip c = step_ok ip (set_x (decode_dest word) (ctx_make_float 0) c)"
| "exec_float OpFloatOp word ip c = step_ok ip (set_x (decode_dest word) (ctx_make_float 0) c)"

fun exec_bs :: "bs_op \<Rightarrow> u64 \<Rightarrow> u64 \<Rightarrow> exec_context \<Rightarrow> exec_out" where
  "exec_bs OpBsInit word ip c =
     (let dest = decode_dest word; size_bits = decode_src word;
          size_bytes = (size_bits + 7) div 8;
          words_needed = 2 + unat size_bytes
      in case heap_alloc words_needed c of
           (Some p, c1) \<Rightarrow>
             (let header = sub_tag_num SubBinary OR push_bit 8 (of_nat words_needed);
                  c2 = heap_set_word (p + 1) (ucast size_bits) (heap_set_word p header c1)
              in step_ok ip (set_x dest (from_binary_ptr (of_nat p)) c2))
         | (None, c1) \<Rightarrow> step_ok ip (set_x dest nil c1))"
| "exec_bs OpBsPut word ip c =
     (let dest = decode_dest word; value = get_x c (decode_src2 word)
      in if is_binary value then
           (case ec_heap c of
              Some h \<Rightarrow>
                (case get_word h (unat (to_binary value)) of
                   Some _ \<Rightarrow> step_ok ip (set_x dest value c)
                 | None \<Rightarrow> step_ok ip (set_x dest nil c))
            | None \<Rightarrow> step_ok ip (set_x dest nil c))
         else step_ok ip (set_x dest value c))"
| "exec_bs OpBsMatch word ip c =
     (let dest = decode_dest word; bs_term = get_x c (decode_src word)
      in if is_binary bs_term then step_ok ip (set_x dest bs_term c)
         else step_ok ip (set_x dest nil c))"
| "exec_bs OpBsSave word ip c =
     (let pos_reg = decode_src word; (p, c1) = heap_alloc 1 c;
          pos = (case p of Some q \<Rightarrow> q | None \<Rightarrow> 0)
      in set_small_ok ip pos_reg (of_nat pos) c1)"
| "exec_bs OpBsRestore word ip c = step_ok ip c"

section \<open>Exceptions, traps and the rest\<close>

text \<open>\<^verbatim>\<open>ctx.exception_state.take()\<close> and the jump to the handler, or the error.\<close>

definition raise_atom :: "u32 \<Rightarrow> u64 \<Rightarrow> exec_context \<Rightarrow> exec_out" where
  "raise_atom atom ip c =
     (case ec_exception_state c of
        Some exc \<Rightarrow>
          (let c1 = set_x (es_reg exc) (from_atom atom) (c\<lparr>ec_exception_state := None\<rparr>)
           in step_ok (es_handler exc) (c1\<lparr>ec_ip := es_handler exc\<rparr>))
      | None \<Rightarrow> step_with ExecErr ip (c\<lparr>ec_exception_state := None\<rparr>))"

definition ATOM_BADMATCH :: u32 where "ATOM_BADMATCH = 24"
definition ATOM_CASE_CLAUSE :: u32 where "ATOM_CASE_CLAUSE = 25"
definition ATOM_IF_CLAUSE :: u32 where "ATOM_IF_CLAUSE = 26"
definition ATOM_FUNCTION_CLAUSE :: u32 where "ATOM_FUNCTION_CLAUSE = 27"

fun exec_exception :: "exception_op \<Rightarrow> u64 \<Rightarrow> u64 \<Rightarrow> exec_context \<Rightarrow> exec_out" where
  "exec_exception OpTryVal word ip c =
     (let dest = decode_dest word; src = decode_src word; handler = decode_value word;
          c1 = set_x dest (get_x c src) c
      in step_ok ip (c1\<lparr>ec_exception_state :=
           Some \<lparr>es_reg = dest, es_handler = handler, es_stack_depth = ucast (ec_fp c1),
                 es_is_catch = False\<rparr>\<rparr>))"
| "exec_exception OpTryEnd word ip c = step_ok ip (c\<lparr>ec_exception_state := None\<rparr>)"
| "exec_exception OpCatchVal word ip c =
     (let dest = decode_dest word; handler = decode_value word;
          c1 = c\<lparr>ec_exception_state :=
           Some \<lparr>es_reg = dest, es_handler = handler, es_stack_depth = ucast (ec_fp c),
                 es_is_catch = True\<rparr>\<rparr>
      in step_ok ip (set_x dest nil c1))"
| "exec_exception OpCatchEnd word ip c = step_ok ip (c\<lparr>ec_exception_state := None\<rparr>)"
| "exec_exception OpRaise word ip c = raise_atom ATOM_ERROR ip c"

fun exec_select :: "select_op \<Rightarrow> u64 \<Rightarrow> u64 \<Rightarrow> exec_context \<Rightarrow> exec_out" where
  "exec_select OpSelectTupleArity word ip c = step_ok ip (c\<lparr>ec_ip := ec_ip c + 1\<rparr>)"
| "exec_select OpSelectVal word ip c = step_ok ip (c\<lparr>ec_ip := ec_ip c + 1\<rparr>)"
| "exec_select OpJumpWorks word ip c = step_ok ip (c\<lparr>ec_ip := decode_value word\<rparr>)"

fun exec_error :: "error_op \<Rightarrow> u64 \<Rightarrow> u64 \<Rightarrow> exec_context \<Rightarrow> exec_out" where
  "exec_error OpBadarg word ip c = raise_atom ATOM_BADARG ip c"
| "exec_error OpBadmatch word ip c = raise_atom ATOM_BADMATCH ip c"
| "exec_error OpCaseClause word ip c = raise_atom ATOM_CASE_CLAUSE ip c"
| "exec_error OpIfClause word ip c = raise_atom ATOM_IF_CLAUSE ip c"
| "exec_error OpFunctionClause word ip c = raise_atom ATOM_FUNCTION_CLAUSE ip c"
| "exec_error OpSystemLimit word ip c = step_with ExecErr ip c"

definition exec_trap :: "u64 \<Rightarrow> u64 \<Rightarrow> exec_context \<Rightarrow> exec_out" where
  "exec_trap word ip c =
     (let dest = decode_dest word; arg1 = decode_src word; arg2 = decode_src2 word;
          bif_id = (ucast (drop_bit 40 word AND 0xFF) :: u32)
      in step_with Trap ip
           (c\<lparr>ec_current_instruction := word,
              ec_bif_call := Some (bif_call_new bif_id dest arg1 arg2), ec_ip := ip\<rparr>))"

section \<open>The step\<close>

definition dispatch :: "opcode \<Rightarrow> u64 \<Rightarrow> u64 list \<Rightarrow> u64 \<Rightarrow> exec_context \<Rightarrow> exec_out" where
  "dispatch opcode word code ip c =
     (case opcode of
        ILoad op \<Rightarrow> exec_load op word code ip c
      | ICall op \<Rightarrow> exec_call op word ip c
      | IJump op \<Rightarrow> exec_jump op word ip c
      | IAlloc op \<Rightarrow> exec_alloc op word ip c
      | IInit op \<Rightarrow> step_ok ip c
      | IList op \<Rightarrow> exec_list op word ip c
      | IArith op \<Rightarrow> exec_arith op word ip c
      | ICompare op \<Rightarrow> exec_compare op word ip c
      | ITypeTest op \<Rightarrow> exec_type_test op word ip c
      | ISend op \<Rightarrow> exec_send op word ip c
      | IRecv op \<Rightarrow> exec_recv op word ip c
      | IException op \<Rightarrow> exec_exception op word ip c
      | ISelect op \<Rightarrow> exec_select op word ip c
      | IError op \<Rightarrow> exec_error op word ip c
      | IFrame op \<Rightarrow> exec_frame op word ip c
      | IBif op \<Rightarrow> exec_trap word ip c
      | INative op \<Rightarrow> exec_trap word ip c
      | IMap op \<Rightarrow> exec_map op word ip c
      | IFloat op \<Rightarrow> exec_float op word ip c
      | IBs op \<Rightarrow> exec_bs op word ip c)"

definition execute_instruction :: "exec_context \<Rightarrow> u64 list \<Rightarrow> exec_out" where
  "execute_instruction c code =
     (if unat (ec_ip c) \<ge> length code then step_with ExitDispatch (ec_ip c) c
      else
        let word = code ! unat (ec_ip c)
        in case decode_opcode word of
             Invalid _ \<Rightarrow> step_with ExecErr (ec_ip c) c
           | Valid opcode \<Rightarrow>
               (let ip = ec_ip c;
                    c1 = decrement_reductions 1 (c\<lparr>ec_ip := ec_ip c + 1\<rparr>)
                in dispatch opcode word code ip c1))"

section \<open>The interpreter loop\<close>

record interpreter_loop =
  instructions_executed :: u64
  reductions_exhausted :: u64
  traps :: u64

definition interpreter_loop_new :: interpreter_loop where
  "interpreter_loop_new = \<lparr>instructions_executed = 0, reductions_exhausted = 0, traps = 0\<rparr>"

type_synonym loop_out =
  "(unit, interpreter_loop \<times> exec_context \<times> exec_result) outcome"

text \<open>\<^verbatim>\<open>run\<close>: the closure \<^verbatim>\<open>should_stop\<close> is the sequence of its answers, one for each turn
  of the loop.  The fuel bounds the turns.\<close>

primrec run :: "nat \<Rightarrow> (nat \<Rightarrow> bool) \<Rightarrow> nat \<Rightarrow> interpreter_loop \<Rightarrow> exec_context \<Rightarrow> u64 list \<Rightarrow> loop_out" where
  "run 0 should_stop turn l c code = OutOfFuel"
| "run (Suc fuel) should_stop turn l c code =
     (if should_stop turn then Ok (l, c, ExecOk)
      else if is_exhausted c then
        Ok (l\<lparr>reductions_exhausted := reductions_exhausted l + 1\<rparr>, c, Yield)
      else
        bind_o (execute_instruction c code) (\<lambda>(c', res).
          let l' = l\<lparr>instructions_executed := instructions_executed l + 1\<rparr>
          in case sr_result res of
               ExecOk \<Rightarrow> run fuel should_stop (Suc turn) l' c' code
             | Trap \<Rightarrow> Ok (l'\<lparr>traps := traps l' + 1\<rparr>, c', Trap)
             | r \<Rightarrow> Ok (l', c', r)))"

primrec run_reductions_loop ::
  "nat \<Rightarrow> u64 \<Rightarrow> u64 \<Rightarrow> u64 \<Rightarrow> interpreter_loop \<Rightarrow> exec_context \<Rightarrow> u64 list \<Rightarrow> loop_out" where
  "run_reductions_loop 0 initial done_so_far max_reductions l c code = OutOfFuel"
| "run_reductions_loop (Suc fuel) initial done_so_far max_reductions l c code =
     (if done_so_far \<ge> max_reductions then Ok (l, c, Yield)
      else
        bind_o (execute_instruction c code) (\<lambda>(c', res).
          let l' = l\<lparr>instructions_executed := instructions_executed l + 1\<rparr>
          in case sr_result res of
               ExecOk \<Rightarrow>
                 run_reductions_loop fuel initial (initial - ec_reductions c') max_reductions l' c' code
             | Trap \<Rightarrow> Ok (l'\<lparr>traps := traps l' + 1\<rparr>, c', Trap)
             | r \<Rightarrow> Ok (l', c', r)))"

definition run_reductions ::
  "nat \<Rightarrow> interpreter_loop \<Rightarrow> exec_context \<Rightarrow> u64 list \<Rightarrow> u64 \<Rightarrow> loop_out" where
  "run_reductions fuel l c code max_reductions =
     run_reductions_loop fuel (ec_reductions c) 0 max_reductions l c code"

section \<open>Every step keeps the context well formed\<close>

text \<open>\<open>plain m\<close>: the computation returns or panics.  \<open>keeps c out\<close>: it does so, and a
  context it returns is well formed and has the reductions of \<open>c\<close>.\<close>

definition plain :: "('e, 'a) outcome \<Rightarrow> bool" where
  "plain m \<longleftrightarrow> m \<noteq> OutOfFuel \<and> (\<forall>e. m \<noteq> Err e)"

definition keeps :: "exec_context \<Rightarrow> exec_out \<Rightarrow> bool" where
  "keeps c out \<longleftrightarrow> plain out \<and>
     (\<forall>c' r. out = Ok (c', r) \<longrightarrow> ctx_ok c' \<and> ec_reductions c' = ec_reductions c)"

lemma plain_simps [simp]:
  "plain (Ok a)" "plain (Panic p)" "\<not> plain (Err e)" "\<not> plain OutOfFuel"
  "plain (index_o xs i)"
  by (simp_all add: plain_def index_o_def)

lemma plain_from_small [simp]: "plain (from_small v)"
  by (simp add: from_small_def)

lemma plain_quot_rem [simp]: "plain (i64_quot a b)" "plain (i64_rem a b)"
  by (simp_all add: i64_quot_def i64_rem_def)

lemma plain_write_y [simp]: "plain (write_y_index i t c)"
  by (simp add: write_y_index_def)

lemma plain_read_map_pairs [simp]: "plain (read_map_pairs t c)"
  by (auto simp: read_map_pairs_def Let_def split: option.splits)

named_theorems keeps_intro \<open>rules that show a step keeps the context\<close>

lemma keeps_step [keeps_intro]:
  "ctx_ok c' \<Longrightarrow> ec_reductions c' = ec_reductions c \<Longrightarrow> keeps c (step_with r ip c')"
  by (simp add: keeps_def step_with_def)

lemma keeps_bind [keeps_intro]:
  "plain m \<Longrightarrow> (\<And>a. m = Ok a \<Longrightarrow> keeps c (f a)) \<Longrightarrow> keeps c (bind_o m f)"
  by (cases m) (auto simp: keeps_def)

lemma keeps_set_small [keeps_intro]:
  "ctx_ok c' \<Longrightarrow> ec_reductions c' = ec_reductions c \<Longrightarrow> keeps c (set_small_ok ip dest v c')"
  unfolding set_small_ok_def by (intro keeps_intro) (auto intro: inv_intro)

text \<open>Updates of the other fields do not matter to the invariant.\<close>

lemma ctx_ok_updates [simp]:
  "ctx_ok (c\<lparr>ec_fp := a\<rparr>) = ctx_ok c" "ctx_ok (c\<lparr>ec_ip := a\<rparr>) = ctx_ok c"
  "ctx_ok (c\<lparr>ec_cp := a\<rparr>) = ctx_ok c" "ctx_ok (c\<lparr>ec_live := n\<rparr>) = ctx_ok c"
  "ctx_ok (c\<lparr>ec_reductions := a\<rparr>) = ctx_ok c"
  "ctx_ok (c\<lparr>ec_current_instruction := a\<rparr>) = ctx_ok c"
  "ctx_ok (c\<lparr>ec_bif_call := b\<rparr>) = ctx_ok c" "ctx_ok (c\<lparr>ec_receive_state := rs\<rparr>) = ctx_ok c"
  "ctx_ok (c\<lparr>ec_exception_state := es\<rparr>) = ctx_ok c"
  by (simp_all add: ctx_ok_def)

lemma ctx_ok_y_update: "ctx_ok c \<Longrightarrow> ctx_ok (c\<lparr>ec_y := (ec_y c)[i := t]\<rparr>)"
  by (simp add: ctx_ok_def)

lemma heap_alloc_ok:
  "ctx_ok c \<Longrightarrow> heap_alloc n c = (p, c') \<Longrightarrow>
   ctx_ok c' \<and> ec_reductions c' = ec_reductions c \<and> ec_x c' = ec_x c"
proof -
  assume ok: "ctx_ok c" and al: "heap_alloc n c = (p, c')"
  show ?thesis
  proof (cases "ec_heap c")
    case None
    with ok al show ?thesis by (auto simp: heap_alloc_def)
  next
    case (Some h)
    obtain q h' where a: "alloc n h = (q, h')" by force
    have "heap_ok h'"
    proof (cases q)
      case None
      then show ?thesis using a ok Some by (simp add: alloc_None_iff ctx_ok_def)
    next
      case (Some q')
      then show ?thesis using alloc_facts(1) a ok \<open>ec_heap c = Some h\<close> by (auto simp: ctx_ok_def)
    qed
    with ok al a Some show ?thesis by (auto simp: heap_alloc_def ctx_ok_def)
  qed
qed

lemma ctx_alloc_map_ok:
  "ctx_ok c \<Longrightarrow> ctx_alloc_map n c = (p, c') \<Longrightarrow> ctx_ok c' \<and> ec_reductions c' = ec_reductions c"
  by (auto simp: ctx_alloc_map_def Let_def heap_set_word_ok dest: heap_alloc_ok
      split: prod.splits option.splits)

lemma write_map_pair_ok [simp]:
  "ctx_ok c \<Longrightarrow> ctx_ok (write_map_pair p i k v c)"
  "ec_reductions (write_map_pair p i k v c) = ec_reductions c"
  by (simp_all add: write_map_pair_def Let_def heap_set_word_ok)

lemma write_pairs_ok:
  "ctx_ok c \<Longrightarrow> ctx_ok (for_enum_from j (\<lambda>i (k, v). write_map_pair p i k v) kvs c) \<and>
   ec_reductions (for_enum_from j (\<lambda>i (k, v). write_map_pair p i k v) kvs c) = ec_reductions c"
  by (induction kvs arbitrary: j c) auto

lemma fold_keeps:
  "(\<And>i c. ctx_ok c \<Longrightarrow> ctx_ok (f i c) \<and> ec_reductions (f i c) = ec_reductions c) \<Longrightarrow>
   ctx_ok c \<Longrightarrow> ctx_ok (fold f is c) \<and> ec_reductions (fold f is c) = ec_reductions c"
  by (induction "is" arbitrary: c) auto

lemma exec_load_keeps: "ctx_ok c \<Longrightarrow> keeps c (exec_load op word code ip c)"
  by (cases op) (auto simp: Let_def intro!: keeps_intro inv_intro)

lemma exec_jump_keeps: "ctx_ok c \<Longrightarrow> keeps c (exec_jump op word ip c)"
  by (cases op) (auto simp: Let_def intro!: keeps_intro inv_intro split: option.splits)

lemma exec_call_keeps: "ctx_ok c \<Longrightarrow> keeps c (exec_call op word ip c)"
  by (cases op) (auto simp: Let_def intro!: keeps_intro inv_intro)

lemma exec_arith_keeps: "ctx_ok c \<Longrightarrow> keeps c (exec_arith op word ip c)"
  by (cases op)
    (auto simp: arith_add_def arith_sub_def arith_mul_def arith_div_def arith_rem_def arith_neg_def
      intro!: keeps_intro inv_intro split: option.splits)

lemma exec_compare_keeps: "ctx_ok c \<Longrightarrow> keeps c (exec_compare op word ip c)"
  by (auto simp: exec_compare_def intro!: keeps_intro inv_intro)

lemma exec_type_test_keeps: "ctx_ok c \<Longrightarrow> keeps c (exec_type_test op word ip c)"
  by (auto simp: exec_type_test_def Let_def intro!: keeps_intro inv_intro)

lemma exec_alloc_keeps: "ctx_ok c \<Longrightarrow> keeps c (exec_alloc op word ip c)"
proof (cases op)
  case OpAllocate
  assume ok: "ctx_ok c"
  let ?clear = "\<lambda>i d. let idx = unat (ec_fp d + of_nat i)
      in if idx < length (ec_y d) then d\<lparr>ec_y := (ec_y d)[idx := nil]\<rparr> else d"
  have f: "ctx_ok d \<Longrightarrow> ctx_ok (?clear i d) \<and> ec_reductions (?clear i d) = ec_reductions d" for i d
    by (simp add: Let_def ctx_ok_y_update)
  show ?thesis
    unfolding OpAllocate exec_alloc.simps Let_def
    by (rule keeps_step)
      (use fold_keeps [where f = ?clear, OF f] ok in \<open>simp_all add: Let_def\<close>)
qed (auto simp: Let_def intro!: keeps_intro inv_intro)

lemma write_y_index_keeps:
  "write_y_index i t c = Ok c' \<Longrightarrow> ctx_ok c \<Longrightarrow> ctx_ok c' \<and> ec_reductions c' = ec_reductions c"
  by (auto simp: write_y_index_def ctx_ok_y_update split: if_splits)

lemma exec_frame_keeps: "ctx_ok c \<Longrightarrow> keeps c (exec_frame op word ip c)"
  by (cases op) (auto simp: Let_def intro!: keeps_intro dest: write_y_index_keeps)

lemma exec_list_keeps: "ctx_ok c \<Longrightarrow> keeps c (exec_list op word ip c)"
  by (cases op) (auto simp: Let_def intro!: keeps_intro inv_intro)

lemma exec_send_keeps: "ctx_ok c \<Longrightarrow> keeps c (exec_send op word ip c)"
  by (cases op) (auto intro!: keeps_intro)

lemma exec_recv_keeps: "ctx_ok c \<Longrightarrow> keeps c (exec_recv op word ip c)"
  by (cases op) (auto simp: Let_def recv_wait_def intro!: keeps_intro inv_intro split: option.splits)

lemma with_new_map_keeps [keeps_intro]:
  assumes "ctx_ok c"
    and "\<And>p d. ctx_ok d \<Longrightarrow> ctx_ok (body p d) \<and> ec_reductions (body p d) = ec_reductions d"
  shows "keeps c (with_new_map ip dest n body c)"
proof -
  obtain m c1 where al: "ctx_alloc_map n c = (m, c1)" by force
  note c1 = ctx_alloc_map_ok [OF assms(1) al]
  show ?thesis
    using c1 assms(2) [of c1]
    by (auto simp: with_new_map_def al intro!: keeps_step set_x_ok split: option.splits)
qed

lemma map_create_keeps: "ctx_ok c \<Longrightarrow> keeps c (map_create word ip c)"
  unfolding map_create_def Let_def by (intro keeps_intro fold_keeps) auto

lemma map_put_keeps: "ctx_ok c \<Longrightarrow> keeps c (map_put word ip c)"
  unfolding map_put_def Let_def write_pairs_def
  by (auto intro!: keeps_intro simp: write_pairs_ok split: option.splits)

lemma map_get_keeps: "ctx_ok c \<Longrightarrow> keeps c (map_get word ip c)"
  unfolding map_get_def Let_def by (intro keeps_intro) (auto intro: inv_intro)

lemma map_remove_keeps: "ctx_ok c \<Longrightarrow> keeps c (map_remove word ip c)"
  unfolding map_remove_def Let_def write_pairs_def
  by (auto intro!: keeps_intro inv_intro simp: write_pairs_ok split: option.splits)

lemma exec_map_keeps: "ctx_ok c \<Longrightarrow> keeps c (exec_map op word ip c)"
  by (cases op)
    (auto simp: map_create_keeps map_put_keeps map_get_keeps map_remove_keeps map_size_instr_def
      Let_def intro: keeps_intro)

lemma exec_float_keeps: "ctx_ok c \<Longrightarrow> keeps c (exec_float op word ip c)"
  by (cases op) (auto intro!: keeps_intro inv_intro)

lemma exec_bs_keeps: "ctx_ok c \<Longrightarrow> keeps c (exec_bs op word ip c)"
  by (cases op)
    (auto simp: Let_def heap_set_word_ok dest: heap_alloc_ok intro!: keeps_intro inv_intro
      split: option.splits prod.splits)

lemma raise_atom_keeps: "ctx_ok c \<Longrightarrow> keeps c (raise_atom a ip c)"
  by (auto simp: raise_atom_def Let_def intro!: keeps_intro inv_intro split: option.splits)

lemma exec_exception_keeps: "ctx_ok c \<Longrightarrow> keeps c (exec_exception op word ip c)"
  by (cases op) (auto simp: Let_def raise_atom_keeps intro!: keeps_intro inv_intro)

lemma exec_select_keeps: "ctx_ok c \<Longrightarrow> keeps c (exec_select op word ip c)"
  by (cases op) (auto intro!: keeps_intro)

lemma exec_error_keeps: "ctx_ok c \<Longrightarrow> keeps c (exec_error op word ip c)"
  by (cases op) (auto simp: raise_atom_keeps intro!: keeps_intro)

lemma exec_trap_keeps: "ctx_ok c \<Longrightarrow> keeps c (exec_trap word ip c)"
  by (auto simp: exec_trap_def Let_def intro!: keeps_intro)

lemmas group_keeps =
  exec_load_keeps exec_jump_keeps exec_call_keeps exec_arith_keeps exec_compare_keeps
  exec_type_test_keeps exec_alloc_keeps exec_frame_keeps exec_list_keeps exec_send_keeps
  exec_recv_keeps exec_map_keeps exec_float_keeps exec_bs_keeps exec_exception_keeps
  exec_select_keeps exec_error_keeps exec_trap_keeps

lemma dispatch_keeps: "ctx_ok c \<Longrightarrow> keeps c (dispatch op word code ip c)"
  by (cases op) (auto simp: dispatch_def group_keeps intro: keeps_step)

text \<open>What one instruction does to the reductions: it costs one, unless the context is at the
  end of the code or at an invalid word.\<close>

lemma execute_instruction_cases:
  obtains "execute_instruction c code = step_with ExitDispatch (ec_ip c) c"
  | "execute_instruction c code = step_with ExecErr (ec_ip c) c"
  | op where "execute_instruction c code =
      dispatch op (code ! unat (ec_ip c)) code (ec_ip c)
        (decrement_reductions 1 (c\<lparr>ec_ip := ec_ip c + 1\<rparr>))"
proof (cases "length code \<le> unat (ec_ip c)")
  case True
  then show thesis by (intro that(1)) (simp add: execute_instruction_def)
next
  case False
  show thesis
  proof (cases "decode_opcode (code ! unat (ec_ip c))")
    case (Valid op)
    with False show thesis by (intro that(3) [of op]) (simp add: execute_instruction_def)
  next
    case (Invalid e)
    with False show thesis by (intro that(2)) (simp add: execute_instruction_def)
  qed
qed

lemma keepsD:
  "keeps c out \<Longrightarrow> out = Ok (c', r) \<Longrightarrow> ctx_ok c' \<and> ec_reductions c' = ec_reductions c"
  by (simp add: keeps_def)

lemma spent_one:
  "ec_reductions (decrement_reductions 1 c) = (if ec_reductions c = 0 then 0 else ec_reductions c - 1)"
  by (auto simp: decrement_reductions_def word_le_nat_alt unat_gt_0 Suc_le_eq)

lemma ctx_ok_decrement [simp]: "ctx_ok (decrement_reductions n c) = ctx_ok c"
  by (simp add: decrement_reductions_def)

lemma execute_instruction_facts:
  assumes "ctx_ok c" and "execute_instruction c code = Ok (c', r)"
  shows "ctx_ok c' \<and>
    (ec_reductions c' = ec_reductions c \<and> (sr_result r = ExitDispatch \<or> sr_result r = ExecErr) \<or>
     ec_reductions c' = (if ec_reductions c = 0 then 0 else ec_reductions c - 1))"
proof (rule execute_instruction_cases [of c code])
  fix op
  let ?c1 = "decrement_reductions 1 (c\<lparr>ec_ip := ec_ip c + 1\<rparr>)"
  assume "execute_instruction c code = dispatch op (code ! unat (ec_ip c)) code (ec_ip c) ?c1"
  with assms(2) have d: "dispatch op (code ! unat (ec_ip c)) code (ec_ip c) ?c1 = Ok (c', r)" by simp
  have "ctx_ok ?c1" using assms(1) by simp
  from keepsD [OF dispatch_keeps [OF this] d] show ?thesis by (simp add: spent_one)
qed (use assms in \<open>auto simp: step_with_def\<close>)

lemma execute_instruction_plain: "ctx_ok c \<Longrightarrow> plain (execute_instruction c code)"
  by (rule execute_instruction_cases [of c code])
    (use dispatch_keeps [of "decrement_reductions 1 (c\<lparr>ec_ip := ec_ip c + 1\<rparr>)"] in
      \<open>auto simp: step_with_def keeps_def\<close>)

end
