(* ===== verification/Interp_Loop.thy ===== *)
theory Interp_Loop
  imports Interp
begin

text \<open>
  The interpreter loops: \<open>run\<close> always returns, within as many instructions as the context has
  reductions, while \<open>run_reductions\<close> returns only when its limit is within the reductions
  left, and otherwise can loop for ever.
\<close>

section \<open>The loop \<open>run\<close>\<close>

lemma bind_o_plain: "plain m \<Longrightarrow> (\<And>a. m = Ok a \<Longrightarrow> plain (f a)) \<Longrightarrow> plain (bind_o m f)"
  by (cases m) auto

text \<open>A continuing instruction costs exactly one reduction when there is one to spend.\<close>

lemma continuing_costs_one:
  assumes "ctx_ok c" and "execute_instruction c code = Ok (c', r)" and "sr_result r = ExecOk"
    and "\<not> is_exhausted c"
  shows "ctx_ok c' \<and> unat (ec_reductions c) = Suc (unat (ec_reductions c'))"
proof -
  have nz: "ec_reductions c \<noteq> 0" using assms(4) by (simp add: is_exhausted_def)
  with execute_instruction_facts [OF assms(1,2)] assms(3)
  have ok: "ctx_ok c'" and red: "ec_reductions c' = ec_reductions c - 1" by auto
  from nz have "unat (ec_reductions c - 1) = unat (ec_reductions c) - 1" "unat (ec_reductions c) > 0"
    by (simp_all add: unat_minus_one unat_gt_0)
  with ok red show ?thesis by simp
qed

lemma run_plain:
  "ctx_ok c \<Longrightarrow> unat (ec_reductions c) < fuel \<Longrightarrow> plain (run fuel stop turn l c code)"
proof (induction fuel arbitrary: turn l c)
  case 0
  then show ?case by simp
next
  case (Suc fuel)
  have "plain (run fuel stop (Suc turn) l' c' code)"
    if "\<not> is_exhausted c" and "execute_instruction c code = Ok (c', r)" and "sr_result r = ExecOk"
    for l' c' r
    by (rule Suc.IH) (use continuing_costs_one [OF Suc.prems(1) that(2,3,1)] Suc.prems(2) in auto)
  then show ?case
    using execute_instruction_plain [OF Suc.prems(1), of code]
    by (auto simp: Let_def intro!: bind_o_plain split: exec_result.splits)
qed

lemma run_bounded:
  "ctx_ok c \<Longrightarrow> run fuel stop turn l c code = Ok (l', c', r) \<Longrightarrow>
   ctx_ok c' \<and> unat (ec_reductions c') \<le> unat (ec_reductions c) \<and>
   (\<exists>n \<le> unat (ec_reductions c). instructions_executed l' = instructions_executed l + of_nat n)"
proof (induction fuel arbitrary: turn l c)
  case 0
  then show ?case by simp
next
  case (Suc fuel)
  show ?case
  proof (cases "stop turn \<or> is_exhausted c")
    case True
    with Suc.prems show ?thesis by (auto split: if_splits)
  next
    case False
    with Suc.prems(2) obtain c1 r1 where ex: "execute_instruction c code = Ok (c1, r1)"
      by (auto simp: bind_o_Ok_iff)
    let ?l1 = "l\<lparr>instructions_executed := instructions_executed l + 1\<rparr>"
    from False have nz: "0 < unat (ec_reductions c)" by (simp add: is_exhausted_def unat_gt_0)
    show ?thesis
    proof (cases "sr_result r1 = ExecOk")
      case True
      have c1: "ctx_ok c1" "unat (ec_reductions c) = Suc (unat (ec_reductions c1))"
        using continuing_costs_one [OF Suc.prems(1) ex True] False by auto
      have "run fuel stop (Suc turn) ?l1 c1 code = Ok (l', c', r)"
        using Suc.prems(2) False ex True by simp
      from Suc.IH [OF c1(1) this] obtain n where "ctx_ok c'"
        "unat (ec_reductions c') \<le> unat (ec_reductions c1)" "n \<le> unat (ec_reductions c1)"
        "instructions_executed l' = instructions_executed l + 1 + of_nat n" by auto
      with c1(2) show ?thesis by (intro conjI exI [of _ "Suc n"]) auto
    next
      case False2: False
      have "c' = c1" and "instructions_executed l' = instructions_executed l + of_nat 1"
        using Suc.prems(2) False ex False2 by (auto simp: Let_def split: exec_result.splits)
      moreover have "ctx_ok c1" and "unat (ec_reductions c1) \<le> unat (ec_reductions c)"
        using execute_instruction_facts [OF Suc.prems(1) ex] nz
        by (auto simp: unat_minus_one split: if_splits)
      ultimately show ?thesis using nz by (intro conjI exI [of _ 1]) auto
    qed
  qed
qed

lemma run_more_fuel:
  "run fuel stop turn l c code \<noteq> OutOfFuel \<Longrightarrow>
   run (fuel + k) stop turn l c code = run fuel stop turn l c code"
proof (induction fuel arbitrary: turn l c)
  case 0
  then show ?case by simp
next
  case (Suc fuel)
  then show ?case
    by (cases "execute_instruction c code")
      (auto simp: Let_def split: exec_result.splits if_splits)
qed

section \<open>The loop \<open>run_reductions\<close>\<close>

lemma run_reductions_loop_plain:
  "ctx_ok c \<Longrightarrow> done_so_far = initial - ec_reductions c \<Longrightarrow> ec_reductions c \<le> initial \<Longrightarrow>
   max_reductions \<le> initial \<Longrightarrow> 0 < fuel \<Longrightarrow>
   unat max_reductions \<le> fuel - 1 + unat done_so_far \<Longrightarrow>
   plain (run_reductions_loop fuel initial done_so_far max_reductions l c code)"
proof (induction fuel arbitrary: done_so_far l c)
  case 0
  then show ?case by simp
next
  case (Suc fuel)
  show ?case
  proof (cases "max_reductions \<le> done_so_far")
    case True
    then show ?thesis by simp
  next
    case False
    have "done_so_far < initial" using False Suc.prems(4) by simp
    then have nz: "\<not> is_exhausted c" using Suc.prems(2) by (auto simp: is_exhausted_def)
    have "plain (run_reductions_loop fuel initial (initial - ec_reductions c') max_reductions l' c' code)"
      if ex: "execute_instruction c code = Ok (c', r)" and r: "sr_result r = ExecOk" for l' c' r
    proof (rule Suc.IH)
      note one = continuing_costs_one [OF Suc.prems(1) ex r nz]
      then show "ctx_ok c'" and "ec_reductions c' \<le> initial"
        using Suc.prems(3) by (auto simp: word_le_nat_alt)
      then have "unat (initial - ec_reductions c') = unat initial - unat (ec_reductions c')"
        by (simp add: unat_sub)
      then show "unat max_reductions \<le> fuel - 1 + unat (initial - ec_reductions c')"
        using Suc.prems(2,3,6) one False by (simp add: unat_sub word_le_nat_alt)
      show "0 < fuel" using Suc.prems(6) False by (cases fuel) (auto simp: word_le_nat_alt)
    qed (use Suc.prems in auto)
    then show ?thesis
      using execute_instruction_plain [OF Suc.prems(1), of code]
      by (auto simp: Let_def intro!: bind_o_plain split: exec_result.splits)
  qed
qed

text \<open>The one-word program that jumps to itself.\<close>

lemma self_jump_step:
  "ec_ip c = 0 \<Longrightarrow>
   execute_instruction c [30] =
     Ok ((decrement_reductions 1 c)\<lparr>ec_ip := 0\<rparr>, \<lparr>sr_ip = 0, sr_result = ExecOk\<rparr>)"
proof -
  have "decode_opcode 30 = Valid (IJump OpJump)"
    by (simp add: decode_opcode_Valid opcode_from_raw_def from_raw_arms_def)
  then show "ec_ip c = 0 \<Longrightarrow> ?thesis"
    by (simp add: execute_instruction_def dispatch_def decode_value_def step_with_def
        decrement_reductions_def)
qed

lemma self_jump_diverges:
  "ec_ip c = 0 \<Longrightarrow> ec_reductions c \<le> initial \<Longrightarrow> initial < max_reductions \<Longrightarrow>
   done_so_far \<le> initial \<Longrightarrow>
   run_reductions_loop fuel initial done_so_far max_reductions l c [30] = OutOfFuel"
proof (induction fuel arbitrary: done_so_far l c)
  case 0
  then show ?case by simp
next
  case (Suc fuel)
  let ?c1 = "(decrement_reductions 1 c)\<lparr>ec_ip := 0\<rparr>"
  have red: "ec_reductions ?c1 \<le> initial"
    using Suc.prems(2) by (auto simp: spent_one word_le_nat_alt unat_minus_one)
  then have "initial - ec_reductions ?c1 \<le> initial"
    by (simp add: word_le_nat_alt unat_sub)
  with Suc.IH [OF _ red Suc.prems(3) this] Suc.prems show ?case
    by (simp add: self_jump_step)
qed

section \<open>Properties\<close>

text \<open>C9. \<^verbatim>\<open>InterpreterLoop::run\<close> always returns: with more fuel than the context has
  reductions it never runs out of fuel, and the result does not depend on the fuel.  A run that
  returns has executed at most as many instructions as there were reductions, has not gained
  any, and leaves a well-formed context.\<close>

theorem run_terminates:
  assumes "ctx_ok c" and "unat (ec_reductions c) < fuel"
  shows "run fuel stop turn l c code \<noteq> OutOfFuel
    \<and> run (fuel + k) stop turn l c code = run fuel stop turn l c code
    \<and> (\<forall>l' c' r. run fuel stop turn l c code = Ok (l', c', r) \<longrightarrow>
         ctx_ok c' \<and> ec_reductions c' \<le> ec_reductions c
         \<and> (\<exists>n \<le> unat (ec_reductions c).
              instructions_executed l' = instructions_executed l + of_nat n))"
  using run_plain [OF assms, of stop turn l code] run_bounded [OF assms(1)]
    run_more_fuel [of fuel stop turn l c code k]
  by (fastforce simp: plain_def word_le_nat_alt)

theorem run_terminates_witness:
  "run 1001 (\<lambda>_. False) 0 interpreter_loop_new exec_context_new [30] \<noteq> OutOfFuel"
  using run_terminates [OF exec_context_new_ok, of 1001 "\<lambda>_. False" 0 interpreter_loop_new "[30]"]
  by (simp add: exec_context_new_def DEFAULT_REDUCTION_BUDGET_def)

text \<open>\<^verbatim>\<open>run_reductions\<close> returns when its limit is within the reductions of the context,
  but a larger limit is never reached, because the reductions stop at zero: on the program that
  jumps to itself it then runs for ever.\<close>

theorem run_reductions_terminates_iff:
  assumes "ctx_ok c" and "ec_ip c = 0"
  shows "(\<exists>fuel. run_reductions fuel l c [30] max_reductions \<noteq> OutOfFuel)
      \<longleftrightarrow> max_reductions \<le> ec_reductions c"
proof
  assume le: "max_reductions \<le> ec_reductions c"
  have "plain (run_reductions (Suc (unat max_reductions)) l c [30] max_reductions)"
    unfolding run_reductions_def
    by (rule run_reductions_loop_plain) (use assms le in auto)
  then show "\<exists>fuel. run_reductions fuel l c [30] max_reductions \<noteq> OutOfFuel"
    by (auto simp: plain_def)
next
  assume "\<exists>fuel. run_reductions fuel l c [30] max_reductions \<noteq> OutOfFuel"
  then show "max_reductions \<le> ec_reductions c"
    using self_jump_diverges [OF assms(2), of "ec_reductions c" max_reductions 0]
    by (force simp: run_reductions_def)
qed

theorem run_reductions_terminates_iff_witness:
  "\<not> (\<exists>fuel. run_reductions fuel interpreter_loop_new exec_context_new [30] 1001 \<noteq> OutOfFuel)"
  using run_reductions_terminates_iff [OF exec_context_new_ok, of interpreter_loop_new 1001]
  by (simp add: exec_context_new_def DEFAULT_REDUCTION_BUDGET_def)

text \<open>C10. The interpreter is type safe: from a well-formed context, with its 64 and 256 registers and
  a heap whose pointers are in range, every word of code steps to a well-formed context or
  panics; it has no other way to stop, and the step gains no reduction.\<close>

theorem interpreter_type_safe:
  assumes "ctx_ok c"
  shows "case execute_instruction c code of
      Ok (c', r) \<Rightarrow> length (ec_x c') = 64 \<and> length (ec_y c') = 256
        \<and> (\<forall>h. ec_heap c' = Some h \<longrightarrow> heap_ok h) \<and> ec_reductions c' \<le> ec_reductions c
    | Panic _ \<Rightarrow> True
    | _ \<Rightarrow> False"
proof (cases "execute_instruction c code")
  case (Ok cr)
  obtain c' r where cr: "cr = (c', r)" by (cases cr)
  have "ec_reductions c - 1 \<le> ec_reductions c" if "ec_reductions c \<noteq> 0"
    using that by (simp add: word_le_nat_alt unat_minus_one)
  with execute_instruction_facts [OF assms Ok [unfolded cr]] show ?thesis
    by (auto simp: Ok cr ctx_ok_def MAX_REGISTERS_def MAX_Y_REGISTERS_def)
qed (use execute_instruction_plain [OF assms, of code] in \<open>simp_all add: plain_def\<close>)

theorem interpreter_type_safe_witness:
  "case execute_instruction exec_context_new [30] of
      Ok (c', r) \<Rightarrow> length (ec_x c') = 64 | Panic _ \<Rightarrow> True | _ \<Rightarrow> False"
  using interpreter_type_safe [OF exec_context_new_ok, of "[30]"] by (auto split: outcome.splits)

end
