(* ===== verification/Interp_Arith.thy ===== *)
theory Interp_Arith
  imports Interp
begin

text \<open>
  What the arithmetic, branch, exception and receive instructions compute: exact results
  inside the small-integer range and a panic outside it, the branches that ignore their
  condition, the transfer of an error to its handler, and the number of times a receive waits.
\<close>

section \<open>Arithmetic\<close>

text \<open>The outcome of an instruction whose mathematical result is \<open>z\<close>: in range, the register
  \<open>dest\<close> holds it and nothing else but that register changes; out of range, a panic.\<close>

definition delivers :: "u64 \<Rightarrow> u32 \<Rightarrow> int \<Rightarrow> exec_context \<Rightarrow> exec_out \<Rightarrow> bool" where
  "delivers ip dest z c out \<longleftrightarrow>
     (if - (2 ^ 59) \<le> z \<and> z < 2 ^ 59
      then \<exists>t. out = Ok (set_x dest t c, \<lparr>sr_ip = ip, sr_result = ExecOk\<rparr>)
             \<and> map_option sint (to_small_opt t) = Some z
      else out = Panic ExplicitPanic)"

lemma to_small_range: "- (2 ^ 60) \<le> sint (to_small t)" "sint (to_small t) < 2 ^ 60"
proof -
  have s: "sint (to_small t) = sint (term_raw t) div 8"
    by (simp add: to_small_def u64_bits_to_i64_def sint_signed_drop_bit_eq drop_bit_eq_div)
  have "- (2 ^ 63) \<le> sint (term_raw t)" "sint (term_raw t) < 2 ^ 63"
    using sint_ge [of "term_raw t"] sint_lt [of "term_raw t"] by simp_all
  then show "- (2 ^ 60) \<le> sint (to_small t)" "sint (to_small t) < 2 ^ 60"
    unfolding s by simp_all
qed

lemma small_operands_range:
  assumes "small_operands word c = Some (a, b)"
  shows "- (2 ^ 60) \<le> sint a" "sint a < 2 ^ 60" "- (2 ^ 60) \<le> sint b" "sint b < 2 ^ 60"
proof -
  obtain s t where "a = to_small s" "b = to_small t"
    using assms by (auto simp: small_operands_def to_small_opt_def split: option.splits if_splits)
  then show "- (2 ^ 60) \<le> sint a" "sint a < 2 ^ 60" "- (2 ^ 60) \<le> sint b" "sint b < 2 ^ 60"
    using to_small_range [of s] to_small_range [of t] by simp_all
qed

lemma delivers_set_small: "delivers ip dest (sint v) c (set_small_ok ip dest v c)"
  by (auto simp: delivers_def set_small_ok_def from_small_def is_small_int_iff step_with_def)

lemma sint_word_of_int_id:
  "- (2 ^ 63) \<le> z \<Longrightarrow> z < 2 ^ 63 \<Longrightarrow> sint (word_of_int z :: i64) = z"
  by (simp add: signed_of_int signed_take_bit_int_eq_self)

lemma sint_ops:
  fixes a b :: i64
  shows "- (2 ^ 63) \<le> sint a + sint b \<Longrightarrow> sint a + sint b < 2 ^ 63 \<Longrightarrow> sint (a + b) = sint a + sint b"
    and "- (2 ^ 63) \<le> sint a - sint b \<Longrightarrow> sint a - sint b < 2 ^ 63 \<Longrightarrow> sint (a - b) = sint a - sint b"
    and "- (2 ^ 63) \<le> - sint a \<Longrightarrow> - sint a < 2 ^ 63 \<Longrightarrow> sint (- a) = - sint a"
  using sint_word_of_int_id [of "sint a + sint b"] sint_word_of_int_id [of "sint a - sint b"]
    sint_word_of_int_id [of "- sint a"]
  by simp_all

lemma quot_rem_sint:
  assumes "- (2 ^ 60) \<le> sint a" "sint a < 2 ^ 60" "- (2 ^ 60) \<le> sint b" "sint b < 2 ^ 60"
    and "sint b \<noteq> 0"
  shows "\<exists>q. i64_quot a b = Ok q \<and> sint q = sint a sdiv sint b"
    and "\<exists>r. i64_rem a b = Ok r \<and> sint r = sint a smod sint b"
proof -
  have nz: "\<not> (sint b = 0 \<or> sint a = - (2 ^ 63) \<and> sint b = - 1)" using assms by auto
  have "sint (word_of_int (sint a sdiv sint b) :: i64) = sint a sdiv sint b"
    using sdiv_int_range [of "sint a" "sint b"] assms by (intro sint_word_of_int_id) auto
  with nz show "\<exists>q. i64_quot a b = Ok q \<and> sint q = sint a sdiv sint b"
    by (simp add: i64_quot_def del: of_int_sint)
  have "sint (word_of_int (sint a smod sint b) :: i64) = sint a smod sint b"
    using smod_int_range [OF assms(5), of "sint a"] assms by (intro sint_word_of_int_id) auto
  with nz show "\<exists>r. i64_rem a b = Ok r \<and> sint r = sint a smod sint b"
    by (simp add: i64_rem_def)
qed

section \<open>Exceptions and receives\<close>

text \<open>The six instructions that raise, and the atom each of them delivers.\<close>

fun raising :: "opcode \<Rightarrow> u32 option" where
  "raising (IException OpRaise) = Some ATOM_ERROR"
| "raising (IError OpBadarg) = Some ATOM_BADARG"
| "raising (IError OpBadmatch) = Some ATOM_BADMATCH"
| "raising (IError OpCaseClause) = Some ATOM_CASE_CLAUSE"
| "raising (IError OpIfClause) = Some ATOM_IF_CLAUSE"
| "raising (IError OpFunctionClause) = Some ATOM_FUNCTION_CLAUSE"
| "raising _ = None"

lemma dispatch_raising:
  "raising op = Some a \<Longrightarrow> dispatch op word code ip c = raise_atom a ip c"
  by (cases op rule: raising.cases) (auto simp: dispatch_def)

text \<open>Executing the same wait again and again, as the scheduler does while no message
  arrives.\<close>

primrec wait_again :: "nat \<Rightarrow> u64 \<Rightarrow> u64 \<Rightarrow> exec_context \<Rightarrow> exec_result list \<times> exec_context" where
  "wait_again 0 word ip c = ([], c)"
| "wait_again (Suc n) word ip c =
     (case exec_recv OpRecvWaitOp word ip c of
        Ok (c', r) \<Rightarrow> (let (rs, c'') = wait_again n word ip c' in (sr_result r # rs, c''))
      | _ \<Rightarrow> ([], c))"

lemma wait_continues:
  fixes word :: u64
  assumes "ec_receive_state c = Some st" and "\<not> rs_message_arrived st"
    and "unat (rs_waited_reductions st) + 1 < unat (decode_dest word)"
  shows "exec_recv OpRecvWaitOp word ip c = step_with Wait ip (c\<lparr>ec_receive_state :=
     Some (st\<lparr>rs_timeout := ucast (decode_dest word),
              rs_waited_reductions := rs_waited_reductions st + 1\<rparr>)\<rparr>)"
proof -
  have t: "unat (ucast (decode_dest word) :: u64) = unat (decode_dest word)" by simp
  have "unat (rs_waited_reductions st + 1) = unat (rs_waited_reductions st) + 1"
    using assms(3) unsigned_less [of "decode_dest word", where ?'a = nat] by (intro u64_inc(1)) simp
  then have "\<not> ucast (decode_dest word) \<le> rs_waited_reductions st + 1"
    using assms(3) t by (simp add: word_le_nat_alt)
  moreover have "(ucast (decode_dest word) :: u64) \<noteq> 0"
    using t assms(3) by (metis not_less_zero unsigned_0)
  ultimately show ?thesis using assms by (simp add: recv_wait_def Let_def)
qed

lemma wait_expires:
  assumes "ec_receive_state c = Some st" and "\<not> rs_message_arrived st"
    and "unat (decode_dest word) \<le> unat (rs_waited_reductions st) + 1"
    and "unat (rs_waited_reductions st) < 2 ^ 32"
  shows "exec_recv OpRecvWaitOp word ip c =
     step_ok ip (set_x 0 (from_atom 0) (c\<lparr>ec_receive_state := None\<rparr>))"
proof -
  have "unat (rs_waited_reductions st + 1) = unat (rs_waited_reductions st) + 1"
    using assms(4) by (intro u64_inc(1)) simp
  then have "ucast (decode_dest word) \<le> rs_waited_reductions st + 1"
    using assms(3) by (simp add: word_le_nat_alt)
  then show ?thesis using assms(1,2) by (auto simp: recv_wait_def Let_def word_neq_0_conv)
qed

lemma wait_again_pending:
  "ec_receive_state c = Some st \<Longrightarrow> \<not> rs_message_arrived st \<Longrightarrow> ctx_ok c \<Longrightarrow>
   max 1 (unat (decode_dest word)) = unat (rs_waited_reductions st) + Suc n \<Longrightarrow>
   fst (wait_again (Suc n) word ip c) = replicate n Wait @ [ExecOk] \<and>
   ec_receive_state (snd (wait_again (Suc n) word ip c)) = None \<and>
   get_x (snd (wait_again (Suc n) word ip c)) 0 = from_atom ATOM_FALSE"
proof (induction n arbitrary: c st)
  case 0
  have "unat (rs_waited_reductions st) < 2 ^ 32"
    using 0(4) unsigned_less [of "decode_dest word", where ?'a = nat] by simp
  from wait_expires [OF 0(1,2) _ this, of word ip] 0 show ?case
    by (simp add: step_with_def get_x_set_x ATOM_FALSE_def)
next
  case (Suc n)
  let ?st = "st\<lparr>rs_timeout := ucast (decode_dest word),
      rs_waited_reductions := rs_waited_reductions st + 1\<rparr>"
  let ?c = "c\<lparr>ec_receive_state := Some ?st\<rparr>"
  have lt: "unat (rs_waited_reductions st) + 1 < unat (decode_dest word)"
    using Suc.prems(4) by simp
  have "unat (rs_waited_reductions st + 1) = unat (rs_waited_reductions st) + 1"
    using lt unsigned_less [of "decode_dest word", where ?'a = nat] by (intro u64_inc(1)) simp
  then have "fst (wait_again (Suc n) word ip ?c) = replicate n Wait @ [ExecOk] \<and>
      ec_receive_state (snd (wait_again (Suc n) word ip ?c)) = None \<and>
      get_x (snd (wait_again (Suc n) word ip ?c)) 0 = from_atom ATOM_FALSE"
    using Suc.prems by (intro Suc.IH [of ?c ?st]) simp_all
  then show ?case
    unfolding wait_again.simps(2) [of "Suc n"] wait_continues [OF Suc.prems(1,2) lt] step_with_def
    by (simp add: case_prod_beta Let_def del: wait_again.simps)
qed

section \<open>Properties\<close>

text \<open>C39. On two small-integer operands the arithmetic instructions compute the exact sum,
  difference, truncated quotient, remainder and negation and store it in the destination
  register when it is a small integer, and panic when it is not; the product is taken modulo
  \<open>2 ^ 64\<close> first.  Division and remainder by zero change nothing.\<close>

theorem small_arithmetic:
  assumes "small_operands word c = Some (a, b)"
  shows "delivers ip (decode_dest word) (sint a + sint b) c (exec_arith OpAdd word ip c)
    \<and> delivers ip (decode_dest word) (sint a - sint b) c (exec_arith OpSub word ip c)
    \<and> delivers ip (decode_dest word) (signed_take_bit 63 (sint a * sint b)) c
        (exec_arith OpMul word ip c)
    \<and> (if sint b = 0 then exec_arith OpDiv word ip c = step_ok ip c
       else delivers ip (decode_dest word) (sint a sdiv sint b) c (exec_arith OpDiv word ip c))
    \<and> (if sint b = 0 then exec_arith OpRem word ip c = step_ok ip c
       else delivers ip (decode_dest word) (sint a smod sint b) c (exec_arith OpRem word ip c))
    \<and> delivers ip (decode_dest word) (- sint a) c (exec_arith OpNeg word ip c)"
proof -
  note r = small_operands_range [OF assms]
  have add: "sint (a + b) = sint a + sint b" and sub: "sint (a - b) = sint a - sint b"
    and neg: "sint (- a) = - sint a"
    by (rule sint_ops; use r in simp)+
  have mul: "sint (a * b) = signed_take_bit 63 (sint a * sint b)"
    by (simp add: sint_word_mult)
  have src: "to_small_opt (get_x c (decode_src word)) = Some a"
    using assms by (auto simp: small_operands_def split: option.splits)
  have z: "b = 0 \<longleftrightarrow> sint b = 0"
  proof
    assume "sint b = 0"
    then have "sint b = sint (0 :: i64)" by simp
    then show "b = 0" by (rule signed_word_eqI)
  qed simp
  have div: "delivers ip (decode_dest word) (sint a sdiv sint b) c (exec_arith OpDiv word ip c)"
    if nz: "sint b \<noteq> 0"
  proof -
    obtain v where "i64_quot a b = Ok v" and v: "sint v = sint a sdiv sint b"
      using quot_rem_sint(1) [OF r nz] by blast
    then have "exec_arith OpDiv word ip c = set_small_ok ip (decode_dest word) v c"
      using nz z by (simp add: arith_div_def assms)
    then show ?thesis using delivers_set_small [of ip "decode_dest word" v c] by (simp only: v)
  qed
  have rem: "delivers ip (decode_dest word) (sint a smod sint b) c (exec_arith OpRem word ip c)"
    if nz: "sint b \<noteq> 0"
  proof -
    obtain v where "i64_rem a b = Ok v" and v: "sint v = sint a smod sint b"
      using quot_rem_sint(2) [OF r nz] by blast
    then have "exec_arith OpRem word ip c = set_small_ok ip (decode_dest word) v c"
      using nz z by (simp add: arith_rem_def assms)
    then show ?thesis using delivers_set_small [of ip "decode_dest word" v c] by (simp only: v)
  qed
  show ?thesis
    using div rem z delivers_set_small [of ip "decode_dest word" "a + b" c]
      delivers_set_small [of ip "decode_dest word" "a - b" c]
      delivers_set_small [of ip "decode_dest word" "a * b" c]
      delivers_set_small [of ip "decode_dest word" "- a" c]
    by (simp add: arith_add_def arith_sub_def arith_mul_def arith_neg_def arith_div_def
        arith_rem_def assms src add sub mul neg)
qed

theorem small_arithmetic_witness:
  "delivers 5 0 (7 sdiv (- 2)) (set_x 2 (Term (i64_to_u64_bits (- 2)))
       (set_x 1 (Term (i64_to_u64_bits 7)) exec_context_new))
     (exec_arith OpDiv 8606711808 5
       (set_x 2 (Term (i64_to_u64_bits (- 2))) (set_x 1 (Term (i64_to_u64_bits 7)) exec_context_new)))"
proof -
  let ?w = "8606711808 :: u64"
  let ?c = "set_x 2 (Term (i64_to_u64_bits (- 2))) (set_x 1 (Term (i64_to_u64_bits 7)) exec_context_new)"
  have ok: "ctx_ok (set_x 1 (Term (i64_to_u64_bits 7)) exec_context_new)" by (intro inv_intro)
  have d: "decode_src ?w = 1" "decode_src2 ?w = 2" "decode_dest ?w = 0"
    by (simp_all add: decode_src_def decode_src2_def decode_dest_def)
  have "small_operands ?w ?c = Some (7, - 2)"
    using exec_context_new_ok ok
    by (simp add: small_operands_def d get_x_set_x is_small_int_iff)
  from small_arithmetic [OF this, of 5] show ?thesis by (simp add: d)
qed

text \<open>The two branches on values never branch: whatever the register holds, equal to the
  value or not, \<^verbatim>\<open>JumpOnVal\<close> skips one word, and so do the two selects.\<close>

theorem value_branches_ignore_value:
  "exec_jump OpJumpOnVal word ip c = step_ok ip (c\<lparr>ec_ip := ec_ip c + 1\<rparr>)
   \<and> exec_select OpSelectVal word ip c = exec_jump OpJumpOnVal word ip c
   \<and> exec_select OpSelectTupleArity word ip c = exec_jump OpJumpOnVal word ip c"
  by (simp add: Let_def split: option.splits)

text \<open>Raising transfers control: with a handler installed, each of the six raising
  instructions clears it, puts its own atom in the handler's register and continues at the
  handler; without one the step is an error and the context is unchanged.\<close>

theorem raise_to_handler:
  assumes "ctx_ok c" and "raising op = Some a"
  shows "case ec_exception_state c of
      None \<Rightarrow> dispatch op word code ip c = step_with ExecErr ip c
    | Some e \<Rightarrow> (\<exists>c'. dispatch op word code ip c = step_with ExecOk (es_handler e) c'
        \<and> ec_ip c' = es_handler e \<and> ec_exception_state c' = None \<and> ctx_ok c'
        \<and> (unat (es_reg e) < 64 \<longrightarrow> get_x c' (es_reg e) = from_atom a)
        \<and> (\<forall>r. r \<noteq> es_reg e \<longrightarrow> get_x c' r = get_x c r))"
proof (cases "ec_exception_state c")
  case None
  then have eq: "c\<lparr>ec_exception_state := None\<rparr> = c" by (cases c) simp
  show ?thesis
    unfolding dispatch_raising [OF assms(2)] raise_atom_def None option.case eq by (rule refl)
next
  case (Some e)
  let ?c0 = "c\<lparr>ec_exception_state := None\<rparr>"
  let ?c' = "(set_x (es_reg e) (from_atom a) ?c0)\<lparr>ec_ip := es_handler e\<rparr>"
  have ok: "ctx_ok ?c0" using assms(1) by simp
  have g: "get_x ?c' r = get_x (set_x (es_reg e) (from_atom a) ?c0) r" "get_x ?c0 r = get_x c r" for r
    by (simp_all add: get_x_def x_cell_def)
  have "dispatch op word code ip c = step_with ExecOk (es_handler e) ?c'"
    using Some by (simp add: dispatch_raising [OF assms(2)] raise_atom_def)
  moreover have "ctx_ok ?c'" using set_x_ok [OF ok] by simp
  ultimately show ?thesis
    unfolding Some option.case
    by (intro exI [of _ ?c']) (simp add: g get_x_set_x [OF ok])
qed

theorem raise_to_handler_witness:
  "\<exists>c'. dispatch (IError OpBadarg) 140 [140] 0
       (exec_context_new\<lparr>ec_exception_state :=
          Some \<lparr>es_reg = 3, es_handler = 9, es_stack_depth = 0, es_is_catch = True\<rparr>\<rparr>)
     = step_with ExecOk 9 c' \<and> get_x c' 3 = from_atom ATOM_BADARG"
proof -
  let ?c = "exec_context_new\<lparr>ec_exception_state :=
      Some \<lparr>es_reg = 3, es_handler = 9, es_stack_depth = 0, es_is_catch = True\<rparr>\<rparr>"
  have "ctx_ok ?c" using exec_context_new_ok by simp
  from raise_to_handler [OF this, of "IError OpBadarg" ATOM_BADARG 140 "[140]" 0]
  show ?thesis by auto
qed

text \<open>A receive times out: executing \<^verbatim>\<open>RecvWaitOp\<close> with no message arriving answers
  \<^verbatim>\<open>Wait\<close> exactly as many times as the timeout (once for a timeout of zero), and then continues
  with the receive closed and the atom \<^verbatim>\<open>false\<close>, index 0, in register 0.\<close>

theorem receive_times_out:
  fixes word :: u64
  assumes "ctx_ok c" and "ec_receive_state c = None"
  defines "t \<equiv> max 1 (unat (decode_dest word))"
  shows "fst (wait_again (Suc t) word ip c) = replicate t Wait @ [ExecOk]
    \<and> ec_receive_state (snd (wait_again (Suc t) word ip c)) = None
    \<and> get_x (snd (wait_again (Suc t) word ip c)) 0 = from_atom ATOM_FALSE"
proof -
  let ?st = "receive_state_new (decode_src word) (ucast (decode_dest word))"
  let ?c = "c\<lparr>ec_receive_state := Some ?st\<rparr>"
  have first: "exec_recv OpRecvWaitOp word ip c = step_with Wait ip ?c"
    by (simp add: recv_wait_def assms(2))
  obtain n where n: "t = Suc n" by (cases t) (auto simp: t_def)
  have "fst (wait_again (Suc n) word ip ?c) = replicate n Wait @ [ExecOk] \<and>
      ec_receive_state (snd (wait_again (Suc n) word ip ?c)) = None \<and>
      get_x (snd (wait_again (Suc n) word ip ?c)) 0 = from_atom ATOM_FALSE"
    by (rule wait_again_pending [where st = ?st])
      (use assms(1) n in \<open>simp_all add: receive_state_new_def t_def\<close>)
  then show ?thesis
    unfolding n wait_again.simps(2) [of "Suc n"] first step_with_def
    by (simp add: case_prod_beta Let_def del: wait_again.simps)
qed

theorem receive_times_out_witness:
  "fst (wait_again (Suc 3) 0x30071 0 exec_context_new) = [Wait, Wait, Wait, ExecOk]"
proof -
  have "max 1 (unat (decode_dest 0x30071)) = 3" by (simp add: decode_dest_def)
  then show ?thesis
    using receive_times_out [OF exec_context_new_ok, of "0x30071" 0]
    by (simp add: exec_context_new_def numeral_3_eq_3 del: wait_again.simps)
qed

end
