(* ===== verification/Map_Instr.thy ===== *)
theory Map_Instr
  imports Interp
begin

text \<open>
  The map instructions against their specification, finite maps of terms.  \<open>represents c t m\<close>
  says that in the heap of \<open>c\<close> the term \<open>t\<close> is a map object for \<open>m\<close>; the lemmas show that
  lookup, insertion, removal and size act on \<open>m\<close> as their names say, with one exception: an
  insertion at a key that is present leaves the map unchanged.
\<close>

section \<open>Map objects\<close>

definition map_header_word :: "nat \<Rightarrow> u64" where
  "map_header_word n = 6 OR push_bit 8 (of_nat (1 + n * 2))"

definition kv_words :: "(beam_term \<times> beam_term) list \<Rightarrow> u64 list" where
  "kv_words kvs = concat (map (\<lambda>(k, v). [term_raw k, term_raw v]) kvs)"

definition wf_map :: "process_heap \<Rightarrow> nat \<Rightarrow> (beam_term \<times> beam_term) list \<Rightarrow> bool" where
  "wf_map h p kvs \<longleftrightarrow>
     p + (1 + 2 * length kvs) \<le> hp h \<and> word_or_0 p h = map_header_word (length kvs) \<and>
     (\<forall>i<length kvs. word_or_0 (p + 1 + 2 * i) h = term_raw (fst (kvs ! i)) \<and>
                     word_or_0 (p + 2 + 2 * i) h = term_raw (snd (kvs ! i)))"

text \<open>Heaps small enough that every index fits the pointer bits of a term.\<close>

definition small_heap :: "process_heap \<Rightarrow> bool" where
  "small_heap h \<longleftrightarrow> heap_ok h \<and> hend h < 2 ^ 55"

lemma kv_words_length [simp]: "length (kv_words kvs) = 2 * length kvs"
  by (induction kvs) (auto simp: kv_words_def)

lemma kv_words_nth:
  "i < length kvs \<Longrightarrow> kv_words kvs ! (2 * i) = term_raw (fst (kvs ! i)) \<and>
     kv_words kvs ! Suc (2 * i) = term_raw (snd (kvs ! i))"
proof (induction kvs arbitrary: i)
  case Nil
  then show ?case by simp
next
  case (Cons kv kvs)
  have w: "kv_words (kv # kvs) = term_raw (fst kv) # term_raw (snd kv) # kv_words kvs"
    by (simp add: kv_words_def split: prod.splits)
  show ?case using Cons by (cases i) (auto simp: w)
qed

lemma get_word_heap: "heap_ok h \<Longrightarrow> i < hend h \<Longrightarrow> get_word h i = Some (word_or_0 i h)"
  by (simp add: get_word_def word_or_0_def)

lemma unat_small: "n < 2 ^ 61 \<Longrightarrow> unat (of_nat n :: u64) = n"
  by (rule unat_of_nat_u64) simp

lemma to_map_from_map: "p < 2 ^ 61 \<Longrightarrow> to_map (from_map (of_nat p)) = of_nat p"
  by (rule to_from_ptr_id) (simp add: unat_small)

lemma positions:
  assumes "p + 2 + 2 * i < 2 ^ 61"
  shows "key_pos (of_nat p) i = p + 1 + 2 * i" and "val_pos (of_nat p) i = p + 2 + 2 * i"
proof -
  have "key_pos (of_nat p) i = unat (of_nat (p + 1 + 2 * i) :: u64)"
    by (simp add: key_pos_def algebra_simps)
  then show "key_pos (of_nat p) i = p + 1 + 2 * i"
    using assms unat_small [of "p + 1 + 2 * i"] by simp
  have "val_pos (of_nat p) i = unat (of_nat (p + 2 + 2 * i) :: u64)"
    by (simp add: val_pos_def algebra_simps)
  then show "val_pos (of_nat p) i = p + 2 + 2 * i"
    using assms unat_small [of "p + 2 + 2 * i"] by simp
qed

lemma num_pairs_header: "n < 2 ^ 54 \<Longrightarrow> num_pairs_of (map_header_word n) = of_nat n"
proof -
  assume n: "n < 2 ^ 54"
  let ?y = "of_nat (1 + n * 2) :: u64"
  have uy: "unat ?y = 1 + n * 2" using n by (intro unat_of_nat_u64) simp
  have b: "bit ?y k \<Longrightarrow> k < 55" for k
    using small_bits [of ?y 55 k] uy n by simp
  have "drop_bit 8 (map_header_word n) = ?y"
  proof (rule bit_word_eqI)
    fix k assume "k < LENGTH(64)"
    have "bit (6 :: u64) (8 + k) = False" using small_bits [of "6 :: u64" 3 "8 + k"] by auto
    then show "bit (drop_bit 8 (map_header_word n)) k = bit ?y k"
      using b [of k] unfolding map_header_word_def
      by (auto simp del: of_nat_add of_nat_mult simp: bit_simps)
  qed
  then have "num_pairs_of (map_header_word n) = of_nat (n * 2) div 2"
    by (simp add: num_pairs_of_def)
  also have "\<dots> = of_nat n"
  proof -
    have "unat (of_nat (n * 2) :: u64) = n * 2" "unat (of_nat n :: u64) = n"
      using n by (intro unat_of_nat_u64; simp)+
    then show ?thesis by (simp add: word_unat_eq_iff unat_div)
  qed
  finally show ?thesis .
qed

lemma wf_map_bound: "small_heap h \<Longrightarrow> wf_map h p kvs \<Longrightarrow> p + (1 + 2 * length kvs) \<le> hend h \<and> hend h < 2 ^ 55"
  by (auto simp: small_heap_def heap_ok_def wf_map_def)

lemma wf_map_words:
  assumes "small_heap h" and "wf_map h p kvs" and "i < length kvs"
  shows "get_word h (key_pos (of_nat p) i) = Some (term_raw (fst (kvs ! i)))"
    and "get_word h (val_pos (of_nat p) i) = Some (term_raw (snd (kvs ! i)))"
    and "word_or_0 (val_pos (of_nat p) i) h = term_raw (snd (kvs ! i))"
proof -
  note b = wf_map_bound [OF assms(1,2)]
  have pos: "key_pos (of_nat p) i = p + 1 + 2 * i" "val_pos (of_nat p) i = p + 2 + 2 * i"
    by (rule positions; use b assms(3) in simp)+
  show "get_word h (key_pos (of_nat p) i) = Some (term_raw (fst (kvs ! i)))"
    and "get_word h (val_pos (of_nat p) i) = Some (term_raw (snd (kvs ! i)))"
    and "word_or_0 (val_pos (of_nat p) i) h = term_raw (snd (kvs ! i))"
    unfolding pos using assms b
    by (simp_all add: get_word_heap small_heap_def wf_map_def)
qed

lemma pairs_at_wf:
  assumes "small_heap h" and "wf_map h p kvs"
  shows "pairs_at h (of_nat p) (length kvs) = kvs"
proof -
  have "concat (map (\<lambda>i. case get_word h (key_pos (of_nat p) i) of
            Some k \<Rightarrow> [(Term k, Term (word_or_0 (val_pos (of_nat p) i) h))] | None \<Rightarrow> []) [0..<length kvs])
      = concat (map (\<lambda>i. [kvs ! i]) [0..<length kvs])"
    by (rule arg_cong [where f = concat], rule map_cong)
      (auto simp: wf_map_words [OF assms])
  also have "\<dots> = kvs" by (simp add: map_nth concat_map_singleton)
  finally show ?thesis by (simp add: pairs_at_def)
qed

lemma header_word:
  "small_heap h \<Longrightarrow> wf_map h p kvs \<Longrightarrow> get_word h p = Some (map_header_word (length kvs))"
  using wf_map_bound [of h p kvs] by (simp add: get_word_heap small_heap_def wf_map_def)

lemma read_map_pairs_wf:
  assumes "small_heap h" and "wf_map h p kvs" and "ec_heap c = Some h"
  shows "read_map_pairs (from_map (of_nat p)) c = Ok (Some kvs)"
proof -
  note b = wf_map_bound [OF assms(1,2)]
  have n: "length kvs < 2 ^ 54" using b by simp
  have p: "to_map (from_map (of_nat p)) = of_nat p" "unat (of_nat p :: u64) = p"
    using b by (simp_all add: to_map_from_map unat_small)
  have u: "unat (of_nat (length kvs) :: u64) = length kvs" using b by (simp add: unat_small)
  show ?thesis
    using assms(3) n by (simp add: read_map_pairs_def is_map_def p header_word [OF assms(1,2)]
        num_pairs_header [OF n] u pairs_at_wf [OF assms(1,2)])
qed

lemma map_search_wf:
  assumes "small_heap h" and "wf_map h p kvs"
  shows "i + n = length kvs \<Longrightarrow> map_search h (of_nat p) key n i = map_of (drop i kvs) key"
proof (induction n arbitrary: i)
  case 0
  then show ?case by simp
next
  case (Suc n)
  then have i: "i < length kvs" by simp
  note w = wf_map_words [OF assms i]
  have "drop i kvs = (fst (kvs ! i), snd (kvs ! i)) # drop (Suc i) kvs"
    using i by (simp add: Cons_nth_drop_Suc)
  then show ?case using Suc.IH [of "Suc i"] Suc.prems by (auto simp: w)
qed

section \<open>Building maps\<close>

lemma write_map_pair_heap:
  "ec_heap c = Some h \<Longrightarrow>
   write_map_pair p i k v c = c\<lparr>ec_heap := Some (write_words (p + 1 + 2 * i) [term_raw k, term_raw v] h)\<rparr>"
  by (simp add: write_map_pair_def heap_set_word_def mult.commute)

lemma write_pairs_from:
  "ec_heap c = Some h \<Longrightarrow>
   for_enum_from j (\<lambda>i (k, v). write_map_pair p i k v) kvs c
     = c\<lparr>ec_heap := Some (write_words (p + 1 + 2 * j) (kv_words kvs) h)\<rparr>"
proof (induction kvs arbitrary: j c h)
  case Nil
  then show ?case by (cases c) (simp add: kv_words_def)
next
  case (Cons kv kvs)
  obtain k v where kv: "kv = (k, v)" by force
  have w: "kv_words ((k, v) # kvs) = [term_raw k, term_raw v] @ kv_words kvs"
    by (simp add: kv_words_def)
  show ?case
    using Cons.IH [of "write_map_pair p j k v c" _ "Suc j"] Cons.prems
    by (simp add: kv w write_map_pair_heap)
qed

lemma write_pairs_heap:
  "ec_heap c = Some h \<Longrightarrow>
   write_pairs p kvs c = c\<lparr>ec_heap := Some (write_words (Suc p) (kv_words kvs) h)\<rparr>"
  using write_pairs_from [of c h 0] by (simp add: write_pairs_def)

lemma write_pairs_snoc:
  "write_map_pair p (length kvs) k v (write_pairs p kvs c) = write_pairs p (kvs @ [(k, v)]) c"
proof -
  have "for_enum_from j f (kvs @ [(k, v)]) c = f (j + length kvs) (k, v) (for_enum_from j f kvs c)"
    for j f and c :: exec_context
    by (induction kvs arbitrary: j c) auto
  then show ?thesis by (simp add: write_pairs_def)
qed

lemma built_wf_map:
  assumes "built h (map_header_word (length kvs) # kv_words kvs) (1 + 2 * length kvs) p h'"
  shows "wf_map h' p kvs"
proof -
  let ?ws = "map_header_word (length kvs) # kv_words kvs"
  have "word_or_0 (p + (1 + 2 * i)) h' = term_raw (fst (kvs ! i)) \<and>
        word_or_0 (p + (2 + 2 * i)) h' = term_raw (snd (kvs ! i))" if i: "i < length kvs" for i
    using built_nth [OF assms, of "1 + 2 * i"] built_nth [OF assms, of "2 + 2 * i"] i
      kv_words_nth [OF i] by simp
  moreover have "p + (1 + 2 * length kvs) \<le> hp h'"
    using assms unfolding built_def by simp
  ultimately show ?thesis
    using built_0 [OF assms] by (simp add: wf_map_def add.assoc)
qed

lemma built_keeps_map:
  assumes "built h ws n p h'" and "wf_map h q kvs"
  shows "wf_map h' q kvs"
proof -
  have "p = hp h" and "hp h' = hp h + n" and same: "\<And>j. j < hp h \<Longrightarrow> word_or_0 j h' = word_or_0 j h"
    using assms(1) unfolding built_def by auto
  then show ?thesis using assms(2) by (simp add: wf_map_def)
qed

text \<open>A new map object: the term, the pairs, and the objects that were there before.\<close>

lemma with_new_map_built:
  assumes "ec_heap c = Some h" and "heap_ok h" and "can_alloc (1 + 2 * length kvs) h"
    and body: "\<And>p d. body p d = write_pairs p kvs d"
  obtains h' where "with_new_map ip dest (length kvs) body c
      = step_ok ip (set_x dest (from_map (of_nat (hp h))) (c\<lparr>ec_heap := Some h'\<rparr>))"
    and "built h (map_header_word (length kvs) # kv_words kvs) (1 + 2 * length kvs) (hp h) h'"
  | "\<not> hp h < 2 ^ 61"
proof (cases "hp h < 2 ^ 61")
  case True
  obtain h1 where al: "alloc (1 + 2 * length kvs) h = (Some (hp h), h1)"
    using assms(3) by (auto simp: alloc_def can_alloc_def)
  then have h1: "alloc (1 + length kvs * 2) h = (Some (hp h), h1)" by (simp add: mult.commute)
  let ?c1 = "c\<lparr>ec_heap := Some (set_word (hp h) (map_header_word (length kvs)) h1)\<rparr>"
  have "ctx_alloc_map (length kvs) c = (Some (from_map (of_nat (hp h))), ?c1)"
    using assms(1) h1 by (simp add: ctx_alloc_map_def heap_alloc_def heap_set_word_def
        map_header_word_def del: of_nat_Suc of_nat_add)
  then have "with_new_map ip dest (length kvs) body c = step_ok ip
      (set_x dest (from_map (of_nat (hp h)))
        (c\<lparr>ec_heap := Some (write_words (hp h) (map_header_word (length kvs) # kv_words kvs) h1)\<rparr>))"
    using True by (simp add: with_new_map_def body to_map_from_map unat_small write_pairs_heap)
  then show thesis
    by (rule that(1)) (rule built_write [OF al assms(2)], simp)
qed (rule that(2))

section \<open>The specification\<close>

definition represents :: "exec_context \<Rightarrow> beam_term \<Rightarrow> (beam_term \<rightharpoonup> beam_term) \<Rightarrow> bool" where
  "represents c t m \<longleftrightarrow>
     (\<exists>h p kvs. ec_heap c = Some h \<and> small_heap h \<and> t = from_map (of_nat p) \<and> wf_map h p kvs \<and>
        distinct (map fst kvs) \<and> map_of kvs = m)"

lemma representsE:
  assumes "represents c t m" and "ec_heap c = Some h"
  obtains p kvs where "small_heap h" "t = from_map (of_nat p)" "wf_map h p kvs"
    "distinct (map fst kvs)" "map_of kvs = m" "card (dom m) = length kvs"
proof -
  from assms obtain p kvs where kvs: "small_heap h" "t = from_map (of_nat p)" "wf_map h p kvs"
    "distinct (map fst kvs)" "map_of kvs = m" by (auto simp: represents_def)
  moreover have "card (dom m) = length kvs"
    using distinct_card [OF kvs(4)] kvs(5) by (auto simp: dom_map_of_conv_image_fst)
  ultimately show thesis by (rule that)
qed

lemma position_of_take_drop:
  "position_of key kvs = Some i \<Longrightarrow> distinct (map fst kvs) \<Longrightarrow>
   i < length kvs \<and> fst (kvs ! i) = key \<and>
   map_of (take i kvs @ drop (Suc i) kvs) = (map_of kvs)(key := None) \<and>
   distinct (map fst (take i kvs @ drop (Suc i) kvs))"
proof (induction key kvs arbitrary: i rule: position_of.induct)
  case (1 key)
  then show ?case by simp
next
  case (2 key k v kvs)
  show ?case
  proof (cases "k = key")
    case True
    then have "key \<notin> dom (map_of kvs)"
      using 2(3) by (auto simp: dom_map_of_conv_image_fst)
    then have "map_of kvs key = None" by (auto simp: domIff)
    then have "(map_of ((k, v) # kvs))(key := None) = map_of kvs"
      using True by (auto simp: fun_eq_iff)
    then show ?thesis using True 2(2,3) by (auto simp del: map_of.simps)
  next
    case False
    then obtain j where j: "position_of key kvs = Some j" "i = Suc j" using 2(2) by auto
    with 2(1) [OF False j(1)] 2(3) False
    have "j < length kvs" "fst (kvs ! j) = key"
      "map_of (take j kvs @ drop (Suc j) kvs) = (map_of kvs)(key := None)"
      "distinct (map fst (take j kvs @ drop (Suc j) kvs))" by auto
    moreover have "set (take j kvs @ drop (Suc j) kvs) \<subseteq> set kvs"
      by (auto dest: in_set_takeD in_set_dropD)
    then have "k \<notin> fst ` set (take j kvs @ drop (Suc j) kvs)" using 2(3) by auto
    ultimately show ?thesis using j(2) False by (auto simp: fun_upd_twist)
  qed
qed

lemma position_of_None: "position_of key kvs = None \<longleftrightarrow> key \<notin> dom (map_of kvs)"
  by (induction key kvs rule: position_of.induct) auto

text \<open>The result of an instruction that builds a new map for \<open>kvs\<close>.\<close>

lemma new_map_represents:
  assumes "ctx_ok c" and "ec_heap c = Some h" and "small_heap h"
    and room: "can_alloc (1 + 2 * length kvs) h" and dist: "distinct (map fst kvs)"
    and body: "\<And>p d. body p d = write_pairs p kvs d" and dest: "unat dest < 64"
  shows "\<exists>c'. with_new_map ip dest (length kvs) body c = step_ok ip c' \<and>
     represents c' (get_x c' dest) (map_of kvs) \<and>
     (\<forall>t m. represents c t m \<longrightarrow> represents c' t m) \<and>
     (\<forall>r. r \<noteq> dest \<longrightarrow> get_x c' r = get_x c r)"
proof -
  have hok: "heap_ok h" and hb: "hp h < 2 ^ 61" "hend h < 2 ^ 55"
    using assms(3) by (auto simp: small_heap_def heap_ok_def)
  from with_new_map_built [OF assms(2) hok room body, of ip dest] hb(1)
  obtain h' where run: "with_new_map ip dest (length kvs) body c
      = step_ok ip (set_x dest (from_map (of_nat (hp h))) (c\<lparr>ec_heap := Some h'\<rparr>))"
    and b: "built h (map_header_word (length kvs) # kv_words kvs) (1 + 2 * length kvs) (hp h) h'"
    by blast
  let ?c0 = "c\<lparr>ec_heap := Some h'\<rparr>"
  let ?c' = "set_x dest (from_map (of_nat (hp h))) ?c0"
  have small': "small_heap h'" using b hb(2) unfolding built_def small_heap_def by simp
  have ok0: "ctx_ok ?c0" using assms(1) small' by (simp add: ctx_ok_def small_heap_def)
  have g: "get_x ?c0 r = get_x c r" for r by (simp add: get_x_def x_cell_def)
  have "represents ?c' (from_map (of_nat (hp h))) (map_of kvs)"
    unfolding represents_def using small' built_wf_map [OF b] dist by auto
  moreover have "represents ?c' t m" if "represents c t m" for t m
    using that assms(2) built_keeps_map [OF b] small' unfolding represents_def by auto
  ultimately show ?thesis
    using run dest by (intro exI [of _ ?c']) (simp add: get_x_set_x [OF ok0] g)
qed

lemma set_small_count:
  "n < 2 ^ 54 \<Longrightarrow> set_small_ok ip dest (of_nat n) c = step_ok ip (set_x dest (Term (i64_to_u64_bits (of_nat n))) c)"
proof -
  assume n: "n < 2 ^ 54"
  have "sint (of_nat n :: i64) = int n"
    using n by (simp add: signed_of_nat signed_take_bit_int_eq_self)
  then show ?thesis using n by (simp add: set_small_ok_def from_small_def is_small_int_iff)
qed

section \<open>The instructions on a map object\<close>

text \<open>\<open>map_operand c h word kvs\<close>: the first operand of the instruction is a map object with
  the pairs \<open>kvs\<close>.\<close>

definition map_operand ::
  "exec_context \<Rightarrow> process_heap \<Rightarrow> u64 \<Rightarrow> (beam_term \<times> beam_term) list \<Rightarrow> bool" where
  "map_operand c h word kvs \<longleftrightarrow>
     ctx_ok c \<and> ec_heap c = Some h \<and> small_heap h \<and> distinct (map fst kvs) \<and>
     (\<exists>p. get_x c (decode_src word) = from_map (of_nat p) \<and> wf_map h p kvs)"

definition yields_map ::
  "u64 \<Rightarrow> u32 \<Rightarrow> exec_context \<Rightarrow> (beam_term \<rightharpoonup> beam_term) \<Rightarrow> exec_out \<Rightarrow> bool" where
  "yields_map ip dest c m out \<longleftrightarrow>
     (\<exists>c'. out = step_ok ip c' \<and> represents c' (get_x c' dest) m \<and>
        (\<forall>t n. represents c t n \<longrightarrow> represents c' t n))"

lemma new_map_yields:
  assumes "map_operand c h word kvs" and "can_alloc (1 + 2 * length kvs') h"
    and "distinct (map fst kvs')" and "unat dest < 64" and "\<And>p d. body p d = write_pairs p kvs' d"
  shows "yields_map ip dest c (map_of kvs') (with_new_map ip dest (length kvs') body c)"
  using new_map_represents [of c h kvs' body dest ip] assms
  unfolding map_operand_def yields_map_def by blast

lemma map_operand_reads:
  assumes "map_operand c h word kvs"
  shows "read_map_pairs (get_x c (decode_src word)) c = Ok (Some kvs)" and "length kvs < 2 ^ 54"
  using assms read_map_pairs_wf [of h _ kvs c] wf_map_bound [of h _ kvs]
  by (fastforce simp: map_operand_def)+

lemma map_get_operand:
  assumes "map_operand c h word kvs"
  shows "map_get word ip c = step_ok ip (set_x (decode_dest word)
     (case map_of kvs (get_x c (decode_src2 word)) of Some v \<Rightarrow> v | None \<Rightarrow> from_atom ATOM_UNDEFINED) c)"
    and "map_size_instr word ip c =
     step_ok ip (set_x (decode_dest word) (Term (i64_to_u64_bits (of_nat (length kvs)))) c)"
proof -
  from assms obtain p where h: "ec_heap c = Some h" "small_heap h" "wf_map h p kvs"
    and t: "get_x c (decode_src word) = from_map (of_nat p)"
    by (auto simp: map_operand_def)
  note b = wf_map_bound [OF h(2,3)]
  note n = map_operand_reads(2) [OF assms]
  have p: "to_map (from_map (of_nat p)) = of_nat p" "unat (of_nat p :: u64) = p"
    "unat (of_nat (length kvs) :: u64) = length kvs"
    using b by (simp_all add: to_map_from_map unat_small)
  show "map_get word ip c = step_ok ip (set_x (decode_dest word)
     (case map_of kvs (get_x c (decode_src2 word)) of Some v \<Rightarrow> v | None \<Rightarrow> from_atom ATOM_UNDEFINED) c)"
    using map_search_wf [OF h(2,3), of 0 "length kvs"]
    by (simp add: map_get_def h(1) t is_map_def p header_word [OF h(2,3)] num_pairs_header [OF n])
  show "map_size_instr word ip c =
     step_ok ip (set_x (decode_dest word) (Term (i64_to_u64_bits (of_nat (length kvs)))) c)"
    by (simp add: map_size_instr_def h(1) t is_map_def p header_word [OF h(2,3)]
        num_pairs_header [OF n] set_small_count [OF n])
qed

lemma map_remove_operand:
  assumes "map_operand c h word kvs" and "can_alloc (1 + 2 * length kvs) h"
    and "unat (decode_dest word) < 64"
  shows "yields_map ip (decode_dest word) c ((map_of kvs)(get_x c (decode_src2 word) := None))
    (map_remove word ip c)"
proof (cases "position_of (get_x c (decode_src2 word)) kvs")
  case None
  then have "(map_of kvs)(get_x c (decode_src2 word) := None) = map_of kvs"
    by (auto simp: position_of_None domIff)
  then show ?thesis
    using None new_map_yields [OF assms(1,2) _ assms(3), of "\<lambda>p. write_pairs p kvs" ip] assms(1)
    by (simp add: map_remove_def map_operand_reads [OF assms(1)] map_operand_def)
next
  case (Some i)
  let ?kvs = "take i kvs @ drop (Suc i) kvs"
  have d: "distinct (map fst kvs)" using assms(1) by (simp add: map_operand_def)
  note pos = position_of_take_drop [OF Some d]
  then have len: "length ?kvs = length kvs - 1" by auto
  then have "can_alloc (1 + 2 * length ?kvs) h" using assms(2) by (simp add: can_alloc_def)
  from new_map_yields [OF assms(1) this _ assms(3), of "\<lambda>p. write_pairs p ?kvs" ip]
  show ?thesis
    using Some pos len by (simp add: map_remove_def map_operand_reads [OF assms(1)])
qed

lemma map_put_operand:
  assumes "map_operand c h word kvs" and "can_alloc (3 + 2 * length kvs) h"
    and "unat (decode_dest word) < 64"
  defines "key \<equiv> get_x c (decode_src2 word)"
    and "val \<equiv> get_x c (ucast (drop_bit 40 word AND 0xFF))"
  shows "yields_map ip (decode_dest word) c
    (if key \<in> dom (map_of kvs) then map_of kvs else (map_of kvs)(key \<mapsto> val)) (map_put word ip c)"
proof -
  have d: "distinct (map fst kvs)" using assms(1) by (simp add: map_operand_def)
  note rd = map_operand_reads [OF assms(1)]
  show ?thesis
  proof (cases "key \<in> dom (map_of kvs)")
    case True
    then have "list_ex (\<lambda>(k, _). k = key) kvs" by (auto simp: list_ex_iff dest: map_of_SomeD)
    moreover have "can_alloc (1 + 2 * length kvs) h" using assms(2) by (simp add: can_alloc_def)
    ultimately show ?thesis
      using True d new_map_yields [OF assms(1) _ _ assms(3), of kvs "\<lambda>p. write_pairs p kvs" ip]
      by (simp add: map_put_def rd key_def)
  next
    case False
    let ?kvs = "kvs @ [(key, val)]"
    have fresh: "key \<notin> fst ` set kvs" using False unfolding dom_map_of_conv_image_fst .
    then have "\<not> list_ex (\<lambda>(k, _). k = key) kvs" by (force simp: list_ex_iff)
    then have put: "map_put word ip c = with_new_map ip (decode_dest word) (length ?kvs)
        (\<lambda>p d. write_map_pair p (length kvs) key val (write_pairs p kvs d)) c"
      by (simp add: map_put_def rd key_def val_def)
    have upd: "map_of ?kvs = (map_of kvs)(key \<mapsto> val)"
      using False by (auto simp: map_add_def fun_eq_iff split: option.splits)
    have "can_alloc (1 + 2 * length ?kvs) h" "distinct (map fst ?kvs)"
      using assms(2) fresh d by (auto simp: can_alloc_def)
    from new_map_yields [OF assms(1) this assms(3), where ip = ip and
        body = "\<lambda>p d. write_map_pair p (length kvs) key val (write_pairs p kvs d)"]
    show ?thesis using False unfolding put upd by (simp add: write_pairs_snoc)
  qed
qed

section \<open>Properties\<close>

text \<open>C11. The map instructions act on the finite map their operand stands for: \<^verbatim>\<open>MapGet\<close>
  delivers the value at the key or the atom \<^verbatim>\<open>undefined\<close>, \<^verbatim>\<open>MapSize\<close> the number of keys,
  \<^verbatim>\<open>MapRemove\<close> builds the map without the key, and \<^verbatim>\<open>MapPut\<close> builds the map with the new
  binding when the key is absent; when the key is present \<^verbatim>\<open>MapPut\<close> returns a copy with the
  old value.  Every map that existed before still stands for the same finite map.\<close>

theorem map_instructions_refine:
  assumes "ctx_ok c" and "ec_heap c = Some h"
    and "represents c (get_x c (decode_src word)) m"
    and "can_alloc (3 + 2 * card (dom m)) h" and "unat (decode_dest word) < 64"
  defines "key \<equiv> get_x c (decode_src2 word)"
    and "val \<equiv> get_x c (ucast (drop_bit 40 word AND 0xFF))"
    and "dest \<equiv> decode_dest word"
  shows "exec_map OpMapGet word ip c = step_ok ip
           (set_x dest (case m key of Some v \<Rightarrow> v | None \<Rightarrow> from_atom ATOM_UNDEFINED) c)
    \<and> exec_map OpMapSize word ip c =
         step_ok ip (set_x dest (Term (i64_to_u64_bits (of_nat (card (dom m))))) c)
    \<and> yields_map ip dest c (m(key := None)) (exec_map OpMapRemove word ip c)
    \<and> yields_map ip dest c (if key \<in> dom m then m else m(key \<mapsto> val))
         (exec_map OpMapPut word ip c)"
proof -
  obtain p kvs where kvs: "small_heap h" "get_x c (decode_src word) = from_map (of_nat p)"
    "wf_map h p kvs" "distinct (map fst kvs)" "map_of kvs = m" "card (dom m) = length kvs"
    using representsE [OF assms(3,2)] by blast
  then have op: "map_operand c h word kvs"
    using assms(1,2) by (auto simp: map_operand_def)
  have "can_alloc (1 + 2 * length kvs) h" "can_alloc (3 + 2 * length kvs) h"
    using assms(4) kvs(6) by (auto simp: can_alloc_def)
  then show ?thesis
    using map_get_operand [OF op, of ip] map_remove_operand [OF op _ assms(5), of ip]
      map_put_operand [OF op _ assms(5), of ip] kvs(6)
    unfolding key_def val_def dest_def kvs(5) by simp
qed

theorem map_instructions_refine_witness:
  "\<exists>c. yields_map 0 2 c [from_atom 4 \<mapsto> from_atom 9] (exec_map OpMapPut 4410948321280 0 c)"
proof -
  let ?h = "(heap_new (heap_config_default\<lparr>initial_size := 16\<rparr>))\<lparr>from_space := 262 # replicate 15 0, hp := 1\<rparr>"
  let ?c = "set_x 4 (from_atom 9) (set_x 3 (from_atom 4) (set_x 1 (from_map (of_nat 0))
    (exec_context_new\<lparr>ec_heap := Some ?h\<rparr>)))"
  have h: "small_heap ?h" "can_alloc 3 ?h"
    by (simp_all add: small_heap_def heap_ok_def can_alloc_def heap_new_def)
  have wf: "wf_map ?h 0 []"
    by (simp add: wf_map_def map_header_word_def word_or_0_def get_word_def active_buffer_def
        heap_new_def)
  have ok0: "ctx_ok (exec_context_new\<lparr>ec_heap := Some ?h\<rparr>)"
    using exec_context_new_ok h(1) by (simp add: ctx_ok_def small_heap_def exec_context_new_def)
  have ok: "ctx_ok ?c" "ctx_ok (set_x 1 (from_map (of_nat 0)) (exec_context_new\<lparr>ec_heap := Some ?h\<rparr>))"
    "ctx_ok (set_x 3 (from_atom 4) (set_x 1 (from_map (of_nat 0)) (exec_context_new\<lparr>ec_heap := Some ?h\<rparr>)))"
    by (intro inv_intro ok0)+
  have d: "decode_src 4410948321280 = 1" "decode_src2 4410948321280 = 3" "decode_dest 4410948321280 = 2"
    "(ucast (drop_bit 40 (4410948321280 :: u64) AND 0xFF) :: u32) = 4"
    by (simp_all add: decode_src_def decode_src2_def decode_dest_def)
  have g: "get_x ?c 1 = from_map (of_nat 0)" "get_x ?c 3 = from_atom 4" "get_x ?c 4 = from_atom 9"
    using ok ok0 by (simp_all add: get_x_set_x)
  have hp: "ec_heap ?c = Some ?h" by simp
  have "represents ?c (get_x ?c (decode_src 4410948321280)) Map.empty"
    unfolding represents_def d g using h(1) wf hp by fastforce
  from map_instructions_refine [OF ok(1) hp this, where ip = 0] h(2)
  have "yields_map 0 2 ?c [from_atom 4 \<mapsto> from_atom 9] (exec_map OpMapPut 4410948321280 0 ?c)"
    unfolding d g by simp
  then show ?thesis by blast
qed

end
