(* ===== verification/Core.thy ===== *)
theory Core
  imports Terms
begin

text \<open>
  The foundation layer (\<^verbatim>\<open>crates/chimera_erlang_beam_core/src/lib.rs\<close>): the error type
  of the virtual machine, the runtime configuration with its builder, node identifiers, pid
  metadata, exit reasons and the reduction budget of a scheduler slice.
\<close>

section \<open>Errors\<close>

datatype dist_error_kind =
    ConnectionFailed
  | HandshakeFailed
  | AuthenticationFailed
  | InvalidPacket
  | DistTimeout
  | EpmdError

datatype load_error_kind =
    FileNotFound
  | InvalidFormat
  | TruncatedChunk
  | NoCodeFound
  | ImportError
  | ExportError

datatype vm_error =
    ProcessNotFound
  | InvalidPid
  | ProcessExited u64
  | HeapExhausted
  | AtomTableFull
  | InvalidTerm
  | BinaryError
  | DistError dist_error_kind
  | LoadError load_error_kind
  | SchedulerError
  | Timeout
  | BadArg
  | Unimplemented
  | IoError string
  | Generic string

type_synonym 'a vm_result = "vm_error + 'a"

section \<open>Nodes and pids\<close>

record node_id =
  nd_name :: string
  nd_creation :: u32

definition node_id_new :: "string \<Rightarrow> node_id" where
  "node_id_new n = \<lparr>nd_name = n, nd_creation = 0\<rparr>"

definition node_id_with_creation :: "string \<Rightarrow> u32 \<Rightarrow> node_id" where
  "node_id_with_creation n c = \<lparr>nd_name = n, nd_creation = c\<rparr>"

record pid_meta =
  pm_id :: u32
  pm_serial :: u32
  pm_creation :: u32

definition pid_meta_new :: "u32 \<Rightarrow> u32 \<Rightarrow> u32 \<Rightarrow> pid_meta" where
  "pid_meta_new i s c = \<lparr>pm_id = i, pm_serial = s, pm_creation = c\<rparr>"

definition pid_meta_is_local :: "pid_meta \<Rightarrow> bool" where
  "pid_meta_is_local p = True"

section \<open>Configuration\<close>

definition CORE_DEFAULT_REDUCTION_BUDGET :: u64 where "CORE_DEFAULT_REDUCTION_BUDGET = 2000"
definition MAX_ATOM_CACHE_ENTRIES :: nat where "MAX_ATOM_CACHE_ENTRIES = 256"
definition DEFAULT_HEAP_SIZE :: nat where "DEFAULT_HEAP_SIZE = 8192"
definition DEFAULT_MAX_MESSAGE_QUEUE_LEN :: nat where "DEFAULT_MAX_MESSAGE_QUEUE_LEN = 1000"

record runtime_config =
  rc_node_name :: string
  rc_creation :: u32
  rc_schedulers :: u32
  rc_dirty_cpu_schedulers :: u32
  rc_dirty_io_schedulers :: u32
  rc_heap_size :: nat
  rc_max_message_queue_len :: nat
  rc_reduction_budget :: u64
  rc_atom_cache_enabled :: bool
  rc_atom_cache_size :: nat

definition runtime_config_default :: runtime_config where
  "runtime_config_default =
     \<lparr>rc_node_name = ''rustzigbeam@localhost'', rc_creation = 0, rc_schedulers = 1,
      rc_dirty_cpu_schedulers = 2, rc_dirty_io_schedulers = 2,
      rc_heap_size = DEFAULT_HEAP_SIZE,
      rc_max_message_queue_len = DEFAULT_MAX_MESSAGE_QUEUE_LEN,
      rc_reduction_budget = CORE_DEFAULT_REDUCTION_BUDGET,
      rc_atom_cache_enabled = True, rc_atom_cache_size = MAX_ATOM_CACHE_ENTRIES\<rparr>"

definition runtime_config_new :: "string \<Rightarrow> runtime_config" where
  "runtime_config_new n = runtime_config_default\<lparr>rc_node_name := n\<rparr>"

definition with_schedulers :: "u32 \<Rightarrow> runtime_config \<Rightarrow> runtime_config" where
  "with_schedulers n c = c\<lparr>rc_schedulers := n\<rparr>"

definition with_heap_size :: "nat \<Rightarrow> runtime_config \<Rightarrow> runtime_config" where
  "with_heap_size n c = c\<lparr>rc_heap_size := n\<rparr>"

section \<open>Exit reasons\<close>

datatype exit_reason =
    RNormal
  | RKilled
  | RBadArg
  | RSystemLimit
  | RUserDefined u64

fun exit_reason_to_term :: "exit_reason \<Rightarrow> u64" where
  "exit_reason_to_term RNormal = 0"
| "exit_reason_to_term RKilled = 0"
| "exit_reason_to_term RBadArg = 0"
| "exit_reason_to_term RSystemLimit = 0"
| "exit_reason_to_term (RUserDefined t) = t"

section \<open>Reduction budgets\<close>

record reduction_budget =
  rb_budget :: u64
  rb_initial :: u64

definition reduction_budget_new :: "u64 \<Rightarrow> reduction_budget" where
  "reduction_budget_new b = \<lparr>rb_budget = b, rb_initial = b\<rparr>"

definition saturating_sub :: "'a::len word \<Rightarrow> 'a word \<Rightarrow> 'a word" where
  "saturating_sub a b = (if b \<le> a then a - b else 0)"

definition budget_decrement :: "u64 \<Rightarrow> reduction_budget \<Rightarrow> reduction_budget" where
  "budget_decrement n b = b\<lparr>rb_budget := saturating_sub (rb_budget b) n\<rparr>"

definition budget_is_exhausted :: "reduction_budget \<Rightarrow> bool" where
  "budget_is_exhausted b \<longleftrightarrow> rb_budget b = 0"

definition budget_reset :: "reduction_budget \<Rightarrow> reduction_budget" where
  "budget_reset b = b\<lparr>rb_budget := rb_initial b\<rparr>"

definition reduction_budget_default :: reduction_budget where
  "reduction_budget_default = reduction_budget_new CORE_DEFAULT_REDUCTION_BUDGET"

lemma unat_saturating_sub: "unat (saturating_sub a b) = unat a - unat b"
  by (simp add: saturating_sub_def unat_sub word_le_nat_alt)

lemma budget_decrements:
  "unat (rb_budget (fold budget_decrement ns b)) = unat (rb_budget b) - sum_list (map unat ns)"
  by (induction ns arbitrary: b) (simp_all add: budget_decrement_def unat_saturating_sub)

lemma budget_decrements_initial: "rb_initial (fold budget_decrement ns b) = rb_initial b"
  by (induction ns arbitrary: b) (simp_all add: budget_decrement_def)

section \<open>Properties\<close>

text \<open>A reduction budget is spent by exactly what it is charged: after any sequence of
  decrements it is exhausted if and only if the charges, added up without wrap-around, reach
  the initial budget, and a reset gives the full budget back.\<close>

theorem reduction_budget_spent:
  "(budget_is_exhausted (fold budget_decrement ns (reduction_budget_new n))
     \<longleftrightarrow> unat n \<le> sum_list (map unat ns))
   \<and> budget_reset (fold budget_decrement ns (reduction_budget_new n)) = reduction_budget_new n"
proof -
  let ?b = "fold budget_decrement ns (reduction_budget_new n)"
  have "unat (rb_budget ?b) = unat n - sum_list (map unat ns)"
    by (simp add: budget_decrements reduction_budget_new_def)
  then have "budget_is_exhausted ?b \<longleftrightarrow> unat n \<le> sum_list (map unat ns)"
    by (metis budget_is_exhausted_def diff_is_0_eq unat_eq_zero)
  moreover have "budget_reset ?b = reduction_budget_new n"
    by (rule reduction_budget.equality)
      (simp_all add: budget_reset_def budget_decrements_initial reduction_budget_new_def)
  ultimately show ?thesis by blast
qed

end
