(* ===== verification/Atom_Table.thy ===== *)
theory Atom_Table
  imports Terms "HOL-Library.AList"
begin

text \<open>
  The atom table (\<^verbatim>\<open>crates/chimera_erlang_beam_term/src/atom.rs\<close>).

  The two hash maps are finite maps and the three locks are the table itself:
  \<^verbatim>\<open>intern\<close> holds the read lock for its first look-up and the write locks for the
  rest, so it is the composition of two atomic steps, \<open>intern_read\<close> and \<open>intern_write\<close>.
  Threads that interleave those steps are the step relation \<open>atom_step\<close>.
\<close>

section \<open>The table\<close>

definition MAX_ATOMS :: nat where "MAX_ATOMS = 2 ^ 20"
definition RESERVED_ATOMS :: nat where "RESERVED_ATOMS = 18"

datatype atom_error = LimitExceeded

record atom_table =
  at_name_to_index :: "(string \<times> u32) list"
  at_index_to_name :: "(u32 \<times> string) list"
  at_next_index :: u32

definition register_static :: "string \<Rightarrow> u32 \<Rightarrow> atom_table \<Rightarrow> atom_table" where
  "register_static n i t =
     t\<lparr>at_name_to_index := AList.update n i (at_name_to_index t),
       at_index_to_name := AList.update i n (at_index_to_name t)\<rparr>"

definition reserved :: "(string \<times> u32) list" where
  "reserved =
     [(''false'', 0), (''true'', 1), (''nil'', 2), (''undefined'', 3), (''ok'', 4),
      (''error'', 5), (''badarg'', 6), (''exit'', 7), (''normal'', 8), (''kill'', 9),
      (''message_queue_len'', 10), (''heap_size'', 11), (''stack_size'', 12),
      (''reductions'', 13), (''status'', 14), (''running'', 15), (''waiting'', 16),
      (''exiting'', 17)]"

definition atom_table_new :: atom_table where
  "atom_table_new =
     fold (\<lambda>(n, i). register_static n i) reserved
       \<lparr>at_name_to_index = [], at_index_to_name = [], at_next_index = of_nat RESERVED_ATOMS\<rparr>"

definition lookup_name :: "string \<Rightarrow> atom_table \<Rightarrow> u32 option" where
  "lookup_name n t = map_of (at_name_to_index t) n"

definition lookup :: "u32 \<Rightarrow> atom_table \<Rightarrow> string option" where
  "lookup i t = map_of (at_index_to_name t) i"

definition atom_count :: "atom_table \<Rightarrow> nat" where
  "atom_count t = length (at_name_to_index t)"

definition atom_table_is_empty :: "atom_table \<Rightarrow> bool" where
  "atom_table_is_empty t \<longleftrightarrow> atom_count t = 0"

definition is_valid :: "u32 \<Rightarrow> atom_table \<Rightarrow> bool" where
  "is_valid i t \<longleftrightarrow> lookup i t \<noteq> None"

section \<open>Interning\<close>

definition intern_read :: "string \<Rightarrow> atom_table \<Rightarrow> u32 option" where
  "intern_read n t = lookup_name n t"

definition intern_write :: "string \<Rightarrow> atom_table \<Rightarrow> (atom_error + u32) \<times> atom_table" where
  "intern_write n t =
     (case lookup_name n t of
        Some i \<Rightarrow> (Inr i, t)
      | None \<Rightarrow>
          if at_next_index t \<ge> of_nat MAX_ATOMS then (Inl LimitExceeded, t)
          else
            (let i = at_next_index t in
             (Inr i, t\<lparr>at_next_index := i + 1,
                        at_name_to_index := AList.update n i (at_name_to_index t),
                        at_index_to_name := AList.update i n (at_index_to_name t)\<rparr>)))"

definition intern :: "string \<Rightarrow> atom_table \<Rightarrow> (atom_error + u32) \<times> atom_table" where
  "intern n t =
     (case intern_read n t of Some i \<Rightarrow> (Inr i, t) | None \<Rightarrow> intern_write n t)"

section \<open>Invariant\<close>

text \<open>The two maps are inverse to each other, and no index at or above the next one is used.\<close>

definition table_ok :: "atom_table \<Rightarrow> bool" where
  "table_ok t \<longleftrightarrow>
     (\<forall>n i. lookup_name n t = Some i \<longleftrightarrow> lookup i t = Some n) \<and>
     (\<forall>i. lookup i t \<noteq> None \<longrightarrow> i < at_next_index t) \<and>
     at_next_index t \<le> of_nat MAX_ATOMS"

lemma max_atoms_word: "unat (of_nat MAX_ATOMS :: u32) = 2 ^ 20"
  by (simp add: MAX_ATOMS_def)

lemma next_index_inc:
  "(i :: u32) < of_nat MAX_ATOMS \<Longrightarrow> i < i + 1 \<and> i + 1 \<le> of_nat MAX_ATOMS"
  unfolding word_less_nat_alt word_le_nat_alt by (simp add: max_atoms_word unat_word_ariths)

lemma lookup_register_static [simp]:
  "lookup j (register_static n i t) = (if j = i then Some n else lookup j t)"
  "lookup_name m (register_static n i t) = (if m = n then Some i else lookup_name m t)"
  "at_next_index (register_static n i t) = at_next_index t"
  by (simp_all add: lookup_def lookup_name_def register_static_def update_conv')

lemma table_new_maps:
  "lookup_name n atom_table_new = map_of reserved n"
  "lookup i atom_table_new = map_of (map prod.swap reserved) i"
  "at_next_index atom_table_new = 18"
  by (simp_all add: atom_table_new_def reserved_def RESERVED_ATOMS_def lookup_name_def lookup_def
      register_static_def)

lemma reserved_distinct: "distinct (map fst reserved)" "distinct (map fst (map prod.swap reserved))"
  by (simp_all add: reserved_def)

lemma reserved_below: "i \<in> snd ` set reserved \<Longrightarrow> i < 18"
  by (auto simp: reserved_def)

lemma table_new_ok: "table_ok atom_table_new"
proof -
  have "map_of reserved n = Some i \<longleftrightarrow> map_of (map prod.swap reserved) i = Some n" for n i
    unfolding map_of_eq_Some_iff [OF reserved_distinct(1)] map_of_eq_Some_iff [OF reserved_distinct(2)]
    by force
  moreover have "map_of (map prod.swap reserved) i \<noteq> None \<longrightarrow> i < 18" for i
    by (cases "map_of (map prod.swap reserved) i")
      (auto dest!: map_of_SomeD intro!: reserved_below intro: rev_image_eqI)
  ultimately show ?thesis
    unfolding table_ok_def table_new_maps by (simp add: MAX_ATOMS_def)
qed

lemma intern_write_spec:
  "intern_write n t =
     (case lookup_name n t of
        Some i \<Rightarrow> (Inr i, t)
      | None \<Rightarrow>
          if at_next_index t \<ge> of_nat MAX_ATOMS then (Inl LimitExceeded, t)
          else (Inr (at_next_index t),
                (register_static n (at_next_index t) t)\<lparr>at_next_index := at_next_index t + 1\<rparr>))"
  by (simp add: intern_write_def register_static_def Let_def split: option.split)

lemma intern_eq_write: "intern n t = intern_write n t"
  by (simp add: intern_def intern_read_def intern_write_def split: option.split)

lemma lookup_next_index [simp]:
  "lookup j (t\<lparr>at_next_index := k\<rparr>) = lookup j t"
  "lookup_name m (t\<lparr>at_next_index := k\<rparr>) = lookup_name m t"
  by (simp_all add: lookup_def lookup_name_def)

lemma intern_write_ok:
  assumes "table_ok t"
  shows "table_ok (snd (intern_write n t))"
proof -
  have fresh: "lookup (at_next_index t) t = None" "\<And>m. lookup_name m t \<noteq> Some (at_next_index t)"
    using assms unfolding table_ok_def by (metis order_less_irrefl option.distinct(1))+
  show ?thesis
  proof (cases "lookup_name n t = None \<and> at_next_index t < of_nat MAX_ATOMS")
    case False
    then show ?thesis using assms by (auto simp: intern_write_spec not_le split: option.split)
  next
    case True
    let ?k = "at_next_index t"
    have e: "snd (intern_write n t) = (register_static n ?k t)\<lparr>at_next_index := ?k + 1\<rparr>"
      using True by (auto simp: intern_write_spec dest: leD)
    have k: "?k < ?k + 1" "?k + 1 \<le> of_nat MAX_ATOMS" using True next_index_inc by blast+
    have bij: "\<And>m i. lookup_name m t = Some i \<longleftrightarrow> lookup i t = Some m"
      and low: "\<And>i. lookup i t \<noteq> None \<Longrightarrow> i < ?k"
      using assms by (auto simp: table_ok_def)
    have nm: "lookup i t \<noteq> Some n" for i using True bij [of n i] by simp
    have lt: "lookup i t \<noteq> None \<Longrightarrow> i < ?k + 1" for i using less_trans [OF low k(1)] .
    show ?thesis
      unfolding e table_ok_def using fresh bij nm lt k by auto
  qed
qed

text \<open>What interning does to the names known before it.\<close>

lemma intern_write_lookup_name:
  "lookup_name m (snd (intern_write n t)) =
     (if m = n then (case fst (intern_write n t) of Inl _ \<Rightarrow> None | Inr i \<Rightarrow> Some i)
      else lookup_name m t)"
  by (auto simp: intern_write_spec split: option.split)

lemma intern_write_keeps:
  "lookup_name m t = Some i \<Longrightarrow> lookup_name m (snd (intern_write n t)) = Some i"
  by (auto simp: intern_write_spec split: option.split)

section \<open>Interleaved interning\<close>

text \<open>A thread that interns a name has started, or has missed under the read lock, or is done.\<close>

datatype atom_thread =
    Started string
  | Missed string
  | Interned string "atom_error + u32"

inductive atom_step ::
  "atom_table \<times> (nat \<Rightarrow> atom_thread) \<Rightarrow> atom_table \<times> (nat \<Rightarrow> atom_thread) \<Rightarrow> bool" where
  read_hit: "ths k = Started n \<Longrightarrow> intern_read n t = Some i \<Longrightarrow>
    atom_step (t, ths) (t, ths(k := Interned n (Inr i)))"
| read_miss: "ths k = Started n \<Longrightarrow> intern_read n t = None \<Longrightarrow>
    atom_step (t, ths) (t, ths(k := Missed n))"
| write_lock: "ths k = Missed n \<Longrightarrow> intern_write n t = (r, t') \<Longrightarrow>
    atom_step (t, ths) (t', ths(k := Interned n r))"

inductive_cases atom_stepE: "atom_step (t, ths) s"

definition results_ok :: "atom_table \<times> (nat \<Rightarrow> atom_thread) \<Rightarrow> bool" where
  "results_ok s \<longleftrightarrow>
     table_ok (fst s) \<and>
     (\<forall>k n i. snd s k = Interned n (Inr i) \<longrightarrow> lookup_name n (fst s) = Some i)"

lemma atom_step_ok: "atom_step s s' \<Longrightarrow> results_ok s \<Longrightarrow> results_ok s'"
proof (induction rule: atom_step.induct)
  case (write_lock ths k n t r t')
  have t': "t' = snd (intern_write n t)" "r = fst (intern_write n t)" using write_lock.hyps by simp_all
  show ?case
    using write_lock.prems intern_write_ok [of t n] intern_write_keeps [of _ t _ n]
      intern_write_lookup_name [of n n t]
    by (auto simp: results_ok_def t' split: sum.splits)
qed (auto simp: results_ok_def intern_read_def)

lemma atom_steps_ok: "atom_step\<^sup>*\<^sup>* s s' \<Longrightarrow> results_ok s \<Longrightarrow> results_ok s'"
  by (induction rule: rtranclp_induct) (auto intro: atom_step_ok)


section \<open>Properties\<close>

text \<open>C12. Threads that intern names concurrently, each by its read-locked look-up followed by
  its write-locked insertion, in any interleaving, from any consistent table: two threads that
  got an index got the same one exactly when they interned the same name, and the table keeps
  for every such index the name it was given for.\<close>

theorem concurrent_interning:
  assumes "table_ok t" and "\<And>k n r. ths k \<noteq> Interned n r"
    and "atom_step\<^sup>*\<^sup>* (t, ths) (t', ths')"
    and "ths' j = Interned n (Inr i)" and "ths' k = Interned m (Inr i')"
  shows "(i = i' \<longleftrightarrow> n = m) \<and> lookup i t' = Some n \<and> table_ok t'"
proof -
  have "results_ok (t, ths)" using assms(1,2) by (simp add: results_ok_def)
  from atom_steps_ok [OF assms(3) this] have ok: "results_ok (t', ths')" .
  then have l: "lookup_name n t' = Some i" "lookup_name m t' = Some i'" and tk: "table_ok t'"
    using assms(4,5) unfolding results_ok_def by (metis fst_conv snd_conv)+
  then have "lookup i t' = Some n" "lookup i' t' = Some m" by (auto simp: table_ok_def)
  with l tk show ?thesis by auto
qed

lemma intern_write_foo:
  "fst (intern_write ''foo'' atom_table_new) = Inr 18"
  "intern_write ''foo'' (snd (intern_write ''foo'' atom_table_new))
     = (Inr 18, snd (intern_write ''foo'' atom_table_new))"
  by (simp_all add: intern_write_spec table_new_maps MAX_ATOMS_def reserved_def)

text \<open>Two threads that both miss the name and then both ask for the write lock.\<close>

lemma concurrent_interning_run:
  "atom_step\<^sup>*\<^sup>* (atom_table_new, (\<lambda>k. Started ''foo''))
     (snd (intern_write ''foo'' atom_table_new),
      (\<lambda>k. Started ''foo'')(0 := Missed ''foo'', 1 := Missed ''foo'',
         0 := Interned ''foo'' (Inr 18), 1 := Interned ''foo'' (Inr 18)))"
  (is "atom_step\<^sup>*\<^sup>* (?t, ?s) (?t', ?s(0 := ?m, 1 := ?m, 0 := ?d, 1 := ?d))")
proof -
  have miss: "intern_read ''foo'' ?t = None"
    by (simp add: intern_read_def table_new_maps reserved_def)
  have s1: "atom_step (?t, ?s) (?t, ?s(0 := ?m))"
    by (rule read_miss [OF _ miss]) simp
  have s2: "atom_step (?t, ?s(0 := ?m)) (?t, ?s(0 := ?m, 1 := ?m))"
    by (rule read_miss [OF _ miss]) simp
  have s3: "atom_step (?t, ?s(0 := ?m, 1 := ?m)) (?t', ?s(0 := ?m, 1 := ?m, 0 := ?d))"
    using intern_write_foo(1) by (intro write_lock) (simp_all add: prod_eq_iff)
  have s4: "atom_step (?t', ?s(0 := ?m, 1 := ?m, 0 := ?d))
      (?t', ?s(0 := ?m, 1 := ?m, 0 := ?d, 1 := ?d))"
    by (rule write_lock [OF _ intern_write_foo(2)]) simp
  show ?thesis
    by (rule converse_rtranclp_into_rtranclp [OF s1 converse_rtranclp_into_rtranclp [OF s2
          converse_rtranclp_into_rtranclp [OF s3 r_into_rtranclp [where r = atom_step, OF s4]]]])
qed

theorem concurrent_interning_witness:
  "lookup 18 (snd (intern_write ''foo'' atom_table_new)) = Some ''foo''"
  using concurrent_interning [OF table_new_ok _ concurrent_interning_run, of 0 "''foo''" 18 1 "''foo''" 18]
  by simp

text \<open>C31. Interning on a consistent table keeps it consistent and changes no other name; it
  answers the index the name already had, and otherwise the next index, which no name had,
  unless the table has reached its limit of \<open>MAX_ATOMS\<close>, when it fails without effect.  The
  index is looked up to the name again.\<close>

theorem intern_spec:
  assumes "table_ok t" and "intern n t = (r, t')"
  shows "table_ok t' \<and> (\<forall>m. m \<noteq> n \<longrightarrow> lookup_name m t' = lookup_name m t)
    \<and> (case lookup_name n t of
         Some i \<Rightarrow> r = Inr i \<and> t' = t
       | None \<Rightarrow>
           if unat (at_next_index t) < 2 ^ 20
           then r = Inr (at_next_index t) \<and> lookup (at_next_index t) t = None
             \<and> lookup (at_next_index t) t' = Some n \<and> lookup_name n t' = Some (at_next_index t)
           else r = Inl LimitExceeded \<and> t' = t)"
proof -
  have e: "r = fst (intern_write n t)" "t' = snd (intern_write n t)"
    using assms(2) by (simp_all add: intern_eq_write)
  have "lookup (at_next_index t) t = None"
    using assms(1) by (auto simp: table_ok_def)
  then show ?thesis
    using intern_write_ok [OF assms(1), of n] unfolding e
    by (auto simp: intern_write_lookup_name intern_write_spec word_le_nat_alt max_atoms_word
        split: option.split)
qed

theorem intern_spec_witness:
  "lookup 18 (snd (intern ''foo'' atom_table_new)) = Some ''foo''"
proof -
  have "lookup_name ''foo'' atom_table_new = None" by (simp add: table_new_maps reserved_def)
  then show ?thesis
    using intern_spec [OF table_new_ok prod.collapse [symmetric], of "''foo''"]
    by (simp add: table_new_maps(3))
qed

text \<open>The table reserves the indices 0 to 17 only, while the constants of the atoms module
  go on to 31: the first new name a table is asked for gets index 18, the constant
  \<^verbatim>\<open>ATOM_GARBAGE_COLLECTING\<close>, and none of the names \<^verbatim>\<open>suspended\<close>, \<^verbatim>\<open>low\<close>, \<^verbatim>\<open>high\<close> or
  \<^verbatim>\<open>max\<close> then gets the constant that stands for it.\<close>

theorem reserved_atoms_overlap:
  "n \<notin> fst ` set reserved \<Longrightarrow>
   fst (intern n atom_table_new) = Inr ATOM_GARBAGE_COLLECTING
   \<and> lookup ATOM_GARBAGE_COLLECTING (snd (intern n atom_table_new)) = Some n"
proof -
  assume "n \<notin> fst ` set reserved"
  then have "lookup_name n atom_table_new = None"
    by (simp add: table_new_maps map_of_eq_None_iff)
  then show ?thesis
    by (simp add: intern_eq_write intern_write_spec table_new_maps(3) MAX_ATOMS_def
        ATOM_GARBAGE_COLLECTING_def)
qed

theorem reserved_atoms_overlap_witness:
  "fst (intern ''suspended'' atom_table_new) = Inr ATOM_GARBAGE_COLLECTING
   \<and> ATOM_GARBAGE_COLLECTING \<noteq> ATOM_SUSPENDED"
  using reserved_atoms_overlap [of "''suspended''"]
  by (simp add: reserved_def ATOM_GARBAGE_COLLECTING_def ATOM_SUSPENDED_def)

end
