(* ===== verification/Signals.thy ===== *)
theory Signals
  imports Interfaces Terms Ids
begin

text \<open>
  Signals, the signal queue (mailbox) and the save queue of a process
  (\<^verbatim>\<open>crates/chimera_erlang_beam_process/src/lib.rs\<close>).

  A queue is the vector of its signals, oldest first.  The loops that pop until they find
  something are recursions on that list.  Both queues are instances of the interface \<open>fifo\<close>.
\<close>

datatype signal =
    Message beam_term
  | Exit pid beam_term
  | MonitorDown u64 pid beam_term

fun is_message :: "signal \<Rightarrow> bool" where
  "is_message (Message _) = True"
| "is_message _ = False"

fun is_exit :: "signal \<Rightarrow> bool" where
  "is_exit (Exit _ _) = True"
| "is_exit _ = False"

fun is_monitor_down :: "signal \<Rightarrow> bool" where
  "is_monitor_down (MonitorDown _ _ _) = True"
| "is_monitor_down _ = False"

fun as_message :: "signal \<Rightarrow> beam_term option" where
  "as_message (Message t) = Some t"
| "as_message _ = None"

section \<open>The signal queue\<close>

datatype signal_queue = SignalQueue (signals: "signal list")

definition queue_new :: signal_queue where
  "queue_new = SignalQueue []"

definition push :: "signal \<Rightarrow> signal_queue \<Rightarrow> signal_queue" where
  "push s q = SignalQueue (signals q @ [s])"

definition pop :: "signal_queue \<Rightarrow> signal option \<times> signal_queue" where
  "pop q =
     (case signals q of
        [] \<Rightarrow> (None, q)
      | s # ss \<Rightarrow> (Some s, SignalQueue ss))"

definition peek :: "signal_queue \<Rightarrow> signal option" where
  "peek q = (case signals q of [] \<Rightarrow> None | s # _ \<Rightarrow> Some s)"

definition queue_len :: "signal_queue \<Rightarrow> nat" where
  "queue_len q = length (signals q)"

definition has_message :: "signal_queue \<Rightarrow> bool" where
  "has_message q \<longleftrightarrow> list_ex is_message (signals q)"

definition queue_is_empty :: "signal_queue \<Rightarrow> bool" where
  "queue_is_empty q \<longleftrightarrow> signals q = []"

definition clear :: "signal_queue \<Rightarrow> signal_queue" where
  "clear q = SignalQueue []"

fun deliver_from :: "signal list \<Rightarrow> beam_term option \<times> signal list" where
  "deliver_from [] = (None, [])"
| "deliver_from (Message t # ss) = (Some t, ss)"
| "deliver_from (Exit _ _ # ss) = deliver_from ss"
| "deliver_from (MonitorDown _ _ _ # ss) = deliver_from ss"

definition deliver_message :: "signal_queue \<Rightarrow> beam_term option \<times> signal_queue" where
  "deliver_message q = (let (t, ss) = deliver_from (signals q) in (t, SignalQueue ss))"

definition messages :: "signal_queue \<Rightarrow> beam_term list" where
  "messages q = List.map_filter as_message (signals q)"

definition exits :: "signal_queue \<Rightarrow> (pid \<times> beam_term) list" where
  "exits q =
     List.map_filter (\<lambda>s. case s of Exit from reason \<Rightarrow> Some (from, reason) | _ \<Rightarrow> None) (signals q)"

fun first_exit :: "signal list \<Rightarrow> (pid \<times> beam_term) option" where
  "first_exit [] = None"
| "first_exit (Exit from reason # ss) = Some (from, reason)"
| "first_exit (Message _ # ss) = None"
| "first_exit (MonitorDown _ _ _ # ss) = first_exit ss"

definition peek_exit :: "signal_queue \<Rightarrow> (pid \<times> beam_term) option" where
  "peek_exit q = first_exit (signals q)"

definition monitor_downs :: "signal_queue \<Rightarrow> (u64 \<times> pid \<times> beam_term) list" where
  "monitor_downs q =
     List.map_filter
       (\<lambda>s. case s of MonitorDown ref_id target reason \<Rightarrow> Some (ref_id, target, reason) | _ \<Rightarrow> None)
       (signals q)"

fun trap_aware_from :: "bool \<Rightarrow> signal list \<Rightarrow> beam_term option \<times> signal list" where
  "trap_aware_from trap_exit [] = (None, [])"
| "trap_aware_from trap_exit (Message t # ss) = (Some t, ss)"
| "trap_aware_from trap_exit (Exit _ reason # ss) =
     (if trap_exit then (Some reason, ss) else trap_aware_from trap_exit ss)"
| "trap_aware_from trap_exit (MonitorDown _ _ _ # ss) = trap_aware_from trap_exit ss"

definition receive_message_trap_aware ::
  "bool \<Rightarrow> signal_queue \<Rightarrow> beam_term option \<times> signal_queue" where
  "receive_message_trap_aware trap_exit q =
     (let (t, ss) = trap_aware_from trap_exit (signals q) in (t, SignalQueue ss))"

fun signal_from :: "signal list \<Rightarrow> signal option \<times> signal list" where
  "signal_from [] = (None, [])"
| "signal_from (Message t # ss) = (Some (Message t), ss)"
| "signal_from (Exit from reason # ss) = (Some (Exit from reason), ss)"
| "signal_from (MonitorDown _ _ _ # ss) = signal_from ss"

definition queue_receive_signal :: "bool \<Rightarrow> signal_queue \<Rightarrow> signal option \<times> signal_queue" where
  "queue_receive_signal trap_exit q =
     (let (s, ss) = signal_from (signals q) in (s, SignalQueue ss))"

fun first_message :: "signal list \<Rightarrow> beam_term option" where
  "first_message [] = None"
| "first_message (s # ss) = (case as_message s of Some t \<Rightarrow> Some t | None \<Rightarrow> first_message ss)"

definition queue_peek_message :: "signal_queue \<Rightarrow> beam_term option" where
  "queue_peek_message q = first_message (signals q)"

definition queue_message_count :: "signal_queue \<Rightarrow> nat" where
  "queue_message_count q = length (filter is_message (signals q))"

section \<open>The save queue\<close>

datatype save_queue = SaveQueue (saved: "signal list")

definition save_queue_new :: save_queue where
  "save_queue_new = SaveQueue []"

definition save :: "signal \<Rightarrow> save_queue \<Rightarrow> save_queue" where
  "save s q = SaveQueue (saved q @ [s])"

definition restore :: "save_queue \<Rightarrow> signal list \<times> save_queue" where
  "restore q = (saved q, SaveQueue [])"

definition save_len :: "save_queue \<Rightarrow> nat" where
  "save_len q = length (saved q)"

definition save_is_empty :: "save_queue \<Rightarrow> bool" where
  "save_is_empty q \<longleftrightarrow> saved q = []"

section \<open>The queue contract\<close>

interpretation mailbox: fifo push pop signals
  by unfold_locales (auto simp: push_def pop_def split: list.splits)

text \<open>What \<open>n\<close> plain receives deliver.\<close>

primrec deliver_n :: "nat \<Rightarrow> signal_queue \<Rightarrow> beam_term list \<times> signal_queue" where
  "deliver_n 0 q = ([], q)"
| "deliver_n (Suc n) q =
     (case deliver_message q of
        (None, q') \<Rightarrow> ([], q')
      | (Some t, q') \<Rightarrow> (let (ts, q'') = deliver_n n q' in (t # ts, q'')))"

lemma map_filter_append [simp]:
  "List.map_filter f (xs @ ys) = List.map_filter f xs @ List.map_filter f ys"
  by (simp add: List.map_filter_def)

lemma is_message_as_message: "is_message s \<longleftrightarrow> as_message s \<noteq> None"
  by (cases s) auto

lemma deliver_from_messages:
  "deliver_from ss = (r, ss') \<Longrightarrow>
   (case r of None \<Rightarrow> List.map_filter as_message ss = [] \<and> ss' = []
    | Some t \<Rightarrow> List.map_filter as_message ss = t # List.map_filter as_message ss')"
  by (induction ss rule: deliver_from.induct) (auto split: option.splits)

lemma deliver_message_spec:
  "deliver_message q = (r, q') \<Longrightarrow>
   (case r of None \<Rightarrow> messages q = [] \<and> signals q' = [] | Some t \<Rightarrow> messages q = t # messages q')"
  using deliver_from_messages [of "signals q"]
  by (auto simp: deliver_message_def messages_def split: prod.splits option.splits)

lemma deliver_n_spec: "fst (deliver_n n q) = take n (messages q)"
proof (induction n arbitrary: q)
  case 0
  then show ?case by simp
next
  case (Suc n)
  obtain r q' where d: "deliver_message q = (r, q')" by force
  show ?case
    using deliver_message_spec [OF d] Suc.IH [of q'] d by (auto split: option.splits prod.splits)
qed

lemma trap_aware_untrapped: "trap_aware_from False ss = deliver_from ss"
  by (induction ss rule: deliver_from.induct) auto

lemma message_count_messages: "queue_message_count q = length (messages q)"
proof -
  have "length (filter is_message ss) = length (List.map_filter as_message ss)" for ss
    by (induction ss) (auto simp: is_message_as_message split: option.splits)
  then show ?thesis by (simp add: queue_message_count_def messages_def)
qed

lemma peek_message_messages:
  "queue_peek_message q = (case messages q of [] \<Rightarrow> None | t # _ \<Rightarrow> Some t)"
proof -
  have "first_message ss = (case List.map_filter as_message ss of [] \<Rightarrow> None | t # _ \<Rightarrow> Some t)" for ss
    by (induction ss) (auto split: option.splits)
  then show ?thesis by (simp add: queue_peek_message_def messages_def)
qed

section \<open>Properties\<close>

text \<open>The mailbox is first-in first-out, for signals and for messages: pushing a list of
  signals on an empty queue and popping as many gives that list back, and receiving delivers
  the messages among them in the order they were sent, skipping every other signal, until none
  is left.\<close>

theorem mailbox_fifo:
  "fst (mailbox.pop_n (length ss) (fold push ss queue_new)) = ss
   \<and> fst (deliver_n n (fold push ss queue_new)) = take n (List.map_filter as_message ss)
   \<and> queue_message_count (fold push ss queue_new) = length (List.map_filter as_message ss)"
proof -
  have "signals queue_new = []" by (simp add: queue_new_def)
  then show ?thesis
    using mailbox.push_pop_all [of queue_new ss] mailbox.contents_push_list [of ss queue_new]
    by (simp add: deliver_n_spec message_count_messages messages_def)
qed

end
