(* ===== verification/Trace.thy ===== *)
theory Trace
  imports Terms
begin

text \<open>
  Tracing (\<^verbatim>\<open>crates/chimera_erlang_beam_trace/src/lib.rs\<close>): trace flags, the trace session
  and the emission of trace events.

  A tracer is a shared trait object; the model keeps its identity only, and emitting an event
  yields the list of deliveries, one per registered tracer, in the order they were registered.
  The clock is an argument of the emitting operations.  The global session is an option, and
  using it before \<^verbatim>\<open>init\<close> panics.
\<close>

section \<open>Flags\<close>

type_synonym trace_flags = u8

definition FLAG_CALL :: trace_flags where "FLAG_CALL = push_bit 0 1"
definition FLAG_RETURN_TO :: trace_flags where "FLAG_RETURN_TO = push_bit 1 1"
definition FLAG_RAISE :: trace_flags where "FLAG_RAISE = push_bit 2 1"
definition FLAG_RUNNING :: trace_flags where "FLAG_RUNNING = push_bit 3 1"
definition FLAG_PROCS :: trace_flags where "FLAG_PROCS = push_bit 4 1"
definition FLAG_SMP :: trace_flags where "FLAG_SMP = push_bit 5 1"
definition FLAG_RECEIVE :: trace_flags where "FLAG_RECEIVE = push_bit 6 1"
definition FLAG_RUNNING_PROCS :: trace_flags where "FLAG_RUNNING_PROCS = push_bit 7 1"

definition flag_is_set :: "trace_flags \<Rightarrow> trace_flags \<Rightarrow> bool" where
  "flag_is_set f fs \<longleftrightarrow> fs AND f \<noteq> 0"

definition flag_set :: "trace_flags \<Rightarrow> trace_flags \<Rightarrow> trace_flags" where
  "flag_set f fs = fs OR f"

definition flag_clear :: "trace_flags \<Rightarrow> trace_flags \<Rightarrow> trace_flags" where
  "flag_clear f fs = fs AND NOT f"

definition flag_of_atom :: "u32 \<Rightarrow> trace_flags option" where
  "flag_of_atom a =
     (if a = 0 then Some FLAG_CALL
      else if a = 1 then Some FLAG_RETURN_TO
      else if a = 2 then Some FLAG_RAISE
      else if a = 3 then Some FLAG_RUNNING
      else if a = 4 then Some FLAG_PROCS
      else if a = 5 then Some FLAG_SMP
      else if a = 6 then Some FLAG_RECEIVE
      else if a = 7 then Some FLAG_RUNNING_PROCS
      else None)"

definition set_atom_flag :: "u32 \<Rightarrow> trace_flags \<Rightarrow> trace_flags" where
  "set_atom_flag a fs = (case flag_of_atom a of Some f \<Rightarrow> flag_set f fs | None \<Rightarrow> fs)"

definition flags_from_list :: "beam_term list \<Rightarrow> trace_flags" where
  "flags_from_list ts = fold (\<lambda>t. set_atom_flag (to_atom t)) ts 0"

definition flags_from_list_term :: "beam_term \<Rightarrow> trace_flags" where
  "flags_from_list_term t = (if is_cons t then set_atom_flag (ucast (to_cons t)) 0 else 0)"

section \<open>Events\<close>

datatype trace_extra =
    ExtraNone
  | ReturnValue beam_term
  | Exception beam_term
  | ReceivedMessage beam_term
  | ReceiveTimeout

record trace_event =
  te_timestamp_ns :: u64
  te_flags :: trace_flags
  te_pid :: u32
  te_serial :: u32
  te_module :: "u32 option"
  te_function :: "u32 option"
  te_arity :: nat
  te_extra :: trace_extra

definition make_trace_event ::
  "u64 \<Rightarrow> u32 \<Rightarrow> u32 \<Rightarrow> trace_flags \<Rightarrow> u32 option \<Rightarrow> u32 option \<Rightarrow> nat \<Rightarrow> trace_extra \<Rightarrow> trace_event"
  where
  "make_trace_event now pid serial flags module function arity extra =
     \<lparr>te_timestamp_ns = now, te_flags = flags, te_pid = pid, te_serial = serial,
      te_module = module, te_function = function, te_arity = arity, te_extra = extra\<rparr>"

section \<open>The session\<close>

type_synonym tracer = nat

record trace_session =
  ts_tracers :: "tracer list"
  ts_flags :: trace_flags
  ts_process_flags :: "u32 \<rightharpoonup> trace_flags"
  ts_patterns :: "u32 \<times> u32 \<times> nat \<rightharpoonup> bool"
  ts_match_all :: bool

definition trace_session_new :: trace_session where
  "trace_session_new =
     \<lparr>ts_tracers = [], ts_flags = 0, ts_process_flags = Map.empty,
      ts_patterns = Map.empty, ts_match_all = False\<rparr>"

definition add_tracer :: "tracer \<Rightarrow> trace_session \<Rightarrow> trace_session" where
  "add_tracer t s = s\<lparr>ts_tracers := ts_tracers s @ [t]\<rparr>"

definition remove_tracer :: "tracer \<Rightarrow> trace_session \<Rightarrow> trace_session" where
  "remove_tracer t s = s\<lparr>ts_tracers := filter (\<lambda>t'. t' \<noteq> t) (ts_tracers s)\<rparr>"

definition set_flags :: "trace_flags \<Rightarrow> trace_session \<Rightarrow> trace_session" where
  "set_flags fs s = s\<lparr>ts_flags := fs\<rparr>"

definition set_process_flags :: "u32 \<Rightarrow> trace_flags \<Rightarrow> trace_session \<Rightarrow> trace_session" where
  "set_process_flags pid fs s =
     (if fs = 0 then s\<lparr>ts_process_flags := (ts_process_flags s)(pid := None)\<rparr>
      else s\<lparr>ts_process_flags := (ts_process_flags s)(pid \<mapsto> fs)\<rparr>)"

definition get_process_flags :: "u32 \<Rightarrow> trace_session \<Rightarrow> trace_flags" where
  "get_process_flags pid s =
     (case ts_process_flags s pid of Some fs \<Rightarrow> fs | None \<Rightarrow> ts_flags s)"

definition set_match_all :: "bool \<Rightarrow> trace_session \<Rightarrow> trace_session" where
  "set_match_all b s = s\<lparr>ts_match_all := b\<rparr>"

definition set_pattern :: "u32 \<Rightarrow> u32 \<Rightarrow> nat \<Rightarrow> bool \<Rightarrow> trace_session \<Rightarrow> trace_session" where
  "set_pattern m f a enabled s =
     (if enabled then s\<lparr>ts_patterns := (ts_patterns s)((m, f, a) \<mapsto> True)\<rparr>
      else s\<lparr>ts_patterns := (ts_patterns s)((m, f, a) := None)\<rparr>)"

definition is_pattern_enabled :: "u32 \<Rightarrow> u32 \<Rightarrow> nat \<Rightarrow> trace_session \<Rightarrow> bool" where
  "is_pattern_enabled m f a s =
     (if ts_match_all s then True
      else (case ts_patterns s (m, f, a) of Some b \<Rightarrow> b | None \<Rightarrow> False))"

definition emit :: "trace_event \<Rightarrow> trace_session \<Rightarrow> (tracer \<times> trace_event) list" where
  "emit e s = map (\<lambda>t. (t, e)) (ts_tracers s)"

definition clear_session :: "trace_session \<Rightarrow> trace_session" where
  "clear_session s =
     s\<lparr>ts_tracers := [], ts_flags := 0, ts_process_flags := Map.empty,
       ts_patterns := Map.empty, ts_match_all := False\<rparr>"

section \<open>The global session\<close>

definition trace_init :: "trace_session option \<Rightarrow> trace_session option" where
  "trace_init g = Some trace_session_new"

definition with_session ::
  "(trace_session \<Rightarrow> 'a) \<Rightarrow> trace_session option \<Rightarrow> ('e, 'a) outcome" where
  "with_session f g = (case g of Some s \<Rightarrow> Ok (f s) | None \<Rightarrow> Panic ExplicitPanic)"

definition with_session_mut ::
  "(trace_session \<Rightarrow> 'a \<times> trace_session) \<Rightarrow> trace_session option
     \<Rightarrow> ('e, 'a \<times> trace_session option) outcome" where
  "with_session_mut f g =
     (case g of Some s \<Rightarrow> (let (a, s') = f s in Ok (a, Some s')) | None \<Rightarrow> Panic ExplicitPanic)"

type_synonym deliveries = "(tracer \<times> trace_event) list"

definition emit_call ::
  "u64 \<Rightarrow> u32 \<Rightarrow> u32 \<Rightarrow> u32 \<Rightarrow> u32 \<Rightarrow> nat \<Rightarrow> trace_session option \<Rightarrow> (unit, deliveries) outcome"
  where
  "emit_call now pid serial m f a =
     with_session (\<lambda>s.
       let flags = get_process_flags pid s in
       if \<not> flag_is_set FLAG_CALL flags \<and> \<not> is_pattern_enabled m f a s then []
       else emit (make_trace_event now pid serial flags (Some m) (Some f) a ExtraNone) s)"

definition emit_return ::
  "u64 \<Rightarrow> u32 \<Rightarrow> u32 \<Rightarrow> beam_term \<Rightarrow> trace_session option \<Rightarrow> (unit, deliveries) outcome" where
  "emit_return now pid serial v =
     with_session (\<lambda>s.
       let flags = get_process_flags pid s in
       if \<not> flag_is_set FLAG_RETURN_TO flags then []
       else emit (make_trace_event now pid serial flags None None 0 (ReturnValue v)) s)"

definition emit_receive ::
  "u64 \<Rightarrow> u32 \<Rightarrow> u32 \<Rightarrow> beam_term \<Rightarrow> trace_session option \<Rightarrow> (unit, deliveries) outcome" where
  "emit_receive now pid serial msg =
     with_session (\<lambda>s.
       let flags = get_process_flags pid s in
       if \<not> flag_is_set FLAG_RECEIVE flags then []
       else emit (make_trace_event now pid serial flags None None 0 (ReceivedMessage msg)) s)"

definition emit_receive_timeout ::
  "u64 \<Rightarrow> u32 \<Rightarrow> u32 \<Rightarrow> trace_session option \<Rightarrow> (unit, deliveries) outcome" where
  "emit_receive_timeout now pid serial =
     with_session (\<lambda>s.
       let flags = get_process_flags pid s in
       if \<not> flag_is_set FLAG_RECEIVE flags then []
       else emit (make_trace_event now pid serial flags None None 0 ReceiveTimeout) s)"

section \<open>Lemmas\<close>

lemma flag_is_set_bit:
  "flag_is_set (push_bit i 1) fs \<longleftrightarrow> bit fs i"
  by (simp add: flag_is_set_def bit_iff_and_push_bit_not_eq_0)

lemma process_flags_update:
  "get_process_flags q (set_process_flags p fs s) =
     (if q = p then (if fs = 0 then ts_flags s else fs) else get_process_flags q s)"
  by (simp add: get_process_flags_def set_process_flags_def split: option.split)

section \<open>Properties\<close>

text \<open>A call is reported, once to each registered tracer, exactly when the flags in force for
  the process have the call bit or its module, function and arity are enabled; the flags of a
  process set to none are not "trace nothing" but hand the process back to the global flags.\<close>

theorem call_tracing:
  "emit_call now p serial m f a (Some (set_process_flags p fs s)) =
     Ok (if bit (if fs = 0 then ts_flags s else fs) 0 \<or> is_pattern_enabled m f a s
         then map (\<lambda>t. (t, make_trace_event now p serial (if fs = 0 then ts_flags s else fs)
                              (Some m) (Some f) a ExtraNone)) (ts_tracers s)
         else [])"
proof -
  have "flag_is_set FLAG_CALL g \<longleftrightarrow> bit g 0" for g
    using flag_is_set_bit [of 0 g] by (simp add: FLAG_CALL_def)
  moreover have "is_pattern_enabled m f a (set_process_flags p fs s) = is_pattern_enabled m f a s"
    "ts_tracers (set_process_flags p fs s) = ts_tracers s"
    by (simp_all add: is_pattern_enabled_def set_process_flags_def)
  ultimately show ?thesis
    by (simp add: emit_call_def with_session_def process_flags_update emit_def Let_def)
qed

end
