(* ===== verification/Roots.thy ===== *)
theory Roots
  imports Core
begin

text \<open>
  The root set of a collection (\<^verbatim>\<open>crates/chimera_erlang_beam_heap/src/roots.rs\<close>): the
  categorised locations that a collector has to trace.
\<close>

definition ROOT_MAX_X_REGISTERS :: nat where "ROOT_MAX_X_REGISTERS = 64"

datatype root_category =
    XRegister u8
  | YRegister u8
  | CP
  | IP
  | MailboxSignal
  | SaveQueueRoot
  | DictionaryEntry
  | LinkRoot
  | MonitorRoot
  | TimerRoot
  | PortRoot
  | RemotePid
  | RemoteRef
  | RemotePort
  | GroupLeaderRoot
  | RegisteredNameRoot

fun category_name :: "root_category \<Rightarrow> string" where
  "category_name (XRegister _) = ''XRegister''"
| "category_name (YRegister _) = ''YRegister''"
| "category_name CP = ''CP''"
| "category_name IP = ''IP''"
| "category_name MailboxSignal = ''MailboxSignal''"
| "category_name SaveQueueRoot = ''SaveQueue''"
| "category_name DictionaryEntry = ''DictionaryEntry''"
| "category_name LinkRoot = ''Link''"
| "category_name MonitorRoot = ''Monitor''"
| "category_name TimerRoot = ''Timer''"
| "category_name PortRoot = ''Port''"
| "category_name RemotePid = ''RemotePid''"
| "category_name RemoteRef = ''RemoteRef''"
| "category_name RemotePort = ''RemotePort''"
| "category_name GroupLeaderRoot = ''GroupLeader''"
| "category_name RegisteredNameRoot = ''RegisteredName''"

record root_location =
  rl_term :: beam_term
  rl_category :: root_category

definition root_location_new :: "beam_term \<Rightarrow> root_category \<Rightarrow> root_location" where
  "root_location_new t c = \<lparr>rl_term = t, rl_category = c\<rparr>"

datatype root_set = RootSet (roots: "root_location list")

definition root_set_new :: root_set where
  "root_set_new = RootSet []"

definition root_set_clear :: "root_set \<Rightarrow> root_set" where
  "root_set_clear r = RootSet []"

definition add :: "beam_term \<Rightarrow> root_category \<Rightarrow> root_set \<Rightarrow> root_set" where
  "add t c r = RootSet (roots r @ [root_location_new t c])"

definition add_x :: "u8 \<Rightarrow> beam_term \<Rightarrow> root_set \<Rightarrow> root_set" where
  "add_x i t = add t (XRegister i)"

definition add_y :: "u8 \<Rightarrow> beam_term \<Rightarrow> root_set \<Rightarrow> root_set" where
  "add_y i t = add t (YRegister i)"

definition add_cp :: "beam_term \<Rightarrow> root_set \<Rightarrow> root_set" where
  "add_cp t = add t CP"

definition add_ip :: "beam_term \<Rightarrow> root_set \<Rightarrow> root_set" where
  "add_ip t = add t IP"

definition add_mailbox :: "beam_term list \<Rightarrow> root_set \<Rightarrow> root_set" where
  "add_mailbox = fold (\<lambda>t. add t MailboxSignal)"

definition add_save_queue :: "beam_term list \<Rightarrow> root_set \<Rightarrow> root_set" where
  "add_save_queue = fold (\<lambda>t. add t SaveQueueRoot)"

definition add_dictionary :: "(beam_term \<times> beam_term) list \<Rightarrow> root_set \<Rightarrow> root_set" where
  "add_dictionary = fold (\<lambda>(k, v). add v DictionaryEntry \<circ> add k DictionaryEntry)"

definition add_small :: "i64 \<Rightarrow> root_category \<Rightarrow> root_set \<Rightarrow> (vm_error, root_set) outcome" where
  "add_small v c r = bind_o (from_small v) (\<lambda>t. Ok (add t c r))"

definition add_links :: "u64 list \<Rightarrow> root_set \<Rightarrow> (vm_error, root_set) outcome" where
  "add_links = fold_o (\<lambda>raw. add_small raw LinkRoot)"

definition add_monitors ::
  "(u64 \<times> u64 \<times> u32 option) list \<Rightarrow> root_set \<Rightarrow> (vm_error, root_set) outcome" where
  "add_monitors =
     fold_o (\<lambda>(ref_id, target_raw, _) r.
       bind_o (add_small ref_id MonitorRoot r) (add_small target_raw MonitorRoot))"

definition root_set_len :: "root_set \<Rightarrow> nat" where
  "root_set_len r = length (roots r)"

definition root_set_is_empty :: "root_set \<Rightarrow> bool" where
  "root_set_is_empty r \<longleftrightarrow> roots r = []"

definition by_category :: "root_category \<Rightarrow> root_set \<Rightarrow> root_location list" where
  "by_category c r = filter (\<lambda>l. rl_category l = c) (roots r)"

definition count_by_category :: "root_set \<Rightarrow> nat" where
  "count_by_category r = length (roots r)"

lemma roots_add [simp]:
  "roots (add t c r) = roots r @ [root_location_new t c]"
  by (simp add: add_def)

text \<open>A loop that adds a fixed list of roots per element appends them in order.\<close>

lemma roots_fold_append:
  "(\<And>x r. roots (f x r) = roots r @ g x) \<Longrightarrow> roots (fold f xs r) = roots r @ concat (map g xs)"
  by (induction xs arbitrary: r) simp_all

end
