(* ===== verification/Pcb.thy ===== *)
theory Pcb
  imports Core Exec Ids Signals Trace Roots "HOL-Library.AList"
begin

text \<open>
  The process control block (\<^verbatim>\<open>ProcessControlBlock\<close> of
  \<^verbatim>\<open>crates/chimera_erlang_beam_process/src/lib.rs\<close>): state machine, registers, message
  reception, links, monitors, dictionary, introspection and roots.

  The dictionary is the association list of the hash map, in some order of its entries.  The
  global counter of monitor references is passed to and returned by \<open>add_monitor\<close>.
  Converting a number to a term panics outside the small range, so the operations that do it
  have an \<open>outcome\<close>.
\<close>

section \<open>State\<close>

datatype process_state =
    Running
  | Waiting
  | Exiting
  | GarbageCollecting
  | Suspended
  | Dead

record process_flags =
  pf_trap_exit :: bool
  pf_sensitive :: bool
  pf_background_diagnostics :: bool

definition process_flags_default :: process_flags where
  "process_flags_default =
     \<lparr>pf_trap_exit = False, pf_sensitive = False, pf_background_diagnostics = False\<rparr>"

datatype priority = PLow | PNormal | PHigh | PMax

record monitor_ref =
  mr_ref_id :: u64
  mr_target :: pid
  mr_target_name :: "u32 option"

definition MAX_X_REGISTERS :: nat where "MAX_X_REGISTERS = 64"

record pcb =
  pcb_pid :: pid
  pcb_state :: process_state
  pcb_flags :: process_flags
  pcb_priority :: priority
  pcb_reductions :: u64
  pcb_heap :: process_heap
  pcb_exec_context :: exec_context
  pcb_ip :: u64
  pcb_cp :: u64
  pcb_code :: "u64 list"
  pcb_x :: "beam_term list"
  pcb_y :: "beam_term list"
  pcb_fp :: u64
  pcb_live :: u32
  pcb_reduction_budget :: u64
  pcb_current_instruction :: u64
  pcb_bif_call :: "bif_call option"
  pcb_receive_state :: "receive_state option"
  pcb_exception_state :: "exception_state option"
  pcb_mailbox :: signal_queue
  pcb_save_queue :: save_queue
  pcb_links :: "pid list"
  pcb_monitors :: "monitor_ref list"
  pcb_group_leader :: pid
  pcb_dictionary :: "(beam_term \<times> beam_term) list"
  pcb_exit_reason :: beam_term
  pcb_registered_name :: "u32 option"
  pcb_initial_call :: "(u32 \<times> u32 \<times> u32) option"
  pcb_trace_flags :: trace_flags

definition pcb_new :: "pid \<Rightarrow> nat \<Rightarrow> pcb" where
  "pcb_new p heap_size =
     \<lparr>pcb_pid = p, pcb_state = Running, pcb_flags = process_flags_default,
      pcb_priority = PNormal, pcb_reductions = 0,
      pcb_heap = heap_new (heap_config_default\<lparr>initial_size := heap_size\<rparr>),
      pcb_exec_context = exec_context_new,
      pcb_ip = 0, pcb_cp = 0, pcb_code = [],
      pcb_x = replicate MAX_X_REGISTERS nil, pcb_y = replicate MAX_Y_REGISTERS nil,
      pcb_fp = 0, pcb_live = 0, pcb_reduction_budget = DEFAULT_REDUCTION_BUDGET,
      pcb_current_instruction = 0, pcb_bif_call = None, pcb_receive_state = None,
      pcb_exception_state = None, pcb_mailbox = queue_new, pcb_save_queue = save_queue_new,
      pcb_links = [], pcb_monitors = [], pcb_group_leader = p, pcb_dictionary = [],
      pcb_exit_reason = from_atom ATOM_NORMAL, pcb_registered_name = None,
      pcb_initial_call = None, pcb_trace_flags = 0\<rparr>"

section \<open>Interpreter state\<close>

definition load_code :: "u64 list \<Rightarrow> pcb \<Rightarrow> pcb" where
  "load_code c p = p\<lparr>pcb_code := c, pcb_ip := 0\<rparr>"

definition current_instruction :: "pcb \<Rightarrow> u64 option" where
  "current_instruction p =
     (if unat (pcb_ip p) < length (pcb_code p) then Some (pcb_code p ! unat (pcb_ip p)) else None)"

definition reset_interpreter_state :: "pcb \<Rightarrow> pcb" where
  "reset_interpreter_state p =
     p\<lparr>pcb_ip := 0, pcb_cp := 0, pcb_fp := 0, pcb_live := 0,
       pcb_x := replicate MAX_X_REGISTERS nil, pcb_y := replicate MAX_Y_REGISTERS nil,
       pcb_current_instruction := 0, pcb_bif_call := None, pcb_receive_state := None,
       pcb_exception_state := None, pcb_reduction_budget := DEFAULT_REDUCTION_BUDGET\<rparr>"

definition has_pending_bif :: "pcb \<Rightarrow> bool" where
  "has_pending_bif p \<longleftrightarrow> pcb_bif_call p \<noteq> None"

definition is_in_receive_wait :: "pcb \<Rightarrow> bool" where
  "is_in_receive_wait p \<longleftrightarrow> pcb_receive_state p \<noteq> None"

definition has_exception_handler :: "pcb \<Rightarrow> bool" where
  "has_exception_handler p \<longleftrightarrow> pcb_exception_state p \<noteq> None"

definition pcb_set_x :: "u32 \<Rightarrow> beam_term \<Rightarrow> pcb \<Rightarrow> pcb" where
  "pcb_set_x reg v p =
     (if unat reg < MAX_X_REGISTERS then p\<lparr>pcb_x := (pcb_x p)[unat reg := v]\<rparr> else p)"

definition pcb_get_x :: "u32 \<Rightarrow> pcb \<Rightarrow> beam_term" where
  "pcb_get_x reg p = (if unat reg < MAX_X_REGISTERS then pcb_x p ! unat reg else nil)"

definition pcb_set_y :: "u32 \<Rightarrow> beam_term \<Rightarrow> pcb \<Rightarrow> pcb" where
  "pcb_set_y slot v p =
     (if unat slot < MAX_Y_REGISTERS then p\<lparr>pcb_y := (pcb_y p)[unat slot := v]\<rparr> else p)"

definition pcb_get_y :: "u32 \<Rightarrow> pcb \<Rightarrow> beam_term" where
  "pcb_get_y slot p = (if unat slot < MAX_Y_REGISTERS then pcb_y p ! unat slot else nil)"

section \<open>The state machine\<close>

fun valid_transition :: "process_state \<Rightarrow> process_state \<Rightarrow> bool" where
  "valid_transition Running s = (s \<in> {Waiting, Exiting, GarbageCollecting, Suspended})"
| "valid_transition Waiting s = (s \<in> {Running, Exiting, Suspended})"
| "valid_transition Exiting s = (s = Dead)"
| "valid_transition GarbageCollecting s = (s \<in> {Running, Waiting})"
| "valid_transition Suspended s = (s \<in> {Running, Waiting})"
| "valid_transition Dead s = False"

fun state_debug :: "process_state \<Rightarrow> string" where
  "state_debug Running = ''Running''"
| "state_debug Waiting = ''Waiting''"
| "state_debug Exiting = ''Exiting''"
| "state_debug GarbageCollecting = ''GarbageCollecting''"
| "state_debug Suspended = ''Suspended''"
| "state_debug Dead = ''Dead''"

definition set_state :: "process_state \<Rightarrow> pcb \<Rightarrow> unit vm_result \<times> pcb" where
  "set_state s p =
     (if valid_transition (pcb_state p) s then (Inr (), p\<lparr>pcb_state := s\<rparr>)
      else (Inl (Generic (''Invalid state transition: '' @ state_debug (pcb_state p)
                          @ '' -> '' @ state_debug s)), p))"

text \<open>The transitions whose error the code drops.\<close>

definition exit :: "beam_term \<Rightarrow> pcb \<Rightarrow> pcb" where
  "exit reason p = snd (set_state Exiting (p\<lparr>pcb_exit_reason := reason\<rparr>))"

definition kill :: "pcb \<Rightarrow> pcb" where
  "kill p = snd (set_state Exiting (p\<lparr>pcb_exit_reason := from_atom ATOM_KILL\<rparr>))"

definition mark_dead :: "pcb \<Rightarrow> pcb" where
  "mark_dead p = snd (set_state Dead p)"

definition start_gc :: "pcb \<Rightarrow> pcb" where
  "start_gc p = snd (set_state GarbageCollecting p)"

definition end_gc :: "pcb \<Rightarrow> pcb" where
  "end_gc p = snd (set_state Running p)"

definition suspend :: "pcb \<Rightarrow> pcb" where
  "suspend p = snd (set_state Suspended p)"

definition resume :: "pcb \<Rightarrow> pcb" where
  "resume p = snd (set_state Running p)"

definition can_receive :: "pcb \<Rightarrow> bool" where
  "can_receive p \<longleftrightarrow> pcb_state p = Running \<or> pcb_state p = Waiting"

definition pcb_is_alive :: "pcb \<Rightarrow> bool" where
  "pcb_is_alive p \<longleftrightarrow>
     pcb_state p = Running \<or> pcb_state p = Waiting \<or> pcb_state p = Suspended"

definition is_running :: "pcb \<Rightarrow> bool" where
  "is_running p \<longleftrightarrow> pcb_state p = Running"

definition is_waiting :: "pcb \<Rightarrow> bool" where
  "is_waiting p \<longleftrightarrow> pcb_state p = Waiting"

definition is_exiting :: "pcb \<Rightarrow> bool" where
  "is_exiting p \<longleftrightarrow> pcb_state p = Exiting"

definition is_suspended :: "pcb \<Rightarrow> bool" where
  "is_suspended p \<longleftrightarrow> pcb_state p = Suspended"

definition is_exited :: "pcb \<Rightarrow> bool" where
  "is_exited p \<longleftrightarrow> pcb_state p = Exiting \<or> pcb_state p = Dead"

definition traps_exit :: "pcb \<Rightarrow> bool" where
  "traps_exit p \<longleftrightarrow> pf_trap_exit (pcb_flags p)"

section \<open>Signals\<close>

definition push_signal :: "signal \<Rightarrow> pcb \<Rightarrow> pcb" where
  "push_signal s p = p\<lparr>pcb_mailbox := push s (pcb_mailbox p)\<rparr>"

definition send_message :: "beam_term \<Rightarrow> pcb \<Rightarrow> pcb" where
  "send_message msg = push_signal (Message msg)"

definition send_exit :: "pid \<Rightarrow> beam_term \<Rightarrow> pcb \<Rightarrow> pcb" where
  "send_exit from reason = push_signal (Exit from reason)"

definition send_monitor_down :: "u64 \<Rightarrow> pid \<Rightarrow> beam_term \<Rightarrow> pcb \<Rightarrow> pcb" where
  "send_monitor_down ref_id target reason = push_signal (MonitorDown ref_id target reason)"

definition on_mailbox :: "(signal_queue \<Rightarrow> 'a \<times> signal_queue) \<Rightarrow> pcb \<Rightarrow> 'a \<times> pcb" where
  "on_mailbox f p = (let (a, q) = f (pcb_mailbox p) in (a, p\<lparr>pcb_mailbox := q\<rparr>))"

definition receive_message :: "pcb \<Rightarrow> beam_term option \<times> pcb" where
  "receive_message = on_mailbox (receive_message_trap_aware False)"

definition receive_signal :: "bool \<Rightarrow> pcb \<Rightarrow> signal option \<times> pcb" where
  "receive_signal trap_exit = on_mailbox (queue_receive_signal trap_exit)"

text \<open>The term of an exit signal for a process that traps exits: the tuple
  \<open>{'EXIT', From, Reason}\<close>, or the reason alone when the heap has no room for it.\<close>

definition exit_message :: "pid \<Rightarrow> beam_term \<Rightarrow> process_heap
    \<Rightarrow> (vm_error, beam_term \<times> process_heap) outcome" where
  "exit_message from reason h =
     bind_o (from_small (pid_to_raw from)) (\<lambda>from_term.
       case make_tuple [from_atom ATOM_EXIT, from_term, reason] h of
         (Some addr, h') \<Rightarrow> Ok (from_tuple (of_nat addr), h')
       | (None, h') \<Rightarrow> Ok (reason, h'))"

fun trap_exit_from ::
  "bool \<Rightarrow> process_heap \<Rightarrow> signal list
     \<Rightarrow> (vm_error, beam_term option \<times> process_heap \<times> signal list) outcome" where
  "trap_exit_from trap_exit h [] = Ok (None, h, [])"
| "trap_exit_from trap_exit h (Message t # ss) = Ok (Some t, h, ss)"
| "trap_exit_from trap_exit h (Exit from reason # ss) =
     (if trap_exit then bind_o (exit_message from reason h) (\<lambda>(t, h'). Ok (Some t, h', ss))
      else trap_exit_from trap_exit h ss)"
| "trap_exit_from trap_exit h (MonitorDown _ _ _ # ss) = trap_exit_from trap_exit h ss"

definition receive_message_with_trap_exit ::
  "bool \<Rightarrow> pcb \<Rightarrow> (vm_error, beam_term option \<times> pcb) outcome" where
  "receive_message_with_trap_exit trap_exit p =
     bind_o (trap_exit_from trap_exit (pcb_heap p) (signals (pcb_mailbox p)))
       (\<lambda>(t, h, ss). Ok (t, p\<lparr>pcb_heap := h, pcb_mailbox := SignalQueue ss\<rparr>))"

definition has_exit_pending :: "pcb \<Rightarrow> bool" where
  "has_exit_pending p \<longleftrightarrow> peek_exit (pcb_mailbox p) \<noteq> None"

definition pcb_peek_message :: "pcb \<Rightarrow> beam_term option" where
  "pcb_peek_message p = queue_peek_message (pcb_mailbox p)"

definition has_next_message :: "pcb \<Rightarrow> bool" where
  "has_next_message p \<longleftrightarrow> has_message (pcb_mailbox p)"

definition message_count :: "pcb \<Rightarrow> nat" where
  "message_count p = queue_message_count (pcb_mailbox p)"

definition pcb_peek_exit :: "pcb \<Rightarrow> (pid \<times> beam_term) option" where
  "pcb_peek_exit p = peek_exit (pcb_mailbox p)"

definition mailbox_len :: "pcb \<Rightarrow> nat" where
  "mailbox_len p = queue_len (pcb_mailbox p)"

text \<open>Selective receive: pop until a message matches or an exit signal comes; what was passed
  over is saved.\<close>

fun matching_from ::
  "(beam_term \<Rightarrow> bool) \<Rightarrow> signal list \<Rightarrow> save_queue \<Rightarrow> beam_term option \<times> signal list \<times> save_queue"
  where
  "matching_from P [] sq = (None, [], sq)"
| "matching_from P (Message t # ss) sq =
     (if P t then (Some t, ss, sq) else matching_from P ss (save (Message t) sq))"
| "matching_from P (Exit _ _ # ss) sq = (Some (from_atom ATOM_NORMAL), ss, sq)"
| "matching_from P (MonitorDown r t d # ss) sq = matching_from P ss (save (MonitorDown r t d) sq)"

definition receive_matching :: "(beam_term \<Rightarrow> bool) \<Rightarrow> pcb \<Rightarrow> beam_term option \<times> pcb" where
  "receive_matching P p =
     (let (t, ss, sq) = matching_from P (signals (pcb_mailbox p)) (pcb_save_queue p)
      in (t, p\<lparr>pcb_mailbox := SignalQueue ss, pcb_save_queue := sq\<rparr>))"

definition restore_save_queue :: "pcb \<Rightarrow> pcb" where
  "restore_save_queue p =
     (let (ss, sq) = restore (pcb_save_queue p)
      in p\<lparr>pcb_mailbox := fold push ss (pcb_mailbox p), pcb_save_queue := sq\<rparr>)"

definition queue_signal :: "signal \<Rightarrow> pcb \<Rightarrow> pcb" where
  "queue_signal s p = p\<lparr>pcb_save_queue := save s (pcb_save_queue p)\<rparr>"

definition queue_message :: "beam_term \<Rightarrow> pcb \<Rightarrow> pcb" where
  "queue_message msg = queue_signal (Message msg)"

section \<open>Links and monitors\<close>

definition link :: "pid \<Rightarrow> pcb \<Rightarrow> pcb" where
  "link other p =
     (if other \<notin> set (pcb_links p) then p\<lparr>pcb_links := pcb_links p @ [other]\<rparr> else p)"

definition unlink :: "pid \<Rightarrow> pcb \<Rightarrow> pcb" where
  "unlink other p = p\<lparr>pcb_links := filter (\<lambda>l. l \<noteq> other) (pcb_links p)\<rparr>"

definition has_link :: "pid \<Rightarrow> pcb \<Rightarrow> bool" where
  "has_link other p \<longleftrightarrow> other \<in> set (pcb_links p)"

definition add_monitor ::
  "pid \<Rightarrow> u32 option \<Rightarrow> u64 \<Rightarrow> pcb \<Rightarrow> u64 \<times> u64 \<times> pcb" where
  "add_monitor target target_name counter p =
     (counter, counter + 1,
      p\<lparr>pcb_monitors := pcb_monitors p @
          [\<lparr>mr_ref_id = counter, mr_target = target, mr_target_name = target_name\<rparr>]\<rparr>)"

definition remove_monitor :: "u64 \<Rightarrow> pcb \<Rightarrow> bool \<times> pcb" where
  "remove_monitor ref_id p =
     (let ms = filter (\<lambda>m. mr_ref_id m \<noteq> ref_id) (pcb_monitors p)
      in (length ms < length (pcb_monitors p), p\<lparr>pcb_monitors := ms\<rparr>))"

definition remove_monitors_for_target :: "pid \<Rightarrow> pcb \<Rightarrow> pcb" where
  "remove_monitors_for_target target p =
     p\<lparr>pcb_monitors := filter (\<lambda>m. mr_target m \<noteq> target) (pcb_monitors p)\<rparr>"

definition has_monitor_for :: "pid \<Rightarrow> pcb \<Rightarrow> bool" where
  "has_monitor_for target p \<longleftrightarrow> list_ex (\<lambda>m. mr_target m = target) (pcb_monitors p)"

section \<open>Dictionary\<close>

definition put :: "beam_term \<Rightarrow> beam_term \<Rightarrow> pcb \<Rightarrow> pcb" where
  "put k v p = p\<lparr>pcb_dictionary := AList.update k v (pcb_dictionary p)\<rparr>"

definition dict_get :: "beam_term \<Rightarrow> pcb \<Rightarrow> beam_term option" where
  "dict_get k p = map_of (pcb_dictionary p) k"

definition erase :: "beam_term \<Rightarrow> pcb \<Rightarrow> beam_term option \<times> pcb" where
  "erase k p = (map_of (pcb_dictionary p) k, p\<lparr>pcb_dictionary := AList.delete k (pcb_dictionary p)\<rparr>)"

definition is_key :: "beam_term \<Rightarrow> pcb \<Rightarrow> bool" where
  "is_key k p \<longleftrightarrow> map_of (pcb_dictionary p) k \<noteq> None"

definition dictionary_len :: "pcb \<Rightarrow> nat" where
  "dictionary_len p = length (pcb_dictionary p)"

definition dictionary_keys :: "pcb \<Rightarrow> beam_term list" where
  "dictionary_keys p = map fst (pcb_dictionary p)"

definition dictionary_to_vec :: "pcb \<Rightarrow> (beam_term \<times> beam_term) list" where
  "dictionary_to_vec p = pcb_dictionary p"

section \<open>Introspection\<close>

datatype process_info_key =
    KStatus
  | KMessageQueueLen
  | KMessages
  | KLinks
  | KMonitors
  | KDictionary
  | KGroupLeader
  | KPriority
  | KTrapExit
  | KRegisteredName
  | KHeapSize
  | KStackSize
  | KReductions
  | KTotalHeapSize
  | KMemory
  | KGarbageCollection
  | KInitialCall

datatype process_info_value =
    VAtom u32
  | VInt i64
  | VList "beam_term list"
  | VPid pid

fun status_atom :: "process_state \<Rightarrow> u32" where
  "status_atom Running = ATOM_RUNNING"
| "status_atom Waiting = ATOM_WAITING"
| "status_atom Exiting = ATOM_EXITING"
| "status_atom GarbageCollecting = ATOM_GARBAGE_COLLECTING"
| "status_atom Suspended = ATOM_SUSPENDED"
| "status_atom Dead = ATOM_DEAD"

fun priority_atom :: "priority \<Rightarrow> u32" where
  "priority_atom PLow = ATOM_LOW"
| "priority_atom PNormal = ATOM_NORMAL"
| "priority_atom PHigh = ATOM_HIGH"
| "priority_atom PMax = ATOM_MAX"

definition process_info ::
  "pcb \<Rightarrow> (vm_error, (process_info_key \<times> process_info_value) list) outcome" where
  "process_info p =
     bind_o (map_o (\<lambda>l. from_small (pid_to_raw l)) (pcb_links p)) (\<lambda>link_pids. Ok (
       [(KStatus, VAtom (status_atom (pcb_state p))),
        (KMessageQueueLen, VInt (of_nat (queue_len (pcb_mailbox p)))),
        (KMessages, VList (messages (pcb_mailbox p))),
        (KLinks, VList link_pids),
        (KMonitors, VInt (of_nat (length (pcb_monitors p)))),
        (KDictionary, VInt (of_nat (dictionary_len p))),
        (KGroupLeader, VPid (pcb_group_leader p)),
        (KPriority, VAtom (priority_atom (pcb_priority p))),
        (KTrapExit, VAtom (if pf_trap_exit (pcb_flags p) then 1 else 0))]
       @ (case pcb_registered_name p of Some n \<Rightarrow> [(KRegisteredName, VAtom n)] | None \<Rightarrow> [])
       @ [(KHeapSize, VInt (of_nat (used_size (pcb_heap p)))),
          (KStackSize, VInt (of_nat (length (pcb_code p)))),
          (KReductions, VInt (pcb_reductions p))]))"

section \<open>Roots\<close>

fun add_signal ::
  "root_category \<Rightarrow> signal \<Rightarrow> root_set \<Rightarrow> (vm_error, root_set) outcome" where
  "add_signal c (Message t) r = Ok (add t c r)"
| "add_signal c (Exit from reason) r =
     bind_o (add_small (pid_to_raw from) c r) (\<lambda>r. Ok (add reason c r))"
| "add_signal c (MonitorDown ref_id target reason) r =
     bind_o (add_small ref_id c r) (\<lambda>r.
     bind_o (add_small (pid_to_raw target) c r) (\<lambda>r. Ok (add reason c r)))"

definition add_monitor_roots :: "monitor_ref \<Rightarrow> root_set \<Rightarrow> (vm_error, root_set) outcome" where
  "add_monitor_roots m r =
     bind_o (add_small (mr_ref_id m) MonitorRoot r) (\<lambda>r.
     bind_o (add_small (pid_to_raw (mr_target m)) MonitorRoot r) (\<lambda>r.
       case mr_target_name m of
         Some n \<Rightarrow> add_small (ucast n) MonitorRoot r
       | None \<Rightarrow> Ok r))"

definition fill_roots :: "pcb \<Rightarrow> root_set \<Rightarrow> (vm_error, root_set) outcome" where
  "fill_roots p r =
     (let r = fold (\<lambda>i. add_x (of_nat i) (pcb_x p ! i)) [0..<ROOT_MAX_X_REGISTERS] r;
          r = fold (\<lambda>i. add_y (of_nat i) (pcb_y p ! i)) [0..<MAX_Y_REGISTERS] r
      in
      bind_o (from_small (pcb_cp p)) (\<lambda>cp. let r = add_cp cp r in
      bind_o (from_small (pcb_ip p)) (\<lambda>ip. let r = add_ip ip r in
      bind_o (fold_o (add_signal MailboxSignal) (signals (pcb_mailbox p)) r) (\<lambda>r.
      bind_o (fold_o (add_signal SaveQueueRoot) (saved (pcb_save_queue p)) r) (\<lambda>r.
      let r = add_dictionary (pcb_dictionary p) r in
      bind_o (fold_o (\<lambda>l. add_small (pid_to_raw l) LinkRoot) (pcb_links p) r) (\<lambda>r.
      bind_o (fold_o add_monitor_roots (pcb_monitors p) r) (\<lambda>r.
      bind_o (add_small (pid_to_raw (pcb_group_leader p)) GroupLeaderRoot r) (\<lambda>r.
        case pcb_registered_name p of
          Some n \<Rightarrow> add_small (ucast n) RegisteredNameRoot r
        | None \<Rightarrow> Ok r))))))))"

definition root_count :: "pcb \<Rightarrow> nat" where
  "root_count p =
     ROOT_MAX_X_REGISTERS + 2 + queue_len (pcb_mailbox p) + save_len (pcb_save_queue p)
     + dictionary_len p * 2 + length (pcb_links p) + length (pcb_monitors p) * 2 + 1
     + (if pcb_registered_name p \<noteq> None then 1 else 0)"

end
