(* ===== verification/Process_Laws.thy ===== *)
theory Process_Laws
  imports Pcb
begin

text \<open>
  What the operations of a process control block promise: the life cycle of a process,
  selective receive and its save queue, exit signals as messages, the dictionary, links and
  monitors, and the roots a collection gets.
\<close>

section \<open>The life cycle\<close>

text \<open>One accepted state change, as the code makes it.\<close>

inductive life_step :: "pcb \<Rightarrow> pcb \<Rightarrow> bool" where
  "set_state s p = (Inr (), q) \<Longrightarrow> life_step p q"

inductive_cases life_stepE: "life_step p q"

lemma set_state_cases:
  "set_state s p = (r, q) \<Longrightarrow>
   (r = Inr () \<and> valid_transition (pcb_state p) s \<and> q = p\<lparr>pcb_state := s\<rparr>)
   \<or> (\<exists>e. r = Inl e) \<and> \<not> valid_transition (pcb_state p) s \<and> q = p"
  by (auto simp: set_state_def split: if_splits)

lemma life_step_exited: "life_step p q \<Longrightarrow> is_exited p \<Longrightarrow> is_exited q \<and> pcb_state q = Dead"
  by (auto elim!: life_stepE dest!: set_state_cases simp: is_exited_def)

lemma life_steps_exited:
  "life_step\<^sup>*\<^sup>* p q \<Longrightarrow> is_exited p \<Longrightarrow> is_exited q \<and> (pcb_state p = Dead \<longrightarrow> q = p)"
proof (induction rule: converse_rtranclp_induct)
  case base
  then show ?case by simp
next
  case (step p q')
  then have "pcb_state p \<noteq> Dead"
    by (auto elim!: life_stepE dest!: set_state_cases)
  with step life_step_exited [OF step.hyps(1) step.prems] show ?case by simp
qed

section \<open>Selective receive\<close>

text \<open>A signal that selective receive passes over.\<close>

fun passed_over :: "(beam_term \<Rightarrow> bool) \<Rightarrow> signal \<Rightarrow> bool" where
  "passed_over P (Message t) = (\<not> P t)"
| "passed_over P (Exit _ _) = False"
| "passed_over P (MonitorDown _ _ _) = True"

lemma matching_from_spec:
  "matching_from P ss sq =
     (let skipped = takeWhile (passed_over P) ss; rest = dropWhile (passed_over P) ss;
          sq' = SaveQueue (saved sq @ skipped)
      in case rest of
           [] \<Rightarrow> (None, [], sq')
         | Message t # ss' \<Rightarrow> (Some t, ss', sq')
         | _ # ss' \<Rightarrow> (Some (from_atom ATOM_NORMAL), ss', sq'))"
proof (induction P ss sq rule: matching_from.induct)
  case (2 P t ss sq)
  then show ?case by (cases "P t") (auto simp: save_def Let_def)
qed (simp_all add: save_def Let_def)

lemma restore_appends:
  "restore_save_queue p =
     p\<lparr>pcb_mailbox := SignalQueue (signals (pcb_mailbox p) @ saved (pcb_save_queue p)),
       pcb_save_queue := SaveQueue []\<rparr>"
proof -
  have "fold push ss q = SignalQueue (signals q @ ss)" for ss q
    by (induction ss arbitrary: q) (simp_all add: push_def)
  then show ?thesis by (simp add: restore_save_queue_def restore_def)
qed

section \<open>Exit signals as messages\<close>

lemma pid_raw_below: "unat (pid_to_raw p) < 2 ^ 29"
proof -
  have "pid_to_raw p AND mask 29 = pid_to_raw p"
    by (rule bit_word_eqI)
      (auto simp: pid_to_raw_def Let_def field_masks bit_simps)
  then have "pid_to_raw p \<le> mask 29" by (metis word_and_le1 and.commute)
  then show ?thesis
    by (simp add: word_le_nat_alt mask_eq_exp_minus_1)
qed

lemma from_small_pid [simp]:
  "from_small (pid_to_raw p) = Ok (Term (i64_to_u64_bits (pid_to_raw p)))"
proof -
  have "uint (pid_to_raw p) < int (2 ^ 29)"
    using pid_raw_below [of p] by (simp only: uint_nat of_nat_less_iff)
  moreover have "- (2 ^ 63) \<le> sint (pid_to_raw p)" using sint_ge [of "pid_to_raw p"] by simp
  ultimately have "is_small_int (pid_to_raw p)"
    using uint_sint_i64 [of "pid_to_raw p"] uint_lt2p [of "pid_to_raw p"]
    by (auto simp: is_small_int_iff split: if_splits)
  then show ?thesis by (simp add: from_small_def)
qed

lemma trap_exit_from_true:
  "trap_exit_from True h ss =
     (case dropWhile is_monitor_down ss of
        [] \<Rightarrow> Ok (None, h, [])
      | Message t # ss' \<Rightarrow> Ok (Some t, h, ss')
      | Exit from reason # ss' \<Rightarrow>
          bind_o (exit_message from reason h) (\<lambda>(t, h'). Ok (Some t, h', ss'))
      | MonitorDown _ _ _ # ss' \<Rightarrow> Ok (None, h, ss'))"
proof (induction ss)
  case (Cons s ss)
  then show ?case by (cases s) simp_all
qed simp

lemma exit_message_Ok:
  "exit_message from reason h =
     (case make_tuple [from_atom ATOM_EXIT, Term (i64_to_u64_bits (pid_to_raw from)), reason] h of
        (Some addr, h') \<Rightarrow> Ok (from_tuple (of_nat addr), h')
      | (None, h') \<Rightarrow> Ok (reason, h'))"
  by (simp add: exit_message_def split: prod.split option.split)

section \<open>Dictionary, links and monitors\<close>

lemma dict_laws:
  "dict_get j (put k v p) = (if j = k then Some v else dict_get j p)"
  "dict_get j (snd (erase k p)) = (if j = k then None else dict_get j p)"
  "fst (erase k p) = dict_get k p"
  "is_key k p \<longleftrightarrow> dict_get k p \<noteq> None"
  by (simp_all add: dict_get_def put_def erase_def is_key_def update_conv' delete_conv')

definition keys_distinct :: "pcb \<Rightarrow> bool" where
  "keys_distinct p \<longleftrightarrow> distinct (dictionary_keys p)"

lemma keys_distinct_step:
  "keys_distinct (pcb_new q n)"
  "keys_distinct p \<Longrightarrow> keys_distinct (put k v p)"
  "keys_distinct p \<Longrightarrow> keys_distinct (snd (erase k p))"
  by (simp_all add: keys_distinct_def dictionary_keys_def pcb_new_def put_def erase_def
      distinct_update distinct_delete)

lemma dictionary_len_card:
  "keys_distinct p \<Longrightarrow> dictionary_len p = card (dom (\<lambda>k. dict_get k p))"
proof -
  assume "keys_distinct p"
  then have "card (fst ` set (pcb_dictionary p)) = length (pcb_dictionary p)"
    using distinct_card [of "map fst (pcb_dictionary p)"]
    by (simp add: keys_distinct_def dictionary_keys_def)
  then show ?thesis
    by (simp add: dictionary_len_def dict_get_def dom_map_of_conv_image_fst)
qed

lemma links_distinct:
  "distinct (pcb_links p) \<Longrightarrow> distinct (pcb_links (link q p))"
  "distinct (pcb_links p) \<Longrightarrow> distinct (pcb_links (unlink q p))"
  by (simp_all add: link_def unlink_def)

lemma has_link_laws:
  "has_link l (link q p) \<longleftrightarrow> l = q \<or> has_link l p"
  "has_link l (unlink q p) \<longleftrightarrow> l \<noteq> q \<and> has_link l p"
  by (auto simp: has_link_def link_def unlink_def)

section \<open>Roots\<close>

lemma add_small_Ok: "add_small v c r = Ok r' \<Longrightarrow> root_set_len r' = root_set_len r + 1"
  by (auto simp: add_small_def root_set_len_def bind_o_Ok_iff)

fun signal_roots :: "signal \<Rightarrow> nat" where
  "signal_roots (Message _) = 1"
| "signal_roots (Exit _ _) = 2"
| "signal_roots (MonitorDown _ _ _) = 3"

lemma add_signal_Ok: "add_signal c s r = Ok r' \<Longrightarrow> root_set_len r' = root_set_len r + signal_roots s"
  by (cases s) (auto simp: bind_o_Ok_iff root_set_len_def dest!: add_small_Ok)

lemma add_monitor_roots_Ok:
  "add_monitor_roots m r = Ok r' \<Longrightarrow>
   root_set_len r' = root_set_len r + (if mr_target_name m = None then 2 else 3)"
  by (auto simp: add_monitor_roots_def bind_o_Ok_iff dest!: add_small_Ok split: option.splits)

lemma add_registers_len:
  "root_set_len (fold (\<lambda>i. add_x (f i) (g i)) is r) = root_set_len r + length is"
  "root_set_len (fold (\<lambda>i. add_y (f i) (g i)) is r) = root_set_len r + length is"
  by (induction "is" arbitrary: r) (simp_all add: add_x_def add_y_def root_set_len_def)

lemma add_dictionary_len: "root_set_len (add_dictionary d r) = root_set_len r + 2 * length d"
  by (induction d arbitrary: r) (auto simp: add_dictionary_def root_set_len_def)

lemma fold_roots_len:
  "fold_o (add_signal c) ss r = Ok r' \<Longrightarrow>
     root_set_len r' = root_set_len r + sum_list (map signal_roots ss)"
  "fold_o (\<lambda>l. add_small (pid_to_raw l) LinkRoot) ls r = Ok r' \<Longrightarrow>
     root_set_len r' = root_set_len r + sum_list (map (\<lambda>_. 1) ls)"
  "fold_o add_monitor_roots ms r = Ok r' \<Longrightarrow>
     root_set_len r' = root_set_len r
       + sum_list (map (\<lambda>m. if mr_target_name m = None then 2 else 3) ms)"
  by (rule fold_o_measure, erule add_signal_Ok add_small_Ok add_monitor_roots_Ok, assumption)+

lemma fill_roots_len:
  assumes "fill_roots p r = Ok r'"
  shows "root_set_len r' = root_set_len r + 64 + 256 + 2
    + sum_list (map signal_roots (signals (pcb_mailbox p)))
    + sum_list (map signal_roots (saved (pcb_save_queue p)))
    + 2 * length (pcb_dictionary p) + length (pcb_links p)
    + sum_list (map (\<lambda>m. if mr_target_name m = None then 2 else 3) (pcb_monitors p))
    + 1 + (if pcb_registered_name p = None then 0 else 1)"
proof -
  have regs: "root_set_len (fold (\<lambda>i. add_y (of_nat i) (pcb_y p ! i)) [0..<MAX_Y_REGISTERS]
      (fold (\<lambda>i. add_x (of_nat i) (pcb_x p ! i)) [0..<ROOT_MAX_X_REGISTERS] r))
      = root_set_len r + 64 + 256"
    by (simp add: add_registers_len ROOT_MAX_X_REGISTERS_def MAX_Y_REGISTERS_def)
  have ci: "root_set_len (add_ip b (add_cp a r0)) = root_set_len r0 + 2" for a b r0
    by (simp add: add_ip_def add_cp_def root_set_len_def)
  from assms obtain cp ip r1 r2 r3 r4 r5 where steps:
    "fold_o (add_signal MailboxSignal) (signals (pcb_mailbox p))
       (add_ip ip (add_cp cp (fold (\<lambda>i. add_y (of_nat i) (pcb_y p ! i)) [0..<MAX_Y_REGISTERS]
         (fold (\<lambda>i. add_x (of_nat i) (pcb_x p ! i)) [0..<ROOT_MAX_X_REGISTERS] r)))) = Ok r1"
    "fold_o (add_signal SaveQueueRoot) (saved (pcb_save_queue p)) r1 = Ok r2"
    "fold_o (\<lambda>l. add_small (pid_to_raw l) LinkRoot) (pcb_links p)
       (add_dictionary (pcb_dictionary p) r2) = Ok r3"
    "fold_o add_monitor_roots (pcb_monitors p) r3 = Ok r4"
    "add_small (pid_to_raw (pcb_group_leader p)) GroupLeaderRoot r4 = Ok r5"
    "(case pcb_registered_name p of Some n \<Rightarrow> add_small (ucast n) RegisteredNameRoot r5
       | None \<Rightarrow> Ok r5) = Ok r'"
    by (auto simp: fill_roots_def Let_def bind_o_Ok_iff)
  from steps(6) have "root_set_len r' = root_set_len r5 + (if pcb_registered_name p = None then 0 else 1)"
    by (auto dest!: add_small_Ok split: option.splits)
  then show ?thesis
    using fold_roots_len(1) [OF steps(1)] fold_roots_len(1) [OF steps(2)]
      fold_roots_len(2) [OF steps(3)] fold_roots_len(3) [OF steps(4)]
      add_small_Ok [OF steps(5)] by (simp add: regs ci add_dictionary_len sum_list_triv)
qed

section \<open>Properties\<close>

text \<open>The life cycle ends: whatever accepted state changes follow, a process that is exiting or
  dead is never alive, runnable or suspended again, and a dead process does not change.  Each
  accepted change is a transition of the table, and a refused one leaves the process as it was.\<close>

theorem exited_is_final:
  assumes "life_step\<^sup>*\<^sup>* p q" and "is_exited p"
  shows "is_exited q \<and> \<not> pcb_is_alive q \<and> \<not> can_receive q \<and> (pcb_state p = Dead \<longrightarrow> q = p)
    \<and> (\<forall>s. \<not> valid_transition (pcb_state q) s \<longrightarrow> snd (set_state s q) = q)"
  using life_steps_exited [OF assms]
  by (auto simp: is_exited_def pcb_is_alive_def can_receive_def set_state_def)

theorem exited_is_final_witness:
  "is_exited (mark_dead (kill (pcb_new (pid_new 1 0 0) 8)))"
proof -
  let ?p = "kill (pcb_new (pid_new 1 0 0) 8)"
  have "set_state Dead ?p = (Inr (), mark_dead ?p)" and x: "is_exited ?p"
    by (simp_all add: set_state_def mark_dead_def kill_def pcb_new_def is_exited_def)
  then have "life_step\<^sup>*\<^sup>* ?p (mark_dead ?p)" by (intro r_into_rtranclp life_step.intros)
  with x show ?thesis using exited_is_final by blast
qed

text \<open>Asking a process to exit records the reason in every state, but takes effect only in a
  running or waiting process: a suspended or collecting process keeps its state, the rejected
  transition being dropped, and so a suspended one stays alive.\<close>

theorem exit_takes_effect:
  "pcb_exit_reason (exit reason p) = reason
   \<and> (pcb_state p \<in> {Running, Waiting} \<longrightarrow> pcb_state (exit reason p) = Exiting)
   \<and> (pcb_state p \<notin> {Running, Waiting} \<longrightarrow> pcb_state (exit reason p) = pcb_state p)
   \<and> (pcb_is_alive (exit reason p) \<longleftrightarrow> pcb_state p = Suspended)"
  by (cases "pcb_state p") (simp_all add: exit_def set_state_def pcb_is_alive_def)

theorem exit_takes_effect_witness:
  "pcb_state (exit nil (suspend (pcb_new (pid_new 1 0 0) 8))) = Suspended"
  using exit_takes_effect [of nil "suspend (pcb_new (pid_new 1 0 0) 8)"]
  by (simp add: suspend_def set_state_def pcb_new_def)

text \<open>C30. Selective receive answers the first message that matches, unless an exit signal comes
  before it, which ends the receive with the atom normal whatever its reason; every signal
  passed over is saved in order and none is lost.  Restoring the save queue then puts the
  passed-over signals behind the ones that are still in the mailbox.\<close>

theorem selective_receive:
  assumes "receive_matching P p = (r, p')"
  shows "let ss = signals (pcb_mailbox p);
             skipped = takeWhile (passed_over P) ss; rest = dropWhile (passed_over P) ss
         in r = (case rest of [] \<Rightarrow> None | Message t # _ \<Rightarrow> Some t | _ \<Rightarrow> Some (from_atom ATOM_NORMAL))
          \<and> signals (pcb_mailbox p') = tl rest
          \<and> saved (pcb_save_queue p') = saved (pcb_save_queue p) @ skipped
          \<and> signals (pcb_mailbox (restore_save_queue p'))
              = tl rest @ saved (pcb_save_queue p) @ skipped
          \<and> saved (pcb_save_queue (restore_save_queue p')) = []"
proof (cases "dropWhile (passed_over P) (signals (pcb_mailbox p))")
  case Nil
  then show ?thesis
    using assms
    by (auto simp: receive_matching_def matching_from_spec restore_appends Let_def
        simp del: dropWhile_eq_Nil_conv)
next
  case (Cons s rest)
  then show ?thesis
    using assms
    by (cases s) (auto simp: receive_matching_def matching_from_spec restore_appends Let_def)
qed

theorem selective_receive_witness:
  "fst (receive_matching (\<lambda>t. t = from_atom 5)
     (send_message (from_atom 6) (send_message (from_atom 5) (send_message (from_atom 4)
        (pcb_new (pid_new 1 0 0) 8))))) = Some (from_atom 5)"
proof -
  let ?p = "send_message (from_atom 6) (send_message (from_atom 5) (send_message (from_atom 4)
    (pcb_new (pid_new 1 0 0) 8)))"
  have "signals (pcb_mailbox ?p) = [Message (from_atom 4), Message (from_atom 5), Message (from_atom 6)]"
    by (simp add: send_message_def push_signal_def push_def pcb_new_def queue_new_def)
  moreover have "from_atom 4 \<noteq> from_atom 5" by (simp add: from_atom_def)
  ultimately show ?thesis
    using selective_receive [OF prod.collapse [symmetric], of ?p "\<lambda>t. t = from_atom 5"]
    by (simp add: Let_def)
qed

text \<open>A process that traps exits and whose next signal, monitor notices apart, is an exit
  signal receives a fresh tuple of the exit atom, the packed sender and the reason when its
  heap has room for four words, and the bare reason when it has not; the signal is consumed,
  and everything already on the heap stays.\<close>

theorem trapped_exit_message:
  assumes "heap_ok (pcb_heap p)"
    and "dropWhile is_monitor_down (signals (pcb_mailbox p)) = Exit from reason # ss"
  shows "\<exists>p'. signals (pcb_mailbox p') = ss
    \<and> (if can_alloc 4 (pcb_heap p)
       then receive_message_with_trap_exit True p = Ok (Some (from_tuple (of_nat (hp (pcb_heap p)))), p')
         \<and> tuple_arity (hp (pcb_heap p)) (pcb_heap p') = 3
         \<and> map (\<lambda>i. read_tuple_element (hp (pcb_heap p)) i (pcb_heap p')) [0, 1, 2]
             = [from_atom ATOM_EXIT, Term (i64_to_u64_bits (pid_to_raw from)), reason]
         \<and> (\<forall>j < hp (pcb_heap p). word_or_0 j (pcb_heap p') = word_or_0 j (pcb_heap p))
       else receive_message_with_trap_exit True p = Ok (Some reason, p')
         \<and> pcb_heap p' = pcb_heap p)"
proof -
  let ?h = "pcb_heap p" and ?f = "Term (i64_to_u64_bits (pid_to_raw from))"
  obtain r h' where m: "make_tuple [from_atom ATOM_EXIT, ?f, reason] ?h = (r, h')" by force
  let ?es = "[from_atom ATOM_EXIT, ?f, reason]"
  have len: "length ?es = 3" "1 + length ?es = 4" "length ?es < 2 ^ 24 - 1" "length ?es < 2 ^ 32"
    by simp_all
  note sp = make_tuple_spec [OF assms(1) len(3), unfolded len(1,2)]
  let ?p' = "p\<lparr>pcb_heap := h', pcb_mailbox := SignalQueue ss\<rparr>"
  have e: "trap_exit_from True ?h (signals (pcb_mailbox p)) =
      (case r of Some addr \<Rightarrow> Ok (Some (from_tuple (of_nat addr)), h', ss)
        | None \<Rightarrow> Ok (Some reason, h', ss))"
    by (simp add: trap_exit_from_true assms(2) exit_message_Ok m split: option.split)
  show ?thesis
  proof (cases r)
    case None
    with sp m have "h' = ?h" by simp
    moreover have "\<not> can_alloc 4 ?h"
      using make_None_iff(3) [OF len(4), of ?h, unfolded len(2)] m None by simp
    ultimately show ?thesis
      using e None by (intro exI [of _ ?p']) (simp add: receive_message_with_trap_exit_def)
  next
    case (Some addr)
    have ok: "addr = hp ?h" "unat (tuple_arity addr h') = 3"
      "\<forall>i<3. read_tuple_element addr (of_nat i) h' = [from_atom ATOM_EXIT, ?f, reason] ! i"
      "\<forall>j<hp ?h. word_or_0 j h' = word_or_0 j ?h"
      using sp unfolding m Some prod.case option.case by blast+
    moreover have "can_alloc 4 ?h"
      using make_None_iff(3) [OF len(4), of ?h, unfolded len(2)] m Some by simp
    moreover have "tuple_arity addr h' = 3" using ok(2) by (simp add: word_unat_eq_iff)
    ultimately show ?thesis
      using e Some ok(3) [rule_format, of 0] ok(3) [rule_format, of 1] ok(3) [rule_format, of 2]
      by (intro exI [of _ ?p']) (simp add: receive_message_with_trap_exit_def)
  qed
qed

theorem trapped_exit_message_witness:
  "\<exists>p'. receive_message_with_trap_exit True
       (send_exit (pid_new 7 0 0) nil (send_monitor_down 1 (pid_new 9 0 0) nil (pcb_new (pid_new 1 0 0) 8)))
     = Ok (Some (from_tuple 0), p')"
proof -
  let ?p = "send_exit (pid_new 7 0 0) nil
    (send_monitor_down 1 (pid_new 9 0 0) nil (pcb_new (pid_new 1 0 0) 8))"
  have h: "pcb_heap ?p = heap_new (heap_config_default\<lparr>initial_size := 8\<rparr>)"
    by (simp add: send_exit_def send_monitor_down_def push_signal_def pcb_new_def)
  have "signals (pcb_mailbox ?p) = [MonitorDown 1 (pid_new 9 0 0) nil, Exit (pid_new 7 0 0) nil]"
    by (simp add: send_exit_def send_monitor_down_def push_signal_def push_def pcb_new_def queue_new_def)
  then have d: "dropWhile is_monitor_down (signals (pcb_mailbox ?p)) = [Exit (pid_new 7 0 0) nil]"
    by simp
  have "heap_ok (pcb_heap ?p)" "can_alloc 4 (pcb_heap ?p)" "hp (pcb_heap ?p) = 0"
    unfolding h by (simp_all add: heap_new_ok) (simp_all add: can_alloc_def heap_new_def)
  with trapped_exit_message [OF _ d] show ?thesis by auto
qed

text \<open>Collecting the roots of a process finds more than \<^verbatim>\<open>root_count\<close> announces: the 256 Y
  registers are missing from the count, and an exit signal counts as one root instead of two,
  a monitor notice as one instead of three and a named monitor as two instead of three.\<close>

theorem root_count_undercounts:
  assumes "fill_roots p r = Ok r'"
  shows "root_set_len r' = root_set_len r + root_count p + 256
    + sum_list (map (\<lambda>s. signal_roots s - 1) (signals (pcb_mailbox p) @ saved (pcb_save_queue p)))
    + length (filter (\<lambda>m. mr_target_name m \<noteq> None) (pcb_monitors p))"
proof -
  have s: "sum_list (map signal_roots ss) = length ss + sum_list (map (\<lambda>s. signal_roots s - 1) ss)" for ss
  proof (induction ss)
    case (Cons s ss)
    then show ?case by (cases s) simp_all
  qed simp
  have m: "sum_list (map (\<lambda>m. if mr_target_name m = None then 2 else 3) ms)
      = 2 * length ms + length (filter (\<lambda>m. mr_target_name m \<noteq> None) ms)" for ms :: "monitor_ref list"
    by (induction ms) auto
  show ?thesis
    using fill_roots_len [OF assms]
    by (simp add: s m root_count_def queue_len_def save_len_def dictionary_len_def
        ROOT_MAX_X_REGISTERS_def)
qed

theorem root_count_undercounts_witness:
  "\<exists>r'. fill_roots (send_exit (pid_new 7 0 0) nil (pcb_new (pid_new 1 0 0) 8)) root_set_new = Ok r'
     \<and> root_set_len r' = root_count (send_exit (pid_new 7 0 0) nil (pcb_new (pid_new 1 0 0) 8)) + 257"
proof -
  let ?p = "send_exit (pid_new 7 0 0) nil (pcb_new (pid_new 1 0 0) 8)"
  have z: "from_small 0 = Ok (Term (i64_to_u64_bits 0))"
    by (simp add: from_small_def is_small_int_iff)
  have f: "signals (pcb_mailbox ?p) = [Exit (pid_new 7 0 0) nil]" "saved (pcb_save_queue ?p) = []"
    "pcb_links ?p = []" "pcb_monitors ?p = []" "pcb_registered_name ?p = None"
    "pcb_ip ?p = 0" "pcb_cp ?p = 0"
    by (simp_all add: send_exit_def push_signal_def push_def pcb_new_def queue_new_def
        save_queue_new_def)
  then obtain r' where r': "fill_roots ?p root_set_new = Ok r'"
    by (simp add: fill_roots_def Let_def z add_small_def)
  then show ?thesis
    using root_count_undercounts [OF r'] by (simp add: f root_set_len_def root_set_new_def)
qed

end
