(* ===== verification/Proc_Table.thy ===== *)
theory Proc_Table
  imports Pcb Atom_Table
begin

text \<open>
  The process table (\<^verbatim>\<open>ProcessTable\<close> of \<^verbatim>\<open>crates/chimera_erlang_beam_process/src/lib.rs\<close>)
  and the functions that work on several processes of it: links, monitors, exit propagation.

  A reference to a process inside the table is the index of its slot; what is done through it
  is a modification of that slot.  The registry is the association list of the hash map.  The
  atomic pid counter is a field of the table.
\<close>

section \<open>State\<close>

record process_handle =
  ph_index :: nat
  ph_pid :: pid

definition process_handle_new :: "nat \<Rightarrow> pid \<Rightarrow> process_handle" where
  "process_handle_new i p = \<lparr>ph_index = i, ph_pid = p\<rparr>"

record process_table =
  tb_processes :: "pcb option list"
  tb_next_index :: nat
  tb_pid_counter :: u32
  tb_creation :: u32
  tb_registry :: "(u32 \<times> pid) list"
  tb_atom_table :: atom_table
  tb_connected_nodes :: "string list"
  tb_reuse_queue :: "pid list"

definition process_table_new :: "u32 \<Rightarrow> process_table" where
  "process_table_new creation =
     \<lparr>tb_processes = [], tb_next_index = 0, tb_pid_counter = 1, tb_creation = creation,
      tb_registry = [], tb_atom_table = atom_table_new, tb_connected_nodes = [],
      tb_reuse_queue = []\<rparr>"

definition intern_atom :: "string \<Rightarrow> process_table \<Rightarrow> u32 \<times> process_table" where
  "intern_atom n t =
     (let (r, atoms) = intern n (tb_atom_table t)
      in (case r of Inr i \<Rightarrow> i | Inl _ \<Rightarrow> - 1, t\<lparr>tb_atom_table := atoms\<rparr>))"

definition add_connected_node :: "string \<Rightarrow> process_table \<Rightarrow> process_table" where
  "add_connected_node n t =
     (if n \<notin> set (tb_connected_nodes t)
      then t\<lparr>tb_connected_nodes := tb_connected_nodes t @ [n]\<rparr> else t)"

definition remove_connected_node :: "string \<Rightarrow> process_table \<Rightarrow> process_table" where
  "remove_connected_node n t =
     t\<lparr>tb_connected_nodes := filter (\<lambda>m. m \<noteq> n) (tb_connected_nodes t)\<rparr>"

section \<open>Look-up\<close>

definition get_index_by_pid :: "pid \<Rightarrow> process_table \<Rightarrow> nat option" where
  "get_index_by_pid p t = slot_index (\<lambda>c. pcb_pid c = p) (tb_processes t)"

definition get_by_index :: "nat \<Rightarrow> process_table \<Rightarrow> pcb option" where
  "get_by_index i t = (if i < length (tb_processes t) then tb_processes t ! i else None)"

definition get_by_pid :: "pid \<Rightarrow> process_table \<Rightarrow> (nat \<times> pcb) option" where
  "get_by_pid p t =
     (case get_index_by_pid p t of
        Some i \<Rightarrow> map_option (Pair i) (get_by_index i t)
      | None \<Rightarrow> None)"

definition get_by_handle :: "process_handle \<Rightarrow> process_table \<Rightarrow> pcb option" where
  "get_by_handle h t = get_by_index (ph_index h) t"

definition modify :: "nat \<Rightarrow> (pcb \<Rightarrow> pcb) \<Rightarrow> process_table \<Rightarrow> process_table" where
  "modify i f t = t\<lparr>tb_processes := modify_slot i f (tb_processes t)\<rparr>"

definition get_exit_reason :: "pid \<Rightarrow> process_table \<Rightarrow> beam_term option" where
  "get_exit_reason p t =
     map_option pcb_exit_reason (find (\<lambda>c. pcb_pid c = p) (slot_contents (tb_processes t)))"

definition is_alive :: "pid \<Rightarrow> process_table \<Rightarrow> bool" where
  "is_alive p t \<longleftrightarrow>
     list_ex (\<lambda>s. case s of Some c \<Rightarrow> pcb_pid c = p \<and> pcb_is_alive c | None \<Rightarrow> False)
       (tb_processes t)"

definition table_len :: "process_table \<Rightarrow> nat" where
  "table_len t = length (filter (\<lambda>s. s \<noteq> None) (tb_processes t))"

definition table_is_empty :: "process_table \<Rightarrow> bool" where
  "table_is_empty t \<longleftrightarrow> table_len t = 0"

definition all_pids :: "process_table \<Rightarrow> pid list" where
  "all_pids t = map pcb_pid (slot_contents (tb_processes t))"

section \<open>Spawning and termination\<close>

definition next_pid :: "process_table \<Rightarrow> pid \<times> process_table" where
  "next_pid t =
     (if tb_reuse_queue t \<noteq> []
      then (pid_with_incremented_serial (last (tb_reuse_queue t)),
            t\<lparr>tb_reuse_queue := butlast (tb_reuse_queue t)\<rparr>)
      else (pid_new (tb_pid_counter t) 0 (tb_creation t),
            t\<lparr>tb_pid_counter := tb_pid_counter t + 1\<rparr>))"

definition spawn ::
  "nat \<Rightarrow> process_table \<Rightarrow> (vm_error, (process_handle \<times> pid) \<times> process_table) outcome" where
  "spawn heap_size t0 =
     (let (p, t) = next_pid t0;
          i = tb_next_index t;
          slots = (if i \<ge> length (tb_processes t) then tb_processes t @ [None] else tb_processes t);
          c = pcb_new p heap_size
      in if i < length slots
         then Ok ((process_handle_new i p, p),
                  t\<lparr>tb_processes := slots[i := Some c], tb_next_index := tb_next_index t + 1\<rparr>)
         else Panic IndexOutOfBounds)"

definition mark_exited :: "pid \<Rightarrow> beam_term \<Rightarrow> process_table \<Rightarrow> unit vm_result \<times> process_table"
  where
  "mark_exited p reason t =
     (case get_by_pid p t of
        Some (i, _) \<Rightarrow> (Inr (), modify i (exit reason) t)
      | None \<Rightarrow> (Inl ProcessNotFound, t))"

definition terminate :: "pid \<Rightarrow> process_table \<Rightarrow> unit vm_result \<times> process_table" where
  "terminate p t =
     (case get_by_pid p t of
        Some (i, _) \<Rightarrow>
          (let t = modify i mark_dead t;
               t = t\<lparr>tb_reuse_queue := tb_reuse_queue t @ [p]\<rparr>
           in (Inr (), t\<lparr>tb_processes := (tb_processes t)[i := None]\<rparr>))
      | None \<Rightarrow> (Inl ProcessNotFound, t))"

definition cleanup :: "process_table \<Rightarrow> process_table" where
  "cleanup t =
     (let slots = filter (\<lambda>s. s \<noteq> None) (tb_processes t)
      in t\<lparr>tb_processes := slots, tb_next_index := length slots\<rparr>)"

section \<open>Registry and messages\<close>

definition whereis :: "u32 \<Rightarrow> process_table \<Rightarrow> pid option" where
  "whereis n t = map_of (tb_registry t) n"

definition register :: "u32 \<Rightarrow> pid \<Rightarrow> process_table \<Rightarrow> unit vm_result \<times> process_table" where
  "register n p t =
     (if (case whereis n t of Some q \<Rightarrow> q \<noteq> p | None \<Rightarrow> False) then (Inl ProcessNotFound, t)
      else
        (case get_by_pid p t of
           Some (i, _) \<Rightarrow>
             (let t = modify i (\<lambda>c. c\<lparr>pcb_registered_name := Some n\<rparr>) t
              in (Inr (), t\<lparr>tb_registry := AList.update n p (tb_registry t)\<rparr>))
         | None \<Rightarrow> (Inl ProcessNotFound, t)))"

definition unregister :: "u32 \<Rightarrow> process_table \<Rightarrow> bool \<times> process_table" where
  "unregister n t =
     (case whereis n t of
        Some p \<Rightarrow>
          (let t = t\<lparr>tb_registry := AList.delete n (tb_registry t)\<rparr>
           in (True,
               case get_by_pid p t of
                 Some (i, _) \<Rightarrow> modify i (\<lambda>c. c\<lparr>pcb_registered_name := None\<rparr>) t
               | None \<Rightarrow> t))
      | None \<Rightarrow> (False, t))"

definition registered_names :: "process_table \<Rightarrow> u32 list" where
  "registered_names t = map fst (tb_registry t)"

definition send :: "pid \<Rightarrow> beam_term \<Rightarrow> process_table \<Rightarrow> unit vm_result \<times> process_table" where
  "send to msg t =
     (case get_by_pid to t of
        Some (i, c) \<Rightarrow>
          if pcb_is_alive c then (Inr (), modify i (send_message msg) t)
          else (Inl ProcessNotFound, t)
      | None \<Rightarrow> (Inl ProcessNotFound, t))"

definition send_by_name :: "u32 \<Rightarrow> beam_term \<Rightarrow> process_table \<Rightarrow> unit vm_result \<times> process_table"
  where
  "send_by_name n msg t =
     (case whereis n t of Some p \<Rightarrow> send p msg t | None \<Rightarrow> (Inl ProcessNotFound, t))"

section \<open>Links\<close>

definition both_indices :: "pid \<Rightarrow> pid \<Rightarrow> process_table \<Rightarrow> (nat \<times> nat) vm_result" where
  "both_indices a b t =
     (case get_index_by_pid a t of
        None \<Rightarrow> Inl ProcessNotFound
      | Some i \<Rightarrow>
          (case get_index_by_pid b t of None \<Rightarrow> Inl ProcessNotFound | Some j \<Rightarrow> Inr (i, j)))"

text \<open>\<^verbatim>\<open>table.get_by_index(i).ok_or(ProcessNotFound)?\<close> followed by a modification.\<close>

definition modify_at ::
  "nat \<Rightarrow> (pcb \<Rightarrow> pcb) \<Rightarrow> process_table \<Rightarrow> unit vm_result \<times> process_table" where
  "modify_at i f t =
     (case get_by_index i t of
        Some _ \<Rightarrow> (Inr (), modify i f t)
      | None \<Rightarrow> (Inl ProcessNotFound, t))"

definition both_modified ::
  "pid \<Rightarrow> pid \<Rightarrow> (pcb \<Rightarrow> pcb) \<Rightarrow> (pcb \<Rightarrow> pcb) \<Rightarrow> process_table
     \<Rightarrow> unit vm_result \<times> process_table" where
  "both_modified a b f g t =
     (case both_indices a b t of
        Inl e \<Rightarrow> (Inl e, t)
      | Inr (i, j) \<Rightarrow>
          (case modify_at i f t of
             (Inl e, t1) \<Rightarrow> (Inl e, t1)
           | (Inr _, t1) \<Rightarrow> modify_at j g t1))"

definition bidirectional_link_with_table ::
  "pid \<Rightarrow> pid \<Rightarrow> process_table \<Rightarrow> unit vm_result \<times> process_table" where
  "bidirectional_link_with_table a b = both_modified a b (link b) (link a)"

definition bidirectional_unlink_with_table ::
  "pid \<Rightarrow> pid \<Rightarrow> process_table \<Rightarrow> unit vm_result \<times> process_table" where
  "bidirectional_unlink_with_table a b = both_modified a b (unlink b) (unlink a)"

definition are_linked :: "pid \<Rightarrow> pid \<Rightarrow> process_table \<Rightarrow> (vm_error, bool) outcome" where
  "are_linked a b t =
     (case both_indices a b t of
        Inl _ \<Rightarrow> Ok False
      | Inr (i, j) \<Rightarrow>
          (case get_by_index i t of
             None \<Rightarrow> Panic UnwrapNone
           | Some ca \<Rightarrow>
               (case get_by_index j t of
                  None \<Rightarrow> Panic UnwrapNone
                | Some cb \<Rightarrow> Ok (has_link b ca \<and> has_link a cb))))"

section \<open>Monitors\<close>

text \<open>The global counter of monitor references goes in and out.\<close>

definition monitor_as ::
  "pid \<Rightarrow> pid \<Rightarrow> u32 option \<Rightarrow> u64 \<times> process_table \<Rightarrow> u64 vm_result \<times> u64 \<times> process_table"
  where
  "monitor_as a target target_name = (\<lambda>(counter, t).
     case get_index_by_pid a t of
       None \<Rightarrow> (Inl ProcessNotFound, counter, t)
     | Some i \<Rightarrow>
         (case get_by_index i t of
            None \<Rightarrow> (Inl ProcessNotFound, counter, t)
          | Some c \<Rightarrow>
              (let (r, counter', c') = add_monitor target target_name counter c
               in (Inr r, counter', modify i (\<lambda>_. c') t))))"

definition monitor_with_table ::
  "pid \<Rightarrow> pid \<Rightarrow> u64 \<times> process_table \<Rightarrow> u64 vm_result \<times> u64 \<times> process_table" where
  "monitor_with_table a b = monitor_as a b None"

definition monitor_by_name_with_table ::
  "pid \<Rightarrow> u32 \<Rightarrow> u64 \<times> process_table \<Rightarrow> u64 vm_result \<times> u64 \<times> process_table" where
  "monitor_by_name_with_table a n = monitor_as a (pid_new 0 0 0) (Some n)"

definition demonitor_with_table ::
  "pid \<Rightarrow> u64 \<Rightarrow> process_table \<Rightarrow> bool vm_result \<times> process_table" where
  "demonitor_with_table a ref_id t =
     (case get_index_by_pid a t of
        None \<Rightarrow> (Inl ProcessNotFound, t)
      | Some i \<Rightarrow>
          (case get_by_index i t of
             None \<Rightarrow> (Inl ProcessNotFound, t)
           | Some c \<Rightarrow>
               (let (b, c') = remove_monitor ref_id c in (Inr b, modify i (\<lambda>_. c') t))))"

section \<open>Exit propagation\<close>

definition notify_monitor :: "pid \<Rightarrow> beam_term \<Rightarrow> pid \<Rightarrow> process_table \<Rightarrow> process_table" where
  "notify_monitor exited reason p t =
     (case get_by_pid p t of
        Some (i, c) \<Rightarrow>
          (case find (\<lambda>m. mr_target m = exited) (pcb_monitors c) of
             Some m \<Rightarrow> modify i (send_monitor_down (mr_ref_id m) exited reason) t
           | None \<Rightarrow> t)
      | None \<Rightarrow> t)"

definition propagate_monitors :: "pid \<Rightarrow> beam_term \<Rightarrow> process_table \<Rightarrow> process_table" where
  "propagate_monitors exited reason t =
     (let monitoring_pids =
            filter (\<lambda>p. case get_by_pid p t of Some (_, c) \<Rightarrow> has_monitor_for exited c | None \<Rightarrow> False)
              (all_pids t)
      in fold (notify_monitor exited reason) monitoring_pids t)"

definition exit_linked :: "pid \<Rightarrow> beam_term \<Rightarrow> pid \<Rightarrow> process_table \<Rightarrow> process_table" where
  "exit_linked from reason p t =
     (case get_by_pid p t of
        Some (i, c) \<Rightarrow>
          if traps_exit c then modify i (send_exit from reason) t
          else modify i (exit reason) t
      | None \<Rightarrow> t)"

definition propagate_exit :: "pid \<Rightarrow> beam_term \<Rightarrow> process_table \<Rightarrow> process_table" where
  "propagate_exit from reason t =
     (case get_by_pid from t of
        None \<Rightarrow> t
      | Some (_, c) \<Rightarrow> fold (exit_linked from reason) (pcb_links c) t)"

end
