(* ===== verification/Table_Laws.thy ===== *)
theory Table_Laws
  imports Proc_Table Process_Laws
begin

text \<open>
  What the process table promises: the invariant of the table under every sequence of
  operations, fresh pids, isolation of the processes from each other, the registry, links
  between two processes and the propagation of exits.
\<close>

section \<open>The invariant\<close>

definition live_ids :: "process_table \<Rightarrow> u32 list" where
  "live_ids t = map pid_id (all_pids t @ tb_reuse_queue t)"

definition ptable_ok :: "process_table \<Rightarrow> bool" where
  "ptable_ok t \<longleftrightarrow>
     tb_next_index t = length (tb_processes t) \<and>
     distinct (live_ids t) \<and>
     (\<forall>i\<in>set (live_ids t). i < tb_pid_counter t) \<and>
     (\<forall>p\<in>set (all_pids t) \<union> set (tb_reuse_queue t). pid_creation p = tb_creation t) \<and>
     distinct (registered_names t) \<and>
     table_ok (tb_atom_table t)"

lemma ptable_ok_new: "ptable_ok (process_table_new k)"
  by (simp add: ptable_ok_def process_table_new_def live_ids_def all_pids_def registered_names_def
      table_new_ok)

text \<open>A change that touches the processes without renaming, adding or removing any.\<close>

definition same_pids :: "process_table \<Rightarrow> process_table \<Rightarrow> bool" where
  "same_pids t t' \<longleftrightarrow>
     map (map_option pcb_pid) (tb_processes t') = map (map_option pcb_pid) (tb_processes t) \<and>
     tb_next_index t' = tb_next_index t \<and> tb_pid_counter t' = tb_pid_counter t \<and>
     tb_creation t' = tb_creation t \<and> tb_reuse_queue t' = tb_reuse_queue t"

lemma same_pids_refl [simp]: "same_pids t t"
  by (simp add: same_pids_def)

lemma same_pids_trans: "same_pids t t' \<Longrightarrow> same_pids t' t'' \<Longrightarrow> same_pids t t''"
  by (simp add: same_pids_def)

lemma all_pids_slots: "all_pids t = slot_contents (map (map_option pcb_pid) (tb_processes t))"
proof -
  have "map pcb_pid (slot_contents xs) = slot_contents (map (map_option pcb_pid) xs)" for xs
  proof (induction xs)
    case (Cons x xs)
    then show ?case by (cases x) simp_all
  qed simp
  then show ?thesis by (simp add: all_pids_def)
qed

lemma same_pids_all_pids: "same_pids t t' \<Longrightarrow> all_pids t' = all_pids t"
  by (simp add: all_pids_slots same_pids_def)

lemma same_pids_length: "same_pids t t' \<Longrightarrow> length (tb_processes t') = length (tb_processes t)"
  unfolding same_pids_def by (metis length_map)

lemma get_index_slots:
  "get_index_by_pid p t = slot_index (\<lambda>q. q = p) (map (map_option pcb_pid) (tb_processes t))"
proof -
  have "slot_index (\<lambda>c. pcb_pid c = p) xs = slot_index (\<lambda>q. q = p) (map (map_option pcb_pid) xs)" for xs
  proof (induction xs)
    case (Cons x xs)
    then show ?case by (cases x) simp_all
  qed simp
  then show ?thesis by (simp add: get_index_by_pid_def)
qed

lemma same_pids_index: "same_pids t t' \<Longrightarrow> get_index_by_pid p t' = get_index_by_pid p t"
  by (simp add: get_index_slots same_pids_def)

lemma same_pids_ok:
  assumes "same_pids t t'" and "ptable_ok t"
    and "distinct (registered_names t')" and "table_ok (tb_atom_table t')"
  shows "ptable_ok t'"
  using assms same_pids_all_pids [OF assms(1)] same_pids_length [OF assms(1)]
  by (auto simp: ptable_ok_def live_ids_def same_pids_def)

lemma same_pids_counter: "same_pids t t' \<Longrightarrow> tb_pid_counter t' = tb_pid_counter t"
  by (simp add: same_pids_def)

section \<open>Modifications of one slot\<close>

lemma modify_fields [simp]:
  "tb_next_index (modify i f t) = tb_next_index t"
  "tb_pid_counter (modify i f t) = tb_pid_counter t"
  "tb_creation (modify i f t) = tb_creation t"
  "tb_registry (modify i f t) = tb_registry t"
  "tb_atom_table (modify i f t) = tb_atom_table t"
  "tb_reuse_queue (modify i f t) = tb_reuse_queue t"
  "tb_connected_nodes (modify i f t) = tb_connected_nodes t"
  by (simp_all add: modify_def)

lemma get_by_index_modify:
  "get_by_index j (modify i f t) = (if j = i then map_option f (get_by_index j t) else get_by_index j t)"
  by (simp add: get_by_index_def modify_def modify_slot_nth)

lemma same_pids_modify:
  assumes "\<And>c. get_by_index i t = Some c \<Longrightarrow> pcb_pid (f c) = pcb_pid c"
  shows "same_pids t (modify i f t)"
proof -
  have "map (map_option pcb_pid) (tb_processes (modify i f t)) = map (map_option pcb_pid) (tb_processes t)"
  proof (rule nth_equalityI)
    fix j assume "j < length (map (map_option pcb_pid) (tb_processes (modify i f t)))"
    then show "map (map_option pcb_pid) (tb_processes (modify i f t)) ! j
        = map (map_option pcb_pid) (tb_processes t) ! j"
      using assms by (cases "tb_processes t ! j") (auto simp: modify_def modify_slot_nth get_by_index_def)
  qed (simp add: modify_def)
  then show ?thesis by (simp add: same_pids_def)
qed

lemma get_by_pid_iff:
  "get_by_pid p t = Some (i, c) \<longleftrightarrow> get_index_by_pid p t = Some i \<and> get_by_index i t = Some c"
  by (auto simp: get_by_pid_def split: option.splits)

lemma get_index_Some:
  "get_index_by_pid p t = Some i \<Longrightarrow> \<exists>c. get_by_index i t = Some c \<and> pcb_pid c = p"
  unfolding get_index_by_pid_def get_by_index_def by (auto dest!: slot_index_Some)

lemma get_by_pid_pid: "get_by_pid p t = Some (i, c) \<Longrightarrow> pcb_pid c = p"
  using get_index_Some by (fastforce simp: get_by_pid_iff)

lemma get_index_None_iff: "get_index_by_pid p t = None \<longleftrightarrow> p \<notin> set (all_pids t)"
  by (auto simp: get_index_by_pid_def slot_index_None all_pids_def)

lemma get_by_pid_None_iff: "get_by_pid p t = None \<longleftrightarrow> p \<notin> set (all_pids t)"
  unfolding get_index_None_iff [symmetric]
  by (auto simp: get_by_pid_def split: option.split dest: get_index_Some)

text \<open>The process a pid names, which is what the clients of the table see.\<close>

definition proc :: "process_table \<Rightarrow> pid \<Rightarrow> pcb option" where
  "proc t p = map_option snd (get_by_pid p t)"

lemma proc_Some: "proc t p = Some c \<Longrightarrow> pcb_pid c = p"
  by (auto simp: proc_def dest: get_by_pid_pid)

lemma get_by_pid_proc:
  "get_by_pid p t = Some (i, c) \<Longrightarrow> proc t p = Some c"
  by (simp add: proc_def)

lemma proc_modify:
  assumes "get_by_pid p t = Some (i, c)" and "\<And>c. pcb_pid (f c) = pcb_pid c"
  shows "proc (modify i f t) = (proc t)(p \<mapsto> f c)"
proof
  fix q
  have s: "get_index_by_pid q (modify i f t) = get_index_by_pid q t"
    using same_pids_index [OF same_pids_modify] assms(2) by blast
  have "get_index_by_pid q t = Some i \<Longrightarrow> q = p"
    using get_index_Some [of q t i] assms(1) by (auto simp: get_by_pid_iff dest: get_index_Some)
  then show "proc (modify i f t) q = ((proc t)(p \<mapsto> f c)) q"
    using assms(1) s
    by (auto simp: proc_def get_by_pid_def get_by_index_modify split: option.splits)
qed

lemma pcb_pid_kept [simp]:
  "pcb_pid (snd (set_state s c)) = pcb_pid c"
  "pcb_pid (exit r c) = pcb_pid c"
  "pcb_pid (mark_dead c) = pcb_pid c"
  "pcb_pid (push_signal sg c) = pcb_pid c"
  "pcb_pid (send_message m c) = pcb_pid c"
  "pcb_pid (send_exit q r c) = pcb_pid c"
  "pcb_pid (send_monitor_down i q r c) = pcb_pid c"
  "pcb_pid (link q c) = pcb_pid c"
  "pcb_pid (unlink q c) = pcb_pid c"
  "pcb_pid (snd (remove_monitor i c)) = pcb_pid c"
  "pcb_pid (snd (snd (add_monitor q n i c))) = pcb_pid c"
  by (simp_all add: set_state_def exit_def mark_dead_def push_signal_def send_message_def
      send_exit_def send_monitor_down_def link_def unlink_def remove_monitor_def add_monitor_def
      Let_def)

section \<open>Operations that keep every pid\<close>

lemma same_pids_modify' [simp]: "(\<And>c. pcb_pid (f c) = pcb_pid c) \<Longrightarrow> same_pids t (modify i f t)"
  by (rule same_pids_modify)

lemma same_pids_fold:
  "(\<And>x t. same_pids t (f x t)) \<Longrightarrow> same_pids t (fold f xs t)"
proof (induction xs arbitrary: t)
  case (Cons x xs)
  then show ?case using same_pids_trans by (metis fold_simps(2))
qed simp

lemma same_pids_fields:
  "same_pids t (t\<lparr>tb_registry := r\<rparr>)" "same_pids t (t\<lparr>tb_atom_table := a\<rparr>)"
  by (simp_all add: same_pids_def)

lemma same_pids_ops:
  "same_pids t (snd (mark_exited p reason t))"
  "same_pids t (snd (register n p t))"
  "same_pids t (snd (unregister n t))"
  "same_pids t (snd (send p msg t))"
  "same_pids t (snd (send_by_name n msg t))"
  "same_pids t (snd (intern_atom name t))"
  "same_pids t (propagate_exit p reason t)"
  "same_pids t (propagate_monitors p reason t)"
proof -
  show "same_pids t (snd (mark_exited p reason t))"
    by (simp add: mark_exited_def split: option.split prod.split)
  show "same_pids t (snd (send p msg t))" for p
    by (simp add: send_def split: option.split prod.split)
  then show "same_pids t (snd (send_by_name n msg t))"
    by (simp add: send_by_name_def split: option.split)
  show "same_pids t (snd (register n p t))"
    by (auto simp: register_def Let_def intro: same_pids_trans [OF same_pids_modify' same_pids_fields(1)]
        split: option.split prod.split)
  show "same_pids t (snd (unregister n t))"
    by (auto simp: unregister_def Let_def same_pids_fields
        intro: same_pids_trans [OF same_pids_fields(1) same_pids_modify']
        split: option.split prod.split)
  show "same_pids t (snd (intern_atom name t))"
    by (simp add: intern_atom_def same_pids_fields split: prod.split)
  have "same_pids t (exit_linked p reason q t)" for q t
    by (simp add: exit_linked_def split: option.split prod.split)
  then show "same_pids t (propagate_exit p reason t)"
    by (simp add: propagate_exit_def same_pids_fold split: option.split prod.split)
  have "same_pids t (notify_monitor p reason q t)" for q t
    by (simp add: notify_monitor_def split: option.split prod.split)
  then show "same_pids t (propagate_monitors p reason t)"
    by (simp add: propagate_monitors_def same_pids_fold)
qed

lemma same_pids_links:
  assumes "\<And>c. pcb_pid (f c) = pcb_pid c" and "\<And>c. pcb_pid (g c) = pcb_pid c"
  shows "same_pids t (snd (both_modified a b f g t))"
  using assms
  by (auto simp: both_modified_def modify_at_def split: option.split sum.split prod.split
      intro: same_pids_trans [OF same_pids_modify' same_pids_modify'])

lemma same_pids_monitors:
  "same_pids t (snd (snd (monitor_as a target nm (counter, t))))"
  "same_pids t (snd (demonitor_with_table a ref_id t))"
  by (auto simp: monitor_as_def demonitor_with_table_def add_monitor_def remove_monitor_def Let_def
      split: option.split intro: same_pids_modify)

section \<open>Spawn, terminate, cleanup\<close>

lemma u32_inc:
  fixes x :: u32
  assumes "unat x + 1 < 2 ^ 32"
  shows "unat (x + 1) = unat x + 1" and "x < x + 1"
proof -
  show "unat (x + 1) = unat x + 1"
    using assms by (simp add: unat_word_ariths)
  then show "x < x + 1" by (simp add: word_less_nat_alt)
qed

lemma pid_inc_fields [simp]:
  "pid_id (pid_with_incremented_serial p) = pid_id p"
  "pid_creation (pid_with_incremented_serial p) = pid_creation p"
  "pid_id (pid_new i s c) = i" "pid_serial (pid_new i s c) = s" "pid_creation (pid_new i s c) = c"
  by (simp_all add: pid_with_incremented_serial_def pid_new_def)

lemma next_pid_spec:
  assumes "ptable_ok t" and "tb_reuse_queue t \<noteq> [] \<or> unat (tb_pid_counter t) + 1 < 2 ^ 32"
    and "next_pid t = (p, t')"
  shows "distinct (pid_id p # live_ids t') \<and> (\<forall>i\<in>set (pid_id p # live_ids t'). i < tb_pid_counter t')
    \<and> (\<forall>q\<in>{p} \<union> set (all_pids t') \<union> set (tb_reuse_queue t'). pid_creation q = tb_creation t)
    \<and> tb_processes t' = tb_processes t \<and> tb_next_index t' = tb_next_index t
    \<and> tb_creation t' = tb_creation t \<and> tb_registry t' = tb_registry t
    \<and> tb_atom_table t' = tb_atom_table t"
proof (cases "tb_reuse_queue t = []")
  case True
  have e: "p = pid_new (tb_pid_counter t) 0 (tb_creation t)"
    "t' = t\<lparr>tb_pid_counter := tb_pid_counter t + 1\<rparr>"
    using assms(3) True by (simp_all add: next_pid_def)
  have "unat (tb_pid_counter t) + 1 < 2 ^ 32" using assms(2) True by simp
  from u32_inc(2) [OF this] have lt: "tb_pid_counter t < tb_pid_counter t + 1" .
  show ?thesis
    using assms(1) lt True unfolding e ptable_ok_def live_ids_def all_pids_def
    by (auto dest: less_trans)
next
  case False
  then obtain qs q where qs: "tb_reuse_queue t = qs @ [q]" by (metis rev_exhaust)
  have e: "p = pid_with_incremented_serial q" "t' = t\<lparr>tb_reuse_queue := qs\<rparr>"
    using assms(3) by (simp_all add: next_pid_def qs)
  show ?thesis
    using assms(1) unfolding e ptable_ok_def live_ids_def all_pids_def by (auto simp: qs)
qed

text \<open>In a table that satisfies the invariant a spawn fills the slot behind the last one.\<close>

lemma spawn_spec:
  assumes "ptable_ok t" and "next_pid t = (p, t')"
    and "tb_processes t' = tb_processes t" and "tb_next_index t' = tb_next_index t"
  shows "spawn n t = Ok ((process_handle_new (length (tb_processes t)) p, p),
    t'\<lparr>tb_processes := tb_processes t @ [Some (pcb_new p n)],
       tb_next_index := length (tb_processes t) + 1\<rparr>)"
  using assms by (simp add: spawn_def ptable_ok_def Let_def)

lemma next_pid_frame:
  "tb_processes (snd (next_pid t)) = tb_processes t" "tb_next_index (snd (next_pid t)) = tb_next_index t"
  by (simp_all add: next_pid_def)

lemma spawn_ok:
  assumes "ptable_ok t" and "tb_reuse_queue t \<noteq> [] \<or> unat (tb_pid_counter t) + 1 < 2 ^ 32"
  shows "\<exists>p t'. spawn n t = Ok ((process_handle_new (length (tb_processes t)) p, p), t')
    \<and> ptable_ok t' \<and> p \<notin> set (all_pids t) \<and> pid_id p \<notin> pid_id ` set (all_pids t)
    \<and> tb_processes t' = tb_processes t @ [Some (pcb_new p n)]
    \<and> unat (tb_pid_counter t') \<le> unat (tb_pid_counter t) + 1"
proof -
  obtain p t1 where n: "next_pid t = (p, t1)" by force
  have fr: "tb_processes t1 = tb_processes t" "tb_next_index t1 = tb_next_index t"
    using next_pid_frame [of t] n by simp_all
  note sp = next_pid_spec [OF assms n]
  let ?t' = "t1\<lparr>tb_processes := tb_processes t @ [Some (pcb_new p n)],
       tb_next_index := length (tb_processes t) + 1\<rparr>"
  have pids: "all_pids ?t' = all_pids t @ [p]" "all_pids t1 = all_pids t"
    by (simp_all add: all_pids_def fr pcb_new_def)
  have "ptable_ok ?t'"
    using sp assms(1) unfolding ptable_ok_def live_ids_def pids
    by (auto simp: registered_names_def)
  moreover have "pid_id p \<notin> pid_id ` set (all_pids t)"
    using sp unfolding live_ids_def pids by auto
  moreover have "unat (tb_pid_counter t1) \<le> unat (tb_pid_counter t) + 1"
    using n by (auto simp: next_pid_def unat_word_ariths split: if_splits)
  ultimately show ?thesis
    using spawn_spec [OF assms(1) n fr] by force
qed

lemma terminate_spec:
  assumes "get_by_pid p t = Some (i, c)"
  shows "terminate p t =
    (Inr (), t\<lparr>tb_reuse_queue := tb_reuse_queue t @ [p], tb_processes := (tb_processes t)[i := None]\<rparr>)"
  using assms
  by (simp add: terminate_def Let_def modify_def modify_slot_def)

lemma terminate_pids:
  assumes "get_by_pid p t = Some (i, c)"
  shows "mset (all_pids t) = add_mset p (mset (all_pids (snd (terminate p t))))"
proof -
  have "i < length (tb_processes t)" "tb_processes t ! i = Some c" "pcb_pid c = p"
    using assms get_by_pid_pid [OF assms] by (auto simp: get_by_pid_iff get_by_index_def split: if_splits)
  with slot_contents_clear [OF this(1,2)] show ?thesis
    by (simp add: terminate_spec [OF assms] all_pids_def mset_map)
qed

lemma terminate_ok:
  assumes "ptable_ok t"
  shows "ptable_ok (snd (terminate p t))"
proof (cases "get_by_pid p t")
  case None
  then show ?thesis using assms by (simp add: terminate_def)
next
  case (Some ic)
  then obtain i c where g: "get_by_pid p t = Some (i, c)" by (cases ic) auto
  let ?t' = "snd (terminate p t)"
  have m: "mset (all_pids ?t' @ tb_reuse_queue ?t') = mset (all_pids t @ tb_reuse_queue t)"
    using terminate_pids [OF g] by (simp add: terminate_spec [OF g])
  then have "mset (live_ids ?t') = mset (live_ids t)" unfolding live_ids_def mset_map by simp
  moreover from m have "set (all_pids ?t') \<union> set (tb_reuse_queue ?t') = set (all_pids t) \<union> set (tb_reuse_queue t)"
    by (metis set_append mset_eq_setD)
  ultimately show ?thesis
    using assms mset_eq_setD [of "live_ids ?t'" "live_ids t"]
      mset_eq_imp_distinct_iff [of "live_ids ?t'" "live_ids t"]
    unfolding ptable_ok_def by (auto simp: terminate_spec [OF g] registered_names_def)
qed

lemma cleanup_pids: "all_pids (cleanup t) = all_pids t"
proof -
  have "slot_contents (filter (\<lambda>s. s \<noteq> None) xs) = slot_contents xs" for xs :: "pcb option list"
  proof (induction xs)
    case (Cons x xs)
    then show ?case by (cases x) simp_all
  qed simp
  then show ?thesis by (simp add: all_pids_def cleanup_def Let_def)
qed

lemma cleanup_ok: "ptable_ok t \<Longrightarrow> ptable_ok (cleanup t)"
  unfolding ptable_ok_def live_ids_def cleanup_pids
  by (simp add: cleanup_def Let_def registered_names_def)

section \<open>What a pid names\<close>

lemma proc_find: "proc t p = find (\<lambda>c. pcb_pid c = p) (slot_contents (tb_processes t))"
proof -
  have e: "find P (slot_contents xs)
      = (case slot_index P xs of None \<Rightarrow> None | Some i \<Rightarrow> if i < length xs then xs ! i else None)" for P and xs :: "pcb option list"
    by (induction P xs rule: slot_index.induct) (auto split: option.splits)
  then show ?thesis
    unfolding e
    by (simp add: proc_def get_by_pid_def get_index_by_pid_def get_by_index_def option.map_comp
        comp_def option.map_ident split: option.split)
qed

lemma proc_Some_iff:
  assumes "distinct (all_pids t)"
  shows "proc t p = Some c \<longleftrightarrow> c \<in> set (slot_contents (tb_processes t)) \<and> pcb_pid c = p"
proof -
  have "distinct (map pcb_pid cs) \<Longrightarrow>
      find (\<lambda>c. pcb_pid c = p) cs = Some c \<longleftrightarrow> c \<in> set cs \<and> pcb_pid c = p" for cs
    by (induction cs) auto
  with assms show ?thesis by (simp add: proc_find all_pids_def)
qed

lemma ptable_ok_distinct: "ptable_ok t \<Longrightarrow> distinct (all_pids t)"
  by (auto simp: ptable_ok_def live_ids_def distinct_map)

lemma proc_None_iff: "proc t p = None \<longleftrightarrow> p \<notin> set (all_pids t)"
  by (simp add: proc_def get_by_pid_None_iff)

lemma proc_terminate:
  assumes "ptable_ok t" and "get_by_pid p t = Some (i, c)"
  shows "proc (snd (terminate p t)) = (proc t)(p := None)"
proof
  fix q
  let ?t' = "snd (terminate p t)"
  have d: "distinct (all_pids t)" "distinct (all_pids ?t')"
    using ptable_ok_distinct assms(1) terminate_ok by blast+
  have sl: "i < length (tb_processes t)" "tb_processes t ! i = Some c" and cp: "pcb_pid c = p"
    using assms(2) get_by_pid_pid [OF assms(2)]
    by (auto simp: get_by_pid_iff get_by_index_def split: if_splits)
  have m: "set (slot_contents (tb_processes t)) = insert c (set (slot_contents (tb_processes ?t')))"
    using slot_contents_clear [OF sl] by (simp add: terminate_spec [OF assms(2)])
      (metis set_mset_add_mset_insert set_mset_mset)
  have np: "p \<notin> set (all_pids ?t')"
    using terminate_pids [OF assms(2)] d(1)
    by (metis distinct.simps(2) mset.simps(2) mset_eq_imp_distinct_iff)
  show "proc ?t' q = ((proc t)(p := None)) q"
  proof (cases "q = p")
    case True
    then show ?thesis using np by (simp add: proc_None_iff)
  next
    case False
    have "proc ?t' q = Some x \<longleftrightarrow> proc t q = Some x" for x
      using False cp m by (auto simp: proc_Some_iff d)
    then have "proc ?t' q = proc t q" by (metis option.exhaust)
    with False show ?thesis by simp
  qed
qed

lemma find_append: "find P (xs @ ys) = (case find P xs of None \<Rightarrow> find P ys | Some x \<Rightarrow> Some x)"
  by (induction xs) auto

lemma proc_append:
  assumes "p \<notin> set (all_pids t)" and "tb_processes t' = tb_processes t @ [Some c]" and "pcb_pid c = p"
  shows "proc t' = (proc t)(p \<mapsto> c)"
proof
  fix q
  have "proc t p = None" using assms(1) by (simp add: proc_None_iff)
  moreover have "proc t' q = (case proc t q of None \<Rightarrow> if q = p then Some c else None | Some x \<Rightarrow> Some x)"
    using assms(2,3) by (auto simp: proc_find find_append split: option.split)
  ultimately show "proc t' q = ((proc t)(p \<mapsto> c)) q" by (auto split: option.split)
qed

section \<open>Sequences of operations\<close>

datatype table_op =
    OpSpawn nat
  | OpTerminate pid
  | OpMarkExited pid beam_term
  | OpRegister u32 pid
  | OpUnregister u32
  | OpSend pid beam_term
  | OpSendByName u32 beam_term
  | OpIntern string
  | OpCleanup
  | OpLink pid pid
  | OpUnlink pid pid
  | OpMonitor pid pid
  | OpMonitorByName pid u32
  | OpDemonitor pid u64
  | OpPropagateExit pid beam_term
  | OpPropagateMonitors pid beam_term

fun exec_op :: "table_op \<Rightarrow> u64 \<times> process_table \<Rightarrow> (vm_error, u64 \<times> process_table) outcome" where
  "exec_op (OpSpawn n) (k, t) = bind_o (spawn n t) (\<lambda>(_, t'). Ok (k, t'))"
| "exec_op (OpTerminate p) (k, t) = Ok (k, snd (terminate p t))"
| "exec_op (OpMarkExited p r) (k, t) = Ok (k, snd (mark_exited p r t))"
| "exec_op (OpRegister n p) (k, t) = Ok (k, snd (register n p t))"
| "exec_op (OpUnregister n) (k, t) = Ok (k, snd (unregister n t))"
| "exec_op (OpSend p m) (k, t) = Ok (k, snd (send p m t))"
| "exec_op (OpSendByName n m) (k, t) = Ok (k, snd (send_by_name n m t))"
| "exec_op (OpIntern name) (k, t) = Ok (k, snd (intern_atom name t))"
| "exec_op OpCleanup (k, t) = Ok (k, cleanup t)"
| "exec_op (OpLink a b) (k, t) = Ok (k, snd (bidirectional_link_with_table a b t))"
| "exec_op (OpUnlink a b) (k, t) = Ok (k, snd (bidirectional_unlink_with_table a b t))"
| "exec_op (OpMonitor a b) (k, t) = Ok (snd (monitor_with_table a b (k, t)))"
| "exec_op (OpMonitorByName a n) (k, t) = Ok (snd (monitor_by_name_with_table a n (k, t)))"
| "exec_op (OpDemonitor a r) (k, t) = Ok (k, snd (demonitor_with_table a r t))"
| "exec_op (OpPropagateExit p r) (k, t) = Ok (k, propagate_exit p r t)"
| "exec_op (OpPropagateMonitors p r) (k, t) = Ok (k, propagate_monitors p r t)"

lemma registry_kept:
  "tb_registry (snd (mark_exited p r t)) = tb_registry t"
  "tb_registry (snd (send p m t)) = tb_registry t"
  "tb_registry (snd (send_by_name n m t)) = tb_registry t"
  "tb_registry (snd (intern_atom name t)) = tb_registry t"
  "tb_registry (snd (both_modified a b f g t)) = tb_registry t"
  "tb_registry (snd (snd (monitor_as a target nm (k, t)))) = tb_registry t"
  "tb_registry (snd (demonitor_with_table a ref_id t)) = tb_registry t"
  "tb_registry (propagate_exit p r t) = tb_registry t"
  "tb_registry (propagate_monitors p r t) = tb_registry t"
proof -
  have f: "(\<And>x t. tb_registry (f x t) = tb_registry t) \<Longrightarrow> tb_registry (fold f xs t) = tb_registry t"
    for f :: "pid \<Rightarrow> process_table \<Rightarrow> process_table" and xs t
    by (induction xs arbitrary: t) simp_all
  show "tb_registry (propagate_exit p r t) = tb_registry t"
    by (simp add: propagate_exit_def f exit_linked_def split: option.split prod.split)
  show "tb_registry (propagate_monitors p r t) = tb_registry t"
    by (simp add: propagate_monitors_def f notify_monitor_def split: option.split prod.split)
qed (simp_all add: mark_exited_def send_def send_by_name_def intern_atom_def both_modified_def
      modify_at_def monitor_as_def demonitor_with_table_def Let_def
      split: option.split prod.split sum.split)

lemma atoms_kept:
  "tb_atom_table (snd (mark_exited p r t)) = tb_atom_table t"
  "tb_atom_table (snd (register n p t)) = tb_atom_table t"
  "tb_atom_table (snd (unregister n t)) = tb_atom_table t"
  "tb_atom_table (snd (send p m t)) = tb_atom_table t"
  "tb_atom_table (snd (send_by_name n m t)) = tb_atom_table t"
  "tb_atom_table (snd (both_modified a b f g t)) = tb_atom_table t"
  "tb_atom_table (snd (snd (monitor_as a target nm (k, t)))) = tb_atom_table t"
  "tb_atom_table (snd (demonitor_with_table a ref_id t)) = tb_atom_table t"
  "tb_atom_table (propagate_exit p r t) = tb_atom_table t"
  "tb_atom_table (propagate_monitors p r t) = tb_atom_table t"
proof -
  have f: "(\<And>x t. tb_atom_table (f x t) = tb_atom_table t) \<Longrightarrow> tb_atom_table (fold f xs t) = tb_atom_table t"
    for f :: "pid \<Rightarrow> process_table \<Rightarrow> process_table" and xs t
    by (induction xs arbitrary: t) simp_all
  show "tb_atom_table (propagate_exit p r t) = tb_atom_table t"
    by (simp add: propagate_exit_def f exit_linked_def split: option.split prod.split)
  show "tb_atom_table (propagate_monitors p r t) = tb_atom_table t"
    by (simp add: propagate_monitors_def f notify_monitor_def split: option.split prod.split)
qed (simp_all add: mark_exited_def register_def unregister_def send_def send_by_name_def
      both_modified_def modify_at_def monitor_as_def demonitor_with_table_def Let_def
      split: option.split prod.split sum.split)

definition is_spawn :: "table_op \<Rightarrow> bool" where
  "is_spawn op \<longleftrightarrow> (\<exists>n. op = OpSpawn n)"

lemma exec_op_other:
  assumes "ptable_ok t" and "\<not> is_spawn op"
  shows "\<exists>k' t'. exec_op op (k, t) = Ok (k', t') \<and> ptable_ok t' \<and> tb_pid_counter t' = tb_pid_counter t"
proof -
  have same: "ptable_ok t' \<and> tb_pid_counter t' = tb_pid_counter t"
    if "same_pids t t'" "distinct (registered_names t')" "table_ok (tb_atom_table t')" for t'
    using same_pids_ok [OF that(1) assms(1) that(2,3)] that(1) by (simp add: same_pids_def)
  have d: "distinct (map fst (tb_registry t))" and a: "table_ok (tb_atom_table t)"
    using assms(1) by (simp_all add: ptable_ok_def registered_names_def)
  have reg: "distinct (registered_names (snd (register n p t)))"
    "distinct (registered_names (snd (unregister n t)))" for n p
    using d by (simp_all add: registered_names_def register_def unregister_def Let_def
        distinct_update distinct_delete split: option.split prod.split)
  have atoms: "table_ok (tb_atom_table (snd (intern_atom name t)))" for name
    using intern_write_ok [OF a, of name]
    by (cases "intern_write name (tb_atom_table t)") (simp add: intern_atom_def intern_eq_write)
  show ?thesis
  proof (cases op)
    case (OpSpawn n)
    with assms(2) show ?thesis by (simp add: is_spawn_def)
  next
    case (OpTerminate p)
    moreover have "tb_pid_counter (snd (terminate p t)) = tb_pid_counter t"
      by (simp add: terminate_def Let_def split: option.split prod.split)
    ultimately show ?thesis using terminate_ok [OF assms(1)] by simp
  next
    case OpCleanup
    then show ?thesis using cleanup_ok [OF assms(1)] by (simp add: cleanup_def Let_def)
  next
    case (OpLink p q)
    have "same_pids t (snd (bidirectional_link_with_table p q t))"
      unfolding bidirectional_link_with_table_def by (rule same_pids_links) simp_all
    from same [OF this] show ?thesis
      using OpLink d a by (simp add: bidirectional_link_with_table_def registered_names_def
          registry_kept atoms_kept)
  next
    case (OpUnlink p q)
    have "same_pids t (snd (bidirectional_unlink_with_table p q t))"
      unfolding bidirectional_unlink_with_table_def by (rule same_pids_links) simp_all
    from same [OF this] show ?thesis
      using OpUnlink d a by (simp add: bidirectional_unlink_with_table_def registered_names_def
          registry_kept atoms_kept)
  next
    case (OpMonitor p q)
    then show ?thesis
      using d a same [of "snd (snd (monitor_with_table p q (k, t)))"]
      by (auto simp: monitor_with_table_def registered_names_def registry_kept atoms_kept
          same_pids_monitors prod_eq_iff)
  next
    case (OpMonitorByName p n)
    then show ?thesis
      using d a same [of "snd (snd (monitor_by_name_with_table p n (k, t)))"]
      by (auto simp: monitor_by_name_with_table_def registered_names_def registry_kept atoms_kept
          same_pids_monitors prod_eq_iff)
  qed (use d a reg atoms in \<open>auto simp: registered_names_def registry_kept atoms_kept
        same_pids_ops [THEN same_pids_counter] same_pids_monitors [THEN same_pids_counter]
        intro!: same [THEN conjunct1] same_pids_ops same_pids_monitors\<close>)
qed

lemma exec_ops_ok:
  "ptable_ok t \<Longrightarrow> unat (tb_pid_counter t) + length (filter is_spawn ops) < 2 ^ 32 \<Longrightarrow>
   \<exists>k' t'. fold_o exec_op ops (k, t) = Ok (k', t') \<and> ptable_ok t'"
proof (induction ops arbitrary: k t)
  case (Cons op ops)
  show ?case
  proof (cases "is_spawn op")
    case True
    then obtain n where op: "op = OpSpawn n" by (auto simp: is_spawn_def)
    have "unat (tb_pid_counter t) + 1 < 2 ^ 32" using Cons.prems(2) True by simp
    then obtain p t' where sp: "spawn n t = Ok ((process_handle_new (length (tb_processes t)) p, p), t')"
      "ptable_ok t'" "unat (tb_pid_counter t') \<le> unat (tb_pid_counter t) + 1"
      using spawn_ok [OF Cons.prems(1)] by blast
    then show ?thesis using Cons.IH [OF sp(2), of k] Cons.prems(2) True by (simp add: op)
  next
    case False
    with exec_op_other [OF Cons.prems(1) False, of k] Cons show ?thesis by fastforce
  qed
qed simp

section \<open>Exit propagation and links\<close>

definition exit_effect :: "pid \<Rightarrow> beam_term \<Rightarrow> pcb \<Rightarrow> pcb" where
  "exit_effect from reason c = (if traps_exit c then send_exit from reason c else exit reason c)"

definition down_effect :: "pid \<Rightarrow> beam_term \<Rightarrow> pcb \<Rightarrow> pcb" where
  "down_effect exited reason c =
     (case find (\<lambda>m. mr_target m = exited) (pcb_monitors c) of
        Some m \<Rightarrow> send_monitor_down (mr_ref_id m) exited reason c
      | None \<Rightarrow> c)"

definition at_proc :: "pid \<Rightarrow> (pcb \<Rightarrow> pcb) \<Rightarrow> (pid \<Rightarrow> pcb option) \<Rightarrow> pid \<Rightarrow> pcb option" where
  "at_proc p f m = m(p := map_option f (m p))"

lemma proc_modify_at:
  "get_by_pid p t = Some (i, c) \<Longrightarrow> (\<And>c. pcb_pid (f c) = pcb_pid c) \<Longrightarrow>
   proc (modify i f t) = at_proc p f (proc t)"
  by (simp add: proc_modify at_proc_def get_by_pid_proc)

lemma modify_cong:
  "get_by_index i t = Some c \<Longrightarrow> f c = g c \<Longrightarrow> modify i f t = modify i g t"
  by (simp add: modify_def modify_slot_def get_by_index_def split: if_splits)

lemma proc_exit_linked: "proc (exit_linked p r q t) = at_proc q (exit_effect p r) (proc t)"
proof (cases "get_by_pid q t")
  case None
  then have "proc t q = None" by (simp add: proc_def)
  with None show ?thesis by (simp add: exit_linked_def at_proc_def fun_upd_idem)
next
  case (Some ic)
  then obtain i c where g: "get_by_pid q t = Some (i, c)" by (cases ic) auto
  from g have gi: "get_by_index i t = Some c" by (simp add: get_by_pid_iff)
  have "exit_linked p r q t = modify i (exit_effect p r) t"
    using g modify_cong [OF gi, of "exit_effect p r" "send_exit p r"]
      modify_cong [OF gi, of "exit_effect p r" "exit r"]
    by (simp add: exit_linked_def exit_effect_def)
  then show ?thesis using proc_modify_at [OF g, of "exit_effect p r"] by (simp add: exit_effect_def)
qed

lemma proc_notify_monitor: "proc (notify_monitor p r q t) = at_proc q (down_effect p r) (proc t)"
proof (cases "get_by_pid q t")
  case None
  then have "proc t q = None" by (simp add: proc_def)
  with None show ?thesis by (simp add: notify_monitor_def at_proc_def fun_upd_idem)
next
  case (Some ic)
  then obtain i c where g: "get_by_pid q t = Some (i, c)" by (cases ic) auto
  from g have gi: "get_by_index i t = Some c" by (simp add: get_by_pid_iff)
  have id: "at_proc q (down_effect p r) (proc t) = proc t" if "down_effect p r c = c"
    using get_by_pid_proc [OF g] that by (simp add: at_proc_def fun_upd_idem)
  show ?thesis
  proof (cases "find (\<lambda>m. mr_target m = p) (pcb_monitors c)")
    case None
    then show ?thesis using g id by (simp add: notify_monitor_def down_effect_def)
  next
    case (Some m)
    then have "notify_monitor p r q t = modify i (down_effect p r) t"
      using g modify_cong [OF gi, of "down_effect p r" "send_monitor_down (mr_ref_id m) p r"]
      by (simp add: notify_monitor_def down_effect_def)
    then show ?thesis using proc_modify_at [OF g, of "down_effect p r"]
      by (simp add: down_effect_def split: option.split)
  qed
qed

lemma proc_fold_at:
  assumes "\<And>q t. proc (f q t) = at_proc q g (proc t)"
  shows "distinct qs \<Longrightarrow>
    proc (fold f qs t) = (\<lambda>q. if q \<in> set qs then map_option g (proc t q) else proc t q)"
proof (induction qs arbitrary: t)
  case (Cons q qs)
  then show ?case by (auto simp: assms at_proc_def fun_eq_iff)
qed simp

lemma proc_propagate_exit:
  assumes "proc t p = Some c" and "distinct (pcb_links c)"
  shows "proc (propagate_exit p r t) =
    (\<lambda>q. if q \<in> set (pcb_links c) then map_option (exit_effect p r) (proc t q) else proc t q)"
proof -
  obtain i where "get_by_pid p t = Some (i, c)" using assms(1) by (auto simp: proc_def)
  then show ?thesis
    using proc_fold_at [of "exit_linked p r", OF proc_exit_linked assms(2)]
    by (simp add: propagate_exit_def)
qed

lemma proc_propagate_monitors:
  assumes "distinct (all_pids t)"
  shows "proc (propagate_monitors p r t) = (\<lambda>q. map_option (down_effect p r) (proc t q))"
proof -
  let ?M = "\<lambda>q. case get_by_pid q t of Some (_, c) \<Rightarrow> has_monitor_for p c | None \<Rightarrow> False"
  have e: "proc (propagate_monitors p r t) =
      (\<lambda>q. if q \<in> set (filter ?M (all_pids t)) then map_option (down_effect p r) (proc t q) else proc t q)"
    unfolding propagate_monitors_def Let_def
    by (rule proc_fold_at [OF proc_notify_monitor]) (use assms in simp)
  show ?thesis unfolding e
  proof
    fix q
    show "(if q \<in> set (filter ?M (all_pids t)) then map_option (down_effect p r) (proc t q) else proc t q)
        = map_option (down_effect p r) (proc t q)"
    proof (cases "get_by_pid q t")
      case None
      then show ?thesis by (simp add: proc_def)
    next
      case (Some ic)
      then obtain i c where g: "get_by_pid q t = Some (i, c)" by (cases ic) auto
      have "q \<in> set (all_pids t)" using g get_by_pid_None_iff [of q t] by force
      moreover have "\<not> has_monitor_for p c \<Longrightarrow> down_effect p r c = c"
        by (auto simp: has_monitor_for_def down_effect_def list_ex_iff find_None_iff split: option.split
            dest!: find_Some_iff [THEN iffD1])
      ultimately show ?thesis using g by (auto simp: proc_def)
    qed
  qed
qed

lemma both_modified_spec:
  assumes "proc t a = Some ca" and "proc t b = Some cb"
    and "\<And>c. pcb_pid (f c) = pcb_pid c" and "\<And>c. pcb_pid (g c) = pcb_pid c"
  shows "fst (both_modified a b f g t) = Inr ()
    \<and> proc (snd (both_modified a b f g t)) = at_proc b g (at_proc a f (proc t))"
proof -
  obtain i j where g: "get_by_pid a t = Some (i, ca)" "get_by_pid b t = Some (j, cb)"
    using assms(1,2) by (auto simp: proc_def)
  let ?t1 = "modify i f t"
  have s: "same_pids t ?t1" by (rule same_pids_modify) (simp add: assms(3))
  obtain cb' where g2: "get_by_pid b ?t1 = Some (j, cb')"
    using g(2) same_pids_index [OF s, of b] get_index_Some [of b ?t1 j] by (auto simp: get_by_pid_iff)
  have "both_modified a b f g t = (Inr (), modify j g ?t1)"
    using g g2 by (simp add: both_modified_def both_indices_def modify_at_def get_by_pid_iff)
  then show ?thesis
    using proc_modify_at [OF g(1) assms(3)] proc_modify_at [OF g2 assms(4)] by simp
qed

section \<open>Properties\<close>

text \<open>C2. The table keeps its invariant under every sequence of its operations with fewer than
  \<open>2 ^ 32 - 1\<close> spawns, started from a new table, and none of them panics: the slots are used in
  order, the ids of the live and of the reusable pids are pairwise distinct and below the
  counter, all pids carry the creation of the table, a name is registered once, and the atom
  table is consistent.\<close>

theorem process_table_invariant:
  assumes "length (filter is_spawn ops) < 2 ^ 32 - 1"
  shows "\<exists>k' t. fold_o exec_op ops (k, process_table_new creation) = Ok (k', t) \<and> ptable_ok t"
  by (rule exec_ops_ok [OF ptable_ok_new]) (use assms in \<open>simp add: process_table_new_def\<close>)

theorem process_table_invariant_witness:
  "\<exists>k' t. fold_o exec_op [OpSpawn 8, OpSpawn 8, OpTerminate (pid_new 1 0 0), OpSpawn 8, OpCleanup]
       (1, process_table_new 0) = Ok (k', t) \<and> ptable_ok t"
  by (rule process_table_invariant) (simp add: is_spawn_def)

text \<open>A spawn hands out a pid that no process of the table has, whose id no live process
  has, puts a new process under it, gives a handle to it, and changes no other process; sending
  to it then reaches its mailbox and only that.\<close>

theorem spawn_isolated:
  assumes "ptable_ok t" and "unat (tb_pid_counter t) + 1 < 2 ^ 32"
  shows "\<exists>h p t'. spawn n t = Ok ((h, p), t') \<and> proc t p = None
    \<and> pid_id p \<notin> pid_id ` set (all_pids t)
    \<and> proc t' = (proc t)(p \<mapsto> pcb_new p n) \<and> get_by_handle h t' = Some (pcb_new p n)
    \<and> fst (send p msg t') = Inr ()
    \<and> proc (snd (send p msg t')) = (proc t)(p \<mapsto> send_message msg (pcb_new p n))"
proof -
  obtain p t' where sp: "spawn n t = Ok ((process_handle_new (length (tb_processes t)) p, p), t')"
    "p \<notin> set (all_pids t)" "pid_id p \<notin> pid_id ` set (all_pids t)"
    "tb_processes t' = tb_processes t @ [Some (pcb_new p n)]"
    using spawn_ok [OF assms(1)] assms(2) by blast
  have pp: "pcb_pid (pcb_new p n) = p" by (simp add: pcb_new_def)
  note new = proc_append [OF sp(2,4) pp]
  then have "proc t' p = Some (pcb_new p n)" by simp
  then obtain i where g: "get_by_pid p t' = Some (i, pcb_new p n)" by (auto simp: proc_def)
  have al: "pcb_is_alive (pcb_new p n)" by (simp add: pcb_new_def pcb_is_alive_def)
  have h: "get_by_handle (process_handle_new (length (tb_processes t)) p) t' = Some (pcb_new p n)"
    by (simp add: get_by_handle_def process_handle_new_def get_by_index_def sp(4))
  have "proc (snd (send p msg t')) = (proc t)(p \<mapsto> send_message msg (pcb_new p n))"
    using proc_modify [OF g, of "send_message msg"] g al new by (simp add: send_def)
  moreover have "fst (send p msg t') = Inr ()" using g al by (simp add: send_def)
  ultimately show ?thesis using sp new h by (auto simp: proc_None_iff)
qed

theorem spawn_isolated_witness:
  "\<exists>h p t'. spawn 8 (process_table_new 0) = Ok ((h, p), t') \<and> proc t' p = Some (pcb_new p 8)"
  using spawn_isolated [OF ptable_ok_new, of 0 8] by (fastforce simp: process_table_new_def)

text \<open>Terminating a registered process leaves its name registered: the name still leads to the
  dead pid, sending to the name fails, and no other process can take the name, until it is
  unregistered.\<close>

theorem terminated_name_stays:
  assumes "ptable_ok t" and "proc t p = Some c" and "whereis n t = Some p"
    and "terminate p t = (r, t')"
  shows "r = Inr () \<and> proc t' = (proc t)(p := None) \<and> whereis n t' = Some p
    \<and> send_by_name n msg t' = (Inl ProcessNotFound, t')
    \<and> (\<forall>q. q \<noteq> p \<longrightarrow> register n q t' = (Inl ProcessNotFound, t'))
    \<and> whereis n (snd (unregister n t')) = None"
proof -
  obtain i where g: "get_by_pid p t = Some (i, c)" using assms(2) by (auto simp: proc_def)
  note sp = terminate_spec [OF g]
  have t': "t' = snd (terminate p t)" "r = Inr ()" using assms(4) sp by auto
  have w: "whereis n t' = Some p" using assms(3) by (simp add: t' sp whereis_def)
  have pr: "proc t' = (proc t)(p := None)" unfolding t' by (rule proc_terminate [OF assms(1) g])
  then have np: "get_by_pid p t' = None"
    by (metis fun_upd_same proc_None_iff get_by_pid_None_iff)
  have gp: "get_by_pid p (t'\<lparr>tb_registry := x\<rparr>) = None" for x
    using np same_pids_all_pids [OF same_pids_fields(1), of x t'] by (simp add: get_by_pid_None_iff)
  show ?thesis
    using w pr np gp t'(2)
    by (auto simp: send_by_name_def send_def register_def unregister_def whereis_def delete_conv')
qed

lemma registered_table:
  defines "t1 \<equiv> snd (register 5 (pid_new 1 0 0) ((process_table_new 0)
      \<lparr>tb_processes := [Some (pcb_new (pid_new 1 0 0) 8)], tb_next_index := 1, tb_pid_counter := 2\<rparr>))"
  shows "ptable_ok t1" and "proc t1 (pid_new 1 0 0) \<noteq> None" and "whereis 5 t1 = Some (pid_new 1 0 0)"
proof -
  have t1: "t1 = (process_table_new 0)\<lparr>tb_processes :=
      [Some ((pcb_new (pid_new 1 0 0) 8)\<lparr>pcb_registered_name := Some 5\<rparr>)],
      tb_next_index := 1, tb_pid_counter := 2, tb_registry := [(5, pid_new 1 0 0)]\<rparr>"
    by (simp add: t1_def register_def whereis_def process_table_new_def get_by_pid_def
        get_index_by_pid_def get_by_index_def modify_def modify_slot_def pcb_new_def)
  show "ptable_ok t1" unfolding t1
    by (simp add: ptable_ok_def process_table_new_def live_ids_def all_pids_def registered_names_def
        table_new_ok pcb_new_def)
  show "proc t1 (pid_new 1 0 0) \<noteq> None" "whereis 5 t1 = Some (pid_new 1 0 0)"
    unfolding t1 by (simp_all add: proc_find whereis_def pcb_new_def)
qed

theorem terminated_name_stays_witness:
  "\<exists>t t'. ptable_ok t \<and> terminate (pid_new 1 0 0) t = (Inr (), t')
     \<and> send_by_name 5 nil t' = (Inl ProcessNotFound, t')"
proof -
  obtain t c where t: "ptable_ok t" "proc t (pid_new 1 0 0) = Some c" "whereis 5 t = Some (pid_new 1 0 0)"
    using registered_table by blast
  from terminated_name_stays [OF t prod.collapse [symmetric]] t(1) show ?thesis
    by (metis prod.collapse)
qed

text \<open>C29. When a process exits, exactly the processes it is linked to are told, once each: those
  that trap exits get an exit signal in their mailbox, the others are asked to exit with the
  same reason, whatever it is, and their own links are not followed.  And of the monitors of a
  process for the exited pid the first one alone is reported, in one notice.\<close>

theorem exit_propagation:
  assumes "ptable_ok t" and "proc t p = Some c" and "distinct (pcb_links c)"
  shows "proc (propagate_exit p r t) q =
      (if q \<in> set (pcb_links c)
       then map_option (\<lambda>d. if traps_exit d then send_exit p r d else exit r d) (proc t q)
       else proc t q)
    \<and> proc (propagate_monitors p r t) q =
      map_option (\<lambda>d. case find (\<lambda>m. mr_target m = p) (pcb_monitors d) of
          Some m \<Rightarrow> send_monitor_down (mr_ref_id m) p r d
        | None \<Rightarrow> d) (proc t q)"
  using proc_propagate_exit [OF assms(2,3)] proc_propagate_monitors [OF ptable_ok_distinct [OF assms(1)]]
  by (simp add: exit_effect_def [abs_def] down_effect_def [abs_def])

definition pair_table :: process_table where
  "pair_table = (process_table_new 0)
     \<lparr>tb_processes := [Some (pcb_new (pid_new 1 0 0) 8), Some (pcb_new (pid_new 2 0 0) 8)],
      tb_next_index := 2, tb_pid_counter := 3\<rparr>"

lemma pair_table_ok: "ptable_ok pair_table"
  by (simp add: pair_table_def ptable_ok_def process_table_new_def live_ids_def all_pids_def
      registered_names_def table_new_ok pcb_new_def pid_new_def)

lemma pair_table_proc:
  "proc pair_table (pid_new 1 0 0) = Some (pcb_new (pid_new 1 0 0) 8)"
  "proc pair_table (pid_new 2 0 0) = Some (pcb_new (pid_new 2 0 0) 8)"
  by (simp_all add: pair_table_def proc_find pcb_new_def pid_new_def)

text \<open>Linking two processes of the table links each to the other, changes nothing else, and
  keeps the links free of duplicates; unlinking undoes it.\<close>

theorem link_symmetric:
  assumes "proc t a = Some ca" and "proc t b = Some cb" and "a \<noteq> b"
  shows "fst (bidirectional_link_with_table a b t) = Inr ()
    \<and> proc (snd (bidirectional_link_with_table a b t)) = (proc t)(a \<mapsto> link b ca, b \<mapsto> link a cb)
    \<and> are_linked a b (snd (bidirectional_link_with_table a b t)) = Ok True
    \<and> are_linked a b (snd (bidirectional_unlink_with_table a b t)) = Ok False"
proof -
  have al: "are_linked a b u = Ok (has_link b da \<and> has_link a db)"
    if "proc u a = Some da" "proc u b = Some db" for u da db
    using that by (auto simp: proc_def are_linked_def both_indices_def get_by_pid_iff)
  note l = both_modified_spec [OF assms(1,2), of "link b" "link a"]
  note u = both_modified_spec [OF assms(1,2), of "unlink b" "unlink a"]
  show ?thesis
    using l u assms al [of "snd (bidirectional_link_with_table a b t)" "link b ca" "link a cb"]
      al [of "snd (bidirectional_unlink_with_table a b t)" "unlink b ca" "unlink a cb"]
    by (simp add: bidirectional_link_with_table_def bidirectional_unlink_with_table_def at_proc_def
        has_link_laws)
qed

theorem link_symmetric_witness:
  "are_linked (pid_new 1 0 0) (pid_new 2 0 0)
     (snd (bidirectional_link_with_table (pid_new 1 0 0) (pid_new 2 0 0) pair_table)) = Ok True"
  using link_symmetric [OF pair_table_proc] by (simp add: pid_new_def)

theorem exit_propagation_witness:
  "proc (propagate_exit (pid_new 1 0 0) nil
     (snd (bidirectional_link_with_table (pid_new 1 0 0) (pid_new 2 0 0) pair_table))) (pid_new 2 0 0)
   = Some (exit nil (link (pid_new 1 0 0) (pcb_new (pid_new 2 0 0) 8)))"
proof -
  let ?a = "pid_new 1 0 0" and ?b = "pid_new 2 0 0"
  let ?t = "snd (bidirectional_link_with_table ?a ?b pair_table)"
  have ok: "ptable_ok ?t"
    using exec_op_other [OF pair_table_ok, of "OpLink ?a ?b" 0] by (simp add: is_spawn_def)
  have "proc ?t = at_proc ?b (link ?a) (at_proc ?a (link ?b) (proc pair_table))"
    using both_modified_spec [OF pair_table_proc, of "link ?b" "link ?a"]
    by (simp add: bidirectional_link_with_table_def)
  then have p: "proc ?t ?a = Some (link ?b (pcb_new ?a 8))" "proc ?t ?b = Some (link ?a (pcb_new ?b 8))"
    by (simp_all add: at_proc_def pair_table_proc) (simp_all add: pid_new_def)
  have l: "pcb_links (link ?b (pcb_new ?a 8)) = [?b]" by (simp add: link_def pcb_new_def)
  have "\<not> traps_exit (link ?a (pcb_new ?b 8))"
    by (simp add: link_def pcb_new_def traps_exit_def process_flags_default_def)
  with exit_propagation [OF ok p(1), of nil ?b] p(2) l show ?thesis by simp
qed

text \<open>A process handle does not survive a compaction of the table: after a process has
  terminated and the table has been cleaned up, the handle of a later process leads to nothing
  or to another process than its pid does.\<close>

theorem handle_lost_by_cleanup:
  "let t = cleanup (snd (terminate (pid_new 1 0 0) pair_table));
       h = process_handle_new 1 (pid_new 2 0 0); h0 = process_handle_new 0 (pid_new 1 0 0)
   in get_by_handle h pair_table = Some (pcb_new (pid_new 2 0 0) 8)
      \<and> get_by_handle h t = None
      \<and> map_option pcb_pid (get_by_handle h0 t) = Some (pid_new 2 0 0)"
  by (simp add: Let_def pair_table_def cleanup_def terminate_def get_by_handle_def get_by_index_def
      get_by_pid_def get_index_by_pid_def process_handle_new_def modify_def modify_slot_def
      pcb_new_def pid_new_def process_table_new_def mark_dead_def set_state_def)

end
