(* ===== verification/Run_Queue.thy ===== *)
theory Run_Queue
  imports Proc_Table
begin

text \<open>
  The priority run queues of a scheduler (\<^verbatim>\<open>PriorityRunQueues\<close> of
  \<^verbatim>\<open>crates/chimera_erlang_beam_scheduler/src/lib.rs\<close>): four queues, each the list of
  its entries from front to back.  They are an instance of the interface \<open>work_pool\<close>, and
  refine one queue that is sorted by priority and first-in first-out within a priority.
\<close>

section \<open>Model\<close>

record run_queue_entry =
  re_pid :: pid
  re_handle :: process_handle
  re_priority :: priority

record priority_run_queues =
  rq_low :: "run_queue_entry list"
  rq_normal :: "run_queue_entry list"
  rq_high :: "run_queue_entry list"
  rq_max :: "run_queue_entry list"

definition run_queues_new :: priority_run_queues where
  "run_queues_new = \<lparr>rq_low = [], rq_normal = [], rq_high = [], rq_max = []\<rparr>"

fun get_queue :: "priority \<Rightarrow> priority_run_queues \<Rightarrow> run_queue_entry list" where
  "get_queue PLow q = rq_low q"
| "get_queue PNormal q = rq_normal q"
| "get_queue PHigh q = rq_high q"
| "get_queue PMax q = rq_max q"

text \<open>\<^verbatim>\<open>get_queue\<close> returns a mutable reference; this is the write through it.\<close>

fun set_queue :: "priority \<Rightarrow> run_queue_entry list \<Rightarrow> priority_run_queues \<Rightarrow> priority_run_queues"
  where
  "set_queue PLow es q = q\<lparr>rq_low := es\<rparr>"
| "set_queue PNormal es q = q\<lparr>rq_normal := es\<rparr>"
| "set_queue PHigh es q = q\<lparr>rq_high := es\<rparr>"
| "set_queue PMax es q = q\<lparr>rq_max := es\<rparr>"

definition contains_pid :: "pid \<Rightarrow> priority_run_queues \<Rightarrow> bool" where
  "contains_pid p q \<longleftrightarrow>
     list_ex (\<lambda>e. re_pid e = p) (rq_low q) \<or> list_ex (\<lambda>e. re_pid e = p) (rq_normal q)
     \<or> list_ex (\<lambda>e. re_pid e = p) (rq_high q) \<or> list_ex (\<lambda>e. re_pid e = p) (rq_max q)"

definition rq_enqueue :: "run_queue_entry \<Rightarrow> priority_run_queues \<Rightarrow> priority_run_queues" where
  "rq_enqueue e q =
     (if \<not> contains_pid (re_pid e) q
      then set_queue (re_priority e) (get_queue (re_priority e) q @ [e]) q else q)"

definition pop_front :: "priority \<Rightarrow> priority_run_queues \<Rightarrow> run_queue_entry option \<times> priority_run_queues"
  where
  "pop_front p q =
     (case get_queue p q of [] \<Rightarrow> (None, q) | e # es \<Rightarrow> (Some e, set_queue p es q))"

definition rq_dequeue :: "priority_run_queues \<Rightarrow> run_queue_entry option \<times> priority_run_queues" where
  "rq_dequeue q =
     (if rq_max q \<noteq> [] then pop_front PMax q
      else if rq_high q \<noteq> [] then pop_front PHigh q
      else if rq_normal q \<noteq> [] then pop_front PNormal q
      else if rq_low q \<noteq> [] then pop_front PLow q
      else (None, q))"

definition retain_not :: "pid \<Rightarrow> run_queue_entry list \<Rightarrow> run_queue_entry list" where
  "retain_not p = filter (\<lambda>e. re_pid e \<noteq> p)"

definition removes :: "pid \<Rightarrow> run_queue_entry list \<Rightarrow> bool" where
  "removes p = list_ex (\<lambda>e. re_pid e = p)"

definition rq_remove_by_pid :: "pid \<Rightarrow> priority_run_queues \<Rightarrow> bool \<times> priority_run_queues" where
  "rq_remove_by_pid p q =
     (let q1 = q\<lparr>rq_low := retain_not p (rq_low q)\<rparr> in
      if removes p (rq_low q) then (True, q1) else
      let q2 = q1\<lparr>rq_normal := retain_not p (rq_normal q)\<rparr> in
      if removes p (rq_normal q) then (True, q2) else
      let q3 = q2\<lparr>rq_high := retain_not p (rq_high q)\<rparr> in
      if removes p (rq_high q) then (True, q3) else
      (removes p (rq_max q), q3\<lparr>rq_max := retain_not p (rq_max q)\<rparr>))"

definition rq_len :: "priority_run_queues \<Rightarrow> nat" where
  "rq_len q = length (rq_low q) + length (rq_normal q) + length (rq_high q) + length (rq_max q)"

definition rq_is_empty :: "priority_run_queues \<Rightarrow> bool" where
  "rq_is_empty q \<longleftrightarrow> rq_len q = 0"

definition rq_queue_len :: "priority \<Rightarrow> priority_run_queues \<Rightarrow> nat" where
  "rq_queue_len p q = length (get_queue p q)"

definition promote :: "pid \<Rightarrow> priority_run_queues \<Rightarrow> bool \<times> priority_run_queues" where
  "promote p q = (False, q)"

section \<open>The queues as one queue and as a pool\<close>

definition rq_list :: "priority_run_queues \<Rightarrow> run_queue_entry list" where
  "rq_list q = rq_max q @ rq_high q @ rq_normal q @ rq_low q"

definition rq_entries :: "priority_run_queues \<Rightarrow> run_queue_entry multiset" where
  "rq_entries q = mset (rq_list q)"

lemma contains_pid_iff: "contains_pid p q \<longleftrightarrow> p \<in> re_pid ` set (rq_list q)"
  by (auto simp: contains_pid_def rq_list_def list_ex_iff)

lemma rq_len_list: "rq_len q = length (rq_list q)"
  by (simp add: rq_len_def rq_list_def)

lemma rq_dequeue_list:
  "fst (rq_dequeue q) = (case rq_list q of [] \<Rightarrow> None | e # _ \<Rightarrow> Some e)"
  "rq_list q = [] \<Longrightarrow> rq_dequeue q = (None, q)"
  "rq_list (snd (rq_dequeue q)) = tl (rq_list q)"
  by (auto simp: rq_dequeue_def rq_list_def pop_front_def split: list.split)

lemma rq_enqueue_entries:
  "rq_entries (rq_enqueue e q) =
     (if contains_pid (re_pid e) q then rq_entries q else add_mset e (rq_entries q))"
  by (cases "re_priority e") (simp_all add: rq_enqueue_def rq_entries_def rq_list_def)

interpretation rq_pool: work_pool rq_enqueue rq_dequeue rq_entries re_pid
proof
  fix q
  show "rq_entries q \<noteq> {#} \<Longrightarrow> \<exists>e. fst (rq_dequeue q) = Some e \<and> e \<in># rq_entries q"
    by (cases "rq_list q") (auto simp: rq_entries_def rq_dequeue_list(1))
  show "rq_entries q = {#} \<Longrightarrow> rq_dequeue q = (None, q)"
    using rq_dequeue_list(2) [of q] by (simp add: rq_entries_def)
  fix e
  show "fst (rq_dequeue q) = Some e \<Longrightarrow> rq_entries (snd (rq_dequeue q)) = rq_entries q - {#e#}"
    by (cases "rq_list q") (auto simp: rq_entries_def rq_dequeue_list(1,3))
qed (simp_all add: rq_enqueue_entries contains_pid_iff, simp_all add: rq_enqueue_def contains_pid_iff
    rq_entries_def)

text \<open>Removal by pid in a pool with unique pids takes out that entry.\<close>

lemma rq_remove_absent: "p \<notin> re_pid ` set es \<Longrightarrow> retain_not p es = es \<and> \<not> removes p es"
  by (auto simp: retain_not_def removes_def list_ex_iff intro!: filter_True)

lemma rq_remove_spec:
  assumes "distinct (map re_pid (rq_list q))"
  shows "fst (rq_remove_by_pid p q) \<longleftrightarrow> contains_pid p q"
    and "rq_list (snd (rq_remove_by_pid p q)) = filter (\<lambda>e. re_pid e \<noteq> p) (rq_list q)"
proof -
  have r: "removes p es \<longleftrightarrow> p \<in> re_pid ` set es" for es
    by (auto simp: removes_def list_ex_iff)
  have k: "p \<notin> re_pid ` set es \<Longrightarrow> filter (\<lambda>e. re_pid e \<noteq> p) es = es"
    for es :: "run_queue_entry list"
    using rq_remove_absent [of p es] by (simp add: retain_not_def)
  show "fst (rq_remove_by_pid p q) \<longleftrightarrow> contains_pid p q"
    by (auto simp: rq_remove_by_pid_def contains_pid_iff rq_list_def r Let_def)
  show "rq_list (snd (rq_remove_by_pid p q)) = filter (\<lambda>e. re_pid e \<noteq> p) (rq_list q)"
  proof -
    let ?in = "\<lambda>es. p \<in> re_pid ` set es"
    have d: "re_pid ` set (rq_normal q) \<inter> re_pid ` set (rq_low q) = {}"
      "re_pid ` set (rq_high q) \<inter> (re_pid ` set (rq_normal q) \<union> re_pid ` set (rq_low q)) = {}"
      "re_pid ` set (rq_max q) \<inter>
        (re_pid ` set (rq_high q) \<union> (re_pid ` set (rq_normal q) \<union> re_pid ` set (rq_low q))) = {}"
      using assms by (simp_all add: rq_list_def)
    have x: "?in (rq_low q) \<Longrightarrow> \<not> ?in (rq_normal q)" "?in (rq_low q) \<Longrightarrow> \<not> ?in (rq_high q)"
      "?in (rq_low q) \<Longrightarrow> \<not> ?in (rq_max q)" "?in (rq_normal q) \<Longrightarrow> \<not> ?in (rq_high q)"
      "?in (rq_normal q) \<Longrightarrow> \<not> ?in (rq_max q)" "?in (rq_high q) \<Longrightarrow> \<not> ?in (rq_max q)"
      using d by (metis IntI UnI1 UnI2 empty_iff)+
    show ?thesis
      by (cases "?in (rq_low q)"; cases "?in (rq_normal q)"; cases "?in (rq_high q)")
        (use x k in \<open>simp_all add: rq_remove_by_pid_def rq_list_def r Let_def retain_not_def\<close>)
  qed
qed

definition priority_rank :: "priority \<Rightarrow> nat" where
  "priority_rank p = (case p of PLow \<Rightarrow> 0 | PNormal \<Rightarrow> 1 | PHigh \<Rightarrow> 2 | PMax \<Rightarrow> 3)"

definition queues_ok :: "priority_run_queues \<Rightarrow> bool" where
  "queues_ok q \<longleftrightarrow>
     (\<forall>p. \<forall>e\<in>set (get_queue p q). re_priority e = p) \<and> distinct (map re_pid (rq_list q))"

lemma queues_ok_new: "queues_ok run_queues_new"
proof -
  have "get_queue p run_queues_new = []" for p by (cases p) (simp_all add: run_queues_new_def)
  then show ?thesis by (simp add: queues_ok_def rq_list_def run_queues_new_def)
qed

end
