(* ===== verification/Sched.thy ===== *)
theory Sched
  imports Run_Queue Interp
begin

text \<open>
  The scheduler and the scheduler registry (\<^verbatim>\<open>Scheduler\<close> and \<^verbatim>\<open>SchedulerRegistry\<close> of
  \<^verbatim>\<open>crates/chimera_erlang_beam_scheduler/src/lib.rs\<close>).

  \<^verbatim>\<open>step\<close> is the hand-off to the interpreter: it runs one instruction of the process at the
  front of the run queues.  The worker thread is its flags only (a handle is there or not, the
  stop flag is set or not); a shared timer or port manager is its identity.
\<close>

section \<open>State\<close>

record scheduler_stats =
  ss_reductions_executed :: u64
  ss_processes_spawned :: u64
  ss_processes_exited :: u64
  ss_messages_sent :: u64
  ss_messages_received :: u64
  ss_context_switches :: u64

definition scheduler_stats_default :: scheduler_stats where
  "scheduler_stats_default =
     \<lparr>ss_reductions_executed = 0, ss_processes_spawned = 0, ss_processes_exited = 0,
      ss_messages_sent = 0, ss_messages_received = 0, ss_context_switches = 0\<rparr>"

definition SCHED_REDUCTION_BUDGET :: u32 where "SCHED_REDUCTION_BUDGET = 2000"

datatype affinity_mode = Spread | Compact | AffinityNone

record scheduler =
  sc_id :: u32
  sc_run_queues :: priority_run_queues
  sc_stats :: scheduler_stats
  sc_reduction_budgets :: "pid \<rightharpoonup> u32"
  sc_default_priority :: priority
  sc_online :: bool
  sc_has_thread :: bool
  sc_stop_flag :: bool
  sc_cpu_affinity :: u32
  sc_affinity_mode :: affinity_mode
  sc_timer_manager :: "nat option"
  sc_port_manager :: "nat option"

definition scheduler_new :: "u32 \<Rightarrow> scheduler" where
  "scheduler_new i =
     \<lparr>sc_id = i, sc_run_queues = run_queues_new, sc_stats = scheduler_stats_default,
      sc_reduction_budgets = Map.empty, sc_default_priority = PNormal, sc_online = True,
      sc_has_thread = False, sc_stop_flag = False, sc_cpu_affinity = - 1,
      sc_affinity_mode = Spread, sc_timer_manager = None, sc_port_manager = None\<rparr>"

definition scheduler_with_affinity :: "u32 \<Rightarrow> u32 \<Rightarrow> scheduler" where
  "scheduler_with_affinity i cpu =
     (scheduler_new i)\<lparr>sc_cpu_affinity := cpu, sc_affinity_mode := AffinityNone\<rparr>"

definition set_cpu_affinity :: "u32 \<Rightarrow> scheduler \<Rightarrow> scheduler" where
  "set_cpu_affinity cpu s = s\<lparr>sc_cpu_affinity := cpu\<rparr>"

definition set_affinity_mode :: "affinity_mode \<Rightarrow> scheduler \<Rightarrow> scheduler" where
  "set_affinity_mode m s = s\<lparr>sc_affinity_mode := m\<rparr>"

definition set_timer_manager :: "nat \<Rightarrow> scheduler \<Rightarrow> scheduler" where
  "set_timer_manager m s = s\<lparr>sc_timer_manager := Some m\<rparr>"

definition set_port_manager :: "nat \<Rightarrow> scheduler \<Rightarrow> scheduler" where
  "set_port_manager m s = s\<lparr>sc_port_manager := Some m\<rparr>"

definition ideal_cpu :: "scheduler \<Rightarrow> u32 option" where
  "ideal_cpu s = (if sint (sc_cpu_affinity s) \<ge> 0 then Some (sc_cpu_affinity s) else None)"

section \<open>Reduction budgets\<close>

definition get_reduction_budget :: "pid \<Rightarrow> scheduler \<Rightarrow> u32" where
  "get_reduction_budget p s =
     (case sc_reduction_budgets s p of Some b \<Rightarrow> b | None \<Rightarrow> SCHED_REDUCTION_BUDGET)"

definition set_reduction_budget :: "pid \<Rightarrow> u32 \<Rightarrow> scheduler \<Rightarrow> scheduler" where
  "set_reduction_budget p b s =
     s\<lparr>sc_reduction_budgets := (sc_reduction_budgets s)(p \<mapsto> b)\<rparr>"

definition consume_reduction :: "pid \<Rightarrow> scheduler \<Rightarrow> u32 \<times> scheduler" where
  "consume_reduction p s =
     (let budget = get_reduction_budget p s
      in if budget > 0
         then (let b = budget - 1 in (b, set_reduction_budget p b s))
         else (0, s))"

definition reset_reduction_budget :: "pid \<Rightarrow> scheduler \<Rightarrow> scheduler" where
  "reset_reduction_budget p s = set_reduction_budget p SCHED_REDUCTION_BUDGET s"

definition is_budget_exhausted :: "pid \<Rightarrow> scheduler \<Rightarrow> bool" where
  "is_budget_exhausted p s \<longleftrightarrow> get_reduction_budget p s = 0"

section \<open>Queueing\<close>

definition enqueue_with_priority ::
  "process_handle \<Rightarrow> pid \<Rightarrow> priority \<Rightarrow> scheduler \<Rightarrow> scheduler" where
  "enqueue_with_priority h p pr s =
     s\<lparr>sc_run_queues :=
        rq_enqueue \<lparr>re_pid = p, re_handle = h, re_priority = pr\<rparr> (sc_run_queues s)\<rparr>"

definition enqueue :: "process_handle \<Rightarrow> pid \<Rightarrow> scheduler \<Rightarrow> scheduler" where
  "enqueue h p s = enqueue_with_priority h p (sc_default_priority s) s"

definition dequeue :: "scheduler \<Rightarrow> (pid \<times> process_handle) option \<times> scheduler" where
  "dequeue s =
     (let (r, q) = rq_dequeue (sc_run_queues s)
      in (map_option (\<lambda>e. (re_pid e, re_handle e)) r, s\<lparr>sc_run_queues := q\<rparr>))"

definition wake_process :: "process_handle \<Rightarrow> pid \<Rightarrow> scheduler \<Rightarrow> scheduler" where
  "wake_process h p s = enqueue h p (reset_reduction_budget p s)"

definition sc_remove_by_pid :: "pid \<Rightarrow> scheduler \<Rightarrow> bool \<times> scheduler" where
  "sc_remove_by_pid p s =
     (let (b, q) = rq_remove_by_pid p (sc_run_queues s); s1 = s\<lparr>sc_run_queues := q\<rparr>
      in if b
         then (True, s1\<lparr>sc_reduction_budgets := (sc_reduction_budgets s1)(p := None)\<rparr>)
         else (False, s1))"

definition sc_contains_pid :: "pid \<Rightarrow> scheduler \<Rightarrow> bool" where
  "sc_contains_pid p s \<longleftrightarrow> contains_pid p (sc_run_queues s)"

definition sc_is_empty :: "scheduler \<Rightarrow> bool" where
  "sc_is_empty s \<longleftrightarrow> rq_is_empty (sc_run_queues s)"

definition sc_len :: "scheduler \<Rightarrow> nat" where
  "sc_len s = rq_len (sc_run_queues s)"

definition sc_queue_len :: "priority \<Rightarrow> scheduler \<Rightarrow> nat" where
  "sc_queue_len p s = rq_queue_len p (sc_run_queues s)"

definition go_offline :: "scheduler \<Rightarrow> bool \<times> scheduler" where
  "go_offline s = (if sc_online s then (True, s\<lparr>sc_online := False\<rparr>) else (False, s))"

definition go_online :: "scheduler \<Rightarrow> scheduler" where
  "go_online s = s\<lparr>sc_online := True\<rparr>"

definition is_starved :: "priority \<Rightarrow> scheduler \<Rightarrow> bool" where
  "is_starved p s =
     (let len = (\<lambda>p. rq_queue_len p (sc_run_queues s)) in
      if len p = 0 then False
      else (case p of
        PLow \<Rightarrow> len PNormal = 0 \<and> len PHigh = 0 \<and> len PMax = 0
      | PNormal \<Rightarrow> len PHigh = 0 \<and> len PMax = 0
      | PHigh \<Rightarrow> len PMax = 0
      | PMax \<Rightarrow> False))"

section \<open>Statistics and thread flags\<close>

definition increment_reductions :: "scheduler \<Rightarrow> scheduler" where
  "increment_reductions s =
     s\<lparr>sc_stats := (sc_stats s)\<lparr>ss_reductions_executed := ss_reductions_executed (sc_stats s) + 1\<rparr>\<rparr>"

definition increment_context_switches :: "scheduler \<Rightarrow> scheduler" where
  "increment_context_switches s =
     s\<lparr>sc_stats := (sc_stats s)\<lparr>ss_context_switches := ss_context_switches (sc_stats s) + 1\<rparr>\<rparr>"

definition increment_processes_spawned :: "scheduler \<Rightarrow> scheduler" where
  "increment_processes_spawned s =
     s\<lparr>sc_stats := (sc_stats s)\<lparr>ss_processes_spawned := ss_processes_spawned (sc_stats s) + 1\<rparr>\<rparr>"

definition increment_processes_exited :: "scheduler \<Rightarrow> scheduler" where
  "increment_processes_exited s =
     s\<lparr>sc_stats := (sc_stats s)\<lparr>ss_processes_exited := ss_processes_exited (sc_stats s) + 1\<rparr>\<rparr>"

definition stop :: "scheduler \<Rightarrow> scheduler" where
  "stop s = s\<lparr>sc_stop_flag := True, sc_online := False, sc_has_thread := False\<rparr>"

definition sc_is_running :: "scheduler \<Rightarrow> bool" where
  "sc_is_running s \<longleftrightarrow> sc_has_thread s \<and> \<not> sc_stop_flag s"

section \<open>Stealing\<close>

fun steal_loop ::
  "nat \<Rightarrow> nat \<Rightarrow> priority_run_queues \<Rightarrow> priority_run_queues
     \<Rightarrow> nat \<times> priority_run_queues \<times> priority_run_queues" where
  "steal_loop 0 stolen victim thief = (stolen, victim, thief)"
| "steal_loop (Suc n) stolen victim thief =
     (case rq_dequeue victim of
        (Some e, victim') \<Rightarrow> steal_loop n (stolen + 1) victim' (rq_enqueue e thief)
      | (None, victim') \<Rightarrow> (stolen, victim', thief))"

definition steal_from :: "scheduler \<Rightarrow> scheduler \<Rightarrow> nat \<times> scheduler \<times> scheduler" where
  "steal_from thief victim =
     (if sc_len victim \<le> sc_len thief then (0, thief, victim)
      else
        (let steal_count = (sc_len victim + 1) div 2;
             (stolen, vq, tq) = steal_loop steal_count 0 (sc_run_queues victim) (sc_run_queues thief)
         in (stolen, thief\<lparr>sc_run_queues := tq\<rparr>, victim\<lparr>sc_run_queues := vq\<rparr>)))"

section \<open>The step\<close>

type_synonym step_out = "(unit, pid option \<times> scheduler \<times> process_table) outcome"

text \<open>What the scheduler does with the result of the one instruction it ran.\<close>

definition after_step ::
  "process_handle \<Rightarrow> pid \<Rightarrow> nat \<Rightarrow> u32 \<Rightarrow> step_result \<Rightarrow> scheduler \<Rightarrow> process_table \<Rightarrow> step_out" where
  "after_step h p i remaining r s t =
     (let requeued = (if remaining > 0 then enqueue h p s else s) in
      case sr_result r of
        ExecOk \<Rightarrow>
          Ok (Some p, increment_reductions requeued, modify i (\<lambda>c. c\<lparr>pcb_ip := sr_ip r\<rparr>) t)
      | Wait \<Rightarrow> Ok (Some p, increment_reductions requeued, t)
      | ExitDispatch \<Rightarrow> Ok (Some p, increment_reductions (increment_processes_exited s), t)
      | ExecErr \<Rightarrow> Ok (Some p, increment_reductions s, t)
      | Yield \<Rightarrow>
          Ok (Some p,
              increment_reductions (enqueue h p (set_reduction_budget p SCHED_REDUCTION_BUDGET s)), t)
      | Trap \<Rightarrow> Ok (Some p, increment_reductions requeued, t))"

definition sched_step :: "scheduler \<Rightarrow> process_table \<Rightarrow> step_out" where
  "sched_step s0 t =
     (case dequeue s0 of
        (None, s) \<Rightarrow> Ok (None, s, t)
      | (Some (p, h), s) \<Rightarrow>
          (let budget = get_reduction_budget p s in
           if budget > 0 then
             (case get_by_pid p t of
                None \<Rightarrow> Ok (Some p, increment_reductions s, t)
              | Some (i, c) \<Rightarrow>
                  if pcb_code c \<noteq> [] \<and> unat (pcb_ip c) < length (pcb_code c) then
                    bind_o (execute_instruction (pcb_exec_context c) (pcb_code c)) (\<lambda>(ctx, r).
                      let t1 = modify i (\<lambda>c. c\<lparr>pcb_exec_context := ctx\<rparr>) t;
                          remaining = budget - 1
                      in after_step h p i remaining r (set_reduction_budget p remaining s) t1)
                  else Ok (Some p, increment_reductions s, t))
           else Ok (Some p, increment_reductions (enqueue h p s), t)))"

section \<open>The registry\<close>

datatype scheduler_registry = SchedulerRegistry (schedulers: "scheduler option list")

definition registry_new :: "u32 \<Rightarrow> scheduler_registry" where
  "registry_new n = SchedulerRegistry (map (\<lambda>i. Some (scheduler_new (of_nat i))) [0..<unat n])"

definition registry_get :: "u32 \<Rightarrow> scheduler_registry \<Rightarrow> scheduler option" where
  "registry_get i r = (if unat i < length (schedulers r) then schedulers r ! unat i else None)"

definition registry_count :: "scheduler_registry \<Rightarrow> u32" where
  "registry_count r = of_nat (length (schedulers r))"

definition shutdown :: "scheduler_registry \<Rightarrow> scheduler_registry" where
  "shutdown r = SchedulerRegistry (map (map_option stop) (schedulers r))"

definition registry_total_len :: "scheduler_registry \<Rightarrow> nat" where
  "registry_total_len r = sum_list (map sc_len (slot_contents (schedulers r)))"

text \<open>\<^verbatim>\<open>max_by_key\<close> answers the last of several maximal elements, \<^verbatim>\<open>min_by_key\<close> the first of
  several minimal ones.\<close>

definition most_loaded :: "scheduler_registry \<Rightarrow> scheduler option" where
  "most_loaded r =
     fold (\<lambda>s best. case best of None \<Rightarrow> Some s
                    | Some b \<Rightarrow> if sc_len b \<le> sc_len s then Some s else Some b)
       (slot_contents (schedulers r)) None"

definition least_loaded :: "scheduler_registry \<Rightarrow> scheduler option" where
  "least_loaded r =
     fold (\<lambda>s best. case best of None \<Rightarrow> Some s
                    | Some b \<Rightarrow> if sc_len s < sc_len b then Some s else Some b)
       (slot_contents (schedulers r)) None"

definition slot_len :: "scheduler option \<Rightarrow> nat" where
  "slot_len s = (case s of Some s \<Rightarrow> sc_len s | None \<Rightarrow> 0)"

text \<open>The two slices the function takes first are not used; indexing past the end panics.\<close>

definition steal_from_idx ::
  "nat \<Rightarrow> nat \<Rightarrow> scheduler option list \<Rightarrow> (unit, nat \<times> scheduler option list) outcome" where
  "steal_from_idx target victim ss =
     (if target = victim then Ok (0, ss)
      else
        bind_o (index_o ss target) (\<lambda>ts.
        bind_o (index_o ss victim) (\<lambda>vs.
          if slot_len vs \<le> slot_len ts then Ok (0, ss)
          else
            (case (vs, ts) of
               (Some v, Some t) \<Rightarrow>
                 (let (stolen, t', v') = steal_from t v
                  in Ok (stolen, (ss[victim := None, target := Some t'])[victim := Some v']))
             | _ \<Rightarrow> Ok (0, (ss[victim := None])[victim := vs])))))"

text \<open>The index of the first scheduler with the longest non-empty queues.\<close>

fun max_index_from ::
  "nat \<Rightarrow> scheduler option list \<Rightarrow> nat option \<times> nat \<Rightarrow> nat option \<times> nat" where
  "max_index_from i [] best = best"
| "max_index_from i (x # xs) (idx, len) =
     (case x of
        Some s \<Rightarrow>
          if sc_len s > len then max_index_from (Suc i) xs (Some i, sc_len s)
          else max_index_from (Suc i) xs (idx, len)
      | None \<Rightarrow> max_index_from (Suc i) xs (idx, len))"

fun steal_each ::
  "nat \<Rightarrow> nat list \<Rightarrow> nat \<Rightarrow> scheduler option list \<Rightarrow> (unit, scheduler option list) outcome" where
  "steal_each victim [] max_len ss = Ok ss"
| "steal_each victim (target # targets) max_len ss =
     bind_o (index_o ss target) (\<lambda>ts.
       if max_len > slot_len ts * 2 then
         bind_o (steal_from_idx target victim ss) (\<lambda>(stolen, ss').
           if stolen > 0 then
             bind_o (index_o ss' victim) (\<lambda>vs.
               if slot_len vs = 0 then Ok ss' else steal_each victim targets (slot_len vs) ss')
           else if max_len = 0 then Ok ss' else steal_each victim targets max_len ss')
       else if max_len = 0 then Ok ss else steal_each victim targets max_len ss)"

definition rebalance :: "scheduler_registry \<Rightarrow> (unit, scheduler_registry) outcome" where
  "rebalance r =
     (let total = registry_total_len r; n = unat (registry_count r); ss = schedulers r in
      if n = 0 \<or> total = 0 then Ok r
      else
        (let avg = total div n; (max_idx, max_len) = max_index_from 0 ss (None, 0) in
         if max_len = 0 then Ok r
         else
           (case max_idx of
              None \<Rightarrow> Panic UnwrapNone
            | Some victim \<Rightarrow>
                (let below = filter (\<lambda>i. i \<noteq> victim \<and> slot_len (ss ! i) < avg) [0..<length ss]
                 in bind_o (steal_each victim below max_len ss) (\<lambda>ss'. Ok (SchedulerRegistry ss'))))))"

end
