(* ===== verification/Sched_Laws.thy ===== *)
theory Sched_Laws
  imports Sched Table_Laws Interp_Loop
begin

text \<open>
  What the scheduler promises: the order in which it runs processes, what a step does with the
  process it ran, and that stealing and rebalancing lose no process.
\<close>

section \<open>The order of the run queues\<close>

definition of_priority :: "priority \<Rightarrow> run_queue_entry list \<Rightarrow> run_queue_entry list" where
  "of_priority p = filter (\<lambda>e. re_priority e = p)"

lemma get_queue_set_queue:
  "get_queue p (set_queue p' es q) = (if p = p' then es else get_queue p q)"
  by (cases p; cases p') simp_all

lemma queues_of_priority:
  assumes "queues_ok q"
  shows "of_priority p (rq_list q) = get_queue p q"
proof -
  have "of_priority p (get_queue p' q) = (if p = p' then get_queue p q else [])" for p'
    using assms unfolding queues_ok_def of_priority_def
    by (cases "p = p'") (auto simp: filter_empty_conv intro!: filter_True)
  from this [of PMax] this [of PHigh] this [of PNormal] this [of PLow] show ?thesis
    by (cases p) (simp_all add: rq_list_def of_priority_def)
qed

lemma enqueue_queues_ok:
  assumes "queues_ok q"
  shows "queues_ok (rq_enqueue e q)"
proof (cases "contains_pid (re_pid e) q")
  case False
  then have "mset (rq_list (rq_enqueue e q)) = mset (e # rq_list q)"
    using rq_enqueue_entries [of e q] by (simp add: rq_entries_def)
  then have "distinct (map re_pid (rq_list (rq_enqueue e q))) \<longleftrightarrow> distinct (map re_pid (e # rq_list q))"
    using mset_eq_imp_distinct_iff [of "map re_pid (rq_list (rq_enqueue e q))" "map re_pid (e # rq_list q)"]
    by (metis mset_map)
  moreover have "get_queue p (rq_enqueue e q) =
      get_queue p q @ (if p = re_priority e then [e] else [])" for p
    using False by (simp add: rq_enqueue_def get_queue_set_queue)
  ultimately show ?thesis
    using assms False by (auto simp: queues_ok_def contains_pid_iff)
qed (use assms in \<open>simp add: rq_enqueue_def\<close>)

lemma get_queue_enqueue:
  "\<not> contains_pid (re_pid e) q \<Longrightarrow>
   get_queue p (rq_enqueue e q) = get_queue p q @ (if p = re_priority e then [e] else [])"
  by (simp add: rq_enqueue_def get_queue_set_queue)

lemma dequeue_queues_ok:
  assumes "queues_ok q"
  shows "queues_ok (snd (rq_dequeue q))"
proof -
  have "set (get_queue p (snd (rq_dequeue q))) \<subseteq> set (get_queue p q)" for p
    by (cases p) (auto simp: rq_dequeue_def pop_front_def split: list.split)
  with assms show ?thesis
    unfolding queues_ok_def rq_dequeue_list(3)
    by (metis (no_types) distinct_tl map_tl subset_iff)
qed

lemma sorted_wrt_all: "(\<And>x y. x \<in> set xs \<Longrightarrow> y \<in> set xs \<Longrightarrow> P x y) \<Longrightarrow> sorted_wrt P xs"
  by (induction xs) auto

lemma rq_list_sorted:
  assumes "queues_ok q"
  shows "sorted_wrt (\<lambda>e e'. priority_rank (re_priority e') \<le> priority_rank (re_priority e)) (rq_list q)"
proof -
  have "\<forall>e\<in>set (get_queue p q). re_priority e = p" for p using assms by (simp add: queues_ok_def)
  from this [of PMax] this [of PHigh] this [of PNormal] this [of PLow]
  show ?thesis
    by (auto simp: rq_list_def sorted_wrt_append priority_rank_def intro!: sorted_wrt_all)
qed

section \<open>Stealing\<close>

lemma steal_loop_move:
  "steal_loop n k victim thief = (let (m, v, t) = rq_pool.move n victim thief in (k + m, v, t))"
proof (induction n arbitrary: k victim thief)
  case (Suc n)
  show ?case
  proof (cases "rq_dequeue victim")
    case (Pair r v)
    then show ?thesis by (cases r) (simp_all add: Suc.IH Let_def split: prod.split)
  qed
qed simp

definition sc_entries :: "scheduler \<Rightarrow> run_queue_entry multiset" where
  "sc_entries s = rq_entries (sc_run_queues s)"

lemma sc_len_entries: "sc_len s = size (sc_entries s)"
  by (simp add: sc_len_def sc_entries_def rq_len_list rq_entries_def)

lemma rq_keys: "rq_pool.keys q = re_pid ` set (rq_list q)"
  by (simp add: rq_pool.keys_def rq_entries_def)

lemma rq_unique: "rq_pool.unique q \<longleftrightarrow> distinct (map re_pid (rq_list q))"
  unfolding rq_pool.unique_def rq_entries_def distinct_map
  by (auto simp: distinct_count_atmost_1 not_in_iff count_list_0_iff le_Suc_eq)

lemma steal_from_spec:
  assumes "sc_len t < sc_len v" and "steal_from t v = (k, t', v')"
    and "rq_pool.unique (sc_run_queues v)"
  shows "k = (sc_len v + 1) div 2 \<and> sc_len v' + k = sc_len v
    \<and> rq_pool.keys (sc_run_queues v') \<union> rq_pool.keys (sc_run_queues t')
        = rq_pool.keys (sc_run_queues v) \<union> rq_pool.keys (sc_run_queues t)
    \<and> (rq_pool.keys (sc_run_queues v) \<inter> rq_pool.keys (sc_run_queues t) = {} \<longrightarrow>
        sc_entries v' + sc_entries t' = sc_entries v + sc_entries t)"
proof -
  let ?n = "(sc_len v + 1) div 2"
  obtain m vq tq where mv: "rq_pool.move ?n (sc_run_queues v) (sc_run_queues t) = (m, vq, tq)"
    by (metis prod_cases3)
  then have e: "k = m" "t' = t\<lparr>sc_run_queues := tq\<rparr>" "v' = v\<lparr>sc_run_queues := vq\<rparr>"
    using assms(1,2) by (simp_all add: steal_from_def steal_loop_move Let_def)
  have "?n \<le> sc_len v" using assms(1) by simp
  then show ?thesis
    using rq_pool.move_spec [OF mv] rq_pool.move_disjoint [OF mv assms(3)]
    by (auto simp: e sc_len_entries sc_entries_def)
qed

section \<open>All schedulers together\<close>

definition all_entries :: "scheduler option list \<Rightarrow> run_queue_entry multiset" where
  "all_entries ss = (\<Sum>s\<in>#mset (slot_contents ss). sc_entries s)"

text \<open>No pid is queued twice, in one scheduler or in two.\<close>

definition pools_ok :: "scheduler option list \<Rightarrow> bool" where
  "pools_ok ss \<longleftrightarrow> (\<forall>p. count (image_mset re_pid (all_entries ss)) p \<le> 1)"

lemma two_slots:
  assumes "i < length ss" "j < length ss" "i \<noteq> j" "ss ! i = Some a" "ss ! j = Some b"
  shows "\<exists>R. mset (slot_contents ss) = add_mset a (add_mset b R) \<and>
    (\<forall>a' b'. mset (slot_contents (ss[i := Some a', j := Some b'])) = add_mset a' (add_mset b' R))"
proof (intro exI conjI allI)
  let ?R = "mset (slot_contents (ss[i := None, j := None]))"
  have "mset (slot_contents (ss[i := None])) = add_mset b ?R"
    using assms by (intro slot_contents_clear) simp_all
  with slot_contents_clear [OF assms(1,4)] show "mset (slot_contents ss) = add_mset a (add_mset b ?R)"
    by simp
  fix a' b'
  let ?ss = "ss[i := Some a', j := Some b']"
  have "mset (slot_contents ?ss) = add_mset a' (mset (slot_contents (?ss[i := None])))"
    using assms by (intro slot_contents_clear) simp_all
  moreover have "mset (slot_contents (?ss[i := None]))
      = add_mset b' (mset (slot_contents ((?ss[i := None])[j := None])))"
    using assms by (intro slot_contents_clear) simp_all
  moreover have "(?ss[i := None])[j := None] = ss[i := None, j := None]"
    using assms(3) by (simp add: list_update_swap)
  ultimately show "mset (slot_contents ?ss) = add_mset a' (add_mset b' ?R)" by simp
qed

lemma count_unique:
  "rq_pool.unique q \<longleftrightarrow> (\<forall>p. count (image_mset re_pid (rq_entries q)) p \<le> 1)"
  by (auto simp: rq_unique rq_entries_def distinct_count_atmost_1 not_in_iff le_Suc_eq
      simp flip: mset_map)

lemma pools_ok_pair:
  assumes "pools_ok ss" and "mset (slot_contents ss) = add_mset a (add_mset b R)"
  shows "rq_pool.unique (sc_run_queues a)"
    and "rq_pool.keys (sc_run_queues a) \<inter> rq_pool.keys (sc_run_queues b) = {}"
proof -
  let ?c = "\<lambda>s p. count (image_mset re_pid (sc_entries s)) p"
  have le: "?c a p + ?c b p \<le> 1" for p
    using assms by (auto simp: pools_ok_def all_entries_def dest: spec [of _ p])
  have "?c a p \<le> 1" for p using le [of p] by simp
  then show "rq_pool.unique (sc_run_queues a)" by (simp add: count_unique sc_entries_def)
  have "p \<notin> rq_pool.keys (sc_run_queues a) \<or> p \<notin> rq_pool.keys (sc_run_queues b)" for p
  proof (rule ccontr)
    assume "\<not> ?thesis"
    then have "p \<in># image_mset re_pid (sc_entries a)" "p \<in># image_mset re_pid (sc_entries b)"
      by (auto simp: rq_pool.keys_def sc_entries_def)
    then have "0 < ?c a p" "0 < ?c b p" by (metis count_greater_zero_iff)+
    with le [of p] show False by simp
  qed
  then show "rq_pool.keys (sc_run_queues a) \<inter> rq_pool.keys (sc_run_queues b) = {}" by auto
qed

lemma steal_from_idx_ok:
  assumes "pools_ok ss" and "target < length ss" and "victim < length ss"
  shows "\<exists>k ss'. steal_from_idx target victim ss = Ok (k, ss') \<and> length ss' = length ss
    \<and> all_entries ss' = all_entries ss"
proof (cases "target = victim \<or> slot_len (ss ! victim) \<le> slot_len (ss ! target)")
  case True
  then show ?thesis using assms(2,3) by (auto simp: steal_from_idx_def)
next
  case False
  show ?thesis
  proof (cases "(ss ! victim, ss ! target)")
    case (Pair vs ts)
    show ?thesis
    proof (cases "vs = None \<or> ts = None")
      case True
      with False Pair assms(2,3) show ?thesis
        by (cases vs; cases ts)
          (auto simp: steal_from_idx_def list_update_same_conv [THEN iffD2])
    next
      case F: False
      then obtain v t where vt: "ss ! victim = Some v" "ss ! target = Some t" using Pair by auto
      obtain k t' v' where st: "steal_from t v = (k, t', v')" by (metis prod_cases3)
      obtain R where R: "mset (slot_contents ss) = add_mset v (add_mset t R)"
        "\<And>a' b'. mset (slot_contents (ss[victim := Some a', target := Some b'])) = add_mset a' (add_mset b' R)"
        using two_slots [OF assms(3,2) _ vt] False by auto
      have lt: "sc_len t < sc_len v" using False vt by (simp add: slot_len_def)
      note pr = pools_ok_pair [OF assms(1) R(1)]
      have "sc_entries v' + sc_entries t' = sc_entries v + sc_entries t"
        using steal_from_spec [OF lt st pr(1)] pr(2) by blast
      then have "all_entries (ss[victim := Some v', target := Some t']) = all_entries ss"
        by (simp add: all_entries_def R)
      moreover have "(ss[victim := None, target := Some t'])[victim := Some v']
          = ss[victim := Some v', target := Some t']"
        using False assms(2,3) by (intro nth_equalityI) (auto simp: nth_list_update)
      ultimately show ?thesis
        using False vt st assms(2,3) by (simp add: steal_from_idx_def)
    qed
  qed
qed

lemma pools_ok_cong: "all_entries ss' = all_entries ss \<Longrightarrow> pools_ok ss' \<longleftrightarrow> pools_ok ss"
  by (simp add: pools_ok_def)

lemma steal_each_ok:
  assumes "victim < length ss" and "pools_ok ss" and "\<forall>i\<in>set targets. i < length ss"
  shows "\<exists>ss'. steal_each victim targets m ss = Ok ss' \<and> length ss' = length ss
    \<and> all_entries ss' = all_entries ss"
  using assms
proof (induction targets arbitrary: m ss)
  case (Cons i targets)
  obtain k ss1 where st: "steal_from_idx i victim ss = Ok (k, ss1)" "length ss1 = length ss"
    "all_entries ss1 = all_entries ss"
    using steal_from_idx_ok [of ss i victim] Cons.prems by auto
  have IH1: "\<exists>ss'. steal_each victim targets m' ss1 = Ok ss' \<and> length ss' = length ss
      \<and> all_entries ss' = all_entries ss" for m'
  proof -
    have "victim < length ss1" "pools_ok ss1" "\<forall>i\<in>set targets. i < length ss1"
      using Cons.prems st(2,3) pools_ok_cong [of ss1 ss] by simp_all
    from Cons.IH [OF this, of m'] show ?thesis by (simp only: st(2,3))
  qed
  have IH: "\<exists>ss'. steal_each victim targets m' ss = Ok ss' \<and> length ss' = length ss
      \<and> all_entries ss' = all_entries ss" for m'
    using Cons.IH [of ss m'] Cons.prems by simp
  show ?case using IH IH1 st Cons.prems by simp
qed simp

lemma max_index_from_spec:
  "max_index_from i xs (idx, len) = (idx', len') \<Longrightarrow>
   (idx = None \<longrightarrow> len = 0) \<Longrightarrow> (\<forall>k. idx = Some k \<longrightarrow> k < i) \<Longrightarrow>
   (idx' = None \<longrightarrow> len' = 0) \<and> (\<forall>k. idx' = Some k \<longrightarrow> k < i + length xs)"
proof (induction xs arbitrary: i idx len)
  case Nil
  then show ?case by simp
next
  case (Cons x xs)
  show ?case
  proof (cases "x = None \<or> sc_len (the x) \<le> len")
    case True
    then have "max_index_from (Suc i) xs (idx, len) = (idx', len')"
      using Cons.prems(1) by (cases x) auto
    with Cons.IH [of "Suc i" idx len] Cons.prems(2,3) show ?thesis
      by (auto simp: less_Suc_eq)
  next
    case False
    then have "max_index_from (Suc i) xs (Some i, sc_len (the x)) = (idx', len')"
      using Cons.prems(1) by (cases x) auto
    with Cons.IH [of "Suc i" "Some i" "sc_len (the x)"] show ?thesis by auto
  qed
qed

lemma rebalance_ok:
  assumes "pools_ok (schedulers r)"
  shows "\<exists>r'. rebalance r = Ok r' \<and> length (schedulers r') = length (schedulers r)
    \<and> all_entries (schedulers r') = all_entries (schedulers r)"
proof -
  obtain idx len where mx: "max_index_from 0 (schedulers r) (None, 0) = (idx, len)" by force
  note m = max_index_from_spec [OF mx]
  show ?thesis
  proof (cases "unat (registry_count r) = 0 \<or> registry_total_len r = 0 \<or> len = 0")
    case True
    then show ?thesis by (auto simp: rebalance_def Let_def mx)
  next
    case False
    then obtain k where k: "idx = Some k" "k < length (schedulers r)" using m by (cases idx) auto
    obtain ss' where "steal_each k (filter (\<lambda>i. i \<noteq> k \<and> slot_len (schedulers r ! i)
          < registry_total_len r div unat (registry_count r)) [0..<length (schedulers r)]) len
        (schedulers r) = Ok ss'" "length ss' = length (schedulers r)"
      "all_entries ss' = all_entries (schedulers r)"
      using steal_each_ok [OF k(2) assms, of "filter (\<lambda>i. i \<noteq> k \<and> slot_len (schedulers r ! i)
          < registry_total_len r div unat (registry_count r)) [0..<length (schedulers r)]" len] by auto
    then show ?thesis using False by (simp add: rebalance_def Let_def mx k(1))
  qed
qed

section \<open>The step\<close>

lemma dequeue_step:
  assumes "rq_list (sc_run_queues s) = e # es"
  shows "\<exists>q. dequeue s = (Some (re_pid e, re_handle e), s\<lparr>sc_run_queues := q\<rparr>) \<and> rq_list q = es"
  using rq_dequeue_list [of "sc_run_queues s"] assms
  by (cases "rq_dequeue (sc_run_queues s)") (auto simp: dequeue_def)

lemma enqueue_contains [simp]: "re_pid e \<in> re_pid ` set (rq_list (rq_enqueue e q))"
  using rq_pool.keys_enq [of e q] by (simp add: rq_keys)

lemma contains_enqueue [simp]:
  "contains_pid p (sc_run_queues (enqueue h p s))"
  "sc_reduction_budgets (enqueue h p s) = sc_reduction_budgets s"
  "sc_default_priority (enqueue h p s) = sc_default_priority s"
proof -
  show "contains_pid p (sc_run_queues (enqueue h p s))"
    using enqueue_contains [of "\<lparr>re_pid = p, re_handle = h, re_priority = sc_default_priority s\<rparr>"]
    by (simp add: contains_pid_iff enqueue_def enqueue_with_priority_def)
qed (simp_all add: enqueue_def enqueue_with_priority_def)

lemma increment_fields [simp]:
  "sc_run_queues (increment_reductions s) = sc_run_queues s"
  "sc_reduction_budgets (increment_reductions s) = sc_reduction_budgets s"
  "sc_run_queues (set_reduction_budget p b s) = sc_run_queues s"
  "sc_reduction_budgets (set_reduction_budget p b s) = (sc_reduction_budgets s)(p \<mapsto> b)"
  "sc_default_priority (increment_reductions s) = sc_default_priority s"
  by (simp_all add: increment_reductions_def set_reduction_budget_def)

section \<open>Properties\<close>

text \<open>C40. The run queues are strict by priority and first-in first-out within a priority: the
  entry handed out is the oldest of the highest priority present, an entry put in goes behind
  the others of its priority and changes no other priority, and an entry whose pid is queued
  already is refused.\<close>

theorem strict_priority_fifo:
  assumes "queues_ok q"
  shows "fst (rq_dequeue q) = (case rq_list q of [] \<Rightarrow> None | e # _ \<Rightarrow> Some e)
    \<and> rq_list (snd (rq_dequeue q)) = tl (rq_list q)
    \<and> sorted_wrt (\<lambda>e e'. priority_rank (re_priority e') \<le> priority_rank (re_priority e)) (rq_list q)
    \<and> (\<forall>p. of_priority p (rq_list (rq_enqueue e q)) =
          of_priority p (rq_list q)
          @ (if p = re_priority e \<and> re_pid e \<notin> re_pid ` set (rq_list q) then [e] else []))
    \<and> queues_ok (rq_enqueue e q) \<and> queues_ok (snd (rq_dequeue q))"
proof -
  have "of_priority p (rq_list (rq_enqueue e q)) =
      of_priority p (rq_list q)
      @ (if p = re_priority e \<and> re_pid e \<notin> re_pid ` set (rq_list q) then [e] else [])" for p
    using get_queue_enqueue [of e q p] queues_of_priority [OF assms, of p]
      queues_of_priority [OF enqueue_queues_ok [OF assms], of p e]
    by (auto simp: contains_pid_iff rq_enqueue_def)
  then show ?thesis
    using rq_dequeue_list(1,3) rq_list_sorted [OF assms] enqueue_queues_ok [OF assms]
      dequeue_queues_ok [OF assms] by blast
qed

theorem strict_priority_fifo_witness:
  "queues_ok (rq_enqueue \<lparr>re_pid = pid_new 1 0 0, re_handle = process_handle_new 0 (pid_new 1 0 0),
      re_priority = PHigh\<rparr> run_queues_new)"
  using strict_priority_fifo [OF queues_ok_new] by blast

text \<open>C13. Stealing and rebalancing lose no process and run none twice: when no pid is queued
  twice in the registry, a rebalance returns without panic and the schedulers together hold
  exactly the entries they held before; a thief that has less work takes half of the victim's
  entries, rounded up.\<close>

theorem rebalance_conserves:
  assumes "pools_ok (schedulers r)"
  shows "(\<exists>r'. rebalance r = Ok r' \<and> all_entries (schedulers r') = all_entries (schedulers r)
      \<and> pools_ok (schedulers r') \<and> length (schedulers r') = length (schedulers r))
    \<and> (schedulers r = [Some t, Some v] \<and> sc_len t < sc_len v \<longrightarrow>
        fst (steal_from t v) = (sc_len v + 1) div 2
        \<and> sc_len (snd (snd (steal_from t v))) = sc_len v div 2)"
proof -
  have "fst (steal_from t v) = (sc_len v + 1) div 2 \<and> sc_len (snd (snd (steal_from t v))) = sc_len v div 2"
    if r: "schedulers r = [Some t, Some v]" and lt: "sc_len t < sc_len v"
  proof -
    obtain k t' v' where st: "steal_from t v = (k, t', v')" by (metis prod_cases3)
    have "mset (slot_contents (schedulers r)) = add_mset v (add_mset t {#})" by (simp add: r)
    from pools_ok_pair(1) [OF assms this] steal_from_spec [OF lt st] st show ?thesis by auto
  qed
  with rebalance_ok [OF assms] assms pools_ok_cong show ?thesis by blast
qed

definition pair_registry :: scheduler_registry where
  "pair_registry = SchedulerRegistry
     [Some (scheduler_new 0),
      Some (enqueue (process_handle_new 1 (pid_new 2 0 0)) (pid_new 2 0 0)
        (enqueue (process_handle_new 0 (pid_new 1 0 0)) (pid_new 1 0 0) (scheduler_new 1)))]"

theorem rebalance_conserves_witness:
  "\<exists>r'. rebalance pair_registry = Ok r' \<and> all_entries (schedulers r') = all_entries (schedulers pair_registry)"
proof -
  have "all_entries (schedulers pair_registry) =
      {#\<lparr>re_pid = pid_new 1 0 0, re_handle = process_handle_new 0 (pid_new 1 0 0), re_priority = PNormal\<rparr>,
        \<lparr>re_pid = pid_new 2 0 0, re_handle = process_handle_new 1 (pid_new 2 0 0), re_priority = PNormal\<rparr>#}"
    by (simp add: pair_registry_def all_entries_def sc_entries_def rq_entries_def rq_list_def
        scheduler_new_def run_queues_new_def enqueue_def enqueue_with_priority_def rq_enqueue_def
        contains_pid_def pid_new_def)
  then have "pools_ok (schedulers pair_registry)"
    by (simp add: pools_ok_def pid_new_def)
  from rebalance_conserves [OF this] show ?thesis by blast
qed

text \<open>A process does not survive the end of its budget in the run queue.  A step that executes
  one instruction of the process at the front charges one reduction and puts the process back,
  at the default priority of the scheduler and not at its own, only while budget is left: with
  its last reduction it drops out.  Queued with no budget it is put back without running: the
  step changes nothing but the statistics and the place in the queue.\<close>

theorem budget_end:
  assumes "rq_list (sc_run_queues s) = e # es" and "distinct (map re_pid (e # es))"
    and "get_by_pid (re_pid e) t = Some (i, c)"
    and "pcb_code c \<noteq> []" and "unat (pcb_ip c) < length (pcb_code c)"
    and "execute_instruction (pcb_exec_context c) (pcb_code c) = Ok (ctx, r)" and "sr_result r = ExecOk"
  shows "\<exists>s' t'. sched_step s t = Ok (Some (re_pid e), s', t')
    \<and> (let b = get_reduction_budget (re_pid e) s in
        if b = 0 then t' = t \<and> sc_contains_pid (re_pid e) s' \<and> get_reduction_budget (re_pid e) s' = 0
        else get_reduction_budget (re_pid e) s' = b - 1
          \<and> proc t' (re_pid e) = Some (c\<lparr>pcb_exec_context := ctx, pcb_ip := sr_ip r\<rparr>)
          \<and> rq_list (sc_run_queues s')
              = (if b = 1 then es
                 else rq_list (rq_enqueue \<lparr>re_pid = re_pid e, re_handle = re_handle e,
                        re_priority = sc_default_priority s\<rparr> (snd (rq_dequeue (sc_run_queues s)))))
          \<and> (sc_contains_pid (re_pid e) s' \<longleftrightarrow> b \<noteq> 1))"
proof -
  let ?p = "re_pid e" and ?h = "re_handle e"
  obtain q where d: "dequeue s = (Some (?p, ?h), s\<lparr>sc_run_queues := q\<rparr>)" and q: "rq_list q = es"
    using dequeue_step [OF assms(1)] by blast
  have qs: "q = snd (rq_dequeue (sc_run_queues s))"
    using d by (auto simp: dequeue_def split: prod.splits)
      (metis scheduler.select_convs(2) scheduler.surjective scheduler.update_convs(2) snd_conv)
  let ?b = "get_reduction_budget ?p s"
  have b: "get_reduction_budget ?p (s\<lparr>sc_run_queues := q\<rparr>) = ?b" by (simp add: get_reduction_budget_def)
  show ?thesis
  proof (cases "?b = 0")
    case True
    then show ?thesis
      by (simp add: sched_step_def d b sc_contains_pid_def) (simp add: get_reduction_budget_def)
  next
    case False
    then have pos: "0 < ?b" by (simp add: word_greater_zero_iff)
    have last: "?b - 1 = 0 \<longleftrightarrow> ?b = 1" by (metis diff_add_cancel diff_self add_0)
    let ?t1 = "modify i (\<lambda>c. c\<lparr>pcb_exec_context := ctx\<rparr>) t"
    let ?t2 = "modify i (\<lambda>c. c\<lparr>pcb_ip := sr_ip r\<rparr>) ?t1"
    have g1: "get_by_pid ?p ?t1 = Some (i, c\<lparr>pcb_exec_context := ctx\<rparr>)"
      using assms(3) same_pids_index [OF same_pids_modify, of i t "\<lambda>c. c\<lparr>pcb_exec_context := ctx\<rparr>" ?p]
      by (simp add: get_by_pid_iff get_by_index_modify)
    have "proc ?t2 = (proc ?t1)(?p \<mapsto> c\<lparr>pcb_exec_context := ctx, pcb_ip := sr_ip r\<rparr>)"
      using proc_modify [OF g1, of "\<lambda>c. c\<lparr>pcb_ip := sr_ip r\<rparr>"] by simp
    moreover have "sched_step s t = after_step ?h ?p i (?b - 1) r
        (set_reduction_budget ?p (?b - 1) (s\<lparr>sc_run_queues := q\<rparr>)) ?t1"
      using pos assms(4,5,6) by (simp add: sched_step_def d b assms(3) Let_def)
    moreover have "?p \<notin> re_pid ` set es" using assms(2) by simp
    ultimately show ?thesis
      using False last q qs
      by (auto simp: after_step_def assms(7) sc_contains_pid_def contains_pid_iff
          get_reduction_budget_def word_greater_zero_iff enqueue_def enqueue_with_priority_def
          set_reduction_budget_def
          enqueue_contains [of "\<lparr>re_pid = re_pid e, re_handle = re_handle e, re_priority = x\<rparr>" for x,
            simplified])
  qed
qed

theorem budget_end_witness:
  "let p = pid_new 1 0 0; c = load_code [30] (pcb_new p 8);
       t = (process_table_new 0)\<lparr>tb_processes := [Some c], tb_next_index := 1\<rparr>;
       s = set_reduction_budget p 1 (enqueue (process_handle_new 0 p) p (scheduler_new 0))
   in \<exists>s' t'. sched_step s t = Ok (Some p, s', t') \<and> \<not> sc_contains_pid p s'"
proof -
  let ?p = "pid_new 1 0 0"
  let ?c = "load_code [30] (pcb_new ?p 8)"
  let ?t = "(process_table_new 0)\<lparr>tb_processes := [Some ?c], tb_next_index := 1\<rparr>"
  let ?s = "set_reduction_budget ?p 1 (enqueue (process_handle_new 0 ?p) ?p (scheduler_new 0))"
  let ?e = "\<lparr>re_pid = ?p, re_handle = process_handle_new 0 ?p, re_priority = PNormal\<rparr>"
  have q: "rq_list (sc_run_queues ?s) = [?e]"
    by (simp add: rq_list_def enqueue_def enqueue_with_priority_def rq_enqueue_def contains_pid_def
        scheduler_new_def run_queues_new_def)
  have g: "get_by_pid (re_pid ?e) ?t = Some (0, ?c)"
    by (simp add: get_by_pid_def get_index_by_pid_def get_by_index_def load_code_def pcb_new_def)
  have code: "pcb_code ?c = [30]" "pcb_ip ?c = 0" "ec_ip (pcb_exec_context ?c) = 0"
    by (simp_all add: load_code_def pcb_new_def exec_context_new_def)
  have b: "get_reduction_budget ?p ?s = 1" by (simp add: get_reduction_budget_def)
  have ex: "execute_instruction (pcb_exec_context ?c) (pcb_code ?c) =
      Ok ((decrement_reductions 1 (pcb_exec_context ?c))\<lparr>ec_ip := 0\<rparr>, \<lparr>sr_ip = 0, sr_result = ExecOk\<rparr>)"
    unfolding code(1) by (rule self_jump_step [OF code(3)])
  have "\<exists>s' t'. sched_step ?s ?t = Ok (Some (re_pid ?e), s', t') \<and> \<not> sc_contains_pid ?p s'"
    using budget_end [OF q _ g _ _ ex] by (auto simp: code b)
  then show ?thesis by (simp add: Let_def)
qed

end
