(* ===== verification/Timers.thy ===== *)
theory Timers
  imports Interfaces Ids Terms
begin

text \<open>
  Timers (\<^verbatim>\<open>TimerManager\<close> of \<^verbatim>\<open>crates/chimera_erlang_beam_timer/src/lib.rs\<close>).

  The binary heap is the list of its entries; popping takes out an entry with the earliest
  time-out, the first of them in the list (the order among equal time-outs is not specified
  by the heap, and no property depends on it).  The wall clock is an argument.
\<close>

section \<open>Model\<close>

record timer_entry =
  tm_id :: u64
  tm_target_pid :: pid
  tm_message :: beam_term
  tm_timeout_timestamp :: i64
  tm_active :: bool

text \<open>The reversed order of the entries: an earlier time-out is greater.\<close>

definition timer_cmp :: "timer_entry \<Rightarrow> timer_entry \<Rightarrow> ordering" where
  "timer_cmp a b = cmp_of (sint (tm_timeout_timestamp b)) (sint (tm_timeout_timestamp a))"

fun heap_pop :: "timer_entry list \<Rightarrow> (timer_entry \<times> timer_entry list) option" where
  "heap_pop [] = None"
| "heap_pop (t # ts) =
     (case heap_pop ts of
        None \<Rightarrow> Some (t, [])
      | Some (m, rest) \<Rightarrow> if timer_cmp t m = Less then Some (m, t # rest) else Some (t, ts))"

definition heap_push :: "timer_entry \<Rightarrow> timer_entry list \<Rightarrow> timer_entry list" where
  "heap_push t ts = ts @ [t]"

record timer_manager =
  mg_timers :: "timer_entry list"
  mg_cancelled :: "u64 list"
  mg_next_timer_id :: u64
  mg_wakeup_fd :: "u32 option"
  mg_pending_count :: nat

definition timer_manager_new :: timer_manager where
  "timer_manager_new =
     \<lparr>mg_timers = [], mg_cancelled = [], mg_next_timer_id = 1, mg_wakeup_fd = None,
      mg_pending_count = 0\<rparr>"

definition add_timer ::
  "i64 \<Rightarrow> i64 \<Rightarrow> pid \<Rightarrow> beam_term \<Rightarrow> timer_manager \<Rightarrow> u64 option \<times> timer_manager" where
  "add_timer now timeout_ms target msg m =
     (let i = mg_next_timer_id m;
          entry = \<lparr>tm_id = i, tm_target_pid = target, tm_message = msg,
                   tm_timeout_timestamp = now + timeout_ms, tm_active = True\<rparr>
      in (Some i, m\<lparr>mg_next_timer_id := i + 1, mg_timers := heap_push entry (mg_timers m)\<rparr>))"

definition in_heap :: "u64 \<Rightarrow> timer_manager \<Rightarrow> bool" where
  "in_heap i m \<longleftrightarrow> list_ex (\<lambda>t. tm_id t = i \<and> tm_active t) (mg_timers m)"

definition cancel_timer :: "u64 \<Rightarrow> timer_manager \<Rightarrow> bool \<times> timer_manager" where
  "cancel_timer i m = (in_heap i m, m\<lparr>mg_cancelled := mg_cancelled m @ [i]\<rparr>)"

lemma heap_pop_None: "heap_pop ts = None \<longleftrightarrow> ts = []"
  by (cases ts) (auto split: option.splits if_splits)

lemma heap_pop_mset: "heap_pop ts = Some (t, rest) \<Longrightarrow> mset ts = add_mset t (mset rest)"
  by (induction ts arbitrary: t rest) (auto simp: heap_pop_None split: option.splits if_splits)

lemma heap_pop_length: "heap_pop ts = Some (t, rest) \<Longrightarrow> length ts = Suc (length rest)"
  using heap_pop_mset [of ts t rest] by (metis size_add_mset size_mset)

text \<open>The loop of \<^verbatim>\<open>get_expired_timers\<close>: pop until the heap is empty.\<close>

function expire_loop ::
  "i64 \<Rightarrow> u64 list \<Rightarrow> timer_entry list \<Rightarrow> timer_entry list \<Rightarrow> timer_entry list
     \<Rightarrow> timer_entry list \<times> timer_entry list" where
  "expire_loop now cancelled heap new_heap expired =
     (case heap_pop heap of
        None \<Rightarrow> (expired, new_heap)
      | Some (t, rest) \<Rightarrow>
          if tm_id t \<in> set cancelled then expire_loop now cancelled rest new_heap expired
          else if tm_active t \<and> tm_timeout_timestamp t \<le>s now then
            expire_loop now cancelled rest new_heap (expired @ [t\<lparr>tm_active := False\<rparr>])
          else if tm_active t then expire_loop now cancelled rest (heap_push t new_heap) expired
          else expire_loop now cancelled rest new_heap expired)"
  by pat_completeness auto

termination
  by (relation "measure (\<lambda>(now, cancelled, heap, new_heap, expired). length heap)")
    (auto dest: heap_pop_length)

definition get_expired_timers :: "i64 \<Rightarrow> timer_manager \<Rightarrow> timer_entry list \<times> timer_manager" where
  "get_expired_timers now m =
     (let (expired, new_heap) = expire_loop now (mg_cancelled m) (mg_timers m) [] []
      in (expired, m\<lparr>mg_timers := new_heap, mg_cancelled := []\<rparr>))"

definition has_pending_timers :: "timer_manager \<Rightarrow> bool" where
  "has_pending_timers m \<longleftrightarrow> mg_timers m \<noteq> []"

definition active_timer_count :: "timer_manager \<Rightarrow> nat" where
  "active_timer_count m = length (mg_timers m)"

definition next_expiration :: "timer_manager \<Rightarrow> i64 option" where
  "next_expiration m = map_option (\<lambda>(t, _). tm_timeout_timestamp t) (heap_pop (mg_timers m))"

definition purge_cancelled :: "timer_manager \<Rightarrow> timer_manager" where
  "purge_cancelled m = m\<lparr>mg_cancelled := []\<rparr>"

definition set_wakeup_fd :: "u32 \<Rightarrow> timer_manager \<Rightarrow> timer_manager" where
  "set_wakeup_fd fd m = m\<lparr>mg_wakeup_fd := Some fd\<rparr>"

definition increment_pending :: "timer_manager \<Rightarrow> timer_manager" where
  "increment_pending m = m\<lparr>mg_pending_count := mg_pending_count m + 1\<rparr>"

definition decrement_pending :: "timer_manager \<Rightarrow> timer_manager" where
  "decrement_pending m =
     (if mg_pending_count m > 0 then m\<lparr>mg_pending_count := mg_pending_count m - 1\<rparr> else m)"

definition is_timer_active :: "u64 \<Rightarrow> timer_manager \<Rightarrow> bool" where
  "is_timer_active i m = (if i \<in> set (mg_cancelled m) then False else in_heap i m)"

definition bif_start_timer ::
  "i64 \<Rightarrow> i64 \<Rightarrow> pid \<Rightarrow> beam_term \<Rightarrow> timer_manager \<Rightarrow> u64 option \<times> timer_manager" where
  "bif_start_timer now timeout_ms target msg m = add_timer now timeout_ms target msg m"

definition bif_cancel_timer :: "u64 \<Rightarrow> timer_manager \<Rightarrow> bool \<times> timer_manager" where
  "bif_cancel_timer i m = cancel_timer i m"

definition bif_read_timer :: "u64 \<Rightarrow> timer_manager \<Rightarrow> bool" where
  "bif_read_timer i m = is_timer_active i m"

section \<open>Identifiers\<close>

definition timer_ids :: "timer_manager \<Rightarrow> u64 set" where
  "timer_ids m = tm_id ` set (mg_timers m)"

definition alloc_timer :: "i64 \<times> i64 \<times> pid \<times> beam_term \<Rightarrow> timer_manager \<Rightarrow> u64 \<times> timer_manager" where
  "alloc_timer = (\<lambda>(now, ms, p, msg) m. (the (fst (add_timer now ms p msg m)), snd (add_timer now ms p msg m)))"

interpretation timer_supply: id_supply alloc_timer mg_next_timer_id timer_ids
  by unfold_locales
    (auto simp: alloc_timer_def add_timer_def timer_ids_def heap_push_def Let_def)

section \<open>Expiry\<close>

definition due :: "i64 \<Rightarrow> u64 list \<Rightarrow> timer_entry \<Rightarrow> bool" where
  "due now cancelled t \<longleftrightarrow>
     tm_id t \<notin> set cancelled \<and> tm_active t \<and> tm_timeout_timestamp t \<le>s now"

definition kept :: "i64 \<Rightarrow> u64 list \<Rightarrow> timer_entry \<Rightarrow> bool" where
  "kept now cancelled t \<longleftrightarrow>
     tm_id t \<notin> set cancelled \<and> tm_active t \<and> \<not> tm_timeout_timestamp t \<le>s now"

definition stamp :: "timer_entry \<Rightarrow> int" where
  "stamp t = sint (tm_timeout_timestamp t)"

lemma heap_pop_min: "heap_pop ts = Some (t, rest) \<Longrightarrow> x \<in> set ts \<Longrightarrow> stamp t \<le> stamp x"
proof (induction ts arbitrary: t rest)
  case (Cons a ts)
  show ?case
  proof (cases "heap_pop ts")
    case None
    then show ?thesis using Cons.prems by (auto simp: heap_pop_None)
  next
    case (Some mr)
    then obtain m r where "heap_pop ts = Some (m, r)" by (cases mr) auto
    with Cons show ?thesis by (fastforce simp: timer_cmp_def stamp_def split: if_splits)
  qed
qed simp

declare expire_loop.simps [simp del]

abbreviation deactivated :: "timer_entry \<Rightarrow> timer_entry" where
  "deactivated t \<equiv> t\<lparr>tm_active := False\<rparr>"

lemma expire_loop_None:
  "heap_pop heap = None \<Longrightarrow> expire_loop now cancelled heap nh ex = (ex, nh)"
  by (subst expire_loop.simps) simp

lemma expire_loop_Some:
  "heap_pop heap = Some (t, rest) \<Longrightarrow>
   expire_loop now cancelled heap nh ex =
     (if due now cancelled t then expire_loop now cancelled rest nh (ex @ [deactivated t])
      else if kept now cancelled t then expire_loop now cancelled rest (nh @ [t]) ex
      else expire_loop now cancelled rest nh ex)"
  by (subst expire_loop.simps) (auto simp: due_def kept_def heap_push_def)

lemma kept_not_due: "kept now cancelled t \<Longrightarrow> \<not> due now cancelled t"
  by (simp add: kept_def due_def)

text \<open>What the loop fires, and what it keeps, in the order in which it takes them out.\<close>

lemma expire_loop_spec:
  "\<exists>fired kept_ts. expire_loop now cancelled heap nh ex = (ex @ map deactivated fired, nh @ kept_ts)
     \<and> mset fired = filter_mset (due now cancelled) (mset heap)
     \<and> mset kept_ts = filter_mset (kept now cancelled) (mset heap)
     \<and> sorted (map stamp fired)"
proof (induction "length heap" arbitrary: heap nh ex)
  case 0
  then show ?case by (simp add: expire_loop_None)
next
  case (Suc n)
  then obtain t rest where p: "heap_pop heap = Some (t, rest)"
    by (metis heap_pop_None length_0_conv nat.distinct(1) not_None_eq surj_pair)
  have m: "mset heap = add_mset t (mset rest)" by (rule heap_pop_mset [OF p])
  have min: "\<And>x. x \<in> set rest \<Longrightarrow> stamp t \<le> stamp x"
    using heap_pop_min [OF p] m by (metis insertCI set_mset_add_mset_insert set_mset_mset)
  have n: "n = length rest" using Suc.hyps(2) heap_pop_length [OF p] by simp
  let ?nh = "if due now cancelled t \<or> \<not> kept now cancelled t then nh else nh @ [t]"
  let ?ex = "if due now cancelled t then ex @ [deactivated t] else ex"
  obtain fired kept_ts where f:
    "expire_loop now cancelled rest ?nh ?ex = (?ex @ map deactivated fired, ?nh @ kept_ts)"
    "mset fired = filter_mset (due now cancelled) (mset rest)"
    "mset kept_ts = filter_mset (kept now cancelled) (mset rest)" "sorted (map stamp fired)"
    using Suc.hyps(1) [OF n, of ?nh ?ex] by blast
  have "set fired \<subseteq> set rest"
    using f(2) by (metis (no_types) mem_Collect_eq set_mset_filter set_mset_mset subsetI)
  then have srt: "sorted (map stamp (t # fired))"
    using f(4) min by auto
  show ?case
  proof (cases "due now cancelled t")
    case True
    then show ?thesis using f m srt expire_loop_Some [OF p] kept_not_due
      by (intro exI [of _ "t # fired"] exI [of _ kept_ts]) auto
  next
    case False
    then show ?thesis using f m expire_loop_Some [OF p]
      by (intro exI [of _ fired] exI [of _ "if kept now cancelled t then t # kept_ts else kept_ts"])
        auto
  qed
qed


lemma get_expired_timers_spec:
  obtains fired kept_ts where
    "get_expired_timers now m =
       (map deactivated fired, m\<lparr>mg_timers := kept_ts, mg_cancelled := []\<rparr>)"
    "mset fired = filter_mset (due now (mg_cancelled m)) (mset (mg_timers m))"
    "mset kept_ts = filter_mset (kept now (mg_cancelled m)) (mset (mg_timers m))"
    "sorted (map stamp fired)"
  using expire_loop_spec [of now "mg_cancelled m" "mg_timers m" "[]" "[]"] that
  by (auto simp: get_expired_timers_def)

section \<open>Runs of a timer manager\<close>

text \<open>The calls a client makes; a poll carries the time it reads from the clock.\<close>

datatype timer_op =
    AddTimer i64 i64 pid beam_term
  | CancelTimer u64
  | PollTimers i64
  | PurgeTimers

fun timer_step :: "timer_op \<Rightarrow> timer_manager \<Rightarrow> timer_entry list \<times> timer_manager" where
  "timer_step (AddTimer now ms p msg) m = ([], snd (bif_start_timer now ms p msg m))"
| "timer_step (CancelTimer i) m = ([], snd (bif_cancel_timer i m))"
| "timer_step (PollTimers now) m = get_expired_timers now m"
| "timer_step PurgeTimers m = ([], purge_cancelled m)"

fun timer_run :: "timer_op list \<Rightarrow> timer_manager \<Rightarrow> timer_entry list \<times> timer_manager" where
  "timer_run [] m = ([], m)"
| "timer_run (a # as) m =
     (let (fired, m') = timer_step a m; (fired', m'') = timer_run as m' in (fired @ fired', m''))"

definition adds :: "timer_op list \<Rightarrow> nat" where
  "adds as = length (filter (\<lambda>a. case a of AddTimer _ _ _ _ \<Rightarrow> True | _ \<Rightarrow> False) as)"

text \<open>Distinct identifiers below the next one, and only active entries.\<close>

definition timer_inv :: "timer_manager \<Rightarrow> bool" where
  "timer_inv m \<longleftrightarrow>
     distinct (map tm_id (mg_timers m))
     \<and> (\<forall>t\<in>set (mg_timers m). tm_id t < mg_next_timer_id m \<and> tm_active t)"

lemma timer_inv_new [simp]: "timer_inv timer_manager_new"
  by (simp add: timer_inv_def timer_manager_new_def)

lemma timer_next_new: "mg_next_timer_id timer_manager_new = 1"
  by (simp add: timer_manager_new_def)

lemma distinct_map_mset: "mset xs = mset ys \<Longrightarrow> distinct (map f xs) \<longleftrightarrow> distinct (map f ys)"
  by (metis mset_map mset_eq_imp_distinct_iff)

lemma add_timer_simps:
  "snd (add_timer now ms p msg m) =
     m\<lparr>mg_next_timer_id := mg_next_timer_id m + 1,
       mg_timers := mg_timers m @
         [\<lparr>tm_id = mg_next_timer_id m, tm_target_pid = p, tm_message = msg,
           tm_timeout_timestamp = now + ms, tm_active = True\<rparr>]\<rparr>"
  by (simp add: add_timer_def heap_push_def Let_def)

lemmas timer_ops = add_timer_simps bif_start_timer_def bif_cancel_timer_def cancel_timer_def
  purge_cancelled_def

lemma unat_next_id: "unat i + Suc n < 2 ^ 64 \<Longrightarrow> unat (i + 1 :: u64) = unat i + 1"
  by (simp add: unat_plus_if' unat_add_lem [symmetric])

lemma next_id_greater: "unat i + Suc n < 2 ^ 64 \<Longrightarrow> j < i + 1 \<longleftrightarrow> j < i \<or> j = (i :: u64)"
  by (auto simp: word_less_nat_alt unat_next_id less_Suc_eq word_unat_eq_iff)

text \<open>A poll splits the heap: fired and kept entries are disjoint parts of it.\<close>

lemma poll_split:
  assumes "get_expired_timers now m = (ex, m')" "timer_inv m"
  shows "timer_inv m'" "distinct (map tm_id ex)"
    "tm_id ` set ex \<inter> tm_id ` set (mg_timers m') = {}"
    "tm_id ` set ex \<union> tm_id ` set (mg_timers m') \<subseteq> tm_id ` set (mg_timers m)"
    "mg_next_timer_id m' = mg_next_timer_id m" "mg_cancelled m' = []"
    "set ex = deactivated ` {t \<in> set (mg_timers m). due now (mg_cancelled m) t}"
    "set (mg_timers m') = {t \<in> set (mg_timers m). kept now (mg_cancelled m) t}"
proof -
  obtain fired kept_ts where f: "ex = map deactivated fired"
    "m' = m\<lparr>mg_timers := kept_ts, mg_cancelled := []\<rparr>"
    "mset fired = filter_mset (due now (mg_cancelled m)) (mset (mg_timers m))"
    "mset kept_ts = filter_mset (kept now (mg_cancelled m)) (mset (mg_timers m))"
    by (rule get_expired_timers_spec [of now m]) (use assms in auto)
  have f': "mset fired = mset (filter (due now (mg_cancelled m)) (mg_timers m))"
    "mset kept_ts = mset (filter (kept now (mg_cancelled m)) (mg_timers m))"
    using f by simp_all
  note sets = f' [THEN mset_eq_setD]
  show s1: "set ex = deactivated ` {t \<in> set (mg_timers m). due now (mg_cancelled m) t}"
    and s2: "set (mg_timers m') = {t \<in> set (mg_timers m). kept now (mg_cancelled m) t}"
    using sets f by auto
  have inj: "inj_on tm_id (set (mg_timers m))"
    using assms(2) by (simp add: timer_inv_def distinct_map)
  show "distinct (map tm_id ex)" "timer_inv m'"
    using f f' assms(2) distinct_map_mset [OF f'(1), of tm_id] distinct_map_mset [OF f'(2), of tm_id] sets
    by (auto simp: timer_inv_def comp_def distinct_map_filter)
  show "tm_id ` set ex \<inter> tm_id ` set (mg_timers m') = {}"
    unfolding s1 s2 using inj kept_not_due by (force dest: inj_onD)
  show "tm_id ` set ex \<union> tm_id ` set (mg_timers m') \<subseteq> tm_id ` set (mg_timers m)"
    unfolding s1 s2 by force
qed (use assms in \<open>auto simp: get_expired_timers_def split: prod.splits\<close>)


lemma poll_fires_iff:
  assumes "get_expired_timers now m = (ex, m')" "timer_inv m" "t \<in> set (mg_timers m)"
  shows "deactivated t \<in> set ex \<longleftrightarrow> due now (mg_cancelled m) t"
    "tm_id t \<in> tm_id ` set ex \<longleftrightarrow> due now (mg_cancelled m) t"
proof -
  have inj: "inj_on tm_id (set (mg_timers m))"
    using assms(2) by (simp add: timer_inv_def distinct_map)
  note s = poll_split(7) [OF assms(1,2)]
  show i: "tm_id t \<in> tm_id ` set ex \<longleftrightarrow> due now (mg_cancelled m) t"
    unfolding s using assms(3) by (auto simp: image_iff dest: inj_onD [OF inj])
  show "deactivated t \<in> set ex \<longleftrightarrow> due now (mg_cancelled m) t"
  proof
    assume "deactivated t \<in> set ex"
    then have "tm_id (deactivated t) \<in> tm_id ` set ex" by (rule imageI)
    then show "due now (mg_cancelled m) t" using i by simp
  next
    assume "due now (mg_cancelled m) t"
    then show "deactivated t \<in> set ex" unfolding s using assms(3) by blast
  qed
qed

lemma adds_Cons: "adds (a # as) = adds [a] + adds as"
  by (simp add: adds_def)

lemma timer_step_inv:
  assumes "timer_step a m = (ex, m')" "timer_inv m" "unat (mg_next_timer_id m) + adds [a] < 2 ^ 64"
  shows "timer_inv m'" "unat (mg_next_timer_id m') = unat (mg_next_timer_id m) + adds [a]"
    "distinct (map tm_id ex)" "tm_id ` set ex \<inter> tm_id ` set (mg_timers m') = {}"
    "tm_id ` set ex \<subseteq> tm_id ` set (mg_timers m)"
    "\<forall>i\<in>tm_id ` set (mg_timers m'). i \<in> tm_id ` set (mg_timers m) \<or> i \<ge> mg_next_timer_id m"
proof -
  have "timer_inv m' \<and> unat (mg_next_timer_id m') = unat (mg_next_timer_id m) + adds [a] \<and>
    distinct (map tm_id ex) \<and> tm_id ` set ex \<inter> tm_id ` set (mg_timers m') = {} \<and>
    tm_id ` set ex \<subseteq> tm_id ` set (mg_timers m) \<and>
    (\<forall>i\<in>tm_id ` set (mg_timers m'). i \<in> tm_id ` set (mg_timers m) \<or> i \<ge> mg_next_timer_id m)"
  proof (cases a)
    case (AddTimer now ms p msg)
    then have b: "unat (mg_next_timer_id m) + Suc 0 < 2 ^ 64" using assms(3) by (simp add: adds_def)
    have "mg_next_timer_id m \<notin> tm_id ` set (mg_timers m)"
      using assms(2) by (auto simp: timer_inv_def)
    then show ?thesis using AddTimer assms(1,2) b
      by (auto simp: timer_ops timer_inv_def adds_def unat_next_id [OF b] next_id_greater [OF b])
  next
    case (PollTimers now)
    then have g: "get_expired_timers now m = (ex, m')" using assms(1) by simp
    show ?thesis using poll_split(1-5) [OF g assms(2)] PollTimers by (auto simp: adds_def)
  qed (use assms in \<open>auto simp: timer_ops timer_inv_def adds_def\<close>)
  then show "timer_inv m'" "unat (mg_next_timer_id m') = unat (mg_next_timer_id m) + adds [a]"
    "distinct (map tm_id ex)" "tm_id ` set ex \<inter> tm_id ` set (mg_timers m') = {}"
    "tm_id ` set ex \<subseteq> tm_id ` set (mg_timers m)"
    "\<forall>i\<in>tm_id ` set (mg_timers m'). i \<in> tm_id ` set (mg_timers m) \<or> i \<ge> mg_next_timer_id m"
    by blast+
qed

text \<open>Identifiers below the next one that have left the heap never come back.\<close>

lemma timer_run_distinct:
  assumes "timer_inv m" "unat (mg_next_timer_id m) + adds as < 2 ^ 64"
  shows "timer_inv (snd (timer_run as m)) \<and> distinct (map tm_id (fst (timer_run as m)))
    \<and> (\<forall>i\<in>tm_id ` set (fst (timer_run as m)).
          i \<in> tm_id ` set (mg_timers m) \<or> i \<ge> mg_next_timer_id m)"
  using assms
proof (induction as arbitrary: m)
  case (Cons a as)
  obtain ex m' where st: "timer_step a m = (ex, m')" by fastforce
  have b: "unat (mg_next_timer_id m) + adds [a] < 2 ^ 64"
    using Cons.prems(2) by (simp add: adds_Cons [of a as])
  note i = timer_step_inv [OF st Cons.prems(1) b]
  have "unat (mg_next_timer_id m') + adds as < 2 ^ 64"
    using i(2) Cons.prems(2) by (simp add: adds_Cons [of a as])
  note IH = Cons.IH [OF i(1) this]
  have nx: "mg_next_timer_id m \<le> mg_next_timer_id m'" using i(2) by (simp add: word_le_nat_alt)
  have lt: "\<forall>j\<in>tm_id ` set (mg_timers m). j < mg_next_timer_id m"
    using Cons.prems(1) by (auto simp: timer_inv_def)
  have disj: "tm_id ` set ex \<inter> tm_id ` set (fst (timer_run as m')) = {}"
    using IH i(4,5) lt nx by (meson disjoint_iff leD order_trans subsetD)
  have "\<forall>j\<in>tm_id ` set (fst (timer_run as m')).
      j \<in> tm_id ` set (mg_timers m) \<or> j \<ge> mg_next_timer_id m"
    using IH i(6) nx by (meson order_trans)
  then show ?case using st IH disj i(3,5) by (auto simp: split_beta)
qed simp

corollary timer_run_inv:
  "timer_inv m \<Longrightarrow> unat (mg_next_timer_id m) + adds as < 2 ^ 64 \<Longrightarrow>
   timer_inv (snd (timer_run as m))
   \<and> unat (mg_next_timer_id (snd (timer_run as m))) = unat (mg_next_timer_id m) + adds as"
proof (induction as arbitrary: m)
  case (Cons a as)
  obtain ex m' where st: "timer_step a m = (ex, m')" by fastforce
  have b: "unat (mg_next_timer_id m) + adds [a] < 2 ^ 64"
    using Cons.prems(2) by (simp add: adds_Cons [of a as])
  note i = timer_step_inv [OF st Cons.prems(1) b]
  have "unat (mg_next_timer_id m') + adds as < 2 ^ 64"
    using i(2) Cons.prems(2) by (simp add: adds_Cons [of a as])
  from Cons.IH [OF i(1) this] show ?case
    using st i(2) by (simp add: split_beta adds_Cons [of a as])
qed (simp add: adds_def)

definition cancels :: "u64 \<Rightarrow> timer_op list \<Rightarrow> bool" where
  "cancels i as \<longleftrightarrow> CancelTimer i \<in> set as"

definition poll_after :: "i64 \<Rightarrow> timer_op list \<Rightarrow> bool" where
  "poll_after w as \<longleftrightarrow> (\<exists>now. PollTimers now \<in> set as \<and> w \<le>s now)"

lemma timer_step_keeps:
  assumes "timer_step a m = (ex, m')" "timer_inv m" "t \<in> set (mg_timers m)"
    "tm_id t \<notin> set (mg_cancelled m)" "a \<noteq> CancelTimer (tm_id t)"
  shows "if poll_after (tm_timeout_timestamp t) [a] then deactivated t \<in> set ex
    else t \<in> set (mg_timers m') \<and> tm_id t \<notin> set (mg_cancelled m')"
proof (cases a)
  case (PollTimers now)
  then have g: "get_expired_timers now m = (ex, m')" using assms(1) by simp
  have "tm_active t" using assms(2,3) by (simp add: timer_inv_def)
  then show ?thesis
    using poll_fires_iff(1) [OF g assms(2,3)] poll_split(6,8) [OF g assms(2)] assms(3,4) PollTimers
    by (auto simp: poll_after_def due_def kept_def)
qed (use assms in \<open>auto simp: timer_ops poll_after_def\<close>)

lemma timer_run_fires:
  assumes "timer_inv m" "unat (mg_next_timer_id m) + adds as < 2 ^ 64"
    "t \<in> set (mg_timers m)" "tm_id t \<notin> set (mg_cancelled m)" "\<not> cancels (tm_id t) as"
  shows "(deactivated t \<in> set (fst (timer_run as m)) \<longleftrightarrow> poll_after (tm_timeout_timestamp t) as)
    \<and> (\<not> poll_after (tm_timeout_timestamp t) as \<longrightarrow> t \<in> set (mg_timers (snd (timer_run as m))))"
  using assms
proof (induction as arbitrary: m)
  case Nil
  then show ?case by (simp add: poll_after_def)
next
  case (Cons a as)
  obtain ex m' where st: "timer_step a m = (ex, m')" by fastforce
  have b: "unat (mg_next_timer_id m) + adds [a] < 2 ^ 64"
    using Cons.prems(2) by (simp add: adds_Cons [of a as])
  note i = timer_step_inv [OF st Cons.prems(1) b]
  have b': "unat (mg_next_timer_id m') + adds as < 2 ^ 64"
    using i(2) Cons.prems(2) by (simp add: adds_Cons [of a as])
  have nc: "a \<noteq> CancelTimer (tm_id t)" "\<not> cancels (tm_id t) as"
    using Cons.prems(5) by (auto simp: cancels_def)
  note k = timer_step_keeps [OF st Cons.prems(1,3,4) nc(1)]
  show ?case
  proof (cases "poll_after (tm_timeout_timestamp t) [a]")
    case True
    then show ?thesis using k st by (auto simp: poll_after_def split_beta)
  next
    case False
    with k have k': "t \<in> set (mg_timers m')" "tm_id t \<notin> set (mg_cancelled m')" by simp_all
    have "deactivated t \<notin> set ex" using i(4) k'(1) by force
    then show ?thesis
      using Cons.IH [OF i(1) b' k' nc(2)] st False by (auto simp: poll_after_def split_beta)
  qed
qed


section \<open>Properties\<close>

text \<open>C14. In every run of calls on a new manager with fewer than 2^64 - 1 timers, no timer fires
twice; and a timer that is started, and whose identifier is not cancelled before or after, fires,
with its target and message, exactly if some later poll reads a clock at or past its time-out.\<close>
theorem timers_fire_once:
  assumes "adds as + adds bs < 2 ^ 64 - 2"
    and "timer_run as timer_manager_new = (ex, m)"
    and "bif_start_timer now ms p msg m = (Some i, m')"
    and "i \<notin> set (mg_cancelled m)" "\<not> cancels i bs"
  shows
    "(distinct (map tm_id (fst (timer_run (as @ AddTimer now ms p msg # bs) timer_manager_new))))
    \<and> (\<lparr>tm_id = i, tm_target_pid = p, tm_message = msg, tm_timeout_timestamp = now + ms,
          tm_active = False\<rparr> \<in> set (fst (timer_run bs m'))
       \<longleftrightarrow> poll_after (now + ms) bs)"
proof -
  let ?c = "as @ AddTimer now ms p msg # bs"
  have n: "unat (mg_next_timer_id timer_manager_new) = 1" by (simp add: timer_manager_new_def)
  have "adds ?c = adds as + 1 + adds bs" by (simp add: adds_def)
  then have part1: "distinct (map tm_id (fst (timer_run ?c timer_manager_new)))"
    using timer_run_distinct [of timer_manager_new ?c] n assms(1) by simp
  have m: "timer_inv m" "unat (mg_next_timer_id m) = 1 + adds as"
    using timer_run_inv [of timer_manager_new as] n assms(1,2) by simp_all
  let ?t = "\<lparr>tm_id = i, tm_target_pid = p, tm_message = msg, tm_timeout_timestamp = now + ms,
    tm_active = True\<rparr>"
  have m': "m' = snd (add_timer now ms p msg m)" and i: "i = mg_next_timer_id m"
    using assms(3) by (auto simp: bif_start_timer_def add_timer_def Let_def)
  have b: "unat (mg_next_timer_id m) + adds [AddTimer now ms p msg] < 2 ^ 64"
    using m(2) assms(1) by (simp add: adds_def)
  have "timer_step (AddTimer now ms p msg) m = ([], m')" by (simp add: m' bif_start_timer_def)
  note st = timer_step_inv(1,2) [OF this m(1) b]
  have "(deactivated ?t \<in> set (fst (timer_run bs m')) \<longleftrightarrow>
      poll_after (tm_timeout_timestamp ?t) bs)"
    by (rule timer_run_fires [THEN conjunct1])
      (use st m assms i in \<open>auto simp: m' add_timer_simps adds_def\<close>)
  then have part2: "\<lparr>tm_id = i, tm_target_pid = p, tm_message = msg, tm_timeout_timestamp = now + ms,
      tm_active = False\<rparr> \<in> set (fst (timer_run bs m')) \<longleftrightarrow> poll_after (now + ms) bs"
    by simp
  show ?thesis using part1 part2 by blast
qed

theorem timers_fire_once_witness:
  "\<lparr>tm_id = 1, tm_target_pid = (pid_new 7 0 0), tm_message = Term 5,
     tm_timeout_timestamp = 150, tm_active = False\<rparr>
   \<in> set (fst (timer_run [PollTimers 120, PollTimers 150]
        (snd (bif_start_timer 100 50 (pid_new 7 0 0) (Term 5) timer_manager_new))))"
  using timers_fire_once [of "[]" "[PollTimers 120, PollTimers 150]" "[]" timer_manager_new 100 50
    "pid_new 7 0 0" "Term 5" 1 "snd (bif_start_timer 100 50 (pid_new 7 0 0) (Term 5) timer_manager_new)"]
  by (simp add: adds_def bif_start_timer_def add_timer_def timer_manager_new_def cancels_def
      poll_after_def Let_def ex_disj_distrib conj_disj_distribR word_sle_eq del: timer_run.simps(2))

text \<open>A poll answers the due timers in the order of their time-outs, keeps exactly the active
timers that are neither due nor cancelled, and forgets the cancellations.\<close>
theorem poll_in_order:
  "\<exists>fired kept_ts.
     get_expired_timers now m = (map (\<lambda>t. t\<lparr>tm_active := False\<rparr>) fired,
       m\<lparr>mg_timers := kept_ts, mg_cancelled := []\<rparr>)
     \<and> sorted (map (\<lambda>t. sint (tm_timeout_timestamp t)) fired)
     \<and> mset fired = {# t \<in># mset (mg_timers m). tm_id t \<notin> set (mg_cancelled m) \<and> tm_active t
          \<and> sint (tm_timeout_timestamp t) \<le> sint now #}
     \<and> mset kept_ts = {# t \<in># mset (mg_timers m). tm_id t \<notin> set (mg_cancelled m) \<and> tm_active t
          \<and> sint now < sint (tm_timeout_timestamp t) #}"
  by (rule get_expired_timers_spec [of now m])
    (auto simp: due_def [abs_def] kept_def [abs_def] stamp_def [abs_def] word_sle_eq not_le)

text \<open>A cancelled timer is inactive and the next poll drops it; but purging the cancellations
first makes every timer of the heap active again, and cancelling an identifier before it is handed
out makes the timer that gets it inactive, although the cancellation answered false.\<close>
theorem cancellation_is_by_list:
  assumes "cancel_timer i m = (found, m1)" "timer_inv m"
  shows "\<not> is_timer_active i m1"
    and "i \<notin> tm_id ` set (fst (get_expired_timers now m1))"
    and "i \<notin> tm_id ` set (mg_timers (snd (get_expired_timers now m1)))"
    and "found \<Longrightarrow> is_timer_active i (purge_cancelled m1)"
    and "i = mg_next_timer_id m \<Longrightarrow> \<not> found \<and> fst (add_timer now ms p msg m1) = Some i
           \<and> \<not> is_timer_active i (snd (add_timer now ms p msg m1))"
proof -
  have m1: "m1 = m\<lparr>mg_cancelled := mg_cancelled m @ [i]\<rparr>" and f: "found = in_heap i m"
    using assms(1) by (simp_all add: cancel_timer_def)
  have inv: "timer_inv m1" using assms(2) by (simp add: m1 timer_inv_def)
  obtain ex m2 where g: "get_expired_timers now m1 = (ex, m2)" by fastforce
  show "i \<notin> tm_id ` set (fst (get_expired_timers now m1))"
    "i \<notin> tm_id ` set (mg_timers (snd (get_expired_timers now m1)))"
    using poll_split(7,8) [OF g inv] g by (auto simp: m1 due_def kept_def)
  show "\<not> is_timer_active i m1" "found \<Longrightarrow> is_timer_active i (purge_cancelled m1)"
    by (auto simp: m1 f is_timer_active_def purge_cancelled_def in_heap_def)
  show "\<not> found \<and> fst (add_timer now ms p msg m1) = Some i
      \<and> \<not> is_timer_active i (snd (add_timer now ms p msg m1))"
    if "i = mg_next_timer_id m"
    using that assms(2)
    by (auto simp: f m1 in_heap_def list_ex_iff timer_inv_def add_timer_def is_timer_active_def Let_def)
qed

theorem cancellation_is_by_list_witness:
  "\<not> is_timer_active 1 (snd (add_timer 10 5 (pid_new 7 0 0) (Term 3)
      (snd (cancel_timer 1 timer_manager_new))))"
  using cancellation_is_by_list(5) [of 1 timer_manager_new "fst (cancel_timer 1 timer_manager_new)"
    "snd (cancel_timer 1 timer_manager_new)" 10 5 "pid_new 7 0 0" "Term 3"]
  by (simp add: timer_next_new)

end
