(* ===== verification/Ports.thy ===== *)
theory Ports
  imports Timers
begin

text \<open>
  Ports and the event loop (\<^verbatim>\<open>Port\<close>, \<^verbatim>\<open>PortManager\<close>, \<^verbatim>\<open>AsyncPort\<close>, \<^verbatim>\<open>AsyncPortManager\<close>,
  \<^verbatim>\<open>TimerEventLoop\<close> of \<^verbatim>\<open>crates/chimera_erlang_beam_timer/src/lib.rs\<close>).

  Both managers keep a vector of slots; no operation empties a slot, so the search for an
  empty one is modelled and never succeeds.
\<close>

section \<open>Slots\<close>

fun fill_slot :: "'a \<Rightarrow> 'a option list \<Rightarrow> 'a option list" where
  "fill_slot p [] = [Some p]"
| "fill_slot p (None # ps) = Some p # ps"
| "fill_slot p (Some q # ps) = Some q # fill_slot p ps"

definition update_slot ::
  "('a \<Rightarrow> bool) \<Rightarrow> ('a \<Rightarrow> 'a) \<Rightarrow> 'a option list \<Rightarrow> 'a option list option" where
  "update_slot P f ps = map_option (\<lambda>i. modify_slot i f ps) (slot_index P ps)"

definition find_slot :: "('a \<Rightarrow> bool) \<Rightarrow> 'a option list \<Rightarrow> 'a option" where
  "find_slot P ps = find P (slot_contents ps)"

section \<open>Plain ports\<close>

datatype port_status = PortClosed | PortOpen | PortListening | PortConnected

record port =
  po_id :: u64
  po_status :: port_status
  po_wakeup_fd :: "u32 option"

record port_manager =
  pm_ports :: "port option list"
  pm_next_port_id :: u64

definition port_manager_new :: port_manager where
  "port_manager_new = \<lparr>pm_ports = [], pm_next_port_id = 1\<rparr>"

definition open_port :: "u32 option \<Rightarrow> port_manager \<Rightarrow> u64 option \<times> port_manager" where
  "open_port fd m =
     (let i = pm_next_port_id m; p = \<lparr>po_id = i, po_status = PortOpen, po_wakeup_fd = fd\<rparr>
      in (Some i, m\<lparr>pm_next_port_id := i + 1, pm_ports := fill_slot p (pm_ports m)\<rparr>))"

definition close_port :: "u64 \<Rightarrow> port_manager \<Rightarrow> bool \<times> port_manager" where
  "close_port i m =
     (case update_slot (\<lambda>p. po_id p = i) (\<lambda>p. p\<lparr>po_status := PortClosed\<rparr>) (pm_ports m) of
        Some ps \<Rightarrow> (True, m\<lparr>pm_ports := ps\<rparr>)
      | None \<Rightarrow> (False, m))"

definition port_get_status :: "u64 \<Rightarrow> port_manager \<Rightarrow> port_status option" where
  "port_get_status i m = map_option po_status (find_slot (\<lambda>p. po_id p = i) (pm_ports m))"

definition port_set_ready :: "u64 \<Rightarrow> port_manager \<Rightarrow> bool" where
  "port_set_ready i m \<longleftrightarrow>
     find_slot (\<lambda>p. po_id p = i \<and> po_status p = PortOpen) (pm_ports m) \<noteq> None"

section \<open>Asynchronous ports\<close>

record port_flags =
  pf_exit_on_close :: bool
  pf_stream :: bool
  pf_active :: bool

definition port_flags_default :: port_flags where
  "port_flags_default = \<lparr>pf_exit_on_close = False, pf_stream = False, pf_active = False\<rparr>"

definition port_flags_stream :: port_flags where
  "port_flags_stream = \<lparr>pf_exit_on_close = True, pf_stream = True, pf_active = False\<rparr>"

definition port_flags_active :: port_flags where
  "port_flags_active = \<lparr>pf_exit_on_close = True, pf_stream = True, pf_active = True\<rparr>"

record async_port =
  ap_id :: u64
  ap_status :: port_status
  ap_wakeup_fd :: "u32 option"
  ap_message_queue :: "beam_term list"
  ap_owner_pid :: "pid option"
  ap_flags :: port_flags
  ap_accepted_connection :: "u64 option"

definition async_port_new :: "u64 \<Rightarrow> pid \<Rightarrow> u32 option \<Rightarrow> async_port" where
  "async_port_new i owner fd =
     \<lparr>ap_id = i, ap_status = PortOpen, ap_wakeup_fd = fd, ap_message_queue = [],
      ap_owner_pid = Some owner, ap_flags = port_flags_default, ap_accepted_connection = None\<rparr>"

definition ap_with_flags :: "port_flags \<Rightarrow> async_port \<Rightarrow> async_port" where
  "ap_with_flags fl p = p\<lparr>ap_flags := fl\<rparr>"

definition ap_queue_message :: "beam_term \<Rightarrow> async_port \<Rightarrow> async_port" where
  "ap_queue_message msg p = p\<lparr>ap_message_queue := ap_message_queue p @ [msg]\<rparr>"

definition ap_get_messages :: "async_port \<Rightarrow> beam_term list \<times> async_port" where
  "ap_get_messages p = (ap_message_queue p, p\<lparr>ap_message_queue := []\<rparr>)"

definition ap_has_messages :: "async_port \<Rightarrow> bool" where
  "ap_has_messages p \<longleftrightarrow> ap_message_queue p \<noteq> []"

text \<open>The data are dropped: every delivery queues the same atom.\<close>

definition ap_deliver_data :: "u8 list \<Rightarrow> async_port \<Rightarrow> async_port" where
  "ap_deliver_data data p = p\<lparr>ap_message_queue := ap_message_queue p @ [from_atom ATOM_OK]\<rparr>"

definition ap_deliver_error :: "string \<Rightarrow> async_port \<Rightarrow> async_port" where
  "ap_deliver_error err p = ap_queue_message (from_atom ATOM_ERROR) p"

definition ap_close :: "async_port \<Rightarrow> async_port" where
  "ap_close p = p\<lparr>ap_status := PortClosed\<rparr>"

definition ap_fail :: "string \<Rightarrow> async_port \<Rightarrow> async_port" where
  "ap_fail reason p = p\<lparr>ap_status := PortClosed\<rparr>"

definition ap_set_accepted_connection :: "u64 \<Rightarrow> async_port \<Rightarrow> async_port" where
  "ap_set_accepted_connection i p = p\<lparr>ap_accepted_connection := Some i\<rparr>"

record async_manager =
  am_ports :: "async_port option list"
  am_next_port_id :: u64
  am_needing_wakeup :: "u32 list"

definition async_manager_new :: async_manager where
  "async_manager_new = \<lparr>am_ports = [], am_next_port_id = 1, am_needing_wakeup = []\<rparr>"

definition open_async_port ::
  "pid \<Rightarrow> u32 option \<Rightarrow> async_manager \<Rightarrow> u64 option \<times> async_manager" where
  "open_async_port owner fd m =
     (let i = am_next_port_id m; p = async_port_new i owner fd
      in (Some i, m\<lparr>am_next_port_id := i + 1, am_ports := fill_slot p (am_ports m)\<rparr>))"

definition open_async_port_with_flags ::
  "pid \<Rightarrow> u32 option \<Rightarrow> port_flags \<Rightarrow> async_manager \<Rightarrow> u64 option \<times> async_manager" where
  "open_async_port_with_flags owner fd fl m =
     (let i = am_next_port_id m; p = (async_port_new i owner fd)\<lparr>ap_flags := fl\<rparr>
      in (Some i, m\<lparr>am_next_port_id := i + 1, am_ports := fill_slot p (am_ports m)\<rparr>))"

text \<open>The shape the four operations on one port share: change the first port found, and note its
  owner.\<close>

definition wake_owner :: "async_port \<Rightarrow> u32 list \<Rightarrow> u32 list" where
  "wake_owner p ws = (case ap_owner_pid p of Some owner \<Rightarrow> ws @ [pid_id owner] | None \<Rightarrow> ws)"

definition on_async_port ::
  "(async_port \<Rightarrow> bool) \<Rightarrow> (async_port \<Rightarrow> async_port) \<Rightarrow> async_manager \<Rightarrow> bool \<times> async_manager" where
  "on_async_port P f m =
     (case find_slot P (am_ports m) of
        None \<Rightarrow> (False, m)
      | Some p \<Rightarrow>
          (True, m\<lparr>am_ports := the (update_slot P f (am_ports m)),
                   am_needing_wakeup := wake_owner (f p) (am_needing_wakeup m)\<rparr>))"

definition close_async_port :: "u64 \<Rightarrow> async_manager \<Rightarrow> bool \<times> async_manager" where
  "close_async_port i = on_async_port (\<lambda>p. ap_id p = i) ap_close"

definition fail_async_port :: "u64 \<Rightarrow> string \<Rightarrow> async_manager \<Rightarrow> bool \<times> async_manager" where
  "fail_async_port i reason = on_async_port (\<lambda>p. ap_id p = i) (ap_fail reason)"

definition async_set_ready :: "u64 \<Rightarrow> async_manager \<Rightarrow> bool \<times> async_manager" where
  "async_set_ready i = on_async_port (\<lambda>p. ap_id p = i \<and> ap_status p = PortOpen) (\<lambda>p. p)"

definition async_deliver_data :: "u64 \<Rightarrow> u8 list \<Rightarrow> async_manager \<Rightarrow> bool \<times> async_manager" where
  "async_deliver_data i data = on_async_port (\<lambda>p. ap_id p = i) (ap_deliver_data data)"

definition async_get_status :: "u64 \<Rightarrow> async_manager \<Rightarrow> port_status option" where
  "async_get_status i m = map_option ap_status (find_slot (\<lambda>p. ap_id p = i) (am_ports m))"

definition async_get_port :: "u64 \<Rightarrow> async_manager \<Rightarrow> async_port option" where
  "async_get_port i m = find_slot (\<lambda>p. ap_id p = i) (am_ports m)"

definition take_wakeup_list :: "async_manager \<Rightarrow> u32 list \<times> async_manager" where
  "take_wakeup_list m = (am_needing_wakeup m, m\<lparr>am_needing_wakeup := []\<rparr>)"

definition has_pending_messages :: "async_manager \<Rightarrow> bool" where
  "has_pending_messages m \<longleftrightarrow> list_ex ap_has_messages (slot_contents (am_ports m))"

text \<open>The owners of the ports that are not closed or have messages, each once, in the order of
  the first such port.\<close>

fun wakeups_loop :: "async_port list \<Rightarrow> u32 list \<Rightarrow> u32 list" where
  "wakeups_loop [] ws = ws"
| "wakeups_loop (p # ps) ws =
     (if ap_has_messages p \<or> ap_status p \<noteq> PortClosed then
        (case ap_owner_pid p of
           Some owner \<Rightarrow>
             if pid_id owner \<in> set ws then wakeups_loop ps ws
             else wakeups_loop ps (ws @ [pid_id owner])
         | None \<Rightarrow> wakeups_loop ps ws)
      else wakeups_loop ps ws)"

definition get_pending_wakeups :: "async_manager \<Rightarrow> u32 list" where
  "get_pending_wakeups m = wakeups_loop (slot_contents (am_ports m)) []"

section \<open>The event loop\<close>

record timer_event =
  te_timer_id :: u64
  te_target_pid :: pid
  te_message :: beam_term
  te_fired_at :: i64

definition timer_event_from_entry :: "i64 \<Rightarrow> timer_entry \<Rightarrow> timer_event" where
  "timer_event_from_entry now e =
     \<lparr>te_timer_id = tm_id e, te_target_pid = tm_target_pid e, te_message = tm_message e,
      te_fired_at = now\<rparr>"

record event_loop =
  el_timers :: timer_manager
  el_ports :: port_manager

definition event_loop_new :: event_loop where
  "event_loop_new = \<lparr>el_timers = timer_manager_new, el_ports = port_manager_new\<rparr>"

text \<open>The clock is read again for the k-th event: \<open>clock k\<close>.\<close>

definition process_expired_timers ::
  "i64 \<Rightarrow> (nat \<Rightarrow> i64) \<Rightarrow> event_loop \<Rightarrow> timer_event list \<times> event_loop" where
  "process_expired_timers now clock l =
     (let (entries, m) = get_expired_timers now (el_timers l)
      in (map (\<lambda>(k, e). timer_event_from_entry (clock k) e) (List.enumerate 0 entries),
          l\<lparr>el_timers := m\<rparr>))"

definition should_wake :: "event_loop \<Rightarrow> bool" where
  "should_wake l \<longleftrightarrow>
     has_pending_timers (el_timers l) \<or> list_ex (\<lambda>p. p \<noteq> None) (pm_ports (el_ports l))"

definition next_wakeup_time :: "event_loop \<Rightarrow> i64 option" where
  "next_wakeup_time l = next_expiration (el_timers l)"


section \<open>Slots as a finite map\<close>

definition slot_map :: "('a \<Rightarrow> u64) \<Rightarrow> 'a option list \<Rightarrow> u64 \<rightharpoonup> 'a" where
  "slot_map key ps = map_of (map (\<lambda>p. (key p, p)) (slot_contents ps))"

definition slots_distinct :: "('a \<Rightarrow> u64) \<Rightarrow> 'a option list \<Rightarrow> bool" where
  "slots_distinct key ps \<longleftrightarrow> distinct (map key (slot_contents ps))"

lemma slot_map_simps [simp]:
  "slot_map key [] = Map.empty"
  "slot_map key (None # ps) = slot_map key ps"
  "slot_map key (Some p # ps) = (slot_map key ps)(key p \<mapsto> p)"
  by (simp_all add: slot_map_def)

lemma slots_distinct_simps [simp]:
  "slots_distinct key []"
  "slots_distinct key (None # ps) = slots_distinct key ps"
  "slots_distinct key (Some p # ps) \<longleftrightarrow> slot_map key ps (key p) = None \<and> slots_distinct key ps"
  by (auto simp: slots_distinct_def slot_map_def map_of_eq_None_iff image_image)

lemma slots_induct [case_names Nil Empty Filled]:
  assumes "P []" "\<And>ps. P ps \<Longrightarrow> P (None # ps)" "\<And>p ps. P ps \<Longrightarrow> P (Some p # ps)"
  shows "P ps"
proof (induction ps)
  case (Cons x ps)
  then show ?case using assms(2,3) by (cases x) auto
qed (rule assms(1))

lemma find_slot_simps [simp]:
  "find_slot P [] = None"
  "find_slot P (None # ps) = find_slot P ps"
  "find_slot P (Some p # ps) = (if P p then Some p else find_slot P ps)"
  by (simp_all add: find_slot_def)

lemma update_slot_simps [simp]:
  "update_slot P f [] = None"
  "update_slot P f (None # ps) = map_option ((#) None) (update_slot P f ps)"
  "update_slot P f (Some p # ps) =
     (if P p then Some (Some (f p) # ps) else map_option ((#) (Some p)) (update_slot P f ps))"
  by (auto simp: update_slot_def modify_slot_def option.map_comp comp_def intro!: map_option_cong)

lemma slot_map_key: "slot_map key ps i = Some p \<Longrightarrow> key p = i"
  by (induction ps rule: slots_induct) (auto split: if_splits)

lemma find_slot_map: "find_slot (\<lambda>p. key p = i) ps = slot_map key ps i"
  by (induction ps rule: slots_induct) auto

lemma find_slot_map_if:
  "slots_distinct key ps \<Longrightarrow>
   find_slot (\<lambda>p. key p = i \<and> Q p) ps =
     (case slot_map key ps i of Some p \<Rightarrow> if Q p then Some p else None | None \<Rightarrow> None)"
  by (induction ps rule: slots_induct) auto

lemma fill_slot_map:
  "slot_map key ps (key p) = None \<Longrightarrow> slots_distinct key ps \<Longrightarrow>
   slot_map key (fill_slot p ps) = (slot_map key ps)(key p \<mapsto> p) \<and> slots_distinct key (fill_slot p ps)"
  by (induction ps rule: slots_induct) (auto split: if_splits simp: fun_upd_twist)

lemma update_slot_map:
  assumes "\<And>p. key (f p) = key p" "slots_distinct key ps" "slot_map key ps i = Some p" "Q p"
  shows "\<exists>ps'. update_slot (\<lambda>p. key p = i \<and> Q p) f ps = Some ps'
    \<and> slot_map key ps' = (slot_map key ps)(i \<mapsto> f p) \<and> slots_distinct key ps'"
  using assms(2,3)
proof (induction ps rule: slots_induct)
  case (Filled a ps)
  show ?case
  proof (cases "key a = i")
    case True
    then show ?thesis using Filled.prems assms(1,4) by auto
  next
    case False
    then have "slots_distinct key ps" "slot_map key ps i = Some p" using Filled.prems by auto
    from Filled.IH [OF this] obtain ps' where "update_slot (\<lambda>p. key p = i \<and> Q p) f ps = Some ps'"
      "slot_map key ps' = (slot_map key ps)(i \<mapsto> f p)" "slots_distinct key ps'"
      by blast
    then show ?thesis using False Filled.prems by (auto simp: fun_upd_twist)
  qed
qed auto

lemma update_slot_map_None:
  "slot_map key ps i = None \<Longrightarrow> update_slot (\<lambda>p. key p = i \<and> Q p) f ps = None"
  by (induction ps rule: slots_induct) (auto split: if_splits)

section \<open>The managers as finite maps\<close>

definition ports_of :: "port_manager \<Rightarrow> u64 \<rightharpoonup> port" where
  "ports_of m = slot_map po_id (pm_ports m)"

definition async_ports_of :: "async_manager \<Rightarrow> u64 \<rightharpoonup> async_port" where
  "async_ports_of m = slot_map ap_id (am_ports m)"

definition port_ids :: "port_manager \<Rightarrow> u64 set" where
  "port_ids m = dom (ports_of m)"

definition async_port_ids :: "async_manager \<Rightarrow> u64 set" where
  "async_port_ids m = dom (async_ports_of m)"

lemma dom_slot_map_fill:
  "dom (slot_map key (fill_slot p ps)) = insert (key p) (dom (slot_map key ps))"
  by (induction ps rule: slots_induct) (auto simp: dom_def)

definition alloc_port :: "u32 option \<Rightarrow> port_manager \<Rightarrow> u64 \<times> port_manager" where
  "alloc_port fd m = (the (fst (open_port fd m)), snd (open_port fd m))"

definition alloc_async_port ::
  "pid \<times> u32 option \<times> port_flags \<Rightarrow> async_manager \<Rightarrow> u64 \<times> async_manager" where
  "alloc_async_port = (\<lambda>(owner, fd, fl) m.
     (the (fst (open_async_port_with_flags owner fd fl m)),
      snd (open_async_port_with_flags owner fd fl m)))"

interpretation port_supply: id_supply alloc_port pm_next_port_id port_ids
  by unfold_locales
    (simp_all add: alloc_port_def open_port_def port_ids_def ports_of_def dom_slot_map_fill Let_def)

interpretation async_port_supply: id_supply alloc_async_port am_next_port_id async_port_ids
  by unfold_locales
    (simp_all add: split_beta alloc_async_port_def open_async_port_with_flags_def async_port_ids_def
      async_ports_of_def dom_slot_map_fill async_port_new_def Let_def)

definition ports_ok :: "port_manager \<Rightarrow> bool" where
  "ports_ok m \<longleftrightarrow> slots_distinct po_id (pm_ports m) \<and> port_supply.below_next m"

definition async_ok :: "async_manager \<Rightarrow> bool" where
  "async_ok m \<longleftrightarrow> slots_distinct ap_id (am_ports m) \<and> async_port_supply.below_next m"

lemma ports_ok_new [simp]: "ports_ok port_manager_new"
  by (simp add: ports_ok_def port_manager_new_def port_supply.below_next_def port_ids_def ports_of_def)

lemma async_ok_new [simp]: "async_ok async_manager_new"
  by (simp add: async_ok_def async_manager_new_def async_port_supply.below_next_def
      async_port_ids_def async_ports_of_def)


section \<open>Operations on the maps\<close>

lemma fresh_port: "ports_ok m \<Longrightarrow> ports_of m (pm_next_port_id m) = None"
  using port_supply.alloc_fresh [of m None]
  by (auto simp: ports_ok_def port_ids_def alloc_port_def open_port_def Let_def)

lemma fresh_async_port: "async_ok m \<Longrightarrow> async_ports_of m (am_next_port_id m) = None"
  using async_port_supply.alloc_fresh [of m "(undefined, None, undefined)"]
  by (auto simp: async_ok_def async_port_ids_def alloc_async_port_def
      open_async_port_with_flags_def Let_def)

text \<open>An update at an identifier, on the map.\<close>

lemma on_async_port_map:
  assumes "async_ok m" "\<And>p. ap_id (f p) = ap_id p"
    "on_async_port (\<lambda>p. ap_id p = i \<and> Q p) f m = (b, m')"
  shows "case async_ports_of m i of
      Some p \<Rightarrow> if Q p then b \<and> async_ok m' \<and> async_ports_of m' = (async_ports_of m)(i \<mapsto> f p)
               \<and> am_needing_wakeup m' = wake_owner (f p) (am_needing_wakeup m)
               \<and> am_next_port_id m' = am_next_port_id m
             else \<not> b \<and> m' = m
    | None \<Rightarrow> \<not> b \<and> m' = m"
proof (cases "\<exists>p. async_ports_of m i = Some p \<and> Q p")
  case True
  then obtain p where p: "async_ports_of m i = Some p" "Q p" by blast
  have d: "slots_distinct ap_id (am_ports m)" using assms(1) by (simp add: async_ok_def)
  obtain ps where u: "update_slot (\<lambda>p. ap_id p = i \<and> Q p) f (am_ports m) = Some ps"
    "slot_map ap_id ps = (slot_map ap_id (am_ports m))(i \<mapsto> f p)" "slots_distinct ap_id ps"
    using update_slot_map [of ap_id f, OF assms(2) d p(1) [unfolded async_ports_of_def], of Q] p(2)
    by blast
  have m': "m' = m\<lparr>am_ports := ps, am_needing_wakeup := wake_owner (f p) (am_needing_wakeup m)\<rparr>"
    and b: b
    using assms(3) u(1) p find_slot_map_if [OF d, of i Q]
    by (auto simp: on_async_port_def async_ports_of_def)
  have "dom (async_ports_of m') = dom (async_ports_of m)"
    using p by (auto simp: m' async_ports_of_def u)
  then have "async_ok m'" using assms(1) u(3)
    by (simp add: async_ok_def async_port_supply.below_next_def async_port_ids_def) (simp add: m')
  then show ?thesis using p b u(2) by (simp add: m' async_ports_of_def)
next
  case False
  then have "find_slot (\<lambda>p. ap_id p = i \<and> Q p) (am_ports m) = None"
    using find_slot_map_if [of ap_id "am_ports m" i Q] assms(1)
    by (auto simp: async_ok_def async_ports_of_def split: option.splits)
  then show ?thesis using assms(3) False by (auto simp: on_async_port_def split: option.splits)
qed

lemma close_port_map:
  assumes "ports_ok m" "close_port i m = (b, m')"
  shows "(b \<longleftrightarrow> i \<in> dom (ports_of m)) \<and> ports_ok m' \<and>
    ports_of m' = (\<lambda>j. if j = i then map_option (\<lambda>p. p\<lparr>po_status := PortClosed\<rparr>) (ports_of m i)
                      else ports_of m j)"
proof (cases "ports_of m i")
  case None
  then have "m' = m" "\<not> b"
    using assms(2) update_slot_map_None [of po_id "pm_ports m" i "\<lambda>_. True"]
    by (auto simp: close_port_def ports_of_def)
  then show ?thesis using None assms(1) by auto
next
  case (Some p)
  have d: "slots_distinct po_id (pm_ports m)" using assms(1) by (simp add: ports_ok_def)
  obtain ps where u: "update_slot (\<lambda>p. po_id p = i) (\<lambda>p. p\<lparr>po_status := PortClosed\<rparr>) (pm_ports m) = Some ps"
    "slot_map po_id ps = (slot_map po_id (pm_ports m))(i \<mapsto> p\<lparr>po_status := PortClosed\<rparr>)"
    "slots_distinct po_id ps"
    using update_slot_map [of po_id "\<lambda>p. p\<lparr>po_status := PortClosed\<rparr>", OF _ d
      Some [unfolded ports_of_def], of "\<lambda>_. True"] by auto
  have m': "m' = m\<lparr>pm_ports := ps\<rparr>" "b" using assms(2) u(1) by (auto simp: close_port_def)
  have e: "ports_of m' = (ports_of m)(i \<mapsto> p\<lparr>po_status := PortClosed\<rparr>)"
    using u(2) by (simp add: m' ports_of_def)
  have "port_ids m' = port_ids m" using Some by (auto simp: port_ids_def e)
  then have "ports_ok m'" using assms(1) u(3)
    by (simp add: ports_ok_def port_supply.below_next_def) (simp add: m')
  then show ?thesis using e m' Some by auto
qed

lemma open_port_map:
  assumes "ports_ok m" "open_port fd m = (Some k, m')" "unat (pm_next_port_id m) + 1 < 2 ^ 64"
  shows "k \<notin> dom (ports_of m) \<and> ports_ok m' \<and>
    ports_of m' = (ports_of m)(k \<mapsto> \<lparr>po_id = k, po_status = PortOpen, po_wakeup_fd = fd\<rparr>)"
proof -
  let ?p = "\<lparr>po_id = k, po_status = PortOpen, po_wakeup_fd = fd\<rparr>"
  have k: "k = pm_next_port_id m"
    and m': "m' = m\<lparr>pm_next_port_id := k + 1, pm_ports := fill_slot ?p (pm_ports m)\<rparr>"
    using assms(2) by (auto simp: open_port_def Let_def)
  have n: "ports_of m k = None" using fresh_port [OF assms(1)] k by simp
  note f = fill_slot_map [of po_id "pm_ports m" ?p]
  have "port_supply.below_next (snd (alloc_port fd m))"
    using port_supply.alloc_below_next [OF _ assms(3), of fd] assms(1) by (simp add: ports_ok_def)
  then have "port_supply.below_next m'" using assms(2) by (simp add: alloc_port_def)
  then show ?thesis using f n assms(1) by (auto simp: ports_ok_def m' ports_of_def)
qed

lemma slot_map_filled: "slot_map key ps i = Some p \<Longrightarrow> Some p \<in> set ps"
  by (induction ps rule: slots_induct) (auto split: if_splits)

lemmas on_async_port_id = on_async_port_map [where Q = "\<lambda>_. True", simplified]

lemma wakeups_loop_spec:
  "distinct ws \<Longrightarrow> distinct (wakeups_loop ps ws) \<and>
   set (wakeups_loop ps ws) = set ws \<union>
     {pid_id owner | owner p. p \<in> set ps \<and> (ap_has_messages p \<or> ap_status p \<noteq> PortClosed)
        \<and> ap_owner_pid p = Some owner}"
  by (induction ps ws rule: wakeups_loop.induct) (auto split: option.splits)


section \<open>Properties\<close>

text \<open>C32. The port manager implements a finite map from identifiers to ports: opening adds a fresh
identifier with an open port, closing marks a known port closed and refuses others, and the status
and the readiness test read the map.  A port is never removed, so a loop that ever opened one
answers should_wake for ever.\<close>
theorem ports_refine_map:
  assumes "ports_ok m"
  shows
    "(port_get_status i m = map_option po_status (ports_of m i))
    \<and> (port_set_ready i m \<longleftrightarrow> (\<exists>p. ports_of m i = Some p \<and> po_status p = PortOpen))
    \<and> (close_port i m = (b, m')
        \<longrightarrow> ((b \<longleftrightarrow> i \<in> dom (ports_of m)) \<and> ports_ok m' \<and>
      ports_of m' = (\<lambda>j. if j = i then map_option (\<lambda>p. p\<lparr>po_status := PortClosed\<rparr>) (ports_of m i)
                        else ports_of m j)))
    \<and> ((open_port fd m = (Some k, m')) \<and> (unat (pm_next_port_id m) + 1 < 2 ^ 64)
        \<longrightarrow> (k \<notin> dom (ports_of m) \<and> ports_ok m' \<and>
      ports_of m' = (ports_of m)(k \<mapsto> \<lparr>po_id = k, po_status = PortOpen, po_wakeup_fd = fd\<rparr>)))
    \<and> (dom (ports_of m) \<noteq> {}
        \<longrightarrow> (should_wake (l\<lparr>el_ports := m\<rparr>)))"
proof -
  have d: "slots_distinct po_id (pm_ports m)" using assms by (simp add: ports_ok_def)
  have part1: "port_get_status i m = map_option po_status (ports_of m i)"
    by (simp add: port_get_status_def find_slot_map ports_of_def)
  have part2: "port_set_ready i m \<longleftrightarrow> (\<exists>p. ports_of m i = Some p \<and> po_status p = PortOpen)"
    by (auto simp: port_set_ready_def find_slot_map_if [OF d] ports_of_def split: option.splits)
  have part3: "(b \<longleftrightarrow> i \<in> dom (ports_of m)) \<and> ports_ok m' \<and>
      ports_of m' = (\<lambda>j. if j = i then map_option (\<lambda>p. p\<lparr>po_status := PortClosed\<rparr>) (ports_of m i)
                        else ports_of m j)"
    if c: "close_port i m = (b, m')"
    by (rule close_port_map [OF assms c])
  have part4: "k \<notin> dom (ports_of m) \<and> ports_ok m' \<and>
      ports_of m' = (ports_of m)(k \<mapsto> \<lparr>po_id = k, po_status = PortOpen, po_wakeup_fd = fd\<rparr>)"
    if o: "open_port fd m = (Some k, m')" "unat (pm_next_port_id m) + 1 < 2 ^ 64"
    by (rule open_port_map [OF assms o])
  have part5: "should_wake (l\<lparr>el_ports := m\<rparr>)" if "dom (ports_of m) \<noteq> {}"
  proof -
    obtain j p where "slot_map po_id (pm_ports m) j = Some p"
      using \<open>dom (ports_of m) \<noteq> {}\<close> by (auto simp: ports_of_def dom_def)
    then have "Some p \<in> set (pm_ports m)" by (rule slot_map_filled)
    then show ?thesis by (auto simp: should_wake_def list_ex_iff)
  qed
  show ?thesis using part1 part2 part3 part4 part5 by blast
qed

theorem ports_refine_map_witness:
  "port_get_status 1 (snd (open_port None port_manager_new)) = Some PortOpen"
proof -
  let ?m = "snd (open_port None port_manager_new)"
  have o: "open_port None port_manager_new = (Some 1, ?m)" "unat (pm_next_port_id port_manager_new) + 1 < 2 ^ 64"
    by (simp_all add: open_port_def port_manager_new_def Let_def)
  have m: "ports_ok ?m" "ports_of ?m
      = (ports_of port_manager_new)(1 \<mapsto> \<lparr>po_id = 1, po_status = PortOpen, po_wakeup_fd = None\<rparr>)"
    using ports_refine_map [of port_manager_new 0 False ?m None 1, OF ports_ok_new] o by blast+
  show ?thesis using ports_refine_map [OF m(1), of 1] m(2) by simp
qed

text \<open>Data delivered to an asynchronous port are lost: whatever the bytes, and whether or not the
port is closed, the port's queue gets the atom ok and its owner is noted for wake-up; only the
readiness test looks at the status, closing is final for it, and no other port changes.\<close>
theorem async_delivery:
  assumes "async_ok m" "async_ports_of m i = Some p"
  shows "async_deliver_data i data m = async_deliver_data i data' m"
    and "async_deliver_data i data m = (b, m') \<Longrightarrow> b
      \<and> async_ports_of m' = (async_ports_of m)
          (i \<mapsto> p\<lparr>ap_message_queue := ap_message_queue p @ [from_atom ATOM_OK]\<rparr>)
      \<and> am_needing_wakeup m' = wake_owner p (am_needing_wakeup m)"
    and "async_set_ready i m = (b, m') \<Longrightarrow>
      if ap_status p = PortOpen then b \<and> am_needing_wakeup m' = wake_owner p (am_needing_wakeup m)
        \<and> async_ports_of m' = async_ports_of m
      else \<not> b \<and> m' = m"
    and "close_async_port i m = (b, m') \<Longrightarrow> b
      \<and> async_ports_of m' = (async_ports_of m)(i \<mapsto> p\<lparr>ap_status := PortClosed\<rparr>)
      \<and> am_needing_wakeup m' = wake_owner p (am_needing_wakeup m)
      \<and> async_set_ready i m' = (False, m')"
proof -
  show "async_deliver_data i data m = async_deliver_data i data' m"
    by (simp add: async_deliver_data_def ap_deliver_data_def [abs_def])
  show "b \<and> async_ports_of m' = (async_ports_of m)
          (i \<mapsto> p\<lparr>ap_message_queue := ap_message_queue p @ [from_atom ATOM_OK]\<rparr>)
      \<and> am_needing_wakeup m' = wake_owner p (am_needing_wakeup m)"
    if "async_deliver_data i data m = (b, m')"
    using on_async_port_id [OF assms(1) _ that [unfolded async_deliver_data_def]] assms(2)
    by (auto simp: ap_deliver_data_def wake_owner_def)
  show "if ap_status p = PortOpen then b \<and> am_needing_wakeup m' = wake_owner p (am_needing_wakeup m)
        \<and> async_ports_of m' = async_ports_of m
      else \<not> b \<and> m' = m" if "async_set_ready i m = (b, m')"
    using on_async_port_map [OF assms(1) _ that [unfolded async_set_ready_def]] assms(2)
    by (auto split: if_splits)
  show "b \<and> async_ports_of m' = (async_ports_of m)(i \<mapsto> p\<lparr>ap_status := PortClosed\<rparr>)
      \<and> am_needing_wakeup m' = wake_owner p (am_needing_wakeup m)
      \<and> async_set_ready i m' = (False, m')" if "close_async_port i m = (b, m')"
  proof -
    have c: "b" "async_ports_of m' = (async_ports_of m)(i \<mapsto> p\<lparr>ap_status := PortClosed\<rparr>)"
      "am_needing_wakeup m' = wake_owner p (am_needing_wakeup m)" "async_ok m'"
      using on_async_port_id [OF assms(1) _ that [unfolded close_async_port_def]] assms(2)
      by (auto simp: ap_close_def wake_owner_def)
    obtain b'' m'' where r: "async_set_ready i m' = (b'', m'')" by fastforce
    then show ?thesis
      using on_async_port_map [OF c(4) _ r [unfolded async_set_ready_def]] c by auto
  qed
qed

theorem async_delivery_witness:
  "fst (async_deliver_data 1 [104, 105]
     (snd (open_async_port (pid_new 7 0 0) None async_manager_new)))"
  using async_delivery(2) [of "snd (open_async_port (pid_new 7 0 0) None async_manager_new)" 1
    "async_port_new 1 (pid_new 7 0 0) None" "[104, 105]", OF _ _ prod.collapse [symmetric]]
  by (simp add: open_async_port_def async_manager_new_def async_ok_def async_ports_of_def
      async_port_supply.below_next_def async_port_ids_def async_port_new_def Let_def split_paired_all)

end
