(* ===== verification/Dirty.thy ===== *)
theory Dirty
  imports Interfaces Ids
begin

text \<open>
  Dirty schedulers (\<^verbatim>\<open>DirtyJob\<close>, \<^verbatim>\<open>DirtyScheduler\<close>, \<^verbatim>\<open>DirtySchedulerRegistry\<close> of
  \<^verbatim>\<open>crates/chimera_erlang_beam_scheduler/src/dirty.rs\<close>).

  The work of a job is an element of a type \<open>'w\<close>; executing a job returns the work that ran.
  A channel is the queue kept by its receiving end; it is gone (None) once the receiver is
  dropped.  The worker thread of a scheduler only sleeps until it is stopped.
\<close>

section \<open>Jobs\<close>

datatype dirty_job_type = DirtyCpu | DirtyIo

datatype dirty_job_status = JobPending | JobRunning | JobCompleted | JobFailed

record 'w dirty_job =
  dj_id :: u64
  dj_job_type :: dirty_job_type
  dj_target_pid :: pid
  dj_status :: dirty_job_status
  dj_reduction_budget :: u64
  dj_created_at :: i64
  dj_started_at :: "i64 option"
  dj_completed_at :: "i64 option"
  dj_work :: "'w option"

definition dirty_job_new ::
  "i64 \<Rightarrow> u64 \<Rightarrow> dirty_job_type \<Rightarrow> pid \<Rightarrow> u64 \<Rightarrow> 'w \<Rightarrow> 'w dirty_job" where
  "dirty_job_new now i ty target budget work =
     \<lparr>dj_id = i, dj_job_type = ty, dj_target_pid = target, dj_status = JobPending,
      dj_reduction_budget = budget, dj_created_at = now, dj_started_at = None,
      dj_completed_at = None, dj_work = Some work\<rparr>"

definition job_start :: "i64 \<Rightarrow> 'w dirty_job \<Rightarrow> 'w dirty_job" where
  "job_start now j = j\<lparr>dj_status := JobRunning, dj_started_at := Some now\<rparr>"

definition job_complete :: "i64 \<Rightarrow> 'w dirty_job \<Rightarrow> 'w dirty_job" where
  "job_complete now j = j\<lparr>dj_status := JobCompleted, dj_completed_at := Some now\<rparr>"

definition job_fail :: "i64 \<Rightarrow> 'w dirty_job \<Rightarrow> 'w dirty_job" where
  "job_fail now j = j\<lparr>dj_status := JobFailed, dj_completed_at := Some now\<rparr>"

text \<open>The clock is read at the start and at the end; the work that ran is returned.\<close>

definition job_execute :: "i64 \<Rightarrow> i64 \<Rightarrow> 'w dirty_job \<Rightarrow> 'w option \<times> 'w dirty_job" where
  "job_execute t1 t2 j =
     (let j = job_start t1 j
      in case dj_work j of
           Some w \<Rightarrow> (Some w, job_complete t2 (j\<lparr>dj_work := None\<rparr>))
         | None \<Rightarrow> (None, job_fail t2 j))"

section \<open>A dirty scheduler\<close>

record dirty_stats =
  st_cpu_submitted :: u64
  st_cpu_completed :: u64
  st_cpu_failed :: u64
  st_io_submitted :: u64
  st_io_completed :: u64
  st_io_failed :: u64

definition dirty_stats_default :: dirty_stats where
  "dirty_stats_default =
     \<lparr>st_cpu_submitted = 0, st_cpu_completed = 0, st_cpu_failed = 0,
      st_io_submitted = 0, st_io_completed = 0, st_io_failed = 0\<rparr>"

record 'w dirty_scheduler =
  dsc_id :: u32
  dsc_dirty_type :: dirty_job_type
  dsc_pending_queue :: "'w dirty_job list"
  dsc_completed_queue :: "'w dirty_job list"
  dsc_stats :: dirty_stats
  dsc_job_receiver :: "'w dirty_job list option"
  dsc_thread_handle :: bool
  dsc_stop_flag :: bool

definition dirty_scheduler_new :: "u32 \<Rightarrow> dirty_job_type \<Rightarrow> 'w dirty_scheduler" where
  "dirty_scheduler_new i ty =
     \<lparr>dsc_id = i, dsc_dirty_type = ty, dsc_pending_queue = [], dsc_completed_queue = [],
      dsc_stats = dirty_stats_default, dsc_job_receiver = None, dsc_thread_handle = False,
      dsc_stop_flag = False\<rparr>"

definition submit_job :: "'w dirty_job \<Rightarrow> 'w dirty_scheduler \<Rightarrow> 'w dirty_scheduler" where
  "submit_job j s =
     s\<lparr>dsc_stats :=
         (case dj_job_type j of
            DirtyCpu \<Rightarrow> dsc_stats s\<lparr>st_cpu_submitted := st_cpu_submitted (dsc_stats s) + 1\<rparr>
          | DirtyIo \<Rightarrow> dsc_stats s\<lparr>st_io_submitted := st_io_submitted (dsc_stats s) + 1\<rparr>),
       dsc_pending_queue := dsc_pending_queue s @ [j]\<rparr>"

definition job_finished :: "'w dirty_job \<Rightarrow> bool" where
  "job_finished j \<longleftrightarrow> dj_status j = JobCompleted \<or> dj_status j = JobFailed"

definition count_finished :: "'w dirty_job \<Rightarrow> dirty_stats \<Rightarrow> dirty_stats" where
  "count_finished j st =
     (if dj_status j = JobCompleted then
        (case dj_job_type j of
           DirtyCpu \<Rightarrow> st\<lparr>st_cpu_completed := st_cpu_completed st + 1\<rparr>
         | DirtyIo \<Rightarrow> st\<lparr>st_io_completed := st_io_completed st + 1\<rparr>)
      else
        (case dj_job_type j of
           DirtyCpu \<Rightarrow> st\<lparr>st_cpu_failed := st_cpu_failed st + 1\<rparr>
         | DirtyIo \<Rightarrow> st\<lparr>st_io_failed := st_io_failed st + 1\<rparr>))"

text \<open>The closure of \<^verbatim>\<open>retain\<close>: what stays, and what moves to the completed queue.\<close>

fun retain_loop ::
  "'w dirty_job list \<Rightarrow> 'w dirty_job list \<Rightarrow> 'w dirty_job list \<Rightarrow> dirty_stats
     \<Rightarrow> 'w dirty_job list \<times> 'w dirty_job list \<times> dirty_stats" where
  "retain_loop [] kept completed st = (kept, completed, st)"
| "retain_loop (j # js) kept completed st =
     (if job_finished j then
        retain_loop js kept (completed @ [j\<lparr>dj_work := None\<rparr>]) (count_finished j st)
      else retain_loop js (kept @ [j]) completed st)"

definition refill_completed :: "'w dirty_scheduler \<Rightarrow> 'w dirty_scheduler" where
  "refill_completed s =
     (if dsc_completed_queue s = [] then
        (let (kept, completed, st) = retain_loop (dsc_pending_queue s) [] [] (dsc_stats s)
         in s\<lparr>dsc_pending_queue := kept, dsc_completed_queue := completed, dsc_stats := st\<rparr>)
      else s)"

definition poll_completed :: "'w dirty_scheduler \<Rightarrow> 'w dirty_job option \<times> 'w dirty_scheduler" where
  "poll_completed s =
     (let s = refill_completed s
      in if dsc_completed_queue s = [] then (None, s)
         else (Some (last (dsc_completed_queue s)),
               s\<lparr>dsc_completed_queue := butlast (dsc_completed_queue s)\<rparr>))"

definition dirty_pending_count :: "'w dirty_scheduler \<Rightarrow> nat" where
  "dirty_pending_count s = length (dsc_pending_queue s)"

text \<open>\<open>spawned\<close> says whether the operating system started the thread.\<close>

definition spawn_thread ::
  "bool \<Rightarrow> 'w dirty_job list \<Rightarrow> 'w dirty_scheduler \<Rightarrow> 'w dirty_scheduler" where
  "spawn_thread spawned receiver s =
     (if dsc_thread_handle s then s
      else s\<lparr>dsc_thread_handle := spawned, dsc_job_receiver := Some receiver\<rparr>)"

definition dirty_stop :: "'w dirty_scheduler \<Rightarrow> 'w dirty_scheduler" where
  "dirty_stop s = s\<lparr>dsc_stop_flag := True, dsc_thread_handle := False, dsc_job_receiver := None\<rparr>"

definition dirty_is_running :: "'w dirty_scheduler \<Rightarrow> bool" where
  "dirty_is_running s \<longleftrightarrow> dsc_thread_handle s \<and> \<not> dsc_stop_flag s"

section \<open>The registry\<close>

text \<open>A sender is the index of the scheduler that holds the receiving end.\<close>

record 'w dirty_registry =
  dr_cpu_schedulers :: "'w dirty_scheduler list"
  dr_io_schedulers :: "'w dirty_scheduler list"
  dr_cpu_senders :: "nat list"
  dr_io_senders :: "nat list"

definition started_scheduler :: "dirty_job_type \<Rightarrow> bool \<Rightarrow> nat \<Rightarrow> 'w dirty_scheduler" where
  "started_scheduler ty spawned i = spawn_thread spawned [] (dirty_scheduler_new (of_nat i) ty)"

definition dirty_registry_new ::
  "(nat \<Rightarrow> bool) \<Rightarrow> (nat \<Rightarrow> bool) \<Rightarrow> u32 \<Rightarrow> u32 \<Rightarrow> 'w dirty_registry" where
  "dirty_registry_new cpu_spawned io_spawned num_cpu num_io =
     \<lparr>dr_cpu_schedulers = map (\<lambda>i. started_scheduler DirtyCpu (cpu_spawned i) i) [0..<unat num_cpu],
      dr_io_schedulers = map (\<lambda>i. started_scheduler DirtyIo (io_spawned i) i) [0..<unat num_io],
      dr_cpu_senders = [0..<unat num_cpu],
      dr_io_senders = [0..<unat num_io]\<rparr>"

text \<open>Sending to a channel whose receiver is gone fails, and the job is dropped.\<close>

definition send_job ::
  "'w dirty_job \<Rightarrow> nat list \<Rightarrow> 'w dirty_scheduler list \<Rightarrow> 'w dirty_scheduler list" where
  "send_job j senders ss =
     (case senders of
        [] \<Rightarrow> ss
      | k # _ \<Rightarrow>
          ss[k := (ss ! k)\<lparr>dsc_job_receiver := map_option (\<lambda>q. q @ [j]) (dsc_job_receiver (ss ! k))\<rparr>])"

definition submit_dirty_cpu_job ::
  "i64 \<Rightarrow> 'w \<Rightarrow> pid \<Rightarrow> u64 \<Rightarrow> u64 \<times> 'w dirty_registry \<Rightarrow> u64 \<times> u64 \<times> 'w dirty_registry" where
  "submit_dirty_cpu_job now work target budget = (\<lambda>(counter, r).
     (counter, counter + 1,
      r\<lparr>dr_cpu_schedulers :=
          send_job (dirty_job_new now counter DirtyCpu target budget work)
            (dr_cpu_senders r) (dr_cpu_schedulers r)\<rparr>))"

definition submit_dirty_io_job ::
  "i64 \<Rightarrow> 'w \<Rightarrow> pid \<Rightarrow> u64 \<Rightarrow> u64 \<times> 'w dirty_registry \<Rightarrow> u64 \<times> u64 \<times> 'w dirty_registry" where
  "submit_dirty_io_job now work target budget = (\<lambda>(counter, r).
     (counter, counter + 1,
      r\<lparr>dr_io_schedulers :=
          send_job (dirty_job_new now counter DirtyIo target budget work)
            (dr_io_senders r) (dr_io_schedulers r)\<rparr>))"

text \<open>\<^verbatim>\<open>while let Some(job) = sched.poll_completed()\<close>: every round takes out one job that was
  completed or finished.\<close>

definition drain_measure :: "'w dirty_scheduler \<Rightarrow> nat" where
  "drain_measure s =
     length (dsc_completed_queue s) + length (filter job_finished (dsc_pending_queue s))"

lemma retain_loop_spec:
  "retain_loop js kept completed st =
     (kept @ filter (\<lambda>j. \<not> job_finished j) js,
      completed @ map (\<lambda>j. j\<lparr>dj_work := None\<rparr>) (filter job_finished js),
      fold count_finished (filter job_finished js) st)"
  by (induction js kept completed st rule: retain_loop.induct) auto

lemma filter_unfinished: "filter job_finished (filter (\<lambda>j. \<not> job_finished j) js) = []"
  by (simp add: filter_empty_conv)

lemma poll_completed_measure:
  "poll_completed s = (Some j, s') \<Longrightarrow> drain_measure s' < drain_measure s"
  by (auto simp: poll_completed_def refill_completed_def retain_loop_spec drain_measure_def
      filter_unfinished Let_def split: if_splits)

function drain :: "'w dirty_scheduler \<Rightarrow> 'w dirty_job list \<Rightarrow> 'w dirty_job list \<times> 'w dirty_scheduler" where
  "drain s completed =
     (case poll_completed s of
        (Some j, s') \<Rightarrow> drain s' (completed @ [j])
      | (None, s') \<Rightarrow> (completed, s'))"
  by pat_completeness auto

termination
  by (relation "measure (\<lambda>(s, _). drain_measure s)")
    (auto dest: poll_completed_measure [OF sym])

declare drain.simps [simp del]

fun drain_all ::
  "'w dirty_scheduler list \<Rightarrow> 'w dirty_job list \<Rightarrow> 'w dirty_job list \<times> 'w dirty_scheduler list" where
  "drain_all [] completed = (completed, [])"
| "drain_all (s # ss) completed =
     (let (completed, s') = drain s completed; (completed, ss') = drain_all ss completed
      in (completed, s' # ss'))"

definition poll_completed_jobs :: "'w dirty_registry \<Rightarrow> 'w dirty_job list \<times> 'w dirty_registry" where
  "poll_completed_jobs r =
     (let (completed, cs) = drain_all (dr_cpu_schedulers r) [];
          (completed, ios) = drain_all (dr_io_schedulers r) completed
      in (completed, r\<lparr>dr_cpu_schedulers := cs, dr_io_schedulers := ios\<rparr>))"

definition dirty_shutdown :: "'w dirty_registry \<Rightarrow> 'w dirty_registry" where
  "dirty_shutdown r =
     r\<lparr>dr_cpu_schedulers := map dirty_stop (dr_cpu_schedulers r),
       dr_io_schedulers := map dirty_stop (dr_io_schedulers r)\<rparr>"

definition get_cpu :: "u32 \<Rightarrow> 'w dirty_registry \<Rightarrow> 'w dirty_scheduler option" where
  "get_cpu i r =
     (if unat i < length (dr_cpu_schedulers r) then Some (dr_cpu_schedulers r ! unat i) else None)"

definition get_io :: "u32 \<Rightarrow> 'w dirty_registry \<Rightarrow> 'w dirty_scheduler option" where
  "get_io i r =
     (if unat i < length (dr_io_schedulers r) then Some (dr_io_schedulers r ! unat i) else None)"

section \<open>Draining\<close>

lemma poll_completed_cases:
  "poll_completed s =
     (if dsc_completed_queue (refill_completed s) = [] then (None, refill_completed s)
      else (Some (last (dsc_completed_queue (refill_completed s))),
            (refill_completed s)
              \<lparr>dsc_completed_queue := butlast (dsc_completed_queue (refill_completed s))\<rparr>))"
  by (simp add: poll_completed_def Let_def)

text \<open>What a scheduler looks like when everything that was finished has been taken out.\<close>

definition drained :: "'w dirty_scheduler \<Rightarrow> 'w dirty_scheduler" where
  "drained s =
     s\<lparr>dsc_pending_queue := filter (\<lambda>j. \<not> job_finished j) (dsc_pending_queue s),
       dsc_completed_queue := [],
       dsc_stats := fold count_finished (filter job_finished (dsc_pending_queue s)) (dsc_stats s)\<rparr>"

lemma refill_completed_simps:
  "dsc_completed_queue s = [] \<Longrightarrow>
   refill_completed s =
     (drained s)\<lparr>dsc_completed_queue :=
        map (\<lambda>j. j\<lparr>dj_work := None\<rparr>) (filter job_finished (dsc_pending_queue s))\<rparr>"
  "dsc_completed_queue s \<noteq> [] \<Longrightarrow> refill_completed s = s"
  by (simp_all add: refill_completed_def retain_loop_spec drained_def)

lemma drain_spec:
  "drain s acc =
     (acc @ rev (dsc_completed_queue s)
        @ rev (map (\<lambda>j. j\<lparr>dj_work := None\<rparr>) (filter job_finished (dsc_pending_queue s))),
      drained s)"
proof (induction "drain_measure s" arbitrary: s acc rule: less_induct)
  case less
  let ?r = "refill_completed s"
  have same: "drained ?r = drained s"
    "rev (dsc_completed_queue ?r) @ rev (map (\<lambda>j. j\<lparr>dj_work := None\<rparr>) (filter job_finished (dsc_pending_queue ?r)))
     = rev (dsc_completed_queue s) @ rev (map (\<lambda>j. j\<lparr>dj_work := None\<rparr>) (filter job_finished (dsc_pending_queue s)))"
    by (cases "dsc_completed_queue s = []";
        simp add: refill_completed_simps; simp add: drained_def filter_unfinished)+
  show ?case
  proof (cases "dsc_completed_queue ?r = []")
    case True
    then have "dsc_completed_queue s = []" "filter job_finished (dsc_pending_queue s) = []"
      by (cases "dsc_completed_queue s = []"; simp add: refill_completed_simps)+
    then show ?thesis using True
      by (subst drain.simps) (simp add: poll_completed_cases refill_completed_simps drained_def)
  next
    case False
    define s' where "s' = ?r\<lparr>dsc_completed_queue := butlast (dsc_completed_queue ?r)\<rparr>"
    have p: "poll_completed s = (Some (last (dsc_completed_queue ?r)), s')"
      using False by (simp add: poll_completed_cases s'_def)
    have c: "dsc_completed_queue ?r = dsc_completed_queue s' @ [last (dsc_completed_queue ?r)]"
      using False by (simp add: s'_def)
    have "drained s' = drained ?r" "dsc_pending_queue s' = dsc_pending_queue ?r"
      by (simp_all add: s'_def drained_def)
    then show ?thesis
      using less [OF poll_completed_measure [OF p]] p same arg_cong [OF c, of rev]
      by (subst drain.simps) simp
  qed
qed


section \<open>Runs of the registry\<close>

datatype 'w dirty_op =
    SubmitCpu i64 'w pid u64
  | SubmitIo i64 'w pid u64
  | PollJobs
  | ShutdownDirty

text \<open>A step answers the identifier handed out, if any, and the jobs reported as completed.\<close>

fun dirty_step ::
  "'w dirty_op \<Rightarrow> u64 \<times> 'w dirty_registry \<Rightarrow> u64 list \<times> 'w dirty_job list \<times> u64 \<times> 'w dirty_registry" where
  "dirty_step (SubmitCpu now w p b) st = (let (i, st') = submit_dirty_cpu_job now w p b st in ([i], [], st'))"
| "dirty_step (SubmitIo now w p b) st = (let (i, st') = submit_dirty_io_job now w p b st in ([i], [], st'))"
| "dirty_step PollJobs (n, r) = (let (js, r') = poll_completed_jobs r in ([], js, n, r'))"
| "dirty_step ShutdownDirty (n, r) = ([], [], n, dirty_shutdown r)"

fun dirty_run ::
  "'w dirty_op list \<Rightarrow> u64 \<times> 'w dirty_registry \<Rightarrow> u64 list \<times> 'w dirty_job list \<times> u64 \<times> 'w dirty_registry" where
  "dirty_run [] st = ([], [], st)"
| "dirty_run (a # as) st =
     (let (ids, js, st') = dirty_step a st; (ids', js', st'') = dirty_run as st'
      in (ids @ ids', js @ js', st''))"

text \<open>No scheduler holds a job in its queues.\<close>

definition idle_scheduler :: "'w dirty_scheduler \<Rightarrow> bool" where
  "idle_scheduler s \<longleftrightarrow> dsc_pending_queue s = [] \<and> dsc_completed_queue s = []"

definition idle_registry :: "'w dirty_registry \<Rightarrow> bool" where
  "idle_registry r \<longleftrightarrow>
     list_all idle_scheduler (dr_cpu_schedulers r) \<and> list_all idle_scheduler (dr_io_schedulers r)"

lemma idle_registry_new: "idle_registry (dirty_registry_new f g n k)"
  by (auto simp: idle_registry_def dirty_registry_new_def list_all_iff idle_scheduler_def
      started_scheduler_def spawn_thread_def dirty_scheduler_new_def)

lemma drain_idle: "idle_scheduler s \<Longrightarrow> drain s acc = (acc, s)"
  by (simp add: drain_spec idle_scheduler_def drained_def)

lemma drain_all_idle: "list_all idle_scheduler ss \<Longrightarrow> drain_all ss acc = (acc, ss)"
  by (induction ss arbitrary: acc) (auto simp: drain_idle)

lemma send_job_idle: "list_all idle_scheduler ss \<Longrightarrow> list_all idle_scheduler (send_job j ks ss)"
  by (cases ks; cases "hd ks < length ss")
    (auto simp: send_job_def list_all_length nth_list_update idle_scheduler_def)

lemma stop_idle: "list_all idle_scheduler ss \<Longrightarrow> list_all idle_scheduler (map dirty_stop ss)"
  by (auto simp: list_all_iff dirty_stop_def idle_scheduler_def)

lemma dirty_step_idle:
  assumes "idle_registry r" "dirty_step a (n, r) = (ids, js, n', r')"
  shows "idle_registry r' \<and> js = [] \<and> (ids = [] \<and> n' = n \<or> ids = [n] \<and> n' = n + 1)"
  using assms
  by (cases a)
    (auto simp: submit_dirty_cpu_job_def submit_dirty_io_job_def idle_registry_def send_job_idle
      poll_completed_jobs_def drain_all_idle dirty_shutdown_def stop_idle)

lemma dirty_run_idle:
  "idle_registry r \<Longrightarrow> unat n + length as < 2 ^ 64 \<Longrightarrow> dirty_run as (n, r) = (ids, js, n', r') \<Longrightarrow>
   js = [] \<and> distinct ids \<and> (\<forall>i\<in>set ids. n \<le> i) \<and> idle_registry r'"
proof (induction as arbitrary: n r ids js)
  case (Cons a as)
  obtain ids1 js1 n1 r1 where st: "dirty_step a (n, r) = (ids1, js1, n1, r1)" by (metis prod_cases4)
  obtain ids2 js2 st2 where rn: "dirty_run as (n1, r1) = (ids2, js2, st2)" by (metis prod_cases3)
  have e: "ids = ids1 @ ids2" "js = js1 @ js2" "st2 = (n', r')"
    using Cons.prems(3) st rn by auto
  note s = dirty_step_idle [OF Cons.prems(1) st]
  have n: "unat (n + 1) = unat n + 1"
    using Cons.prems(2) by (simp add: unat_plus_if')
  have b: "unat n1 + length as < 2 ^ 64" using s Cons.prems(2) n by auto
  note IH = Cons.IH [OF _ b, of r1 ids2 js2] 
  have "js2 = [] \<and> distinct ids2 \<and> (\<forall>i\<in>set ids2. n1 \<le> i) \<and> idle_registry r'"
    using IH s rn e(3) by blast
  moreover have "n \<le> n1" "ids1 = [n] \<Longrightarrow> n < n1"
    using s n by (auto simp: word_le_nat_alt word_less_nat_alt)
  ultimately show ?case using s e by fastforce
qed auto

section \<open>Properties\<close>

text \<open>Draining a dirty scheduler answers each finished job exactly once, the completed queue and
then the finished jobs of the pending queue, each newest first and without its work; it keeps the
unfinished ones in order and counts each moved job under its type and outcome.\<close>
theorem drain_answers_finished:
  "drain s [] =
     (rev (dsc_completed_queue s)
        @ rev (map (\<lambda>j. j\<lparr>dj_work := None\<rparr>) (filter job_finished (dsc_pending_queue s))),
      s\<lparr>dsc_pending_queue := filter (\<lambda>j. \<not> job_finished j) (dsc_pending_queue s),
        dsc_completed_queue := [],
        dsc_stats := fold count_finished (filter job_finished (dsc_pending_queue s)) (dsc_stats s)\<rparr>)"
  by (simp add: drain_spec drained_def)

text \<open>Jobs submitted through the registry never complete: in every run of submissions, polls and
shutdowns the identifiers are distinct, but no poll ever reports a job, since the submissions go to
a channel that nothing reads.\<close>
theorem registry_jobs_never_complete:
  assumes "length as < 2 ^ 64 - 1"
    and "dirty_run as (1, dirty_registry_new cpu_spawned io_spawned n k) = (ids, js, n', r')"
  shows "distinct ids \<and> js = [] \<and> poll_completed_jobs r' = ([], r')"
proof -
  note r = dirty_run_idle [OF idle_registry_new _ assms(2)]
  have ids: "distinct ids" "js = []" using r assms(1) by auto
  have "idle_registry r'" using r assms(1) by auto
  then have "poll_completed_jobs r' = ([], r')"
    by (simp add: poll_completed_jobs_def idle_registry_def drain_all_idle)
  with ids show ?thesis by blast
qed

theorem registry_jobs_never_complete_witness:
  "fst (snd (dirty_run [SubmitCpu 0 (7 :: nat) (pid_new 1 0 0) 10, PollJobs]
     (1, dirty_registry_new (\<lambda>_. True) (\<lambda>_. True) 1 1))) = []"
proof -
  let ?as = "[SubmitCpu 0 (7 :: nat) (pid_new 1 0 0) 10, PollJobs]"
  obtain ids js n r where d:
    "dirty_run ?as (1, dirty_registry_new (\<lambda>_. True) (\<lambda>_. True) 1 1) = (ids, js, n, r)"
    by (metis prod_cases4)
  then show ?thesis using registry_jobs_never_complete [OF _ d] by simp
qed

end
