(* ===== verification/Gc.thy ===== *)
theory Gc
  imports Heap
begin

text \<open>
  The copying collector (\<^verbatim>\<open>crates/chimera_erlang_beam_heap/src/gc.rs\<close> and the callers of
  \<^verbatim>\<open>trace_gc\<close> in \<^verbatim>\<open>heap/src/lib.rs\<close>), built without the feature \<^verbatim>\<open>zig-kernels\<close>, which is
  off by default (theory Gc_Kernel has it).

  The collector copies the objects the roots point to, then scans the copied words one by
  one, headers included, and copies what any of them seems to point to.  Under the
  hypothesis that no header or raw word looks like a pointer into the heap this is a copy
  of exactly the reachable objects; the hypothesis fails for the headers the heap itself
  writes.
\<close>

section \<open>Forwarding tables and mark bits\<close>

datatype forward_table = ForwardTable (forwards: "nat list")

definition forward_new :: "nat \<Rightarrow> forward_table" where
  "forward_new sz = ForwardTable (replicate sz 0)"

definition resize_list :: "nat \<Rightarrow> 'a \<Rightarrow> 'a list \<Rightarrow> 'a list" where
  "resize_list n d xs = take n xs @ replicate (n - length xs) d"

definition forward_resize :: "nat \<Rightarrow> forward_table \<Rightarrow> forward_table" where
  "forward_resize sz t = ForwardTable (resize_list sz 0 (forwards t))"

definition forward_get :: "nat \<Rightarrow> forward_table \<Rightarrow> nat option" where
  "forward_get i t =
     (let fwd = if i < length (forwards t) then forwards t ! i else 0
      in if fwd = 0 then None else Some fwd)"

definition forward_set :: "nat \<Rightarrow> nat \<Rightarrow> forward_table \<Rightarrow> forward_table" where
  "forward_set i new_idx t =
     (if i < length (forwards t) then ForwardTable ((forwards t)[i := new_idx]) else t)"

definition is_forwarded :: "nat \<Rightarrow> forward_table \<Rightarrow> bool" where
  "is_forwarded i t \<longleftrightarrow> forward_get i t \<noteq> None"

definition forward_clear :: "forward_table \<Rightarrow> forward_table" where
  "forward_clear t = ForwardTable (map (\<lambda>_. 0) (forwards t))"

datatype mark_bits = MarkBits (marks: "bool list")

definition marks_new :: "nat \<Rightarrow> mark_bits" where
  "marks_new sz = MarkBits (replicate sz False)"

definition marks_resize :: "nat \<Rightarrow> mark_bits \<Rightarrow> mark_bits" where
  "marks_resize sz m = MarkBits (resize_list sz False (marks m))"

definition mark_get :: "nat \<Rightarrow> mark_bits \<Rightarrow> bool" where
  "mark_get i m = (if i < length (marks m) then marks m ! i else False)"

definition mark_set :: "nat \<Rightarrow> bool \<Rightarrow> mark_bits \<Rightarrow> mark_bits" where
  "mark_set i v m = (if i < length (marks m) then MarkBits ((marks m)[i := v]) else m)"

definition marks_clear :: "mark_bits \<Rightarrow> mark_bits" where
  "marks_clear m = MarkBits (map (\<lambda>_. False) (marks m))"

definition marks_len :: "mark_bits \<Rightarrow> nat" where
  "marks_len m = length (marks m)"

section \<open>Pointers\<close>

definition is_heap_pointer :: "beam_term \<Rightarrow> bool" where
  "is_heap_pointer t \<longleftrightarrow> \<not> (tag t = TagSmallInteger \<or> tag t = TagAtom)"

definition term_to_heap_addr :: "beam_term \<Rightarrow> nat option" where
  "term_to_heap_addr t =
     (case tag t of
        TagCons \<Rightarrow> Some (unat (to_cons t))
      | TagTuple \<Rightarrow> Some (unat (to_tuple t))
      | TagFloat \<Rightarrow> Some (unat (to_float t))
      | TagBinary \<Rightarrow> Some (unat (to_binary t))
      | TagMap \<Rightarrow> Some (unat (to_map t))
      | TagFun \<Rightarrow> Some (unat (to_fun t))
      | _ \<Rightarrow> None)"

definition update_term_addr :: "beam_term \<Rightarrow> nat option \<Rightarrow> beam_term" where
  "update_term_addr t new_addr =
     (case new_addr of
        None \<Rightarrow> t
      | Some addr \<Rightarrow>
          (case tag t of
             TagCons \<Rightarrow> from_cons (of_nat addr)
           | TagTuple \<Rightarrow> from_tuple (of_nat addr)
           | TagFloat \<Rightarrow> from_float_ptr (of_nat addr)
           | TagBinary \<Rightarrow> from_binary_ptr (of_nat addr)
           | TagMap \<Rightarrow> from_map (of_nat addr)
           | TagFun \<Rightarrow> from_fun_ptr (of_nat addr)
           | _ \<Rightarrow> t))"

section \<open>The collection\<close>

text \<open>The variables of \<^verbatim>\<open>trace_gc\<close>: the target space, its fill level and the forwarding
  addresses.\<close>

record gc_state =
  gs_to :: "u64 list"
  gs_hp :: nat
  gs_forward :: "nat option list"

definition copy_word :: "u64 list \<Rightarrow> nat \<Rightarrow> gc_state \<Rightarrow> gc_state" where
  "copy_word from k s =
     (if k < length from \<and> gs_hp s < length (gs_to s)
      then s\<lparr>gs_to := (gs_to s)[gs_hp s := from ! k], gs_hp := gs_hp s + 1\<rparr> else s)"

definition copy_object :: "nat \<Rightarrow> u64 list \<Rightarrow> gc_state \<Rightarrow> nat \<times> gc_state" where
  "copy_object addr from s =
     (if length from \<le> addr then (0, s)
      else
        (let sz = unat (extract_size (from ! addr))
         in if sz = 0 \<or> length from < addr + sz then (0, s)
            else (gs_hp s, fold (\<lambda>i. copy_word from (addr + i)) [0..<sz] s)))"

text \<open>What both loops do with one term: copy its object unless it is forwarded already, and
  relocate the term.\<close>

definition evacuate :: "u64 list \<Rightarrow> beam_term \<Rightarrow> gc_state \<Rightarrow> beam_term \<times> gc_state" where
  "evacuate from t s =
     (case term_to_heap_addr t of
        None \<Rightarrow> (t, s)
      | Some addr \<Rightarrow>
          if addr < length from then
            (let s = (if gs_forward s ! addr = None then
                        (let (new_addr, s) = copy_object addr from s
                         in s\<lparr>gs_forward := (gs_forward s)[addr := Some new_addr]\<rparr>)
                      else s)
             in (update_term_addr t (gs_forward s ! addr), s))
          else (t, s))"

fun evacuate_roots :: "u64 list \<Rightarrow> beam_term list \<Rightarrow> gc_state \<Rightarrow> beam_term list \<times> gc_state" where
  "evacuate_roots from [] s = ([], s)"
| "evacuate_roots from (t # ts) s =
     (let (t', s) = evacuate from t s; (ts', s) = evacuate_roots from ts s in (t' # ts', s))"

definition scan_word :: "u64 list \<Rightarrow> nat \<Rightarrow> gc_state \<Rightarrow> gc_state" where
  "scan_word from scan s =
     (let t = Term (gs_to s ! scan)
      in if is_heap_pointer t then
           (case term_to_heap_addr t of
              Some addr \<Rightarrow>
                if addr < length from then
                  (let (t', s) = evacuate from t s in s\<lparr>gs_to := (gs_to s)[scan := term_raw t']\<rparr>)
                else s
            | None \<Rightarrow> s)
         else s)"

lemma copy_words_length [simp]:
  "length (gs_to (fold (\<lambda>i. copy_word from (addr + i)) ks s)) = length (gs_to s)"
  by (induction ks arbitrary: s) (simp_all add: copy_word_def)

lemma copy_object_length [simp]: "length (gs_to (snd (copy_object addr from s))) = length (gs_to s)"
  by (simp add: copy_object_def Let_def)

lemma evacuate_length [simp]: "length (gs_to (snd (evacuate from t s))) = length (gs_to s)"
  by (auto simp: evacuate_def Let_def split_beta split: option.split)

lemma scan_word_length [simp]: "length (gs_to (scan_word from scan s)) = length (gs_to s)"
  by (simp add: scan_word_def Let_def split_beta split: option.split)

text \<open>Reading \<^verbatim>\<open>to_space[scan_ptr]\<close> past the end panics.\<close>

function scan_loop :: "u64 list \<Rightarrow> nat \<Rightarrow> gc_state \<Rightarrow> (unit, gc_state) outcome" where
  "scan_loop from scan s =
     (if scan < gs_hp s then
        (if scan < length (gs_to s) then scan_loop from (Suc scan) (scan_word from scan s)
         else Panic IndexOutOfBounds)
      else Ok s)"
  by pat_completeness auto

termination
  by (relation "measure (\<lambda>(from, scan, s). length (gs_to s) - scan)") auto

declare scan_loop.simps [simp del]

definition count_minor :: "gc_stats \<Rightarrow> gc_stats" where
  "count_minor st =
     st\<lparr>collections := collections st + 1, minor_collections := minor_collections st + 1,
        minor_gc_count := minor_gc_count st + 1\<rparr>"

definition inactive_buffer :: "process_heap \<Rightarrow> u64 list" where
  "inactive_buffer h = (if in_to_space h then from_space h else to_space h)"

definition set_inactive_buffer :: "u64 list \<Rightarrow> process_heap \<Rightarrow> process_heap" where
  "set_inactive_buffer ws h =
     (if in_to_space h then h\<lparr>from_space := ws\<rparr> else h\<lparr>to_space := ws\<rparr>)"

definition trace_gc ::
  "beam_term list \<Rightarrow> process_heap \<Rightarrow> (unit, bool \<times> beam_term list \<times> process_heap) outcome" where
  "trace_gc roots h0 =
     (let h = h0\<lparr>stats := count_minor (stats h0)\<rparr>; used = hp h in
      if used = 0 then Ok (True, roots, h)
      else
        (let from = active_buffer h;
             to = (if length (inactive_buffer h) < used then resize used (inactive_buffer h)
                   else inactive_buffer h);
             (roots', s) = evacuate_roots from roots
                \<lparr>gs_to = to, gs_hp = 0, gs_forward = replicate (length from) None\<rparr>
         in bind_o (scan_loop from 0 s) (\<lambda>s.
              let h = set_inactive_buffer (gs_to s) h
              in Ok (True, roots',
                   h\<lparr>hp := gs_hp s, in_to_space := \<not> in_to_space h,
                     stats := (stats h)\<lparr>words_collected :=
                       words_collected (stats h) + (of_nat used - of_nat (gs_hp s))\<rparr>\<rparr>))))"

definition minor_gc ::
  "beam_term list \<Rightarrow> process_heap \<Rightarrow> (unit, bool \<times> beam_term list \<times> process_heap) outcome" where
  "minor_gc roots h =
     bind_o (trace_gc roots h) (\<lambda>(_, roots', h'). Ok (hp h' < hp h, roots', h'))"

definition minor_gc_empty :: "process_heap \<Rightarrow> (unit, bool \<times> beam_term list \<times> process_heap) outcome"
  where "minor_gc_empty h = minor_gc [] h"

definition try_gc ::
  "beam_term list \<Rightarrow> process_heap \<Rightarrow> (unit, bool \<times> beam_term list \<times> process_heap) outcome" where
  "try_gc roots h = minor_gc roots h"

definition try_gc_empty :: "process_heap \<Rightarrow> (unit, bool \<times> beam_term list \<times> process_heap) outcome"
  where "try_gc_empty h = minor_gc [] h"

section \<open>Addresses of words\<close>

definition points_to :: "u64 list \<Rightarrow> u64 \<Rightarrow> nat option" where
  "points_to from w =
     (case term_to_heap_addr (Term w) of Some a \<Rightarrow> if a < length from then Some a else None | None \<Rightarrow> None)"

lemma term_to_heap_addr_eq:
  "term_to_heap_addr t =
     (if tag t = TagSmallInteger \<or> tag t = TagAtom then None else Some (unat (drop_bit 3 (term_raw t))))"
  by (cases "tag t")
    (simp_all add: term_to_heap_addr_def to_cons_def to_tuple_def to_float_def to_binary_def
      to_map_def to_fun_def)

lemma heap_addr_is_pointer: "term_to_heap_addr t = Some a \<Longrightarrow> is_heap_pointer t"
  by (auto simp: term_to_heap_addr_eq is_heap_pointer_def split: if_splits)

text \<open>The word of a pointer moved to another address.\<close>

definition relocated :: "u64 \<Rightarrow> nat \<Rightarrow> u64" where
  "relocated w a = push_bit 3 (of_nat a) OR (w AND 7)"

lemma update_term_addr_eq:
  "term_to_heap_addr (Term w) = Some b \<Longrightarrow> update_term_addr (Term w) (Some a) = Term (relocated w a)"
  using tag_num_tag [of "Term w"]
  by (cases "tag (Term w)")
    (simp_all add: update_term_addr_def term_to_heap_addr_eq relocated_def term_constructor_defs)

lemma relocated_points:
  assumes "term_to_heap_addr (Term w) = Some b" "a < 2 ^ 61"
  shows "term_to_heap_addr (Term (relocated w a)) = Some a" "tag (Term (relocated w a)) = tag (Term w)"
proof -
  have r: "relocated w a = push_bit 3 (of_nat a) OR tag_num (tag (Term w))"
    by (simp add: relocated_def tag_num_tag)
  show t: "tag (Term (relocated w a)) = tag (Term w)" by (simp add: r)
  have "unat (of_nat a :: u64) = a" using assms(2) by (simp add: unat_of_nat)
  then have "unat (drop_bit 3 (relocated w a)) = a"
    unfolding r payload_shift_or using assms(2) by (subst take_bit_word_id) simp_all
  then show "term_to_heap_addr (Term (relocated w a)) = Some a"
    using assms(1) t by (simp add: term_to_heap_addr_eq split: if_splits)
qed

end
