(* ===== verification/Gc_Laws.thy ===== *)
theory Gc_Laws
  imports Gc
begin

text \<open>
  Correctness of the copying collector of theory Gc: on a heap whose words, headers
  included, either lead to an object or do not look like a pointer into the heap, a
  collection copies exactly the objects reachable from the roots and relocates every
  reference to them.  The second part shows what happens on the heaps the program builds.
\<close>

section \<open>Objects and reachability\<close>

definition obj_size :: "u64 list \<Rightarrow> nat \<Rightarrow> nat" where
  "obj_size from a = unat (extract_size (from ! a))"

text \<open>\<open>S\<close> is a set of disjoint objects within the first \<open>used\<close> words, closed under the
  references of all their words.\<close>

definition objects_ok :: "u64 list \<Rightarrow> nat \<Rightarrow> nat set \<Rightarrow> bool" where
  "objects_ok from used S \<longleftrightarrow>
     used \<le> length from \<and> length from < 2 ^ 61
     \<and> (\<forall>a\<in>S. 0 < obj_size from a \<and> a + obj_size from a \<le> used)
     \<and> (\<forall>a\<in>S. \<forall>b\<in>S. a < b \<longrightarrow> a + obj_size from a \<le> b)
     \<and> (\<forall>a\<in>S. \<forall>i<obj_size from a. \<forall>b. points_to from (from ! (a + i)) = Some b \<longrightarrow> b \<in> S)"

definition edges :: "u64 list \<Rightarrow> (nat \<times> nat) set" where
  "edges from = {(a, b). \<exists>i<obj_size from a. points_to from (from ! (a + i)) = Some b}"

definition root_targets :: "u64 list \<Rightarrow> beam_term list \<Rightarrow> nat set" where
  "root_targets from roots = {b. \<exists>t\<in>set roots. points_to from (term_raw t) = Some b}"

definition live :: "u64 list \<Rightarrow> beam_term list \<Rightarrow> nat set" where
  "live from roots = (edges from)\<^sup>* `` root_targets from roots"

text \<open>A word after the move \<open>\<phi>\<close> of the objects.\<close>

definition moved :: "u64 list \<Rightarrow> (nat \<rightharpoonup> nat) \<Rightarrow> u64 \<Rightarrow> u64" where
  "moved from \<phi> w =
     (case points_to from w of
        Some b \<Rightarrow> (case \<phi> b of Some a \<Rightarrow> relocated w a | None \<Rightarrow> w)
      | None \<Rightarrow> w)"

lemma live_root: "t \<in> set roots \<Longrightarrow> points_to from (term_raw t) = Some b \<Longrightarrow> b \<in> live from roots"
  by (auto simp: live_def root_targets_def)

lemma live_step:
  "a \<in> live from roots \<Longrightarrow> i < obj_size from a \<Longrightarrow> points_to from (from ! (a + i)) = Some b \<Longrightarrow>
   b \<in> live from roots"
  by (auto simp: live_def edges_def intro: rtrancl_into_rtrancl)

lemma live_least:
  assumes "root_targets from roots \<subseteq> D" "\<And>a b. a \<in> D \<Longrightarrow> (a, b) \<in> edges from \<Longrightarrow> b \<in> D"
  shows "live from roots \<subseteq> D"
proof
  fix x assume "x \<in> live from roots"
  then obtain r where "r \<in> root_targets from roots" "(r, x) \<in> (edges from)\<^sup>*" by (auto simp: live_def)
  from this(2,1) show "x \<in> D" by (induction rule: rtrancl_induct) (use assms in auto)
qed

text \<open>Disjoint intervals within a bound have a bounded total size.\<close>

lemma disjoint_sizes:
  assumes "objects_ok from used S" "D \<subseteq> S" "finite D"
  shows "(\<Sum>a\<in>D. obj_size from a) \<le> used"
proof -
  have d: "\<forall>a\<in>D. \<forall>b\<in>D. a \<noteq> b \<longrightarrow>
      {a..<a + obj_size from a} \<inter> {b..<b + obj_size from b} = {}"
  proof (intro ballI impI)
    fix a b assume "a \<in> D" "b \<in> D" "a \<noteq> b"
    then have "a < b \<and> a + obj_size from a \<le> b \<or> b < a \<and> b + obj_size from b \<le> a"
      using assms(1,2) unfolding objects_ok_def by (metis linorder_neqE_nat subsetD)
    then show "{a..<a + obj_size from a} \<inter> {b..<b + obj_size from b} = {}" by auto
  qed
  have "(\<Sum>a\<in>D. obj_size from a) = card (\<Union>a\<in>D. {a..<a + obj_size from a})"
    using card_UN_disjoint [OF assms(3) _ d] by simp
  also have "\<dots> \<le> card {..<used}"
    using assms(1,2) by (intro card_mono) (fastforce simp: objects_ok_def)+
  finally show ?thesis by simp
qed

section \<open>The invariant\<close>

definition fwd :: "gc_state \<Rightarrow> nat \<rightharpoonup> nat" where
  "fwd s a = (if a < length (gs_forward s) then gs_forward s ! a else None)"

definition gc_inv :: "u64 list \<Rightarrow> nat \<Rightarrow> nat set \<Rightarrow> nat \<Rightarrow> gc_state \<Rightarrow> bool" where
  "gc_inv from used L scan s \<longleftrightarrow>
     length (gs_forward s) = length from \<and> used \<le> length (gs_to s)
     \<and> scan \<le> gs_hp s \<and> dom (fwd s) \<subseteq> L
     \<and> gs_hp s = (\<Sum>a\<in>dom (fwd s). obj_size from a)
     \<and> (\<forall>a c. fwd s a = Some c \<longrightarrow> c + obj_size from a \<le> gs_hp s)
     \<and> (\<forall>a b c d. fwd s a = Some c \<longrightarrow> fwd s b = Some d \<longrightarrow> a \<noteq> b \<longrightarrow>
          c + obj_size from a \<le> d \<or> d + obj_size from b \<le> c)
     \<and> (\<forall>p<gs_hp s. \<exists>a c. fwd s a = Some c \<and> c \<le> p \<and> p < c + obj_size from a)
     \<and> (\<forall>a c i. fwd s a = Some c \<longrightarrow> i < obj_size from a \<longrightarrow>
          gs_to s ! (c + i) = (if c + i < scan then moved from (fwd s) (from ! (a + i)) else from ! (a + i)))
     \<and> (\<forall>a c i b. fwd s a = Some c \<longrightarrow> i < obj_size from a \<longrightarrow> c + i < scan \<longrightarrow>
          points_to from (from ! (a + i)) = Some b \<longrightarrow> b \<in> dom (fwd s))"

lemma gc_invD:
  assumes "gc_inv from used L scan s"
  shows "dom (fwd s) \<subseteq> L" "gs_hp s = (\<Sum>a\<in>dom (fwd s). obj_size from a)"
    "fwd s a = Some c \<Longrightarrow> c + obj_size from a \<le> gs_hp s"
    "fwd s a = Some c \<Longrightarrow> fwd s b = Some d \<Longrightarrow> a \<noteq> b \<Longrightarrow>
      c + obj_size from a \<le> d \<or> d + obj_size from b \<le> c"
    "fwd s a = Some c \<Longrightarrow> i < obj_size from a \<Longrightarrow>
      gs_to s ! (c + i) = (if c + i < scan then moved from (fwd s) (from ! (a + i)) else from ! (a + i))"
    "fwd s a = Some c \<Longrightarrow> i < obj_size from a \<Longrightarrow> c + i < scan \<Longrightarrow>
      points_to from (from ! (a + i)) = Some t \<Longrightarrow> t \<in> dom (fwd s)"
  using assms unfolding gc_inv_def by blast+

lemma copy_words_spec:
  "k + n \<le> length from \<Longrightarrow> gs_hp s + n \<le> length (gs_to s) \<Longrightarrow>
   s' = fold (\<lambda>i. copy_word from (k + i)) [0..<n] s \<Longrightarrow>
   gs_hp s' = gs_hp s + n \<and> gs_forward s' = gs_forward s \<and> length (gs_to s') = length (gs_to s) \<and>
   (\<forall>j<length (gs_to s). gs_to s' ! j =
      (if gs_hp s \<le> j \<and> j < gs_hp s + n then from ! (k + (j - gs_hp s)) else gs_to s ! j))"
proof (induction n arbitrary: s')
  case (Suc n)
  let ?m = "fold (\<lambda>i. copy_word from (k + i)) [0..<n] s"
  have m: "gs_hp ?m = gs_hp s + n" "gs_forward ?m = gs_forward s" "length (gs_to ?m) = length (gs_to s)"
    "\<forall>j<length (gs_to s). gs_to ?m ! j =
      (if gs_hp s \<le> j \<and> j < gs_hp s + n then from ! (k + (j - gs_hp s)) else gs_to s ! j)"
    using Suc.IH [OF _ _ refl] Suc.prems by simp_all
  have s': "s' = ?m\<lparr>gs_to := (gs_to ?m)[gs_hp s + n := from ! (k + n)], gs_hp := gs_hp s + n + 1\<rparr>"
    using Suc.prems m(1,3) by (simp add: copy_word_def [of "from" "k + n"])
  show ?case
    unfolding s' using m Suc.prems(1,2) by (auto simp: nth_list_update less_Suc_eq)
qed auto


text \<open>Extending the map keeps a moved word whose target was in it.\<close>

lemma moved_extend:
  "(\<And>b. points_to from w = Some b \<Longrightarrow> \<psi> b = \<phi> b) \<Longrightarrow> moved from \<psi> w = moved from \<phi> w"
  by (auto simp: moved_def split: option.split)

lemma fwd_update:
  "a < length (gs_forward s) \<Longrightarrow> gs_forward s' = (gs_forward s)[a := Some c] \<Longrightarrow>
   fwd s' = (fwd s)(a \<mapsto> c)"
  by (auto simp: fwd_def nth_list_update)

text \<open>Copying one more object keeps the invariant.\<close>

lemma copy_inv:
  assumes inv: "gc_inv from used L scan s" and ok: "objects_ok from used S" and "L \<subseteq> S"
    and a: "a \<in> L" "fwd s a = None" and cp: "copy_object a from s = (c, s1)"
    and s': "s' = s1\<lparr>gs_forward := (gs_forward s1)[a := Some c]\<rparr>"
  shows "gc_inv from used L scan s'" "fwd s' = (fwd s)(a \<mapsto> c)"
    "\<forall>j<gs_hp s. gs_to s' ! j = gs_to s ! j" "gs_hp s \<le> gs_hp s'"
    "length (gs_to s') = length (gs_to s)"
proof -
  let ?n = "obj_size from a"
  have fin: "finite (dom (fwd s))"
    by (rule finite_subset [of _ "{..<length (gs_forward s)}"]) (auto simp: fwd_def split: if_splits)
  have S: "dom (fwd s) \<subseteq> S" "a \<in> S" using inv assms(3) a(1) by (auto simp: gc_inv_def)
  have n: "0 < ?n" "a + ?n \<le> used" "used \<le> length from" using ok S by (auto simp: objects_ok_def)
  have "(\<Sum>b\<in>insert a (dom (fwd s)). obj_size from b) \<le> used"
    by (rule disjoint_sizes [OF ok]) (use S fin in auto)
  then have room: "gs_hp s + ?n \<le> used" using inv a(2) fin by (simp add: gc_inv_def domIff)
  have c: "c = gs_hp s" "s1 = fold (\<lambda>i. copy_word from (a + i)) [0..<?n] s"
    using cp n by (auto simp: copy_object_def obj_size_def Let_def)
  have len: "used \<le> length (gs_to s)" "length (gs_forward s) = length from"
    using inv by (simp_all add: gc_inv_def)
  note cw = copy_words_spec [OF _ _ c(2)]
  have w: "gs_hp s1 = gs_hp s + ?n" "gs_forward s1 = gs_forward s" "length (gs_to s1) = length (gs_to s)"
    "\<forall>j<length (gs_to s). gs_to s1 ! j =
      (if gs_hp s \<le> j \<and> j < gs_hp s + ?n then from ! (a + (j - gs_hp s)) else gs_to s ! j)"
    using cw n room len by auto
  have f: "fwd s' = (fwd s)(a \<mapsto> gs_hp s)"
    by (rule fwd_update) (use n len w(2) c s' in auto)
  have hp': "gs_hp s' = gs_hp s + ?n" "gs_to s' = gs_to s1" using w s' by auto
  have old: "\<And>j. j < gs_hp s \<Longrightarrow> gs_to s' ! j = gs_to s ! j"
    using w(4) room len by (simp add: hp')
  have new: "\<And>i. i < ?n \<Longrightarrow> gs_to s' ! (gs_hp s + i) = from ! (a + i)"
    using w(4) room len by (simp add: hp')
  have mv: "moved from (fwd s') (from ! (b + i)) = moved from (fwd s) (from ! (b + i))"
    if "fwd s b = Some d" "i < obj_size from b" "d + i < scan" for b d i
  proof (rule moved_extend)
    fix t assume "points_to from (from ! (b + i)) = Some t"
    then have "t \<in> dom (fwd s)" using inv that by (simp add: gc_inv_def)
    then show "fwd s' t = fwd s t" using a(2) by (auto simp: f)
  qed
  show "gc_inv from used L scan s'"
    unfolding gc_inv_def
  proof (intro conjI allI impI)
    show "length (gs_forward s') = length from" "used \<le> length (gs_to s')"
      using len w s' by simp_all
    show "scan \<le> gs_hp s'" "dom (fwd s') \<subseteq> L"
      using inv a(1) by (auto simp: gc_inv_def hp' f)
    show "gs_hp s' = (\<Sum>b\<in>dom (fwd s'). obj_size from b)"
      using inv fin a(2) by (simp add: gc_inv_def hp' f domIff)
  next
    fix b d assume "fwd s' b = Some d"
    then show "d + obj_size from b \<le> gs_hp s'"
      using inv by (fastforce simp: gc_inv_def hp' f split: if_splits)
  next
    fix b b' d d' assume "fwd s' b = Some d" "fwd s' b' = Some d'" "b \<noteq> b'"
    then show "d + obj_size from b \<le> d' \<or> d' + obj_size from b' \<le> d"
      using inv by (auto simp: gc_inv_def f split: if_splits)
  next
    fix p assume p: "p < gs_hp s'"
    show "\<exists>b d. fwd s' b = Some d \<and> d \<le> p \<and> p < d + obj_size from b"
    proof (cases "p < gs_hp s")
      case True
      then obtain b d where "fwd s b = Some d" "d \<le> p" "p < d + obj_size from b"
        using inv by (auto simp: gc_inv_def)
      then show ?thesis using a(2) by (intro exI [of _ b] exI [of _ d]) (auto simp: f)
    next
      case False
      then show ?thesis using p by (intro exI [of _ a] exI [of _ "gs_hp s"]) (auto simp: f hp')
    qed
  next
    fix b d i assume b: "fwd s' b = Some d" "i < obj_size from b"
    show "gs_to s' ! (d + i) =
        (if d + i < scan then moved from (fwd s') (from ! (b + i)) else from ! (b + i))"
    proof (cases "b = a")
      case True
      then show ?thesis using b new inv by (auto simp: f gc_inv_def)
    next
      case False
      then have b': "fwd s b = Some d" using b(1) by (simp add: f)
      then have "d + i < gs_hp s" using inv b(2) by (fastforce simp: gc_inv_def)
      then show ?thesis using old mv [OF b' b(2)] inv b' b(2) by (simp add: gc_inv_def)
    qed
  next
    fix b d i t
    assume b: "fwd s' b = Some d" "i < obj_size from b" "d + i < scan"
      "points_to from (from ! (b + i)) = Some t"
    then have "b \<noteq> a" using inv by (auto simp: f gc_inv_def)
    then have "t \<in> dom (fwd s)" using b inv by (auto simp: f gc_inv_def)
    then show "t \<in> dom (fwd s')" by (simp add: f)
  qed
  show "fwd s' = (fwd s)(a \<mapsto> c)" using f c by simp
  show "\<forall>j<gs_hp s. gs_to s' ! j = gs_to s ! j" using old by simp
  show "gs_hp s \<le> gs_hp s'" "length (gs_to s') = length (gs_to s)" using hp' w by simp_all
qed

text \<open>What one evacuation does with a word whose target is live.\<close>

lemma evacuate_inv:
  assumes inv: "gc_inv from used L scan s" and ok: "objects_ok from used S" "L \<subseteq> S"
    and tgt: "\<And>b. points_to from w = Some b \<Longrightarrow> b \<in> L"
    and ev: "evacuate from (Term w) s = (t', s')"
  shows "gc_inv from used L scan s'" "fwd s \<subseteq>\<^sub>m fwd s'" "t' = Term (moved from (fwd s') w)"
    "\<And>b. points_to from w = Some b \<Longrightarrow> b \<in> dom (fwd s')"
    "\<forall>j<gs_hp s. gs_to s' ! j = gs_to s ! j" "gs_hp s \<le> gs_hp s'"
    "length (gs_to s') = length (gs_to s)"
proof -
  have "gc_inv from used L scan s' \<and> fwd s \<subseteq>\<^sub>m fwd s' \<and> t' = Term (moved from (fwd s') w)
    \<and> (\<forall>b. points_to from w = Some b \<longrightarrow> b \<in> dom (fwd s'))
    \<and> (\<forall>j<gs_hp s. gs_to s' ! j = gs_to s ! j) \<and> gs_hp s \<le> gs_hp s'
    \<and> length (gs_to s') = length (gs_to s)"
  proof (cases "points_to from w")
    case None
    then have "evacuate from (Term w) s = (Term w, s)"
      by (auto simp: evacuate_def points_to_def split: option.splits if_splits)
    then show ?thesis using inv None ev by (simp add: moved_def)
  next
    case (Some b)
    then have b: "term_to_heap_addr (Term w) = Some b" "b < length from" "b \<in> L"
      using tgt by (auto simp: points_to_def split: option.splits if_splits)
    have len: "length (gs_forward s) = length from" using inv by (simp add: gc_inv_def)
    show ?thesis
    proof (cases "fwd s b")
      case (Some c)
      then have "gs_forward s ! b = Some c" using b len by (simp add: fwd_def)
      then have "t' = Term (relocated w c)" "s' = s"
        using ev b by (auto simp: evacuate_def update_term_addr_eq)
      then show ?thesis using inv Some \<open>points_to from w = Some b\<close> by (auto simp: moved_def)
    next
      case None
      obtain c s1 where cp: "copy_object b from s = (c, s1)" by fastforce
      define s2 where "s2 = s1\<lparr>gs_forward := (gs_forward s1)[b := Some c]\<rparr>"
      note ci = copy_inv [OF inv ok b(3) None cp s2_def]
      have "gs_forward s ! b = None" using None b len by (simp add: fwd_def)
      moreover have "gs_forward s2 ! b = Some c"
        using fun_cong [OF ci(2), of b] by (simp add: fwd_def split: if_splits)
      ultimately have "t' = Term (relocated w c)" "s' = s2"
        using ev b cp by (auto simp: evacuate_def update_term_addr_eq Let_def s2_def)
      then show ?thesis using ci None \<open>points_to from w = Some b\<close>
        by (auto simp: moved_def map_le_def)
    qed
  qed
  then show "gc_inv from used L scan s'" "fwd s \<subseteq>\<^sub>m fwd s'" "t' = Term (moved from (fwd s') w)"
    "\<And>b. points_to from w = Some b \<Longrightarrow> b \<in> dom (fwd s')"
    "\<forall>j<gs_hp s. gs_to s' ! j = gs_to s ! j" "gs_hp s \<le> gs_hp s'"
    "length (gs_to s') = length (gs_to s)"
    by blast+
qed


section \<open>The loops\<close>

lemma evacuate_roots_inv:
  assumes "gc_inv from used L scan s" "objects_ok from used S" "L \<subseteq> S"
    "\<And>t b. t \<in> set roots \<Longrightarrow> points_to from (term_raw t) = Some b \<Longrightarrow> b \<in> L"
    "evacuate_roots from roots s = (roots', s')"
  shows "gc_inv from used L scan s' \<and> fwd s \<subseteq>\<^sub>m fwd s'
    \<and> roots' = map (\<lambda>t. Term (moved from (fwd s') (term_raw t))) roots
    \<and> root_targets from roots \<subseteq> dom (fwd s') \<and> length (gs_to s') = length (gs_to s)"
  using assms
proof (induction roots arbitrary: s roots' s')
  case (Cons t ts)
  obtain t1 s1 where e: "evacuate from t s = (t1, s1)" by fastforce
  obtain ts1 s2 where es: "evacuate_roots from ts s1 = (ts1, s2)" by fastforce
  have r: "roots' = t1 # ts1" "s' = s2" using Cons.prems(5) e es by auto
  have e': "evacuate from (Term (term_raw t)) s = (t1, s1)" using e by simp
  note ev = evacuate_inv [OF Cons.prems(1-3) _ e']
  have tgt: "\<And>b. points_to from (term_raw t) = Some b \<Longrightarrow> b \<in> L" using Cons.prems(4) by auto
  have IH: "gc_inv from used L scan s2 \<and> fwd s1 \<subseteq>\<^sub>m fwd s2
    \<and> ts1 = map (\<lambda>t. Term (moved from (fwd s2) (term_raw t))) ts
    \<and> root_targets from ts \<subseteq> dom (fwd s2) \<and> length (gs_to s2) = length (gs_to s1)"
    by (rule Cons.IH [OF ev(1) [OF tgt] Cons.prems(2,3) _ es]) (use Cons.prems(4) in auto)
  then have le: "fwd s1 \<subseteq>\<^sub>m fwd s2" by simp
  have "moved from (fwd s2) (term_raw t) = moved from (fwd s1) (term_raw t)"
    using ev(4) [OF tgt] le by (intro moved_extend) (auto simp: map_le_def)
  moreover have "fwd s \<subseteq>\<^sub>m fwd s2" using ev(2) [OF tgt] le by (blast intro: map_le_trans)
  moreover have "root_targets from (t # ts) \<subseteq> dom (fwd s2)"
    using ev(4) [OF tgt] map_le_implies_dom_le [OF le] IH
    by (auto simp: root_targets_def)
  ultimately show ?case using IH ev(3,7) [OF tgt] by (simp add: r)
qed (auto simp: root_targets_def map_le_def)

lemma scan_word_inv:
  assumes inv: "gc_inv from used L scan s" and ok: "objects_ok from used S" "L \<subseteq> S"
    and cl: "\<forall>a\<in>L. \<forall>i<obj_size from a. \<forall>b. points_to from (from ! (a + i)) = Some b \<longrightarrow> b \<in> L"
    and sc: "scan < gs_hp s" "scan < length (gs_to s)"
  shows "gc_inv from used L (Suc scan) (scan_word from scan s)" "fwd s \<subseteq>\<^sub>m fwd (scan_word from scan s)"
proof -
  obtain a c where ac: "fwd s a = Some c" "c \<le> scan" "scan < c + obj_size from a"
    using inv sc by (auto simp: gc_inv_def)
  let ?i = "scan - c" and ?w = "gs_to s ! scan"
  have "\<forall>i<obj_size from a. gs_to s ! (c + i) =
      (if c + i < scan then moved from (fwd s) (from ! (a + i)) else from ! (a + i))"
    using inv ac(1) unfolding gc_inv_def by blast
  then have "?i < obj_size from a \<longrightarrow> gs_to s ! (c + ?i) =
      (if c + ?i < scan then moved from (fwd s) (from ! (a + ?i)) else from ! (a + ?i))"
    by (rule spec)
  then have "gs_to s ! (c + ?i) = from ! (a + ?i)" using ac by simp
  then have w: "?w = from ! (a + ?i)" "?i < obj_size from a" "c + ?i = scan" using ac by auto
  have "a \<in> L" using inv ac(1) by (auto simp: gc_inv_def)
  then have tgt: "\<And>b. points_to from ?w = Some b \<Longrightarrow> b \<in> L" using cl w \<open>a \<in> L\<close> by metis
  obtain t' s1 where e: "evacuate from (Term ?w) s = (t', s1)" by fastforce
  note ev = evacuate_inv [OF inv ok tgt e]
  define s2 where "s2 = s1\<lparr>gs_to := (gs_to s1)[scan := moved from (fwd s1) ?w]\<rparr>"
  have "scan_word from scan s = s2"
  proof (cases "points_to from ?w")
    case None
    then have "s1 = s" "scan_word from scan s = s"
      using e by (auto simp: evacuate_def points_to_def scan_word_def Let_def
          split: option.splits if_splits)
    then show ?thesis using None by (simp add: s2_def moved_def)
  next
    case (Some b)
    then show ?thesis using e ev(3)
      by (auto simp: scan_word_def points_to_def s2_def Let_def heap_addr_is_pointer
          split: option.splits if_splits)
  qed
  moreover have hp2: "gs_hp s2 = gs_hp s1" by (simp add: s2_def)
  moreover have f: "fwd s2 = fwd s1" by (auto simp: s2_def fwd_def)
  moreover have "gc_inv from used L (Suc scan) s2"
    unfolding gc_inv_def
  proof (intro conjI allI impI)
    show "length (gs_forward s2) = length from" "used \<le> length (gs_to s2)" "dom (fwd s2) \<subseteq> L"
      "gs_hp s2 = (\<Sum>a\<in>dom (fwd s2). obj_size from a)"
      using ev(1) f by (simp_all add: s2_def gc_inv_def)
    show "Suc scan \<le> gs_hp s2" using sc ev(6) by (simp add: s2_def)
  next
    fix b d assume "fwd s2 b = Some d"
    then show "d + obj_size from b \<le> gs_hp s2" 
      using ev(1) unfolding f hp2 gc_inv_def by blast
  next
    fix b b' d d' assume "fwd s2 b = Some d" "fwd s2 b' = Some d'" "b \<noteq> b'"
    then show "d + obj_size from b \<le> d' \<or> d' + obj_size from b' \<le> d"
      using ev(1) unfolding f gc_inv_def by blast
  next
    fix p assume "p < gs_hp s2"
    then have "p < gs_hp s1" by (simp add: s2_def)
    then show "\<exists>b d. fwd s2 b = Some d \<and> d \<le> p \<and> p < d + obj_size from b"
      using ev(1) unfolding f gc_inv_def by blast
  next
    fix b d i assume b: "fwd s2 b = Some d" "i < obj_size from b"
    have old: "gs_to s1 ! (d + i) =
        (if d + i < scan then moved from (fwd s1) (from ! (b + i)) else from ! (b + i))"
      using ev(1) b unfolding f gc_inv_def by blast
    show "gs_to s2 ! (d + i) =
        (if d + i < Suc scan then moved from (fwd s2) (from ! (b + i)) else from ! (b + i))"
    proof (cases "d + i = scan")
      case True
      then have "?w = from ! (b + i)" using old ev(5) sc by simp
      then show ?thesis using True f sc ev(7) by (simp add: s2_def)
    next
      case False
      then show ?thesis using old f by (simp add: s2_def less_Suc_eq)
    qed
  next
    fix b d i t
    assume b: "fwd s2 b = Some d" "i < obj_size from b" "d + i < Suc scan"
      "points_to from (from ! (b + i)) = Some t"
    show "t \<in> dom (fwd s2)"
    proof (cases "d + i = scan")
      case True
      have "gs_to s1 ! (d + i) =
          (if d + i < scan then moved from (fwd s1) (from ! (b + i)) else from ! (b + i))"
        using ev(1) b(1,2) unfolding f gc_inv_def by blast
      then have "?w = from ! (b + i)" using True ev(5) sc by simp
      then show ?thesis using b(4) ev(4) f by simp
    next
      case False
      then show ?thesis using ev(1) b unfolding f gc_inv_def by (metis less_SucE)
    qed
  qed
  ultimately show "gc_inv from used L (Suc scan) (scan_word from scan s)"
    "fwd s \<subseteq>\<^sub>m fwd (scan_word from scan s)"
    using ev(2) by simp_all
qed

lemma scan_loop_inv:
  assumes "gc_inv from used L scan s" "objects_ok from used S" "finite L" "L \<subseteq> S"
    and "\<forall>a\<in>L. \<forall>i<obj_size from a. \<forall>b. points_to from (from ! (a + i)) = Some b \<longrightarrow> b \<in> L"
  shows "\<exists>s'. scan_loop from scan s = Ok s' \<and> gc_inv from used L (gs_hp s') s' \<and> fwd s \<subseteq>\<^sub>m fwd s'
    \<and> length (gs_to s') = length (gs_to s)"
  using assms(1)
proof (induction "length (gs_to s) - scan" arbitrary: scan s rule: less_induct)
  case less
  have "gs_hp s \<le> used"
    using less.prems disjoint_sizes [OF assms(2), of "dom (fwd s)"] assms(3,4)
    by (auto simp: gc_inv_def intro: finite_subset)
  then have len: "gs_hp s \<le> length (gs_to s)" using less.prems by (simp add: gc_inv_def)
  show ?case
  proof (cases "scan < gs_hp s")
    case True
    then have sc: "scan < length (gs_to s)" using len by simp
    note sw = scan_word_inv [OF less.prems assms(2,4,5) True sc]
    have lt: "length (gs_to (scan_word from scan s)) - Suc scan < length (gs_to s) - scan"
      using sc by simp
    from less.hyps [OF lt sw(1)] obtain s' where
      "scan_loop from (Suc scan) (scan_word from scan s) = Ok s'" "gc_inv from used L (gs_hp s') s'"
      "fwd (scan_word from scan s) \<subseteq>\<^sub>m fwd s'" "length (gs_to s') = length (gs_to s)"
      by auto
    then show ?thesis using True sc sw(2)
      by (subst scan_loop.simps) (auto intro: map_le_trans)
  next
    case False
    then have "scan = gs_hp s" using less.prems by (simp add: gc_inv_def)
    then show ?thesis using less.prems by (subst scan_loop.simps) simp
  qed
qed


section \<open>The collection\<close>

lemma gc_inv_start:
  "used \<le> length tos \<Longrightarrow>
   gc_inv from used L 0 \<lparr>gs_to = tos, gs_hp = 0, gs_forward = replicate (length from) None\<rparr>"
  by (auto simp: gc_inv_def fwd_def dom_def)

text \<open>The result of a collection, with the map from old to new addresses.\<close>

definition copied :: "u64 list \<Rightarrow> beam_term list \<Rightarrow> (nat \<rightharpoonup> nat) \<Rightarrow> u64 list \<Rightarrow> nat \<Rightarrow> bool" where
  "copied from roots \<phi> tos n \<longleftrightarrow>
     dom \<phi> = live from roots
     \<and> n = (\<Sum>a\<in>live from roots. obj_size from a)
     \<and> (\<forall>a c. \<phi> a = Some c \<longrightarrow> c + obj_size from a \<le> n)
     \<and> (\<forall>a b c d. \<phi> a = Some c \<longrightarrow> \<phi> b = Some d \<longrightarrow> a \<noteq> b \<longrightarrow>
          c + obj_size from a \<le> d \<or> d + obj_size from b \<le> c)
     \<and> (\<forall>a c i. \<phi> a = Some c \<longrightarrow> i < obj_size from a \<longrightarrow>
          tos ! (c + i) = moved from \<phi> (from ! (a + i)))"

lemma gc_inv_copied:
  assumes "gc_inv from used L (gs_hp s) s" "root_targets from roots \<subseteq> dom (fwd s)"
    "L = live from roots"
  shows "copied from roots (fwd s) (gs_to s) (gs_hp s)"
proof -
  note inv = gc_invD [OF assms(1)]
  have le: "d + i < gs_hp s" if "fwd s b = Some d" "i < obj_size from b" for b d i
    using inv(3) [OF that(1)] that(2) by simp
  have "live from roots \<subseteq> dom (fwd s)"
  proof (rule live_least [OF assms(2)])
    fix a b assume "a \<in> dom (fwd s)" "(a, b) \<in> edges from"
    then obtain c i where "fwd s a = Some c" "i < obj_size from a" "points_to from (from ! (a + i)) = Some b"
      by (auto simp: edges_def)
    then show "b \<in> dom (fwd s)" using inv(6) le by blast
  qed
  then have d: "dom (fwd s) = live from roots" using inv(1) assms(3) by blast
  show ?thesis
    unfolding copied_def
  proof (intro conjI allI impI)
    fix a c i assume "fwd s a = Some c" "i < obj_size from a"
    then show "gs_to s ! (c + i) = moved from (fwd s) (from ! (a + i))"
      using inv(5) le by simp
  qed (use inv(2-4) d in auto)
qed

lemma live_subset:
  assumes "objects_ok from used S" "root_targets from roots \<subseteq> S"
  shows "live from roots \<subseteq> S"
  by (rule live_least [OF assms(2)]) (use assms(1) in \<open>auto simp: objects_ok_def edges_def\<close>)

lemma resize_long: "used \<le> length (resize used ws)"
  by (simp add: resize_def)

lemma buffers_stats [simp]:
  "active_buffer (h\<lparr>stats := st\<rparr>) = active_buffer h"
  "inactive_buffer (h\<lparr>stats := st\<rparr>) = inactive_buffer h"
  by (simp_all add: active_buffer_def inactive_buffer_def)

text \<open>The steps of a collection that does not panic, put together.\<close>

lemma trace_gc_Ok:
  assumes "0 < hp h"
    and "tos = (if length (inactive_buffer h) < hp h then resize (hp h) (inactive_buffer h)
                else inactive_buffer h)"
    and "evacuate_roots (active_buffer h) roots
           \<lparr>gs_to = tos, gs_hp = 0, gs_forward = replicate (length (active_buffer h)) None\<rparr> = (roots', s1)"
    and "scan_loop (active_buffer h) 0 s1 = Ok s2"
  shows "\<exists>h'. trace_gc roots h = Ok (True, roots', h') \<and> active_buffer h' = gs_to s2
    \<and> inactive_buffer h' = active_buffer h \<and> hp h' = gs_hp s2
    \<and> in_to_space h' = (\<not> in_to_space h) \<and> hend h' = hend h"
proof -
  let ?h1 = "set_inactive_buffer (gs_to s2) (h\<lparr>stats := count_minor (stats h)\<rparr>)"
  let ?h2 = "?h1\<lparr>hp := gs_hp s2, in_to_space := \<not> in_to_space ?h1,
     stats := (stats ?h1)\<lparr>words_collected :=
       words_collected (stats ?h1) + (of_nat (hp h) - of_nat (gs_hp s2))\<rparr>\<rparr>"
  have "trace_gc roots h = Ok (True, roots', ?h2)"
    by (cases "length (inactive_buffer h) < hp h")
      (use assms in \<open>simp_all add: trace_gc_def Let_def\<close>)
  moreover have "active_buffer ?h2 = gs_to s2" "inactive_buffer ?h2 = active_buffer h" "hp ?h2 = gs_hp s2"
    "in_to_space ?h2 = (\<not> in_to_space h)" "hend ?h2 = hend h"
    by (simp_all add: active_buffer_def inactive_buffer_def set_inactive_buffer_def)
  ultimately show ?thesis by blast
qed

text \<open>C1. A collection preserves the graph below the roots and nothing else: when every word that
looks like a pointer into the heap leads to an object, trace_gc does not panic, copies exactly the
objects reachable from the roots to disjoint places below the new heap pointer, with every word of
them and every root relocated by the same injective map, so the heap pointer becomes the sum of the
live sizes.\<close>
theorem gc_preserves_live_graph:
  assumes "objects_ok (active_buffer h) (hp h) S" and "root_targets (active_buffer h) roots \<subseteq> S"
    and "0 < hp h"
  shows "\<exists>\<phi> roots' h'. trace_gc roots h = Ok (True, roots', h')
    \<and> copied (active_buffer h) roots \<phi> (active_buffer h') (hp h')
    \<and> roots' = map (\<lambda>t. Term (moved (active_buffer h) \<phi> (term_raw t))) roots
    \<and> in_to_space h' = (\<not> in_to_space h) \<and> hp h' \<le> hp h"
proof -
  let ?from = "active_buffer h" and ?L = "live (active_buffer h) roots"
  let ?to = "if length (inactive_buffer h) < hp h then resize (hp h) (inactive_buffer h)
    else inactive_buffer h"
  let ?s0 = "\<lparr>gs_to = ?to, gs_hp = 0, gs_forward = replicate (length ?from) None\<rparr>"
  have L: "?L \<subseteq> S" by (rule live_subset [OF assms(1,2)])
  have "finite S" using assms(1) by (intro finite_subset [of S "{..<hp h}"]) (auto simp: objects_ok_def)
  then have fin: "finite ?L" using L finite_subset by blast
  have "hp h \<le> length ?to" using resize_long by auto
  then have i0: "gc_inv ?from (hp h) ?L 0 ?s0" by (rule gc_inv_start)
  obtain roots' s1 where er: "evacuate_roots ?from roots ?s0 = (roots', s1)" by fastforce
  have r1: "gc_inv ?from (hp h) ?L 0 s1"
    "roots' = map (\<lambda>t. Term (moved ?from (fwd s1) (term_raw t))) roots"
    "root_targets ?from roots \<subseteq> dom (fwd s1)"
    using evacuate_roots_inv [OF i0 assms(1) L live_root er] by auto
  have "\<forall>a\<in>?L. \<forall>i<obj_size ?from a. \<forall>b. points_to ?from (?from ! (a + i)) = Some b \<longrightarrow> b \<in> ?L"
    using live_step by blast
  from scan_loop_inv [OF r1(1) assms(1) fin L this] obtain s2 where
    s2: "scan_loop ?from 0 s1 = Ok s2" "gc_inv ?from (hp h) ?L (gs_hp s2) s2" "fwd s1 \<subseteq>\<^sub>m fwd s2"
    by blast
  have rt: "root_targets ?from roots \<subseteq> dom (fwd s2)"
    using r1(3) map_le_implies_dom_le [OF s2(3)] by blast
  have cp: "copied ?from roots (fwd s2) (gs_to s2) (gs_hp s2)"
    by (rule gc_inv_copied [OF s2(2) rt refl])
  have "moved ?from (fwd s2) (term_raw t) = moved ?from (fwd s1) (term_raw t)" if "t \<in> set roots" for t
  proof (rule moved_extend)
    fix b assume "points_to ?from (term_raw t) = Some b"
    then have "b \<in> dom (fwd s1)" using that r1(3) by (auto simp: root_targets_def)
    then show "fwd s2 b = fwd s1 b" using s2(3) by (simp add: map_le_def)
  qed
  then have rs: "roots' = map (\<lambda>t. Term (moved ?from (fwd s2) (term_raw t))) roots"
    using r1(2) by simp
  have "gs_hp s2 \<le> hp h"
    using cp disjoint_sizes [OF assms(1) L fin] by (simp add: copied_def)
  moreover have "\<exists>h'. trace_gc roots h = Ok (True, roots', h') \<and> active_buffer h' = gs_to s2
      \<and> hp h' = gs_hp s2 \<and> in_to_space h' = (\<not> in_to_space h)"
    using trace_gc_Ok [OF assms(3) refl er s2(1)] by blast
  ultimately show ?thesis using cp rs by metis
qed


theorem gc_preserves_live_graph_witness:
  "\<exists>roots' h'. trace_gc [from_cons 0]
       ((heap_new heap_config_default)\<lparr>from_space := [0x302, 8, 16], hp := 3\<rparr>) = Ok (True, roots', h')
     \<and> hp h' \<le> 3"
proof -
  let ?h = "(heap_new heap_config_default)\<lparr>from_space := [0x302, 8, 16], hp := 3\<rparr>"
  have f: "active_buffer ?h = [0x302, 8, 16]" by (simp add: active_buffer_def heap_new_def)
  have t: "tag (Term 0x302) = TagCons" "tag (Term 8) = TagSmallInteger" "tag (Term 16) = TagSmallInteger"
    "tag (from_cons 0) = TagCons" by (simp add: tag_def, simp add: tag_def, simp add: tag_def, simp)
  have n: "obj_size [0x302, 8, 16] 0 = 3" by (simp add: obj_size_def extract_size_def)
  have p: "points_to [0x302, 8, 16] ([0x302, 8, 16] ! i) = None" if "i < 3" for i
    using that t by (auto simp: points_to_def term_to_heap_addr_eq less_Suc_eq numeral_3_eq_3)
  have "objects_ok (active_buffer ?h) (hp ?h) {0}"
    using n p unfolding f by (simp add: objects_ok_def)
  moreover have "root_targets (active_buffer ?h) [from_cons 0] \<subseteq> {0}"
    unfolding f using t by (auto simp: root_targets_def points_to_def term_to_heap_addr_eq from_cons_def
        split: if_splits)
  ultimately show ?thesis using gc_preserves_live_graph [of ?h "{0}" "[from_cons 0]"] by auto
qed

section \<open>The headers of the heap are not fit for it\<close>

lemma trace_first:
  assumes "length from = n" "96 < n" "n \<le> length tos"
    and w: "from ! 0 = 0x302" "from ! 96 = 0"
    and imm: "\<not> is_heap_pointer (Term (from ! 1))" "\<not> is_heap_pointer (Term (from ! 2))"
  shows "\<exists>s1 s2. evacuate_roots from [from_cons 0]
      \<lparr>gs_to = tos, gs_hp = 0, gs_forward = replicate n None\<rparr> = ([from_cons 0], s1)
    \<and> scan_loop from 0 s1 = Ok s2 \<and> gs_hp s2 = 3 \<and> length (gs_to s2) = length tos
    \<and> gs_to s2 ! 0 = 2 \<and> gs_to s2 ! 1 = from ! 1 \<and> gs_to s2 ! 2 = from ! 2"
proof -
  let ?s0 = "\<lparr>gs_to = tos, gs_hp = 0, gs_forward = replicate n None\<rparr>"
  define c where "c = fold (\<lambda>i. copy_word from (0 + i)) [0..<3] ?s0"
  have c: "gs_hp c = 3" "gs_forward c = replicate n None" "length (gs_to c) = length tos"
    "gs_to c ! 0 = 0x302" "gs_to c ! 1 = from ! 1" "gs_to c ! 2 = from ! 2"
  proof -
    have cw: "gs_hp c = gs_hp ?s0 + 3 \<and> gs_forward c = gs_forward ?s0 \<and> length (gs_to c) = length (gs_to ?s0)
      \<and> (\<forall>j<length (gs_to ?s0). gs_to c ! j = (if gs_hp ?s0 \<le> j \<and> j < gs_hp ?s0 + 3
           then from ! (0 + (j - gs_hp ?s0)) else gs_to ?s0 ! j))"
      by (rule copy_words_spec [OF _ _ c_def]) (use assms(1-3) in simp_all)
    then show "gs_hp c = 3" "gs_forward c = replicate n None" "length (gs_to c) = length tos" by simp_all
    have "gs_to c ! j = from ! j" if "j < 3" for j
      using cw that assms(2,3) by simp
    from this [of 0] this [of 1] this [of 2] w(1)
    show "gs_to c ! 0 = 0x302" "gs_to c ! 1 = from ! 1" "gs_to c ! 2 = from ! 2" by simp_all
  qed
  have sz: "extract_size 0x302 = 3" "extract_size 0 = 0" by (simp_all add: extract_size_def)
  have h0: "term_to_heap_addr (from_cons 0) = Some 0"
    by (simp add: term_to_heap_addr_eq) (simp add: from_cons_def)
  have "copy_object 0 from ?s0 = (0, c)"
    using assms sz by (simp add: copy_object_def c_def Let_def)
  moreover define s1 where "s1 = c\<lparr>gs_forward := (replicate n None)[0 := Some 0]\<rparr>"
  ultimately have er: "evacuate_roots from [from_cons 0] ?s0 = ([from_cons 0], s1)"
    using assms(1,2) c h0 by (simp add: evacuate_def Let_def update_term_addr_def)
  have t: "tag (Term 0x302) = TagCons" by (simp add: tag_def)
  then have h96: "term_to_heap_addr (Term 0x302) = Some 96" by (simp add: term_to_heap_addr_eq)
  define s2 where "s2 = s1\<lparr>gs_forward := (gs_forward s1)[96 := Some 0], gs_to := (gs_to s1)[0 := 2]\<rparr>"
  have s1: "gs_to s1 ! 0 = 0x302" "gs_hp s1 = 3" "gs_forward s1 ! 96 = None" "length (gs_forward s1) = n"
    "length (gs_to s1) = length tos"
    using c assms(2) by (simp_all add: s1_def)
  have "copy_object 96 from s1 = (0, s1)"
    using assms(1,2) w(2) sz by (simp add: copy_object_def)
  moreover have "update_term_addr (Term 0x302) (Some 0) = Term 2"
    by (simp add: update_term_addr_def t from_cons_def)
  ultimately have sw0: "scan_word from 0 s1 = s2"
    using s1 h96 assms(1,2) heap_addr_is_pointer [OF h96]
    by (simp add: scan_word_def evacuate_def Let_def s2_def)
  have s2: "gs_to s2 ! 1 = from ! 1" "gs_to s2 ! 2 = from ! 2" "gs_to s2 ! 0 = 2" "gs_hp s2 = 3"
    "length (gs_to s2) = length tos"
  proof -
    have "0 < length tos" using assms(2,3) by linarith
    then have "gs_to c \<noteq> []" unfolding c(3) [symmetric] by simp
    then show "gs_to s2 ! 1 = from ! 1" "gs_to s2 ! 2 = from ! 2" "gs_to s2 ! 0 = 2" "gs_hp s2 = 3"
      using c(1,4-6) by (simp_all add: s2_def s1_def)
    show "length (gs_to s2) = length tos" using c(3) by (simp add: s2_def s1_def)
  qed
  have sw1: "scan_word from 1 s2 = s2" "scan_word from 2 s2 = s2"
    using s2 imm by (simp_all add: scan_word_def)
  have len: "3 < length tos" "tos \<noteq> []" using assms(2,3) by auto
  have "scan_loop from 3 s2 = Ok s2" using s2 by (subst scan_loop.simps) simp
  then have "scan_loop from 2 s2 = Ok s2" using s2 sw1 len by (subst scan_loop.simps) (simp add: eval_nat_numeral)
  then have "scan_loop from 1 s2 = Ok s2" using s2 sw1 len by (subst scan_loop.simps) (simp add: numeral_2_eq_2)
  then have "scan_loop from 0 s1 = Ok s2" using s1 sw0 len by (subst scan_loop.simps) simp
  then show ?thesis using er s2 by blast
qed


lemma make_cons_fresh:
  assumes "make_cons a b (heap_new cfg) = (Some p, h)"
  shows "active_buffer h = [0x302, term_raw a, term_raw b] @ replicate (initial_size cfg - 3) 0"
    "inactive_buffer h = replicate (initial_size cfg) 0" "\<not> in_to_space h"
proof -
  let ?n = "initial_size cfg"
  have n: "3 \<le> ?n" using assms
    by (auto simp: make_cons_def alloc_cons_def alloc_def heap_new_def Let_def split: if_splits)
  then obtain m where m: "?n = Suc (Suc (Suc m))"
    by (metis add.commute add_2_eq_Suc' add_Suc_right le_Suc_ex numeral_3_eq_3)
  have r: "replicate ?n (0 :: u64) = 0 # 0 # 0 # replicate (?n - 3) 0"
    by (simp add: m)
  show "active_buffer h = [0x302, term_raw a, term_raw b] @ replicate (initial_size cfg - 3) 0"
    "inactive_buffer h = replicate (initial_size cfg) 0" "\<not> in_to_space h"
    using assms n r
    by (auto simp: make_cons_def alloc_cons_def alloc_def heap_new_def Let_def write_cons_def
        set_word_def set_active_buffer_def active_buffer_def inactive_buffer_def)
qed

lemma trace_second:
  assumes "length from = n" "0 < n" "from ! 0 = 2"
  shows "\<exists>s1. evacuate_roots from [from_cons 0]
      \<lparr>gs_to = tos, gs_hp = 0, gs_forward = replicate n None\<rparr> = ([from_cons 0], s1)
    \<and> scan_loop from 0 s1 = Ok s1 \<and> gs_hp s1 = 0 \<and> gs_to s1 = tos"
proof -
  let ?s0 = "\<lparr>gs_to = tos, gs_hp = 0, gs_forward = replicate n None\<rparr>"
  have h0: "term_to_heap_addr (from_cons 0) = Some 0"
    by (simp add: term_to_heap_addr_eq) (simp add: from_cons_def)
  have "copy_object 0 from ?s0 = (0, ?s0)"
    using assms by (simp add: copy_object_def extract_size_def)
  then have "evacuate_roots from [from_cons 0] ?s0
      = ([from_cons 0], ?s0\<lparr>gs_forward := (replicate n None)[0 := Some 0]\<rparr>)"
    using assms h0 by (simp add: evacuate_def Let_def update_term_addr_def)
  moreover have "scan_loop from 0 s = Ok s" if "gs_hp s = 0" for s
    using that by (subst scan_loop.simps) simp
  ultimately show ?thesis by simp
qed

text \<open>C38. A cons cell does not survive two collections, although it is a root both times: on a fresh
heap of more than 96 words the first collection takes the header of the cell for a pointer to word
96 and rewrites it to size zero (head and tail still read right), and the second one copies nothing
and answers a heap pointer of zero, so that the next allocation overwrites the cell.\<close>
theorem rooted_cons_collected:
  assumes "96 < initial_size cfg" "\<not> is_heap_pointer a" "\<not> is_heap_pointer b"
    and "make_cons a b (heap_new cfg) = (Some p, h)"
  shows "\<exists>h1 h2. trace_gc [from_cons (of_nat p)] h = Ok (True, [from_cons (of_nat p)], h1)
    \<and> read_cons_head p h1 = a \<and> read_cons_tail p h1 = b \<and> extract_size (word_or_0 p h1) = 0
    \<and> trace_gc [from_cons (of_nat p)] h1 = Ok (True, [from_cons (of_nat p)], h2)
    \<and> hp h2 = 0 \<and> fst (alloc 3 h2) = Some p"
proof -
  let ?n = "initial_size cfg"
  have bt: "built (heap_new cfg) (cons_words a b) 3 p h"
    by (rule make_cons_built [OF assms(4) heap_new_ok])
  have h: "p = 0" "hp h = 3" "hend h = ?n" "heap_ok h" "\<not> in_to_space h"
    and inact: "inactive_buffer h = replicate ?n 0"
    and act: "active_buffer h = [0x302, term_raw a, term_raw b] @ replicate (?n - 3) 0"
    using bt make_cons_fresh [OF assms(4)] assms(1) by (auto simp: built_def heap_new_def)
  let ?from = "active_buffer h"
  have len: "length ?from = ?n" using h by simp
  have imm: "\<not> is_heap_pointer (Term (?from ! 1))" "\<not> is_heap_pointer (Term (?from ! 2))"
    and w: "?from ! 0 = 0x302" "?from ! 96 = 0"
    using assms(1-3) by (simp_all add: act nth_append)
  have "\<exists>s1 s2. evacuate_roots ?from [from_cons 0]
      \<lparr>gs_to = replicate ?n 0, gs_hp = 0, gs_forward = replicate ?n None\<rparr> = ([from_cons 0], s1)
    \<and> scan_loop ?from 0 s1 = Ok s2 \<and> gs_hp s2 = 3 \<and> length (gs_to s2) = length (replicate ?n (0 :: u64))
    \<and> gs_to s2 ! 0 = 2 \<and> gs_to s2 ! 1 = ?from ! 1 \<and> gs_to s2 ! 2 = ?from ! 2"
    by (rule trace_first [OF len assms(1) _ w imm]) simp
  then obtain s1 s2 where s: "evacuate_roots ?from [from_cons 0]
      \<lparr>gs_to = replicate ?n 0, gs_hp = 0, gs_forward = replicate ?n None\<rparr> = ([from_cons 0], s1)"
    "scan_loop ?from 0 s1 = Ok s2" "gs_hp s2 = 3" "length (gs_to s2) = ?n"
    "gs_to s2 ! 0 = 2" "gs_to s2 ! 1 = ?from ! 1" "gs_to s2 ! 2 = ?from ! 2"
    by auto
  have tos: "replicate ?n 0 = (if length (inactive_buffer h) < hp h
      then resize (hp h) (inactive_buffer h) else inactive_buffer h)"
    using assms(1) by (simp add: inact h)
  obtain h1 where h1: "trace_gc [from_cons 0] h = Ok (True, [from_cons 0], h1)"
    "active_buffer h1 = gs_to s2" "inactive_buffer h1 = ?from" "hp h1 = 3" "hend h1 = ?n"
    using trace_gc_Ok [OF _ tos _ s(2), of "[from_cons 0]" "[from_cons 0]"] s(1,3) h len by auto
  have len1: "length (active_buffer h1) = ?n" using h1(2) s(4) by simp
  have "active_buffer h1 ! 0 = 2" using h1(2) s(5) by simp
  from trace_second [OF len1 _ this, of ?from] obtain s3 where
    s3: "evacuate_roots (active_buffer h1) [from_cons 0]
      \<lparr>gs_to = ?from, gs_hp = 0, gs_forward = replicate ?n None\<rparr> = ([from_cons 0], s3)"
    "scan_loop (active_buffer h1) 0 s3 = Ok s3" "gs_hp s3 = 0"
    using assms(1) by auto
  have tos1: "?from = (if length (inactive_buffer h1) < hp h1
      then resize (hp h1) (inactive_buffer h1) else inactive_buffer h1)"
    using assms(1) len by (simp add: h1)
  obtain h2 where h2: "trace_gc [from_cons 0] h1 = Ok (True, [from_cons 0], h2)" "hp h2 = 0" "hend h2 = ?n"
    using trace_gc_Ok [OF _ tos1 _ s3(2), of "[from_cons 0]" "[from_cons 0]"] s3(1,3) h1 len1 by auto
  have rd: "word_or_0 i h1 = gs_to s2 ! i" if "i < ?n" for i
    using that s(4) by (simp add: word_or_0_def get_word_def h1(2))
  have "read_cons_head 0 h1 = a" "read_cons_tail 0 h1 = b" "extract_size (word_or_0 0 h1) = 0"
    using rd [of 0] rd [of 1] rd [of 2] s(5-7) assms(1)
    by (simp_all add: read_cons_head_def read_cons_tail_def act extract_size_def numeral_2_eq_2)
  moreover have "fst (alloc 3 h2) = Some 0"
    using assms(1) by (simp add: alloc_def h2)
  ultimately show ?thesis using h1(1) h2(1,2) h(1) by (intro exI [of _ h1] exI [of _ h2]) simp
qed

theorem rooted_cons_collected_witness:
  "\<exists>h1 h2. trace_gc [from_cons 0] (snd (make_cons nil nil (heap_new heap_config_default)))
       = Ok (True, [from_cons 0], h1)
     \<and> trace_gc [from_cons 0] h1 = Ok (True, [from_cons 0], h2) \<and> hp h2 = 0"
proof -
  let ?h = "heap_new heap_config_default"
  have "fst (make_cons nil nil ?h) = Some 0"
    by (simp add: make_cons_def alloc_cons_def alloc_def heap_new_def heap_config_default_def)
  then have m: "make_cons nil nil ?h = (Some 0, snd (make_cons nil nil ?h))" by (simp add: prod_eq_iff)
  have i: "\<not> is_heap_pointer nil" by (simp add: is_heap_pointer_def nil_def)
  show ?thesis
    using rooted_cons_collected [OF _ i i m] by (auto simp: heap_config_default_def)
qed

end
