(* ===== verification/Yield_Gc.thy ===== *)
theory Yield_Gc
  imports Gc
begin

text \<open>
  The yieldable collector (\<^verbatim>\<open>crates/chimera_erlang_beam_heap/src/yieldable_gc.rs\<close>): a state
  machine that marks, copies and compacts in slices of a budget of words.  The helpers
  \<^verbatim>\<open>is_heap_pointer\<close> and \<^verbatim>\<open>term_to_heap_addr\<close> are the same functions as in \<^verbatim>\<open>gc.rs\<close>.
\<close>

section \<open>Model\<close>

datatype gc_phase = GcIdle | GcMark | GcEvacuate | GcCompact | GcComplete

record yieldable_gc =
  yg_phase :: gc_phase
  yg_budget :: nat
  yg_processed :: nat
  yg_total :: nat
  yg_mark_bits :: "mark_bits option"
  yg_scan_ptr :: nat
  yg_evac_ptr :: nat
  yg_forward_table :: "nat list"

definition yieldable_new :: yieldable_gc where
  "yieldable_new =
     \<lparr>yg_phase = GcIdle, yg_budget = 0, yg_processed = 0, yg_total = 0, yg_mark_bits = None,
      yg_scan_ptr = 0, yg_evac_ptr = 0, yg_forward_table = []\<rparr>"

definition yg_is_running :: "yieldable_gc \<Rightarrow> bool" where
  "yg_is_running g \<longleftrightarrow> yg_phase g \<noteq> GcIdle \<and> yg_phase g \<noteq> GcComplete"

definition yg_is_complete :: "yieldable_gc \<Rightarrow> bool" where
  "yg_is_complete g \<longleftrightarrow> yg_phase g = GcComplete"

definition yg_start :: "process_heap \<Rightarrow> nat \<Rightarrow> yieldable_gc \<Rightarrow> yieldable_gc" where
  "yg_start h budget g =
     (let used = used_size h in
      if used = 0 then g\<lparr>yg_phase := GcComplete\<rparr>
      else g\<lparr>yg_budget := budget, yg_processed := 0, yg_total := used, yg_scan_ptr := 0,
             yg_evac_ptr := 0, yg_mark_bits := Some (marks_new used),
             yg_forward_table := replicate used 0, yg_phase := GcMark\<rparr>)"

text \<open>Mark the word a term points to.\<close>

definition mark_target :: "beam_term \<Rightarrow> mark_bits \<Rightarrow> mark_bits" where
  "mark_target t m =
     (if is_heap_pointer t then
        (case term_to_heap_addr t of
           Some addr \<Rightarrow> if addr < marks_len m then mark_set addr True m else m
         | None \<Rightarrow> m)
      else m)"

text \<open>The loop over the words of an object; \<open>follow i\<close> says whether word \<open>i\<close> is a term.\<close>

fun mark_words ::
  "u64 list \<Rightarrow> (nat \<Rightarrow> bool) \<Rightarrow> nat \<Rightarrow> nat list \<Rightarrow> mark_bits \<Rightarrow> (unit, mark_bits) outcome" where
  "mark_words from follow ptr [] m = Ok m"
| "mark_words from follow ptr (i # is) m =
     (if ptr + i < marks_len m then
        (let m = mark_set (ptr + i) True m in
         if follow i then
           bind_o (index_o from (ptr + i)) (\<lambda>w. mark_words from follow ptr is (mark_target (Term w) m))
         else mark_words from follow ptr is m)
      else mark_words from follow ptr is m)"

definition mark_cons :: "nat \<Rightarrow> u64 list \<Rightarrow> mark_bits \<Rightarrow> (unit, mark_bits) outcome" where
  "mark_cons ptr from m =
     (if ptr < length from \<and> ptr < marks_len m \<and> extract_sub_tag (from ! ptr) = SubCons then
        (let m = mark_set ptr True m;
             m = (if ptr + 1 < marks_len m then mark_set (ptr + 1) True m else m);
             m = (if ptr + 2 < marks_len m then mark_set (ptr + 2) True m else m)
         in bind_o (index_o from (ptr + 1)) (\<lambda>hd_word.
              let m = mark_target (Term hd_word) m
              in bind_o (index_o from (ptr + 2)) (\<lambda>tl_word. Ok (mark_target (Term tl_word) m))))
      else Ok m)"

text \<open>The other objects: marked if the header has the sub-tag of their kind.\<close>

definition mark_object ::
  "boxed_sub_tag \<Rightarrow> (nat \<Rightarrow> bool) \<Rightarrow> nat \<Rightarrow> u64 list \<Rightarrow> mark_bits \<Rightarrow> (unit, mark_bits) outcome" where
  "mark_object sub follow ptr from m =
     (if ptr < length from \<and> extract_sub_tag (from ! ptr) = sub then
        mark_words from follow ptr [0..<unat (extract_size (from ! ptr))] m
      else Ok m)"

definition mark_term :: "beam_term \<Rightarrow> u64 list \<Rightarrow> mark_bits \<Rightarrow> (unit, mark_bits) outcome" where
  "mark_term t from m =
     (case tag t of
        TagSmallInteger \<Rightarrow> Ok m
      | TagAtom \<Rightarrow> Ok m
      | TagCons \<Rightarrow> mark_cons (unat (to_cons t)) from m
      | TagTuple \<Rightarrow>
          if unat (to_tuple t) < marks_len m
          then mark_object SubTuple (\<lambda>i. i > 0) (unat (to_tuple t)) from m else Ok m
      | TagFloat \<Rightarrow> mark_object SubFloat (\<lambda>_. False) (unat (to_float t)) from m
      | TagBinary \<Rightarrow> mark_object SubBinary (\<lambda>_. False) (unat (to_binary t)) from m
      | TagMap \<Rightarrow> mark_object SubMap (\<lambda>i. i > 0) (unat (to_map t)) from m
      | TagFun \<Rightarrow> mark_object SubFun (\<lambda>i. i \<ge> 4) (unat (to_fun t)) from m)"

text \<open>The loop over the roots: None when the budget of the slice is used up.\<close>

fun mark_roots ::
  "nat \<Rightarrow> u64 list \<Rightarrow> beam_term list \<Rightarrow> nat \<Rightarrow> mark_bits \<Rightarrow> (unit, bool \<times> mark_bits) outcome" where
  "mark_roots budget from [] marked m = Ok (True, m)"
| "mark_roots budget from (t # ts) marked m =
     (if marked \<ge> budget then Ok (False, m)
      else bind_o (mark_term t from m) (\<lambda>m. mark_roots budget from ts (marked + 1) m))"

text \<open>The scan: positions, words processed, and whether the end was reached.\<close>

function scan_marked ::
  "nat \<Rightarrow> nat \<Rightarrow> u64 list \<Rightarrow> nat \<Rightarrow> nat \<Rightarrow> mark_bits \<Rightarrow> (unit, bool \<times> nat \<times> nat \<times> mark_bits) outcome" where
  "scan_marked budget used from scan processed m =
     (if scan < used then
        (if processed \<ge> budget then Ok (False, scan, processed, m)
         else
           bind_o (if mark_get scan m \<and> scan < length from then mark_term (Term (from ! scan)) from m
                   else Ok m)
             (\<lambda>m. scan_marked budget used from (scan + 1) (processed + 1) m))
      else Ok (True, scan, processed, m))"
  by pat_completeness auto

termination
  by (relation "measure (\<lambda>(budget, used, from, scan, processed, m). used - scan)") auto

declare scan_marked.simps [simp del]

definition execute_mark_slice ::
  "beam_term list \<Rightarrow> process_heap \<Rightarrow> yieldable_gc \<Rightarrow> (unit, bool \<times> yieldable_gc) outcome" where
  "execute_mark_slice roots h g =
     (let used = used_size h; from = active_buffer h in
      (case yg_mark_bits g of
         None \<Rightarrow> (if roots \<noteq> [] \<and> yg_budget g = 0 then Ok (False, g) else Panic UnwrapNone)
       | Some m \<Rightarrow>
           bind_o (mark_roots (yg_budget g) from roots 0 m) (\<lambda>(roots_done, m).
             if \<not> roots_done then Ok (False, g\<lparr>yg_mark_bits := Some m\<rparr>)
             else
               bind_o (scan_marked (yg_budget g) used from (yg_scan_ptr g) (yg_processed g) m)
                 (\<lambda>(scan_done, scan, processed, m).
                   let g = g\<lparr>yg_mark_bits := Some m, yg_scan_ptr := scan, yg_processed := processed\<rparr>
                   in if scan_done
                      then Ok (False, g\<lparr>yg_processed := 0, yg_evac_ptr := 0, yg_phase := GcEvacuate\<rparr>)
                      else Ok (False, g)))))"

text \<open>The copy of the live words to the same places of the other space.\<close>

function evac_loop ::
  "nat \<Rightarrow> nat \<Rightarrow> u64 list \<Rightarrow> mark_bits \<Rightarrow> nat \<Rightarrow> nat \<Rightarrow> u64 list \<Rightarrow> nat list
     \<Rightarrow> (unit, bool \<times> nat \<times> nat \<times> u64 list \<times> nat list) outcome" where
  "evac_loop budget used from m evac processed tos fwds =
     (if evac < used then
        (if processed \<ge> budget then Ok (False, evac, processed, tos, fwds)
         else if mark_get evac m \<and> evac < length from \<and> evac < length tos then
           (if evac < length fwds
            then evac_loop budget used from m (evac + 1) (processed + 1)
                   (tos[evac := from ! evac]) (fwds[evac := evac])
            else Panic IndexOutOfBounds)
         else evac_loop budget used from m (evac + 1) (processed + 1) tos fwds)
      else Ok (True, evac, processed, tos, fwds))"
  by pat_completeness auto

termination
  by (relation "measure (\<lambda>(budget, used, from, m, evac, processed, tos, fwds). used - evac)") auto

declare evac_loop.simps [simp del]

definition execute_evacuate_slice ::
  "process_heap \<Rightarrow> yieldable_gc \<Rightarrow> (unit, bool \<times> yieldable_gc \<times> process_heap) outcome" where
  "execute_evacuate_slice h g =
     (case yg_mark_bits g of
        None \<Rightarrow> Panic UnwrapNone
      | Some m \<Rightarrow>
          bind_o (evac_loop (yg_budget g) (used_size h) (active_buffer h) m (yg_evac_ptr g)
                    (yg_processed g) (inactive_buffer h) (yg_forward_table g))
            (\<lambda>(evac_done, evac, processed, tos, fwds).
              let g = g\<lparr>yg_evac_ptr := evac, yg_processed := processed, yg_forward_table := fwds\<rparr>;
                  h = set_inactive_buffer tos h
              in if evac_done then Ok (False, g\<lparr>yg_processed := 0, yg_phase := GcCompact\<rparr>, h)
                 else Ok (False, g, h)))"

definition execute_compact_slice ::
  "process_heap \<Rightarrow> yieldable_gc \<Rightarrow> (unit, bool \<times> yieldable_gc \<times> process_heap) outcome" where
  "execute_compact_slice h g =
     (case yg_mark_bits g of
        None \<Rightarrow> Panic UnwrapNone
      | Some m \<Rightarrow>
          (let new_hp = length (filter (\<lambda>i. mark_get i m) [0..<used_size h])
           in Ok (True, g\<lparr>yg_phase := GcComplete\<rparr>, h\<lparr>hp := new_hp\<rparr>)))"

definition execute_slice ::
  "beam_term list \<Rightarrow> process_heap \<Rightarrow> yieldable_gc \<Rightarrow> (unit, bool \<times> yieldable_gc \<times> process_heap) outcome"
  where
  "execute_slice roots h g =
     (case yg_phase g of
        GcIdle \<Rightarrow> Ok (True, g, h)
      | GcComplete \<Rightarrow> Ok (True, g, h)
      | GcMark \<Rightarrow> bind_o (execute_mark_slice roots h g) (\<lambda>(b, g). Ok (b, g, h))
      | GcEvacuate \<Rightarrow> execute_evacuate_slice h g
      | GcCompact \<Rightarrow> execute_compact_slice h g)"

definition yg_reset :: "yieldable_gc \<Rightarrow> yieldable_gc" where
  "yg_reset g =
     g\<lparr>yg_phase := GcIdle, yg_budget := 0, yg_processed := 0, yg_total := 0, yg_mark_bits := None,
       yg_scan_ptr := 0, yg_evac_ptr := 0, yg_forward_table := []\<rparr>"

end
