(* ===== verification/Yield_Laws.thy ===== *)
theory Yield_Laws
  imports Yield_Gc
begin

text \<open>
  What the slices of the yieldable collector achieve: when a collection finishes, and what it
  leaves of the heap.
\<close>

section \<open>Marking\<close>

lemma marks_len_simps [simp]:
  "marks_len (mark_set i v m) = marks_len m" "marks_len (marks_new n) = n"
  by (simp_all add: marks_len_def mark_set_def marks_new_def)

lemma marks_len_target [simp]: "marks_len (mark_target t m) = marks_len m"
  by (auto simp: mark_target_def split: option.split)

lemma mark_get_new [simp]: "mark_get i (marks_new n) = False"
  by (simp add: mark_get_def marks_new_def)

lemma mark_get_bound: "mark_get i m \<Longrightarrow> i < marks_len m"
  by (auto simp: mark_get_def marks_len_def split: if_splits)

lemma mark_words_Ok:
  "marks_len m \<le> length from \<Longrightarrow>
   \<exists>m'. mark_words from follow ptr is m = Ok m' \<and> marks_len m' = marks_len m"
proof (induction "is" arbitrary: m)
  case (Cons i "is")
  then have f: "marks_len (mark_set (ptr + i) True m) \<le> length from" by simp
  from Cons.IH [of "mark_set (ptr + i) True m"] Cons.IH [of m]
    Cons.IH [of "mark_target (Term (from ! (ptr + i))) (mark_set (ptr + i) True m)"] Cons.prems
  show ?case by (auto simp: Let_def)
qed simp

text \<open>Marking a term does not panic when two words follow the marked part of the buffer.\<close>

lemma mark_term_Ok:
  assumes "marks_len m + 2 \<le> length from"
  shows "\<exists>m'. mark_term t from m = Ok m' \<and> marks_len m' = marks_len m"
proof -
  have obj: "\<exists>m'. mark_object sub follow ptr from m = Ok m' \<and> marks_len m' = marks_len m" for sub follow ptr
    using mark_words_Ok [of m "from"] assms by (auto simp: mark_object_def)
  have cons: "\<exists>m'. mark_cons ptr from m = Ok m' \<and> marks_len m' = marks_len m" for ptr
    using assms by (auto simp: mark_cons_def Let_def)
  show ?thesis using obj cons by (cases "tag t") (auto simp: mark_term_def)
qed

lemma mark_roots_Ok:
  assumes "marks_len m + 2 \<le> length from"
  shows "\<exists>m'. mark_roots budget from ts k m = Ok (ts = [] \<or> k + length ts \<le> budget, m')
    \<and> marks_len m' = marks_len m"
  using assms
proof (induction ts arbitrary: k m)
  case (Cons t ts)
  show ?case
  proof (cases "budget \<le> k")
    case False
    obtain m1 where m1: "mark_term t from m = Ok m1" "marks_len m1 = marks_len m"
      using mark_term_Ok [OF Cons.prems] by blast
    obtain m2 where "mark_roots budget from ts (k + 1) m1 = Ok (ts = [] \<or> k + 1 + length ts \<le> budget, m2)"
      "marks_len m2 = marks_len m1"
      using Cons.IH [of m1 "k + 1"] Cons.prems m1 by auto
    then show ?thesis using False m1 by auto
  qed simp
qed simp

lemma scan_marked_Ok:
  assumes "marks_len m + 2 \<le> length from" "p \<le> used" "p \<le> budget"
  shows "\<exists>m'. scan_marked budget used from p p m = Ok (used \<le> budget, min used budget, min used budget, m')
    \<and> marks_len m' = marks_len m"
  using assms
proof (induction "used - p" arbitrary: p m)
  case 0
  then show ?case by (subst scan_marked.simps) auto
next
  case (Suc k)
  show ?case
  proof (cases "p < budget")
    case True
    obtain m1 where m1: "(if mark_get p m \<and> p < length from then mark_term (Term (from ! p)) from m else Ok m)
        = Ok m1" "marks_len m1 = marks_len m"
      using mark_term_Ok [OF Suc.prems(1), of "Term (from ! p)"]
      by (cases "mark_get p m \<and> p < length from") auto
    have "\<exists>m'. scan_marked budget used from (p + 1) (p + 1) m1
        = Ok (used \<le> budget, min used budget, min used budget, m') \<and> marks_len m' = marks_len m1"
      using Suc True m1(2) by (intro Suc.hyps(1)) auto
    then show ?thesis using True Suc.hyps(2) m1 by (subst scan_marked.simps) auto
  next
    case False
    then show ?thesis using Suc by (subst scan_marked.simps) auto
  qed
qed

lemma evac_loop_Ok:
  assumes "used \<le> budget" "p \<le> used" "marks_len m \<le> length fwds"
  shows "\<exists>tos' fwds'. evac_loop budget used from m p p tos fwds = Ok (True, used, used, tos', fwds')
    \<and> length tos' = length tos"
  using assms
proof (induction "used - p" arbitrary: p tos fwds)
  case 0
  then show ?case by (subst evac_loop.simps) auto
next
  case (Suc k)
  have "k = used - (p + 1)" "p + 1 \<le> used" using Suc.hyps(2) by auto
  note IH = Suc.hyps(1) [OF this(1) Suc.prems(1) this(2)]
  have "mark_get p m \<Longrightarrow> p < length fwds" using mark_get_bound [of p m] Suc.prems(3) by simp
  then show ?case
    using IH [of fwds tos] IH [of "fwds[p := p]" "tos[p := from ! p]"] Suc.hyps(2) Suc.prems
    by (subst evac_loop.simps) auto
qed

section \<open>Runs of slices\<close>

fun run_slices ::
  "beam_term list list \<Rightarrow> process_heap \<Rightarrow> yieldable_gc \<Rightarrow> (unit, yieldable_gc \<times> process_heap) outcome"
  where
  "run_slices [] h g = Ok (g, h)"
| "run_slices (rs # rss) h g =
     bind_o (execute_slice rs h g) (\<lambda>(_, g, h). run_slices rss h g)"

text \<open>A machine in the mark phase, at a position within its budget.\<close>

definition marking :: "process_heap \<Rightarrow> yieldable_gc \<Rightarrow> bool" where
  "marking h g \<longleftrightarrow> yg_phase g = GcMark \<and> yg_scan_ptr g = yg_processed g \<and> yg_processed g \<le> yg_budget g
     \<and> yg_processed g \<le> hp h \<and> (\<exists>m. yg_mark_bits g = Some m \<and> marks_len m = hp h)
     \<and> length (yg_forward_table g) = hp h"

lemma marking_start: "0 < hp h \<Longrightarrow> marking h (yg_start h budget g)"
  by (simp add: marking_def yg_start_def used_size_def Let_def)

lemma mark_slice:
  assumes "marking h g" "hp h + 2 \<le> length (active_buffer h)"
  shows "\<exists>g'. execute_slice rs h g = Ok (False, g', h) \<and> yg_budget g' = yg_budget g \<and>
    (if (rs = [] \<or> length rs \<le> yg_budget g) \<and> hp h \<le> yg_budget g
     then yg_phase g' = GcEvacuate \<and> yg_processed g' = 0 \<and> yg_evac_ptr g' = 0
       \<and> (\<exists>m. yg_mark_bits g' = Some m \<and> marks_len m = hp h) \<and> length (yg_forward_table g') = hp h
     else marking h g')"
proof -
  obtain m where m: "yg_mark_bits g = Some m" "marks_len m = hp h" using assms(1) by (auto simp: marking_def)
  obtain m1 where m1: "mark_roots (yg_budget g) (active_buffer h) rs 0 m
      = Ok (rs = [] \<or> length rs \<le> yg_budget g, m1)" "marks_len m1 = hp h"
    using mark_roots_Ok [of m "active_buffer h" "yg_budget g" rs 0] m assms(2) by auto
  obtain m2 where m2: "scan_marked (yg_budget g) (hp h) (active_buffer h) (yg_processed g) (yg_processed g) m1
      = Ok (hp h \<le> yg_budget g, min (hp h) (yg_budget g), min (hp h) (yg_budget g), m2)"
    "marks_len m2 = hp h"
    using scan_marked_Ok [of m1 "active_buffer h" "yg_processed g" "hp h" "yg_budget g"] m1(2) assms
    by (auto simp: marking_def)
  show ?thesis using assms(1) m m1 m2
    by (auto simp: execute_slice_def execute_mark_slice_def marking_def used_size_def Let_def)
qed


lemma compact_after_evac:
  assumes g: "yg_phase g = GcEvacuate" "yg_processed g = 0" "yg_evac_ptr g = 0"
    "yg_mark_bits g = Some m" "marks_len m = hp h" "length (yg_forward_table g) = hp h"
    "hp h \<le> yg_budget g"
  shows "\<exists>g' h'. run_slices [rs2, rs3] h g = Ok (g', h') \<and> yg_phase g' = GcComplete
    \<and> active_buffer h' = active_buffer h \<and> in_to_space h' = in_to_space h \<and> hend h' = hend h
    \<and> hp h' = length (filter (\<lambda>i. mark_get i m) [0..<hp h])"
proof -
  obtain tos fwds where e: "evac_loop (yg_budget g) (hp h) (active_buffer h) m 0 0 (inactive_buffer h)
      (yg_forward_table g) = Ok (True, hp h, hp h, tos, fwds)"
    using evac_loop_Ok [of "hp h" "yg_budget g" 0 m "yg_forward_table g" "active_buffer h"
        "inactive_buffer h"] g by auto
  have b: "active_buffer (set_inactive_buffer tos h) = active_buffer h"
    "hp (set_inactive_buffer tos h) = hp h" "in_to_space (set_inactive_buffer tos h) = in_to_space h"
    "hend (set_inactive_buffer tos h) = hend h"
    "\<And>n x. active_buffer (x\<lparr>hp := n\<rparr>) = active_buffer x"
    by (simp_all add: active_buffer_def set_inactive_buffer_def)
  show ?thesis using g e b
    by (simp add: execute_slice_def execute_evacuate_slice_def execute_compact_slice_def
        used_size_def Let_def)
qed

lemma marking_stuck:
  assumes "marking h g" "hp h + 2 \<le> length (active_buffer h)"
    "yg_budget g < hp h \<or> (\<forall>rs\<in>set rss. yg_budget g < length rs)"
  shows "\<exists>g'. run_slices rss h g = Ok (g', h) \<and> yg_phase g' = GcMark"
  using assms(1,3)
proof (induction rss arbitrary: g)
  case Nil
  then show ?case by (simp add: marking_def)
next
  case (Cons rs rss)
  have "\<not> ((rs = [] \<or> length rs \<le> yg_budget g) \<and> hp h \<le> yg_budget g)"
    using Cons.prems(2) by auto
  then obtain g1 where "execute_slice rs h g = Ok (False, g1, h)" "marking h g1" "yg_budget g1 = yg_budget g"
    using mark_slice [OF Cons.prems(1) assms(2), of rs] by metis
  then show ?case using Cons.IH [of g1] Cons.prems(2) by auto
qed

section \<open>What is marked\<close>

text \<open>An object whose header has another sub-tag marks nothing.\<close>

lemma mark_wrong_sub_tag:
  "extract_sub_tag (from ! ptr) \<noteq> sub \<Longrightarrow> mark_object sub follow ptr from m = Ok m"
  by (simp add: mark_object_def)

lemma scan_unmarked:
  assumes "\<And>i. \<not> mark_get i m" "p \<le> used" "used \<le> budget"
  shows "scan_marked budget used from p p m = Ok (True, used, used, m)"
  using assms(2)
proof (induction "used - p" arbitrary: p)
  case 0
  then show ?case by (subst scan_marked.simps) auto
next
  case (Suc k)
  have "scan_marked budget used from (p + 1) (p + 1) m = Ok (True, used, used, m)"
    using Suc by (intro Suc.hyps(1)) auto
  then show ?case using Suc assms(1,3) by (subst scan_marked.simps) auto
qed

section \<open>Properties\<close>

text \<open>C37. The yieldable collector finishes only if one slice can process the whole heap and all
roots.  With a budget below the number of used words, or below the number of roots of every slice,
any number of slices leaves it in the mark phase and the heap as it was, since the count of processed words is not reset between slices; with enough budget
it is complete after three slices, having moved nothing.\<close>
theorem yieldable_gc_finishes_iff:
  assumes "0 < hp h" "hp h + 2 \<le> length (active_buffer h)"
  shows
    "((budget < hp h \<or> (\<forall>rs\<in>set rss. budget < length rs))
        \<longrightarrow> (\<exists>g'. run_slices rss h (yg_start h budget g) = Ok (g', h) \<and> yg_phase g' = GcMark))
    \<and> ((hp h \<le> budget) \<and> (length rs1 \<le> budget)
        \<longrightarrow> (\<exists>g' h'. run_slices [rs1, rs2, rs3] h (yg_start h budget g) = Ok (g', h')
        \<and> yg_phase g' = GcComplete \<and> active_buffer h' = active_buffer h
        \<and> in_to_space h' = in_to_space h \<and> hp h' \<le> hp h))"
proof -
  let ?g = "yg_start h budget g"
  have b: "yg_budget ?g = budget" using assms(1) by (simp add: yg_start_def used_size_def Let_def)
  note st = marking_start [OF assms(1), of budget g]
  have part1: "\<exists>g'. run_slices rss h ?g = Ok (g', h) \<and> yg_phase g' = GcMark"
    if "budget < hp h \<or> (\<forall>rs\<in>set rss. budget < length rs)"
    using marking_stuck [OF st assms(2)] that b by simp
  have part2: "\<exists>g' h'. run_slices [rs1, rs2, rs3] h ?g = Ok (g', h')
        \<and> yg_phase g' = GcComplete \<and> active_buffer h' = active_buffer h
        \<and> in_to_space h' = in_to_space h \<and> hp h' \<le> hp h"
    if c: "hp h \<le> budget" "length rs1 \<le> budget"
  proof -
    obtain g1 m where g1: "execute_slice rs1 h ?g = Ok (False, g1, h)" "yg_budget g1 = budget"
      "yg_phase g1 = GcEvacuate" "yg_processed g1 = 0" "yg_evac_ptr g1 = 0"
      "yg_mark_bits g1 = Some m" "marks_len m = hp h" "length (yg_forward_table g1) = hp h"
      using mark_slice [OF st assms(2), of rs1] c b by auto
    have "length (filter (\<lambda>i. mark_get i m) [0..<hp h]) \<le> hp h"
      using length_filter_le [of _ "[0..<hp h]"] by simp
    then show ?thesis
      using compact_after_evac [OF g1(3-8), of rs2 rs3] g1(1,2) c(1) by auto
  qed
  show ?thesis using part1 part2 by blast
qed

text \<open>A completed collection loses tuples: the only root is a tuple the heap has just built, and
since no header the heap writes has the tuple sub-tag nothing is marked, the heap pointer becomes
zero and the next allocation gets the place of the tuple.\<close>
theorem yieldable_gc_loses_tuple:
  assumes "make_tuple es h0 = (Some p, h)" "heap_ok h0" "length es < 2 ^ 32" "hend h0 < 2 ^ 61"
    and "hp h + 2 \<le> hend h" "hp h \<le> budget"
  shows "\<exists>g' h'. run_slices [[from_tuple (of_nat p)], rs2, rs3] h (yg_start h budget g) = Ok (g', h')
      \<and> yg_phase g' = GcComplete \<and> hp h' = 0 \<and> fst (alloc (1 + length es) h') = Some 0"
proof -
  let ?g = "yg_start h budget g" and ?t = "from_tuple (of_nat p)"
  have bt: "built h0 (tuple_words es) (1 + length es) p h"
    by (rule make_tuple_built [OF assms(1-3)])
  have ok: "heap_ok h" "p < hp h" "hp h = p + 1 + length es" "hend h = hend h0"
    using bt by (auto simp: built_def)
  have len: "length (active_buffer h) = hend h" using ok(1) by simp
  have p: "unat (to_tuple ?t) = p"
    using ok assms(4,5) by (subst to_from_ptr_id) (simp_all add: unat_of_nat)
  have "word_or_0 p h = hd (tuple_words es)" using built_0 bt by (simp add: tuple_words_def)
  moreover have "word_or_0 p h = active_buffer h ! p"
    using ok assms(5) len by (simp add: word_or_0_def get_word_def)
  ultimately have "extract_sub_tag (active_buffer h ! p) = SubCons"
    by (simp add: tuple_words_def unshifted_sub_tag)
  then have mt: "mark_term ?t (active_buffer h) m = Ok m" for m
    using p by (simp add: mark_term_def mark_wrong_sub_tag)
  let ?m = "marks_new (hp h)"
  have sc: "scan_marked budget (hp h) (active_buffer h) 0 0 ?m = Ok (True, hp h, hp h, ?m)"
    by (rule scan_unmarked) (use assms(6) in auto)
  define g1 where "g1 = ?g\<lparr>yg_mark_bits := Some ?m, yg_scan_ptr := hp h, yg_processed := 0,
    yg_evac_ptr := 0, yg_phase := GcEvacuate\<rparr>"
  have s1: "execute_slice [?t] h ?g = Ok (False, g1, h)"
    using ok(2) assms(6) mt sc
    by (simp add: execute_slice_def execute_mark_slice_def yg_start_def used_size_def g1_def Let_def)
  have g1: "yg_phase g1 = GcEvacuate" "yg_processed g1 = 0" "yg_evac_ptr g1 = 0"
    "yg_mark_bits g1 = Some ?m" "marks_len ?m = hp h" "length (yg_forward_table g1) = hp h"
    "hp h \<le> yg_budget g1"
    using ok(2) assms(6) by (simp_all add: g1_def yg_start_def used_size_def Let_def)
  obtain g' h' where "run_slices [rs2, rs3] h g1 = Ok (g', h')" "yg_phase g' = GcComplete"
    "hend h' = hend h" "hp h' = 0"
    using compact_after_evac [OF g1, of rs2 rs3] by auto
  then show ?thesis using s1 ok assms(5) by (auto simp: alloc_def)
qed

theorem yieldable_gc_finishes_iff_witness:
  "\<exists>g'. run_slices [[], [], []] ((heap_new heap_config_default)\<lparr>hp := 5\<rparr>)
     (yg_start ((heap_new heap_config_default)\<lparr>hp := 5\<rparr>) 4 yieldable_new)
       = Ok (g', (heap_new heap_config_default)\<lparr>hp := 5\<rparr>) \<and> yg_phase g' = GcMark"
  using yieldable_gc_finishes_iff [of "(heap_new heap_config_default)\<lparr>hp := 5\<rparr>" 4 "[[], [], []]"]
  by (simp add: heap_new_def heap_config_default_def active_buffer_def)

theorem yieldable_gc_loses_tuple_witness:
  "\<exists>g' h'. run_slices [[from_tuple 0], [], []] (snd (make_tuple [nil] (heap_new heap_config_default)))
       (yg_start (snd (make_tuple [nil] (heap_new heap_config_default))) 100 yieldable_new) = Ok (g', h')
     \<and> hp h' = 0"
proof -
  let ?h0 = "heap_new heap_config_default"
  have n: "hp ?h0 = 0" "hend ?h0 = 1024" by (simp_all add: heap_new_def heap_config_default_def)
  have "fst (make_tuple [nil] ?h0) = Some 0"
    by (simp add: make_tuple_def alloc_tuple_def alloc_def n)
  then have m: "make_tuple [nil] ?h0 = (Some 0, snd (make_tuple [nil] ?h0))" by (simp add: prod_eq_iff)
  have "built ?h0 (tuple_words [nil]) (1 + length [nil]) 0 (snd (make_tuple [nil] ?h0))"
    by (rule make_tuple_built [OF m heap_new_ok]) simp
  then have "hp (snd (make_tuple [nil] ?h0)) = 2" "hend (snd (make_tuple [nil] ?h0)) = 1024"
    using n by (auto simp: built_def)
  then show ?thesis
    using yieldable_gc_loses_tuple [OF m heap_new_ok, of 100 "[]" "[]" yieldable_new] n by auto
qed

end
