(* ===== verification/Text_Util.thy ===== *)
theory Text_Util
  imports Prelude
begin

text \<open>
  Operations of Rust strings that several components use: trimming, splitting, slicing, and the
  decimal numerals that \<^verbatim>\<open>format!\<close> writes and \<^verbatim>\<open>parse::<u32>()\<close> reads.  Texts are ASCII: a
  character is one byte, so that byte offsets are indices.
\<close>

definition is_space :: "char \<Rightarrow> bool" where
  "is_space c \<longleftrightarrow> c = CHR '' '' \<or> c \<in> {CHR 0x09, CHR 0x0A, CHR 0x0B, CHR 0x0C, CHR 0x0D}"

definition trim_end_matches :: "(char \<Rightarrow> bool) \<Rightarrow> string \<Rightarrow> string" where
  "trim_end_matches P s = rev (dropWhile P (rev s))"

definition trim :: "string \<Rightarrow> string" where
  "trim s = trim_end_matches is_space (dropWhile is_space s)"

definition starts_with :: "string \<Rightarrow> string \<Rightarrow> bool" where
  "starts_with p s \<longleftrightarrow> take (length p) s = p"

text \<open>\<^verbatim>\<open>&s[a..b]\<close>.\<close>

definition slice :: "nat \<Rightarrow> nat \<Rightarrow> string \<Rightarrow> ('e, string) outcome" where
  "slice a b s = (if a \<le> b \<and> b \<le> length s then Ok (take (b - a) (drop a s)) else Panic IndexOutOfBounds)"

fun split_at_char :: "char \<Rightarrow> string \<Rightarrow> string list" where
  "split_at_char d [] = [[]]"
| "split_at_char d (c # cs) =
     (if c = d then [] # split_at_char d cs
      else (case split_at_char d cs of p # ps \<Rightarrow> (c # p) # ps | [] \<Rightarrow> [[c]]))"

fun splitn :: "nat \<Rightarrow> char \<Rightarrow> string \<Rightarrow> string list" where
  "splitn 0 d s = []"
| "splitn (Suc 0) d s = [s]"
| "splitn (Suc (Suc n)) d s =
     (if d \<in> set s
      then takeWhile (\<lambda>c. c \<noteq> d) s # splitn (Suc n) d (tl (dropWhile (\<lambda>c. c \<noteq> d) s))
      else [s])"

text \<open>\<^verbatim>\<open>lines()\<close>; a carriage return before the end of the line is left to the trimming that
  follows.\<close>

definition content_lines :: "string \<Rightarrow> string list" where
  "content_lines s =
     (let ls = split_at_char (CHR 0x0A) s in if last ls = [] then butlast ls else ls)"

definition digit_value :: "char \<Rightarrow> nat option" where
  "digit_value c =
     (let n = of_char c :: nat in if 48 \<le> n \<and> n \<le> 57 then Some (n - 48) else None)"

fun digits_value :: "nat \<Rightarrow> nat \<Rightarrow> string \<Rightarrow> nat option" where
  "digits_value bound acc [] = Some acc"
| "digits_value bound acc (c # cs) =
     (case digit_value c of
        Some d \<Rightarrow> if acc * 10 + d < bound then digits_value bound (acc * 10 + d) cs else None
      | None \<Rightarrow> None)"

text \<open>\<^verbatim>\<open>parse\<close> at an unsigned type with the values below the bound.\<close>

definition parse_below :: "nat \<Rightarrow> string \<Rightarrow> nat option" where
  "parse_below bound s =
     (let ds = (if starts_with ''+'' s then tl s else s)
      in if ds = [] then None else digits_value bound 0 ds)"

definition parse_u32 :: "string \<Rightarrow> u32 option" where
  "parse_u32 s = map_option of_nat (parse_below (2 ^ 32) s)"

definition parse_usize :: "string \<Rightarrow> nat option" where
  "parse_usize s = parse_below (2 ^ 64) s"

fun decimal :: "nat \<Rightarrow> string" where
  "decimal n = (if n < 10 then [char_of (48 + n)] else decimal (n div 10) @ [char_of (48 + n mod 10)])"

declare decimal.simps [simp del]

lemma split_at_char_id: "d \<notin> set s \<Longrightarrow> split_at_char d s = [s]"
  by (induction s) auto

lemma split_at_char_append: "d \<notin> set s \<Longrightarrow> split_at_char d (s @ d # t) = s # split_at_char d t"
  by (induction s) auto

lemma splitn_append:
  "d \<notin> set s \<Longrightarrow> splitn (Suc (Suc n)) d (s @ d # t) = s # splitn (Suc n) d t"
proof -
  assume "d \<notin> set s"
  then have "takeWhile (\<lambda>c. c \<noteq> d) (s @ d # t) = s" "dropWhile (\<lambda>c. c \<noteq> d) (s @ d # t) = d # t"
    by (induction s) auto
  then show ?thesis by simp
qed

lemma text_slice_append: "slice (length p) (length p + length s) (p @ s @ q) = Ok s"
  by (simp add: slice_def)

lemma digit_char:
  "k < 10 \<Longrightarrow> digit_value (char_of (48 + k)) = Some k"
  by (simp add: digit_value_def)

lemma digits_value_append:
  "digits_value b acc (s @ t) = (case digits_value b acc s of Some v \<Rightarrow> digits_value b v t | None \<Rightarrow> None)"
  by (induction b acc s rule: digits_value.induct) (auto split: option.split)

lemma digits_value_decimal: "n < b \<Longrightarrow> digits_value b 0 (decimal n) = Some n"
proof (induction n rule: decimal.induct)
  case (1 n)
  show ?case
  proof (cases "n < 10")
    case True
    then show ?thesis using 1 by (subst decimal.simps) (simp add: digit_char)
  next
    case False
    then have "digits_value b 0 (decimal (n div 10)) = Some (n div 10)" using 1 by simp
    then show ?thesis
      using False 1 by (subst decimal.simps)
        (simp add: digits_value_append digit_char mult.commute [of _ 10])
  qed
qed

lemma digits_value_digits:
  "digits_value b acc s = Some v \<Longrightarrow> c \<in> set s \<Longrightarrow> digit_value c \<noteq> None"
  by (induction b acc s rule: digits_value.induct) (auto split: option.splits if_splits)

lemma decimal_digits: "c \<in> set (decimal n) \<Longrightarrow> digit_value c \<noteq> None"
proof (induction n rule: decimal.induct)
  case (1 n)
  show ?case
  proof (cases "n < 10")
    case True
    then show ?thesis using 1(2) by (subst (asm) decimal.simps) (simp add: digit_char)
  next
    case False
    then have "c \<in> set (decimal (n div 10)) \<or> c = char_of (48 + n mod 10)"
      using 1(2) by (subst (asm) decimal.simps) auto
    then show ?thesis using 1(1) [OF False] digit_char [of "n mod 10"] by auto
  qed
qed

lemma decimal_inject: "decimal n = decimal m \<longleftrightarrow> n = m"
  by (metis digits_value_decimal [of n "Suc (max n m)"] digits_value_decimal [of m "Suc (max n m)"]
      option.inject max.cobounded1 max.cobounded2 less_Suc_eq_le)

lemma digit_char_plain:
  fixes k :: nat
  assumes "k < 10"
  shows "char_of (48 + k) \<noteq> CHR ''+'' \<and> \<not> is_space (char_of (48 + k)) \<and> char_of (48 + k) \<noteq> CHR '',''
    \<and> char_of (48 + k) \<noteq> CHR ''}''"
proof -
  have "k \<in> {0, 1, 2, 3, 4, 5, 6, 7, 8, 9}" using assms by auto
  then show ?thesis by (auto simp: is_space_def char_of_def)
qed

lemma decimal_chars:
  "decimal n \<noteq> [] \<and> hd (decimal n) \<noteq> CHR ''+''
   \<and> (\<forall>c\<in>set (decimal n). \<not> is_space c \<and> c \<noteq> CHR '','' \<and> c \<noteq> CHR ''}'')"
proof (induction n rule: decimal.induct)
  case (1 n)
  show ?case
  proof (cases "n < 10")
    case True
    then show ?thesis using digit_char_plain [of n] by (subst (1 2 3) decimal.simps) simp
  next
    case False
    have "n mod 10 < 10" by simp
    from digit_char_plain [OF this] 1 [OF False] False show ?thesis
      by (subst (1 2 3) decimal.simps) (auto simp: hd_append)
  qed
qed

lemma parse_below_decimal: "n < b \<Longrightarrow> parse_below b (decimal n) = Some n"
proof -
  assume n: "n < b"
  have "\<not> starts_with ''+'' (decimal n)"
    using decimal_chars [of n] by (cases "decimal n") (auto simp: starts_with_def)
  then show ?thesis
    using decimal_chars [of n] n by (simp add: parse_below_def digits_value_decimal)
qed

lemma parse_int_decimal: "parse_u32 (decimal (unat (w :: u32))) = Some w"
proof -
  have "unat w < 2 ^ 32" by (rule order_less_le_trans [OF unsigned_less]) simp
  then show ?thesis by (simp add: parse_u32_def parse_below_decimal)
qed

lemma starts_with_append [simp]: "starts_with p (p @ s)"
  by (simp add: starts_with_def)

end
