(* ===== verification/Heap_Verifier.thy ===== *)
theory Heap_Verifier
  imports Heap Text_Util
begin

text \<open>
  The heap verifier (\<^verbatim>\<open>crates/chimera_erlang_beam_heap/src/heap_verifier.rs\<close>).

  The scan steps from header to header by the size the header states.  A header of size zero
  stops it from advancing, so the scan is a partial function: \<open>None\<close> is a run that never
  returns.  The vector of visited marks is resized and cleared, and never read.
\<close>

section \<open>Results\<close>

datatype corruption_type =
    InvalidHeader
  | OutOfBoundsPointer
  | UnalignedPointer
  | ObjectOverflow
  | TagMismatch
  | InvalidConsPointer
  | InvalidTupleElement
  | InvalidForwardingPointer
  | CyclicReference
  | CanaryCorrupted
  | HpOverflow
  | NullPointer

datatype severity = Warning | SevError | Fatal

record heap_issue =
  hi_corruption_type :: corruption_type
  hi_severity :: severity
  hi_location :: nat
  hi_description :: string
  hi_expected :: "u64 option"
  hi_actual :: "u64 option"

definition heap_issue_new :: "corruption_type \<Rightarrow> severity \<Rightarrow> nat \<Rightarrow> string \<Rightarrow> heap_issue" where
  "heap_issue_new t s l d =
     \<lparr>hi_corruption_type = t, hi_severity = s, hi_location = l, hi_description = d,
      hi_expected = None, hi_actual = None\<rparr>"

definition with_values :: "u64 \<Rightarrow> u64 \<Rightarrow> heap_issue \<Rightarrow> heap_issue" where
  "with_values e a i = i\<lparr>hi_expected := Some e, hi_actual := Some a\<rparr>"

record verification_result =
  vr_is_valid :: bool
  vr_issues :: "heap_issue list"
  vr_words_scanned :: nat
  vr_objects_scanned :: nat

definition verification_result_default :: verification_result where
  "verification_result_default =
     \<lparr>vr_is_valid = True, vr_issues = [], vr_words_scanned = 0, vr_objects_scanned = 0\<rparr>"

definition add_issue :: "heap_issue \<Rightarrow> verification_result \<Rightarrow> verification_result" where
  "add_issue i r = r\<lparr>vr_is_valid := False, vr_issues := vr_issues r @ [i]\<rparr>"

definition passed :: "verification_result \<Rightarrow> bool" where
  "passed r \<longleftrightarrow> vr_is_valid r \<and> vr_issues r = []"

definition issue_count :: "verification_result \<Rightarrow> nat" where
  "issue_count r = length (vr_issues r)"

section \<open>Configuration\<close>

definition HEAP_CANARY_VALUE :: u64 where "HEAP_CANARY_VALUE = 0xDEADBEEFDEADBEEF"
definition CANARY_SIZE_WORDS :: nat where "CANARY_SIZE_WORDS = 2"

datatype canary_mode = CanaryDisabled | CanaryLight | CanaryFull

record verifier_config =
  vc_canary_mode :: canary_mode
  vc_check_pointers :: bool
  vc_check_cycles :: bool
  vc_max_scan_objects :: nat
  vc_fail_fast :: bool

definition verifier_config_default :: verifier_config where
  "verifier_config_default = \<lparr>vc_canary_mode = CanaryDisabled, vc_check_pointers = True,
     vc_check_cycles = False, vc_max_scan_objects = 0, vc_fail_fast = False\<rparr>"

record heap_verifier =
  hv_config :: verifier_config
  hv_visited :: "bool list"

definition verifier_new :: heap_verifier where
  "verifier_new = \<lparr>hv_config = verifier_config_default, hv_visited = []\<rparr>"

definition verifier_with_config :: "verifier_config \<Rightarrow> heap_verifier" where
  "verifier_with_config c = \<lparr>hv_config = c, hv_visited = []\<rparr>"

definition reset_visited :: "heap_verifier \<Rightarrow> heap_verifier" where
  "reset_visited v = v\<lparr>hv_visited := map (\<lambda>_. False) (hv_visited v)\<rparr>"

section \<open>Texts\<close>

text \<open>\<^verbatim>\<open>{:016x}\<close>.\<close>

definition hex_digit :: "u64 \<Rightarrow> char" where
  "hex_digit w = (if w < 10 then char_of (48 + unat w) else char_of (87 + unat w))"

definition hex16 :: "u64 \<Rightarrow> string" where
  "hex16 w = map (\<lambda>i. hex_digit (drop_bit (4 * i) w AND 15)) (rev [0..<16])"

section \<open>Objects\<close>

definition verify_cons :: "verifier_config \<Rightarrow> u64 list \<Rightarrow> nat \<Rightarrow> heap_issue option" where
  "verify_cons c buf off =
     (if off + 2 \<ge> length buf
      then Some (heap_issue_new ObjectOverflow Fatal off ''Cons cell header overflows heap'')
      else
        let head_ptr = buf ! (off + 1); tail_ptr = buf ! (off + 2)
        in if vc_check_pointers c \<and> (extract_tag head_ptr = TagCons \<or> extract_tag head_ptr = TagTuple)
              \<and> unat head_ptr \<ge> length buf
           then Some (heap_issue_new OutOfBoundsPointer SevError (off + 1)
                  (''Cons head pointer '' @ decimal (unat head_ptr) @ '' out of bounds''))
           else if vc_check_pointers c \<and> extract_tag tail_ptr = TagCons \<and> unat tail_ptr \<ge> length buf
           then Some (heap_issue_new OutOfBoundsPointer SevError (off + 2)
                  (''Cons tail pointer '' @ decimal (unat tail_ptr) @ '' out of bounds''))
           else None)"

definition verify_tuple :: "verifier_config \<Rightarrow> u64 list \<Rightarrow> nat \<Rightarrow> heap_issue option" where
  "verify_tuple c buf off =
     (let n = unat (extract_size (buf ! off))
      in if off + n > length buf
         then Some (heap_issue_new ObjectOverflow Fatal off
                     (''Tuple size '' @ decimal n @ '' overflows heap at offset '' @ decimal off))
         else if vc_check_pointers c then
           map_option (\<lambda>i. heap_issue_new OutOfBoundsPointer SevError (off + i)
               (''Tuple element '' @ decimal (unat (buf ! (off + i))) @ '' pointer out of bounds''))
             (List.find (\<lambda>i. (extract_tag (buf ! (off + i)) = TagCons \<or> extract_tag (buf ! (off + i)) = TagTuple)
                \<and> unat (buf ! (off + i)) \<ge> length buf) [1..<n])
         else None)"

definition verify_binary :: "u64 list \<Rightarrow> nat \<Rightarrow> heap_issue option" where
  "verify_binary buf off =
     (let n = unat (extract_size (buf ! off))
      in if off + n > length buf
         then Some (heap_issue_new ObjectOverflow Fatal off
                     (''Binary size '' @ decimal n @ '' overflows heap at offset '' @ decimal off))
         else None)"

text \<open>The subtraction \<open>hp - 8\<close> of the light mode is on a \<^verbatim>\<open>usize\<close>: it wraps below eight used
  words.\<close>

definition check_canary_at ::
  "verifier_config \<Rightarrow> process_heap \<Rightarrow> nat \<Rightarrow> (unit, heap_issue option) outcome" where
  "check_canary_at c h off =
     (let buf = active_buffer h;
          limit = (if CANARY_SIZE_WORDS * 4 \<le> hp h then hp h - CANARY_SIZE_WORDS * 4
                   else hp h + 2 ^ 64 - CANARY_SIZE_WORDS * 4)
      in if vc_canary_mode c = CanaryLight \<and> off < limit then Ok None
         else if off \<ge> CANARY_SIZE_WORDS then
           bind_o (index_o buf (off - CANARY_SIZE_WORDS)) (\<lambda>prev.
             if prev = HEAP_CANARY_VALUE then
               Ok (map_option (\<lambda>i. heap_issue_new CanaryCorrupted Fatal (off + i)
                   (''Canary corruption at offset '' @ decimal (off + i) @ '', expected ''
                    @ hex16 HEAP_CANARY_VALUE @ '', got '' @ hex16 (buf ! (off + i))))
                 (List.find (\<lambda>i. off + i < length buf \<and> buf ! (off + i) \<noteq> HEAP_CANARY_VALUE)
                   [0..<CANARY_SIZE_WORDS]))
             else Ok None)
         else Ok None)"

text \<open>The check of the object at an offset and the distance to the next one, by the tag of the
  word there.\<close>

definition object_issue :: "verifier_config \<Rightarrow> u64 list \<Rightarrow> nat \<Rightarrow> heap_issue option" where
  "object_issue c buf off =
     (case extract_tag (buf ! off) of
        TagCons \<Rightarrow> verify_cons c buf off
      | TagTuple \<Rightarrow> verify_tuple c buf off
      | TagBinary \<Rightarrow> verify_binary buf off
      | _ \<Rightarrow> None)"

definition object_words :: "u64 list \<Rightarrow> nat \<Rightarrow> nat" where
  "object_words buf off =
     (case extract_tag (buf ! off) of
        TagSmallInteger \<Rightarrow> 1
      | TagAtom \<Rightarrow> 1
      | TagCons \<Rightarrow> 3
      | TagFloat \<Rightarrow> 3
      | _ \<Rightarrow> unat (extract_size (buf ! off)))"

section \<open>The scan\<close>

text \<open>One iteration: \<open>Inl\<close> leaves the loop, with whether the function returns at once.\<close>

definition scan_step ::
  "verifier_config \<Rightarrow> process_heap \<Rightarrow> nat \<Rightarrow> verification_result \<Rightarrow>
   (unit, (bool \<times> verification_result) + (nat \<times> verification_result)) outcome" where
  "scan_step c h off r =
     (let buf = active_buffer h;
          r = r\<lparr>vr_words_scanned := vr_words_scanned r + 1\<rparr>
      in bind_o (if vc_canary_mode c \<noteq> CanaryDisabled then check_canary_at c h off else Ok None) (\<lambda>canary.
         let r = (case canary of Some i \<Rightarrow> add_issue i r | None \<Rightarrow> r)
         in if canary \<noteq> None \<and> vc_fail_fast c then Ok (Inl (True, r))
            else bind_o (index_o buf off) (\<lambda>word.
              let issue = object_issue c buf off;
                  r = (case issue of Some i \<Rightarrow> add_issue i r | None \<Rightarrow> r)
              in if issue \<noteq> None \<and> vc_fail_fast c then Ok (Inl (True, r))
                 else
                   let r = r\<lparr>vr_objects_scanned := vr_objects_scanned r + 1\<rparr>
                   in if vc_max_scan_objects c > 0 \<and> vr_objects_scanned r \<ge> vc_max_scan_objects c
                      then Ok (Inl (False, r))
                      else Ok (Inr (off + object_words buf off, r)))))"

partial_function (option) verify_loop ::
  "verifier_config \<Rightarrow> process_heap \<Rightarrow> nat \<Rightarrow> verification_result \<Rightarrow>
   (unit, bool \<times> verification_result) outcome option" where
  "verify_loop c h off r =
     (if off < hp h then
        (case scan_step c h off r of
           Ok (Inl x) \<Rightarrow> Some (Ok x)
         | Ok (Inr (off', r')) \<Rightarrow> verify_loop c h off' r'
         | Err e \<Rightarrow> Some (Err e)
         | Panic p \<Rightarrow> Some (Panic p)
         | OutOfFuel \<Rightarrow> Some OutOfFuel)
      else Some (Ok (False, r)))"

definition check_hp :: "process_heap \<Rightarrow> bool \<times> verification_result \<Rightarrow> verification_result" where
  "check_hp h x =
     (if fst x then snd x
      else if hp h > hend h then 
        add_issue (heap_issue_new HpOverflow Fatal (hp h)
          (''Heap pointer '' @ decimal (hp h) @ '' exceeds heap end '' @ decimal (hend h))) (snd x)
      else snd x)"

definition verify ::
  "process_heap \<Rightarrow> heap_verifier \<Rightarrow> ((unit, verification_result) outcome \<times> heap_verifier) option" where
  "verify h v =
     (let n = length (active_buffer h);
          v = (if length (hv_visited v) < n
               then v\<lparr>hv_visited := hv_visited v @ replicate (n - length (hv_visited v)) False\<rparr> else v)
      in map_option (\<lambda>o'. (bind_o o' (\<lambda>x. Ok (check_hp h x)), v))
           (verify_loop (hv_config v) h 0 verification_result_default))"

section \<open>Roots\<close>

definition verify_root_pointer :: "process_heap \<Rightarrow> beam_term \<Rightarrow> heap_issue option" where
  "verify_root_pointer h t =
     (case tag t of
        TagCons \<Rightarrow> (if unat (to_cons t) \<ge> length (active_buffer h)
                    then Some (heap_issue_new OutOfBoundsPointer SevError (unat (to_cons t))
                            ''Root cons pointer out of bounds'') else None)
      | TagTuple \<Rightarrow> (if unat (to_tuple t) \<ge> length (active_buffer h)
                    then Some (heap_issue_new OutOfBoundsPointer SevError (unat (to_tuple t))
                            ''Root tuple pointer out of bounds'') else None)
      | _ \<Rightarrow> None)"

fun verify_roots ::
  "verifier_config \<Rightarrow> process_heap \<Rightarrow> beam_term list \<Rightarrow> verification_result \<Rightarrow> verification_result" where
  "verify_roots c h [] r = r"
| "verify_roots c h (t # ts) r =
     (case verify_root_pointer h t of
        None \<Rightarrow> verify_roots c h ts r
      | Some i \<Rightarrow> (if vc_fail_fast c then add_issue i r else verify_roots c h ts (add_issue i r)))"

definition verify_with_roots ::
  "process_heap \<Rightarrow> beam_term list \<Rightarrow> heap_verifier \<Rightarrow>
   ((unit, verification_result) outcome \<times> heap_verifier) option" where
  "verify_with_roots h roots v =
     map_option (\<lambda>(o', v'). (bind_o o' (\<lambda>r. Ok (verify_roots (hv_config v') h roots r)), v')) (verify h v)"

section \<open>The walk over the headers\<close>

definition walk :: "u64 list \<Rightarrow> nat \<Rightarrow> nat" where
  "walk buf n = ((\<lambda>off. off + object_words buf off) ^^ n) 0"

lemma walk_Suc: "walk buf (Suc n) = walk buf n + object_words buf (walk buf n)"
  by (simp add: walk_def)

lemma walk_mono: "n \<le> m \<Longrightarrow> walk buf n \<le> walk buf m"
  by (induction m) (auto simp: walk_Suc le_Suc_eq trans_le_add1 simp flip: walk_def)

definition plain_config :: "verifier_config \<Rightarrow> bool" where
  "plain_config c \<longleftrightarrow> vc_canary_mode c = CanaryDisabled \<and> \<not> vc_fail_fast c \<and> vc_max_scan_objects c = 0"

definition note_object :: "verifier_config \<Rightarrow> u64 list \<Rightarrow> nat \<Rightarrow> verification_result \<Rightarrow> verification_result" where
  "note_object c buf off r =
     (let r = r\<lparr>vr_words_scanned := vr_words_scanned r + 1\<rparr>;
          r = (case object_issue c buf off of Some i \<Rightarrow> add_issue i r | None \<Rightarrow> r)
      in r\<lparr>vr_objects_scanned := vr_objects_scanned r + 1\<rparr>)"

lemma scan_step_plain:
  assumes "plain_config c" "off < length (active_buffer h)"
  shows "scan_step c h off r = Ok (Inr (off + object_words (active_buffer h) off, note_object c (active_buffer h) off r))"
  using assms
  by (cases "object_issue c (active_buffer h) off")
    (simp_all add: plain_config_def scan_step_def note_object_def Let_def)

text \<open>The report on the first \<open>k\<close> objects.\<close>

definition report :: "verifier_config \<Rightarrow> u64 list \<Rightarrow> nat \<Rightarrow> verification_result" where
  "report c buf k =
     (let issues = List.map_filter (object_issue c buf) (map (walk buf) [0..<k])
      in \<lparr>vr_is_valid = (issues = []), vr_issues = issues, vr_words_scanned = k, vr_objects_scanned = k\<rparr>)"

lemma report_0: "report c buf 0 = verification_result_default"
  by (simp add: report_def verification_result_default_def)

lemma report_Suc: "note_object c buf (walk buf k) (report c buf k) = report c buf (Suc k)"
  by (auto simp: note_object_def report_def add_issue_def Let_def List.map_filter_def split: option.split)

lemma verify_loop_step:
  assumes "plain_config c" "hp h \<le> length (active_buffer h)" "walk (active_buffer h) k < hp h"
  shows "verify_loop c h (walk (active_buffer h) k) (report c (active_buffer h) k)
    = verify_loop c h (walk (active_buffer h) (Suc k)) (report c (active_buffer h) (Suc k))"
  by (subst verify_loop.simps)
    (use assms in \<open>simp add: scan_step_plain report_Suc walk_Suc\<close>)

lemma verify_loop_steps:
  assumes "plain_config c" "hp h \<le> length (active_buffer h)"
  shows "(\<forall>n<k. walk (active_buffer h) n < hp h) \<Longrightarrow>
    verify_loop c h 0 verification_result_default = verify_loop c h (walk (active_buffer h) k) (report c (active_buffer h) k)"
proof (induction k)
  case 0
  then show ?case by (simp add: report_0) (simp add: walk_def)
next
  case (Suc k)
  then show ?case using verify_loop_step [OF assms, of k] by simp
qed

text \<open>A scan that stands on a header of size zero never returns.\<close>

lemma verify_loop_stuck:
  assumes "verify_loop c h off r = Some y" "plain_config c" "off < hp h" "hp h \<le> length (active_buffer h)"
  shows "object_words (active_buffer h) off \<noteq> 0"
proof -
  have "plain_config c \<Longrightarrow> off < hp h \<Longrightarrow> hp h \<le> length (active_buffer h) \<Longrightarrow>
      object_words (active_buffer h) off \<noteq> 0"
  proof (induction rule: verify_loop.raw_induct [OF _ assms(1), rotated])
    case (1 loop c h off r y)
    then have s: "scan_step c h off r
        = Ok (Inr (off + object_words (active_buffer h) off, note_object c (active_buffer h) off r))"
      by (intro scan_step_plain) simp_all
    show ?case
    proof
      assume z: "object_words (active_buffer h) off = 0"
      with 1(2-4) s have "loop c h off (note_object c (active_buffer h) off r) = Some y" by simp
      from 1(1) [OF this 1(3-5)] z show False by simp
    qed
  qed
  with assms show ?thesis by blast
qed

lemma walk_passes:
  assumes "\<forall>n. walk buf n < m \<longrightarrow> 0 < object_words buf (walk buf n)"
  shows "\<exists>k. (\<forall>n<k. walk buf n < m) \<and> m \<le> walk buf k"
proof -
  have "\<exists>k. m \<le> walk buf k"
  proof (rule ccontr)
    assume "\<nexists>k. m \<le> walk buf k"
    then have l: "walk buf k < m" for k by (simp add: not_le)
    have "k \<le> walk buf k" for k
    proof (induction k)
      case (Suc k)
      with assms l [of k] show ?case by (auto simp: walk_Suc Suc_le_eq intro: le_less_trans)
    qed simp
    from this [of m] l [of m] show False by simp
  qed
  then have "m \<le> walk buf (LEAST k. m \<le> walk buf k)" by (rule LeastI_ex)
  moreover have "\<forall>n<(LEAST k. m \<le> walk buf k). walk buf n < m"
    using not_less_Least [of _ "\<lambda>k. m \<le> walk buf k"] by (auto simp: not_le)
  ultimately show ?thesis by blast
qed

lemma verify_result:
  assumes "plain_config (hv_config v)" "heap_ok h"
    and "\<forall>n<k. walk (active_buffer h) n < hp h" "hp h \<le> walk (active_buffer h) k"
  shows "\<exists>v'. verify h v = Some (Ok (report (hv_config v) (active_buffer h) k), v') \<and> hv_config v' = hv_config v"
proof -
  have l: "hp h \<le> length (active_buffer h)" "hp h \<le> hend h" using assms(2) by (auto simp: heap_ok_def active_buffer_def)
  have "verify_loop (hv_config v) h 0 verification_result_default
      = Some (Ok (False, report (hv_config v) (active_buffer h) k))"
    using verify_loop_steps [OF assms(1) l(1) assms(3)] assms(4) by (simp add: verify_loop.simps)
  then show ?thesis using l(2) by (simp add: verify_def check_hp_def Let_def)
qed

section \<open>Properties\<close>

text \<open>Without canaries, object limit and fail-fast, the verifier returns exactly when no object
below the heap pointer states the size zero, and its report is then exactly the issues of the
objects met on the walk from header to header, in order; the count of scanned words is the count of
objects.\<close>
theorem verifier_walks_headers:
  assumes "plain_config (hv_config v)" "heap_ok h"
  shows
    "(verify h v = None \<longleftrightarrow>
      (\<exists>n. walk (active_buffer h) n < hp h \<and> object_words (active_buffer h) (walk (active_buffer h) n) = 0))
    \<and> (verify h v = Some (res, v')
        \<longrightarrow> (\<exists>k. (\<forall>n<k. walk (active_buffer h) n < hp h)
      \<and> hp h \<le> walk (active_buffer h) k \<and> res = Ok (report (hv_config v) (active_buffer h) k)))"
proof -
  let ?b = "active_buffer h"
  have l: "hp h \<le> length ?b" using assms(2) by (auto simp: heap_ok_def active_buffer_def)
  have part1: "verify h v = None \<longleftrightarrow> (\<exists>n. walk ?b n < hp h \<and> object_words ?b (walk ?b n) = 0)"
  proof
    assume n: "verify h v = None"
    show "\<exists>n. walk ?b n < hp h \<and> object_words ?b (walk ?b n) = 0"
    proof (rule ccontr)
      assume "\<nexists>n. walk ?b n < hp h \<and> object_words ?b (walk ?b n) = 0"
      then obtain k where "\<forall>n<k. walk ?b n < hp h" "hp h \<le> walk ?b k"
        using walk_passes [of ?b "hp h"] by auto
      from verify_result [OF assms this] n show False by auto
    qed
  next
    assume "\<exists>n. walk ?b n < hp h \<and> object_words ?b (walk ?b n) = 0"
    then obtain n where n: "walk ?b n < hp h" "object_words ?b (walk ?b n) = 0" by blast
    have "\<forall>i<n. walk ?b i < hp h" using n(1) walk_mono [of _ n ?b] by (meson le_less_trans less_imp_le)
    from verify_loop_steps [OF assms(1) l this]
    have "verify_loop (hv_config v) h 0 verification_result_default
        = verify_loop (hv_config v) h (walk ?b n) (report (hv_config v) ?b n)" .
    moreover have "verify_loop (hv_config v) h (walk ?b n) (report (hv_config v) ?b n) = None"
      using verify_loop_stuck [OF _ assms(1) n(1) l] n(2) by (metis option.exhaust)
    ultimately show "verify h v = None" by (simp add: verify_def Let_def)
  qed
  have part2: "\<exists>k. (\<forall>n<k. walk ?b n < hp h) \<and> hp h \<le> walk ?b k \<and> res = Ok (report (hv_config v) ?b k)"
    if r: "verify h v = Some (res, v')"
  proof -
    have "\<not> (\<exists>n. walk ?b n < hp h \<and> object_words ?b (walk ?b n) = 0)" using r part1 by simp
    then obtain k where k: "\<forall>n<k. walk ?b n < hp h" "hp h \<le> walk ?b k"
      using walk_passes [of ?b "hp h"] by auto
    from verify_result [OF assms this] r k show ?thesis by auto
  qed
  show ?thesis using part1 part2 by blast
qed

theorem verifier_walks_headers_witness:
  "verify ((heap_new heap_config_default)\<lparr>from_space := [3, 0], hp := 1, hend := 2, to_space := [0, 0]\<rparr>) verifier_new
     = None"
proof -
  let ?h = "(heap_new heap_config_default)\<lparr>from_space := [3, 0], hp := 1, hend := 2, to_space := [0, 0]\<rparr>"
  have h: "active_buffer ?h = [3, 0]" by (simp add: active_buffer_def heap_new_def)
  have "plain_config (hv_config verifier_new)"
    by (simp add: plain_config_def verifier_new_def verifier_config_default_def)
  moreover have "heap_ok ?h" by (simp add: heap_ok_def heap_new_def)
  moreover have "walk [3, 0] 0 < 1" "object_words [3, 0] (walk [3, 0] 0) = 0"
    by (simp_all add: walk_def object_words_def extract_tag_def extract_size_def)
  ultimately show ?thesis
    using verifier_walks_headers [of verifier_new ?h, THEN conjunct1] h by auto
qed

text \<open>A cons cell whose head is a valid pointer is reported as out of bounds when eight times the
index reaches the size of the heap: the verifier compares the tagged word and not the index with the
number of words.\<close>
theorem verifier_rejects_valid_pointer:
  assumes "make_cons (from_cons i) nil (heap_new cfg) = (Some p, h)"
    and "unat i < initial_size cfg" "initial_size cfg \<le> 8 * unat i" "initial_size cfg < 2 ^ 61"
  shows "\<exists>r v'. verify h verifier_new = Some (Ok r, v')
    \<and> vr_issues r = [heap_issue_new OutOfBoundsPointer SevError (p + 1)
          (''Cons head pointer '' @ decimal (unat (term_raw (from_cons i))) @ '' out of bounds'')]
    \<and> \<not> passed r"
proof -
  let ?b = "active_buffer h"
  let ?d = "''Cons head pointer '' @ decimal (unat (term_raw (from_cons i))) @ '' out of bounds''"
  have bt: "built (heap_new cfg) (cons_words (from_cons i) nil) 3 p h"
    by (rule make_cons_built [OF assms(1) heap_new_ok])
  have p: "p = 0" "hp h = 3" "hend h = initial_size cfg" "heap_ok h"
    using bt by (auto simp: built_def heap_new_def)
  then have len: "length ?b = initial_size cfg" "3 \<le> initial_size cfg" by (auto simp: heap_ok_def)
  have w: "?b ! 0 = cons_words (from_cons i) nil ! 0" "?b ! 1 = term_raw (from_cons i)"
    using bt len p by (auto simp: built_def cons_words_def word_or_0_def get_word_def)
  have "?b ! 0 = 0x302" using w(1) by (simp add: cons_words_def push_bit_eq_mult)
  then have t: "extract_tag (?b ! 0) = TagCons" by (simp add: extract_tag_def)
  have "unat i < 2 ^ 61" using assms(2,4) by simp
  then have "drop_bit 3 (term_raw (from_cons i)) = i"
    using to_from_ptr_id(1) [of i] by (simp add: to_cons_def)
  then have "unat (term_raw (from_cons i)) div 8 = unat i"
    by (metis drop_bit_eq_div power3_eq_cube unat_drop_bit_eq num_double numeral_times_numeral mult.assoc
        numeral_Bit0_eq_double)
  then have "8 * unat i \<le> unat (term_raw (from_cons i))"
    using div_times_less_eq_dividend [of "unat (term_raw (from_cons i))" 8] by simp
  moreover have "extract_tag (?b ! 1) = TagCons" using w(2) by (simp add: extract_tag_eq)
  ultimately have issue: "object_issue verifier_config_default ?b 0 = Some (heap_issue_new OutOfBoundsPointer SevError 1 ?d)"
    using t w(2) len assms(3)
    by (simp add: object_issue_def verify_cons_def verifier_config_default_def Let_def)
  have k: "\<forall>n<1. walk ?b n < hp h" "hp h \<le> walk ?b 1"
    using p(2) t by (simp_all add: walk_def object_words_def)
  have c: "hv_config verifier_new = verifier_config_default" by (simp add: verifier_new_def)
  have pc: "plain_config (hv_config verifier_new)"
    by (simp add: plain_config_def verifier_new_def verifier_config_default_def)
  have "vr_issues (report verifier_config_default ?b 1) = [heap_issue_new OutOfBoundsPointer SevError 1 ?d]"
    using issue by (simp add: report_def List.map_filter_def walk_def)
  then show ?thesis
    using verify_result [OF pc p(4) k] p(1) by (auto simp: c passed_def)
qed

theorem verifier_rejects_valid_pointer_witness:
  "\<exists>r v'. verify (snd (make_cons (from_cons 500) nil (heap_new heap_config_default))) verifier_new = Some (Ok r, v')
     \<and> \<not> passed r"
proof -
  let ?h = "heap_new heap_config_default"
  have "fst (make_cons (from_cons 500) nil ?h) = Some 0"
    by (simp add: make_cons_def alloc_cons_def alloc_def heap_new_def heap_config_default_def)
  then have m: "make_cons (from_cons 500) nil ?h = (Some 0, snd (make_cons (from_cons 500) nil ?h))"
    by (simp add: prod_eq_iff)
  show ?thesis
    using verifier_rejects_valid_pointer [OF m] by (auto simp: heap_config_default_def)
qed

end
