(* ===== verification/Major_Gc.thy ===== *)
theory Major_Gc
  imports Gc Boxed Heap_Verifier
begin

text \<open>
  The mark-compact collection of a process heap (\<^verbatim>\<open>major_gc\<close>, \<^verbatim>\<open>major_gc_impl\<close> and their helpers in
  \<^verbatim>\<open>crates/chimera_erlang_beam_heap/src/lib.rs\<close>).

  The recursive marking is a loop over a stack of tasks, in the order of the recursive calls.  A
  loop that does not advance, and marking that descends for ever outside of the mark bits, is
  \<open>None\<close>.  Whether the environment asks for the verification of the heap is the argument \<open>debug\<close>;
  its report is only printed.
\<close>

section \<open>Sequencing\<close>

fun then_o :: "('e, 'a) outcome option \<Rightarrow> ('a \<Rightarrow> ('e, 'b) outcome option) \<Rightarrow> ('e, 'b) outcome option" where
  "then_o None f = None"
| "then_o (Some (Ok a)) f = f a"
| "then_o (Some (Err e)) f = Some (Err e)"
| "then_o (Some (Panic p)) f = Some (Panic p)"
| "then_o (Some OutOfFuel) f = Some OutOfFuel"

lemma then_o_Ok: "then_o m f = Some (Ok b) \<longleftrightarrow> (\<exists>a. m = Some (Ok a) \<and> f a = Some (Ok b))"
  by (cases "(m, f)" rule: then_o.cases) auto

section \<open>Marking\<close>

datatype mark_task =
    MarkTerm beam_term
  | MarkWord nat
  | MarkElement nat

definition header_size :: "u64 \<Rightarrow> nat" where
  "header_size header = unat (drop_bit 8 header AND 0xFFFFFF)"

text \<open>Set the marks of the words that exist.\<close>

definition set_marks :: "u64 list \<Rightarrow> nat list \<Rightarrow> mark_bits \<Rightarrow> mark_bits" where
  "set_marks from is m = fold (\<lambda>i m. if i < length from then mark_set i True m else m) is m"

text \<open>One task: the tasks it leaves and the marks it sets.\<close>

fun mark_step :: "u64 list \<Rightarrow> mark_task \<Rightarrow> mark_bits \<Rightarrow> (unit, mark_task list \<times> mark_bits) outcome" where
  "mark_step from (MarkWord i) m =
     (if i < length from then Ok ([MarkTerm (Term (from ! i))], m) else Panic IndexOutOfBounds)"
| "mark_step from (MarkElement i) m =
     (if i < length from then Ok ([MarkTerm (Term (from ! i))], mark_set i True m) else Ok ([], m))"
| "mark_step from (MarkTerm t) m =
     (case tag t of
        TagSmallInteger \<Rightarrow> Ok ([], m)
      | TagAtom \<Rightarrow> Ok ([], m)
      | TagCons \<Rightarrow>
          (let ptr = unat (to_cons t) in
           if ptr < length from \<and> \<not> mark_get ptr m
           then Ok ([MarkWord (ptr + 1), MarkWord (ptr + 2)], set_marks from [ptr, ptr + 1, ptr + 2] m)
           else Ok ([], m))
      | TagTuple \<Rightarrow>
          (let ptr = unat (to_tuple t) in
           if ptr < length from \<and> \<not> mark_get ptr m
           then Ok (map (\<lambda>i. MarkElement (ptr + i)) [1..<header_size (from ! ptr)], mark_set ptr True m)
           else Ok ([], m))
      | TagFloat \<Rightarrow>
          (let ptr = unat (to_float t) in Ok ([], if ptr < length from
             then set_marks from [ptr, ptr + 1, ptr + 2] m else m))
      | _ \<Rightarrow>
          (let ptr = unat (to_fun t) in Ok ([], if ptr < length from
             then set_marks from (map (\<lambda>i. ptr + i) [1..<header_size (from ! ptr)]) (mark_set ptr True m)
             else m)))"

partial_function (option) mark_terms ::
  "u64 list \<Rightarrow> mark_task list \<Rightarrow> mark_bits \<Rightarrow> (unit, mark_bits) outcome option" where
  "mark_terms from tasks m =
     (case tasks of
        [] \<Rightarrow> Some (Ok m)
      | t # ts \<Rightarrow>
          (case mark_step from t m of
             Ok (ts', m') \<Rightarrow> mark_terms from (ts' @ ts) m'
           | Err e \<Rightarrow> Some (Err e)
           | Panic p \<Rightarrow> Some (Panic p)
           | OutOfFuel \<Rightarrow> Some OutOfFuel))"

definition mark_term_gc :: "u64 list \<Rightarrow> beam_term \<Rightarrow> mark_bits \<Rightarrow> (unit, mark_bits) outcome option" where
  "mark_term_gc from t m = mark_terms from [MarkTerm t] m"

fun mark_gc_roots ::
  "u64 list \<Rightarrow> beam_term list \<Rightarrow> mark_bits \<Rightarrow> (unit, mark_bits) outcome option" where
  "mark_gc_roots from [] m = Some (Ok m)"
| "mark_gc_roots from (t # ts) m = then_o (mark_term_gc from t m) (mark_gc_roots from ts)"

section \<open>Forwarding addresses\<close>

definition live_size :: "u64 \<Rightarrow> nat" where
  "live_size header =
     (case extract_tag header of
        TagCons \<Rightarrow> 3
      | TagFloat \<Rightarrow> 3
      | TagSmallInteger \<Rightarrow> 1
      | TagAtom \<Rightarrow> 1
      | _ \<Rightarrow> header_size header)"

partial_function (option) forward_loop ::
  "u64 list \<Rightarrow> nat \<Rightarrow> mark_bits \<Rightarrow> nat \<Rightarrow> nat \<Rightarrow> nat option list \<Rightarrow>
   (unit, nat option list) outcome option" where
  "forward_loop from used m idx new_hp forward =
     (if idx < used then
        (if mark_get idx m then
           (if idx < length from then
              forward_loop from used m (idx + live_size (from ! idx)) (new_hp + live_size (from ! idx))
                (forward[idx := Some new_hp])
            else Some (Panic IndexOutOfBounds))
         else forward_loop from used m (idx + 1) new_hp forward)
      else Some (Ok forward))"

definition get_forwarded_addr :: "u64 \<Rightarrow> nat option list \<Rightarrow> nat option" where
  "get_forwarded_addr w forward =
     (if extract_tag w = TagCons \<or> extract_tag w = TagTuple then
        (let ptr = unat (drop_bit 3 w) in if ptr < length forward then forward ! ptr else None)
      else None)"

definition update_pointer_word :: "u64 \<Rightarrow> nat \<Rightarrow> u64" where
  "update_pointer_word old_word new_addr = push_bit 3 (of_nat new_addr) OR (old_word AND 7)"

definition update_term_from_forward :: "nat option list \<Rightarrow> beam_term \<Rightarrow> beam_term" where
  "update_term_from_forward forward t =
     (case tag t of
        TagCons \<Rightarrow>
          (let ptr = unat (to_cons t) in
           case (if ptr < length forward then forward ! ptr else None) of
             Some a \<Rightarrow> Term (push_bit 3 (of_nat a) OR (term_raw t AND 7)) | None \<Rightarrow> t)
      | TagTuple \<Rightarrow>
          (let ptr = unat (to_tuple t) in
           case (if ptr < length forward then forward ! ptr else None) of
             Some a \<Rightarrow> Term (push_bit 3 (of_nat a) OR (term_raw t AND 7)) | None \<Rightarrow> t)
      | _ \<Rightarrow> t)"

text \<open>The update of the word at an index; the head and the tail of a cell are both read before
  either is written.\<close>

definition update_word_at :: "nat option list \<Rightarrow> nat \<Rightarrow> u64 list \<Rightarrow> u64 list" where
  "update_word_at forward i from =
     (case get_forwarded_addr (from ! i) forward of
        Some a \<Rightarrow> from[i := update_pointer_word (from ! i) a]
      | None \<Rightarrow> from)"

fun update_elements ::
  "nat option list \<Rightarrow> nat list \<Rightarrow> u64 list \<Rightarrow> (unit, u64 list) outcome" where
  "update_elements forward [] from = Ok from"
| "update_elements forward (i # is) from =
     (if i < length from then update_elements forward is (update_word_at forward i from)
      else Panic IndexOutOfBounds)"

text \<open>The references of the object at \<open>idx\<close>, and how far the loop goes on.\<close>

definition update_object ::
  "nat option list \<Rightarrow> nat \<Rightarrow> u64 list \<Rightarrow> (unit, u64 list \<times> nat) outcome" where
  "update_object forward idx from =
     (case extract_tag (from ! idx) of
        TagCons \<Rightarrow>
          (if idx + 2 < length from
           then Ok (update_word_at forward (idx + 2) (update_word_at forward (idx + 1) from), 3)
           else Panic IndexOutOfBounds)
      | TagSmallInteger \<Rightarrow> Ok (from, 1)
      | TagAtom \<Rightarrow> Ok (from, 1)
      | TagFloat \<Rightarrow> Ok (from, 1)
      | _ \<Rightarrow>
          bind_o (update_elements forward (map (\<lambda>i. idx + i) [1..<header_size (from ! idx)]) from)
            (\<lambda>from'. Ok (from', header_size (from ! idx))))"

partial_function (option) update_loop ::
  "nat \<Rightarrow> mark_bits \<Rightarrow> nat option list \<Rightarrow> nat \<Rightarrow> u64 list \<Rightarrow> (unit, u64 list) outcome option" where
  "update_loop used m forward idx from =
     (if idx < used then
        (if mark_get idx m then
           (if idx < length from then
              (case update_object forward idx from of
                 Ok (from', n) \<Rightarrow> update_loop used m forward (idx + n) from'
               | Err e \<Rightarrow> Some (Err e)
               | Panic p \<Rightarrow> Some (Panic p)
               | OutOfFuel \<Rightarrow> Some OutOfFuel)
            else Some (Panic IndexOutOfBounds))
         else update_loop used m forward (idx + 1) from)
      else Some (Ok from))"

section \<open>Compaction\<close>

partial_function (option) compact_loop ::
  "u64 list \<Rightarrow> nat \<Rightarrow> mark_bits \<Rightarrow> nat \<Rightarrow> nat \<Rightarrow> u64 list \<Rightarrow> (unit, nat \<times> u64 list) outcome option" where
  "compact_loop from used m idx new_hp tos =
     (if idx < used then
        (if mark_get idx m then
           (if idx < length from then
              (let n = live_size (from ! idx) in
               if new_hp + n \<le> length tos \<and> idx + n \<le> length from
               then compact_loop from used m (idx + n) (new_hp + n)
                      (take new_hp tos @ take n (drop idx from) @ drop (new_hp + n) tos)
               else Some (Panic IndexOutOfBounds))
            else Some (Panic IndexOutOfBounds))
         else compact_loop from used m (idx + 1) new_hp tos)
      else Some (Ok (new_hp, tos)))"

section \<open>The collection\<close>

definition verify_heap :: "bool \<Rightarrow> process_heap \<Rightarrow> (verification_result, unit) outcome option" where
  "verify_heap debug h =
     (if \<not> debug then Some (Ok ())
      else
        (case verify h verifier_new of
           None \<Rightarrow> None
         | Some (Ok r, _) \<Rightarrow> Some (if passed r then Ok () else Err r)
         | Some (Err _, _) \<Rightarrow> Some OutOfFuel
         | Some (Panic p, _) \<Rightarrow> Some (Panic p)
         | Some (OutOfFuel, _) \<Rightarrow> Some OutOfFuel))"

definition count_collection :: "process_heap \<Rightarrow> process_heap" where
  "count_collection h =
     h\<lparr>stats := (stats h)\<lparr>collections := collections (stats h) + 1,
                         major_collections := major_collections (stats h) + 1\<rparr>\<rparr>"

text \<open>Copying the compacted words back, and the verification.\<close>

definition finish_collection :: "bool \<Rightarrow> nat \<Rightarrow> u64 list \<Rightarrow> process_heap \<Rightarrow> (unit, process_heap) outcome option"
  where
  "finish_collection debug new_hp tos h =
     (let used = hp h;
          h = set_active_buffer (take new_hp tos @ drop new_hp (active_buffer h)) h;
          h = h\<lparr>stats := (stats h)\<lparr>words_collected :=
                    words_collected (stats h) + (of_nat used - of_nat new_hp)\<rparr>,
                hp := new_hp\<rparr>
      in (case verify_heap debug h of
            None \<Rightarrow> None
          | Some (Panic p) \<Rightarrow> Some (Panic p)
          | Some _ \<Rightarrow> Some (Ok h)))"

definition major_gc_impl ::
  "bool \<Rightarrow> beam_term list \<Rightarrow> process_heap \<Rightarrow> (unit, process_heap) outcome option" where
  "major_gc_impl debug roots h0 =
     (let h = count_collection h0; used = hp h; from = active_buffer h in
      if used = 0 then Some (Ok h)
      else
        then_o (mark_gc_roots from roots (marks_new used)) (\<lambda>m.
          if length (filter (\<lambda>i. mark_get i m) [0..<used]) = 0 then Some (Ok (h\<lparr>hp := 0\<rparr>))
          else
            then_o (forward_loop from used m 0 0 (replicate used None)) (\<lambda>forward.
            then_o (update_loop used m forward 0 from) (\<lambda>from'.
            then_o (compact_loop from' used m 0 0 (replicate used 0)) (\<lambda>(new_hp, tos).
              finish_collection debug new_hp tos h)))))"

definition major_gc :: "bool \<Rightarrow> process_heap \<Rightarrow> (unit, process_heap) outcome option" where
  "major_gc debug h = major_gc_impl debug [] h"

section \<open>Properties\<close>

lemma no_marks: "\<not> mark_get i (marks_new n)"
  by (simp add: mark_get_def marks_new_def)

text \<open>\<^verbatim>\<open>major_gc\<close> passes no roots to the collection, so it always discards the whole heap, and it
  counts a collection but none of the words it has freed.\<close>

theorem major_gc_discards:
  "major_gc debug h = Some (Ok ((count_collection h)\<lparr>hp := 0\<rparr>))"
proof -
  have "hp (count_collection h) = hp h" by (simp add: count_collection_def)
  moreover have "hp h = 0 \<Longrightarrow> (count_collection h)\<lparr>hp := 0\<rparr> = count_collection h"
    by (cases h) (simp add: count_collection_def)
  ultimately show ?thesis by (simp add: major_gc_def major_gc_impl_def no_marks Let_def)
qed

lemma compact_loop_bound:
  assumes "compact_loop from used m idx new_hp tos = Some r" and "new_hp \<le> length tos"
  shows "case r of Ok (new_hp', tos') \<Rightarrow> new_hp' \<le> length tos \<and> length tos' = length tos | _ \<Rightarrow> True"
  using assms(2)
proof (induction rule: compact_loop.raw_induct [OF _ assms(1), rotated])
  case (1 loop fs used m idx new_hp tos r)
  show ?case
  proof (cases "idx < used \<and> mark_get idx m \<and> idx < length fs")
    case True
    let ?n = "live_size (fs ! idx)"
    let ?tos = "take new_hp tos @ take ?n (drop idx fs) @ drop (new_hp + ?n) tos"
    show ?thesis
    proof (cases "new_hp + ?n \<le> length tos \<and> idx + ?n \<le> length fs")
      case fits: True
      with True 1(2) have l: "loop fs used m (idx + ?n) (new_hp + ?n) ?tos = Some r"
        by (simp add: Let_def)
      have "length (take new_hp tos) = new_hp" "length (take ?n (drop idx fs)) = ?n"
        "length (drop (new_hp + ?n) tos) = length tos - (new_hp + ?n)"
        using fits by (auto simp: min_def)
      then have t: "length ?tos = length tos" using fits by (simp only: length_append) linarith
      from 1(1) [OF l] fits show ?thesis unfolding t by blast
    next
      case False
      with True 1(2) show ?thesis by (auto simp: Let_def)
    qed
  next
    case False
    with 1(2,3) 1(1) [of fs used m "idx + 1" new_hp tos r] show ?thesis
      by (auto split: if_splits)
  qed
qed

lemma set_active_ok:
  "heap_ok h \<Longrightarrow> length ws = hend h \<Longrightarrow> n \<le> hend h \<Longrightarrow>
   heap_ok ((set_active_buffer ws h)\<lparr>stats := st, hp := n\<rparr>)"
  by (simp add: heap_ok_def set_active_buffer_def)

text \<open>Whatever the roots, a collection that returns leaves a heap in order that is not fuller than
  before.\<close>

theorem major_gc_bound:
  assumes "heap_ok h" and "major_gc_impl debug roots h = Some (Ok h')"
  shows "heap_ok h' \<and> hp h' \<le> hp h \<and> hend h' = hend h"
proof -
  let ?h = "count_collection h"
  have c: "heap_ok ?h" "hp ?h = hp h" "hend ?h = hend h" "active_buffer ?h = active_buffer h"
    using assms(1) by (simp_all add: count_collection_def heap_ok_def active_buffer_def)
  show ?thesis
  proof (cases "h' = ?h \<or> h' = ?h\<lparr>hp := 0\<rparr>")
    case True
    with c show ?thesis by (auto simp: heap_ok_def)
  next
    case False
    with assms(2) obtain m forward fs new_hp tos
      where "compact_loop fs (hp ?h) m 0 0 (replicate (hp ?h) 0) = Some (Ok (new_hp, tos))"
        and f: "finish_collection debug new_hp tos ?h = Some (Ok h')"
      by (auto simp: major_gc_impl_def then_o_Ok Let_def split: if_splits)
    with compact_loop_bound [OF this(1)] have b: "new_hp \<le> hp h" "length tos = hp h"
      using c(2) by simp_all
    from f have "hp h' = new_hp" "hend h' = hend ?h"
      "\<exists>st. h' = (set_active_buffer (take new_hp tos @ drop new_hp (active_buffer ?h)) ?h)
          \<lparr>stats := st, hp := new_hp\<rparr>"
      by (auto simp: finish_collection_def Let_def set_active_buffer_def
          split: option.splits outcome.splits)
    moreover from c(1) b have "length (take new_hp tos @ drop new_hp (active_buffer ?h)) = hend ?h"
      using assms(1) c(2,3) by (simp add: heap_ok_def active_buffer_def min_def)
    moreover have "new_hp \<le> hend ?h" using b assms(1) c(3) by (simp add: heap_ok_def)
    ultimately show ?thesis
      using set_active_ok [OF c(1), of "take new_hp tos @ drop new_hp (active_buffer ?h)" new_hp] b c(3)
      by metis
  qed
qed

end
