(* ===== verification/Etf.thy ===== *)
theory Etf
  imports Terms
begin

text \<open>
  The external term format (\<^verbatim>\<open>crates/chimera_erlang_beam_term/src/etf.rs\<close>).

  Bytes are lists of \<open>8 word\<close>.  The decoder is recursive in the nesting of the terms; each
  level takes a byte, so a fuel of one more than the number of bytes is enough
  (\<open>decode_fuel_enough\<close>).  The result of \<^verbatim>\<open>str::trim().parse::<f64>()\<close>, cast to \<^verbatim>\<open>i64\<close>, is the
  parameter \<open>parse_f64\<close>; \<^verbatim>\<open>from_utf8\<close> and \<^verbatim>\<open>parse::<u32>\<close> are modelled.
\<close>

section \<open>Constants and errors\<close>

definition MAX_SIZE :: nat where "MAX_SIZE = 0xFFFF"
definition MAX_BINARY_SIZE :: nat where "MAX_BINARY_SIZE = 0xFFFFFFFF"

definition VERSION_MAGIC :: u8 where "VERSION_MAGIC = 131"
definition TAG_ATOM :: u8 where "TAG_ATOM = 115"
definition TAG_SMALL_INTEGER :: u8 where "TAG_SMALL_INTEGER = 97"
definition TAG_INTEGER :: u8 where "TAG_INTEGER = 98"
definition TAG_FLOAT :: u8 where "TAG_FLOAT = 70"
definition TAG_SMALL_TUPLE :: u8 where "TAG_SMALL_TUPLE = 104"
definition TAG_NIL :: u8 where "TAG_NIL = 106"
definition TAG_LIST :: u8 where "TAG_LIST = 108"
definition TAG_MAP :: u8 where "TAG_MAP = 116"
definition TAG_BINARY :: u8 where "TAG_BINARY = 109"
definition TAG_SMALL_BIG :: u8 where "TAG_SMALL_BIG = 110"
definition TAG_LARGE_BIG :: u8 where "TAG_LARGE_BIG = 111"
definition TAG_BIT_BINARY :: u8 where "TAG_BIT_BINARY = 77"
definition TAG_NEW_PID_EXT :: u8 where "TAG_NEW_PID_EXT = 71"
definition TAG_NEW_PORT_EXT :: u8 where "TAG_NEW_PORT_EXT = 72"
definition TAG_NEW_REF_EXT :: u8 where "TAG_NEW_REF_EXT = 78"
definition TAG_NEW_FUN_EXT :: u8 where "TAG_NEW_FUN_EXT = 79"
definition TAG_EXTERNAL_FUN_EXT :: u8 where "TAG_EXTERNAL_FUN_EXT = 105"

lemmas etf_tags = VERSION_MAGIC_def TAG_ATOM_def TAG_SMALL_INTEGER_def TAG_INTEGER_def
  TAG_FLOAT_def TAG_SMALL_TUPLE_def TAG_NIL_def TAG_LIST_def TAG_MAP_def TAG_BINARY_def
  TAG_SMALL_BIG_def TAG_LARGE_BIG_def TAG_BIT_BINARY_def TAG_NEW_PID_EXT_def
  TAG_NEW_PORT_EXT_def TAG_NEW_REF_EXT_def TAG_NEW_FUN_EXT_def TAG_EXTERNAL_FUN_EXT_def

datatype encode_error =
    TermTooLarge
  | UnsupportedTerm
  | ValueOutOfRange
  | MapTooLarge nat nat
  | TupleTooLarge nat nat
  | ListTooLong nat nat

datatype decode_error =
    UnexpectedEnd
  | InvalidVersion
  | InvalidTag u8
  | InvalidAtomEncoding
  | InvalidIntegerEncoding
  | InvalidFloatEncoding
  | InvalidTupleArity
  | InvalidListLength
  | InvalidMapSize
  | InvalidBinarySize
  | TruncatedData

section \<open>Bytes and text\<close>

definition be_bytes32 :: "u32 \<Rightarrow> u8 list" where
  "be_bytes32 w = [ucast (drop_bit 24 w), ucast (drop_bit 16 w), ucast (drop_bit 8 w), ucast w]"

definition be_bytes16 :: "16 word \<Rightarrow> u8 list" where
  "be_bytes16 w = [ucast (drop_bit 8 w), ucast w]"

definition from_be32 :: "u8 \<Rightarrow> u8 \<Rightarrow> u8 \<Rightarrow> u8 \<Rightarrow> u32" where
  "from_be32 a b c d =
     push_bit 24 (ucast a) OR push_bit 16 (ucast b) OR push_bit 8 (ucast c) OR ucast d"

definition from_be16 :: "u8 \<Rightarrow> u8 \<Rightarrow> 16 word" where
  "from_be16 a b = push_bit 8 (ucast a) OR ucast b"

text \<open>The decimal digits of \<^verbatim>\<open>format!("{}", n)\<close>, as ASCII bytes.\<close>

fun decimal :: "nat \<Rightarrow> u8 list" where
  "decimal n = (if n < 10 then [of_nat (48 + n)] else decimal (n div 10) @ [of_nat (48 + n mod 10)])"

declare decimal.simps [simp del]

definition atom_prefix :: "u8 list" where
  "atom_prefix = [97, 116, 111, 109, 95]"

text \<open>\<^verbatim>\<open>core::str::from_utf8\<close>: well-formed sequences of one to four bytes.\<close>

definition cont_byte :: "u8 \<Rightarrow> bool" where
  "cont_byte b \<longleftrightarrow> 0x80 \<le> b \<and> b \<le> 0xBF"

fun utf8_valid :: "u8 list \<Rightarrow> bool" where
  "utf8_valid [] = True"
| "utf8_valid (a # bs) =
     (if a < 0x80 then utf8_valid bs
      else if 0xC2 \<le> a \<and> a \<le> 0xDF then
        (case bs of b # r \<Rightarrow> cont_byte b \<and> utf8_valid r | _ \<Rightarrow> False)
      else if 0xE0 \<le> a \<and> a \<le> 0xEF then
        (case bs of
           b # c # r \<Rightarrow>
             cont_byte b \<and> (a = 0xE0 \<longrightarrow> 0xA0 \<le> b) \<and> (a = 0xED \<longrightarrow> b \<le> 0x9F)
             \<and> cont_byte c \<and> utf8_valid r
         | _ \<Rightarrow> False)
      else if 0xF0 \<le> a \<and> a \<le> 0xF4 then
        (case bs of
           b # c # d # r \<Rightarrow>
             cont_byte b \<and> (a = 0xF0 \<longrightarrow> 0x90 \<le> b) \<and> (a = 0xF4 \<longrightarrow> b \<le> 0x8F)
             \<and> cont_byte c \<and> cont_byte d \<and> utf8_valid r
         | _ \<Rightarrow> False)
      else False)"

text \<open>\<^verbatim>\<open>parse::<u32>\<close>: an optional plus sign and decimal digits, without overflow.\<close>

fun parse_digits :: "u8 list \<Rightarrow> nat \<Rightarrow> nat option" where
  "parse_digits [] n = Some n"
| "parse_digits (b # bs) n =
     (if 48 \<le> b \<and> b \<le> 57 then
        (let n = 10 * n + unat (b - 48) in if n < 2 ^ 32 then parse_digits bs n else None)
      else None)"

definition parse_u32 :: "u8 list \<Rightarrow> u32 option" where
  "parse_u32 bs =
     (let ds = (if bs \<noteq> [] \<and> hd bs = 43 then tl bs else bs)
      in if ds = [] then None else map_option of_nat (parse_digits ds 0))"

definition hash_string :: "u8 list \<Rightarrow> u64" where
  "hash_string bs = fold (\<lambda>b hash. hash * 31 + ucast b) bs 0"

section \<open>Encoding\<close>

lemma unat_lt: "unat (w :: 'a::len word) < 2 ^ LENGTH('a)"
  by (rule unsigned_less)

lemma drop_byte_less: "0 < (v :: u64) \<Longrightarrow> unat (drop_bit 8 v) < unat v"
  by (simp only: unat_drop_bit_eq drop_bit_eq_div [where 'a = nat]) (simp add: word_less_nat_alt)

text \<open>The little-endian bytes of an absolute value.\<close>

function big_bytes :: "u64 \<Rightarrow> u8 list" where
  "big_bytes v = (if v > 0 then ucast (v AND 0xFF) # big_bytes (drop_bit 8 v) else [])"
  by pat_completeness auto
termination
  by (relation "measure unat") (auto simp: drop_byte_less)

declare big_bytes.simps [simp del]

definition unsigned_abs :: "i64 \<Rightarrow> u64" where
  "unsigned_abs v = (if sint v < 0 then - v else v)"

definition encode_big_integer :: "i64 \<Rightarrow> u8 list" where
  "encode_big_integer v =
     (let bytes = big_bytes (unsigned_abs v);
          bytes = (if bytes = [] then [0] else bytes);
          sign = (if sint v < 0 then 1 else 0)
      in (if length bytes > 0xFF then TAG_LARGE_BIG else TAG_SMALL_BIG)
           # of_nat (length bytes) # sign # rev bytes)"

text \<open>\<^verbatim>\<open>format!("{:<31}", "0.0")\<close>: padded with spaces.\<close>

definition zero_text :: "u8 list" where
  "zero_text = [48, 46, 48] @ replicate 28 32"

definition encode_cons_list :: "u64 \<Rightarrow> u8 list" where
  "encode_cons_list ptr = [TAG_NIL]"

definition encode_term :: "beam_term \<Rightarrow> (encode_error, u8 list) outcome" where
  "encode_term t =
     (case tag t of
        TagSmallInteger \<Rightarrow>
          (let v = to_small t in
           if 0 \<le> sint v \<and> sint v \<le> 255 then Ok [TAG_SMALL_INTEGER, ucast v]
           else if - (2 ^ 31) \<le> sint v \<and> sint v \<le> 2 ^ 31 - 1 then
             Ok (TAG_INTEGER # be_bytes32 (ucast v))
           else Ok (encode_big_integer v))
      | TagAtom \<Rightarrow>
          (let name = atom_prefix @ decimal (unat (to_atom t))
           in Ok (TAG_ATOM # be_bytes16 (of_nat (length name)) @ name))
      | TagCons \<Rightarrow> Ok (encode_cons_list (to_cons t))
      | TagTuple \<Rightarrow> Ok [TAG_SMALL_TUPLE, 0]
      | TagFloat \<Rightarrow> Ok (TAG_FLOAT # zero_text)
      | TagBinary \<Rightarrow> Ok (TAG_BINARY # be_bytes32 0 @ [0])
      | TagMap \<Rightarrow> Ok (TAG_MAP # be_bytes32 0)
      | TagFun \<Rightarrow> Ok [TAG_NIL])"

definition encode :: "beam_term \<Rightarrow> (encode_error, u8 list) outcome" where
  "encode t = encode_term t"

definition encode_with_version :: "beam_term \<Rightarrow> (encode_error, u8 list) outcome" where
  "encode_with_version t = bind_o (encode_term t) (\<lambda>bs. Ok (VERSION_MAGIC # bs))"


section \<open>Decoding\<close>

type_synonym decoded = "(decode_error, beam_term \<times> nat) outcome"

text \<open>The decoders take the bytes and the offset, and answer the term and the new offset.  Those of
  compound terms call the decoder \<open>dec\<close> of terms.\<close>

definition decode_atom :: "u8 list \<Rightarrow> nat \<Rightarrow> decoded" where
  "decode_atom bytes off =
     (if off + 2 > length bytes then Err UnexpectedEnd
      else
        (let len = unat (bytes ! off) * 2 ^ 8 + unat (bytes ! (off + 1)); off = off + 2 in
         if off + len > length bytes then Err UnexpectedEnd
         else
           (let name = take len (drop off bytes); off = off + len in
            if \<not> utf8_valid name then Err InvalidAtomEncoding
            else
              (case (if take 5 name = atom_prefix then parse_u32 (drop 5 name) else None) of
                 Some idx \<Rightarrow> Ok (from_atom idx, off)
               | None \<Rightarrow> Ok (from_atom (ucast (hash_string name mod 0xFFFF)), off)))))"

definition decode_small_integer :: "u8 list \<Rightarrow> nat \<Rightarrow> decoded" where
  "decode_small_integer bytes off =
     (if off \<ge> length bytes then Err UnexpectedEnd
      else bind_o (from_small (ucast (bytes ! off))) (\<lambda>t. Ok (t, off + 1)))"

definition be32_at :: "u8 list \<Rightarrow> nat \<Rightarrow> u32" where
  "be32_at bytes off =
     from_be32 (bytes ! off) (bytes ! (off + 1)) (bytes ! (off + 2)) (bytes ! (off + 3))"

definition decode_integer :: "u8 list \<Rightarrow> nat \<Rightarrow> decoded" where
  "decode_integer bytes off =
     (if off + 4 > length bytes then Err UnexpectedEnd
      else bind_o (from_small (scast (be32_at bytes off))) (\<lambda>t. Ok (t, off + 4)))"

definition decode_float :: "(u8 list \<Rightarrow> i64 option) \<Rightarrow> u8 list \<Rightarrow> nat \<Rightarrow> decoded" where
  "decode_float parse_f64 bytes off =
     (if off + 31 > length bytes then Err UnexpectedEnd
      else if \<not> utf8_valid (take 31 (drop off bytes)) then Err InvalidFloatEncoding
      else
        (case parse_f64 (take 31 (drop off bytes)) of
           None \<Rightarrow> Err InvalidFloatEncoding
         | Some v \<Rightarrow> bind_o (from_small v) (\<lambda>t. Ok (t, off + 31))))"

text \<open>Decode \<open>n\<close> terms and drop them.\<close>

fun skip_terms :: "(nat \<Rightarrow> decoded) \<Rightarrow> nat \<Rightarrow> nat \<Rightarrow> (decode_error, nat) outcome" where
  "skip_terms dec 0 off = Ok off"
| "skip_terms dec (Suc n) off = bind_o (dec off) (\<lambda>(_, off). skip_terms dec n off)"

definition decode_small_tuple :: "(nat \<Rightarrow> decoded) \<Rightarrow> u8 list \<Rightarrow> nat \<Rightarrow> decoded" where
  "decode_small_tuple dec bytes off =
     (if off \<ge> length bytes then Err UnexpectedEnd
      else
        (let arity = unat (bytes ! off); off = off + 1 in
         if arity > MAX_SIZE then Err InvalidTupleArity
         else if arity = 0 then Ok (nil, off)
         else
           bind_o (dec off) (\<lambda>(first, off).
           bind_o (skip_terms dec (arity - 1) off) (\<lambda>off. Ok (first, off)))))"

definition decode_list :: "(nat \<Rightarrow> decoded) \<Rightarrow> u8 list \<Rightarrow> nat \<Rightarrow> decoded" where
  "decode_list dec bytes off =
     (if off + 4 > length bytes then Err UnexpectedEnd
      else
        (let len = unat (be32_at bytes off); off = off + 4 in
         if len > MAX_SIZE then Err InvalidListLength
         else if len = 0 then Ok (nil, off)
         else bind_o (dec off) (\<lambda>(first, off). bind_o (dec off) (\<lambda>(_, off). Ok (first, off)))))"

definition decode_map :: "(nat \<Rightarrow> decoded) \<Rightarrow> u8 list \<Rightarrow> nat \<Rightarrow> decoded" where
  "decode_map dec bytes off =
     (if off + 4 > length bytes then Err UnexpectedEnd
      else
        (let n = unat (be32_at bytes off); off = off + 4 in
         if n > MAX_SIZE then Err InvalidMapSize
         else if n > 0 then
           bind_o (dec off) (\<lambda>(key, off). bind_o (dec off) (\<lambda>(_, off). Ok (key, off)))
         else Ok (nil, off)))"

definition decode_binary :: "u8 list \<Rightarrow> nat \<Rightarrow> decoded" where
  "decode_binary bytes off =
     (if off + 4 > length bytes then Err UnexpectedEnd
      else
        (let len = unat (be32_at bytes off); off = off + 4 in
         if len > MAX_BINARY_SIZE then Err InvalidBinarySize
         else if off + len > length bytes then Err UnexpectedEnd
         else
           (let off = off + len in
            if len > 0 then bind_o (from_small (ucast (bytes ! (off - len)))) (\<lambda>t. Ok (t, off))
            else Ok (nil, off))))"

definition decode_bit_binary :: "u8 list \<Rightarrow> nat \<Rightarrow> decoded" where
  "decode_bit_binary bytes off =
     (if off + 4 > length bytes then Err UnexpectedEnd else Ok (nil, length bytes))"

definition big_value :: "u8 list \<Rightarrow> u64" where
  "big_value bs = fold (\<lambda>b v. push_bit 8 v OR ucast b) bs 0"

definition big_term :: "u8 \<Rightarrow> u8 list \<Rightarrow> (decode_error, beam_term) outcome" where
  "big_term sign bs = (let v = big_value bs in from_small (if sign = 0 then v else - v))"

definition decode_small_big :: "u8 list \<Rightarrow> nat \<Rightarrow> decoded" where
  "decode_small_big bytes off =
     (if off + 2 > length bytes then Err UnexpectedEnd
      else
        (let arity = unat (bytes ! off); sign = bytes ! (off + 1); off = off + 2 in
         if off + arity > length bytes then Err UnexpectedEnd
         else bind_o (big_term sign (take arity (drop off bytes))) (\<lambda>t. Ok (t, off + arity))))"

definition decode_large_big :: "u8 list \<Rightarrow> nat \<Rightarrow> decoded" where
  "decode_large_big bytes off =
     (if off + 1 > length bytes then Err UnexpectedEnd
      else
        (let arity = unat (bytes ! off); off = off + 1 in
         if off + 1 > length bytes then Err UnexpectedEnd
         else
           (let sign = bytes ! off; off = off + 1 in
            if off + arity > length bytes then Err UnexpectedEnd
            else bind_o (big_term sign (take arity (drop off bytes))) (\<lambda>t. Ok (t, off + arity)))))"

text \<open>The length of the node name is read without a check: past the end it panics.\<close>

definition skip_node :: "u8 list \<Rightarrow> nat \<Rightarrow> (decode_error, nat) outcome" where
  "skip_node bytes off =
     bind_o (index_o bytes off) (\<lambda>a.
     bind_o (index_o bytes (off + 1)) (\<lambda>b. Ok (off + 2 + unat (from_be16 a b))))"

definition decode_new_pid :: "u8 list \<Rightarrow> nat \<Rightarrow> decoded" where
  "decode_new_pid bytes off =
     bind_o (skip_node bytes off) (\<lambda>off.
       if off + 4 > length bytes then Err UnexpectedEnd
       else Ok (from_atom (be32_at bytes off), off + 4 + 4))"

definition decode_new_port :: "u8 list \<Rightarrow> nat \<Rightarrow> decoded" where
  "decode_new_port bytes off =
     bind_o (skip_node bytes off) (\<lambda>off.
       if off + 4 > length bytes then Err UnexpectedEnd
       else Ok (from_atom (be32_at bytes off), off + 4 + 4))"

definition decode_new_ref :: "u8 list \<Rightarrow> nat \<Rightarrow> decoded" where
  "decode_new_ref bytes off =
     bind_o (skip_node bytes off) (\<lambda>off.
       if off + 4 > length bytes then Err UnexpectedEnd
       else
         (let id_len = unat (be32_at bytes off); off = off + 4 in
          if off + id_len > length bytes then Err UnexpectedEnd
          else Ok (from_atom 0, off + id_len + 4)))"

definition decode_new_fun :: "(nat \<Rightarrow> decoded) \<Rightarrow> u8 list \<Rightarrow> nat \<Rightarrow> decoded" where
  "decode_new_fun dec bytes off =
     bind_o (skip_node bytes (off + 4 + 1 + 16 + 4 + 4)) (\<lambda>off.
     bind_o (dec (off + 4 + 4)) (\<lambda>(module_atom, off).
     bind_o (dec off) (\<lambda>(_, off).
     bind_o (dec off) (\<lambda>(_, off).
     bind_o (index_o bytes off) (\<lambda>num_free.
     bind_o (skip_terms dec (unat num_free) (off + 1)) (\<lambda>off. Ok (module_atom, off)))))))"

definition decode_external_fun :: "(nat \<Rightarrow> decoded) \<Rightarrow> nat \<Rightarrow> decoded" where
  "decode_external_fun dec off =
     bind_o (dec off) (\<lambda>(m, off). bind_o (dec off) (\<lambda>(_, off). bind_o (dec off) (\<lambda>(_, off). Ok (m, off))))"

definition decode_tagged ::
  "(u8 list \<Rightarrow> i64 option) \<Rightarrow> (nat \<Rightarrow> decoded) \<Rightarrow> u8 list \<Rightarrow> u8 \<Rightarrow> nat \<Rightarrow> decoded" where
  "decode_tagged pf dec bytes t off =
     (if t = TAG_ATOM then decode_atom bytes off
      else if t = TAG_SMALL_INTEGER then decode_small_integer bytes off
      else if t = TAG_INTEGER then decode_integer bytes off
      else if t = TAG_FLOAT then decode_float pf bytes off
      else if t = TAG_SMALL_TUPLE then decode_small_tuple dec bytes off
      else if t = TAG_NIL then Ok (nil, off)
      else if t = TAG_LIST then decode_list dec bytes off
      else if t = TAG_MAP then decode_map dec bytes off
      else if t = TAG_BINARY then decode_binary bytes off
      else if t = TAG_BIT_BINARY then decode_bit_binary bytes off
      else if t = TAG_SMALL_BIG then decode_small_big bytes off
      else if t = TAG_LARGE_BIG then decode_large_big bytes off
      else if t = TAG_NEW_PID_EXT then decode_new_pid bytes off
      else if t = TAG_NEW_PORT_EXT then decode_new_port bytes off
      else if t = TAG_NEW_REF_EXT then decode_new_ref bytes off
      else if t = TAG_NEW_FUN_EXT then decode_new_fun dec bytes off
      else if t = TAG_EXTERNAL_FUN_EXT then decode_external_fun dec off
      else Err (InvalidTag t))"

primrec decode_term :: "(u8 list \<Rightarrow> i64 option) \<Rightarrow> u8 list \<Rightarrow> nat \<Rightarrow> nat \<Rightarrow> decoded" where
  "decode_term pf bytes 0 = (\<lambda>off. OutOfFuel)"
| "decode_term pf bytes (Suc n) = (\<lambda>off.
     if off \<ge> length bytes then Err UnexpectedEnd
     else decode_tagged pf (decode_term pf bytes n) bytes (bytes ! off) (off + 1))"

definition decode :: "(u8 list \<Rightarrow> i64 option) \<Rightarrow> u8 list \<Rightarrow> (decode_error, beam_term) outcome" where
  "decode pf bytes =
     (if bytes = [] then Err UnexpectedEnd
      else
        (let off = (if bytes ! 0 = VERSION_MAGIC then 1 else 0)
         in bind_o (decode_term pf bytes (length bytes + 1) off) (\<lambda>(t, _). Ok t)))"


section \<open>Fuel and progress\<close>

text \<open>What the decoder of the sub-terms must satisfy from an offset on: it does not run out of fuel
  and moves forward.\<close>

definition steady :: "(nat \<Rightarrow> decoded) \<Rightarrow> nat \<Rightarrow> bool" where
  "steady dec off \<longleftrightarrow>
     (\<forall>i\<ge>off. dec i \<noteq> OutOfFuel \<and> (\<forall>t j. dec i = Ok (t, j) \<longrightarrow> i < j))"

lemma steady_mono: "steady dec off \<Longrightarrow> off \<le> off' \<Longrightarrow> steady dec off'"
  by (auto simp: steady_def)

lemma steady_OutOfFuel: "steady dec off \<Longrightarrow> dec off \<noteq> OutOfFuel"
  by (auto simp: steady_def)

lemma steady_Ok: "steady dec off \<Longrightarrow> dec off = Ok (t, off') \<Longrightarrow> off < off' \<and> steady dec off'"
  by (metis less_imp_le order_refl steady_def steady_mono)

text \<open>A decoding that ends, at an offset not before \<open>off\<close> if it succeeds.\<close>

definition fine :: "nat \<Rightarrow> decoded \<Rightarrow> bool" where
  "fine off d \<longleftrightarrow> d \<noteq> OutOfFuel \<and> (\<forall>u i. d = Ok (u, i) \<longrightarrow> off \<le> i)"

lemma fine_simps [simp]:
  "fine off (Err e)" "fine off (Panic p)" "fine off (Ok (t, i)) \<longleftrightarrow> off \<le> i"
  by (auto simp: fine_def)

lemma fine_dec:
  assumes "steady dec i" "\<And>t j. i < j \<Longrightarrow> steady dec j \<Longrightarrow> fine off (f (t, j))"
  shows "fine off (bind_o (dec i) f)"
proof (cases "dec i")
  case (Ok r)
  then obtain t j where r: "dec i = Ok (t, j)" by (cases r) auto
  then show ?thesis using steady_Ok [OF assms(1) r] assms(2) by simp
qed (use steady_OutOfFuel [OF assms(1)] in auto)

lemma skip_terms_steady:
  "steady dec off \<Longrightarrow> skip_terms dec n off \<noteq> OutOfFuel
    \<and> (\<forall>off'. skip_terms dec n off = Ok off' \<longrightarrow> off \<le> off')"
proof (induction n arbitrary: off)
  case (Suc n)
  show ?case
  proof (cases "dec off")
    case (Ok r)
    then obtain t j where r: "dec off = Ok (t, j)" by (cases r) auto
    then show ?thesis using Suc.IH [of j] steady_Ok [OF Suc.prems r] by (auto intro: order_trans less_imp_le)
  qed (use steady_OutOfFuel [OF Suc.prems] in auto)
qed simp

lemma fine_skip:
  assumes "steady dec i" "\<And>j. i \<le> j \<Longrightarrow> fine off (f j)"
  shows "fine off (bind_o (skip_terms dec n i) f)"
  using skip_terms_steady [OF assms(1), of n] assms(2) by (cases "skip_terms dec n i") auto

lemma fine_node:
  assumes "\<And>j. i \<le> j \<Longrightarrow> fine off (f j)"
  shows "fine off (bind_o (skip_node bytes i) f)"
  using assms by (auto simp: skip_node_def index_o_def)

lemma fine_index: "(\<And>b. fine off (f b)) \<Longrightarrow> fine off (bind_o (index_o bytes i) f)"
  by (auto simp: index_o_def)

lemma fine_small: "(\<And>t. fine off (f t)) \<Longrightarrow> fine off (bind_o (from_small x) f)"
  by (auto simp: from_small_def)

lemma fine_big: "(\<And>t. fine off (f t)) \<Longrightarrow> fine off (bind_o (big_term sign bs) f)"
  by (simp add: big_term_def Let_def fine_small)

lemma fine_split: "(\<And>a b. x = (a, b) \<Longrightarrow> fine off (f a b)) \<Longrightarrow> fine off (case x of (a, b) \<Rightarrow> f a b)"
  by (cases x) simp

lemma decode_tagged_fine:
  assumes "steady dec off"
  shows "fine off (decode_tagged pf dec bytes t off)"
proof -
  have st: "steady dec i" if "off \<le> i" for i by (rule steady_mono [OF assms that])
  note rec = fine_dec [where dec = dec] fine_skip [where dec = dec]
  have "fine off (decode_small_tuple dec bytes off)" "fine off (decode_list dec bytes off)"
    "fine off (decode_map dec bytes off)" "fine off (decode_external_fun dec off)"
    "fine off (decode_new_fun dec bytes off)"
    by (auto simp: decode_small_tuple_def decode_list_def decode_map_def decode_external_fun_def
        decode_new_fun_def Let_def intro!: rec fine_node fine_index st)
  moreover have "fine off (decode_atom bytes off)" "fine off (decode_small_integer bytes off)"
    "fine off (decode_integer bytes off)" "fine off (decode_float pf bytes off)"
    "fine off (decode_binary bytes off)" "fine off (decode_bit_binary bytes off)"
    "fine off (decode_small_big bytes off)" "fine off (decode_large_big bytes off)"
    "fine off (decode_new_pid bytes off)" "fine off (decode_new_port bytes off)"
    "fine off (decode_new_ref bytes off)"
    by (auto simp: decode_atom_def decode_small_integer_def decode_integer_def decode_float_def
        decode_binary_def decode_bit_binary_def decode_small_big_def decode_large_big_def
        decode_new_pid_def decode_new_port_def decode_new_ref_def Let_def
        split: option.split intro!: fine_small fine_big fine_node)
  ultimately show ?thesis by (simp add: decode_tagged_def)
qed

lemma decode_term_steady:
  "length bytes < n + off \<Longrightarrow> 0 < n \<Longrightarrow> steady (decode_term pf bytes n) off"
proof (induction n arbitrary: off)
  case (Suc n)
  have "decode_term pf bytes (Suc n) i \<noteq> OutOfFuel
      \<and> (\<forall>t j. decode_term pf bytes (Suc n) i = Ok (t, j) \<longrightarrow> i < j)" if i: "off \<le> i" for i
  proof (cases "length bytes \<le> i")
    case False
    then have "steady (decode_term pf bytes n) (i + 1)" using Suc.prems i by (intro Suc.IH) auto
    from decode_tagged_fine [OF this, of pf bytes "bytes ! i"] False show ?thesis
      by (auto simp: fine_def)
  qed simp
  then show ?case by (simp add: steady_def)
qed simp

lemma decode_fuel_enough: "decode pf bytes \<noteq> OutOfFuel"
proof -
  have "steady (decode_term pf bytes (length bytes + 1)) off" for off
    by (rule decode_term_steady) auto
  then show ?thesis
    by (auto simp: decode_def bind_o_OutOfFuel_iff dest: steady_OutOfFuel simp del: decode_term.simps)
qed

section \<open>Panics\<close>

text \<open>The tags whose decoders can panic: the float and the two big integers (a value that is not a
  small integer), and the distribution tags (an unchecked read).\<close>

definition risky_tags :: "u8 set" where
  "risky_tags = {TAG_FLOAT, TAG_SMALL_BIG, TAG_LARGE_BIG, TAG_NEW_PID_EXT, TAG_NEW_PORT_EXT,
     TAG_NEW_REF_EXT, TAG_NEW_FUN_EXT}"

lemma bind_o_Panic_iff:
  "bind_o m f = Panic p \<longleftrightarrow> m = Panic p \<or> (\<exists>a. m = Ok a \<and> f a = Panic p)"
  by (cases m) auto

lemma skip_terms_Panic: "skip_terms dec n off = Panic p \<Longrightarrow> \<exists>i. dec i = Panic p"
  by (induction n arbitrary: off) (auto simp: bind_o_Panic_iff)

lemma from_small_in: "- (2 ^ 59) \<le> sint x \<Longrightarrow> sint x < 2 ^ 59 \<Longrightarrow> from_small x = Ok (Term (i64_to_u64_bits x))"
  by (simp add: from_small_def is_small_int_iff)

lemma sint_ucast_byte: "sint (ucast (b :: u8) :: i64) = uint b"
proof -
  have "uint (ucast b :: i64) = uint b" by (simp add: uint_up_ucast is_up)
  moreover have "signed_take_bit 63 (uint b) = uint b"
    using uint_lt2p [of b] order_trans [OF _ uint_ge_0 [of b], of "- (2 ^ 63)"]
    by (intro signed_take_bit_int_eq_self) auto
  ultimately show ?thesis by (simp add: sint_uint)
qed

lemma from_small_byte: "from_small (ucast (b :: u8)) = Ok (Term (i64_to_u64_bits (ucast b)))"
  using uint_lt2p [of b] order_trans [OF _ uint_ge_0 [of b], of "- (2 ^ 59)"]
  by (intro from_small_in) (simp_all add: sint_ucast_byte)

lemma sint_scast_i32: "sint (scast (w :: u32) :: i64) = sint w"
  by (simp add: sint_up_scast is_up)

lemma from_small_i32: "from_small (scast (w :: u32)) = Ok (Term (i64_to_u64_bits (scast w)))"
  using sint_lt [of w] sint_ge [of w] by (intro from_small_in) (simp_all add: sint_scast_i32)

lemma decode_tagged_Panic:
  assumes "decode_tagged pf dec bytes t off = Panic p" "t \<notin> risky_tags"
  shows "\<exists>i. dec i = Panic p"
proof -
  have tag: "t \<noteq> TAG_FLOAT" "t \<noteq> TAG_SMALL_BIG" "t \<noteq> TAG_LARGE_BIG" "t \<noteq> TAG_NEW_PID_EXT"
    "t \<noteq> TAG_NEW_PORT_EXT" "t \<noteq> TAG_NEW_REF_EXT" "t \<noteq> TAG_NEW_FUN_EXT"
    using assms(2) by (auto simp: risky_tags_def)
  have safe: "decode_atom bytes off \<noteq> Panic p" "decode_small_integer bytes off \<noteq> Panic p"
    "decode_integer bytes off \<noteq> Panic p" "decode_binary bytes off \<noteq> Panic p"
    "decode_bit_binary bytes off \<noteq> Panic p"
    by (auto simp: decode_atom_def decode_small_integer_def decode_integer_def decode_binary_def
        decode_bit_binary_def from_small_byte from_small_i32 Let_def split: option.split)
  have "decode_small_tuple dec bytes off = Panic p \<Longrightarrow> \<exists>i. dec i = Panic p"
    "decode_list dec bytes off = Panic p \<Longrightarrow> \<exists>i. dec i = Panic p"
    "decode_map dec bytes off = Panic p \<Longrightarrow> \<exists>i. dec i = Panic p"
    "decode_external_fun dec off = Panic p \<Longrightarrow> \<exists>i. dec i = Panic p"
    by (auto simp: decode_small_tuple_def decode_list_def decode_map_def decode_external_fun_def
        bind_o_Panic_iff Let_def dest: skip_terms_Panic split: if_splits)
  then show ?thesis using assms(1) tag safe by (auto simp: decode_tagged_def split: if_splits)
qed

lemma decode_term_Panic:
  "decode_term pf bytes n off = Panic p \<Longrightarrow> \<exists>b\<in>set bytes. b \<in> risky_tags"
proof (induction n arbitrary: off)
  case (Suc n)
  show ?case
  proof (cases "length bytes \<le> off \<or> bytes ! off \<in> risky_tags")
    case True
    then show ?thesis using Suc.prems nth_mem [of off bytes] by (auto simp: not_le split: if_splits)
  next
    case False
    then show ?thesis
      using decode_tagged_Panic [of pf "decode_term pf bytes n" bytes "bytes ! off" "off + 1" p] Suc
      by auto
  qed
qed simp

section \<open>Round trips\<close>

lemma decimal_ne [simp]: "decimal n \<noteq> []"
  by (subst decimal.simps) simp

lemma parse_digits_append:
  "parse_digits (xs @ ys) n =
     (case parse_digits xs n of Some m \<Rightarrow> parse_digits ys m | None \<Rightarrow> None)"
  by (induction xs n rule: parse_digits.induct) (auto simp: Let_def)

lemma digit_byte:
  assumes "k < 10"
  shows "48 \<le> (of_nat (48 + k) :: u8)" "(of_nat (48 + k) :: u8) \<le> 57"
    "unat ((of_nat (48 + k) :: u8) - 48) = k"
proof -
  have u: "unat (of_nat (48 + k) :: u8) = 48 + k"
    unfolding unat_of_nat using assms by simp
  show l: "48 \<le> (of_nat (48 + k) :: u8)" "(of_nat (48 + k) :: u8) \<le> 57"
    unfolding word_le_nat_alt u using assms by simp_all
  show "unat ((of_nat (48 + k) :: u8) - 48) = k"
    unfolding unat_sub [OF l(1)] u by simp
qed

lemma parse_decimal: "n < 2 ^ 32 \<Longrightarrow> parse_digits (decimal n) 0 = Some n"
proof (induction n rule: decimal.induct)
  case (1 n)
  show ?case
  proof (cases "n < 10")
    case True
    then show ?thesis using digit_byte [of n] by (subst decimal.simps) (auto simp: Let_def)
  next
    case False
    have "parse_digits (decimal (n div 10)) 0 = Some (n div 10)" using 1 False by simp
    moreover have "10 * (n div 10) + n mod 10 = n" by simp
    ultimately show ?thesis using False digit_byte [of "n mod 10"] 1(2)
      by (subst decimal.simps) (auto simp: parse_digits_append Let_def)
  qed
qed

lemma decimal_ascii: "b \<in> set (decimal n) \<Longrightarrow> 48 \<le> b \<and> b \<le> 57"
proof (induction n arbitrary: b rule: decimal.induct)
  case (1 n)
  then show ?case using digit_byte [of n] digit_byte [of "n mod 10"]
    by (subst (asm) (2) decimal.simps) (auto split: if_splits)
qed

lemma utf8_ascii: "(\<forall>b\<in>set bs. b < 0x80) \<Longrightarrow> utf8_valid bs"
  by (induction bs) auto

lemma decimal_length: "n < 10 ^ k \<Longrightarrow> 0 < k \<Longrightarrow> length (decimal n) \<le> k"
proof (induction k arbitrary: n)
  case (Suc k)
  show ?case
  proof (cases "n < 10")
    case False
    then have "0 < k" "n div 10 < 10 ^ k" using Suc.prems(1) by (cases k; simp add: less_mult_imp_div_less mult.commute)+
    then show ?thesis using Suc.IH [of "n div 10"] False by (subst decimal.simps) simp
  qed (subst decimal.simps, simp)
qed simp


lemma from_be_bytes32:
  "from_be32 (ucast (drop_bit 24 w)) (ucast (drop_bit 16 w)) (ucast (drop_bit 8 w)) (ucast w) = w"
proof (rule bit_word_eqI)
  fix n assume "n < LENGTH(32)"
  then consider "n < 8" | "8 \<le> n" "n < 16" | "16 \<le> n" "n < 24" | "24 \<le> n" "n < 32"
    by (simp, linarith)
  then show "bit (from_be32 (ucast (drop_bit 24 w)) (ucast (drop_bit 16 w)) (ucast (drop_bit 8 w)) (ucast w)) n
      = bit w n"
    unfolding from_be32_def by cases (auto simp: bit_simps)
qed

lemma be_bytes16_nat:
  "n < 2 ^ 16 \<Longrightarrow>
   unat (ucast (drop_bit 8 (of_nat n :: 16 word)) :: u8) * 2 ^ 8 + unat (ucast (of_nat n :: 16 word) :: u8) = n"
proof -
  assume n: "n < 2 ^ 16"
  have "unat (ucast (drop_bit 8 (of_nat n :: 16 word)) :: u8) = n div 2 ^ 8"
    unfolding unsigned_ucast_eq unat_drop_bit_eq using n
    by (simp add: unat_of_nat drop_bit_eq_div take_bit_eq_mod less_mult_imp_div_less)
  moreover have "unat (ucast (of_nat n :: 16 word) :: u8) = n mod 2 ^ 8"
    using n by (simp add: unsigned_ucast_eq unat_of_nat take_bit_eq_mod)
  ultimately show ?thesis by simp
qed

lemma i32_roundtrip:
  assumes "- (2 ^ 31) \<le> sint (v :: i64)" "sint v \<le> 2 ^ 31 - 1"
  shows "scast (ucast v :: u32) = v"
proof -
  have "(ucast :: i64 \<Rightarrow> u32) = scast" by (rule down_cast_same) (simp add: is_down)
  then have "sint (ucast v :: u32) = signed_take_bit 31 (sint v)" by (simp add: signed_scast_eq)
  also have "\<dots> = sint v" using assms by (intro signed_take_bit_int_eq_self) auto
  finally have "sint (scast (ucast v :: u32) :: i64) = sint v" by (simp add: sint_scast_i32)
  then show ?thesis by (rule signed_word_eqI)
qed

lemma big_value_rev: "big_value (rev (big_bytes v)) = v"
proof (induction v rule: big_bytes.induct)
  case (1 v)
  show ?case
  proof (cases "v > 0")
    case True
    have "big_value (rev (big_bytes v)) = push_bit 8 (drop_bit 8 v) OR ucast (ucast (v AND 0xFF) :: u8)"
      using 1 True by (subst big_bytes.simps) (simp add: big_value_def)
    also have "\<dots> = v"
    proof (rule bit_word_eqI)
      fix i assume i: "i < LENGTH(64)"
      have "bit (0xFF :: u64) i \<longleftrightarrow> i < 8"
        using bit_mask_iff [of 8 i, where 'a = u64] i by (simp add: mask_eq_exp_minus_1)
      then show "bit (push_bit 8 (drop_bit 8 v) OR ucast (ucast (v AND 0xFF) :: u8)) i = bit v i"
        using i by (auto simp: bit_simps)
    qed
    finally show ?thesis .
  next
    case False
    then have "v = 0" by (simp add: word_gt_0)
    then show ?thesis by (subst big_bytes.simps) (simp add: big_value_def)
  qed
qed

lemma big_bytes_length: "unat v < 256 ^ k \<Longrightarrow> length (big_bytes v) \<le> k"
proof (induction k arbitrary: v)
  case 0
  then have "v = 0" by (simp add: unat_eq_zero)
  then show ?case by (subst big_bytes.simps) simp
next
  case (Suc k)
  have "unat (drop_bit 8 v) = unat v div 256" by (simp only: unat_drop_bit_eq drop_bit_eq_div [where 'a = nat]) simp
  then have "unat (drop_bit 8 v) < 256 ^ k"
    using Suc.prems by (simp add: less_mult_imp_div_less mult.commute)
  from Suc.IH [OF this] show ?case by (subst big_bytes.simps) simp
qed

lemma decode_tag:
  assumes "t \<noteq> VERSION_MAGIC"
  shows "decode pf (t # bs)
    = bind_o (decode_tagged pf (decode_term pf (t # bs) (length bs + 1)) (t # bs) t 1) (\<lambda>(u, _). Ok u)"
    "decode pf (VERSION_MAGIC # t # bs)
    = bind_o (decode_tagged pf (decode_term pf (VERSION_MAGIC # t # bs) (length bs + 2))
        (VERSION_MAGIC # t # bs) t 2) (\<lambda>(u, _). Ok u)"
  using assms by (simp_all add: decode_def numeral_2_eq_2)


lemma encode_int_decodes:
  assumes "is_small_int x"
  shows "\<exists>t bs. encode (Term (i64_to_u64_bits x)) = Ok (t # bs) \<and> t \<noteq> VERSION_MAGIC
    \<and> (\<forall>pf dec bytes off. off \<le> length bytes \<longrightarrow> drop off bytes = bs \<longrightarrow>
          decode_tagged pf dec bytes t off = Ok (Term (i64_to_u64_bits x), length bytes))"
proof -
  have to: "to_small (Term (i64_to_u64_bits x)) = x" by (rule to_small_bits [OF assms])
  have at: "length bytes = off + length bs \<and> (\<forall>k<length bs. bytes ! (off + k) = bs ! k)
      \<and> take (length bs) (drop off bytes) = bs"
    if "off \<le> length bytes" "drop off bytes = bs" for off and bytes bs :: "u8 list"
    using that by auto
  consider (byte) "0 \<le> sint x" "sint x \<le> 255"
    | (word) "\<not> (0 \<le> sint x \<and> sint x \<le> 255)" "- (2 ^ 31) \<le> sint x" "sint x \<le> 2 ^ 31 - 1"
    | (big) "\<not> (0 \<le> sint x \<and> sint x \<le> 255)" "\<not> (- (2 ^ 31) \<le> sint x \<and> sint x \<le> 2 ^ 31 - 1)"
    by blast
  then show ?thesis
  proof cases
    case byte
    have u: "ucast (ucast x :: u8) = x"
    proof (rule signed_word_eqI)
      have "uint (ucast x :: u8) = take_bit 8 (take_bit 64 (sint x))"
        unfolding unsigned_ucast_eq uint_sint [of x] by simp
      also have "\<dots> = sint x" using byte by (simp add: take_bit_int_eq_self)
      finally have "uint (ucast x :: u8) = sint x" .
      then show "sint (ucast (ucast x :: u8) :: i64) = sint x" by (simp add: sint_ucast_byte)
    qed
    have "encode (Term (i64_to_u64_bits x)) = Ok [TAG_SMALL_INTEGER, ucast x]"
      using byte by (simp add: encode_def encode_term_def to Let_def)
    moreover have "decode_tagged pf dec bytes TAG_SMALL_INTEGER off = Ok (Term (i64_to_u64_bits x), length bytes)"
      if "off \<le> length bytes" "drop off bytes = [ucast x]" for pf dec bytes off
      using at [OF that] u assms
      by (simp add: decode_tagged_def etf_tags decode_small_integer_def from_small_def)
    ultimately show ?thesis by (auto simp: etf_tags)
  next
    case word
    have "encode (Term (i64_to_u64_bits x)) = Ok (TAG_INTEGER # be_bytes32 (ucast x))"
      using word by (auto simp: encode_def encode_term_def to Let_def)
    moreover have "decode_tagged pf dec bytes TAG_INTEGER off = Ok (Term (i64_to_u64_bits x), length bytes)"
      if "off \<le> length bytes" "drop off bytes = be_bytes32 (ucast x)" for pf dec bytes off
    proof -
      have b: "be32_at bytes off = ucast x"
        using at [OF that] from_be_bytes32 [of "ucast x"]
        by (simp add: be32_at_def be_bytes32_def less_Suc_eq all_conj_distrib numeral_nat)
      show ?thesis
        using at [OF that] b i32_roundtrip [OF word(2,3)] assms
        by (simp add: decode_tagged_def etf_tags decode_integer_def be_bytes32_def from_small_def)
    qed
    ultimately show ?thesis by (auto simp: etf_tags)
  next
    case big
    let ?bs = "big_bytes (unsigned_abs x)" and ?s = "if sint x < 0 then 1 else 0 :: u8"
    have "x \<noteq> 0" using big by auto
    then have "0 < unsigned_abs x" by (auto simp: unsigned_abs_def word_gt_0)
    then have ne: "?bs \<noteq> []" by (subst big_bytes.simps) simp
    have len: "length ?bs \<le> 8"
      using unat_lt [of "unsigned_abs x"] by (intro big_bytes_length) simp
    have "encode (Term (i64_to_u64_bits x)) = Ok (encode_big_integer x)"
      using big by (auto simp: encode_def encode_term_def to Let_def)
    also have "encode_big_integer x = TAG_SMALL_BIG # of_nat (length ?bs) # ?s # rev ?bs"
      using ne len by (simp add: encode_big_integer_def Let_def)
    finally have "encode (Term (i64_to_u64_bits x))
      = Ok (TAG_SMALL_BIG # of_nat (length ?bs) # ?s # rev ?bs)" .
    moreover have "decode_tagged pf dec bytes TAG_SMALL_BIG off = Ok (Term (i64_to_u64_bits x), length bytes)"
      if d: "off \<le> length bytes" "drop off bytes = of_nat (length ?bs) # ?s # rev ?bs" for pf dec bytes off
    proof -
      have l: "length bytes = off + (length ?bs + 2)" using arg_cong [OF d(2), of length] d(1) by simp
      have b: "bytes ! off = of_nat (length ?bs)" "bytes ! (off + 1) = ?s"
      proof -
        have "bytes ! off = drop off bytes ! 0" "bytes ! (off + 1) = drop off bytes ! 1"
          using l by simp_all
        then show "bytes ! off = of_nat (length ?bs)" "bytes ! (off + 1) = ?s"
          unfolding d(2) by simp_all
      qed
      have "drop (off + 2) bytes = drop 2 (drop off bytes)" by (simp add: add.commute)
      then have r: "drop (off + 2) bytes = rev ?bs" unfolding d(2) by simp
      have u: "unat (of_nat (length ?bs) :: u8) = length ?bs" using len by (simp add: unat_of_nat)
      have "big_term ?s (rev ?bs) = Ok (Term (i64_to_u64_bits x))"
        using assms by (simp add: big_term_def big_value_rev unsigned_abs_def from_small_def Let_def)
      then show ?thesis using l b r u
        by (simp add: decode_tagged_def etf_tags decode_small_big_def Let_def)
    qed
    ultimately show ?thesis by (auto simp: etf_tags)
  qed
qed


lemma encode_atom_decodes:
  "\<exists>t bs. encode (from_atom i) = Ok (t # bs) \<and> t \<noteq> VERSION_MAGIC
    \<and> (\<forall>pf dec bytes off. off \<le> length bytes \<longrightarrow> drop off bytes = bs \<longrightarrow>
          decode_tagged pf dec bytes t off = Ok (from_atom i, length bytes))"
proof -
  let ?ds = "decimal (unat i)"
  let ?name = "atom_prefix @ ?ds"
  have len: "length ?ds \<le> 10"
    using unat_lt [of i] by (intro decimal_length) (auto intro: less_le_trans)
  have pl: "length atom_prefix = 5" by (simp add: atom_prefix_def)
  have enc: "encode (from_atom i) = Ok (TAG_ATOM # be_bytes16 (of_nat (length ?name)) @ ?name)"
    by (simp add: encode_def encode_term_def Let_def)
  have "decode_tagged pf dec bytes TAG_ATOM off = Ok (from_atom i, length bytes)"
    if d: "off \<le> length bytes" "drop off bytes = be_bytes16 (of_nat (length ?name)) @ ?name"
    for pf dec bytes off
  proof -
    let ?l = "of_nat (length ?name) :: 16 word"
    have l: "length bytes = off + (2 + length ?name)"
      using arg_cong [OF d(2), of length] d(1) by (simp add: be_bytes16_def)
    have "bytes ! off = drop off bytes ! 0" "bytes ! (off + 1) = drop off bytes ! 1"
      using l by simp_all
    then have b: "unat (bytes ! off) * 2 ^ 8 + unat (bytes ! (off + 1)) = length ?name"
      unfolding d(2) using be_bytes16_nat [of "length ?name"] len pl by (simp add: be_bytes16_def)
    have "drop (off + 2) bytes = drop 2 (drop off bytes)" by (simp add: add.commute)
    then have r: "drop (off + 2) bytes = ?name" unfolding d(2) by (simp add: be_bytes16_def)
    have ascii: "\<forall>b\<in>set ?name. b < 0x80"
    proof
      fix b assume "b \<in> set ?name"
      then consider "b \<in> set atom_prefix" | "48 \<le> b \<and> b \<le> 57" using decimal_ascii by auto
      then show "b < 0x80"
      proof cases
        case 2
        then have "b \<le> 57" by simp
        also have "(57 :: u8) < 0x80" by simp
        finally show ?thesis .
      qed (auto simp: atom_prefix_def)
    qed
    have "hd ?ds \<noteq> 43"
    proof
      assume "hd ?ds = 43"
      moreover have "hd ?ds \<in> set ?ds" by simp
      ultimately have "48 \<le> (43 :: u8)" using decimal_ascii [of "hd ?ds" "unat i"] by metis
      then show False by simp
    qed
    then have p: "parse_u32 ?ds = Some i"
      using parse_decimal [of "unat i"] unat_lt [of i] by (simp add: parse_u32_def)
    have tk: "take 5 ?name = atom_prefix" "drop 5 ?name = ?ds" using pl by simp_all
    show ?thesis
      using l b r utf8_ascii [OF ascii] p tk
      by (simp add: decode_tagged_def etf_tags decode_atom_def Let_def)
  qed
  with enc show ?thesis by (auto simp: etf_tags)
qed

lemma decodes_back:
  assumes "\<exists>t bs. encode x = Ok (t # bs) \<and> t \<noteq> VERSION_MAGIC
    \<and> (\<forall>pf dec bytes off. off \<le> length bytes \<longrightarrow> drop off bytes = bs \<longrightarrow>
          decode_tagged pf dec bytes t off = Ok (y, length bytes))"
  shows "\<exists>bs. encode x = Ok bs \<and> decode pf bs = Ok y"
    "\<exists>bs. encode_with_version x = Ok bs \<and> decode pf bs = Ok y"
proof -
  obtain t bs where e: "encode x = Ok (t # bs)" and t: "t \<noteq> VERSION_MAGIC"
    and d: "\<And>pf dec bytes off. off \<le> length bytes \<Longrightarrow> drop off bytes = bs \<Longrightarrow>
      decode_tagged pf dec bytes t off = Ok (y, length bytes)"
    using assms by blast
  have d1: "decode pf (t # bs) = Ok y" unfolding decode_tag(1) [OF t]
    by (subst d) simp_all
  have d2: "decode pf (VERSION_MAGIC # t # bs) = Ok y" unfolding decode_tag(2) [OF t]
    by (subst d) simp_all
  show "\<exists>bs. encode x = Ok bs \<and> decode pf bs = Ok y" using e d1 by blast
  show "\<exists>bs. encode_with_version x = Ok bs \<and> decode pf bs = Ok y"
    using e d2 by (simp add: encode_with_version_def encode_def)
qed

text \<open>What a term becomes on its way through the encoder and the decoder, with and without the
  version byte.\<close>

definition comes_back_as ::
  "(u8 list \<Rightarrow> i64 option) \<Rightarrow> beam_term \<Rightarrow> (decode_error, beam_term) outcome \<Rightarrow> bool" where
  "comes_back_as pf t r \<longleftrightarrow>
     (\<exists>bs. encode t = Ok bs \<and> decode pf bs = r) \<and> (\<exists>bs. encode_with_version t = Ok bs \<and> decode pf bs = r)"

lemma comes_back_intro:
  assumes "encode t = Ok (b # bs)" and "b \<noteq> VERSION_MAGIC"
    and "\<And>dec bytes off. off \<le> length bytes \<Longrightarrow> drop off bytes = bs \<Longrightarrow>
          bind_o (decode_tagged pf dec bytes b off) (\<lambda>(u, _). Ok u) = r"
  shows "comes_back_as pf t r"
proof -
  have "decode pf (b # bs) = r"
    unfolding decode_tag(1) [OF assms(2)] by (rule assms(3)) simp_all
  moreover have "decode pf (VERSION_MAGIC # b # bs) = r"
    unfolding decode_tag(2) [OF assms(2)] by (rule assms(3)) simp_all
  ultimately show ?thesis
    using assms(1) by (simp add: comes_back_as_def encode_with_version_def encode_def)
qed

lemma drop_nth_eq:
  "off \<le> length bytes \<Longrightarrow> drop off bytes = bs \<Longrightarrow>
   length bytes = off + length bs \<and> (\<forall>k<length bs. bytes ! (off + k) = bs ! k)"
  by auto

lemma compound_comes_back_nil:
  assumes "tag t \<in> {TagCons, TagTuple, TagBinary, TagMap, TagFun}"
  shows "comes_back_as pf t (Ok nil)"
proof -
  consider "tag t = TagCons \<or> tag t = TagFun" | "tag t = TagTuple" | "tag t = TagBinary" | "tag t = TagMap"
    using assms by auto
  then show ?thesis
  proof cases
    case 1
    then have "encode t = Ok [TAG_NIL]" by (auto simp: encode_def encode_term_def encode_cons_list_def)
    then show ?thesis by (rule comes_back_intro) (simp_all add: decode_tagged_def etf_tags)
  next
    case 2
    then have "encode t = Ok [TAG_SMALL_TUPLE, 0]" by (simp add: encode_def encode_term_def)
    then show ?thesis
      by (rule comes_back_intro)
        (auto dest!: drop_nth_eq simp: decode_tagged_def etf_tags decode_small_tuple_def Let_def)
  next
    case 3
    then have "encode t = Ok [TAG_BINARY, 0, 0, 0, 0, 0]"
      by (simp add: encode_def encode_term_def be_bytes32_def)
    then show ?thesis
    proof (rule comes_back_intro)
      fix dec off and bytes :: "u8 list"
      assume "off \<le> length bytes" "drop off bytes = [0, 0, 0, 0, 0]"
      from drop_nth_eq [OF this]
      have "length bytes = off + 5" and "\<And>k. k < 5 \<Longrightarrow> bytes ! (off + k) = [0, 0, 0, 0, 0] ! k" by simp_all
      from this(1) this(2) [of 0] this(2) [of 1] this(2) [of 2] this(2) [of 3]
      have "length bytes = off + 5" "bytes ! off = 0" "bytes ! (off + 1) = 0" "bytes ! (off + 2) = 0"
        "bytes ! (off + 3) = 0" by simp_all
      then show "bind_o (decode_tagged pf dec bytes TAG_BINARY off) (\<lambda>(u, _). Ok u) = Ok nil"
        by (simp add: decode_tagged_def etf_tags decode_binary_def be32_at_def from_be32_def Let_def)
    qed (simp add: etf_tags)
  next
    case 4
    then have "encode t = Ok [TAG_MAP, 0, 0, 0, 0]"
      by (simp add: encode_def encode_term_def be_bytes32_def)
    then show ?thesis
    proof (rule comes_back_intro)
      fix dec off and bytes :: "u8 list"
      assume "off \<le> length bytes" "drop off bytes = [0, 0, 0, 0]"
      from drop_nth_eq [OF this]
      have "length bytes = off + 4" and "\<And>k. k < 4 \<Longrightarrow> bytes ! (off + k) = [0, 0, 0, 0] ! k" by simp_all
      from this(1) this(2) [of 0] this(2) [of 1] this(2) [of 2] this(2) [of 3]
      have "length bytes = off + 4" "bytes ! off = 0" "bytes ! (off + 1) = 0" "bytes ! (off + 2) = 0"
        "bytes ! (off + 3) = 0" by simp_all
      then show "bind_o (decode_tagged pf dec bytes TAG_MAP off) (\<lambda>(u, _). Ok u) = Ok nil"
        by (simp add: decode_tagged_def etf_tags decode_map_def be32_at_def from_be32_def Let_def)
    qed (simp add: etf_tags)
  qed
qed

lemma float_comes_back:
  assumes "tag t = TagFloat"
  shows "comes_back_as pf t
    (case pf zero_text of None \<Rightarrow> Err InvalidFloatEncoding | Some v \<Rightarrow> from_small v)"
proof -
  have "encode t = Ok (TAG_FLOAT # zero_text)" using assms by (simp add: encode_def encode_term_def)
  then show ?thesis
  proof (rule comes_back_intro)
    fix dec off and bytes :: "u8 list"
    assume d: "off \<le> length bytes" "drop off bytes = zero_text"
    have len: "length zero_text = 31" by (simp add: zero_text_def)
    with drop_nth_eq [OF d] have "length bytes = off + 31" by simp
    moreover have "take 31 zero_text = zero_text" using len by simp
    moreover have "utf8_valid zero_text" by (simp add: zero_text_def utf8_ascii)
    ultimately show "bind_o (decode_tagged pf dec bytes TAG_FLOAT off) (\<lambda>(u, _). Ok u) =
        (case pf zero_text of None \<Rightarrow> Err InvalidFloatEncoding | Some v \<Rightarrow> from_small v)"
      using d(2)
      by (simp add: decode_tagged_def etf_tags decode_float_def from_small_def split: option.split)
  qed (simp add: etf_tags)
qed

section \<open>Properties\<close>

text \<open>C20. What becomes of every kind of term that is encoded and decoded, with and without the version
byte: a small integer, of all three encodings, and an atom come back as they were; a cons cell, a
tuple, a binary, a map and a fun come back as nil, whatever they hold; every float, whatever it is,
comes back as the small integer for what the parser makes of the text 0.0, or as an error when the
parser refuses that text.\<close>
theorem etf_roundtrip:
  shows
    "((is_small_int x) \<and> (t = Term (i64_to_u64_bits x)) \<longrightarrow> comes_back_as pf t (Ok t))
    \<and> comes_back_as pf (from_atom i) (Ok (from_atom i))
    \<and> (tag t \<in> {TagCons, TagTuple, TagBinary, TagMap, TagFun} \<longrightarrow> comes_back_as pf t (Ok nil))
    \<and> (tag t = TagFloat \<longrightarrow> comes_back_as pf t
         (case pf zero_text of None \<Rightarrow> Err InvalidFloatEncoding | Some v \<Rightarrow> from_small v))"
proof -
  have "comes_back_as pf t (Ok t)" if "is_small_int x" "t = Term (i64_to_u64_bits x)"
    unfolding comes_back_as_def using decodes_back [OF encode_int_decodes [OF that(1)]] that(2) by blast
  moreover have "comes_back_as pf (from_atom i) (Ok (from_atom i))"
    unfolding comes_back_as_def using decodes_back [OF encode_atom_decodes] by blast
  ultimately show ?thesis using compound_comes_back_nil float_comes_back by blast
qed

theorem etf_roundtrip_witness:
  "\<exists>bs. encode (Term (i64_to_u64_bits (2 ^ 40))) = Ok bs
     \<and> decode (\<lambda>_. None) bs = Ok (Term (i64_to_u64_bits (2 ^ 40)))"
  using etf_roundtrip [of "2 ^ 40" "Term (i64_to_u64_bits (2 ^ 40))" "\<lambda>_. None", THEN conjunct1]
  by (simp add: is_small_int_iff comes_back_as_def)

text \<open>C34. Decoding always ends, whatever the bytes, and can panic only on input that contains a tag
byte of a float, a big integer or one of the four distribution terms.\<close>
theorem decode_total:
  shows
    "(decode pf bytes \<noteq> OutOfFuel)
    \<and> (decode pf bytes = Panic p
        \<longrightarrow> (\<exists>b\<in>set bytes. b \<in> {TAG_FLOAT, TAG_SMALL_BIG, TAG_LARGE_BIG, TAG_NEW_PID_EXT, TAG_NEW_PORT_EXT,
        TAG_NEW_REF_EXT, TAG_NEW_FUN_EXT}))"
proof -
  have part1: "decode pf bytes \<noteq> OutOfFuel" by (rule decode_fuel_enough)
  have part2: "\<exists>b\<in>set bytes. b \<in> {TAG_FLOAT, TAG_SMALL_BIG, TAG_LARGE_BIG, TAG_NEW_PID_EXT, TAG_NEW_PORT_EXT,
      TAG_NEW_REF_EXT, TAG_NEW_FUN_EXT}" if c: "decode pf bytes = Panic p"
  proof -
    obtain off where "bind_o (decode_term pf bytes (length bytes + 1) off) (\<lambda>(t, _). Ok t) = Panic p"
      using c unfolding decode_def Let_def
      by (cases "bytes = []") (simp_all only: if_True if_False outcome.distinct simp_thms)
    then have "decode_term pf bytes (length bytes + 1) off = Panic p"
      unfolding bind_o_Panic_iff by (auto split: prod.splits)
    from decode_term_Panic [OF this] show ?thesis unfolding risky_tags_def .
  qed
  show ?thesis using part1 part2 by blast
qed

theorem decode_total_witness:
  "decode (\<lambda>_. None) [71] = Panic IndexOutOfBounds \<and> (\<exists>b\<in>set [71]. b \<in> {TAG_FLOAT, TAG_SMALL_BIG,
     TAG_LARGE_BIG, TAG_NEW_PID_EXT, TAG_NEW_PORT_EXT, TAG_NEW_REF_EXT, TAG_NEW_FUN_EXT})"
proof -
  have "decode (\<lambda>_. None) [71] = Panic IndexOutOfBounds"
    by (subst decode_tag(1))
      (simp_all add: decode_tagged_def etf_tags decode_new_pid_def skip_node_def del: decode_term.simps)
  with decode_total [THEN conjunct2, THEN mp, OF this] show ?thesis by blast
qed

end
