(* ===== verification/Bytes.thy ===== *)
theory Bytes
  imports Etf
begin

text \<open>
  Slices of a byte vector and the big- and little-endian words in them, as the decoders of BEAM
  files and of distribution messages read them.
\<close>

section \<open>Slices and big-endian words\<close>

definition slice :: "'a list \<Rightarrow> nat \<Rightarrow> nat \<Rightarrow> 'a list" where
  "slice xs i n = take n (drop i xs)"

lemma slice_append [simp]: "length xs = n \<Longrightarrow> slice (xs @ ys) 0 n = xs"
  by (simp add: slice_def)

lemma slice_length: "i + n \<le> length xs \<Longrightarrow> length (slice xs i n) = n"
  by (simp add: slice_def)

lemma slice_drop: "i + n \<le> length xs \<Longrightarrow> drop i xs = slice xs i n @ drop (i + n) xs"
  using append_take_drop_id [of n "drop i xs"] by (simp add: slice_def add.commute)

lemma slice_eq: "drop i xs = ys @ zs \<Longrightarrow> length ys = n \<Longrightarrow> slice xs i n = ys"
  by (simp add: slice_def)

lemma drop_more: "drop i xs = ys @ zs \<Longrightarrow> length ys = n \<Longrightarrow> drop (i + n) xs = zs"
  using drop_drop [of n i xs] by (simp add: add.commute)

lemma drop_length: "drop i xs = ys @ zs \<Longrightarrow> i \<le> length xs \<Longrightarrow> i + length ys \<le> length xs"
  by (drule arg_cong [where f = length]) simp

lemma nth_at: "drop i xs = y # ys \<Longrightarrow> xs ! i = y"
  by (metis append_Cons append_take_drop_id length_take list.size(3) min.absorb2 nat_le_linear
      drop_all list.distinct(1) nth_append_length)

lemma bytes_of_be32: "be_bytes32 (from_be32 a b c d) = [a, b, c, d]"
proof -
  have "ucast (drop_bit 24 (from_be32 a b c d)) = a" "ucast (drop_bit 16 (from_be32 a b c d)) = b"
    "ucast (drop_bit 8 (from_be32 a b c d)) = c" "ucast (from_be32 a b c d) = d"
    by (rule bit_word_eqI; auto simp: from_be32_def bit_simps dest: bit_imp_le_length)+
  then show ?thesis by (simp add: be_bytes32_def)
qed

lemma bytes_of_be16: "be_bytes16 (from_be16 a b) = [a, b]"
proof -
  have "ucast (drop_bit 8 (from_be16 a b)) = a" "ucast (from_be16 a b) = b"
    by (rule bit_word_eqI; auto simp: from_be16_def bit_simps dest: bit_imp_le_length)+
  then show ?thesis by (simp add: be_bytes16_def)
qed

lemma from_be_bytes16: "from_be16 (ucast (drop_bit 8 w)) (ucast w) = w"
proof (rule bit_word_eqI)
  fix n assume "n < LENGTH(16)"
  then consider "n < 8" | "8 \<le> n" "n < 16" by (simp, linarith)
  then show "bit (from_be16 (ucast (drop_bit 8 w)) (ucast w)) n = bit w n"
    unfolding from_be16_def by cases (auto simp: bit_simps)
qed

lemma be_bytes_length [simp]: "length (be_bytes32 w) = 4" "length (be_bytes16 v) = 2"
  by (simp_all add: be_bytes32_def be_bytes16_def)

lemma nth_drop_Cons: "i < length xs \<Longrightarrow> drop i xs = xs ! i # drop (i + 1) xs"
  by (simp add: Cons_nth_drop_Suc)

lemma four_Suc: "i + 4 = Suc (Suc (Suc (Suc i)))"
  by simp

lemma drop_be32: "i + 4 \<le> length xs \<Longrightarrow> drop i xs = be_bytes32 (be32_at xs i) @ drop (i + 4) xs"
  using nth_drop_Cons [of i xs] nth_drop_Cons [of "i + 1" xs] nth_drop_Cons [of "i + 2" xs]
    nth_drop_Cons [of "i + 3" xs]
  by (simp add: be32_at_def bytes_of_be32 four_Suc add.commute [of 3] numeral_3_eq_3)

lemma drop_be16:
  "i + 2 \<le> length xs \<Longrightarrow> drop i xs = be_bytes16 (from_be16 (xs ! i) (xs ! (i + 1))) @ drop (i + 2) xs"
  using nth_drop_Cons [of i xs] nth_drop_Cons [of "i + 1" xs]
  by (simp add: bytes_of_be16)

lemma be32_at_eq: "drop i xs = be_bytes32 w @ ys \<Longrightarrow> be32_at xs i = w"
proof -
  assume d: "drop i xs = be_bytes32 w @ ys"
  then have "i + 4 \<le> length xs" using drop_length [OF d] by (cases "i \<le> length xs") (simp_all add: be_bytes32_def)
  from drop_be32 [OF this] d have "be_bytes32 (be32_at xs i) = be_bytes32 w" by simp
  then have "from_be32 (ucast (drop_bit 24 (be32_at xs i))) (ucast (drop_bit 16 (be32_at xs i)))
      (ucast (drop_bit 8 (be32_at xs i))) (ucast (be32_at xs i)) = w"
    unfolding be_bytes32_def by (simp add: from_be_bytes32)
  then show ?thesis by (simp only: from_be_bytes32)
qed

lemma be16_at_eq: "drop i xs = be_bytes16 w @ ys \<Longrightarrow> from_be16 (xs ! i) (xs ! (i + 1)) = w"
proof -
  assume d: "drop i xs = be_bytes16 w @ ys"
  then have "i + 2 \<le> length xs" using drop_length [OF d] by (cases "i \<le> length xs") (simp_all add: be_bytes16_def)
  from drop_be16 [OF this] d have "be_bytes16 (from_be16 (xs ! i) (xs ! (i + 1))) = be_bytes16 w" by simp
  then show ?thesis
    using from_be_bytes16 [of w] from_be_bytes16 [of "from_be16 (xs ! i) (xs ! (i + 1))"]
    by (simp add: be_bytes16_def)
qed

section \<open>Little-endian words\<close>

definition le_bytes32 :: "u32 \<Rightarrow> u8 list" where
  "le_bytes32 w = rev (be_bytes32 w)"

definition le_bytes16 :: "u16 \<Rightarrow> u8 list" where
  "le_bytes16 w = rev (be_bytes16 w)"

definition le_bytes64 :: "u64 \<Rightarrow> u8 list" where
  "le_bytes64 w = le_bytes32 (ucast w) @ le_bytes32 (ucast (drop_bit 32 w))"

definition le32_at :: "u8 list \<Rightarrow> nat \<Rightarrow> u32" where
  "le32_at xs i = from_be32 (xs ! (i + 3)) (xs ! (i + 2)) (xs ! (i + 1)) (xs ! i)"

definition le64_at :: "u8 list \<Rightarrow> nat \<Rightarrow> u64" where
  "le64_at xs i = ucast (le32_at xs i) OR push_bit 32 (ucast (le32_at xs (i + 4)))"

lemma le_bytes_length [simp]:
  "length (le_bytes32 w) = 4" "length (le_bytes16 v) = 2" "length (le_bytes64 x) = 8"
  by (simp_all add: le_bytes32_def le_bytes16_def le_bytes64_def)

lemma le32_at_eq: "drop i xs = le_bytes32 w @ ys \<Longrightarrow> le32_at xs i = w"
proof -
  assume d: "drop i xs = le_bytes32 w @ ys"
  have "xs ! (i + k) = (le_bytes32 w @ ys) ! k" if "k < 4" for k
  proof -
    have "i \<le> length xs" using d by (cases "i \<le> length xs") (simp_all add: le_bytes32_def be_bytes32_def)
    then show ?thesis using arg_cong [OF d, of "\<lambda>l. l ! k"] by simp
  qed
  from this [of 0] this [of 1] this [of 2] this [of 3] show ?thesis
    by (simp add: le32_at_def le_bytes32_def be_bytes32_def from_be_bytes32 numeral_3_eq_3 numeral_2_eq_2)
qed

lemma ucast_halves: "ucast (ucast w :: u32) OR push_bit 32 (ucast (ucast (drop_bit 32 w) :: u32)) = (w :: u64)"
  by (rule bit_word_eqI) (auto simp: bit_simps)

lemma le64_at_eq: "drop i xs = le_bytes64 w @ ys \<Longrightarrow> le64_at xs i = w"
proof -
  assume d: "drop i xs = le_bytes64 w @ ys"
  then have d0: "drop i xs = le_bytes32 (ucast w) @ le_bytes32 (ucast (drop_bit 32 w)) @ ys"
    by (simp add: le_bytes64_def)
  have d4: "drop (i + 4) xs = le_bytes32 (ucast (drop_bit 32 w)) @ ys" by (rule drop_more [OF d0]) simp
  show ?thesis using le32_at_eq [OF d0] le32_at_eq [OF d4] by (simp add: le64_at_def ucast_halves)
qed

lemma drop_le: "drop i xs = ys @ zs \<Longrightarrow> ys @ zs \<noteq> [] \<Longrightarrow> i + length ys \<le> length xs"
  using drop_length [of i xs ys zs] by (cases "i \<le> length xs") auto

end
