(* ===== verification/Beam_File.thy ===== *)
theory Beam_File
  imports Bytes Core
begin

text \<open>
  BEAM files (\<^verbatim>\<open>crates/chimera_erlang_beam_code/src/\<close>): the container of chunks
  (\<^verbatim>\<open>iff.rs\<close>), the atom chunk (\<^verbatim>\<open>atoms.rs\<close>), the export and import tables
  (\<^verbatim>\<open>symbols.rs\<close>, \<^verbatim>\<open>mfa.rs\<close>) and the header of the code chunk (\<^verbatim>\<open>code_header.rs\<close>).

  The tables are lists of entries read by a loop over a moving offset; what makes the reader of
  an entry exact is the locale \<open>entry_codec\<close>, interpreted on the readers of atoms and of symbols.
  The writers (\<open>chunk_bytes\<close>, \<open>atom_bytes\<close>, \<open>symbol_bytes\<close>) are the specification of the file
  format: the sources contain no writer.
\<close>

section \<open>The container\<close>

definition FOR1_MAGIC :: "u8 list" where "FOR1_MAGIC = [0x46, 0x4F, 0x52, 0x31]"
definition BEAM_MAGIC :: "u8 list" where "BEAM_MAGIC = [0x42, 0x45, 0x41, 0x4D]"
definition BEAM_HEADER_SIZE :: nat where "BEAM_HEADER_SIZE = 12"
definition CHUNK_HEADER_SIZE :: nat where "CHUNK_HEADER_SIZE = 8"
definition MAX_CHUNK_SIZE :: nat where "MAX_CHUNK_SIZE = 256 * 1024 * 1024"

record chunk =
  ck_tag :: "u8 list"
  ck_data :: "u8 list"

record container =
  chunk_data_len :: u32
  chunks :: "chunk list"

datatype iff_error =
    Truncated
  | InvalidMagic "u8 list"
  | ChunkTooLarge nat nat
  | ChunkDataTooShort nat nat

text \<open>The printable form of a tag: bytes outside the printable range become question marks.\<close>

definition tag_as_str :: "u8 list \<Rightarrow> u8 list" where
  "tag_as_str t = map (\<lambda>b. if 0x20 \<le> b \<and> b < 0x7f then b else 0x3F) t"

function read_chunks :: "u8 list \<Rightarrow> nat \<Rightarrow> chunk list \<Rightarrow> (iff_error, chunk list) outcome" where
  "read_chunks data off acc =
     (if off + CHUNK_HEADER_SIZE \<le> length data then
        (let tag = slice data off 4;
             chunk_len = unat (be32_at data (off + 4));
             off' = off + 8
         in if chunk_len > MAX_CHUNK_SIZE then Err (ChunkTooLarge chunk_len MAX_CHUNK_SIZE)
            else if off' + chunk_len > length data then
              Err (ChunkDataTooShort chunk_len (length data - off'))
            else read_chunks data (off' + chunk_len)
                   (acc @ [\<lparr>ck_tag = tag, ck_data = slice data off' chunk_len\<rparr>]))
      else Ok acc)"
  by pat_completeness auto
termination
  by (relation "measure (\<lambda>(data, off, acc). length data - off)") (auto simp: CHUNK_HEADER_SIZE_def)

declare read_chunks.simps [simp del]

definition parse_container :: "u8 list \<Rightarrow> (iff_error, container) outcome" where
  "parse_container data =
     (if length data < 12 then Err Truncated
      else if slice data 0 4 \<noteq> FOR1_MAGIC then Err (InvalidMagic (slice data 0 4))
      else if slice data 8 4 \<noteq> BEAM_MAGIC then Err (InvalidMagic (slice data 8 4))
      else bind_o (read_chunks data BEAM_HEADER_SIZE [])
        (\<lambda>cs. Ok \<lparr>chunk_data_len = be32_at data 4, chunks = cs\<rparr>))"

section \<open>Tables of entries\<close>

text \<open>\<^verbatim>\<open>for i in 0..n\<close> with a body that reads an entry at the offset and pushes it.\<close>

primrec read_entries ::
  "(nat \<Rightarrow> nat \<Rightarrow> ('e, 'a \<times> nat) outcome) \<Rightarrow> nat \<Rightarrow> nat \<Rightarrow> nat \<Rightarrow> ('e, 'a list) outcome" where
  "read_entries rd 0 i off = Ok []"
| "read_entries rd (Suc n) i off =
     bind_o (rd i off) (\<lambda>(a, off'). bind_o (read_entries rd n (Suc i) off') (\<lambda>as. Ok (a # as)))"

subsection \<open>Atoms\<close>

record atom_entry =
  ae_index :: u32
  ae_name :: "u8 list"
  ae_is_utf8 :: bool

record beam_atoms =
  ba_entries :: "atom_entry list"

datatype atom_error =
    InvalidAtomTable
  | TruncatedAtomEntry u32 nat nat
  | InvalidAtomName u32

definition atoms_new :: beam_atoms where
  "atoms_new = \<lparr>ba_entries = []\<rparr>"

definition atoms_get :: "u32 \<Rightarrow> beam_atoms \<Rightarrow> atom_entry option" where
  "atoms_get i t = (if unat i < length (ba_entries t) then Some (ba_entries t ! unat i) else None)"

definition read_atom :: "u8 list \<Rightarrow> nat \<Rightarrow> nat \<Rightarrow> (atom_error, atom_entry \<times> nat) outcome" where
  "read_atom data i off =
     (if off + 2 > length data then Err (TruncatedAtomEntry (of_nat i) 2 (length data - off))
      else
        let name_len = unat (from_be16 (data ! off) (data ! (off + 1)));
            off' = off + 2;
            name = slice data off' name_len
        in if off' + name_len > length data then
             Err (TruncatedAtomEntry (of_nat i) name_len (length data - off'))
           else if utf8_valid name then
             Ok (\<lparr>ae_index = of_nat i, ae_name = name, ae_is_utf8 = True\<rparr>, off' + name_len)
           else Err (InvalidAtomName (of_nat i)))"

definition decode_utf8_atom_chunk :: "chunk \<Rightarrow> (atom_error, beam_atoms) outcome" where
  "decode_utf8_atom_chunk c =
     (if length (ck_data c) < 4 then Err InvalidAtomTable
      else bind_o (read_entries (read_atom (ck_data c)) (unat (be32_at (ck_data c) 0)) 0 4)
        (\<lambda>es. Ok \<lparr>ba_entries = es\<rparr>))"

subsection \<open>Exports and imports\<close>

record mfa =
  mfa_module_index :: u32
  mfa_function_index :: u32
  mfa_arity :: u8

record symbol_entry =
  sy_index :: u32
  sy_mfa :: mfa
  sy_module_name :: "u8 list option"
  sy_function_name :: "u8 list option"

record symbol_table =
  st_entries :: "symbol_entry list"

datatype symbol_error =
    InvalidExportTable
  | TruncatedSymbolEntry string u32 nat nat
  | InvalidImportTable

definition symbol_table_new :: symbol_table where
  "symbol_table_new = \<lparr>st_entries = []\<rparr>"

definition symbol_table_get :: "u32 \<Rightarrow> symbol_table \<Rightarrow> symbol_entry option" where
  "symbol_table_get i t =
     (if unat i < length (st_entries t) then Some (st_entries t ! unat i) else None)"

definition symbol_of :: "beam_atoms \<Rightarrow> nat \<Rightarrow> mfa \<Rightarrow> symbol_entry" where
  "symbol_of atoms i m =
     \<lparr>sy_index = of_nat i, sy_mfa = m,
      sy_module_name = map_option ae_name (atoms_get (mfa_module_index m) atoms),
      sy_function_name = map_option ae_name (atoms_get (mfa_function_index m) atoms)\<rparr>"

definition read_symbol ::
  "string \<Rightarrow> u8 list \<Rightarrow> nat \<Rightarrow> nat \<Rightarrow> (symbol_error, mfa \<times> nat) outcome" where
  "read_symbol table data i off =
     (if off + 9 > length data then Err (TruncatedSymbolEntry table (of_nat i) 9 (length data - off))
      else Ok (\<lparr>mfa_module_index = be32_at data off, mfa_function_index = be32_at data (off + 4),
                mfa_arity = data ! (off + 8)\<rparr>, off + 9))"

definition decode_symbols ::
  "string \<Rightarrow> symbol_error \<Rightarrow> chunk \<Rightarrow> beam_atoms \<Rightarrow> (symbol_error, symbol_table) outcome" where
  "decode_symbols table err c atoms =
     (if length (ck_data c) < 4 then Err err
      else bind_o (read_entries (read_symbol table (ck_data c)) (unat (be32_at (ck_data c) 0)) 0 4)
        (\<lambda>ms. Ok \<lparr>st_entries = map (\<lambda>(i, m). symbol_of atoms i m) (List.enumerate 0 ms)\<rparr>))"

definition decode_export_table :: "chunk \<Rightarrow> beam_atoms \<Rightarrow> (symbol_error, symbol_table) outcome" where
  "decode_export_table = decode_symbols ''ExpT'' InvalidExportTable"

definition decode_import_table :: "chunk \<Rightarrow> beam_atoms \<Rightarrow> (symbol_error, symbol_table) outcome" where
  "decode_import_table = decode_symbols ''ImpT'' InvalidImportTable"

section \<open>The header of the code chunk\<close>

definition CODE_HEADER_SIZE :: nat where "CODE_HEADER_SIZE = 40"
definition CODE_HEADER_MAGIC :: u32 where "CODE_HEADER_MAGIC = 0x7F000000"

record code_header =
  ch_magic :: u32
  ch_version :: u32
  ch_flags :: u32
  ch_code_size :: u32
  ch_export_count :: u32
  ch_import_count :: u32
  ch_local_count :: u32
  ch_lambda_count :: u32
  ch_code_label_count :: u32
  ch_function_count :: u32

datatype code_header_error =
    CodePayloadTooShort nat nat
  | InvalidCodeHeader string

definition parse_code_header :: "u8 list \<Rightarrow> (code_header_error, code_header) outcome" where
  "parse_code_header data =
     (if length data < CODE_HEADER_SIZE then Err (CodePayloadTooShort CODE_HEADER_SIZE (length data))
      else if be32_at data 0 \<noteq> CODE_HEADER_MAGIC then Err (InvalidCodeHeader ''bad magic'')
      else Ok \<lparr>ch_magic = be32_at data 0, ch_version = be32_at data 4, ch_flags = be32_at data 8,
               ch_code_size = be32_at data 12, ch_export_count = be32_at data 16,
               ch_import_count = be32_at data 20, ch_local_count = be32_at data 24,
               ch_lambda_count = be32_at data 28, ch_code_label_count = be32_at data 32,
               ch_function_count = be32_at data 36\<rparr>)"

section \<open>Exact readers\<close>

text \<open>A reader of entries at an offset and the bytes of an entry: the reader answers an entry
  exactly when its bytes stand at the offset.\<close>

locale entry_codec =
  fixes get :: "'b list \<Rightarrow> nat \<Rightarrow> nat \<Rightarrow> ('e, 'a \<times> nat) outcome"
    and put :: "'a \<Rightarrow> 'b list"
    and fits :: "nat \<Rightarrow> 'a \<Rightarrow> bool"
  assumes get_iff: "off \<le> length bs \<Longrightarrow>
    get bs i off = Ok (a, off') \<longleftrightarrow>
      fits i a \<and> off' = off + length (put a) \<and> drop off bs = put a @ drop off' bs \<and> off' \<le> length bs"
begin

fun all_fit :: "nat \<Rightarrow> 'a list \<Rightarrow> bool" where
  "all_fit i [] = True"
| "all_fit i (a # as) \<longleftrightarrow> fits i a \<and> all_fit (Suc i) as"

definition put_all :: "'a list \<Rightarrow> 'b list" where
  "put_all as = concat (map put as)"

lemma read_entries_Ok:
  "off \<le> length bs \<Longrightarrow> drop off bs = put_all as @ rest \<Longrightarrow> all_fit i as \<Longrightarrow>
   read_entries (get bs) (length as) i off = Ok as"
proof (induction as arbitrary: i off)
  case (Cons a as)
  have d: "drop off bs = put a @ put_all as @ rest" using Cons.prems(2) by (simp add: put_all_def)
  have g: "get bs i off = Ok (a, off + length (put a))"
    using get_iff [OF Cons.prems(1), of i a "off + length (put a)"] drop_more [OF d refl]
      drop_length [OF d Cons.prems(1)] d Cons.prems(3) by simp
  have "read_entries (get bs) (length as) (Suc i) (off + length (put a)) = Ok as"
    by (rule Cons.IH)
      (use drop_more [OF d refl] drop_length [OF d Cons.prems(1)] Cons.prems(3) in simp_all)
  with g show ?case by simp
qed simp

lemma read_entries_exact:
  "off \<le> length bs \<Longrightarrow> read_entries (get bs) n i off = Ok as \<Longrightarrow>
   length as = n \<and> all_fit i as \<and> (\<exists>rest. drop off bs = put_all as @ rest)"
proof (induction n arbitrary: i off as)
  case 0
  then show ?case by (simp add: put_all_def)
next
  case (Suc n)
  then obtain a off' as' where g: "get bs i off = Ok (a, off')"
    and r: "read_entries (get bs) n (Suc i) off' = Ok as'" and as: "as = a # as'"
    by (auto simp: bind_o_Ok_iff)
  from g have o: "fits i a" "drop off bs = put a @ drop off' bs" "off' \<le> length bs"
    using get_iff [OF Suc.prems(1)] by auto
  from Suc.IH [OF o(3) r] o as show ?case by (auto simp: put_all_def)
qed

text \<open>The whole table: a count and the entries.\<close>

lemma table_iff:
  assumes "4 \<le> length bs"
  shows "read_entries (get bs) n 0 4 = Ok as \<longleftrightarrow>
    length as = n \<and> all_fit 0 as \<and> (\<exists>rest. drop 4 bs = put_all as @ rest)"
  using read_entries_Ok [OF assms, of as _ 0] read_entries_exact [OF assms, of n 0 as] by auto

end

definition atom_bytes :: "atom_entry \<Rightarrow> u8 list" where
  "atom_bytes a = be_bytes16 (of_nat (length (ae_name a))) @ ae_name a"

definition atom_fits :: "nat \<Rightarrow> atom_entry \<Rightarrow> bool" where
  "atom_fits i a \<longleftrightarrow> ae_index a = of_nat i \<and> ae_is_utf8 a \<and> utf8_valid (ae_name a)
     \<and> length (ae_name a) < 2 ^ 16"

definition symbol_bytes :: "mfa \<Rightarrow> u8 list" where
  "symbol_bytes m = be_bytes32 (mfa_module_index m) @ be_bytes32 (mfa_function_index m) @ [mfa_arity m]"

lemma read_atom_Ok:
  assumes "off \<le> length bs" "atom_fits i a" "drop off bs = atom_bytes a @ rest"
  shows "read_atom bs i off = Ok (a, off + length (atom_bytes a))"
proof -
  let ?n = "length (ae_name a)"
  have len: "off + 2 + ?n \<le> length bs"
    using drop_length [OF assms(3,1)] by (simp add: atom_bytes_def)
  have d: "drop off bs = be_bytes16 (of_nat ?n) @ ae_name a @ rest"
    using assms(3) by (simp add: atom_bytes_def)
  have w: "unat (from_be16 (bs ! off) (bs ! (off + 1))) = ?n"
    using be16_at_eq [OF d] assms(2) by (simp add: atom_fits_def unat_of_nat)
  have n: "slice bs (off + 2) ?n = ae_name a"
    by (rule slice_eq [OF drop_more [OF d] refl]) simp
  have e: "\<lparr>ae_index = of_nat i, ae_name = ae_name a, ae_is_utf8 = True\<rparr> = a"
    using assms(2) by (simp add: atom_fits_def)
  show ?thesis
    using len w n e assms(2) by (simp add: read_atom_def atom_fits_def atom_bytes_def Let_def)
qed

lemma read_atom_exact:
  assumes "read_atom bs i off = Ok (a, off')"
  shows "atom_fits i a \<and> off' = off + length (atom_bytes a) \<and> drop off bs = atom_bytes a @ drop off' bs
    \<and> off' \<le> length bs"
proof -
  let ?w = "from_be16 (bs ! off) (bs ! (off + 1))"
  let ?n = "unat ?w"
  have len: "off + 2 + ?n \<le> length bs" and u: "utf8_valid (slice bs (off + 2) ?n)"
    and a: "a = \<lparr>ae_index = of_nat i, ae_name = slice bs (off + 2) ?n, ae_is_utf8 = True\<rparr>"
    and o: "off' = off + 2 + ?n"
    using assms by (auto simp: read_atom_def Let_def not_less split: if_splits)
  have ln: "length (ae_name a) = ?n" using len a by (simp add: slice_length)
  have "?n < 2 ^ 16" using unat_lt [of ?w] by simp
  moreover have "drop off bs = be_bytes16 ?w @ slice bs (off + 2) ?n @ drop off' bs"
    using drop_be16 [of off bs] slice_drop [of "off + 2" ?n bs] len o by (simp add: add.assoc)
  ultimately show ?thesis
    using ln a o u len by (simp add: atom_fits_def atom_bytes_def)
qed

interpretation atom_codec: entry_codec read_atom atom_bytes atom_fits
  by unfold_locales (use read_atom_Ok read_atom_exact in metis)

lemma read_symbol_exact:
  "off \<le> length bs \<Longrightarrow> read_symbol t bs i off = Ok (m, off') \<longleftrightarrow>
     off' = off + length (symbol_bytes m) \<and> drop off bs = symbol_bytes m @ drop off' bs \<and> off' \<le> length bs"
proof -
  assume off: "off \<le> length bs"
  show ?thesis
  proof
    assume r: "read_symbol t bs i off = Ok (m, off')"
    then have len: "off + 9 \<le> length bs" and o: "off' = off + 9"
      and m: "m = \<lparr>mfa_module_index = be32_at bs off, mfa_function_index = be32_at bs (off + 4),
                mfa_arity = bs ! (off + 8)\<rparr>"
      by (auto simp: read_symbol_def split: if_splits)
    show "off' = off + length (symbol_bytes m) \<and> drop off bs = symbol_bytes m @ drop off' bs \<and> off' \<le> length bs"
      using len o m drop_be32 [of off bs] drop_be32 [of "off + 4" bs] nth_drop_Cons [of "off + 8" bs]
      by (simp add: symbol_bytes_def add.assoc add.commute [of 9])
  next
    assume a: "off' = off + length (symbol_bytes m) \<and> drop off bs = symbol_bytes m @ drop off' bs \<and> off' \<le> length bs"
    then have d: "drop off bs = be_bytes32 (mfa_module_index m) @ be_bytes32 (mfa_function_index m) @ mfa_arity m # drop off' bs"
      by (simp add: symbol_bytes_def)
    have d4: "drop (off + 4) bs = be_bytes32 (mfa_function_index m) @ mfa_arity m # drop off' bs"
      by (rule drop_more [OF d]) simp
    have d8: "drop (off + 4 + 4) bs = mfa_arity m # drop off' bs"
      by (rule drop_more [OF d4]) simp
    show "read_symbol t bs i off = Ok (m, off')"
      using a be32_at_eq [OF d] be32_at_eq [OF d4] nth_at [OF d8]
      by (simp add: read_symbol_def symbol_bytes_def add.assoc)
  qed
qed

interpretation symbol_codec: entry_codec "read_symbol t" symbol_bytes "\<lambda>i m. True" for t
  by unfold_locales (use read_symbol_exact in simp)

section \<open>The grammar of containers\<close>

definition chunk_ok :: "chunk \<Rightarrow> bool" where
  "chunk_ok c \<longleftrightarrow> length (ck_tag c) = 4 \<and> length (ck_data c) \<le> MAX_CHUNK_SIZE"

definition chunk_bytes :: "chunk \<Rightarrow> u8 list" where
  "chunk_bytes c = ck_tag c @ be_bytes32 (of_nat (length (ck_data c))) @ ck_data c"

definition container_bytes :: "container \<Rightarrow> u8 list" where
  "container_bytes c = FOR1_MAGIC @ be_bytes32 (chunk_data_len c) @ BEAM_MAGIC @ concat (map chunk_bytes (chunks c))"

lemma read_chunks_Ok:
  "off \<le> length data \<Longrightarrow> drop off data = concat (map chunk_bytes cs) @ junk \<Longrightarrow> list_all chunk_ok cs \<Longrightarrow>
   length junk < 8 \<Longrightarrow> read_chunks data off acc = Ok (acc @ cs)"
proof (induction cs arbitrary: off acc)
  case Nil
  then have "\<not> off + CHUNK_HEADER_SIZE \<le> length data"
    by (auto simp: CHUNK_HEADER_SIZE_def dest!: arg_cong [where f = length])
  then show ?case by (simp add: read_chunks.simps)
next
  case (Cons c cs)
  let ?n = "length (ck_data c)" and ?rest = "concat (map chunk_bytes cs) @ junk"
  have d: "drop off data = ck_tag c @ be_bytes32 (of_nat ?n) @ ck_data c @ ?rest" and t: "length (ck_tag c) = 4"
    and n: "?n \<le> MAX_CHUNK_SIZE"
    using Cons.prems by (simp_all add: chunk_bytes_def [of c] chunk_ok_def [of c])
  have d4: "drop (off + 4) data = be_bytes32 (of_nat ?n) @ ck_data c @ ?rest" by (rule drop_more [OF d t])
  have d8: "drop (off + 8) data = ck_data c @ ?rest" using drop_more [OF d4, of 4] by (simp add: add.assoc)
  have dn: "drop (off + 8 + ?n) data = ?rest" by (rule drop_more [OF d8 refl])
  have len: "off + 8 + ?n \<le> length data"
    using drop_length [of off data "ck_tag c @ be_bytes32 (of_nat ?n) @ ck_data c" ?rest] d Cons.prems(1) t
    by simp
  have eta: "\<lparr>ck_tag = ck_tag c, ck_data = ck_data c\<rparr> = c" by (cases c) simp
  have "unat (be32_at data (off + 4)) = ?n"
    using be32_at_eq [OF d4] n by (simp add: MAX_CHUNK_SIZE_def)
  moreover have "slice data off 4 = ck_tag c" by (rule slice_eq [OF d t])
  moreover have "slice data (off + 8) ?n = ck_data c" by (rule slice_eq [OF d8 refl])
  moreover have "read_chunks data (off + 8 + ?n) (acc @ [c]) = Ok ((acc @ [c]) @ cs)"
    using Cons.prems(3,4) by (intro Cons.IH len dn) simp_all
  ultimately show ?case
    using len n by (subst read_chunks.simps) (simp add: CHUNK_HEADER_SIZE_def Let_def eta)
qed

lemma read_chunks_exact:
  "off \<le> length data \<Longrightarrow> read_chunks data off acc = Ok cs \<Longrightarrow>
   \<exists>cs' junk. cs = acc @ cs' \<and> drop off data = concat (map chunk_bytes cs') @ junk \<and> list_all chunk_ok cs'
     \<and> length junk < 8"
proof (induction data off acc rule: read_chunks.induct)
  case (1 data off acc)
  let ?n = "unat (be32_at data (off + 4))" and ?tag = "slice data off 4"
  let ?c = "\<lparr>ck_tag = ?tag, ck_data = slice data (off + 8) ?n\<rparr>"
  show ?case
  proof (cases "off + CHUNK_HEADER_SIZE \<le> length data")
    case False
    with "1.prems" have "cs = acc @ []" "length (drop off data) < 8"
      by (simp_all add: read_chunks.simps CHUNK_HEADER_SIZE_def)
    then show ?thesis by (intro exI [of _ "[]"] exI [of _ "drop off data"]) simp
  next
    case True
    then have len: "?n \<le> MAX_CHUNK_SIZE" "off + 8 + ?n \<le> length data"
      and r: "read_chunks data (off + 8 + ?n) (acc @ [?c]) = Ok cs"
      using "1.prems"(2) by (subst (asm) read_chunks.simps; simp add: Let_def not_less split: if_splits)+
    obtain cs' junk where c: "cs = (acc @ [?c]) @ cs'"
      "drop (off + 8 + ?n) data = concat (map chunk_bytes cs') @ junk" "list_all chunk_ok cs'" "length junk < 8"
      using "1.IH" [OF True refl refl refl _ _ len(2) r] len by auto
    have s: "length ?tag = 4" "length (ck_data ?c) = ?n" using len(2) by (simp_all add: slice_length)
    have "drop off data = ?tag @ drop (off + 4) data"
      using slice_drop [of off 4 data] len(2) by simp
    also have "drop (off + 4) data = be_bytes32 (be32_at data (off + 4)) @ drop (off + 8) data"
      using drop_be32 [of "off + 4" data] len(2) by (simp add: add.assoc)
    also have "drop (off + 8) data = slice data (off + 8) ?n @ drop (off + 8 + ?n) data"
      using slice_drop [OF len(2)] .
    finally have "drop off data = chunk_bytes ?c @ concat (map chunk_bytes cs') @ junk"
      using s by (simp add: chunk_bytes_def c(2))
    then show ?thesis
      using c s len(1) by (intro exI [of _ "?c # cs'"] exI [of _ junk]) (simp add: chunk_ok_def [of ?c])
  qed
qed

lemma read_chunks_returns: "read_chunks data off acc \<noteq> Panic p" "read_chunks data off acc \<noteq> OutOfFuel"
  by (induction data off acc rule: read_chunks.induct)
    (subst read_chunks.simps, simp add: Let_def)+

definition header_words :: "code_header \<Rightarrow> u32 list" where
  "header_words h = [ch_magic h, ch_version h, ch_flags h, ch_code_size h, ch_export_count h,
     ch_import_count h, ch_local_count h, ch_lambda_count h, ch_code_label_count h, ch_function_count h]"

lemma concat_be32_at:
  "i < length ws \<Longrightarrow> be32_at (concat (map be_bytes32 ws) @ rest) (4 * i) = ws ! i"
proof (rule be32_at_eq)
  assume i: "i < length ws"
  have "length (concat (map be_bytes32 (take i ws))) = 4 * i"
    using i by (simp add: length_concat sum_list_triv comp_def)
  moreover have "concat (map be_bytes32 ws) = concat (map be_bytes32 (take i ws)) @ be_bytes32 (ws ! i)
      @ concat (map be_bytes32 (drop (Suc i) ws))"
    by (subst id_take_nth_drop [OF i]) simp
  ultimately show "drop (4 * i) (concat (map be_bytes32 ws) @ rest)
      = be_bytes32 (ws ! i) @ concat (map be_bytes32 (drop (Suc i) ws)) @ rest"
    by simp
qed

lemma parse_code_header_Ok:
  assumes "ch_magic h = CODE_HEADER_MAGIC"
  shows "parse_code_header (concat (map be_bytes32 (header_words h)) @ rest) = Ok h"
proof -
  let ?d = "concat (map be_bytes32 (header_words h)) @ rest"
  have at: "be32_at ?d (4 * i) = header_words h ! i" if "i < 10" for i
    using concat_be32_at [of i "header_words h" rest] that by (simp add: header_words_def)
  have "CODE_HEADER_SIZE \<le> length ?d"
    by (simp add: header_words_def CODE_HEADER_SIZE_def)
  moreover have "be32_at ?d 0 = ch_magic h" "be32_at ?d 4 = ch_version h" "be32_at ?d 8 = ch_flags h"
    "be32_at ?d 12 = ch_code_size h" "be32_at ?d 16 = ch_export_count h" "be32_at ?d 20 = ch_import_count h"
    "be32_at ?d 24 = ch_local_count h" "be32_at ?d 28 = ch_lambda_count h"
    "be32_at ?d 32 = ch_code_label_count h" "be32_at ?d 36 = ch_function_count h"
    using at [of 0] at [of 1] at [of 2] at [of 3] at [of 4] at [of 5] at [of 6] at [of 7] at [of 8] at [of 9]
    by (simp_all add: header_words_def nth_Cons')
  ultimately show ?thesis using assms by (simp add: parse_code_header_def)
qed

lemma parse_container_Ok:
  assumes "length junk < 8" "list_all chunk_ok (chunks c)" "data = container_bytes c @ junk"
  shows "parse_container data = Ok c"
proof -
  have a: "list_all chunk_ok (chunks c)" "length junk < 8"
    "drop 0 data = FOR1_MAGIC @ be_bytes32 (chunk_data_len c) @ BEAM_MAGIC @ concat (map chunk_bytes (chunks c)) @ junk"
    using assms by (simp_all add: container_bytes_def)
  have l: "length FOR1_MAGIC = 4" "length BEAM_MAGIC = 4" by (simp_all add: FOR1_MAGIC_def BEAM_MAGIC_def)
  have d4: "drop (0 + 4) data = be_bytes32 (chunk_data_len c) @ BEAM_MAGIC @ concat (map chunk_bytes (chunks c)) @ junk"
    by (rule drop_more [OF a(3) l(1)])
  have d8: "drop (0 + 4 + 4) data = BEAM_MAGIC @ concat (map chunk_bytes (chunks c)) @ junk"
    by (rule drop_more [OF d4]) simp
  have d12: "drop (0 + 4 + 4 + 4) data = concat (map chunk_bytes (chunks c)) @ junk"
    by (rule drop_more [OF d8 l(2)])
  have len: "12 \<le> length data"
    using drop_length [OF d8] a(3) l drop_length [OF a(3)] arg_cong [OF a(3), of length] by simp
  show ?thesis
    using slice_eq [OF a(3) l(1)] slice_eq [OF d8 l(2)] be32_at_eq [OF d4] len
      read_chunks_Ok [of 12 data "chunks c" junk "[]"] d12 a
    by (simp add: parse_container_def BEAM_HEADER_SIZE_def)
qed

section \<open>Properties\<close>

text \<open>C21. A file is accepted as a container exactly when it is the FOR1 magic, any length field (which
is not compared with anything), the BEAM magic and chunks of a four-byte tag, their length and at
most 256 MB of data, followed by fewer than eight bytes that are ignored; the chunks are answered
in order, and no input panics.\<close>
theorem container_grammar:
    "(parse_container data = Ok c \<longleftrightarrow>
     list_all chunk_ok (chunks c) \<and> (\<exists>junk. length junk < 8 \<and> data = container_bytes c @ junk))
    \<and> (parse_container data \<noteq> Panic p)
    \<and> (parse_container data \<noteq> OutOfFuel)"
proof -
  have part1: "parse_container data = Ok c \<longleftrightarrow>
     list_all chunk_ok (chunks c) \<and> (\<exists>junk. length junk < 8 \<and> data = container_bytes c @ junk)"
  proof
    assume "parse_container data = Ok c"
    then have m: "12 \<le> length data" "slice data 0 4 = FOR1_MAGIC" "slice data 8 4 = BEAM_MAGIC"
      "chunk_data_len c = be32_at data 4" "read_chunks data 12 [] = Ok (chunks c)"
      by (auto simp: parse_container_def bind_o_Ok_iff BEAM_HEADER_SIZE_def split: if_splits)
    have "data = FOR1_MAGIC @ be_bytes32 (chunk_data_len c) @ BEAM_MAGIC @ drop 12 data"
      using slice_drop [of 0 4 data] drop_be32 [of 4 data] slice_drop [of 8 4 data] m by simp
    with read_chunks_exact [OF m(1,5)]
    show "list_all chunk_ok (chunks c) \<and> (\<exists>junk. length junk < 8 \<and> data = container_bytes c @ junk)"
      by (auto simp: container_bytes_def)
  next
    assume "list_all chunk_ok (chunks c) \<and> (\<exists>junk. length junk < 8 \<and> data = container_bytes c @ junk)"
    then show "parse_container data = Ok c" using parse_container_Ok by blast
  qed
  have part2: "parse_container data \<noteq> Panic p" "parse_container data \<noteq> OutOfFuel"
    using read_chunks_returns [of data BEAM_HEADER_SIZE "[]"]
    by (cases "read_chunks data BEAM_HEADER_SIZE []"; simp add: parse_container_def)+
  show ?thesis using part1 part2 by blast
qed

text \<open>The tables of a BEAM file are read exactly: the atom chunk decodes to a table exactly when
it is the number of atoms and, for each, its length in two bytes and its valid UTF-8 name, numbered
in order; an export table to the triples it lists, with the names of those atoms that exist; bytes
after the last entry are ignored.\<close>
theorem tables_exact:
    "(decode_utf8_atom_chunk c = Ok t \<longleftrightarrow>
     atom_codec.all_fit 0 (ba_entries t) \<and> (\<exists>n rest. length (ba_entries t) = unat n
       \<and> ck_data c = be_bytes32 n @ concat (map atom_bytes (ba_entries t)) @ rest))
    \<and> (decode_export_table c atoms = Ok s \<longleftrightarrow>
     (\<exists>ms n rest. length ms = unat n \<and> ck_data c = be_bytes32 n @ concat (map symbol_bytes ms) @ rest
       \<and> st_entries s = map (\<lambda>(i, m). symbol_of atoms i m) (List.enumerate 0 ms)))"
proof -
  have start: "ck_data c = be_bytes32 (be32_at (ck_data c) 0) @ drop 4 (ck_data c)" if "4 \<le> length (ck_data c)"
    using drop_be32 [of 0 "ck_data c"] that by simp
  have count: "4 \<le> length (ck_data c) \<and> be32_at (ck_data c) 0 = n \<and> drop 4 (ck_data c) = xs"
    if "ck_data c = be_bytes32 n @ xs" for n xs
    using be32_at_eq [of 0 "ck_data c" n xs] that by simp
  note at = atom_codec.table_iff [of "ck_data c" "unat (be32_at (ck_data c) 0)" "ba_entries t", unfolded atom_codec.put_all_def]
  note sy = symbol_codec.table_iff [of "ck_data c" "''ExpT''" "unat (be32_at (ck_data c) 0)", unfolded symbol_codec.put_all_def]
  have part1: "decode_utf8_atom_chunk c = Ok t \<longleftrightarrow>
     atom_codec.all_fit 0 (ba_entries t) \<and> (\<exists>n rest. length (ba_entries t) = unat n
       \<and> ck_data c = be_bytes32 n @ concat (map atom_bytes (ba_entries t)) @ rest)" (is "?l \<longleftrightarrow> ?r")
  proof
    assume ?l
    then have "4 \<le> length (ck_data c)"
      "read_entries (read_atom (ck_data c)) (unat (be32_at (ck_data c) 0)) 0 4 = Ok (ba_entries t)"
      by (auto simp: decode_utf8_atom_chunk_def bind_o_Ok_iff split: if_splits)
    with at start show ?r by metis
  next
    assume r: ?r
    then obtain n rest where "length (ba_entries t) = unat n"
      "ck_data c = be_bytes32 n @ concat (map atom_bytes (ba_entries t)) @ rest" by blast
    with count [OF this(2)] at r
    have "read_entries (read_atom (ck_data c)) (unat (be32_at (ck_data c) 0)) 0 4 = Ok (ba_entries t)"
      "4 \<le> length (ck_data c)" by auto
    then show ?l by (simp add: decode_utf8_atom_chunk_def)
  qed
  have fit: "symbol_codec.all_fit i ms" for i and ms :: "mfa list" by (induction ms arbitrary: i) auto
  have part2: "decode_export_table c atoms = Ok s \<longleftrightarrow>
     (\<exists>ms n rest. length ms = unat n \<and> ck_data c = be_bytes32 n @ concat (map symbol_bytes ms) @ rest
       \<and> st_entries s = map (\<lambda>(i, m). symbol_of atoms i m) (List.enumerate 0 ms))" (is "?l \<longleftrightarrow> ?r")
  proof
    assume ?l
    then obtain ms where "4 \<le> length (ck_data c)"
      "read_entries (read_symbol ''ExpT'' (ck_data c)) (unat (be32_at (ck_data c) 0)) 0 4 = Ok ms"
      "st_entries s = map (\<lambda>(i, m). symbol_of atoms i m) (List.enumerate 0 ms)"
      by (auto simp: decode_export_table_def decode_symbols_def bind_o_Ok_iff split: if_splits)
    with sy [of ms] start show ?r by metis
  next
    assume ?r
    then obtain ms n rest where "length ms = unat n"
      "ck_data c = be_bytes32 n @ concat (map symbol_bytes ms) @ rest"
      "st_entries s = map (\<lambda>(i, m). symbol_of atoms i m) (List.enumerate 0 ms)" by blast
    with count [OF this(2)] sy [of ms] fit [of 0 ms]
    have "read_entries (read_symbol ''ExpT'' (ck_data c)) (unat (be32_at (ck_data c) 0)) 0 4 = Ok ms"
      "4 \<le> length (ck_data c)" "st_entries s = map (\<lambda>(i, m). symbol_of atoms i m) (List.enumerate 0 ms)"
      by auto
    then show ?l by (simp add: decode_export_table_def decode_symbols_def)
  qed
  show ?thesis using part1 part2 by blast
qed

end
