(* ===== verification/Code_Loader.thy ===== *)
theory Code_Loader
  imports Beam_File
begin

text \<open>
  The code loader (\<^verbatim>\<open>crates/chimera_erlang_beam_code/src/lib.rs\<close>): the module table and the
  code area that \<^verbatim>\<open>load_module_from_bytes\<close> fills.

  \<^verbatim>\<open>load_module\<close> has the stem of its path and what opening and reading the file gave as arguments.
  The body of \<^verbatim>\<open>load_module_from_bytes\<close> is \<open>read_module\<close>, everything that can fail, and the
  placement of the code, which cannot.
\<close>

section \<open>Modules\<close>

record export_entry =
  ex_name :: "u8 list"
  ex_arity :: u8
  ex_address :: nat
  ex_label :: nat

record loaded_module =
  lm_name :: "u8 list"
  lm_atoms :: beam_atoms
  lm_exports :: "export_entry list"
  lm_imports :: symbol_table
  lm_code :: "u8 list"
  lm_code_size :: nat
  lm_header :: code_header
  lm_original_index :: nat

definition loaded_module_new :: "u8 list \<Rightarrow> loaded_module" where
  "loaded_module_new name =
     \<lparr>lm_name = name, lm_atoms = atoms_new, lm_exports = [], lm_imports = symbol_table_new, lm_code = [],
      lm_code_size = 0,
      lm_header = \<lparr>ch_magic = 0, ch_version = 0, ch_flags = 0, ch_code_size = 0, ch_export_count = 0,
        ch_import_count = 0, ch_local_count = 0, ch_lambda_count = 0, ch_code_label_count = 0,
        ch_function_count = 0\<rparr>,
      lm_original_index = 0\<rparr>"

definition get_export :: "u8 list \<Rightarrow> u8 \<Rightarrow> loaded_module \<Rightarrow> export_entry option" where
  "get_export name arity m = List.find (\<lambda>e. ex_name e = name \<and> ex_arity e = arity) (lm_exports m)"

definition get_function_address :: "u8 list \<Rightarrow> u8 \<Rightarrow> loaded_module \<Rightarrow> nat option" where
  "get_function_address name arity m =
     map_option ex_address (List.find (\<lambda>e. ex_name e = name \<and> ex_arity e = arity) (lm_exports m))"

type_synonym module_table = "u8 list \<rightharpoonup> loaded_module"

definition module_table_new :: module_table where
  "module_table_new = Map.empty"

definition module_table_add :: "loaded_module \<Rightarrow> module_table \<Rightarrow> module_table" where
  "module_table_add m t = t(lm_name m \<mapsto> m)"

definition module_table_get :: "u8 list \<Rightarrow> module_table \<Rightarrow> loaded_module option" where
  "module_table_get name t = t name"

definition module_table_contains :: "u8 list \<Rightarrow> module_table \<Rightarrow> bool" where
  "module_table_contains name t \<longleftrightarrow> t name \<noteq> None"

section \<open>The loader\<close>

record code_loader =
  cl_module_table :: module_table
  cl_code_area :: "u8 list"
  cl_next_address :: nat

definition code_loader_new :: code_loader where
  "code_loader_new = \<lparr>cl_module_table = module_table_new, cl_code_area = [], cl_next_address = 0\<rparr>"

definition AtU8 :: "u8 list" where "AtU8 = [0x41, 0x74, 0x55, 0x38]"
definition AtomTag :: "u8 list" where "AtomTag = [0x41, 0x74, 0x6F, 0x6D]"
definition ExpT :: "u8 list" where "ExpT = [0x45, 0x78, 0x70, 0x54]"
definition ImpT :: "u8 list" where "ImpT = [0x49, 0x6D, 0x70, 0x54]"
definition CodeTag :: "u8 list" where "CodeTag = [0x43, 0x6F, 0x64, 0x65]"

lemmas chunk_tags = AtU8_def AtomTag_def ExpT_def ImpT_def CodeTag_def

fun map_err :: "'f \<Rightarrow> ('e, 'a) outcome \<Rightarrow> ('f, 'a) outcome" where
  "map_err f (Ok a) = Ok a"
| "map_err f (Err e) = Err f"
| "map_err f (Panic p) = Panic p"
| "map_err f OutOfFuel = OutOfFuel"

fun ok_or :: "'e \<Rightarrow> 'a option \<Rightarrow> ('e, 'a) outcome" where
  "ok_or e (Some a) = Ok a"
| "ok_or e None = Err e"

definition find_chunk :: "u8 list set \<Rightarrow> container \<Rightarrow> chunk option" where
  "find_chunk tags c = List.find (\<lambda>k. ck_tag k \<in> tags) (chunks c)"

text \<open>The export entries: only those whose function name is an atom of the table, each labelled
  with its position.\<close>

definition export_entries :: "symbol_table \<Rightarrow> export_entry list" where
  "export_entries t = List.map_filter
     (\<lambda>(i, e). map_option (\<lambda>n. \<lparr>ex_name = n, ex_arity = mfa_arity (sy_mfa e), ex_address = 0, ex_label = i\<rparr>)
        (sy_function_name e))
     (List.enumerate 0 (st_entries t))"

definition read_code :: "chunk \<Rightarrow> (vm_error, code_header \<times> u8 list) outcome" where
  "read_code c =
     bind_o (map_err (LoadError InvalidFormat) (parse_code_header (ck_data c))) (\<lambda>header.
       if CODE_HEADER_SIZE + unat (ch_code_size header) > length (ck_data c)
       then Err (LoadError TruncatedChunk)
       else Ok (header, slice (ck_data c) CODE_HEADER_SIZE (unat (ch_code_size header))))"

definition read_imports :: "container \<Rightarrow> beam_atoms \<Rightarrow> (vm_error, symbol_table) outcome" where
  "read_imports c atoms =
     (case find_chunk {ImpT} c of
        Some k \<Rightarrow> map_err (LoadError ImportError) (decode_import_table k atoms)
      | None \<Rightarrow> Ok symbol_table_new)"

definition read_module :: "u8 list \<Rightarrow> u8 list \<Rightarrow> nat \<Rightarrow> (vm_error, loaded_module) outcome" where
  "read_module name data address =
     bind_o (map_err (LoadError InvalidFormat) (parse_container data)) (\<lambda>container.
     bind_o (ok_or (LoadError ImportError) (find_chunk {AtU8, AtomTag} container)) (\<lambda>atom_chunk.
     bind_o (if ck_tag atom_chunk = AtU8
             then map_err (LoadError ImportError) (decode_utf8_atom_chunk atom_chunk)
             else Err Unimplemented) (\<lambda>atoms.
     bind_o (ok_or (LoadError ExportError) (find_chunk {ExpT} container)) (\<lambda>exp_chunk.
     bind_o (map_err (LoadError ExportError) (decode_export_table exp_chunk atoms)) (\<lambda>exports.
     bind_o (ok_or (LoadError NoCodeFound) (find_chunk {CodeTag} container)) (\<lambda>code_chunk.
     bind_o (read_code code_chunk) (\<lambda>(header, code).
     bind_o (read_imports container atoms) (\<lambda>imports.
       Ok \<lparr>lm_name = name, lm_atoms = atoms,
           lm_exports = map (ex_address_update (\<lambda>_. address)) (export_entries exports),
           lm_imports = imports, lm_code = code, lm_code_size = length code, lm_header = header,
           lm_original_index = address\<rparr>))))))))"

definition load_module_from_bytes ::
  "u8 list \<Rightarrow> u8 list \<Rightarrow> code_loader \<Rightarrow> (vm_error, loaded_module) outcome \<times> code_loader" where
  "load_module_from_bytes name data cl =
     (case read_module name data (cl_next_address cl) of
        Ok m \<Rightarrow>
          (Ok m, cl\<lparr>cl_next_address := cl_next_address cl + length (lm_code m),
                    cl_code_area := cl_code_area cl @ lm_code m,
                    cl_module_table := module_table_add m (cl_module_table cl)\<rparr>)
      | r \<Rightarrow> (r, cl))"

definition load_module ::
  "u8 list option \<Rightarrow> string + u8 list \<Rightarrow> code_loader
     \<Rightarrow> (vm_error, loaded_module) outcome \<times> code_loader" where
  "load_module stem contents cl =
     (case stem of
        None \<Rightarrow> (Err BadArg, cl)
      | Some module_name \<Rightarrow>
          (case contents of
             Inl e \<Rightarrow> (Err (IoError e), cl)
           | Inr buffer \<Rightarrow> load_module_from_bytes module_name buffer cl))"

definition get_module :: "u8 list \<Rightarrow> code_loader \<Rightarrow> loaded_module option" where
  "get_module name cl = module_table_get name (cl_module_table cl)"

definition get_code_at :: "nat \<Rightarrow> code_loader \<Rightarrow> u8 option" where
  "get_code_at address cl =
     (if address < length (cl_code_area cl) then Some (cl_code_area cl ! address) else None)"

definition total_code_size :: "code_loader \<Rightarrow> nat" where
  "total_code_size cl = length (cl_code_area cl)"

definition resolve_mfa :: "u8 list \<Rightarrow> u8 list \<Rightarrow> u8 \<Rightarrow> code_loader \<Rightarrow> (nat \<times> export_entry) option" where
  "resolve_mfa module function arity cl =
     (case module_table_get module (cl_module_table cl) of
        None \<Rightarrow> None
      | Some loaded \<Rightarrow>
          (case get_export function arity loaded of
             None \<Rightarrow> None
           | Some e \<Rightarrow> Some (ex_address e, e)))"

definition get_exports :: "u8 list \<Rightarrow> code_loader \<Rightarrow> export_entry list option" where
  "get_exports module cl = map_option lm_exports (module_table_get module (cl_module_table cl))"

definition get_imports :: "u8 list \<Rightarrow> code_loader \<Rightarrow> symbol_table option" where
  "get_imports module cl = map_option lm_imports (module_table_get module (cl_module_table cl))"

section \<open>Placement of the code\<close>

text \<open>Every module of the table lies in the code area where it says, and all its exports have that
  address.\<close>

definition placed :: "u8 list \<Rightarrow> loaded_module \<Rightarrow> bool" where
  "placed area m \<longleftrightarrow> lm_code_size m = length (lm_code m)
     \<and> lm_original_index m + length (lm_code m) \<le> length area
     \<and> slice area (lm_original_index m) (length (lm_code m)) = lm_code m
     \<and> list_all (\<lambda>e. ex_address e = lm_original_index m) (lm_exports m)"

definition loader_ok :: "code_loader \<Rightarrow> bool" where
  "loader_ok cl \<longleftrightarrow> cl_next_address cl = length (cl_code_area cl)
     \<and> (\<forall>name m. cl_module_table cl name = Some m \<longrightarrow> lm_name m = name \<and> placed (cl_code_area cl) m)"

lemma placed_append: "placed area m \<Longrightarrow> placed (area @ bs) m"
  by (auto simp: placed_def slice_def)

lemma read_module_shape:
  assumes "read_module name data address = Ok m"
  shows "lm_name m = name \<and> lm_original_index m = address \<and> lm_code_size m = length (lm_code m)
    \<and> list_all (\<lambda>e. ex_address e = address) (lm_exports m)"
  using assms unfolding read_module_def
  by (auto simp: bind_o_Ok_iff list_all_iff split: prod.splits)

lemma loader_new_ok: "loader_ok code_loader_new"
  by (simp add: loader_ok_def code_loader_new_def module_table_new_def)

lemma load_ok:
  assumes "loader_ok cl"
  shows "loader_ok (snd (load_module_from_bytes name data cl))"
proof (cases "read_module name data (cl_next_address cl)")
  case (Ok m)
  have "placed (cl_code_area cl @ lm_code m) m"
    using read_module_shape [OF Ok] assms by (simp add: placed_def slice_def loader_ok_def)
  with assms Ok read_module_shape [OF Ok] show ?thesis
    by (auto simp: loader_ok_def load_module_from_bytes_def module_table_add_def placed_append)
qed (use assms in \<open>simp_all add: load_module_from_bytes_def\<close>)

fun load_all :: "(u8 list \<times> u8 list) list \<Rightarrow> code_loader \<Rightarrow> code_loader" where
  "load_all [] cl = cl"
| "load_all ((name, data) # fs) cl = load_all fs (snd (load_module_from_bytes name data cl))"

lemma load_all_ok: "loader_ok cl \<Longrightarrow> loader_ok (load_all fs cl)"
  by (induction fs cl rule: load_all.induct) (auto simp: load_ok)

lemma load_area: "\<exists>bs. cl_code_area (snd (load_module_from_bytes name data cl)) = cl_code_area cl @ bs"
  by (auto simp: load_module_from_bytes_def split: outcome.split)

lemma load_all_area: "\<exists>bs. cl_code_area (load_all fs cl) = cl_code_area cl @ bs"
proof (induction fs cl rule: load_all.induct)
  case (2 name data fs cl)
  then show ?case using load_area [of name data cl] by auto
qed simp

lemma load_all_append: "load_all (fs @ gs) cl = load_all gs (load_all fs cl)"
  by (induction fs cl rule: load_all.induct) auto

lemma get_code_placed:
  assumes "placed area m" "i < length (lm_code m)"
  shows "area ! (lm_original_index m + i) = lm_code m ! i"
proof -
  have "lm_code m ! i = slice area (lm_original_index m) (length (lm_code m)) ! i"
    using assms(1) by (simp add: placed_def)
  then show ?thesis using assms by (simp add: slice_def placed_def)
qed

section \<open>Writing module files\<close>

text \<open>The files the loader is meant for: an atom chunk, an export chunk, a code chunk, and an
  import chunk.\<close>

record module_source =
  ms_atoms :: "u8 list list"
  ms_exports :: "mfa list"
  ms_imports :: "mfa list"
  ms_header :: code_header
  ms_code :: "u8 list"

definition source_atoms :: "module_source \<Rightarrow> atom_entry list" where
  "source_atoms s = map (\<lambda>(i, n). \<lparr>ae_index = of_nat i, ae_name = n, ae_is_utf8 = True\<rparr>)
     (List.enumerate 0 (ms_atoms s))"

definition table_bytes :: "('a \<Rightarrow> u8 list) \<Rightarrow> 'a list \<Rightarrow> u8 list" where
  "table_bytes put as = be_bytes32 (of_nat (length as)) @ concat (map put as)"

definition source_chunks :: "module_source \<Rightarrow> chunk list" where
  "source_chunks s =
     [\<lparr>ck_tag = AtU8, ck_data = table_bytes atom_bytes (source_atoms s)\<rparr>,
      \<lparr>ck_tag = ExpT, ck_data = table_bytes symbol_bytes (ms_exports s)\<rparr>,
      \<lparr>ck_tag = CodeTag, ck_data = concat (map be_bytes32 (header_words (ms_header s))) @ ms_code s\<rparr>,
      \<lparr>ck_tag = ImpT, ck_data = table_bytes symbol_bytes (ms_imports s)\<rparr>]"

definition source_ok :: "module_source \<Rightarrow> bool" where
  "source_ok s \<longleftrightarrow> list_all (\<lambda>n. utf8_valid n \<and> length n < 2 ^ 16) (ms_atoms s)
     \<and> ch_magic (ms_header s) = CODE_HEADER_MAGIC
     \<and> unat (ch_code_size (ms_header s)) = length (ms_code s)
     \<and> list_all (\<lambda>c. length (ck_data c) \<le> MAX_CHUNK_SIZE) (source_chunks s)"

definition source_file :: "u32 \<Rightarrow> module_source \<Rightarrow> u8 list" where
  "source_file n s = container_bytes \<lparr>chunk_data_len = n, chunks = source_chunks s\<rparr>"

lemma table_start:
  assumes "length as < 2 ^ 32"
  shows "4 \<le> length (table_bytes put as) \<and> unat (be32_at (table_bytes put as) 0) = length as
    \<and> drop 4 (table_bytes put as) = concat (map put as) @ []"
proof -
  have "drop 0 (table_bytes put as) = be_bytes32 (of_nat (length as)) @ concat (map put as)"
    by (simp add: table_bytes_def)
  from be32_at_eq [OF this] show ?thesis
    using assms by (simp add: table_bytes_def)
qed

lemma table_count:
  assumes "length (table_bytes put as) \<le> MAX_CHUNK_SIZE" "\<And>a. put a \<noteq> []"
  shows "length as < 2 ^ 32"
proof -
  have "length as \<le> length (concat (map put as))"
  proof (induction as)
    case (Cons a as)
    have "1 \<le> length (put a)" using assms(2) [of a] by (cases "put a") auto
    with Cons show ?case by simp
  qed simp
  then show ?thesis using assms(1) by (simp add: table_bytes_def MAX_CHUNK_SIZE_def)
qed

lemma source_atoms_fit:
  "list_all (\<lambda>n. utf8_valid n \<and> length n < 2 ^ 16) ns \<Longrightarrow>
   atom_codec.all_fit k (map (\<lambda>(i, n). \<lparr>ae_index = of_nat i, ae_name = n, ae_is_utf8 = True\<rparr>) (List.enumerate k ns))"
  by (induction ns arbitrary: k) (auto simp: atom_fits_def)

lemma decode_source_atoms:
  assumes "source_ok s" "ck_data c = table_bytes atom_bytes (source_atoms s)"
  shows "decode_utf8_atom_chunk c = Ok \<lparr>ba_entries = source_atoms s\<rparr>"
proof -
  have n: "length (source_atoms s) < 2 ^ 32"
    by (rule table_count [of atom_bytes])
      (use assms(1) in \<open>auto simp: source_ok_def source_chunks_def atom_bytes_def be_bytes16_def\<close>)
  note t = table_start [OF n, of atom_bytes]
  have fit: "atom_codec.all_fit 0 (source_atoms s)"
    unfolding source_atoms_def by (rule source_atoms_fit) (use assms(1) in \<open>simp add: source_ok_def\<close>)
  have "read_entries (read_atom (ck_data c)) (unat (be32_at (ck_data c) 0)) 0 4 = Ok (source_atoms s)"
    using t atom_codec.read_entries_Ok [of 4 "ck_data c" "source_atoms s" "[]", OF _ _ fit]
    by (simp add: assms(2) atom_codec.put_all_def)
  then show ?thesis using t assms(2) by (simp add: decode_utf8_atom_chunk_def)
qed

definition symbols_of :: "beam_atoms \<Rightarrow> mfa list \<Rightarrow> symbol_table" where
  "symbols_of atoms ms = \<lparr>st_entries = map (\<lambda>(i, m). symbol_of atoms i m) (List.enumerate 0 ms)\<rparr>"

lemma decode_source_symbols:
  assumes "length (ck_data c) \<le> MAX_CHUNK_SIZE" "ck_data c = table_bytes symbol_bytes ms"
  shows "decode_symbols t err c atoms = Ok (symbols_of atoms ms)"
proof -
  have n: "length ms < 2 ^ 32"
    by (rule table_count [of symbol_bytes]) (use assms in \<open>auto simp: symbol_bytes_def\<close>)
  note st = table_start [OF n, of symbol_bytes]
  have fit: "symbol_codec.all_fit i ms" for i and ms :: "mfa list" by (induction ms arbitrary: i) auto
  have "read_entries (read_symbol t (ck_data c)) (unat (be32_at (ck_data c) 0)) 0 4 = Ok ms"
    using st symbol_codec.read_entries_Ok [of 4 "ck_data c" ms "[]", OF _ _ fit]
    by (simp add: assms(2) symbol_codec.put_all_def)
  then show ?thesis using st assms(2) by (simp add: decode_symbols_def symbols_of_def)
qed

lemma read_source_code:
  assumes "source_ok s" "ck_data c = concat (map be_bytes32 (header_words (ms_header s))) @ ms_code s"
  shows "read_code c = Ok (ms_header s, ms_code s)"
proof -
  have "length (concat (map be_bytes32 (header_words (ms_header s)))) = CODE_HEADER_SIZE"
    by (simp add: header_words_def CODE_HEADER_SIZE_def)
  moreover have "parse_code_header (ck_data c) = Ok (ms_header s)"
    unfolding assms(2) by (rule parse_code_header_Ok) (use assms(1) in \<open>simp add: source_ok_def\<close>)
  ultimately show ?thesis
    using assms by (simp add: read_code_def source_ok_def slice_def)
qed

lemma tags_distinct [simp]:
  "AtU8 \<noteq> ExpT" "AtU8 \<noteq> CodeTag" "AtU8 \<noteq> ImpT" "ExpT \<noteq> CodeTag" "ExpT \<noteq> ImpT" "CodeTag \<noteq> ImpT"
  by (simp_all add: chunk_tags)

lemma parse_source_file:
  assumes "source_ok s"
  shows "parse_container (source_file n s) = Ok \<lparr>chunk_data_len = n, chunks = source_chunks s\<rparr>"
proof -
  have "list_all chunk_ok (source_chunks s)"
    using assms by (simp add: source_ok_def source_chunks_def chunk_ok_def chunk_tags)
  then show ?thesis
    by (intro parse_container_Ok [of "[]"]) (simp_all add: source_file_def)
qed

lemma read_source:
  assumes "source_ok s"
  shows "read_module name (source_file n s) address =
    Ok \<lparr>lm_name = name, lm_atoms = \<lparr>ba_entries = source_atoms s\<rparr>,
        lm_exports = map (ex_address_update (\<lambda>_. address))
          (export_entries (symbols_of \<lparr>ba_entries = source_atoms s\<rparr> (ms_exports s))),
        lm_imports = symbols_of \<lparr>ba_entries = source_atoms s\<rparr> (ms_imports s),
        lm_code = ms_code s, lm_code_size = length (ms_code s), lm_header = ms_header s,
        lm_original_index = address\<rparr>"
proof -
  let ?c = "\<lparr>chunk_data_len = n, chunks = source_chunks s\<rparr>"
  have f: "find_chunk {AtU8, AtomTag} ?c = Some (source_chunks s ! 0)"
    "find_chunk {ExpT} ?c = Some (source_chunks s ! 1)"
    "find_chunk {CodeTag} ?c = Some (source_chunks s ! 2)"
    "find_chunk {ImpT} ?c = Some (source_chunks s ! 3)"
    by (simp_all add: find_chunk_def source_chunks_def tags_distinct [symmetric])
  have l: "length (ck_data (source_chunks s ! i)) \<le> MAX_CHUNK_SIZE" if "i < 4" for i
    using assms that by (auto simp: source_ok_def list_all_length source_chunks_def)
  have "decode_utf8_atom_chunk (source_chunks s ! 0) = Ok \<lparr>ba_entries = source_atoms s\<rparr>"
    by (rule decode_source_atoms [OF assms]) (simp add: source_chunks_def)
  moreover have "decode_export_table (source_chunks s ! 1) a = Ok (symbols_of a (ms_exports s))" for a
    unfolding decode_export_table_def
    by (rule decode_source_symbols [OF l]) (simp_all add: source_chunks_def)
  moreover have "decode_import_table (source_chunks s ! 3) a = Ok (symbols_of a (ms_imports s))" for a
    unfolding decode_import_table_def
    by (rule decode_source_symbols [OF l]) (simp_all add: source_chunks_def)
  moreover have "read_code (source_chunks s ! 2) = Ok (ms_header s, ms_code s)"
    by (rule read_source_code [OF assms]) (simp add: source_chunks_def)
  moreover have "ck_tag (source_chunks s ! 0) = AtU8" by (simp add: source_chunks_def)
  ultimately show ?thesis
    by (simp add: read_module_def parse_source_file [OF assms] f read_imports_def)
qed

text \<open>The exports of a source: its triples whose function index is an atom.\<close>

definition source_exports :: "module_source \<Rightarrow> nat \<Rightarrow> export_entry list" where
  "source_exports s address =
     map (\<lambda>(i, m). \<lparr>ex_name = ms_atoms s ! unat (mfa_function_index m), ex_arity = mfa_arity m,
                    ex_address = address, ex_label = i\<rparr>)
       (filter (\<lambda>(i, m). unat (mfa_function_index m) < length (ms_atoms s)) (List.enumerate 0 (ms_exports s)))"

lemma source_atom_name:
  "map_option ae_name (atoms_get j \<lparr>ba_entries = source_atoms s\<rparr>)
     = (if unat j < length (ms_atoms s) then Some (ms_atoms s ! unat j) else None)"
  by (simp add: atoms_get_def source_atoms_def nth_enumerate_eq)

lemma export_entries_source:
  "map (ex_address_update (\<lambda>_. address)) (export_entries (symbols_of \<lparr>ba_entries = source_atoms s\<rparr> (ms_exports s)))
     = source_exports s address"
proof -
  have "List.map_filter (\<lambda>(i, e). map_option (\<lambda>n. \<lparr>ex_name = n, ex_arity = mfa_arity (sy_mfa e),
        ex_address = 0, ex_label = i\<rparr>) (sy_function_name e))
      (List.enumerate k (map (\<lambda>(i, m). symbol_of \<lparr>ba_entries = source_atoms s\<rparr> i m) (List.enumerate k ms)))
    = map (\<lambda>(i, m). \<lparr>ex_name = ms_atoms s ! unat (mfa_function_index m), ex_arity = mfa_arity m,
                    ex_address = 0, ex_label = i\<rparr>)
       (filter (\<lambda>(i, m). unat (mfa_function_index m) < length (ms_atoms s)) (List.enumerate k ms))" for k ms
    by (induction ms arbitrary: k) (auto simp: List.map_filter_def symbol_of_def source_atom_name)
  from this [of 0 "ms_exports s"] show ?thesis
    unfolding export_entries_def symbols_of_def source_exports_def by (simp add: comp_def case_prod_unfold)
qed

section \<open>Properties\<close>

text \<open>C18. Loading a module file with atoms, exports, imports, header and code gives back exactly its
atoms, its imports, its header and its code, and the exports whose function index is an atom of the
file, each at the place where the code was put, with its position as label; the other exports are
dropped.\<close>
theorem load_module_roundtrip:
  assumes "source_ok s"
  shows "\<exists>m. fst (load_module_from_bytes name (source_file n s) cl) = Ok m
    \<and> map ae_name (ba_entries (lm_atoms m)) = ms_atoms s
    \<and> map sy_mfa (st_entries (lm_imports m)) = ms_imports s
    \<and> lm_header m = ms_header s \<and> lm_code m = ms_code s
    \<and> lm_exports m = source_exports s (cl_next_address cl)
    \<and> get_module name (snd (load_module_from_bytes name (source_file n s) cl)) = Some m"
proof -
  have "map sy_mfa (st_entries (symbols_of a ms)) = ms" for a ms
  proof -
    have "map sy_mfa (map (\<lambda>(i, m). symbol_of a i m) (List.enumerate k ms)) = ms" for k
      by (induction ms arbitrary: k) (auto simp: symbol_of_def)
    then show ?thesis by (simp add: symbols_of_def)
  qed
  moreover have "map ae_name (source_atoms s) = ms_atoms s"
    unfolding source_atoms_def by (simp add: comp_def case_prod_unfold)
  ultimately show ?thesis
    by (simp add: load_module_from_bytes_def read_source [OF assms] export_entries_source
        get_module_def module_table_get_def module_table_add_def)
qed

definition sample_source :: module_source where
  "sample_source = \<lparr>ms_atoms = [[109], [102]],
     ms_exports = [\<lparr>mfa_module_index = 0, mfa_function_index = 1, mfa_arity = 2\<rparr>], ms_imports = [],
     ms_header = \<lparr>ch_magic = CODE_HEADER_MAGIC, ch_version = 0, ch_flags = 0, ch_code_size = 3,
       ch_export_count = 1, ch_import_count = 0, ch_local_count = 0, ch_lambda_count = 0,
       ch_code_label_count = 1, ch_function_count = 1\<rparr>,
     ms_code = [1, 2, 3]\<rparr>"

lemma sample_source_ok: "source_ok sample_source"
  by (simp add: source_ok_def sample_source_def source_chunks_def source_atoms_def table_bytes_def
      atom_bytes_def symbol_bytes_def header_words_def MAX_CHUNK_SIZE_def)

theorem load_module_roundtrip_witness:
  "\<exists>m. fst (load_module_from_bytes [109] (source_file 0 sample_source) code_loader_new) = Ok m
     \<and> lm_code m = [1, 2, 3]
     \<and> lm_exports m = [\<lparr>ex_name = [102], ex_arity = 2, ex_address = 0, ex_label = 0\<rparr>]"
  using load_module_roundtrip [OF sample_source_ok, of "[109]" 0 code_loader_new]
  by (auto simp: sample_source_def source_exports_def code_loader_new_def)

text \<open>C19. Loaded code stays where it was put: after any sequence of loads, accepted or refused, an
export of a module of the table resolves to the address of the first byte of the code of its module,
the bytes found from there on are that code, and they are still found there after any further loads,
also of a module of the same name; a refused load changes nothing.\<close>
theorem loaded_code_stays:
  assumes "cl = load_all fs code_loader_new" "get_module name cl = Some m" "i < length (lm_code m)"
  shows
    "(get_code_at (lm_original_index m + i) (load_all gs cl) = Some (lm_code m ! i))
    \<and> (resolve_mfa name f arity cl = Some (address, e)
        \<longrightarrow> (address = lm_original_index m))
    \<and> (fst (load_module_from_bytes nm data cl) = Err x
        \<longrightarrow> (snd (load_module_from_bytes nm data cl) = cl))"
proof -
  have ok: "loader_ok cl" unfolding assms(1) by (rule load_all_ok [OF loader_new_ok])
  then have pl: "placed (cl_code_area cl) m"
    using assms(2) by (simp add: loader_ok_def get_module_def module_table_get_def)
  obtain bs where bs: "cl_code_area (load_all gs cl) = cl_code_area cl @ bs"
    using load_all_area by blast
  have part1: "get_code_at (lm_original_index m + i) (load_all gs cl) = Some (lm_code m ! i)"
    using get_code_placed [OF placed_append [OF pl, of bs] assms(3)] placed_append [OF pl, of bs] assms(3)
    by (simp add: get_code_at_def bs placed_def)
  have part2: "address = lm_original_index m" if "resolve_mfa name f arity cl = Some (address, e)"
  proof -
    have "get_export f arity m = Some e" "address = ex_address e"
      using that assms(2) by (auto simp: resolve_mfa_def get_module_def split: option.splits)
    then have "e \<in> set (lm_exports m)" by (auto simp: get_export_def find_Some_iff)
    then show ?thesis
      using pl \<open>address = ex_address e\<close> by (simp add: placed_def list_all_iff)
  qed
  have part3: "snd (load_module_from_bytes nm data cl) = cl" if "fst (load_module_from_bytes nm data cl) = Err x"
    using that by (simp add: load_module_from_bytes_def split: outcome.splits)
  show ?thesis using part1 part2 part3 by blast
qed

theorem loaded_code_stays_witness:
  "\<exists>m. get_module [109] (load_all [([109], source_file 0 sample_source)] code_loader_new) = Some m
     \<and> get_code_at (lm_original_index m + 2)
          (load_all [([109], source_file 1 sample_source), ([109], [])] (load_all [([109], source_file 0 sample_source)] code_loader_new)) = Some (lm_code m ! 2)"
proof -
  let ?cl = "load_all [([109], source_file 0 sample_source)] code_loader_new"
  obtain m where "get_module [109] ?cl = Some m" "length (lm_code m) = 3"
    by (simp add: load_module_from_bytes_def read_source [OF sample_source_ok] get_module_def
        module_table_get_def module_table_add_def) (simp add: sample_source_def)
  then show ?thesis using loaded_code_stays [of ?cl, OF refl, of "[109]" m 2 "[([109], source_file 1 sample_source), ([109], [])]"]
    by auto
qed

end
