(* ===== verification/Hot_Code.thy ===== *)
theory Hot_Code
  imports Prelude
begin

text \<open>
  Versions of a module and the code server
  (\<^verbatim>\<open>crates/chimera_erlang_beam_code/src/hot_code.rs\<close>).

  A hash map is a map; the clock read by \<^verbatim>\<open>CodeVersion::new\<close> is an argument.
\<close>

section \<open>Versions\<close>

record code_version =
  cv_version :: u32
  cv_code :: "u8 list"
  cv_loaded_at :: u64
  cv_active_processes :: u32

definition code_version_new :: "u32 \<Rightarrow> u8 list \<Rightarrow> u64 \<Rightarrow> code_version" where
  "code_version_new v code now =
     \<lparr>cv_version = v, cv_code = code, cv_loaded_at = now, cv_active_processes = 0\<rparr>"

definition add_process :: "code_version \<Rightarrow> code_version" where
  "add_process v = v\<lparr>cv_active_processes := cv_active_processes v + 1\<rparr>"

definition remove_process :: "code_version \<Rightarrow> code_version" where
  "remove_process v = v\<lparr>cv_active_processes :=
     (if cv_active_processes v = 0 then 0 else cv_active_processes v - 1)\<rparr>"

definition can_purge :: "code_version \<Rightarrow> bool" where
  "can_purge v \<longleftrightarrow> cv_active_processes v = 0"

section \<open>Modules\<close>

record module_code =
  mc_name :: string
  mc_versions :: "u32 \<rightharpoonup> code_version"
  mc_current_version :: u32
  mc_old_version :: "u32 option"

definition module_code_new :: "string \<Rightarrow> module_code" where
  "module_code_new name =
     \<lparr>mc_name = name, mc_versions = Map.empty, mc_current_version = 0, mc_old_version = None\<rparr>"

definition load_version :: "u8 list \<Rightarrow> u64 \<Rightarrow> module_code \<Rightarrow> u32 \<times> module_code" where
  "load_version code now m =
     (let v = mc_current_version m + 1;
          m = (if mc_current_version m > 0 then m\<lparr>mc_old_version := Some (mc_current_version m)\<rparr> else m)
      in (v, m\<lparr>mc_versions := (mc_versions m)(v \<mapsto> code_version_new v code now), mc_current_version := v\<rparr>))"

definition current_code :: "module_code \<Rightarrow> u8 list option" where
  "current_code m = map_option cv_code (mc_versions m (mc_current_version m))"

definition old_code :: "module_code \<Rightarrow> u8 list option" where
  "old_code m = (case mc_old_version m of None \<Rightarrow> None | Some v \<Rightarrow> map_option cv_code (mc_versions m v))"

definition get_version :: "u32 \<Rightarrow> module_code \<Rightarrow> code_version option" where
  "get_version v m = mc_versions m v"

definition can_purge_old :: "module_code \<Rightarrow> bool" where
  "can_purge_old m =
     (case mc_old_version m of
        None \<Rightarrow> False
      | Some v \<Rightarrow> (case mc_versions m v of None \<Rightarrow> False | Some c \<Rightarrow> can_purge c))"

definition purge_old :: "module_code \<Rightarrow> bool \<times> module_code" where
  "purge_old m =
     (if \<not> can_purge_old m then (False, m)
      else case mc_old_version m of
        Some v \<Rightarrow> (True, m\<lparr>mc_versions := (mc_versions m)(v := None), mc_old_version := None\<rparr>)
      | None \<Rightarrow> (False, m))"

definition add_process_to_version :: "u32 \<Rightarrow> module_code \<Rightarrow> module_code" where
  "add_process_to_version v m =
     (case mc_versions m v of
        Some c \<Rightarrow> m\<lparr>mc_versions := (mc_versions m)(v \<mapsto> add_process c)\<rparr>
      | None \<Rightarrow> m)"

definition remove_process_from_version :: "u32 \<Rightarrow> module_code \<Rightarrow> module_code" where
  "remove_process_from_version v m =
     (case mc_versions m v of
        Some c \<Rightarrow> m\<lparr>mc_versions := (mc_versions m)(v \<mapsto> remove_process c)\<rparr>
      | None \<Rightarrow> m)"

definition num_versions :: "module_code \<Rightarrow> nat" where
  "num_versions m = card (dom (mc_versions m))"

section \<open>The code server\<close>

type_synonym code_server = "string \<rightharpoonup> module_code"

definition code_server_new :: code_server where
  "code_server_new = Map.empty"

definition server_load_module :: "string \<Rightarrow> u8 list \<Rightarrow> u64 \<Rightarrow> code_server \<Rightarrow> u32 \<times> code_server" where
  "server_load_module name code now s =
     (let m = (case s name of Some m \<Rightarrow> m | None \<Rightarrow> module_code_new name);
          (v, m') = load_version code now m
      in (v, s(name \<mapsto> m')))"

definition get_module_code :: "string \<Rightarrow> code_server \<Rightarrow> u8 list option" where
  "get_module_code name s = Option.bind (s name) current_code"

definition get_module_version :: "string \<Rightarrow> u32 \<Rightarrow> code_server \<Rightarrow> code_version option" where
  "get_module_version name v s = Option.bind (s name) (get_version v)"

definition is_loaded :: "string \<Rightarrow> code_server \<Rightarrow> bool" where
  "is_loaded name s = (case s name of Some m \<Rightarrow> mc_current_version m > 0 | None \<Rightarrow> False)"

definition purge_old_code :: "string \<Rightarrow> code_server \<Rightarrow> bool \<times> code_server" where
  "purge_old_code name s =
     (case s name of
        Some m \<Rightarrow> (let (b, m') = purge_old m in (b, s(name \<mapsto> m')))
      | None \<Rightarrow> (False, s))"

definition loaded_modules :: "code_server \<Rightarrow> string set" where
  "loaded_modules s = {n. \<exists>m. s n = Some m \<and> mc_current_version m > 0}"

definition server_can_purge_old :: "string \<Rightarrow> code_server \<Rightarrow> bool" where
  "server_can_purge_old name s = (case s name of Some m \<Rightarrow> can_purge_old m | None \<Rightarrow> False)"

section \<open>Runs\<close>

datatype hot_op =
    LoadCode "u8 list" u64
  | PurgeOld
  | AddProcess u32
  | RemoveProcess u32

fun hot_step :: "hot_op \<Rightarrow> module_code \<Rightarrow> module_code" where
  "hot_step (LoadCode code now) m = snd (load_version code now m)"
| "hot_step PurgeOld m = snd (purge_old m)"
| "hot_step (AddProcess v) m = add_process_to_version v m"
| "hot_step (RemoveProcess v) m = remove_process_from_version v m"

fun loads :: "hot_op list \<Rightarrow> u8 list list" where
  "loads [] = []"
| "loads (LoadCode code now # ops) = code # loads ops"
| "loads (_ # ops) = loads ops"

text \<open>The state after the loads of \<open>codes\<close>: version \<open>k\<close> is the \<open>k\<close>-th load, the old version, if
  any, is the one before the current.\<close>

definition versions_inv :: "u8 list list \<Rightarrow> module_code \<Rightarrow> bool" where
  "versions_inv codes m \<longleftrightarrow> length codes < 2 ^ 32 \<and> mc_current_version m = of_nat (length codes)
     \<and> (\<forall>v c. mc_versions m v = Some c \<longrightarrow> 0 < unat v \<and> unat v \<le> length codes \<and> cv_code c = codes ! (unat v - 1))
     \<and> (codes \<noteq> [] \<longrightarrow> mc_versions m (mc_current_version m) \<noteq> None)
     \<and> (\<forall>v. mc_old_version m = Some v \<longrightarrow> unat v + 1 = length codes \<and> mc_versions m v \<noteq> None)"

lemma versions_invI:
  assumes "length codes < 2 ^ 32" "mc_current_version m = of_nat (length codes)"
    and "\<And>v c. mc_versions m v = Some c \<Longrightarrow>
      0 < unat v \<and> unat v \<le> length codes \<and> cv_code c = codes ! (unat v - 1)"
    and "codes \<noteq> [] \<Longrightarrow> mc_versions m (mc_current_version m) \<noteq> None"
    and "\<And>v. mc_old_version m = Some v \<Longrightarrow> unat v + 1 = length codes \<and> mc_versions m v \<noteq> None"
  shows "versions_inv codes m"
  using assms unfolding versions_inv_def by blast

lemma versions_invD:
  assumes "versions_inv codes m"
  shows "length codes < 2 ^ 32" and "mc_current_version m = of_nat (length codes)"
    and "mc_versions m v = Some c \<Longrightarrow>
      0 < unat v \<and> unat v \<le> length codes \<and> cv_code c = codes ! (unat v - 1)"
    and "codes \<noteq> [] \<Longrightarrow> mc_versions m (mc_current_version m) \<noteq> None"
    and "mc_old_version m = Some v \<Longrightarrow> unat v + 1 = length codes \<and> mc_versions m v \<noteq> None"
  using assms unfolding versions_inv_def by blast+

lemma versions_inv_new: "versions_inv [] (module_code_new name)"
  by (simp add: versions_inv_def module_code_new_def)

lemma versions_inv_touch:
  assumes "versions_inv codes m" "\<And>c. cv_code (f c) = cv_code c" "mc_versions m v = Some c"
  shows "versions_inv codes (m\<lparr>mc_versions := (mc_versions m)(v \<mapsto> f c)\<rparr>)"
proof (rule versions_invI)
  show "length codes < 2 ^ 32" by (rule versions_invD(1) [OF assms(1)])
  show "mc_current_version (m\<lparr>mc_versions := (mc_versions m)(v \<mapsto> f c)\<rparr>) = of_nat (length codes)"
    using versions_invD(2) [OF assms(1)] by simp
  show "0 < unat w \<and> unat w \<le> length codes \<and> cv_code d = codes ! (unat w - 1)"
    if "mc_versions (m\<lparr>mc_versions := (mc_versions m)(v \<mapsto> f c)\<rparr>) w = Some d" for w d
    using that versions_invD(3) [OF assms(1)] assms(2,3) by (cases "w = v") fastforce+
  show "mc_versions (m\<lparr>mc_versions := (mc_versions m)(v \<mapsto> f c)\<rparr>)
      (mc_current_version (m\<lparr>mc_versions := (mc_versions m)(v \<mapsto> f c)\<rparr>)) \<noteq> None" if "codes \<noteq> []"
    using versions_invD(4) [OF assms(1) that] by simp
  show "unat w + 1 = length codes \<and> mc_versions (m\<lparr>mc_versions := (mc_versions m)(v \<mapsto> f c)\<rparr>) w \<noteq> None"
    if "mc_old_version (m\<lparr>mc_versions := (mc_versions m)(v \<mapsto> f c)\<rparr>) = Some w" for w
    using versions_invD(5) [OF assms(1), of w] that by simp
qed

lemma versions_inv_load:
  assumes "versions_inv codes m" "length codes + 1 < 2 ^ 32"
  shows "versions_inv (codes @ [code]) (snd (load_version code now m))"
proof -
  let ?n = "length codes"
  have n: "mc_current_version m = of_nat ?n" using assms(1) by (simp add: versions_inv_def)
  have u: "unat (1 + of_nat ?n :: u32) = ?n + 1"
    using unat_of_nat_u32 [of "?n + 1"] assms(2) by (simp add: add.commute)
  have w: "unat (of_nat ?n :: u32) = ?n" using assms(2) by simp
  have pos: "0 < (of_nat ?n :: u32) \<longleftrightarrow> codes \<noteq> []" using w by (simp add: word_less_nat_alt)
  define m' where "m' = snd (load_version code now m)"
  have m': "mc_versions m' = (mc_versions m)(1 + of_nat ?n \<mapsto> code_version_new (1 + of_nat ?n) code now)"
    "mc_current_version m' = 1 + of_nat ?n"
    "mc_old_version m' = (if codes = [] then mc_old_version m else Some (of_nat ?n))"
    using pos n by (simp_all add: m'_def load_version_def Let_def add.commute)
  have "versions_inv (codes @ [code]) m'"
  proof (rule versions_invI)
    show "0 < unat v \<and> unat v \<le> length (codes @ [code]) \<and> cv_code c = (codes @ [code]) ! (unat v - 1)"
      if "mc_versions m' v = Some c" for v c
    proof (cases "v = 1 + of_nat ?n")
      case True
      then show ?thesis using that u by (auto simp: m' code_version_new_def)
    next
      case False
      then have "mc_versions m v = Some c" using that by (simp add: m')
      from versions_invD(3) [OF assms(1) this] show ?thesis by (auto simp: nth_append)
    qed
    show "unat v + 1 = length (codes @ [code]) \<and> mc_versions m' v \<noteq> None" if "mc_old_version m' = Some v" for v
    proof (cases "codes = []")
      case True
      then show ?thesis using that versions_invD(5) [OF assms(1), of v] by (simp add: m')
    next
      case False
      then have "v = of_nat ?n" using that by (simp add: m')
      with False w versions_invD(4) [OF assms(1) False] n show ?thesis by (simp add: m')
    qed
  qed (use assms(2) in \<open>simp_all add: m' add.commute\<close>)
  then show ?thesis by (simp add: m'_def)
qed

lemma versions_inv_purge:
  assumes "versions_inv codes m"
  shows "versions_inv codes (snd (purge_old m))"
proof (cases "can_purge_old m")
  case True
  then obtain v where v: "mc_old_version m = Some v" by (auto simp: can_purge_old_def split: option.splits)
  note d = versions_invD [OF assms]
  have l: "unat v + 1 = length codes" using d(5) [OF v] by blast
  have ne: "mc_current_version m \<noteq> v" using d(1,2) l by auto
  have p: "snd (purge_old m) = m\<lparr>mc_versions := (mc_versions m)(v := None), mc_old_version := None\<rparr>"
    using True v by (simp add: purge_old_def)
  show ?thesis
    unfolding p by (rule versions_invI) (use d ne in \<open>auto split: if_splits\<close>)
qed (use assms in \<open>simp add: purge_old_def\<close>)

lemma versions_inv_run:
  "versions_inv codes m \<Longrightarrow> length codes + length (loads ops) < 2 ^ 32 \<Longrightarrow>
   versions_inv (codes @ loads ops) (fold hot_step ops m)"
proof (induction ops arbitrary: codes m)
  case (Cons a ops)
  show ?case
  proof (cases a)
    case (LoadCode code now)
    then show ?thesis
      using Cons.IH [OF versions_inv_load [OF Cons.prems(1)], of code now] Cons.prems(2) by simp
  next
    case PurgeOld
    then show ?thesis
      using Cons.IH [OF versions_inv_purge [OF Cons.prems(1)]] Cons.prems(2) by simp
  next
    case (AddProcess v)
    then have "versions_inv codes (hot_step a m)"
      using Cons.prems(1) versions_inv_touch [of codes m add_process v]
      by (auto simp: add_process_to_version_def add_process_def split: option.split)
    from Cons.IH [OF this] AddProcess Cons.prems(2) show ?thesis by simp
  next
    case (RemoveProcess v)
    then have "versions_inv codes (hot_step a m)"
      using Cons.prems(1) versions_inv_touch [of codes m remove_process v]
      by (auto simp: remove_process_from_version_def remove_process_def split: option.split)
    from Cons.IH [OF this] RemoveProcess Cons.prems(2) show ?thesis by simp
  qed
qed simp

text \<open>A version that is neither the current nor the old one is never touched but for its count of
  processes.\<close>

definition abandoned :: "u32 \<Rightarrow> u8 list \<Rightarrow> nat \<Rightarrow> module_code \<Rightarrow> bool" where
  "abandoned v code n m \<longleftrightarrow> map_option cv_code (mc_versions m v) = Some code \<and> unat v < unat (mc_current_version m)
     \<and> mc_old_version m \<noteq> Some v \<and> unat (mc_current_version m) = n"

lemma abandoned_run:
  "abandoned v code n m \<Longrightarrow> n + length (loads ops) < 2 ^ 32 \<Longrightarrow>
   abandoned v code (n + length (loads ops)) (fold hot_step ops m)"
proof (induction ops arbitrary: m n)
  case (Cons a ops)
  show ?case
  proof (cases a)
    case (LoadCode c now)
    have "unat (mc_current_version m + 1) = n + 1"
      using Cons.prems LoadCode by (simp add: abandoned_def unat_word_ariths)
    then have "abandoned v code (n + 1) (hot_step a m)"
      using Cons.prems(1) LoadCode by (auto simp: abandoned_def load_version_def Let_def)
    from Cons.IH [OF this] LoadCode Cons.prems(2) show ?thesis by simp
  next
    case PurgeOld
    then have "abandoned v code n (hot_step a m)"
      using Cons.prems(1) by (auto simp: abandoned_def purge_old_def split: option.split)
    from Cons.IH [OF this] PurgeOld Cons.prems(2) show ?thesis by simp
  next
    case (AddProcess w)
    then have "abandoned v code n (hot_step a m)"
      using Cons.prems(1)
      by (auto simp: abandoned_def add_process_to_version_def add_process_def split: option.split)
    from Cons.IH [OF this] AddProcess Cons.prems(2) show ?thesis by simp
  next
    case (RemoveProcess w)
    then have "abandoned v code n (hot_step a m)"
      using Cons.prems(1)
      by (auto simp: abandoned_def remove_process_from_version_def remove_process_def split: option.split)
    from Cons.IH [OF this] RemoveProcess Cons.prems(2) show ?thesis by simp
  qed
qed simp

section \<open>Properties\<close>

text \<open>C33. After any run of a module with fewer than 2^32 loads the current code is the last one loaded,
the old code, if there is one, the one before it, every version still stored holds the code of its
own load, and a purge succeeds exactly when there is an old version without active processes, and
then removes that version and no other.\<close>
theorem hot_code_versions:
  assumes "m = fold hot_step ops (module_code_new name)" "length (loads ops) < 2 ^ 32"
  shows
    "(current_code m = (if loads ops = [] then None else Some (last (loads ops))))
    \<and> (old_code m = Some c
        \<longrightarrow> (2 \<le> length (loads ops) \<and> c = loads ops ! (length (loads ops) - 2)))
    \<and> (get_version v m = Some cv
        \<longrightarrow> (0 < unat v \<and> cv_code cv = loads ops ! (unat v - 1)))
    \<and> (fst (purge_old m) \<longleftrightarrow> (\<exists>v cv. mc_old_version m = Some v \<and> get_version v m = Some cv
      \<and> cv_active_processes cv = 0))
    \<and> (get_version v (snd (purge_old m)) =
      (if fst (purge_old m) \<and> mc_old_version m = Some v then None else get_version v m))"
proof -
  have inv: "versions_inv (loads ops) m"
    using versions_inv_run [OF versions_inv_new, of ops name] assms by simp
  have part1: "current_code m = (if loads ops = [] then None else Some (last (loads ops)))"
  proof (cases "loads ops = []")
    case True
    have "mc_versions m 0 = None"
    proof (cases "mc_versions m 0")
      case (Some c)
      with inv show ?thesis unfolding versions_inv_def by (metis less_irrefl unat_0)
    qed
    with inv True show ?thesis by (simp add: versions_inv_def current_code_def)
  next
    case False
    with inv assms(2) show ?thesis
      by (auto simp: versions_inv_def current_code_def last_conv_nth)
  qed
  have part2: "2 \<le> length (loads ops) \<and> c = loads ops ! (length (loads ops) - 2)" if c: "old_code m = Some c"
  proof -
    from c obtain v cv where v: "mc_old_version m = Some v" "mc_versions m v = Some cv" "cv_code cv = c"
      by (auto simp: old_code_def split: option.splits)
    with inv have "unat v + 1 = length (loads ops)" "0 < unat v" "cv_code cv = loads ops ! (unat v - 1)"
      by (auto simp: versions_inv_def)
    then show ?thesis using v(3) by (cases "unat v") (auto simp: numeral_2_eq_2 simp flip: \<open>unat v + 1 = _\<close>)
  qed
  have part3: "0 < unat v \<and> cv_code cv = loads ops ! (unat v - 1)" if "get_version v m = Some cv"
    using inv that by (simp add: versions_inv_def get_version_def)
  have part4: "fst (purge_old m) \<longleftrightarrow> (\<exists>v cv. mc_old_version m = Some v \<and> get_version v m = Some cv
      \<and> cv_active_processes cv = 0)"
    by (auto simp: purge_old_def can_purge_old_def get_version_def can_purge_def split: option.splits)
  have part5: "get_version v (snd (purge_old m)) =
      (if fst (purge_old m) \<and> mc_old_version m = Some v then None else get_version v m)"
    by (auto simp: purge_old_def get_version_def split: option.splits)
  show ?thesis using part1 part2 part3 part4 part5 by blast
qed

theorem hot_code_versions_witness:
  "current_code (fold hot_step [LoadCode [1] 0, LoadCode [2] 1, PurgeOld] (module_code_new [])) = Some [2]"
  using hot_code_versions [OF refl, of "[LoadCode [1] 0, LoadCode [2] 1, PurgeOld]" "[]"] by simp

text \<open>A load before the purge abandons the old version: whatever follows, loads, purges and
process counts, the version stays stored with its code and is never the one that a purge removes.\<close>
theorem superseded_version_leaks:
  assumes "m = fold hot_step ops (module_code_new name)" "mc_old_version m = Some v" "get_version v m = Some cv"
    and "length (loads ops) + 1 + length (loads ops') < 2 ^ 32"
  shows
    "(\<exists>cv'. get_version v (fold hot_step (LoadCode code now # ops') m) = Some cv' \<and> cv_code cv' = cv_code cv)
    \<and> (mc_old_version (fold hot_step (LoadCode code now # ops') m) \<noteq> Some v)"
proof -
  let ?n = "length (loads ops)"
  have inv: "versions_inv (loads ops) m"
    using versions_inv_run [OF versions_inv_new, of ops name] assms by simp
  have c: "mc_current_version m = of_nat ?n" "unat v + 1 = ?n"
    using inv assms(2) by (auto simp: versions_inv_def)
  have u: "unat (of_nat ?n + 1 :: u32) = ?n + 1" "unat (of_nat ?n :: u32) = ?n"
    using unat_of_nat_u32 [of "?n + 1"] assms(4) by (simp_all add: add.commute)
  have "0 < ?n" using c(2) by linarith
  then have "(of_nat ?n :: u32) > 0" using u(2) by (simp add: word_less_nat_alt)
  moreover have "v \<noteq> of_nat ?n + 1" "v \<noteq> of_nat ?n" using u c(2) by auto
  ultimately have "abandoned v (cv_code cv) (?n + 1) (hot_step (LoadCode code now) m)"
    using assms(3) c u by (auto simp: abandoned_def load_version_def get_version_def Let_def)
  from abandoned_run [OF this] assms(4)
  have "abandoned v (cv_code cv) (?n + 1 + length (loads ops')) (fold hot_step (LoadCode code now # ops') m)"
    by simp
  then show "(\<exists>cv'. get_version v (fold hot_step (LoadCode code now # ops') m) = Some cv' \<and> cv_code cv' = cv_code cv)
    \<and> (mc_old_version (fold hot_step (LoadCode code now # ops') m) \<noteq> Some v)"
    by (auto simp: abandoned_def get_version_def)
qed

theorem superseded_version_leaks_witness:
  "\<exists>cv. get_version 1 (fold hot_step [LoadCode [3] 2, PurgeOld, PurgeOld]
     (fold hot_step [LoadCode [1] 0, LoadCode [2] 1] (module_code_new []))) = Some cv \<and> cv_code cv = [1]"
proof -
  let ?m = "fold hot_step [LoadCode [1] 0, LoadCode [2] 1] (module_code_new [])"
  have "mc_old_version ?m = Some 1" "get_version 1 ?m = Some (code_version_new 1 [1] 0)"
    by (simp_all add: load_version_def module_code_new_def get_version_def)
  from superseded_version_leaks [OF refl this, of "[PurgeOld, PurgeOld]" "[3]" 2] show ?thesis
    by (simp add: code_version_new_def)
qed

end
