(* ===== verification/Dist_Proto.thy ===== *)
theory Dist_Proto
  imports Bytes
begin

text \<open>
  The messages of the distribution protocol (\<^verbatim>\<open>crates/chimera_erlang_beam_dist/src/lib.rs\<close>): flags,
  buffers, remote identifiers, control messages and packets.

  Node names are the UTF-8 bytes of a Rust string.
\<close>

section \<open>Flags\<close>

record distribution_flags =
  allow_extended_reference :: bool
  allow_big_float :: bool
  use_new_float :: bool
  spawn_used :: bool
  reuse_creation_info :: bool
  new_float_enc :: bool
  unicode_metadata :: bool
  distributed :: bool
  show_md5 :: bool
  hide_atom_bytes :: bool
  hide_all_strings :: bool
  compressed :: bool
  verify_md5 :: bool

definition flags_new :: distribution_flags where
  "flags_new = \<lparr>allow_extended_reference = False, allow_big_float = False, use_new_float = False,
     spawn_used = False, reuse_creation_info = False, new_float_enc = False, unicode_metadata = False,
     distributed = False, show_md5 = False, hide_atom_bytes = False, hide_all_strings = False,
     compressed = False, verify_md5 = False\<rparr>"

definition default_flags :: distribution_flags where
  "default_flags = flags_new\<lparr>allow_extended_reference := True, distributed := True, unicode_metadata := True\<rparr>"

definition set_flag :: "bool \<Rightarrow> nat \<Rightarrow> u16 \<Rightarrow> u16" where
  "set_flag b k flags = (if b then flags OR push_bit k 1 else flags)"

definition flag_set :: "u16 \<Rightarrow> nat \<Rightarrow> bool" where
  "flag_set v k \<longleftrightarrow> v AND push_bit k 1 \<noteq> 0"

definition to_u16 :: "distribution_flags \<Rightarrow> u16" where
  "to_u16 f =
     set_flag (verify_md5 f) 12 (set_flag (compressed f) 11 (set_flag (hide_all_strings f) 10
     (set_flag (hide_atom_bytes f) 9 (set_flag (show_md5 f) 8 (set_flag (distributed f) 7
     (set_flag (unicode_metadata f) 5 (set_flag (new_float_enc f) 5 (set_flag (reuse_creation_info f) 4
     (set_flag (spawn_used f) 3 (set_flag (use_new_float f) 2 (set_flag (allow_big_float f) 1
     (set_flag (allow_extended_reference f) 0 0))))))))))))"

definition from_u16 :: "u16 \<Rightarrow> distribution_flags" where
  "from_u16 v = \<lparr>allow_extended_reference = flag_set v 0, allow_big_float = flag_set v 1,
     use_new_float = flag_set v 2, spawn_used = flag_set v 3, reuse_creation_info = flag_set v 4,
     new_float_enc = flag_set v 5, unicode_metadata = flag_set v 5, distributed = flag_set v 7,
     show_md5 = flag_set v 8, hide_atom_bytes = flag_set v 9, hide_all_strings = flag_set v 10,
     compressed = flag_set v 11, verify_md5 = flag_set v 12\<rparr>"

lemma flag_set_bit: "flag_set v k \<longleftrightarrow> bit v k"
proof -
  have "v AND push_bit k 1 = (if bit v k then push_bit k 1 else 0)"
    by (rule bit_word_eqI) (auto simp: bit_simps)
  moreover have "bit v k \<Longrightarrow> push_bit k (1 :: u16) \<noteq> 0"
    using bit_imp_le_length [of v k] by (auto simp: bit_eq_iff bit_simps)
  ultimately show ?thesis by (auto simp: flag_set_def)
qed

lemma flag_set_0 [simp]: "\<not> flag_set 0 k"
  by (simp add: flag_set_def)

lemma flag_set_flag [simp]: "k < 16 \<Longrightarrow> flag_set (set_flag b j v) k \<longleftrightarrow> flag_set v k \<or> b \<and> k = j"
  by (auto simp: flag_set_bit set_flag_def bit_simps)

section \<open>Buffers\<close>

record dist_buffer =
  db_data :: "u8 list"
  db_position :: nat

definition buffer_new :: dist_buffer where
  "buffer_new = \<lparr>db_data = [], db_position = 0\<rparr>"

definition buffer_clear :: "dist_buffer \<Rightarrow> dist_buffer" where
  "buffer_clear b = \<lparr>db_data = [], db_position = 0\<rparr>"

definition remaining :: "dist_buffer \<Rightarrow> nat" where
  "remaining b = length (db_data b) - db_position b"

definition read_byte :: "dist_buffer \<Rightarrow> u8 option \<times> dist_buffer" where
  "read_byte b =
     (if db_position b < length (db_data b)
      then (Some (db_data b ! db_position b), b\<lparr>db_position := db_position b + 1\<rparr>) else (None, b))"

definition write_byte :: "u8 \<Rightarrow> dist_buffer \<Rightarrow> dist_buffer" where
  "write_byte x b = b\<lparr>db_data := db_data b @ [x]\<rparr>"

definition write_bytes :: "u8 list \<Rightarrow> dist_buffer \<Rightarrow> dist_buffer" where
  "write_bytes xs b = b\<lparr>db_data := db_data b @ xs\<rparr>"

definition read_bytes :: "nat \<Rightarrow> dist_buffer \<Rightarrow> u8 list option \<times> dist_buffer" where
  "read_bytes n b =
     (if db_position b + n \<le> length (db_data b)
      then (Some (slice (db_data b) (db_position b) n), b\<lparr>db_position := db_position b + n\<rparr>) else (None, b))"

definition write_u16 :: "u16 \<Rightarrow> dist_buffer \<Rightarrow> dist_buffer" where
  "write_u16 v b = write_byte (ucast (drop_bit 8 v AND 0xFF)) (write_byte (ucast (v AND 0xFF)) b)"

definition read_u16 :: "dist_buffer \<Rightarrow> u16 option \<times> dist_buffer" where
  "read_u16 b =
     (case read_byte b of
        (None, b) \<Rightarrow> (None, b)
      | (Some low, b) \<Rightarrow>
          (case read_byte b of
             (None, b) \<Rightarrow> (None, b)
           | (Some high, b) \<Rightarrow> (Some (push_bit 8 (ucast high) OR ucast low), b)))"

definition write_u32 :: "u32 \<Rightarrow> dist_buffer \<Rightarrow> dist_buffer" where
  "write_u32 v b =
     write_byte (ucast (drop_bit 24 v AND 0xFF)) (write_byte (ucast (drop_bit 16 v AND 0xFF))
       (write_byte (ucast (drop_bit 8 v AND 0xFF)) (write_byte (ucast (v AND 0xFF)) b)))"

definition read_u32 :: "dist_buffer \<Rightarrow> u32 option \<times> dist_buffer" where
  "read_u32 b =
     (case read_byte b of
        (None, b) \<Rightarrow> (None, b)
      | (Some b0, b) \<Rightarrow>
          (case read_byte b of
             (None, b) \<Rightarrow> (None, b)
           | (Some b1, b) \<Rightarrow>
               (case read_byte b of
                  (None, b) \<Rightarrow> (None, b)
                | (Some b2, b) \<Rightarrow>
                    (case read_byte b of
                       (None, b) \<Rightarrow> (None, b)
                     | (Some b3, b) \<Rightarrow>
                         (Some (ucast b0 OR push_bit 8 (ucast b1) OR push_bit 16 (ucast b2)
                            OR push_bit 24 (ucast b3)), b)))))"

section \<open>Remote identifiers\<close>

record remote_pid =
  rp_node :: "u8 list"
  rp_id :: u32
  rp_serial :: u32
  rp_creation :: u32

record remote_ref =
  rr_node :: "u8 list"
  rr_id :: u64
  rr_creation :: u32

record remote_port =
  ro_node :: "u8 list"
  ro_id :: u32
  ro_creation :: u32

definition remote_pid_new :: "u8 list \<Rightarrow> u32 \<Rightarrow> u32 \<Rightarrow> u32 \<Rightarrow> remote_pid" where
  "remote_pid_new node i s c = \<lparr>rp_node = node, rp_id = i, rp_serial = s, rp_creation = c\<rparr>"

definition remote_pid_to_term :: "remote_pid \<Rightarrow> beam_term" where
  "remote_pid_to_term p = Term (ucast (rp_id p) OR 0x10000)"

definition remote_pid_from_term :: "beam_term \<Rightarrow> remote_pid option" where
  "remote_pid_from_term t =
     (if term_raw t AND 0xFF0000 = 0x10000
      then Some \<lparr>rp_node = [], rp_id = ucast (term_raw t AND 0xFFFF), rp_serial = 0, rp_creation = 0\<rparr>
      else None)"

definition remote_ref_new :: "u8 list \<Rightarrow> u64 \<Rightarrow> u32 \<Rightarrow> remote_ref" where
  "remote_ref_new node i c = \<lparr>rr_node = node, rr_id = i, rr_creation = c\<rparr>"

definition remote_port_new :: "u8 list \<Rightarrow> u32 \<Rightarrow> u32 \<Rightarrow> remote_port" where
  "remote_port_new node i c = \<lparr>ro_node = node, ro_id = i, ro_creation = c\<rparr>"

definition remote_port_to_term :: "remote_port \<Rightarrow> beam_term" where
  "remote_port_to_term p = Term (ucast (ro_id p) OR 0x20000)"

section \<open>Control messages\<close>

datatype control_message_type =
    CmLink | CmSend | CmExit | CmUnlink | CmMonitor | CmDemonitor | CmMonitorExit | CmSendTCP | CmSendXML
  | CmSendTerm | CmExitTck | CmExit2 | CmExitCruise

fun msg_type_num :: "control_message_type \<Rightarrow> u8" where
  "msg_type_num CmLink = 1"
| "msg_type_num CmSend = 2"
| "msg_type_num CmExit = 3"
| "msg_type_num CmUnlink = 4"
| "msg_type_num CmMonitor = 5"
| "msg_type_num CmDemonitor = 6"
| "msg_type_num CmMonitorExit = 7"
| "msg_type_num CmSendTCP = 8"
| "msg_type_num CmSendXML = 9"
| "msg_type_num CmSendTerm = 10"
| "msg_type_num CmExitTck = 11"
| "msg_type_num CmExit2 = 12"
| "msg_type_num CmExitCruise = 13"

record control_message =
  cm_msg_type :: control_message_type
  cm_from :: "remote_pid option"
  cm_to :: "remote_pid option"
  cm_ref_id :: "remote_ref option"
  cm_reason :: "u32 option"

definition new_link :: "remote_pid \<Rightarrow> remote_pid \<Rightarrow> control_message" where
  "new_link f t = \<lparr>cm_msg_type = CmLink, cm_from = Some f, cm_to = Some t, cm_ref_id = None, cm_reason = None\<rparr>"

definition new_unlink :: "remote_pid \<Rightarrow> remote_pid \<Rightarrow> control_message" where
  "new_unlink f t = \<lparr>cm_msg_type = CmUnlink, cm_from = Some f, cm_to = Some t, cm_ref_id = None, cm_reason = None\<rparr>"

definition new_monitor :: "remote_pid \<Rightarrow> remote_pid \<Rightarrow> remote_ref \<Rightarrow> control_message" where
  "new_monitor f t r = \<lparr>cm_msg_type = CmMonitor, cm_from = Some f, cm_to = Some t, cm_ref_id = Some r, cm_reason = None\<rparr>"

definition new_demonitor :: "remote_pid \<Rightarrow> remote_pid \<Rightarrow> remote_ref \<Rightarrow> control_message" where
  "new_demonitor f t r =
     \<lparr>cm_msg_type = CmDemonitor, cm_from = Some f, cm_to = Some t, cm_ref_id = Some r, cm_reason = None\<rparr>"

definition new_exit :: "remote_pid \<Rightarrow> remote_pid \<Rightarrow> u32 \<Rightarrow> control_message" where
  "new_exit f t reason =
     \<lparr>cm_msg_type = CmExit, cm_from = Some f, cm_to = Some t, cm_ref_id = None, cm_reason = Some reason\<rparr>"

definition new_monitor_exit :: "remote_ref \<Rightarrow> remote_pid \<Rightarrow> u32 \<Rightarrow> control_message" where
  "new_monitor_exit r f reason =
     \<lparr>cm_msg_type = CmMonitorExit, cm_from = Some f, cm_to = None, cm_ref_id = Some r, cm_reason = Some reason\<rparr>"

definition new_send :: "remote_pid \<Rightarrow> remote_pid \<Rightarrow> control_message" where
  "new_send f t = \<lparr>cm_msg_type = CmSend, cm_from = Some f, cm_to = Some t, cm_ref_id = None, cm_reason = None\<rparr>"

definition encode_node :: "u8 list \<Rightarrow> u8 list" where
  "encode_node node = of_nat (length node) # node"

definition encode_pid :: "remote_pid option \<Rightarrow> u8 list" where
  "encode_pid p =
     (case p of
        Some p \<Rightarrow> 1 # le_bytes32 (rp_id p) @ le_bytes32 (rp_serial p) @ le_bytes32 (rp_creation p) @ encode_node (rp_node p)
      | None \<Rightarrow> [0])"

definition encode_ref :: "remote_ref option \<Rightarrow> u8 list" where
  "encode_ref r =
     (case r of
        Some r \<Rightarrow> 1 # le_bytes64 (rr_id r) @ le_bytes32 (rr_creation r) @ encode_node (rr_node r)
      | None \<Rightarrow> [0])"

definition encode_reason :: "u32 option \<Rightarrow> u8 list" where
  "encode_reason x = (case x of Some w \<Rightarrow> 1 # le_bytes32 w | None \<Rightarrow> [0])"

definition control_encode :: "control_message \<Rightarrow> u8 list" where
  "control_encode m =
     msg_type_num (cm_msg_type m) # encode_pid (cm_from m) @ encode_pid (cm_to m) @ encode_ref (cm_ref_id m)
       @ encode_reason (cm_reason m)"

text \<open>The decoder reads at a moving position; \<open>None\<close> is the early return of the source.\<close>

definition decode_node :: "u8 list \<Rightarrow> nat \<Rightarrow> (u8 list \<times> nat) option" where
  "decode_node data pos =
     (if pos \<ge> length data then None
      else let node_len = unat (data ! pos); pos = pos + 1
           in if pos + node_len > length data then None
              else if utf8_valid (slice data pos node_len) then Some (slice data pos node_len, pos + node_len)
              else None)"

definition decode_pid :: "u8 list \<Rightarrow> nat \<Rightarrow> (remote_pid option \<times> nat) option" where
  "decode_pid data pos =
     (if pos \<ge> length data then None
      else if data ! pos = 1 then
        (let pos = pos + 1
         in if pos + 12 > length data then None
            else Option.bind (decode_node data (pos + 12)) (\<lambda>(node, pos').
              Some (Some \<lparr>rp_node = node, rp_id = le32_at data pos, rp_serial = le32_at data (pos + 4),
                          rp_creation = le32_at data (pos + 8)\<rparr>, pos')))
      else Some (None, pos + 1))"

definition decode_ref :: "u8 list \<Rightarrow> nat \<Rightarrow> (remote_ref option \<times> nat) option" where
  "decode_ref data pos =
     (if pos \<ge> length data then None
      else if data ! pos = 1 then
        (let pos = pos + 1
         in if pos + 12 > length data then None
            else Option.bind (decode_node data (pos + 12)) (\<lambda>(node, pos').
              Some (Some \<lparr>rr_node = node, rr_id = le64_at data pos, rr_creation = le32_at data (pos + 8)\<rparr>, pos')))
      else Some (None, pos + 1))"

definition decode_reason :: "u8 list \<Rightarrow> nat \<Rightarrow> u32 option option" where
  "decode_reason data pos =
     (if pos < length data \<and> data ! pos = 1 then
        (if pos + 1 + 4 > length data then None else Some (Some (le32_at data (pos + 1))))
      else Some None)"

definition decode_msg_type :: "u8 \<Rightarrow> control_message_type option" where
  "decode_msg_type b =
     (if b = 1 then Some CmLink else if b = 3 then Some CmExit else if b = 4 then Some CmUnlink
      else if b = 5 then Some CmMonitor else if b = 6 then Some CmDemonitor
      else if b = 7 then Some CmMonitorExit else None)"

definition control_decode :: "u8 list \<Rightarrow> control_message option" where
  "control_decode data =
     (if data = [] then None
      else
        Option.bind (decode_msg_type (data ! 0)) (\<lambda>ty.
        Option.bind (decode_pid data 1) (\<lambda>(f, pos).
        Option.bind (decode_pid data pos) (\<lambda>(t, pos).
        Option.bind (decode_ref data pos) (\<lambda>(r, pos).
        Option.bind (decode_reason data pos) (\<lambda>reason.
          Some \<lparr>cm_msg_type = ty, cm_from = f, cm_to = t, cm_ref_id = r, cm_reason = reason\<rparr>))))))"

section \<open>Packets\<close>

definition encode_control_packet :: "u8 list \<Rightarrow> u8 list" where
  "encode_control_packet data = le_bytes32 (of_nat (length data)) @ data"

definition encode_message :: "remote_pid \<Rightarrow> beam_term \<Rightarrow> u8 list" where
  "encode_message p t = [0x70, 3] @ le_bytes32 (rp_id p) @ le_bytes64 (term_raw t)"

section \<open>Round trips\<close>

definition node_ok :: "u8 list \<Rightarrow> bool" where
  "node_ok n \<longleftrightarrow> utf8_valid n \<and> length n < 256"

lemma decode_node_encode:
  assumes "drop pos data = encode_node n @ rest" "node_ok n"
  shows "decode_node data pos = Some (n, pos + length (encode_node n))"
proof -
  have d: "drop pos data = [of_nat (length n)] @ n @ rest" using assms(1) by (simp add: encode_node_def)
  have len: "pos + (1 + length n) \<le> length data"
    using drop_le [of pos data "of_nat (length n) # n" rest] d by simp
  have "slice data (pos + 1) (length n) = n" by (rule slice_eq [OF drop_more [OF d] refl]) simp
  moreover have "data ! pos = of_nat (length n)" using nth_at d by fastforce
  moreover have "unat (of_nat (length n) :: u8) = length n" using assms(2) by (simp add: node_ok_def unat_of_nat)
  ultimately show ?thesis
    using len assms(2) by (simp add: decode_node_def node_ok_def encode_node_def Let_def)
qed

lemma decode_pid_encode:
  assumes "drop pos data = encode_pid p @ rest" "pred_option (\<lambda>p. node_ok (rp_node p)) p"
  shows "decode_pid data pos = Some (p, pos + length (encode_pid p))"
proof (cases p)
  case None
  then have "drop pos data = 0 # rest" using assms(1) by (simp add: encode_pid_def)
  then show ?thesis
    using nth_at [of pos data 0 rest] None by (cases "pos < length data") (auto simp: decode_pid_def encode_pid_def)
next
  case (Some p')
  have d: "drop pos data = [1] @ le_bytes32 (rp_id p') @ le_bytes32 (rp_serial p')
      @ le_bytes32 (rp_creation p') @ encode_node (rp_node p') @ rest"
    using assms(1) Some by (simp add: encode_pid_def)
  have d1: "drop (pos + 1) data = le_bytes32 (rp_id p') @ le_bytes32 (rp_serial p')
      @ le_bytes32 (rp_creation p') @ encode_node (rp_node p') @ rest"
    by (rule drop_more [OF d]) simp
  have d5: "drop (pos + 1 + 4) data = le_bytes32 (rp_serial p') @ le_bytes32 (rp_creation p') @ encode_node (rp_node p') @ rest"
    by (rule drop_more [OF d1]) simp
  have d9: "drop (pos + 1 + 4 + 4) data = le_bytes32 (rp_creation p') @ encode_node (rp_node p') @ rest"
    by (rule drop_more [OF d5]) simp
  have d13: "drop (pos + 1 + 4 + 4 + 4) data = encode_node (rp_node p') @ rest"
    by (rule drop_more [OF d9]) simp
  have "decode_node data (13 + pos) = Some (rp_node p', pos + (13 + length (encode_node (rp_node p'))))"
    using decode_node_encode [OF d13] assms(2) Some by (simp add: ac_simps)
  moreover have "pos + 13 \<le> length data"
    using drop_le [of pos data "[1] @ le_bytes32 (rp_id p') @ le_bytes32 (rp_serial p') @ le_bytes32 (rp_creation p')"] d
    by simp
  moreover have "data ! pos = 1" using d nth_at by fastforce
  ultimately show ?thesis
    using le32_at_eq [OF d1] le32_at_eq [OF d5] le32_at_eq [OF d9] Some
    by (simp add: decode_pid_def encode_pid_def Let_def add.assoc)
qed

lemma decode_ref_encode:
  assumes "drop pos data = encode_ref r @ rest" "pred_option (\<lambda>r. node_ok (rr_node r)) r"
  shows "decode_ref data pos = Some (r, pos + length (encode_ref r))"
proof (cases r)
  case None
  then have "drop pos data = 0 # rest" using assms(1) by (simp add: encode_ref_def)
  then show ?thesis
    using nth_at [of pos data 0 rest] None by (cases "pos < length data") (auto simp: decode_ref_def encode_ref_def)
next
  case (Some r')
  have d: "drop pos data = [1] @ le_bytes64 (rr_id r') @ le_bytes32 (rr_creation r') @ encode_node (rr_node r') @ rest"
    using assms(1) Some by (simp add: encode_ref_def)
  have d1: "drop (pos + 1) data = le_bytes64 (rr_id r') @ le_bytes32 (rr_creation r') @ encode_node (rr_node r') @ rest"
    by (rule drop_more [OF d]) simp
  have d9: "drop (pos + 1 + 8) data = le_bytes32 (rr_creation r') @ encode_node (rr_node r') @ rest"
    by (rule drop_more [OF d1]) simp
  have d13: "drop (pos + 1 + 8 + 4) data = encode_node (rr_node r') @ rest"
    by (rule drop_more [OF d9]) simp
  have "decode_node data (13 + pos) = Some (rr_node r', pos + (13 + length (encode_node (rr_node r'))))"
    using decode_node_encode [OF d13] assms(2) Some by (simp add: ac_simps)
  moreover have "pos + 13 \<le> length data"
    using drop_le [of pos data "[1] @ le_bytes64 (rr_id r') @ le_bytes32 (rr_creation r')"] d by simp
  moreover have "data ! pos = 1" using d nth_at by fastforce
  ultimately show ?thesis
    using le64_at_eq [OF d1] le32_at_eq [OF d9] Some
    by (simp add: decode_ref_def encode_ref_def Let_def add.assoc)
qed

lemma decode_reason_encode:
  assumes "drop pos data = encode_reason x @ rest"
  shows "decode_reason data pos = Some x"
proof (cases x)
  case None
  then have "drop pos data = 0 # rest" using assms by (simp add: encode_reason_def)
  then show ?thesis using nth_at [of pos data 0 rest] None by (simp add: decode_reason_def)
next
  case (Some w)
  have d: "drop pos data = [1] @ le_bytes32 w @ rest" using assms Some by (simp add: encode_reason_def)
  have d1: "drop (pos + 1) data = le_bytes32 w @ rest" by (rule drop_more [OF d]) simp
  have "pos + 5 \<le> length data" using drop_le [of pos data "[1] @ le_bytes32 w"] d by simp
  moreover have "data ! pos = 1" using d nth_at by fastforce
  ultimately show ?thesis using le32_at_eq [OF d1] Some by (simp add: decode_reason_def)
qed

definition decodable_types :: "control_message_type set" where
  "decodable_types = {CmLink, CmExit, CmUnlink, CmMonitor, CmDemonitor, CmMonitorExit}"

lemma decode_msg_type_num:
  "decode_msg_type (msg_type_num t) = (if t \<in> decodable_types then Some t else None)"
  by (cases t) (simp_all add: decode_msg_type_def decodable_types_def)

section \<open>Properties\<close>

text \<open>C22. A control message whose node names are shorter than 256 bytes decodes to itself, whatever
bytes follow it, if it is a link, unlink, monitor, demonitor, exit or monitor exit; messages of the
other seven types, sends among them, encode to bytes that no decoder accepts.\<close>
theorem control_message_roundtrip:
  assumes "pred_option (\<lambda>p. node_ok (rp_node p)) (cm_from m)" "pred_option (\<lambda>p. node_ok (rp_node p)) (cm_to m)"
    and "pred_option (\<lambda>r. node_ok (rr_node r)) (cm_ref_id m)"
  shows "control_decode (control_encode m @ rest) = (if cm_msg_type m \<in> decodable_types then Some m else None)"
proof -
  let ?d = "control_encode m @ rest"
  have d1: "drop 1 ?d = encode_pid (cm_from m) @ encode_pid (cm_to m) @ encode_ref (cm_ref_id m)
      @ encode_reason (cm_reason m) @ rest" by (simp add: control_encode_def)
  note p1 = decode_pid_encode [OF d1 assms(1)] and d2 = drop_more [OF d1 refl]
  note p2 = decode_pid_encode [OF d2 assms(2)] and d3 = drop_more [OF d2 refl]
  note p3 = decode_ref_encode [OF d3 assms(3)] and d4 = drop_more [OF d3 refl]
  note p4 = decode_reason_encode [OF d4]
  have "control_encode m \<noteq> []" "?d ! 0 = msg_type_num (cm_msg_type m)" by (simp_all add: control_encode_def)
  then show ?thesis
    unfolding control_decode_def by (simp add: decode_msg_type_num p1 [simplified] p2 [simplified] p3 [simplified] p4 [simplified])
qed

theorem control_message_roundtrip_witness:
  "control_decode (control_encode (new_exit (remote_pid_new [97] 1 2 3) (remote_pid_new [98] 4 5 6) 7))
     = Some (new_exit (remote_pid_new [97] 1 2 3) (remote_pid_new [98] 4 5 6) 7)"
  using control_message_roundtrip [of "new_exit (remote_pid_new [97] 1 2 3) (remote_pid_new [98] 4 5 6) 7" "[]"]
  by (simp add: new_exit_def remote_pid_new_def node_ok_def decodable_types_def)

text \<open>The flags survive the wire except that new_float_enc and unicode_metadata, which have the
same bit, come back as their disjunction; so the default flags of every node come back with
new_float_enc set.\<close>
theorem flags_roundtrip:
  "from_u16 (to_u16 f) = f\<lparr>new_float_enc := new_float_enc f \<or> unicode_metadata f,
       unicode_metadata := new_float_enc f \<or> unicode_metadata f\<rparr>
     \<and> from_u16 (to_u16 default_flags) = default_flags\<lparr>new_float_enc := True\<rparr>
     \<and> from_u16 (to_u16 default_flags) \<noteq> default_flags"
proof -
  have *: "from_u16 (to_u16 f) = f\<lparr>new_float_enc := new_float_enc f \<or> unicode_metadata f,
       unicode_metadata := new_float_enc f \<or> unicode_metadata f\<rparr>" for f
    by (cases f) (auto simp: from_u16_def to_u16_def)
  show ?thesis using * [of f] * [of default_flags] by (simp add: default_flags_def flags_new_def)
qed

end
