(* ===== verification/Dist_Conn.thy ===== *)
theory Dist_Conn
  imports Dist_Proto
begin

text \<open>
  A connection to another node (\<^verbatim>\<open>DistConnection\<close> of
  \<^verbatim>\<open>crates/chimera_erlang_beam_dist/src/lib.rs\<close>): its state machine, the handshake with its
  challenges, and the sending and receiving of terms and control messages.

  What the sources do not hold is an argument: the clock, the random challenge, the MD5 function
  of the \<^verbatim>\<open>md5\<close> crate, and the socket.  A socket is a script of what its reads and writes answer (a
  read that would block and a successful write when the script is exhausted) and the list of the
  byte strings written to it.  A connection attempt is the socket it yields, if any.
\<close>

section \<open>Sockets and errors\<close>

datatype read_result = ReadBytes "u8 list" | ReadEof | ReadBlock | ReadFail

record tcp_stream =
  sk_reads :: "read_result list"
  sk_writes :: "bool list"
  sk_sent :: "u8 list list"
  sk_shut :: bool

definition sock_write :: "u8 list \<Rightarrow> tcp_stream \<Rightarrow> bool \<times> tcp_stream" where
  "sock_write bs s =
     (let ok = (sk_writes s = [] \<or> hd (sk_writes s))
      in (ok, s\<lparr>sk_writes := tl (sk_writes s), sk_sent := (if ok then sk_sent s @ [bs] else sk_sent s)\<rparr>))"

definition sock_read :: "tcp_stream \<Rightarrow> read_result \<times> tcp_stream" where
  "sock_read s = ((if sk_reads s = [] then ReadBlock else hd (sk_reads s)), s\<lparr>sk_reads := tl (sk_reads s)\<rparr>)"

datatype dist_error =
    ConnectionFailed
  | HandshakeFailed
  | AuthenticationFailed
  | InvalidPacket
  | DistTimeout
  | NotConnected
  | CookieMismatch
  | NodeNotFound

section \<open>The connection\<close>

datatype tls_policy =
    TlsDisabled
  | TlsRequired
  | TlsOptional
  | VerifyCa "u8 list"
  | VerifyPeer "u8 list option" u32 bool

definition policy_requires_tls :: "tls_policy \<Rightarrow> bool" where
  "policy_requires_tls p \<longleftrightarrow> p = TlsRequired"

definition supports_plaintext :: "tls_policy \<Rightarrow> bool" where
  "supports_plaintext p \<longleftrightarrow> p = TlsDisabled \<or> p = TlsOptional"

record tls_config =
  tc_policy :: tls_policy
  tc_cert_path :: "u8 list option"
  tc_key_path :: "u8 list option"
  tc_ca_cert_path :: "u8 list option"

definition tls_config_with_policy :: "tls_policy \<Rightarrow> tls_config" where
  "tls_config_with_policy p = \<lparr>tc_policy = p, tc_cert_path = None, tc_key_path = None, tc_ca_cert_path = None\<rparr>"

definition tls_config_new :: tls_config where
  "tls_config_new = \<lparr>tc_policy = TlsDisabled, tc_cert_path = None, tc_key_path = None, tc_ca_cert_path = None\<rparr>"

definition with_certificate :: "u8 list \<Rightarrow> u8 list \<Rightarrow> tls_config \<Rightarrow> tls_config" where
  "with_certificate c k t = t\<lparr>tc_cert_path := Some c, tc_key_path := Some k\<rparr>"

definition with_ca_cert :: "u8 list \<Rightarrow> tls_config \<Rightarrow> tls_config" where
  "with_ca_cert c t = t\<lparr>tc_ca_cert_path := Some c\<rparr>"

datatype dist_state =
    DsIdle | DsHandshake | DsVerifying | DsAuthenticating | DsChallengeSent | DsWaitingForAccept
  | DsConnected | DsDisconnecting | DsClosed

definition state_is_active :: "dist_state \<Rightarrow> bool" where
  "state_is_active s \<longleftrightarrow> s = DsConnected"

definition state_can_send :: "dist_state \<Rightarrow> bool" where
  "state_can_send s \<longleftrightarrow> s = DsConnected \<or> s = DsVerifying"

definition TAG_CHALLENGE :: u8 where "TAG_CHALLENGE = 0x53"
definition TAG_ACK :: u8 where "TAG_ACK = 0x41"
definition TAG_PASS_THROUGH :: u8 where "TAG_PASS_THROUGH = 0x70"
definition DIST_VERSION :: u32 where "DIST_VERSION = 6"
definition MAX_NODE_NAME_LEN :: nat where "MAX_NODE_NAME_LEN = 256"
definition ATOM_CACHE_SIZE :: nat where "ATOM_CACHE_SIZE = 256"
definition TICK_INTERVAL_MS :: i64 where "TICK_INTERVAL_MS = 15000"

record atom_cache_entry =
  ac_index :: u32
  ac_atom :: "u8 list"

record dist_connection =
  dc_id :: u64
  dc_state :: dist_state
  dc_node_name :: "u8 list"
  dc_peer_node_name :: "u8 list"
  dc_creation :: u32
  dc_peer_creation :: u32
  dc_dist_flags :: distribution_flags
  dc_peer_flags :: distribution_flags
  dc_atom_cache :: "atom_cache_entry option list"
  dc_tick_timer :: i64
  dc_last_activity :: i64
  dc_messages_sent :: u64
  dc_messages_received :: u64
  dc_cookie :: "u8 list"
  dc_tls_config :: tls_config
  dc_socket :: "tcp_stream option"
  dc_read_buffer :: dist_buffer
  dc_write_buffer :: dist_buffer

definition connection_new :: "u64 \<Rightarrow> u8 list \<Rightarrow> u8 list \<Rightarrow> i64 \<Rightarrow> dist_connection" where
  "connection_new i node_name cookie now =
     \<lparr>dc_id = i, dc_state = DsIdle, dc_node_name = node_name, dc_peer_node_name = [], dc_creation = 0,
      dc_peer_creation = 0, dc_dist_flags = default_flags, dc_peer_flags = default_flags,
      dc_atom_cache = replicate ATOM_CACHE_SIZE None, dc_tick_timer = 0, dc_last_activity = now,
      dc_messages_sent = 0, dc_messages_received = 0, dc_cookie = cookie, dc_tls_config = tls_config_new,
      dc_socket = None, dc_read_buffer = buffer_new, dc_write_buffer = buffer_new\<rparr>"

definition set_peer_name :: "u8 list \<Rightarrow> dist_connection \<Rightarrow> dist_connection" where
  "set_peer_name n c = c\<lparr>dc_peer_node_name := n\<rparr>"

definition conn_is_active :: "dist_connection \<Rightarrow> bool" where
  "conn_is_active c \<longleftrightarrow> state_is_active (dc_state c)"

definition is_connected :: "dist_connection \<Rightarrow> bool" where
  "is_connected c \<longleftrightarrow> dc_state c = DsConnected"

definition conn_can_send :: "dist_connection \<Rightarrow> bool" where
  "conn_can_send c \<longleftrightarrow> state_can_send (dc_state c)"

definition conn_set_cookie :: "u8 list \<Rightarrow> dist_connection \<Rightarrow> dist_connection" where
  "conn_set_cookie k c = c\<lparr>dc_cookie := k\<rparr>"

definition conn_verify_cookie :: "u8 list \<Rightarrow> dist_connection \<Rightarrow> bool" where
  "conn_verify_cookie k c \<longleftrightarrow> dc_cookie c = k"

definition update_activity :: "i64 \<Rightarrow> dist_connection \<Rightarrow> dist_connection" where
  "update_activity now c = c\<lparr>dc_last_activity := now\<rparr>"

type_synonym conn_result = "(dist_error, unit) outcome \<times> dist_connection"

definition connect :: "tcp_stream option \<Rightarrow> i64 \<Rightarrow> dist_connection \<Rightarrow> conn_result" where
  "connect stream now c =
     (if tc_policy (dc_tls_config c) = TlsRequired then (Err ConnectionFailed, c)
      else case stream of
        Some s \<Rightarrow> (Ok (), update_activity now (c\<lparr>dc_socket := Some s, dc_state := DsHandshake\<rparr>))
      | None \<Rightarrow> (Err ConnectionFailed, c\<lparr>dc_state := DsClosed\<rparr>))"

definition accept_listener :: "tcp_stream option \<Rightarrow> i64 \<Rightarrow> dist_connection \<Rightarrow> conn_result" where
  "accept_listener stream now c =
     (case stream of
        Some s \<Rightarrow> (Ok (), update_activity now (c\<lparr>dc_socket := Some s, dc_state := DsHandshake\<rparr>))
      | None \<Rightarrow> (Err ConnectionFailed, c))"

definition accept :: "tcp_stream option \<Rightarrow> i64 \<Rightarrow> dist_connection \<Rightarrow> conn_result" where
  "accept stream now c =
     (if tc_policy (dc_tls_config c) = TlsRequired then (Err ConnectionFailed, c)
      else accept_listener stream now c)"

definition flush_write :: "dist_connection \<Rightarrow> conn_result" where
  "flush_write c =
     (case dc_socket c of
        Some s \<Rightarrow>
          (case sock_write (db_data (dc_write_buffer c)) s of
             (True, s') \<Rightarrow> (Ok (), c\<lparr>dc_socket := Some s', dc_write_buffer := buffer_clear (dc_write_buffer c)\<rparr>)
           | (False, s') \<Rightarrow> (Err ConnectionFailed, c\<lparr>dc_socket := Some s'\<rparr>))
      | None \<Rightarrow> (Err NotConnected, c))"

definition read_from_socket :: "dist_connection \<Rightarrow> conn_result" where
  "read_from_socket c =
     (case dc_socket c of
        Some s \<Rightarrow>
          (case sock_read s of
             (ReadEof, s') \<Rightarrow> (Err ConnectionFailed, c\<lparr>dc_socket := Some s', dc_state := DsClosed\<rparr>)
           | (ReadBytes bs, s') \<Rightarrow>
               (Ok (), c\<lparr>dc_socket := Some s', dc_read_buffer := write_bytes bs (dc_read_buffer c)\<rparr>)
           | (ReadBlock, s') \<Rightarrow> (Ok (), c\<lparr>dc_socket := Some s'\<rparr>)
           | (ReadFail, s') \<Rightarrow> (Err ConnectionFailed, c\<lparr>dc_socket := Some s', dc_state := DsClosed\<rparr>))
      | None \<Rightarrow> (Err NotConnected, c))"

text \<open>Fills the write buffer, flushes it, and goes on if that succeeded.\<close>

definition send_buffer ::
  "dist_buffer \<Rightarrow> (dist_connection \<Rightarrow> dist_connection) \<Rightarrow> dist_connection \<Rightarrow> conn_result" where
  "send_buffer b k c =
     (case flush_write (c\<lparr>dc_write_buffer := b\<rparr>) of
        (Ok x, c) \<Rightarrow> (Ok x, k c)
      | (r, c) \<Rightarrow> (r, c))"

section \<open>The handshake\<close>

definition compute_challenge_digest :: "(u8 list \<Rightarrow> u8 list) \<Rightarrow> u32 \<Rightarrow> u8 list \<Rightarrow> u8 list" where
  "compute_challenge_digest md5 challenge cookie = md5 (le_bytes32 challenge @ cookie)"

definition perform_handshake :: "u32 \<Rightarrow> dist_connection \<Rightarrow> conn_result" where
  "perform_handshake challenge c =
     (if dc_state c \<noteq> DsHandshake then (Err HandshakeFailed, c)
      else
        let c = c\<lparr>dc_tick_timer := ucast challenge\<rparr>
        in send_buffer
             (write_byte 0 (write_bytes (dc_node_name c) (write_u32 challenge
               (write_u16 (to_u16 (dc_dist_flags c)) (write_u32 DIST_VERSION (buffer_clear (dc_write_buffer c)))))))
             (\<lambda>c. c\<lparr>dc_state := DsChallengeSent\<rparr>) c)"

definition handle_server_challenge ::
  "(u8 list \<Rightarrow> u8 list) \<Rightarrow> u32 \<Rightarrow> u16 \<Rightarrow> dist_connection \<Rightarrow> conn_result" where
  "handle_server_challenge md5 challenge flags c =
     (if dc_state c \<noteq> DsChallengeSent then (Err HandshakeFailed, c)
      else
        let c = c\<lparr>dc_peer_flags := from_u16 flags, dc_peer_creation := 0\<rparr>
        in send_buffer
             (write_u32 (ucast (dc_tick_timer c)) (write_bytes (compute_challenge_digest md5 challenge (dc_cookie c))
               (buffer_clear (dc_write_buffer c))))
             (\<lambda>c. c\<lparr>dc_state := DsWaitingForAccept\<rparr>) c)"

text \<open>The name of the peer, up to a zero byte or the end of what was read; longer than 256 bytes is
  an error.\<close>

function read_name :: "dist_buffer \<Rightarrow> u8 list \<Rightarrow> u8 list option \<times> dist_buffer" where
  "read_name b acc =
     (case read_byte b of
        (None, b') \<Rightarrow> (Some acc, b')
      | (Some byte, b') \<Rightarrow>
          (if byte = 0 then (Some acc, b')
           else if length acc < MAX_NODE_NAME_LEN then read_name b' (acc @ [byte])
           else (None, b')))"
  by pat_completeness auto
termination
  by (relation "measure (\<lambda>(b, acc). remaining b)") (auto simp: read_byte_def remaining_def split: if_splits)

declare read_name.simps [simp del]

definition read_init ::
  "dist_connection \<Rightarrow> (dist_error, u16 \<times> u32 \<times> u8 list) outcome \<times> dist_connection" where
  "read_init c =
     (if remaining (dc_read_buffer c) < 9 then (Err InvalidPacket, c)
      else
        case read_u32 (dc_read_buffer c) of
          (None, b) \<Rightarrow> (Err InvalidPacket, c\<lparr>dc_read_buffer := b\<rparr>)
        | (Some version, b) \<Rightarrow>
          (case read_u16 b of
             (None, b) \<Rightarrow> (Err InvalidPacket, c\<lparr>dc_read_buffer := b\<rparr>)
           | (Some flags, b) \<Rightarrow>
             (case read_u32 b of
                (None, b) \<Rightarrow> (Err InvalidPacket, c\<lparr>dc_read_buffer := b\<rparr>)
              | (Some challenge, b) \<Rightarrow>
                (case read_name b [] of
                   (None, b) \<Rightarrow> (Err InvalidPacket, c\<lparr>dc_read_buffer := b\<rparr>)
                 | (Some name, b) \<Rightarrow>
                     (if utf8_valid name then (Ok (flags, challenge, name), c\<lparr>dc_read_buffer := b\<rparr>)
                      else (Err InvalidPacket, c\<lparr>dc_read_buffer := b\<rparr>))))))"

definition accept_connection :: "(u8 list \<Rightarrow> u8 list) \<Rightarrow> u32 \<Rightarrow> dist_connection \<Rightarrow> conn_result" where
  "accept_connection md5 our_challenge c =
     (if dc_state c \<noteq> DsHandshake then (Err HandshakeFailed, c)
      else
        case read_from_socket c of
          (Err e, c) \<Rightarrow> (Err e, c)
        | (Ok x, c) \<Rightarrow>
          (case read_init c of
             (Ok (flags, challenge, name), c) \<Rightarrow>
               (let c = (set_peer_name name c)\<lparr>dc_peer_flags := from_u16 flags, dc_tick_timer := ucast our_challenge\<rparr>;
                    digest = compute_challenge_digest md5 challenge (dc_cookie c)
                in send_buffer
                     (write_bytes digest (write_u16 (to_u16 (dc_dist_flags c)) (write_u32 our_challenge
                       (write_byte TAG_CHALLENGE (buffer_clear (dc_write_buffer c))))))
                     (\<lambda>c. c\<lparr>dc_state := DsVerifying\<rparr>) c)
           | (Err e, c) \<Rightarrow> (Err e, c)
           | (Panic p, c) \<Rightarrow> (Panic p, c)
           | (OutOfFuel, c) \<Rightarrow> (OutOfFuel, c))
        | r \<Rightarrow> r)"

definition handle_challenge_response ::
  "(u8 list \<Rightarrow> u8 list) \<Rightarrow> u8 list \<Rightarrow> u32 \<Rightarrow> dist_connection \<Rightarrow> conn_result" where
  "handle_challenge_response md5 digest client_challenge c =
     (if dc_state c \<noteq> DsVerifying then (Err HandshakeFailed, c)
      else if digest \<noteq> compute_challenge_digest md5 client_challenge (dc_cookie c) then (Err CookieMismatch, c)
      else send_buffer (write_byte TAG_ACK (buffer_clear (dc_write_buffer c)))
             (\<lambda>c. c\<lparr>dc_state := DsConnected, dc_creation := 1\<rparr>) c)"

section \<open>Ticks and disconnection\<close>

definition send_tick :: "i64 \<Rightarrow> dist_connection \<Rightarrow> conn_result" where
  "send_tick now c =
     (if \<not> conn_is_active c then (Err NotConnected, c)
      else send_buffer (write_byte 0 (write_byte 0x70 (buffer_clear (dc_write_buffer c))))
             (\<lambda>c. update_activity now (c\<lparr>dc_tick_timer := 0\<rparr>)) c)"

definition needs_tick :: "i64 \<Rightarrow> dist_connection \<Rightarrow> bool" where
  "needs_tick now c \<longleftrightarrow> conn_is_active c \<and> sint (now - dc_last_activity c) > sint TICK_INTERVAL_MS"

definition disconnect :: "dist_connection \<Rightarrow> dist_connection" where
  "disconnect c = c\<lparr>dc_state := DsClosed, dc_socket := map_option (sk_shut_update (\<lambda>_. True)) (dc_socket c)\<rparr>"

definition force_disconnect :: "dist_connection \<Rightarrow> dist_connection" where
  "force_disconnect c = c\<lparr>dc_state := DsClosed, dc_socket := None\<rparr>"

definition conn_tick :: "dist_connection \<Rightarrow> dist_connection" where
  "conn_tick c = c\<lparr>dc_tick_timer := dc_tick_timer c + 1\<rparr>"

section \<open>The atom cache\<close>

definition put_atom_in_cache :: "u32 \<Rightarrow> u8 list \<Rightarrow> dist_connection \<Rightarrow> dist_connection" where
  "put_atom_in_cache i a c =
     (if unat i < length (dc_atom_cache c)
      then c\<lparr>dc_atom_cache := (dc_atom_cache c)[unat i := Some \<lparr>ac_index = i, ac_atom = a\<rparr>]\<rparr> else c)"

definition get_atom_from_cache :: "u32 \<Rightarrow> dist_connection \<Rightarrow> u8 list option" where
  "get_atom_from_cache i c =
     (if unat i < length (dc_atom_cache c) then map_option ac_atom (dc_atom_cache c ! unat i) else None)"

definition cache_atom :: "u8 list \<Rightarrow> dist_connection \<Rightarrow> u32 \<times> dist_connection" where
  "cache_atom a c =
     (case slot_index (\<lambda>e. ac_atom e = a) (dc_atom_cache c) of
        Some i \<Rightarrow> (of_nat i, c)
      | None \<Rightarrow>
          (case List.find (\<lambda>i. dc_atom_cache c ! i = None) [0..<length (dc_atom_cache c)] of
             Some i \<Rightarrow> (of_nat i, c\<lparr>dc_atom_cache := (dc_atom_cache c)[i := Some \<lparr>ac_index = of_nat i, ac_atom = a\<rparr>]\<rparr>)
           | None \<Rightarrow> (0xFFFF, c)))"

section \<open>Sending and receiving\<close>

definition sent_one :: "i64 \<Rightarrow> dist_connection \<Rightarrow> dist_connection" where
  "sent_one now c = update_activity now (c\<lparr>dc_messages_sent := dc_messages_sent c + 1\<rparr>)"

definition send_data :: "u8 list \<Rightarrow> i64 \<Rightarrow> dist_connection \<Rightarrow> conn_result" where
  "send_data data now c =
     (if \<not> conn_can_send c then (Err NotConnected, c)
      else case dc_socket c of
        Some s \<Rightarrow>
          (case sock_write data s of
             (True, s') \<Rightarrow> (Ok (), sent_one now (c\<lparr>dc_socket := Some s'\<rparr>))
           | (False, s') \<Rightarrow> (Err ConnectionFailed, c\<lparr>dc_socket := Some s'\<rparr>))
      | None \<Rightarrow> (Err NotConnected, c))"

definition send_encoded :: "u8 list \<Rightarrow> beam_term \<Rightarrow> i64 \<Rightarrow> dist_connection \<Rightarrow> conn_result" where
  "send_encoded prefix t now c =
     (case encode_with_version t of
        Ok encoded \<Rightarrow>
          send_buffer (write_bytes encoded (write_bytes prefix (write_byte TAG_PASS_THROUGH
            (buffer_clear (dc_write_buffer c))))) (sent_one now) c
      | Err e \<Rightarrow> (Err ConnectionFailed, c)
      | Panic p \<Rightarrow> (Panic p, c)
      | OutOfFuel \<Rightarrow> (OutOfFuel, c))"

definition send_term :: "beam_term \<Rightarrow> i64 \<Rightarrow> dist_connection \<Rightarrow> conn_result" where
  "send_term t now c = (if \<not> conn_can_send c then (Err NotConnected, c) else send_encoded [] t now c)"

definition send_term_cached :: "beam_term \<Rightarrow> i64 \<Rightarrow> dist_connection \<Rightarrow> conn_result" where
  "send_term_cached t now c = (if \<not> conn_is_active c then (Err NotConnected, c) else send_encoded [] t now c)"

definition send_term_to :: "remote_pid \<Rightarrow> beam_term \<Rightarrow> i64 \<Rightarrow> dist_connection \<Rightarrow> conn_result" where
  "send_term_to dest t now c =
     (if \<not> conn_is_active c then (Err NotConnected, c)
      else send_encoded (of_nat (length (rp_node dest)) # rp_node dest) t now c)"

definition receive_data :: "i64 \<Rightarrow> dist_connection \<Rightarrow> (dist_error, u8 list) outcome \<times> dist_connection" where
  "receive_data now c =
     (if \<not> conn_is_active c then (Err NotConnected, c)
      else case read_from_socket c of
        (Ok x, c) \<Rightarrow>
          (Ok (db_data (dc_read_buffer c)),
           update_activity now (c\<lparr>dc_read_buffer := buffer_clear (dc_read_buffer c),
             dc_messages_received := dc_messages_received c + 1\<rparr>))
      | (Err e, c) \<Rightarrow> (Err e, c)
      | (Panic p, c) \<Rightarrow> (Panic p, c)
      | (OutOfFuel, c) \<Rightarrow> (OutOfFuel, c))"

definition send_control_message :: "control_message \<Rightarrow> i64 \<Rightarrow> dist_connection \<Rightarrow> conn_result" where
  "send_control_message m now c =
     (if \<not> conn_is_active c then (Err NotConnected, c)
      else
        let encoded = control_encode m
        in send_buffer (write_bytes encoded (write_byte TAG_PASS_THROUGH
             (write_u32 (of_nat (length encoded + 1)) (buffer_clear (dc_write_buffer c))))) (sent_one now) c)"

end
