(* ===== verification/Dist_Laws.thy ===== *)
theory Dist_Laws
  imports Dist_Conn
begin

text \<open>
  Properties of a connection: who can complete the handshake, which states a connection reaches,
  and the atom cache.
\<close>

section \<open>Buffers\<close>

lemma write_simps [simp]:
  "db_data (write_byte x b) = db_data b @ [x]" "db_data (write_bytes xs b) = db_data b @ xs"
  "db_data (write_u16 v b) = db_data b @ le_bytes16 v" "db_data (write_u32 w b) = db_data b @ le_bytes32 w"
  "db_data (buffer_clear b) = []"
proof -
  have "x AND 0xFF = take_bit 8 x" "y AND 0xFF = take_bit 8 y" for x :: u16 and y :: u32
    by (simp_all add: take_bit_eq_mask mask_eq_exp_minus_1)
  moreover have "ucast (take_bit 8 x) = (ucast x :: u8)" "ucast (take_bit 8 y) = (ucast y :: u8)"
    for x :: u16 and y :: u32
    by (auto intro!: bit_word_eqI simp: bit_simps)
  ultimately have "ucast (x AND 0xFF) = (ucast x :: u8)" "ucast (y AND 0xFF) = (ucast y :: u8)"
    for x :: u16 and y :: u32 by simp_all
  then show "db_data (write_byte x b) = db_data b @ [x]" "db_data (write_bytes xs b) = db_data b @ xs"
    "db_data (write_u16 v b) = db_data b @ le_bytes16 v" "db_data (write_u32 w b) = db_data b @ le_bytes32 w"
    "db_data (buffer_clear b) = []"
    by (simp_all add: write_byte_def write_bytes_def write_u16_def write_u32_def buffer_clear_def
        le_bytes16_def le_bytes32_def be_bytes16_def be_bytes32_def)
qed

definition at_input :: "dist_buffer \<Rightarrow> u8 list \<Rightarrow> bool" where
  "at_input b xs \<longleftrightarrow> db_position b \<le> length (db_data b) \<and> drop (db_position b) (db_data b) = xs"

lemma read_byte_input:
  "at_input b (x # xs) \<Longrightarrow> \<exists>b'. read_byte b = (Some x, b') \<and> at_input b' xs \<and> db_data b' = db_data b"
proof -
  assume a: "at_input b (x # xs)"
  then have "db_position b < length (db_data b)" by (cases "db_position b < length (db_data b)") (auto simp: at_input_def)
  with a show ?thesis
    using nth_drop_Cons [of "db_position b" "db_data b"] by (auto simp: at_input_def read_byte_def)
qed

lemma read_u16_input:
  assumes "at_input b (le_bytes16 v @ xs)"
  shows "\<exists>b'. read_u16 b = (Some v, b') \<and> at_input b' xs \<and> db_data b' = db_data b"
proof -
  have "at_input b (ucast v # ucast (drop_bit 8 v) # xs)"
    using assms by (simp add: le_bytes16_def be_bytes16_def)
  from read_byte_input [OF this] obtain b1 where
    b1: "read_byte b = (Some (ucast v), b1)" "at_input b1 (ucast (drop_bit 8 v) # xs)" "db_data b1 = db_data b"
    by blast
  from read_byte_input [OF b1(2)] obtain b2 where
    b2: "read_byte b1 = (Some (ucast (drop_bit 8 v)), b2)" "at_input b2 xs" "db_data b2 = db_data b1" by blast
  show ?thesis using b1 b2 from_be_bytes16 [of v] by (simp add: read_u16_def from_be16_def)
qed

lemma read_u32_input:
  assumes "at_input b (le_bytes32 v @ xs)"
  shows "\<exists>b'. read_u32 b = (Some v, b') \<and> at_input b' xs \<and> db_data b' = db_data b"
proof -
  have "at_input b (ucast v # ucast (drop_bit 8 v) # ucast (drop_bit 16 v) # ucast (drop_bit 24 v) # xs)"
    using assms by (simp add: le_bytes32_def be_bytes32_def)
  from read_byte_input [OF this] obtain b1 where
    b1: "read_byte b = (Some (ucast v), b1)"
      "at_input b1 (ucast (drop_bit 8 v) # ucast (drop_bit 16 v) # ucast (drop_bit 24 v) # xs)"
      "db_data b1 = db_data b" by blast
  from read_byte_input [OF b1(2)] obtain b2 where
    b2: "read_byte b1 = (Some (ucast (drop_bit 8 v)), b2)"
      "at_input b2 (ucast (drop_bit 16 v) # ucast (drop_bit 24 v) # xs)" "db_data b2 = db_data b1" by blast
  from read_byte_input [OF b2(2)] obtain b3 where
    b3: "read_byte b2 = (Some (ucast (drop_bit 16 v)), b3)" "at_input b3 (ucast (drop_bit 24 v) # xs)"
      "db_data b3 = db_data b2" by blast
  from read_byte_input [OF b3(2)] obtain b4 where
    b4: "read_byte b3 = (Some (ucast (drop_bit 24 v)), b4)" "at_input b4 xs" "db_data b4 = db_data b3" by blast
  have le_or: "ucast (ucast v :: u8) OR push_bit 8 (ucast (ucast (drop_bit 8 v) :: u8))
      OR push_bit 16 (ucast (ucast (drop_bit 16 v) :: u8)) OR push_bit 24 (ucast (ucast (drop_bit 24 v) :: u8)) = v"
    using from_be_bytes32 [of v] unfolding from_be32_def by (simp only: ac_simps)
  show ?thesis
    using b1 b2 b3 b4 le_or by (simp add: read_u32_def)
qed

lemma read_name_input:
  "at_input b (name @ 0 # xs) \<Longrightarrow> 0 \<notin> set name \<Longrightarrow> length acc + length name \<le> MAX_NODE_NAME_LEN \<Longrightarrow>
   \<exists>b'. read_name b acc = (Some (acc @ name), b')"
proof (induction name arbitrary: b acc)
  case Nil
  then obtain b' where "read_byte b = (Some 0, b')" using read_byte_input [of b 0 xs] by auto
  then show ?case by (subst read_name.simps) simp
next
  case (Cons x name)
  then obtain b' where b': "read_byte b = (Some x, b')" "at_input b' (name @ 0 # xs)"
    using read_byte_input [of b x "name @ 0 # xs"] by auto
  from Cons.IH [OF b'(2), of "acc @ [x]"] Cons.prems b'(1) show ?case
    by (subst read_name.simps) auto
qed

section \<open>The server's side of the handshake\<close>

definition init_packet :: "u32 \<Rightarrow> u16 \<Rightarrow> u32 \<Rightarrow> u8 list \<Rightarrow> u8 list" where
  "init_packet version flags challenge name =
     le_bytes32 version @ le_bytes16 flags @ le_bytes32 challenge @ name @ [0]"

definition name_ok :: "u8 list \<Rightarrow> bool" where
  "name_ok n \<longleftrightarrow> utf8_valid n \<and> 0 \<notin> set n \<and> length n \<le> MAX_NODE_NAME_LEN"

lemma read_init_packet:
  assumes "at_input (dc_read_buffer c) (init_packet v f ch name)" "name_ok name"
  shows "\<exists>b. read_init c = (Ok (f, ch, name), c\<lparr>dc_read_buffer := b\<rparr>)"
proof -
  let ?b = "dc_read_buffer c"
  have "remaining ?b = length (init_packet v f ch name)"
    using assms(1) by (auto simp: at_input_def remaining_def simp flip: length_drop)
  then have r: "\<not> remaining ?b < 9" by (simp add: init_packet_def)
  from read_u32_input [OF assms(1) [unfolded init_packet_def]] obtain b1 where
    b1: "read_u32 ?b = (Some v, b1)" "at_input b1 (le_bytes16 f @ le_bytes32 ch @ name @ [0])" by blast
  from read_u16_input [OF b1(2)] obtain b2 where
    b2: "read_u16 b1 = (Some f, b2)" "at_input b2 (le_bytes32 ch @ name @ [0])" by blast
  from read_u32_input [OF b2(2)] obtain b3 where
    b3: "read_u32 b2 = (Some ch, b3)" "at_input b3 (name @ 0 # [])" by auto
  from read_name_input [OF b3(2), of "[]"] assms(2) obtain b4 where
    "read_name b3 [] = (Some name, b4)" by (auto simp: name_ok_def)
  then show ?thesis
    using r b1(1) b2(1) b3(1) assms(2) by (auto simp: read_init_def name_ok_def)
qed

text \<open>A connection about to read a packet: nothing read so far, and all writes go through.\<close>

definition about_to_read :: "dist_connection \<Rightarrow> tcp_stream \<Rightarrow> u8 list \<Rightarrow> bool" where
  "about_to_read c k packet \<longleftrightarrow> dc_state c = DsHandshake \<and> dc_socket c = Some k
     \<and> (\<exists>rest. sk_reads k = ReadBytes packet # rest) \<and> sk_writes k = [] \<and> dc_read_buffer c = buffer_new"

lemma send_buffer_ok:
  assumes "dc_socket c = Some k" "sk_writes k = []"
  shows "send_buffer b f c = (Ok (), f (c\<lparr>dc_socket := Some (k\<lparr>sk_sent := sk_sent k @ [db_data b]\<rparr>),
      dc_write_buffer := buffer_clear b\<rparr>))"
proof -
  have "sock_write (db_data b) k = (True, k\<lparr>sk_sent := sk_sent k @ [db_data b]\<rparr>)"
    using assms(2) by (cases k) (simp add: sock_write_def)
  then show ?thesis using assms(1) by (simp add: send_buffer_def flush_write_def)
qed

definition challenge_reply :: "(u8 list \<Rightarrow> u8 list) \<Rightarrow> u32 \<Rightarrow> u32 \<Rightarrow> dist_connection \<Rightarrow> u8 list" where
  "challenge_reply md5 ours theirs c =
     TAG_CHALLENGE # le_bytes32 ours @ le_bytes16 (to_u16 (dc_dist_flags c)) @ md5 (le_bytes32 theirs @ dc_cookie c)"

lemma accept_connection_replies:
  assumes "about_to_read s k (init_packet v f ch name)" "name_ok name"
  shows "\<exists>s1 k1. accept_connection md5 oc s = (Ok (), s1) \<and> dc_socket s1 = Some k1
    \<and> sk_sent k1 = sk_sent k @ [challenge_reply md5 oc ch s] \<and> sk_writes k1 = []
    \<and> dc_state s1 = DsVerifying \<and> dc_cookie s1 = dc_cookie s"
proof -
  obtain rest where k: "sk_reads k = ReadBytes (init_packet v f ch name) # rest" "dc_socket s = Some k"
    "dc_state s = DsHandshake" "sk_writes k = []" "dc_read_buffer s = buffer_new"
    using assms(1) by (auto simp: about_to_read_def)
  let ?s = "s\<lparr>dc_socket := Some (k\<lparr>sk_reads := rest\<rparr>),
    dc_read_buffer := write_bytes (init_packet v f ch name) buffer_new\<rparr>"
  have rd: "read_from_socket s = (Ok (), ?s)"
    using k by (simp add: read_from_socket_def sock_read_def)
  have "at_input (dc_read_buffer ?s) (init_packet v f ch name)"
    by (simp add: at_input_def buffer_new_def write_bytes_def)
  from read_init_packet [OF this assms(2)] obtain b where
    ri: "read_init ?s = (Ok (f, ch, name), ?s\<lparr>dc_read_buffer := b\<rparr>)" by blast
  show ?thesis
    using k rd ri
    by (simp add: accept_connection_def Let_def set_peer_name_def challenge_reply_def
        compute_challenge_digest_def send_buffer_ok [where k = "k\<lparr>sk_reads := rest\<rparr>"])
qed

section \<open>Runs of a connection\<close>

datatype conn_op =
    OpConnect "tcp_stream option" i64
  | OpAccept "tcp_stream option" i64
  | OpAcceptListener "tcp_stream option" i64
  | OpPerformHandshake u32
  | OpServerChallenge u32 u16
  | OpAcceptConnection u32
  | OpChallengeResponse "u8 list" u32
  | OpSendTick i64
  | OpDisconnect
  | OpForceDisconnect
  | OpSendData "u8 list" i64
  | OpSendTerm beam_term i64
  | OpSendTermCached beam_term i64
  | OpSendTermTo remote_pid beam_term i64
  | OpReceiveData i64
  | OpSendControl control_message i64

fun conn_step :: "(u8 list \<Rightarrow> u8 list) \<Rightarrow> conn_op \<Rightarrow> dist_connection \<Rightarrow> dist_connection" where
  "conn_step md5 (OpConnect s now) c = snd (connect s now c)"
| "conn_step md5 (OpAccept s now) c = snd (accept s now c)"
| "conn_step md5 (OpAcceptListener s now) c = snd (accept_listener s now c)"
| "conn_step md5 (OpPerformHandshake ch) c = snd (perform_handshake ch c)"
| "conn_step md5 (OpServerChallenge ch f) c = snd (handle_server_challenge md5 ch f c)"
| "conn_step md5 (OpAcceptConnection oc) c = snd (accept_connection md5 oc c)"
| "conn_step md5 (OpChallengeResponse d ch) c = snd (handle_challenge_response md5 d ch c)"
| "conn_step md5 (OpSendTick now) c = snd (send_tick now c)"
| "conn_step md5 OpDisconnect c = disconnect c"
| "conn_step md5 OpForceDisconnect c = force_disconnect c"
| "conn_step md5 (OpSendData d now) c = snd (send_data d now c)"
| "conn_step md5 (OpSendTerm t now) c = snd (send_term t now c)"
| "conn_step md5 (OpSendTermCached t now) c = snd (send_term_cached t now c)"
| "conn_step md5 (OpSendTermTo p t now) c = snd (send_term_to p t now c)"
| "conn_step md5 (OpReceiveData now) c = snd (receive_data now c)"
| "conn_step md5 (OpSendControl m now) c = snd (send_control_message m now c)"

lemma flush_write_state [simp]: "dc_state (snd (flush_write c)) = dc_state c"
  by (auto simp: flush_write_def split: option.split prod.split bool.split)

lemma send_buffer_state:
  "dc_state (snd (send_buffer b f c)) = dc_state c \<or>
   (\<exists>c'. dc_state c' = dc_state c \<and> snd (send_buffer b f c) = f c')"
proof -
  obtain r c' where fw: "flush_write (c\<lparr>dc_write_buffer := b\<rparr>) = (r, c')" by fastforce
  then have "dc_state c' = dc_state c" using flush_write_state [of "c\<lparr>dc_write_buffer := b\<rparr>"] by simp
  then show ?thesis using fw by (cases r) (auto simp: send_buffer_def)
qed

lemma send_buffer_keeps:
  "(\<And>c. dc_state (f c) = dc_state c) \<Longrightarrow> dc_state (snd (send_buffer b f c)) = dc_state c"
  using send_buffer_state [of b f c] by auto

lemma sent_one_state [simp]: "dc_state (sent_one now c) = dc_state c"
  by (simp add: sent_one_def update_activity_def)

lemma send_encoded_state [simp]: "dc_state (snd (send_encoded p t now c)) = dc_state c"
  by (auto simp: send_encoded_def send_buffer_keeps split: outcome.split)

lemma read_from_socket_state:
  "dc_state (snd (read_from_socket c)) = dc_state c \<or> dc_state (snd (read_from_socket c)) = DsClosed"
  by (auto simp: read_from_socket_def split: option.split prod.split read_result.split)

lemma quiet_steps [simp]:
  "dc_state (snd (send_data d now c)) = dc_state c"
  "dc_state (snd (send_term t now c)) = dc_state c"
  "dc_state (snd (send_term_cached t now c)) = dc_state c"
  "dc_state (snd (send_term_to p t now c)) = dc_state c"
  "dc_state (snd (send_control_message m now c)) = dc_state c"
  "dc_state (snd (send_tick now c)) = dc_state c"
  by (auto simp: send_data_def send_term_def send_term_cached_def send_term_to_def send_control_message_def
      send_tick_def send_buffer_keeps update_activity_def Let_def split: option.split prod.split bool.split)

lemma receive_data_state:
  "dc_state (snd (receive_data now c)) = dc_state c \<or> dc_state (snd (receive_data now c)) = DsClosed"
proof -
  obtain r c' where "read_from_socket c = (r, c')" by fastforce
  with read_from_socket_state [of c] show ?thesis
    by (cases r) (auto simp: receive_data_def update_activity_def)
qed

text \<open>Every step keeps the state, closes, or is the step of the handshake it names.\<close>

lemma conn_step_state:
  "dc_state (conn_step md5 op c) \<in> {dc_state c, DsClosed, DsHandshake, DsChallengeSent, DsWaitingForAccept} \<or>
   (dc_state (conn_step md5 op c) = DsVerifying \<and> (\<exists>oc. op = OpAcceptConnection oc)) \<or>
   (dc_state (conn_step md5 op c) = DsConnected \<and> dc_state c = DsVerifying \<and> (\<exists>d ch. op = OpChallengeResponse d ch))"
proof (cases op)
  case (OpPerformHandshake ch)
  let ?f = "\<lambda>c. c\<lparr>dc_state := DsChallengeSent\<rparr>" and ?c = "c\<lparr>dc_tick_timer := ucast ch\<rparr>"
  have "conn_step md5 op c = c \<or> (\<exists>b. conn_step md5 op c = snd (send_buffer b ?f ?c))"
    using OpPerformHandshake by (auto simp: perform_handshake_def Let_def)
  with send_buffer_state [of _ ?f ?c] show ?thesis by fastforce
next
  case (OpServerChallenge ch f)
  let ?f = "\<lambda>c. c\<lparr>dc_state := DsWaitingForAccept\<rparr>" and ?c = "c\<lparr>dc_peer_flags := from_u16 f, dc_peer_creation := 0\<rparr>"
  have "conn_step md5 op c = c \<or> (\<exists>b. conn_step md5 op c = snd (send_buffer b ?f ?c))"
    using OpServerChallenge by (auto simp: handle_server_challenge_def Let_def)
  with send_buffer_state [of _ ?f ?c] show ?thesis by fastforce
next
  case (OpChallengeResponse d ch)
  let ?f = "\<lambda>c. c\<lparr>dc_state := DsConnected, dc_creation := 1\<rparr>"
  have "conn_step md5 op c = c \<or> dc_state c = DsVerifying \<and> (\<exists>b. conn_step md5 op c = snd (send_buffer b ?f c))"
    using OpChallengeResponse by (auto simp: handle_challenge_response_def)
  with send_buffer_state [of _ ?f c] OpChallengeResponse show ?thesis by fastforce
next
  case (OpAcceptConnection oc)
  obtain r c1 where r1: "read_from_socket c = (r, c1)" by fastforce
  obtain i c2 where i: "read_init c1 = (i, c2)" by fastforce
  have c2: "dc_state c2 = dc_state c1"
    using i by (auto simp: read_init_def split: if_splits prod.splits option.splits)
  have c1: "dc_state c1 = dc_state c \<or> dc_state c1 = DsClosed"
    using read_from_socket_state [of c] r1 by simp
  show ?thesis
  proof (cases i)
    case (Ok a)
    then obtain f ch name where a: "i = Ok (f, ch, name)" by (cases a) auto
    let ?f = "\<lambda>c. c\<lparr>dc_state := DsVerifying\<rparr>"
      and ?c = "(set_peer_name name c2)\<lparr>dc_peer_flags := from_u16 f, dc_tick_timer := ucast oc\<rparr>"
    have "conn_step md5 op c \<in> {c, c1} \<or> (\<exists>b. conn_step md5 op c = snd (send_buffer b ?f ?c))"
      using OpAcceptConnection r1 i a by (cases r) (auto simp: accept_connection_def Let_def)
    moreover have "dc_state ?c = dc_state c2" by (simp add: set_peer_name_def)
    ultimately show ?thesis
      using send_buffer_state [of _ ?f ?c] c1 c2 OpAcceptConnection by fastforce
  qed (use OpAcceptConnection r1 i c1 c2 in \<open>cases r; auto simp: accept_connection_def\<close>)+
next
  case (OpReceiveData now)
  then show ?thesis using receive_data_state [of now c] by auto
qed (auto simp: connect_def accept_def accept_listener_def disconnect_def force_disconnect_def update_activity_def
    split: option.split)

definition conn_run :: "(u8 list \<Rightarrow> u8 list) \<Rightarrow> conn_op list \<Rightarrow> dist_connection \<Rightarrow> dist_connection" where
  "conn_run md5 ops c = fold (conn_step md5) ops c"

definition is_accept_connection :: "conn_op \<Rightarrow> bool" where
  "is_accept_connection op \<longleftrightarrow> (\<exists>oc. op = OpAcceptConnection oc)"

definition is_challenge_response :: "conn_op \<Rightarrow> bool" where
  "is_challenge_response op \<longleftrightarrow> (\<exists>d ch. op = OpChallengeResponse d ch)"

lemma conn_run_client:
  "dc_state c \<notin> {DsVerifying, DsConnected} \<Longrightarrow> \<not> list_ex is_accept_connection ops \<Longrightarrow>
   dc_state (conn_run md5 ops c) \<notin> {DsVerifying, DsConnected}"
proof (induction ops arbitrary: c)
  case (Cons op ops)
  have "dc_state (conn_step md5 op c) \<notin> {DsVerifying, DsConnected}"
    using conn_step_state [of md5 op c] Cons.prems by (auto simp: is_accept_connection_def)
  from Cons.IH [OF this] Cons.prems(2) show ?case by (simp add: conn_run_def)
qed (simp add: conn_run_def)

lemma conn_run_unanswered:
  "dc_state c \<noteq> DsConnected \<Longrightarrow> \<not> list_ex is_challenge_response ops \<Longrightarrow> dc_state (conn_run md5 ops c) \<noteq> DsConnected"
proof (induction ops arbitrary: c)
  case (Cons op ops)
  have "dc_state (conn_step md5 op c) \<noteq> DsConnected"
    using conn_step_state [of md5 op c] Cons.prems by (auto simp: is_challenge_response_def)
  from Cons.IH [OF this] Cons.prems(2) show ?case by (simp add: conn_run_def)
qed (simp add: conn_run_def)

section \<open>Properties\<close>

text \<open>C8. A peer that does not know the cookie gets connected: whatever the cookie and the digest
function, a server that reads an initial packet with challenge ch answers with a reply whose last
part, sent back as the response together with ch, completes the handshake, since the server checks
the response against the challenge the client chose.\<close>
theorem handshake_reflection:
  assumes "about_to_read s k (init_packet v f ch name)" "name_ok name"
  shows "\<exists>s1 k1 reply s2. accept_connection md5 oc s = (Ok (), s1) \<and> dc_socket s1 = Some k1
    \<and> last (sk_sent k1) = reply
    \<and> handle_challenge_response md5 (drop 7 reply) ch s1 = (Ok (), s2) \<and> is_connected s2"
proof -
  obtain s1 k1 where s1: "accept_connection md5 oc s = (Ok (), s1)" "dc_socket s1 = Some k1"
    "sk_sent k1 = sk_sent k @ [challenge_reply md5 oc ch s]" "sk_writes k1 = []"
    "dc_state s1 = DsVerifying" "dc_cookie s1 = dc_cookie s"
    using accept_connection_replies [OF assms] by blast
  have "drop 7 (challenge_reply md5 oc ch s) = compute_challenge_digest md5 ch (dc_cookie s1)"
    by (simp add: challenge_reply_def compute_challenge_digest_def s1(6))
  then show ?thesis
    using s1 by (simp add: handle_challenge_response_def send_buffer_ok is_connected_def)
qed

definition sample_server :: dist_connection where
  "sample_server = (connection_new 1 [98] [99] 0)\<lparr>dc_state := DsHandshake,
     dc_socket := Some \<lparr>sk_reads = [ReadBytes (init_packet 6 0 42 [97])], sk_writes = [], sk_sent = [], sk_shut = False\<rparr>\<rparr>"

theorem handshake_reflection_witness:
  "\<exists>s1 k1 reply s2. accept_connection (\<lambda>bs. take 16 (rev bs @ replicate 16 0)) 7 sample_server = (Ok (), s1)
     \<and> dc_socket s1 = Some k1 \<and> last (sk_sent k1) = reply
     \<and> handle_challenge_response (\<lambda>bs. take 16 (rev bs @ replicate 16 0)) (drop 7 reply) 42 s1 = (Ok (), s2)
     \<and> is_connected s2"
  by (rule handshake_reflection [of _ "\<lparr>sk_reads = [ReadBytes (init_packet 6 0 42 [97])], sk_writes = [], sk_sent = [], sk_shut = False\<rparr>"
        6 0 42 "[97]"])
    (simp_all add: about_to_read_def sample_server_def connection_new_def name_ok_def MAX_NODE_NAME_LEN_def)

text \<open>The protocol's own client is refused: the response of handle_server_challenge is the digest of
the server's challenge, sent together with the client's own challenge, and a server with the same
cookie accepts it only if the digests of the two challenges coincide.\<close>
theorem honest_client_refused:
  assumes "about_to_read s k (init_packet v f cc name)" "name_ok name"
    and "dc_state c = DsHandshake" "dc_socket c = Some j" "sk_writes j = []" "dc_cookie c = dc_cookie s"
  shows "\<exists>s1 c1 c2 j2. accept_connection md5 sc s = (Ok (), s1)
    \<and> perform_handshake cc c = (Ok (), c1) \<and> handle_server_challenge md5 sc fl c1 = (Ok (), c2)
    \<and> dc_socket c2 = Some j2
    \<and> last (sk_sent j2) = compute_challenge_digest md5 sc (dc_cookie s) @ le_bytes32 cc
    \<and> fst (handle_challenge_response md5 (compute_challenge_digest md5 sc (dc_cookie s)) cc s1)
        = (if compute_challenge_digest md5 sc (dc_cookie s) = compute_challenge_digest md5 cc (dc_cookie s)
           then Ok () else Err CookieMismatch)"
proof -
  obtain s1 k1 where s1: "accept_connection md5 sc s = (Ok (), s1)" "dc_socket s1 = Some k1"
    "sk_writes k1 = []" "dc_state s1 = DsVerifying" "dc_cookie s1 = dc_cookie s"
    using accept_connection_replies [OF assms(1,2)] by blast
  have "\<exists>c1 j1. perform_handshake cc c = (Ok (), c1) \<and> dc_state c1 = DsChallengeSent \<and> dc_socket c1 = Some j1
      \<and> sk_writes j1 = [] \<and> dc_cookie c1 = dc_cookie s \<and> dc_tick_timer c1 = ucast cc"
    using assms(3-6) by (simp add: perform_handshake_def Let_def send_buffer_ok [where k = j])
  then obtain c1 j1 where c1: "perform_handshake cc c = (Ok (), c1)" "dc_state c1 = DsChallengeSent"
    "dc_socket c1 = Some j1" "sk_writes j1 = []" "dc_cookie c1 = dc_cookie s" "dc_tick_timer c1 = ucast cc" by blast
  have "\<exists>c2 j2. handle_server_challenge md5 sc fl c1 = (Ok (), c2) \<and> dc_socket c2 = Some j2
      \<and> last (sk_sent j2) = compute_challenge_digest md5 sc (dc_cookie s) @ le_bytes32 cc"
    using c1(2-6) by (simp add: handle_server_challenge_def Let_def send_buffer_ok [where k = j1])
  moreover have "fst (handle_challenge_response md5 (compute_challenge_digest md5 sc (dc_cookie s)) cc s1)
        = (if compute_challenge_digest md5 sc (dc_cookie s) = compute_challenge_digest md5 cc (dc_cookie s)
           then Ok () else Err CookieMismatch)"
    using s1(2-5) by (simp add: handle_challenge_response_def send_buffer_ok)
  ultimately show ?thesis using s1(1) c1(1) by blast
qed

theorem honest_client_refused_witness:
  "\<exists>s1. accept_connection (\<lambda>bs. take 16 (bs @ replicate 16 0)) 7 sample_server = (Ok (), s1)
     \<and> fst (handle_challenge_response (\<lambda>bs. take 16 (bs @ replicate 16 0))
          (compute_challenge_digest (\<lambda>bs. take 16 (bs @ replicate 16 0)) 7 [99]) 42 s1) = Err CookieMismatch"
proof -
  let ?j = "\<lparr>sk_reads = [], sk_writes = [], sk_sent = [], sk_shut = False\<rparr>"
  let ?c = "(connection_new 2 [97] [99] 0)\<lparr>dc_state := DsHandshake, dc_socket := Some ?j\<rparr>"
  have "about_to_read sample_server \<lparr>sk_reads = [ReadBytes (init_packet 6 0 42 [97])], sk_writes = [], sk_sent = [], sk_shut = False\<rparr>
      (init_packet 6 0 42 [97])"
    by (simp add: about_to_read_def sample_server_def connection_new_def)
  moreover have "name_ok [97]" by (simp add: name_ok_def MAX_NODE_NAME_LEN_def)
  moreover have "dc_state ?c = DsHandshake" "dc_socket ?c = Some ?j" "sk_writes ?j = []"
    "dc_cookie ?c = dc_cookie sample_server" "dc_cookie sample_server = [99]"
    by (simp_all add: sample_server_def connection_new_def)
  ultimately show ?thesis
    using honest_client_refused [of sample_server _ 6 0 42 "[97]" ?c ?j "\<lambda>bs. take 16 (bs @ replicate 16 0)" 7 0]
    by (auto simp: compute_challenge_digest_def le_bytes32_def be_bytes32_def)
qed

text \<open>C7. A connection is connected only after accept_connection and handle_challenge_response: without
the first, so for every connection that only dials out, it never gets into a state in which a
message can be sent, and every send answers NotConnected.\<close>
theorem dialling_never_connects:
  assumes "c = conn_run md5 ops (connection_new i n k now)"
  shows "(is_connected c \<longrightarrow> list_ex is_accept_connection ops \<and> list_ex is_challenge_response ops)
    \<and> (\<not> list_ex is_accept_connection ops \<longrightarrow>
        \<not> conn_can_send c \<and> send_term t now' c = (Err NotConnected, c) \<and> send_control_message m now' c = (Err NotConnected, c)
        \<and> send_data d now' c = (Err NotConnected, c))"
proof -
  have n: "dc_state (connection_new i n k now) = DsIdle" by (simp add: connection_new_def)
  have client: "dc_state c \<notin> {DsVerifying, DsConnected}" if "\<not> list_ex is_accept_connection ops"
    unfolding assms by (rule conn_run_client [OF _ that]) (simp add: n)
  have "list_ex is_challenge_response ops" if "is_connected c"
    using conn_run_unanswered [of "connection_new i n k now" ops md5] that n
    by (auto simp: is_connected_def assms)
  then show ?thesis
    using client
    by (auto simp: is_connected_def conn_can_send_def state_can_send_def send_term_def send_control_message_def
        send_data_def conn_is_active_def state_is_active_def)
qed

theorem dialling_never_connects_witness:
  "\<not> conn_can_send (conn_run (\<lambda>bs. bs) [OpConnect (Some \<lparr>sk_reads = [], sk_writes = [], sk_sent = [], sk_shut = False\<rparr>) 0,
      OpPerformHandshake 5, OpServerChallenge 6 0] (connection_new 1 [97] [99] 0))"
  using dialling_never_connects [OF refl, of _ "[OpConnect (Some \<lparr>sk_reads = [], sk_writes = [], sk_sent = [], sk_shut = False\<rparr>) 0,
      OpPerformHandshake 5, OpServerChallenge 6 0]"]
  by (simp add: is_accept_connection_def)

end
