(* ===== verification/Dist_Nodes.thy ===== *)
theory Dist_Nodes
  imports Dist_Conn Interfaces
begin

text \<open>
  The node manager and the port mapper client (\<^verbatim>\<open>NodeManager\<close>, \<^verbatim>\<open>NodeId\<close> and
  \<^verbatim>\<open>EpmdClient\<close> of \<^verbatim>\<open>crates/chimera_erlang_beam_dist/src/lib.rs\<close>).

  Hash maps are maps, and what a hash map enumerates in no fixed order is a set.  The manager is an
  instance of the interface \<open>id_supply\<close>.
\<close>

section \<open>Nodes\<close>

datatype node_type = Visible | Hidden | Special

record dist_node_id =
  ni_name :: "u8 list"
  ni_node_type :: node_type
  ni_creation :: u32
  ni_dist_flags :: distribution_flags

definition dist_node_id_new :: "u8 list \<Rightarrow> dist_node_id" where
  "dist_node_id_new n = \<lparr>ni_name = n, ni_node_type = Visible, ni_creation = 0, ni_dist_flags = default_flags\<rparr>"

definition dist_node_id_with_type :: "u8 list \<Rightarrow> node_type \<Rightarrow> dist_node_id" where
  "dist_node_id_with_type n t = \<lparr>ni_name = n, ni_node_type = t, ni_creation = 0, ni_dist_flags = default_flags\<rparr>"

definition dist_node_id_with_creation :: "u8 list \<Rightarrow> u32 \<Rightarrow> dist_node_id" where
  "dist_node_id_with_creation n c = \<lparr>ni_name = n, ni_node_type = Visible, ni_creation = c, ni_dist_flags = default_flags\<rparr>"

section \<open>The port mapper client\<close>

record epmd_client =
  ep_host :: "u8 list"
  ep_port :: u16
  ep_connected :: bool
  ep_published_nodes :: "u8 list \<rightharpoonup> u16"
  ep_socket :: "tcp_stream option"

definition epmd_new :: "u8 list \<Rightarrow> u16 \<Rightarrow> epmd_client" where
  "epmd_new h p = \<lparr>ep_host = h, ep_port = p, ep_connected = False, ep_published_nodes = Map.empty, ep_socket = None\<rparr>"

definition epmd_connect :: "tcp_stream option \<Rightarrow> epmd_client \<Rightarrow> (dist_error, unit) outcome \<times> epmd_client" where
  "epmd_connect stream e =
     (case stream of
        Some s \<Rightarrow> (Ok (), e\<lparr>ep_socket := Some s, ep_connected := True\<rparr>)
      | None \<Rightarrow> (Err ConnectionFailed, e))"

definition epmd_disconnect :: "epmd_client \<Rightarrow> epmd_client" where
  "epmd_disconnect e = e\<lparr>ep_connected := False, ep_socket := None\<rparr>"

definition publish :: "u8 list \<Rightarrow> u16 \<Rightarrow> epmd_client \<Rightarrow> (dist_error, unit) outcome \<times> epmd_client" where
  "publish n p e =
     (if \<not> ep_connected e then (Err ConnectionFailed, e)
      else (Ok (), e\<lparr>ep_published_nodes := (ep_published_nodes e)(n \<mapsto> p)\<rparr>))"

definition unpublish :: "u8 list \<Rightarrow> epmd_client \<Rightarrow> (dist_error, unit) outcome \<times> epmd_client" where
  "unpublish n e =
     (if \<not> ep_connected e then (Err ConnectionFailed, e)
      else (Ok (), e\<lparr>ep_published_nodes := (ep_published_nodes e)(n := None)\<rparr>))"

definition epmd_lookup :: "u8 list \<Rightarrow> epmd_client \<Rightarrow> u16 option" where
  "epmd_lookup n e = ep_published_nodes e n"

section \<open>The manager\<close>

record reconnect_state =
  rs_attempts :: u32
  rs_next_reconnect_at :: i64
  rs_last_error :: "u8 list"

record node_manager =
  nm_this_node :: dist_node_id
  nm_connections :: "u64 \<rightharpoonup> dist_connection"
  nm_node_connections :: "u8 list \<rightharpoonup> u64"
  nm_next_connection_id :: u64
  nm_cookie :: "u8 list"
  nm_tls_config :: tls_config
  nm_pending_reconnects :: "u8 list \<rightharpoonup> reconnect_state"
  nm_max_reconnect_attempts :: u32

definition node_manager_new :: "u8 list \<Rightarrow> u8 list \<Rightarrow> node_manager" where
  "node_manager_new n cookie =
     \<lparr>nm_this_node = dist_node_id_new n, nm_connections = Map.empty, nm_node_connections = Map.empty,
      nm_next_connection_id = 1, nm_cookie = cookie, nm_tls_config = tls_config_new,
      nm_pending_reconnects = Map.empty, nm_max_reconnect_attempts = 5\<rparr>"

definition create_connection :: "u8 list \<Rightarrow> i64 \<Rightarrow> node_manager \<Rightarrow> u64 \<times> node_manager" where
  "create_connection peer now m =
     (let i = nm_next_connection_id m;
          conn = (set_peer_name peer (connection_new i (ni_name (nm_this_node m)) (nm_cookie m) now))
                   \<lparr>dc_creation := ni_creation (nm_this_node m)\<rparr>
      in (i, m\<lparr>nm_next_connection_id := i + 1, nm_connections := (nm_connections m)(i \<mapsto> conn),
               nm_node_connections := (nm_node_connections m)(peer \<mapsto> i)\<rparr>))"

definition set_tls_config :: "tls_config \<Rightarrow> node_manager \<Rightarrow> node_manager" where
  "set_tls_config t m = m\<lparr>nm_tls_config := t\<rparr>"

definition manager_requires_tls :: "node_manager \<Rightarrow> bool" where
  "manager_requires_tls m \<longleftrightarrow> policy_requires_tls (tc_policy (nm_tls_config m))"

definition get_connection :: "u64 \<Rightarrow> node_manager \<Rightarrow> dist_connection option" where
  "get_connection i m = nm_connections m i"

definition get_connection_by_node :: "u8 list \<Rightarrow> node_manager \<Rightarrow> dist_connection option" where
  "get_connection_by_node n m = Option.bind (nm_node_connections m n) (nm_connections m)"

definition remove_connection :: "u64 \<Rightarrow> node_manager \<Rightarrow> dist_connection option \<times> node_manager" where
  "remove_connection i m =
     (case nm_connections m i of
        Some c \<Rightarrow> (Some c, m\<lparr>nm_connections := (nm_connections m)(i := None),
                         nm_node_connections := (nm_node_connections m)(dc_peer_node_name c := None)\<rparr>)
      | None \<Rightarrow> (None, m))"

definition is_connected_to :: "u8 list \<Rightarrow> node_manager \<Rightarrow> bool" where
  "is_connected_to n m \<longleftrightarrow> nm_node_connections m n \<noteq> None"

definition active_connections :: "node_manager \<Rightarrow> u64 set" where
  "active_connections m = {i. \<exists>c. nm_connections m i = Some c \<and> conn_is_active c}"

definition manager_set_cookie :: "u8 list \<Rightarrow> node_manager \<Rightarrow> node_manager" where
  "manager_set_cookie k m = m\<lparr>nm_cookie := k\<rparr>"

definition manager_verify_cookie :: "u8 list \<Rightarrow> node_manager \<Rightarrow> bool" where
  "manager_verify_cookie k m \<longleftrightarrow> nm_cookie m = k"

text \<open>An operation on the connection to a node, through \<^verbatim>\<open>get_connection_by_node_mut\<close>.\<close>

definition on_node ::
  "u8 list \<Rightarrow> (dist_connection \<Rightarrow> conn_result) \<Rightarrow> node_manager \<Rightarrow> (dist_error, unit) outcome \<times> node_manager" where
  "on_node n f m =
     (case nm_node_connections m n of
        None \<Rightarrow> (Err NodeNotFound, m)
      | Some i \<Rightarrow>
          (case nm_connections m i of
             None \<Rightarrow> (Err NodeNotFound, m)
           | Some c \<Rightarrow> (case f c of (r, c') \<Rightarrow> (r, m\<lparr>nm_connections := (nm_connections m)(i \<mapsto> c')\<rparr>))))"

definition send_message ::
  "u8 list \<Rightarrow> remote_pid \<Rightarrow> beam_term \<Rightarrow> i64 \<Rightarrow> node_manager \<Rightarrow> (dist_error, unit) outcome \<times> node_manager" where
  "send_message n pid msg now =
     on_node n (\<lambda>c. if \<not> conn_can_send c then (Err NotConnected, c) else send_data (encode_message pid msg) now c)"

definition send_control ::
  "u8 list \<Rightarrow> control_message \<Rightarrow> i64 \<Rightarrow> node_manager \<Rightarrow> (dist_error, unit) outcome \<times> node_manager" where
  "send_control n msg now = on_node n (send_data (encode_control_packet (control_encode msg)) now)"

definition send_link where "send_link n f t now = send_control n (new_link f t) now"
definition send_unlink where "send_unlink n f t now = send_control n (new_unlink f t) now"
definition send_monitor where "send_monitor n f t r now = send_control n (new_monitor f t r) now"
definition send_demonitor where "send_demonitor n f t r now = send_control n (new_demonitor f t r) now"
definition send_exit where "send_exit n f t reason now = send_control n (new_exit f t reason) now"
definition send_monitor_exit where "send_monitor_exit n r f reason now = send_control n (new_monitor_exit r f reason) now"

definition handle_control_message :: "u64 \<Rightarrow> u8 list \<Rightarrow> node_manager \<Rightarrow> control_message option" where
  "handle_control_message i data m = control_decode data"

definition tick_connection :: "i64 \<Rightarrow> dist_connection \<Rightarrow> dist_connection" where
  "tick_connection now c =
     (if needs_tick now c then
        (case send_tick now c of
           (Err e, c') \<Rightarrow> force_disconnect c'
         | (r, c') \<Rightarrow> c')
      else c)"

definition process_ticks :: "i64 \<Rightarrow> node_manager \<Rightarrow> node_manager" where
  "process_ticks now m = m\<lparr>nm_connections := (\<lambda>i. map_option (tick_connection now) (nm_connections m i))\<rparr>"

section \<open>Reconnection\<close>

definition attempts_of :: "u8 list \<Rightarrow> node_manager \<Rightarrow> u32" where
  "attempts_of n m = (case nm_pending_reconnects m n of Some s \<Rightarrow> rs_attempts s | None \<Rightarrow> 0)"

text \<open>The delay is \<^verbatim>\<open>(1 << attempts).min(60)\<close> seconds.\<close>

definition on_disconnect :: "u8 list \<Rightarrow> u8 list \<Rightarrow> i64 \<Rightarrow> node_manager \<Rightarrow> node_manager" where
  "on_disconnect n err now m =
     (let m = (case nm_node_connections m n of
                 Some i \<Rightarrow> m\<lparr>nm_node_connections := (nm_node_connections m)(n := None),
                            nm_connections := (nm_connections m)(i := None)\<rparr>
               | None \<Rightarrow> m);
          attempts = attempts_of n m
      in if attempts \<ge> nm_max_reconnect_attempts m then m
         else m\<lparr>nm_pending_reconnects := (nm_pending_reconnects m)(n \<mapsto>
                \<lparr>rs_attempts = attempts + 1, rs_next_reconnect_at = now + of_nat (min (2 ^ unat attempts) 60),
                 rs_last_error = err\<rparr>)\<rparr>)"

definition process_reconnects :: "i64 \<Rightarrow> node_manager \<Rightarrow> u8 list set" where
  "process_reconnects now m =
     {n. \<exists>s. nm_pending_reconnects m n = Some s \<and> sint (rs_next_reconnect_at s) \<le> sint now}"

definition reconnect_node :: "u8 list \<Rightarrow> i64 \<Rightarrow> node_manager \<Rightarrow> u64 option \<times> node_manager" where
  "reconnect_node n now m =
     (let m = m\<lparr>nm_pending_reconnects := (nm_pending_reconnects m)(n := None)\<rparr>;
          (i, m) = create_connection n now m
      in (Some i, m\<lparr>nm_node_connections := (nm_node_connections m)(n := None)\<rparr>))"

definition pending_reconnect_count :: "node_manager \<Rightarrow> nat" where
  "pending_reconnect_count m = card (dom (nm_pending_reconnects m))"

definition remaining_attempts :: "u8 list \<Rightarrow> node_manager \<Rightarrow> u32" where
  "remaining_attempts n m = nm_max_reconnect_attempts m - attempts_of n m"

definition reconnect ::
  "u8 list \<Rightarrow> tcp_stream option \<Rightarrow> i64 \<Rightarrow> node_manager \<Rightarrow> (dist_error, u64) outcome \<times> node_manager" where
  "reconnect n stream now m =
     (let m = (case nm_node_connections m n of
                 Some old \<Rightarrow> m\<lparr>nm_connections := (nm_connections m)(old := None)\<rparr> | None \<Rightarrow> m);
          (i, m) = create_connection n now m
      in case nm_connections m i of
           None \<Rightarrow> (Ok i, m)
         | Some c \<Rightarrow>
             (case connect stream now c of
                (Ok x, c') \<Rightarrow> (Ok i, m\<lparr>nm_connections := (nm_connections m)(i \<mapsto> c')\<rparr>)
              | (Err e, c') \<Rightarrow> (Err e, m\<lparr>nm_connections := (nm_connections m)(i \<mapsto> c')\<rparr>)
              | (Panic p, c') \<Rightarrow> (Panic p, m)
              | (OutOfFuel, c') \<Rightarrow> (OutOfFuel, m)))"

definition connection_count :: "node_manager \<Rightarrow> nat" where
  "connection_count m = card (dom (nm_connections m))"

definition active_connection_count :: "node_manager \<Rightarrow> nat" where
  "active_connection_count m = card (active_connections m)"

section \<open>Identifiers of connections\<close>

definition connection_ids :: "node_manager \<Rightarrow> u64 set" where
  "connection_ids m = dom (nm_connections m)"

definition alloc_connection :: "u8 list \<times> i64 \<Rightarrow> node_manager \<Rightarrow> u64 \<times> node_manager" where
  "alloc_connection x = create_connection (fst x) (snd x)"

interpretation connection_supply: id_supply alloc_connection nm_next_connection_id connection_ids
  by unfold_locales (auto simp: alloc_connection_def create_connection_def connection_ids_def Let_def)

lemma reconnect_node_alloc:
  "snd (reconnect_node n now m) =
     (snd (alloc_connection (n, now) (m\<lparr>nm_pending_reconnects := (nm_pending_reconnects m)(n := None)\<rparr>)))
       \<lparr>nm_node_connections := (nm_node_connections m)(n := None)\<rparr>"
  by (simp add: reconnect_node_def alloc_connection_def create_connection_def Let_def)

lemma reconnect_node_next:
  "nm_next_connection_id (snd (reconnect_node n now m)) = nm_next_connection_id m + 1"
  "connection_ids (snd (reconnect_node n now m)) = insert (nm_next_connection_id m) (connection_ids m)"
  by (auto simp: reconnect_node_def create_connection_def connection_ids_def Let_def)

fun reconnect_each :: "(u8 list \<times> i64) list \<Rightarrow> node_manager \<Rightarrow> node_manager" where
  "reconnect_each [] m = m"
| "reconnect_each ((n, now) # xs) m = reconnect_each xs (snd (reconnect_node n now m))"

lemma reconnect_each_ids:
  "connection_supply.below_next m \<Longrightarrow> unat (nm_next_connection_id m) + length xs < 2 ^ 64 \<Longrightarrow>
   finite (connection_ids m) \<Longrightarrow>
   card (connection_ids (reconnect_each xs m)) = card (connection_ids m) + length xs
     \<and> connection_ids m \<subseteq> connection_ids (reconnect_each xs m)"
proof (induction xs m rule: reconnect_each.induct)
  case (2 n now xs m)
  let ?m = "snd (reconnect_node n now m)"
  have lt: "unat (nm_next_connection_id m) + 1 < 2 ^ 64" using "2.prems"(2) by simp
  have nx: "unat (nm_next_connection_id ?m) = unat (nm_next_connection_id m) + 1"
    using u64_inc(1) [OF lt] by (simp add: reconnect_node_next)
  have fresh: "nm_next_connection_id m \<notin> connection_ids m"
    using "2.prems"(1) by (auto simp: connection_supply.below_next_def)
  have "connection_supply.below_next ?m"
    using "2.prems"(1) u64_inc(2) [OF lt]
    by (auto simp: connection_supply.below_next_def reconnect_node_next intro: less_trans)
  from "2.IH" [OF this] "2.prems"(2,3) nx fresh show ?case by (auto simp: reconnect_node_next)
qed simp

section \<open>Backing off\<close>

lemma on_disconnect_attempts:
  assumes "attempts_of n m < nm_max_reconnect_attempts m"
  shows "nm_pending_reconnects (on_disconnect n err now m) = (nm_pending_reconnects m)(n \<mapsto>
      \<lparr>rs_attempts = attempts_of n m + 1, rs_next_reconnect_at = now + of_nat (min (2 ^ unat (attempts_of n m)) 60),
       rs_last_error = err\<rparr>)"
    "nm_max_reconnect_attempts (on_disconnect n err now m) = nm_max_reconnect_attempts m"
    "attempts_of n (on_disconnect n err now m) = attempts_of n m + 1"
  using assms by (auto simp: on_disconnect_def attempts_of_def Let_def split: option.splits)

lemma on_disconnect_exhausted:
  assumes "nm_max_reconnect_attempts m \<le> attempts_of n m"
  shows "nm_pending_reconnects (on_disconnect n err now m) = nm_pending_reconnects m"
    "nm_max_reconnect_attempts (on_disconnect n err now m) = nm_max_reconnect_attempts m"
    "attempts_of n (on_disconnect n err now m) = attempts_of n m"
  using assms by (auto simp: on_disconnect_def attempts_of_def Let_def split: option.splits)

text \<open>What befalls the link to a node: it is lost, or the client dials again with
  \<^verbatim>\<open>reconnect\<close>, which leaves the attempts alone.\<close>

datatype link_event =
    LinkLost "u8 list" i64
  | Redial "tcp_stream option" i64

fun link_step :: "u8 list \<Rightarrow> link_event \<Rightarrow> node_manager \<Rightarrow> node_manager" where
  "link_step n (LinkLost err t) m = on_disconnect n err t m"
| "link_step n (Redial stream t) m = snd (reconnect n stream t m)"

fun losses :: "link_event list \<Rightarrow> (u8 list \<times> i64) list" where
  "losses [] = []"
| "losses (LinkLost err t # es) = (err, t) # losses es"
| "losses (Redial stream t # es) = losses es"

lemma losses_append [simp]: "losses (es @ fs) = losses es @ losses fs"
  by (induction es rule: losses.induct) simp_all

lemma reconnect_keeps [simp]:
  "nm_pending_reconnects (snd (reconnect n stream t m)) = nm_pending_reconnects m"
  "nm_max_reconnect_attempts (snd (reconnect n stream t m)) = nm_max_reconnect_attempts m"
  "attempts_of n' (snd (reconnect n stream t m)) = attempts_of n' m"
  by (auto simp: reconnect_def create_connection_def attempts_of_def Let_def
      split: option.split prod.split outcome.split)

text \<open>The entry of a node after some losses.\<close>

definition entry_after :: "(u8 list \<times> i64) list \<Rightarrow> reconnect_state option" where
  "entry_after ts =
     (if ts = [] then None
      else
        (let k = min 5 (length ts); (err, t) = ts ! (k - 1)
         in Some \<lparr>rs_attempts = of_nat k, rs_next_reconnect_at = t + 2 ^ (k - 1), rs_last_error = err\<rparr>))"

lemma link_run:
  "nm_max_reconnect_attempts m = 5 \<Longrightarrow> nm_pending_reconnects m n = None \<Longrightarrow>
   nm_max_reconnect_attempts (fold (link_step n) es m) = 5
   \<and> attempts_of n (fold (link_step n) es m) = of_nat (min 5 (length (losses es)))
   \<and> nm_pending_reconnects (fold (link_step n) es m) n = entry_after (losses es)"
proof (induction es rule: rev_induct)
  case Nil
  then show ?case by (simp add: attempts_of_def entry_after_def)
next
  case (snoc e es)
  let ?m = "fold (link_step n) es m" and ?k = "length (losses es)"
  have IH: "nm_max_reconnect_attempts ?m = 5" "attempts_of n ?m = of_nat (min 5 ?k)"
    "nm_pending_reconnects ?m n = entry_after (losses es)"
    using snoc by auto
  have u: "unat (of_nat (min 5 ?k) :: u32) = min 5 ?k" by simp
  show ?case
  proof (cases e)
    case (Redial stream t)
    with IH show ?thesis by simp
  next
    case (LinkLost err t)
    show ?thesis
    proof (cases "?k < 5")
      case True
      have "attempts_of n ?m < nm_max_reconnect_attempts ?m"
        using True IH(1,2) u by (simp add: word_less_nat_alt)
      note d = on_disconnect_attempts [OF this, of err t]
      have "min (2 ^ ?k) 60 = (2 :: nat) ^ ?k"
        using power_increasing [of ?k 4 "2 :: nat"] True by simp
      moreover have "4 \<le> ?k \<longrightarrow> (of_nat ?k :: u32) = 4 \<and> (2 :: i64) ^ ?k = 16"
        using True by (cases "?k = 4") auto
      ultimately show ?thesis using d IH(1,2) u True LinkLost
        by (simp add: entry_after_def nth_append min_def add.commute Let_def)
    next
      case False
      then have "nm_max_reconnect_attempts ?m \<le> attempts_of n ?m" using IH(1,2) by simp
      note d = on_disconnect_exhausted [OF this, of err t]
      have "losses es \<noteq> []" using False by auto
      with d IH False LinkLost show ?thesis by (simp add: entry_after_def nth_append min_def)
    qed
  qed
qed

text \<open>A round of a retry loop: the link is lost, the client polls for the nodes to reconnect, and
  calls \<^verbatim>\<open>reconnect_node\<close> when the node is listed.  The second time is that of the poll.\<close>

definition retry_round :: "u8 list \<Rightarrow> u8 list \<times> i64 \<times> i64 \<Rightarrow> node_manager \<Rightarrow> node_manager" where
  "retry_round n r m =
     (let (err, t, poll) = r; m' = on_disconnect n err t m
      in if n \<in> process_reconnects poll m' then snd (reconnect_node n poll m') else m')"

text \<open>A poll one second after the loss, or later.\<close>

definition polled_late :: "u8 list \<times> i64 \<times> i64 \<Rightarrow> bool" where
  "polled_late r \<longleftrightarrow> (case r of (err, t, poll) \<Rightarrow> sint (t + 1) \<le> sint poll)"

lemma fresh_disconnect:
  assumes "nm_max_reconnect_attempts m = 5" and "nm_pending_reconnects m n = None"
  shows "nm_pending_reconnects (on_disconnect n err t m) n =
      Some \<lparr>rs_attempts = 1, rs_next_reconnect_at = t + 1, rs_last_error = err\<rparr>"
    "nm_max_reconnect_attempts (on_disconnect n err t m) = 5"
    "n \<in> process_reconnects now (on_disconnect n err t m) \<longleftrightarrow> sint (t + 1) \<le> sint now"
proof -
  have "attempts_of n m = 0" using assms(2) by (simp add: attempts_of_def)
  with assms(1) have "attempts_of n m < nm_max_reconnect_attempts m" by simp
  note d = on_disconnect_attempts [OF this, of err t]
  with assms(1) \<open>attempts_of n m = 0\<close>
  show e: "nm_pending_reconnects (on_disconnect n err t m) n =
      Some \<lparr>rs_attempts = 1, rs_next_reconnect_at = t + 1, rs_last_error = err\<rparr>"
    and "nm_max_reconnect_attempts (on_disconnect n err t m) = 5" by simp_all
  from e show "n \<in> process_reconnects now (on_disconnect n err t m) \<longleftrightarrow> sint (t + 1) \<le> sint now"
    by (simp add: process_reconnects_def)
qed

lemma retry_rounds:
  assumes "nm_max_reconnect_attempts m = 5" and "nm_pending_reconnects m n = None"
    and "list_all polled_late rs"
  shows "nm_max_reconnect_attempts (fold (retry_round n) rs m) = 5
    \<and> nm_pending_reconnects (fold (retry_round n) rs m) n = None"
  using assms
proof (induction rs arbitrary: m)
  case (Cons r rs)
  obtain err t poll where r: "r = (err, t, poll)" by (cases r) auto
  note d = fresh_disconnect [OF Cons.prems(1,2), where err = err and t = t]
  have "n \<in> process_reconnects poll (on_disconnect n err t m)"
    using Cons.prems(3) d(3) by (simp add: r polled_late_def)
  then have rr: "retry_round n r m = snd (reconnect_node n poll (on_disconnect n err t m))"
    by (simp add: retry_round_def r)
  have "nm_max_reconnect_attempts (retry_round n r m) = 5" "nm_pending_reconnects (retry_round n r m) n = None"
    using d(2) by (simp_all add: rr reconnect_node_def create_connection_def Let_def)
  from Cons.IH [OF this] Cons.prems(3) show ?case by simp
qed simp

section \<open>Properties\<close>

text \<open>C28. A node whose link is lost again and again, and dialled with reconnect in between, is to be
retried 1, 2, 4, 8 and 16 seconds after its first five losses; later losses change nothing.  It is
listed for reconnection exactly from that time on, however often it has failed: the limit of attempts
takes no node off the list.  A loop that polls that list a second or more after each loss and then
calls reconnect_node never backs off: after any number of rounds a loss counts as the first one, and
the node is listed again a second later.\<close>
theorem reconnect_backoff:
  assumes "nm_max_reconnect_attempts m = 5" and "nm_pending_reconnects m n = None"
  shows "nm_pending_reconnects (fold (link_step n) es m) n = entry_after (losses es)
    \<and> (losses es \<noteq> [] \<longrightarrow>
        (n \<in> process_reconnects now (fold (link_step n) es m) \<longleftrightarrow>
           (let k = min 5 (length (losses es))
            in sint (snd (losses es ! (k - 1)) + 2 ^ (k - 1)) \<le> sint now)))
    \<and> (list_all polled_late rs \<longrightarrow>
        nm_pending_reconnects (on_disconnect n err t (fold (retry_round n) rs m)) n
          = Some \<lparr>rs_attempts = 1, rs_next_reconnect_at = t + 1, rs_last_error = err\<rparr>
        \<and> (n \<in> process_reconnects now (on_disconnect n err t (fold (retry_round n) rs m))
             \<longleftrightarrow> sint (t + 1) \<le> sint now))"
proof (intro conjI impI)
  note run = link_run [OF assms, of es]
  show entry: "nm_pending_reconnects (fold (link_step n) es m) n = entry_after (losses es)"
    using run by simp
  then show "n \<in> process_reconnects now (fold (link_step n) es m) \<longleftrightarrow>
      (let k = min 5 (length (losses es)) in sint (snd (losses es ! (k - 1)) + 2 ^ (k - 1)) \<le> sint now)"
    if "losses es \<noteq> []"
    using that by (simp add: process_reconnects_def entry_after_def Let_def split_beta)
next
  assume "list_all polled_late rs"
  from retry_rounds [OF assms this] show
    "nm_pending_reconnects (on_disconnect n err t (fold (retry_round n) rs m)) n
      = Some \<lparr>rs_attempts = 1, rs_next_reconnect_at = t + 1, rs_last_error = err\<rparr>"
    "n \<in> process_reconnects now (on_disconnect n err t (fold (retry_round n) rs m))
      \<longleftrightarrow> sint (t + 1) \<le> sint now"
    by (simp_all add: fresh_disconnect)
qed

theorem reconnect_backoff_witness:
  "nm_pending_reconnects (fold (link_step [97]) [LinkLost [101] 100, Redial None 150, LinkLost [102] 200,
       LinkLost [103] 300] (node_manager_new [98] [99])) [97]
     = Some \<lparr>rs_attempts = 3, rs_next_reconnect_at = 304, rs_last_error = [103]\<rparr>
   \<and> [97] \<in> process_reconnects 401 (on_disconnect [97] [101] 400
       (fold (retry_round [97]) [([101], 100, 101), ([101], 200, 205)] (node_manager_new [98] [99])))"
proof -
  have "nm_max_reconnect_attempts (node_manager_new [98] [99]) = 5"
    "nm_pending_reconnects (node_manager_new [98] [99]) [97] = None"
    by (simp_all add: node_manager_new_def)
  from reconnect_backoff [OF this, of "[LinkLost [101] 100, Redial None 150, LinkLost [102] 200,
      LinkLost [103] 300]" 401 "[([101], 100, 101), ([101], 200, 205)]" "[101]" 400]
  show ?thesis by (simp add: entry_after_def polled_late_def numeral_3_eq_3 nth_Cons)
qed

text \<open>Every reconnect_node leaves a connection that no name leads to: the node is not found, sends
to it fail, and the number of connections grows by one each time, while no connection is ever lost
or reused.\<close>
theorem reconnects_leak_connections:
  assumes "connection_supply.below_next m" "finite (connection_ids m)"
    and "unat (nm_next_connection_id m) + length xs < 2 ^ 64"
  shows "connection_count (reconnect_each xs m) = connection_count m + length xs
    \<and> connection_ids m \<subseteq> connection_ids (reconnect_each xs m)
    \<and> get_connection_by_node n (snd (reconnect_node n now m)) = None
    \<and> fst (send_message n pid msg now (snd (reconnect_node n now m))) = Err NodeNotFound"
proof -
  have "get_connection_by_node n (snd (reconnect_node n now m)) = None
      \<and> fst (send_message n pid msg now (snd (reconnect_node n now m))) = Err NodeNotFound"
    by (simp add: reconnect_node_def create_connection_def get_connection_by_node_def send_message_def on_node_def Let_def)
  with reconnect_each_ids [OF assms(1,3,2)] show ?thesis
    by (simp add: connection_count_def connection_ids_def)
qed

theorem reconnects_leak_connections_witness:
  "connection_count (reconnect_each [([97], 1), ([97], 2), ([97], 3)] (node_manager_new [98] [99])) = 3"
proof -
  let ?m = "node_manager_new [98] [99]"
  have "connection_supply.below_next ?m" "finite (connection_ids ?m)" "connection_count ?m = 0"
    "unat (nm_next_connection_id ?m) + length [([97 :: u8], 1 :: i64), ([97], 2), ([97], 3)] < 2 ^ 64"
    by (simp_all add: connection_supply.below_next_def connection_ids_def node_manager_new_def connection_count_def)
  from reconnects_leak_connections [OF this(1,2,4)] this(3) show ?thesis by simp
qed

text \<open>The TLS configuration of a node manager has no effect: also when it requires TLS, the
connection it makes to a node has TLS disabled and connects in plain text.\<close>
theorem required_tls_ignored:
  assumes "manager_requires_tls m"
  shows "\<exists>i m' c. reconnect n (Some s) now m = (Ok i, m') \<and> get_connection_by_node n m' = Some c
    \<and> tc_policy (dc_tls_config c) = TlsDisabled \<and> dc_state c = DsHandshake \<and> dc_socket c = Some s"
  by (auto simp: reconnect_def create_connection_def set_peer_name_def connection_new_def connect_def
      get_connection_by_node_def tls_config_new_def update_activity_def Let_def split: option.split)

theorem required_tls_ignored_witness:
  "\<exists>i m' c. reconnect [97] (Some \<lparr>sk_reads = [], sk_writes = [], sk_sent = [], sk_shut = False\<rparr>) 0
       (set_tls_config (tls_config_with_policy TlsRequired) (node_manager_new [98] [99])) = (Ok i, m')
     \<and> get_connection_by_node [97] m' = Some c \<and> tc_policy (dc_tls_config c) = TlsDisabled"
proof -
  have "manager_requires_tls (set_tls_config (tls_config_with_policy TlsRequired) (node_manager_new [98] [99]))"
    by (simp add: manager_requires_tls_def set_tls_config_def tls_config_with_policy_def policy_requires_tls_def)
  from required_tls_ignored [OF this] show ?thesis by blast
qed

end
