(* ===== verification/Bif.thy ===== *)
theory Bif
  imports Proc_Table Trace
begin

text \<open>
  The built-in functions (\<^verbatim>\<open>crates/chimera_erlang_beam_bif/src/lib.rs\<close>) and their dispatch
  (\<^verbatim>\<open>crates/chimera_erlang_beam_vm/src/bif_dispatch.rs\<close>).

  The context of a call holds the process table and a second reference to one of its
  processes; the reference is the index of that process's slot, so that a change made through
  the one is seen through the other, as in the only caller.  The global counter of monitor
  references and the global trace session are fields of the context.  The system clock, in
  nanoseconds since the epoch, is the first argument of every function.  A function pointer
  is a constructor of \<open>bif_fn\<close>.
\<close>

section \<open>Runtime services\<close>

datatype bif_error = BadArg | SystemLimit | NotFound | Exited beam_term

fun bif_error_display :: "(beam_term \<Rightarrow> string) \<Rightarrow> bif_error \<Rightarrow> string" where
  "bif_error_display show_term BadArg = ''bad argument''"
| "bif_error_display show_term SystemLimit = ''system limit''"
| "bif_error_display show_term NotFound = ''not found''"
| "bif_error_display show_term (Exited r) = ''exited: '' @ show_term r"

text \<open>A state assigned directly, past \<^verbatim>\<open>set_state\<close>.\<close>

definition assign_state :: "process_state \<Rightarrow> pcb \<Rightarrow> pcb" where
  "assign_state s c = c\<lparr>pcb_state := s\<rparr>"

definition spawn_process ::
  "nat \<Rightarrow> process_table \<Rightarrow> (vm_error, (bif_error + pid) \<times> process_table) outcome" where
  "spawn_process heap_size t =
     bind_o (spawn heap_size t) (\<lambda>((_, p), t).
       Ok (Inr p, case get_by_pid p t of
                    Some (i, _) \<Rightarrow> modify i (assign_state Running) t
                  | None \<Rightarrow> t))"

definition get_process :: "pid \<Rightarrow> process_table \<Rightarrow> pcb option" where
  "get_process p t = map_option snd (get_by_pid p t)"

text \<open>The part shared by \<^verbatim>\<open>send_message\<close> and \<^verbatim>\<open>bif_send\<close>: a message is queued and a waiting
  process is woken.\<close>

definition deliver_and_wake :: "beam_term \<Rightarrow> pcb \<Rightarrow> pcb" where
  "deliver_and_wake msg c =
     (let c = send_message msg c
      in if pcb_state c = Waiting then assign_state Running c else c)"

definition services_send_message ::
  "pid \<Rightarrow> beam_term \<Rightarrow> process_table \<Rightarrow> (bif_error + unit) \<times> process_table" where
  "services_send_message dest msg t =
     (case get_by_pid dest t of
        Some (i, c) \<Rightarrow>
          if pcb_state c = Exiting then (Inl (Exited (from_atom ATOM_ERROR)), t)
          else (Inr (), modify i (deliver_and_wake msg) t)
      | None \<Rightarrow> (Inl NotFound, t))"

definition on_process ::
  "pid \<Rightarrow> (pcb \<Rightarrow> pcb) \<Rightarrow> process_table \<Rightarrow> (bif_error + unit) \<times> process_table" where
  "on_process p f t =
     (case get_by_pid p t of
        Some (i, _) \<Rightarrow> (Inr (), modify i f t)
      | None \<Rightarrow> (Inl NotFound, t))"

definition services_send_exit ::
  "pid \<Rightarrow> pid \<Rightarrow> beam_term \<Rightarrow> process_table \<Rightarrow> (bif_error + unit) \<times> process_table" where
  "services_send_exit from to reason = on_process to (send_exit from reason)"

definition force_exit :: "beam_term \<Rightarrow> pcb \<Rightarrow> pcb" where
  "force_exit reason c = c\<lparr>pcb_exit_reason := reason, pcb_state := Exiting\<rparr>"

definition services_exit_process ::
  "pid \<Rightarrow> beam_term \<Rightarrow> process_table \<Rightarrow> (bif_error + unit) \<times> process_table" where
  "services_exit_process p reason = on_process p (force_exit reason)"

definition services_kill_process ::
  "pid \<Rightarrow> process_table \<Rightarrow> (bif_error + unit) \<times> process_table" where
  "services_kill_process p = on_process p kill"

definition map_err :: "'e \<Rightarrow> 'a vm_result \<Rightarrow> 'e + 'a" where
  "map_err e r = (case r of Inr a \<Rightarrow> Inr a | Inl _ \<Rightarrow> Inl e)"

definition link_processes ::
  "pid \<Rightarrow> pid \<Rightarrow> process_table \<Rightarrow> (bif_error + unit) \<times> process_table" where
  "link_processes a b t =
     (let (r, t) = bidirectional_link_with_table a b t in (map_err SystemLimit r, t))"

definition unlink_processes ::
  "pid \<Rightarrow> pid \<Rightarrow> process_table \<Rightarrow> (bif_error + unit) \<times> process_table" where
  "unlink_processes a b t =
     (let (r, t) = bidirectional_unlink_with_table a b t in (map_err SystemLimit r, t))"

definition monitor_process ::
  "pid \<Rightarrow> pid \<Rightarrow> u64 \<times> process_table \<Rightarrow> (bif_error + u64) \<times> u64 \<times> process_table" where
  "monitor_process a b st =
     (let (r, st) = monitor_with_table a b st in (map_err SystemLimit r, st))"

definition demonitor_process ::
  "pid \<Rightarrow> u64 \<Rightarrow> process_table \<Rightarrow> (bif_error + bool) \<times> process_table" where
  "demonitor_process p ref_id t =
     (let (r, t) = demonitor_with_table p ref_id t in (map_err SystemLimit r, t))"

definition register_process ::
  "beam_term \<Rightarrow> pid \<Rightarrow> process_table \<Rightarrow> (bif_error + unit) \<times> process_table" where
  "register_process name p t =
     (let (r, t) = register (to_atom name) p t in (map_err BadArg r, t))"

definition unregister_process ::
  "beam_term \<Rightarrow> process_table \<Rightarrow> (bif_error + bool) \<times> process_table" where
  "unregister_process name t =
     (let (b, t) = unregister (to_atom name) t in (Inr b, t))"

definition whereis_process :: "beam_term \<Rightarrow> process_table \<Rightarrow> pid option" where
  "whereis_process name t = whereis (to_atom name) t"

definition services_make_ref :: "nat \<Rightarrow> pid \<Rightarrow> u64" where
  "services_make_ref now p =
     (let pid_bits = push_bit 48 (ucast (pid_id p)); time_bits = of_nat now
      in pid_bits XOR time_bits)"

definition current_time_ns :: "nat \<Rightarrow> u64" where
  "current_time_ns now = of_nat now"

definition total_code_size :: "process_table \<Rightarrow> nat" where
  "total_code_size t = 0"

definition services_is_module_loaded :: "string \<Rightarrow> process_table \<Rightarrow> bool" where
  "services_is_module_loaded m t \<longleftrightarrow> False"

section \<open>The context of a call\<close>

record bif_context =
  bx_process :: nat
  bx_table :: process_table
  bx_pid :: pid
  bx_node_name :: string
  bx_monitor_counter :: u64
  bx_trace_session :: "trace_session option"

type_synonym bif_out = "(vm_error, beam_term \<times> bif_context) outcome"

type_synonym bif = "nat \<Rightarrow> bif_context \<Rightarrow> beam_term list \<Rightarrow> bif_out"

text \<open>\<^verbatim>\<open>ctx.process\<close> read and changed; the reference is to a filled slot (\<open>current_ok\<close> below).\<close>

definition bx_current :: "bif_context \<Rightarrow> pcb" where
  "bx_current x = the (get_by_index (bx_process x) (bx_table x))"

definition on_table :: "(process_table \<Rightarrow> process_table) \<Rightarrow> bif_context \<Rightarrow> bif_context" where
  "on_table f x = x\<lparr>bx_table := f (bx_table x)\<rparr>"

definition on_current :: "(pcb \<Rightarrow> pcb) \<Rightarrow> bif_context \<Rightarrow> bif_context" where
  "on_current f x = on_table (modify (bx_process x) f) x"

definition with_heap :: "(process_heap \<Rightarrow> 'a \<times> process_heap) \<Rightarrow> pcb \<Rightarrow> 'a \<times> pcb" where
  "with_heap f c = (let (a, h) = f (pcb_heap c) in (a, c\<lparr>pcb_heap := h\<rparr>))"

definition on_current_heap ::
  "(process_heap \<Rightarrow> 'a \<times> process_heap) \<Rightarrow> bif_context \<Rightarrow> 'a \<times> bif_context" where
  "on_current_heap f x =
     (let (a, c) = with_heap f (bx_current x) in (a, on_current (\<lambda>_. c) x))"

definition atom_result :: "u32 \<Rightarrow> bif_context \<Rightarrow> bif_out" where
  "atom_result a x = Ok (from_atom a, x)"

text \<open>The identifier a term stands for: \<^verbatim>\<open>Pid::new(term.to_cons() as u32, 0, 0)\<close>.\<close>

definition pid_of_term :: "beam_term \<Rightarrow> pid" where
  "pid_of_term v = pid_new (ucast (to_cons v)) 0 0"

definition term_of_pid :: "pid \<Rightarrow> beam_term" where
  "term_of_pid p = from_cons (ucast (pid_id p))"

definition generate_unique_ref :: "nat \<Rightarrow> bif_context \<Rightarrow> u64" where
  "generate_unique_ref now x =
     (let pid_bits = push_bit 48 (ucast (pid_id (bx_pid x))); time_bits = of_nat now
      in pid_bits XOR time_bits)"

section \<open>Spawning, identity, nodes\<close>

definition bif_spawn :: bif where
  "bif_spawn now x args =
     (if args = [] then atom_result ATOM_ERROR x
      else
        bind_o (spawn 8192 (bx_table x)) (\<lambda>((h, p), t).
          let t = (case get_by_handle h t of
                     Some _ \<Rightarrow> modify (ph_index h) (assign_state Running) t
                   | None \<Rightarrow> t)
          in Ok (term_of_pid p, x\<lparr>bx_table := t\<rparr>)))"

definition bif_spawn_link :: bif where
  "bif_spawn_link = bif_spawn"

definition bif_spawn_monitor :: bif where
  "bif_spawn_monitor now x args =
     bind_o (bif_spawn now x args) (\<lambda>(p, x).
       if is_cons p then Ok (from_cons (generate_unique_ref now x), x)
       else atom_result ATOM_ERROR x)"

definition bif_self :: bif where
  "bif_self now x args = Ok (term_of_pid (bx_pid x), x)"

definition bif_node :: bif where
  "bif_node now x args =
     (let (a, t) = intern_atom (bx_node_name x) (bx_table x)
      in Ok (from_atom a, x\<lparr>bx_table := t\<rparr>))"

fun intern_all :: "string list \<Rightarrow> process_table \<Rightarrow> u32 list \<times> process_table" where
  "intern_all [] t = ([], t)"
| "intern_all (n # ns) t =
     (let (a, t) = intern_atom n t; (as, t) = intern_all ns t in (a # as, t))"

text \<open>The list is built from the last atom to the first; the first failing allocation ends it
  with nil.\<close>

fun node_list :: "u32 list \<Rightarrow> beam_term \<Rightarrow> process_heap \<Rightarrow> beam_term \<times> process_heap" where
  "node_list [] list h = (list, h)"
| "node_list (a # as) list h =
     (case alloc 2 h of
        (Some pos, h) \<Rightarrow>
          node_list as (from_cons (of_nat pos))
            (set_word (pos + 1) (to_cons list) (set_word pos (to_cons (from_atom a)) h))
      | (None, h) \<Rightarrow> (nil, h))"

definition bif_nodes :: bif where
  "bif_nodes now x args =
     (let (atoms, t) = intern_all (tb_connected_nodes (bx_table x)) (bx_table x);
          x = x\<lparr>bx_table := t\<rparr>
      in Ok (on_current_heap (node_list (rev atoms) nil) x))"

section \<open>Messages, dictionary, registry\<close>

definition bif_send :: bif where
  "bif_send now x args =
     (if length args < 2 then atom_result ATOM_ERROR x
      else
        let dest = args ! 0; msg = args ! 1; t = bx_table x in
        if is_cons dest then
          (case get_by_pid (pid_of_term dest) t of
             Some (i, c) \<Rightarrow>
               if pcb_state c = Exiting then atom_result ATOM_ERROR x
               else Ok (msg, x\<lparr>bx_table := modify i (deliver_and_wake msg) t\<rparr>)
           | None \<Rightarrow> atom_result ATOM_ERROR x)
        else atom_result ATOM_ERROR x)"

definition bif_get :: bif where
  "bif_get now x args =
     (if args = [] then atom_result ATOM_ERROR x
      else
        (case map_of (pcb_dictionary (bx_current x)) (args ! 0) of
           Some v \<Rightarrow> Ok (v, x)
         | None \<Rightarrow> Ok (nil, x)))"

definition bif_put :: bif where
  "bif_put now x args =
     (if length args < 2 then atom_result ATOM_BADARG x
      else
        let key = args ! 0; v = args ! 1;
            old = map_of (pcb_dictionary (bx_current x)) key;
            x = on_current (\<lambda>c. c\<lparr>pcb_dictionary := AList.update key v (pcb_dictionary c)\<rparr>) x
        in Ok (case old of Some o' \<Rightarrow> o' | None \<Rightarrow> nil, x))"

definition bif_registered :: bif where
  "bif_registered now x args =
     bind_o (from_small (of_nat (length (registered_names (bx_table x))))) (\<lambda>v. Ok (v, x))"

definition bif_whereis :: bif where
  "bif_whereis now x args =
     (if args = [] then atom_result ATOM_FALSE x
      else
        (case whereis (to_atom (args ! 0)) (bx_table x) of
           Some p \<Rightarrow> Ok (term_of_pid p, x)
         | None \<Rightarrow> Ok (nil, x)))"

text \<open>\<^verbatim>\<open>if f(..).is_ok() { return true }\<close> falling through to false.\<close>

definition bool_result ::
  "('a vm_result \<times> process_table) \<Rightarrow> bif_context \<Rightarrow> bif_out" where
  "bool_result r x =
     (let (r, t) = r; x = x\<lparr>bx_table := t\<rparr>
      in atom_result (case r of Inr _ \<Rightarrow> ATOM_TRUE | Inl _ \<Rightarrow> ATOM_FALSE) x)"

definition bif_register :: bif where
  "bif_register now x args =
     (if length args < 2 then atom_result ATOM_BADARG x
      else
        let name = to_atom (args ! 0); pid_term = args ! 1 in
        if is_cons pid_term then bool_result (register name (pid_of_term pid_term) (bx_table x)) x
        else atom_result ATOM_FALSE x)"

section \<open>Exits\<close>

definition bif_exit :: bif where
  "bif_exit now x args =
     (if args = [] then atom_result ATOM_BADARG x
      else atom_result ATOM_NORMAL (on_current (force_exit (args ! 0)) x))"

definition force_exit_of :: "beam_term \<Rightarrow> beam_term \<Rightarrow> process_table \<Rightarrow> process_table" where
  "force_exit_of pid_term reason t =
     (if is_cons pid_term then
        (case get_by_pid (pid_of_term pid_term) t of
           Some (i, _) \<Rightarrow> modify i (force_exit reason) t
         | None \<Rightarrow> t)
      else t)"

definition bif_exit_reason :: bif where
  "bif_exit_reason now x args =
     (if length args < 2 then atom_result ATOM_BADARG x
      else atom_result ATOM_TRUE (on_table (force_exit_of (args ! 0) (args ! 1)) x))"

definition bif_kill :: bif where
  "bif_kill now x args =
     (if args = [] then atom_result ATOM_BADARG x
      else atom_result ATOM_TRUE (on_table (force_exit_of (args ! 0) (from_atom ATOM_KILL)) x))"

section \<open>Links and monitors\<close>

definition bif_link :: bif where
  "bif_link now x args =
     (if args = [] then atom_result ATOM_BADARG x
      else if is_cons (args ! 0)
      then bool_result (bidirectional_link_with_table (bx_pid x) (pid_of_term (args ! 0)) (bx_table x)) x
      else atom_result ATOM_FALSE x)"

definition bif_unlink :: bif where
  "bif_unlink now x args =
     (if args = [] then atom_result ATOM_BADARG x
      else if is_cons (args ! 0)
      then bool_result (bidirectional_unlink_with_table (bx_pid x) (pid_of_term (args ! 0)) (bx_table x)) x
      else atom_result ATOM_FALSE x)"

definition bif_monitor :: bif where
  "bif_monitor now x args =
     (if args = [] then atom_result ATOM_BADARG x
      else if is_cons (args ! 0) then
        (case monitor_with_table (bx_pid x) (pid_of_term (args ! 0))
                (bx_monitor_counter x, bx_table x) of
           (Inr ref_id, k, t) \<Rightarrow> Ok (from_cons ref_id, x\<lparr>bx_monitor_counter := k, bx_table := t\<rparr>)
         | (Inl _, k, t) \<Rightarrow> Ok (nil, x\<lparr>bx_monitor_counter := k, bx_table := t\<rparr>))
      else Ok (nil, x))"

definition bif_demonitor :: bif where
  "bif_demonitor now x args =
     (if args = [] then atom_result ATOM_BADARG x
      else bool_result (demonitor_with_table (bx_pid x) (to_cons (args ! 0)) (bx_table x)) x)"

section \<open>Process information\<close>

definition tuple_or_nil :: "beam_term list \<Rightarrow> process_heap \<Rightarrow> beam_term \<times> process_heap" where
  "tuple_or_nil elements h =
     (case make_tuple elements h of
        (Some pos, h) \<Rightarrow> (from_tuple (of_nat pos), h)
      | (None, h) \<Rightarrow> (nil, h))"

definition gc_info_list :: "beam_term \<Rightarrow> beam_term \<Rightarrow> process_heap \<Rightarrow> beam_term \<times> process_heap" where
  "gc_info_list minor_term major_term h =
     (case make_cons major_term nil h of
        (Some pos, h) \<Rightarrow>
          (case make_cons minor_term (from_cons (of_nat pos)) h of
             (Some pos, h) \<Rightarrow> (from_cons (of_nat pos), h)
           | (None, h) \<Rightarrow> (nil, h))
      | (None, h) \<Rightarrow> (nil, h))"

definition gc_info :: "process_heap \<Rightarrow> (vm_error, beam_term \<times> process_heap) outcome" where
  "gc_info h =
     (let st = get_stats h in
      bind_o (from_small (minor_collections st)) (\<lambda>minor_count.
      let (minor_term, h) = tuple_or_nil [from_atom ATOM_MINOR, minor_count] h in
      bind_o (from_small (major_collections st)) (\<lambda>major_count.
      let (major_term, h) = tuple_or_nil [from_atom ATOM_MAJOR, major_count] h in
      Ok (gc_info_list minor_term major_term h))))"

definition get_process_info_item ::
  "pcb \<Rightarrow> u32 \<Rightarrow> (vm_error, beam_term \<times> pcb) outcome" where
  "get_process_info_item c key =
     (let small = (\<lambda>n. bind_o (from_small n) (\<lambda>v. Ok (v, c))) in
      if key = 0 then Ok (from_atom (status_atom (pcb_state c)), c)
      else if key = 1 then small (of_nat (queue_len (pcb_mailbox c)))
      else if key = 16 then
        (case pcb_initial_call c of
           Some (m, f, a) \<Rightarrow>
             bind_o (from_small (ucast a)) (\<lambda>arity.
               Ok (with_heap (tuple_or_nil [from_atom m, from_atom f, arity]) c))
         | None \<Rightarrow> Ok (nil, c))
      else if key = 10 then small (of_nat (used_size (pcb_heap c)))
      else if key = 13 then small (of_nat (total_heap_size (pcb_heap c)))
      else if key = 14 then small (of_nat (used_size (pcb_heap c) * 8))
      else if key = 15 then
        bind_o (gc_info (pcb_heap c)) (\<lambda>(v, h). Ok (v, c\<lparr>pcb_heap := h\<rparr>))
      else if key = 12 then small (pcb_reductions c)
      else Ok (from_atom ATOM_UNDEFINED, c))"

definition bif_process_info :: bif where
  "bif_process_info now x args =
     (if args = [] then Ok (nil, x)
      else if \<not> is_cons (args ! 0) then atom_result ATOM_BADARG x
      else
        (case get_by_pid (pid_of_term (args ! 0)) (bx_table x) of
           None \<Rightarrow> Ok (nil, x)
         | Some (i, c) \<Rightarrow>
             if length args \<ge> 2 then
               bind_o (get_process_info_item c (to_atom (args ! 1))) (\<lambda>(v, c').
                 Ok (v, on_table (modify i (\<lambda>_. c')) x))
             else atom_result (status_atom (pcb_state c)) x))"

section \<open>Tracing\<close>

definition bif_trace :: bif where
  "bif_trace now x args =
     (if length args < 3 then atom_result ATOM_BADARG x
      else if \<not> is_cons (args ! 0) then atom_result ATOM_BADARG x
      else
        (case get_by_pid (pid_of_term (args ! 0)) (bx_table x) of
           None \<Rightarrow> atom_result ATOM_FALSE x
         | Some (i, _) \<Rightarrow>
             (let fs = flags_from_list_term (args ! 2);
                  fs = (if to_atom (args ! 1) = 1 then fs else 0)
              in atom_result ATOM_TRUE
                   (on_table (modify i (\<lambda>c. c\<lparr>pcb_trace_flags := fs\<rparr>)) x))))"

definition in_session ::
  "(trace_session \<Rightarrow> trace_session) \<Rightarrow> bif_context \<Rightarrow> bif_out" where
  "in_session f x =
     bind_o (with_session_mut (\<lambda>s. (from_atom ATOM_TRUE, f s)) (bx_trace_session x))
       (\<lambda>(v, s). Ok (v, x\<lparr>bx_trace_session := s\<rparr>))"

definition bif_trace_pattern :: bif where
  "bif_trace_pattern now x args =
     (if length args < 3 then atom_result ATOM_BADARG x
      else
        let mfa_term = args ! 0; flag_term = args ! 1 in
        if is_atom mfa_term then
          (if to_atom mfa_term = 0 then in_session (set_match_all True) x
           else atom_result ATOM_FALSE x)
        else if tag mfa_term \<noteq> TagTuple then atom_result ATOM_BADARG x
        else
          let p = unat (to_tuple mfa_term); h = pcb_heap (bx_current x);
              m = read_tuple_element p 0 h; f = read_tuple_element p 1 h;
              a = read_tuple_element p 2 h in
          if \<not> is_atom m then atom_result ATOM_BADARG x
          else if \<not> is_atom f then atom_result ATOM_BADARG x
          else if \<not> is_small a then atom_result ATOM_BADARG x
          else
            in_session
              (set_pattern (to_atom m) (to_atom f) (unat (to_small a))
                 (to_atom flag_term \<noteq> ATOM_FALSE)) x)"

section \<open>References and time\<close>

definition bif_make_ref :: bif where
  "bif_make_ref now x args =
     (let ref_id = generate_unique_ref now x in
      Ok (on_current_heap (\<lambda>h.
        case alloc 2 h of
          (Some pos, h) \<Rightarrow> (from_cons (of_nat pos), set_word (pos + 1) ref_id (set_word pos 0 h))
        | (None, h) \<Rightarrow> (nil, h)) x))"

definition bif_now :: bif where
  "bif_now now x args =
     (let total_secs = now div 1000000000;
          mega_secs = total_secs div (1000 * 1000);
          secs = total_secs mod (1000 * 1000);
          micro_secs = now mod 1000000000 div 1000 in
      bind_o (from_small (of_nat mega_secs)) (\<lambda>mega_term.
      bind_o (from_small (of_nat secs)) (\<lambda>secs_term.
      bind_o (from_small (of_nat micro_secs)) (\<lambda>micro_term.
        Ok (on_current_heap (tuple_or_nil [mega_term, secs_term, micro_term]) x)))))"

section \<open>The registry\<close>

datatype bif_fn =
    BifSelf | BifSpawn | BifSpawnLink | BifSpawnMonitor | BifSend | BifExit | BifExitReason
  | BifKill | BifLink | BifUnlink | BifMonitor | BifDemonitor | BifGet | BifPut | BifRegistered
  | BifWhereis | BifRegister | BifMakeRef | BifProcessInfo | BifTrace | BifTracePattern | BifNow
  | BifNode | BifNodes

fun call_bif :: "bif_fn \<Rightarrow> bif" where
  "call_bif BifSelf = bif_self"
| "call_bif BifSpawn = bif_spawn"
| "call_bif BifSpawnLink = bif_spawn_link"
| "call_bif BifSpawnMonitor = bif_spawn_monitor"
| "call_bif BifSend = bif_send"
| "call_bif BifExit = bif_exit"
| "call_bif BifExitReason = bif_exit_reason"
| "call_bif BifKill = bif_kill"
| "call_bif BifLink = bif_link"
| "call_bif BifUnlink = bif_unlink"
| "call_bif BifMonitor = bif_monitor"
| "call_bif BifDemonitor = bif_demonitor"
| "call_bif BifGet = bif_get"
| "call_bif BifPut = bif_put"
| "call_bif BifRegistered = bif_registered"
| "call_bif BifWhereis = bif_whereis"
| "call_bif BifRegister = bif_register"
| "call_bif BifMakeRef = bif_make_ref"
| "call_bif BifProcessInfo = bif_process_info"
| "call_bif BifTrace = bif_trace"
| "call_bif BifTracePattern = bif_trace_pattern"
| "call_bif BifNow = bif_now"
| "call_bif BifNode = bif_node"
| "call_bif BifNodes = bif_nodes"

record bif_entry =
  be_module :: u32
  be_func :: u32
  be_arity :: u8
  be_func_ptr :: bif_fn

record bif_registry =
  br_entries :: "bif_entry list"
  br_by_index :: "bif_entry list"

definition bif_register_fn ::
  "u32 \<Rightarrow> u32 \<Rightarrow> u8 \<Rightarrow> bif_fn \<Rightarrow> bif_registry \<Rightarrow> bif_registry" where
  "bif_register_fn m f a b r =
     (let e = \<lparr>be_module = m, be_func = f, be_arity = a, be_func_ptr = b\<rparr>
      in r\<lparr>br_by_index := br_by_index r @ [e], br_entries := br_entries r @ [e]\<rparr>)"

definition bif_lookup :: "u32 \<Rightarrow> u32 \<Rightarrow> u8 \<Rightarrow> bif_registry \<Rightarrow> bif_fn option" where
  "bif_lookup m f a r =
     map_option be_func_ptr
       (find (\<lambda>e. be_module e = m \<and> be_func e = f \<and> be_arity e = a) (br_entries r))"

definition bif_lookup_by_index :: "u32 \<Rightarrow> bif_registry \<Rightarrow> bif_fn option" where
  "bif_lookup_by_index i r =
     (if unat i < length (br_by_index r) then Some (be_func_ptr (br_by_index r ! unat i)) else None)"

definition bif_defaults :: "(u32 \<times> u8 \<times> bif_fn) list" where
  "bif_defaults =
     [(0, 0, BifSelf), (1, 1, BifSpawn), (2, 1, BifSpawnLink), (3, 1, BifSpawnMonitor),
      (4, 2, BifSend),
      (5, 1, BifExit), (6, 2, BifExitReason), (7, 1, BifKill),
      (8, 1, BifLink), (9, 1, BifUnlink), (10, 1, BifMonitor), (11, 1, BifDemonitor),
      (12, 1, BifGet), (13, 2, BifPut),
      (14, 0, BifRegistered), (15, 1, BifWhereis), (16, 2, BifRegister),
      (17, 0, BifMakeRef),
      (18, 1, BifProcessInfo),
      (19, 3, BifTrace), (20, 3, BifTracePattern),
      (21, 0, BifNow)]"

definition register_defaults :: "bif_registry \<Rightarrow> bif_registry" where
  "register_defaults r = fold (\<lambda>(f, a, b). bif_register_fn 0 f a b) bif_defaults r"

definition bif_registry_new :: bif_registry where
  "bif_registry_new = register_defaults \<lparr>br_entries = [], br_by_index = []\<rparr>"

section \<open>Dispatch\<close>

definition bif_args :: "pcb \<Rightarrow> bif_call \<Rightarrow> beam_term list" where
  "bif_args c bc =
     (let arg1 = (if bc_arg1 bc > 0 then pcb_get_x (bc_arg1 bc) c else nil);
          arg2 = (if bc_arg2 bc > 0 then pcb_get_x (bc_arg2 bc) c else nil)
      in if bc_arg2 bc > 0 then [arg1, arg2] else if bc_arg1 bc > 0 then [arg1] else [])"

text \<open>The arms of the match on the identifier, in order.\<close>

definition dispatch_arms :: "bif_fn list" where
  "dispatch_arms =
     [BifSelf, BifSpawn, BifSend, BifExit, BifLink, BifUnlink, BifMonitor, BifDemonitor,
      BifMakeRef, BifGet, BifPut, BifRegistered, BifWhereis, BifRegister, BifProcessInfo,
      BifSpawnLink, BifSpawnMonitor, BifExitReason, BifKill, BifTrace, BifTracePattern, BifNow,
      BifNode, BifNodes]"

definition run_bif :: "u32 \<Rightarrow> bif" where
  "run_bif i now x args =
     (if unat i < length dispatch_arms then call_bif (dispatch_arms ! unat i) now x args
      else atom_result ATOM_UNDEFINED x)"

text \<open>The global state a dispatch works on besides the table: the monitor counter and the trace
  session.\<close>

type_synonym bif_globals = "u64 \<times> trace_session option"

definition dispatch_bif_impl ::
  "nat \<Rightarrow> bif_globals \<Rightarrow> process_table \<Rightarrow> nat \<Rightarrow> bif_call \<Rightarrow> string
     \<Rightarrow> (vm_error, beam_term \<times> bif_globals \<times> process_table) outcome" where
  "dispatch_bif_impl now g t i bc node_name =
     (let c = the (get_by_index i t);
          x = \<lparr>bx_process = i, bx_table = t, bx_pid = pcb_pid c, bx_node_name = node_name,
               bx_monitor_counter = fst g, bx_trace_session = snd g\<rparr>
      in bind_o (run_bif (bc_bif_id bc) now x (bif_args c bc)) (\<lambda>(v, x).
           Ok (v, (bx_monitor_counter x, bx_trace_session x), bx_table x)))"

end
