(* ===== verification/Bif_Laws.thy ===== *)
theory Bif_Laws
  imports Bif Table_Laws
begin

text \<open>
  What the built-in functions do to the process table: every dispatch keeps the invariant of
  the table and the identity of the calling process, which processes a term can name, what the
  forced exits and the spawning variants leave out, and the exact content of the registry.
\<close>

section \<open>Growth of the table\<close>

text \<open>What any dispatch may do to the table: fill slots behind the last one, change processes
  in place, and take at most one pid from the counter.\<close>

definition grown :: "process_table \<Rightarrow> process_table \<Rightarrow> bool" where
  "grown t t' \<longleftrightarrow> ptable_ok t' \<and>
     (\<forall>i c. get_by_index i t = Some c \<longrightarrow>
        (\<exists>c'. get_by_index i t' = Some c' \<and> pcb_pid c' = pcb_pid c)) \<and>
     unat (tb_pid_counter t') \<le> unat (tb_pid_counter t) + 1"

lemma grown_refl: "ptable_ok t \<Longrightarrow> grown t t"
  by (simp add: grown_def)

lemma same_pids_slot:
  assumes "same_pids t t'" and "get_by_index i t = Some c"
  shows "\<exists>c'. get_by_index i t' = Some c' \<and> pcb_pid c' = pcb_pid c"
proof -
  have i: "i < length (tb_processes t)" "tb_processes t ! i = Some c"
    using assms(2) by (auto simp: get_by_index_def split: if_splits)
  have l: "length (tb_processes t') = length (tb_processes t)"
    using same_pids_length [OF assms(1)] by simp
  have "map (map_option pcb_pid) (tb_processes t') ! i = map (map_option pcb_pid) (tb_processes t) ! i"
    using assms(1) by (simp add: same_pids_def)
  with i l show ?thesis by (auto simp: get_by_index_def)
qed

lemma grown_same:
  assumes "same_pids t t'" and "ptable_ok t"
    and "distinct (registered_names t')" and "table_ok (tb_atom_table t')"
  shows "grown t t'"
  using assms same_pids_ok [OF assms] same_pids_slot [OF assms(1)]
  by (simp add: grown_def same_pids_counter [OF assms(1)])

lemma ptable_okD:
  "ptable_ok t \<Longrightarrow> distinct (registered_names t)" "ptable_ok t \<Longrightarrow> table_ok (tb_atom_table t)"
  by (simp_all add: ptable_ok_def)

lemma grown_modify:
  assumes "ptable_ok t" and "\<And>c. get_by_index i t = Some c \<Longrightarrow> pcb_pid (f c) = pcb_pid c"
  shows "grown t (modify i f t)"
  using ptable_okD [OF assms(1)] same_pids_modify [OF assms(2)]
  by (intro grown_same assms(1)) (simp_all add: registered_names_def)

lemma grown_op:
  assumes "ptable_ok t"
  shows "grown t (snd (register n p t))"
    and "grown t (snd (bidirectional_link_with_table p q t))"
    and "grown t (snd (bidirectional_unlink_with_table p q t))"
    and "grown t (snd (snd (monitor_with_table p q (k, t))))"
    and "grown t (snd (demonitor_with_table p r t))"
    and "grown t (snd (intern_atom name t))"
proof -
  note reg = ptable_okD(1) [OF assms, unfolded registered_names_def]
  have d: "distinct (registered_names (snd (register n p t)))"
    using reg by (simp add: registered_names_def register_def Let_def distinct_update
        split: option.split prod.split)
  have a: "table_ok (tb_atom_table (snd (intern_atom name t)))"
    using intern_write_ok [OF ptable_okD(2) [OF assms], of name]
    by (cases "intern_write name (tb_atom_table t)") (simp add: intern_atom_def intern_eq_write)
  note kept = registered_names_def registry_kept atoms_kept ptable_okD(2) [OF assms] reg
  show "grown t (snd (register n p t))"
    by (rule grown_same [OF same_pids_ops(2) assms d]) (simp add: kept)
  show "grown t (snd (bidirectional_link_with_table p q t))"
    unfolding bidirectional_link_with_table_def
    by (rule grown_same [OF same_pids_links assms]) (simp_all add: kept)
  show "grown t (snd (bidirectional_unlink_with_table p q t))"
    unfolding bidirectional_unlink_with_table_def
    by (rule grown_same [OF same_pids_links assms]) (simp_all add: kept)
  show "grown t (snd (snd (monitor_with_table p q (k, t))))"
    unfolding monitor_with_table_def
    by (rule grown_same [OF same_pids_monitors(1) assms]) (simp_all add: kept)
  show "grown t (snd (demonitor_with_table p r t))"
    by (rule grown_same [OF same_pids_monitors(2) assms]) (simp_all add: kept)
  show "grown t (snd (intern_atom name t))"
    by (rule grown_same [OF same_pids_ops(6) assms _ a]) (simp add: kept)
qed

lemma grown_trans_same:
  assumes "grown t t'" and "grown t' t''" and "tb_pid_counter t' = tb_pid_counter t"
  shows "grown t t''"
  using assms unfolding grown_def by metis

lemma grown_intern_all:
  "ptable_ok t \<Longrightarrow> grown t (snd (intern_all ns t))
     \<and> tb_pid_counter (snd (intern_all ns t)) = tb_pid_counter t"
proof (induction ns arbitrary: t)
  case (Cons n ns)
  let ?t = "snd (intern_atom n t)"
  have g: "grown t ?t" by (rule grown_op(6) [OF Cons.prems])
  moreover have c: "tb_pid_counter ?t = tb_pid_counter t"
    by (rule same_pids_counter [OF same_pids_ops(6)])
  moreover have "ptable_ok ?t" using g by (simp add: grown_def)
  ultimately show ?case
    using Cons.IH [of ?t] grown_trans_same [OF g _ c]
    by (simp add: split_beta Let_def)
qed (simp add: grown_refl)

lemma spawn_grown:
  assumes "ptable_ok t" and "unat (tb_pid_counter t) + 1 < 2 ^ 32"
  shows "\<exists>p t'. spawn n t = Ok ((process_handle_new (length (tb_processes t)) p, p), t')
    \<and> grown t t' \<and> p \<notin> set (all_pids t)
    \<and> get_by_handle (process_handle_new (length (tb_processes t)) p) t' = Some (pcb_new p n)
    \<and> modify (length (tb_processes t)) (assign_state Running) t' = t'"
proof -
  obtain p t' where s: "spawn n t = Ok ((process_handle_new (length (tb_processes t)) p, p), t')"
    "ptable_ok t'" "p \<notin> set (all_pids t)" "tb_processes t' = tb_processes t @ [Some (pcb_new p n)]"
    "unat (tb_pid_counter t') \<le> unat (tb_pid_counter t) + 1"
    using spawn_ok [OF assms(1), of n] assms(2) by blast
  then have g: "grown t t'"
    by (auto simp: grown_def get_by_index_def nth_append split: if_splits)
  have "assign_state Running (pcb_new p n) = pcb_new p n"
    by (simp add: assign_state_def pcb_new_def)
  then have "modify (length (tb_processes t)) (assign_state Running) t' = t'"
    by (simp add: modify_def modify_slot_def s(4))
  with s g show ?thesis
    by (auto simp: get_by_handle_def get_by_index_def process_handle_new_def)
qed

section \<open>Every dispatch\<close>

text \<open>The numbers a BIF turns into small integers fit: the code panics on the others.\<close>

definition pcb_reportable :: "pcb \<Rightarrow> bool" where
  "pcb_reportable c \<longleftrightarrow>
     queue_len (pcb_mailbox c) < 2 ^ 59 \<and> used_size (pcb_heap c) * 8 < 2 ^ 59 \<and>
     total_heap_size (pcb_heap c) < 2 ^ 59 \<and> unat (pcb_reductions c) < 2 ^ 59 \<and>
     unat (minor_collections (get_stats (pcb_heap c))) < 2 ^ 59 \<and>
     unat (major_collections (get_stats (pcb_heap c))) < 2 ^ 59"

definition reportable :: "process_table \<Rightarrow> bool" where
  "reportable t \<longleftrightarrow>
     length (registered_names t) < 2 ^ 59 \<and> (\<forall>c\<in>set (slot_contents (tb_processes t)). pcb_reportable c)"

lemma from_small_nat:
  assumes "unat w < 2 ^ 59"
  shows "from_small w = Ok (Term (i64_to_u64_bits w))"
proof -
  have "uint w < int (2 ^ 59)" using assms by (simp only: uint_nat of_nat_less_iff)
  moreover have "- (2 ^ 63) \<le> sint w" using sint_ge [of w] by simp
  ultimately have "is_small_int w"
    using uint_sint_i64 [of w] uint_lt2p [of w] by (auto simp: is_small_int_iff split: if_splits)
  then show ?thesis by (simp add: from_small_def)
qed

lemma from_small_of_nat:
  "n < 2 ^ 59 \<Longrightarrow> from_small (of_nat n) = Ok (Term (i64_to_u64_bits (of_nat n)))"
  by (rule from_small_nat) (simp add: unat_of_nat)

lemma slot_content: "get_by_index i t = Some c \<Longrightarrow> c \<in> set (slot_contents (tb_processes t))"
  by (auto simp: get_by_index_def set_slot_contents split: if_splits) (metis nth_mem)

lemma process_info_item_total:
  assumes "pcb_reportable c"
  shows "\<exists>v c'. get_process_info_item c key = Ok (v, c') \<and> pcb_pid c' = pcb_pid c"
proof -
  have gc: "\<exists>v h. gc_info (pcb_heap c) = Ok (v, h)"
    using assms by (simp add: gc_info_def pcb_reportable_def from_small_nat Let_def split_beta)
  have a: "unat (ucast (a :: u32) :: u64) < 2 ^ 59" for a
  proof -
    have "unat a < 2 ^ 32" by (rule order_less_le_trans [OF unsigned_less]) simp
    then show ?thesis by (simp add: unsigned_ucast_eq take_bit_eq_mod)
  qed
  have m: "(from_small (of_nat (used_size (pcb_heap c)) * 8) :: (vm_error, beam_term) outcome)
      = Ok (Term (i64_to_u64_bits (of_nat (used_size (pcb_heap c)) * 8)))"
    using assms from_small_of_nat [of "used_size (pcb_heap c) * 8"] by (simp add: pcb_reportable_def)
  show ?thesis
    using assms gc
    by (auto simp: m get_process_info_item_def pcb_reportable_def from_small_nat [OF a]
        from_small_nat from_small_of_nat with_heap_def Let_def split: option.split prod.split)
qed

definition current_ok :: "bif_context \<Rightarrow> bool" where
  "current_ok x \<longleftrightarrow> get_by_index (bx_process x) (bx_table x) \<noteq> None"

lemma on_current_grown:
  assumes "ptable_ok (bx_table x)" and "\<And>c. pcb_pid (f c) = pcb_pid c"
  shows "grown (bx_table x) (bx_table (on_current f x))"
  using grown_modify [OF assms(1), of "bx_process x" f] assms(2)
  by (simp add: on_current_def on_table_def)

lemma on_current_heap_grown:
  assumes "ptable_ok (bx_table x)" and "current_ok x"
  shows "grown (bx_table x) (bx_table (snd (on_current_heap f x)))"
proof -
  obtain c where c: "get_by_index (bx_process x) (bx_table x) = Some c"
    using assms(2) by (auto simp: current_ok_def)
  show ?thesis
    using grown_modify [OF assms(1), of "bx_process x" "\<lambda>_. snd (with_heap f c)"] c
    by (auto simp: on_current_heap_def on_current_def on_table_def bx_current_def with_heap_def
        split: prod.splits)
qed

lemma on_current_heap_eq:
  "get_by_index (bx_process x) (bx_table x) = Some c \<Longrightarrow> f (pcb_heap c) = (v, h) \<Longrightarrow>
   on_current_heap f x = (v, on_current (\<lambda>_. c\<lparr>pcb_heap := h\<rparr>) x)"
  by (simp add: on_current_heap_def with_heap_def bx_current_def)

abbreviation total_bif :: "bif_context \<Rightarrow> bif_out \<Rightarrow> bool" where
  "total_bif x r \<equiv> \<exists>v x'. r = Ok (v, x') \<and> grown (bx_table x) (bx_table x')"

lemma total_atom: "ptable_ok (bx_table x) \<Longrightarrow> total_bif x (atom_result a x)"
  by (simp add: atom_result_def grown_refl)

lemma total_value: "ptable_ok (bx_table x) \<Longrightarrow> total_bif x (Ok (v, x))"
  by (simp add: grown_refl)

lemma total_bool: "grown (bx_table x) (snd r) \<Longrightarrow> total_bif x (bool_result r x)"
  by (cases r) (simp add: bool_result_def atom_result_def)

lemma total_heap: "ptable_ok (bx_table x) \<Longrightarrow> current_ok x \<Longrightarrow> total_bif x (Ok (on_current_heap f x))"
  using on_current_heap_grown by (metis prod.collapse)

lemma total_modify:
  "ptable_ok (bx_table x) \<Longrightarrow> (\<And>c. pcb_pid (f c) = pcb_pid c) \<Longrightarrow>
   total_bif x (Ok (v, x\<lparr>bx_table := modify i f (bx_table x)\<rparr>))"
  by (simp add: grown_modify)

lemma assign_pid [simp]:
  "pcb_pid (assign_state s c) = pcb_pid c" "pcb_pid (force_exit r c) = pcb_pid c"
  "pcb_pid (deliver_and_wake m c) = pcb_pid c"
  by (simp_all add: assign_state_def force_exit_def deliver_and_wake_def Let_def)

lemma spawn_total:
  assumes "ptable_ok (bx_table x)" and "unat (tb_pid_counter (bx_table x)) + 1 < 2 ^ 32"
  shows "total_bif x (bif_spawn now x args)"
proof (cases "args = []")
  case True
  then show ?thesis using total_atom assms(1) by (simp add: bif_spawn_def)
next
  case False
  obtain p t' where "spawn 8192 (bx_table x)
      = Ok ((process_handle_new (length (tb_processes (bx_table x))) p, p), t')" "grown (bx_table x) t'"
    "get_by_handle (process_handle_new (length (tb_processes (bx_table x))) p) t' = Some (pcb_new p 8192)"
    "modify (length (tb_processes (bx_table x))) (assign_state Running) t' = t'"
    using spawn_grown [OF assms, of 8192] by blast
  with False show ?thesis by (simp add: bif_spawn_def process_handle_new_def)
qed

lemma spawn_monitor_total:
  assumes "total_bif x (bif_spawn now x args)"
  shows "total_bif x (bif_spawn_monitor now x args)"
  using assms by (auto simp: bif_spawn_monitor_def atom_result_def)

text \<open>What a call needs: a good table, a calling process, a pid left, and numbers that fit.\<close>

definition callable :: "nat \<Rightarrow> bif_context \<Rightarrow> bool" where
  "callable now x \<longleftrightarrow> ptable_ok (bx_table x) \<and> current_ok x
     \<and> unat (tb_pid_counter (bx_table x)) + 1 < 2 ^ 32 \<and> reportable (bx_table x) \<and> now < 2 ^ 64"

lemma process_info_total:
  assumes "callable now x"
  shows "total_bif x (bif_process_info now x args)"
proof -
  have ok: "ptable_ok (bx_table x)" using assms by (simp add: callable_def)
  show ?thesis
  proof (cases "args \<noteq> [] \<and> is_cons (args ! 0) \<and> length args \<ge> 2
      \<and> get_by_pid (pid_of_term (args ! 0)) (bx_table x) \<noteq> None")
    case False
    then show ?thesis
      using total_atom [OF ok] total_value [OF ok]
      by (auto simp: bif_process_info_def split: option.split prod.split)
  next
    case True
    then obtain i c where g: "get_by_pid (pid_of_term (args ! 0)) (bx_table x) = Some (i, c)" by auto
    then have c: "get_by_index i (bx_table x) = Some c" by (simp add: get_by_pid_iff)
    then have "pcb_reportable c"
      using assms slot_content [OF c] by (auto simp: callable_def reportable_def)
    from process_info_item_total [OF this, of "to_atom (args ! 1)"] obtain v c'
      where "get_process_info_item c (to_atom (args ! 1)) = Ok (v, c')" "pcb_pid c' = pcb_pid c" by blast
    then show ?thesis
      using True g c grown_modify [OF ok, of i "\<lambda>_. c'"]
      by (auto simp: bif_process_info_def on_table_def)
  qed
qed

lemma force_exit_of_grown: "ptable_ok t \<Longrightarrow> grown t (force_exit_of p r t)"
  by (auto simp: force_exit_of_def grown_refl grown_modify split: option.split prod.split)

lemma call_bif_total:
  assumes "callable now x" and "length args \<le> 2"
  shows "total_bif x (call_bif b now x args)"
proof -
  have ok: "ptable_ok (bx_table x)" and cur: "current_ok x"
    and cnt: "unat (tb_pid_counter (bx_table x)) + 1 < 2 ^ 32" and rep: "reportable (bx_table x)"
    and now: "now < 2 ^ 64"
    using assms(1) by (simp_all add: callable_def)
  note basic = total_atom [OF ok] total_value [OF ok]
  note tables = total_bool total_modify [OF ok] total_heap [OF ok cur] grown_op [OF ok]
  have spawn: "total_bif x (bif_spawn now x args)" by (rule spawn_total [OF ok cnt])
  show ?thesis
  proof (cases b)
    case BifSpawnMonitor
    then show ?thesis using spawn_monitor_total [OF spawn] by simp
  next
    case BifMonitor
    show ?thesis
      using basic grown_op(4) [OF ok, of "bx_pid x" "pid_of_term (args ! 0)" "bx_monitor_counter x"]
      by (auto simp: BifMonitor bif_monitor_def split: prod.split sum.split)
  next
    case BifNode
    then show ?thesis
      using grown_op(6) [OF ok, of "bx_node_name x"] by (simp add: bif_node_def split_beta)
  next
    case BifNodes
    let ?r = "intern_all (tb_connected_nodes (bx_table x)) (bx_table x)"
    have g: "grown (bx_table x) (snd ?r)" "tb_pid_counter (snd ?r) = tb_pid_counter (bx_table x)"
      using grown_intern_all [OF ok] by blast+
    let ?x = "x\<lparr>bx_table := snd ?r\<rparr>"
    have k: "ptable_ok (bx_table ?x)" "current_ok ?x"
      using g(1) cur by (auto simp: grown_def current_ok_def)
    have h: "grown (bx_table ?x) (bx_table (snd (on_current_heap f ?x)))" for f :: "process_heap \<Rightarrow> beam_term \<times> process_heap"
      by (rule on_current_heap_grown [OF k])
    have "grown (bx_table x) (bx_table (snd (on_current_heap f ?x)))" for f :: "process_heap \<Rightarrow> beam_term \<times> process_heap"
      by (rule grown_trans_same [OF g(1) _ g(2)]) (use h in simp)
    then show ?thesis by (simp add: BifNodes bif_nodes_def split_beta Let_def) (metis prod.collapse)
  next
    case BifPut
    then show ?thesis
      using basic on_current_grown [OF ok] by (auto simp: bif_put_def Let_def)
  next
    case BifExit
    then show ?thesis
      using basic on_current_grown [OF ok] by (auto simp: bif_exit_def atom_result_def)
  next
    case BifRegistered
    then show ?thesis
      using basic rep by (auto simp: bif_registered_def reportable_def from_small_of_nat)
  next
    case BifProcessInfo
    then show ?thesis using process_info_total [OF assms(1)] by simp
  next
    case BifNow
    have small: "(from_small (of_nat n) :: (vm_error, beam_term) outcome)
        = Ok (Term (i64_to_u64_bits (of_nat n)))"
      if "n \<le> now div 1000000000 \<or> n < 1000000000" for n
      using that now by (intro from_small_of_nat) auto
    have "now div 1000000000 mod 1000000 < 1000000000"
      by (rule less_trans [OF mod_less_divisor]) simp_all
    moreover have "now mod 1000000000 div 1000 < 1000000000"
      by (rule order_le_less_trans [OF div_le_dividend]) simp
    ultimately show ?thesis
      using total_heap [OF ok cur] by (simp add: BifNow bif_now_def Let_def small)
  next
    case BifSend
    then show ?thesis using basic tables by (auto simp: bif_send_def Let_def split: option.split)
  next
    case BifTrace
    then show ?thesis using basic assms(2) by (simp add: bif_trace_def)
  next
    case BifTracePattern
    then show ?thesis using basic assms(2) by (simp add: bif_trace_pattern_def)
  next
    case BifExitReason
    then show ?thesis
      using basic force_exit_of_grown [OF ok] by (auto simp: bif_exit_reason_def atom_result_def on_table_def)
  next
    case BifKill
    then show ?thesis
      using basic force_exit_of_grown [OF ok] by (auto simp: bif_kill_def atom_result_def on_table_def)
  next
    case BifMakeRef
    then show ?thesis using tables by (simp add: bif_make_ref_def Let_def)
  qed (use basic spawn in \<open>auto simp: bif_self_def bif_spawn_link_def bif_get_def bif_whereis_def
        bif_register_def bif_link_def bif_unlink_def bif_demonitor_def Let_def
        intro!: total_bool grown_op [OF ok] split: option.split\<close>)
qed

lemma run_bif_total:
  assumes "callable now x" and "length args \<le> 2"
  shows "total_bif x (run_bif i now x args)"
  using call_bif_total [OF assms] total_atom assms(1) by (simp add: run_bif_def callable_def)

lemma bif_args_short: "length (bif_args c bc) \<le> 2"
  by (simp add: bif_args_def Let_def)

section \<open>Which processes a term names\<close>

lemma pid_of_term_of_pid [simp]: "pid_of_term (term_of_pid p) = pid_new (pid_id p) 0 0"
proof -
  have "take_bit 61 (ucast (pid_id p) :: u64) = ucast (pid_id p)"
    by (rule bit_word_eqI) (auto simp: bit_simps dest: bit_imp_le_length)
  then show ?thesis
    by (simp add: pid_of_term_def term_of_pid_def to_from_ptr)
qed

lemma is_cons_pid [simp]: "is_cons (term_of_pid p)"
  by (simp add: term_of_pid_def is_cons_def)

lemma first_incarnation:
  assumes "ptable_ok t" and "p \<in> set (all_pids t)"
  shows "get_by_pid (pid_new (pid_id p) 0 0) t
    = (if pid_serial p = 0 \<and> pid_creation p = 0 then get_by_pid p t else None)"
proof (cases "pid_serial p = 0 \<and> pid_creation p = 0")
  case True
  then have "pid_new (pid_id p) 0 0 = p" by (cases p) (simp add: pid_new_def)
  then show ?thesis using True by (simp only: simp_thms if_True)
next
  case False
  have "inj_on pid_id (set (all_pids t))"
    using assms(1) by (auto simp: ptable_ok_def live_ids_def distinct_map)
  then have "pid_new (pid_id p) 0 0 \<notin> set (all_pids t)"
    using assms(2) False by (metis inj_on_def pid_inc_fields(3,4,5))
  with False show ?thesis by (auto simp: get_by_pid_None_iff)
qed

lemma bif_send_by_id:
  "bif_send now x [term_of_pid p, msg] =
     (case get_by_pid (pid_new (pid_id p) 0 0) (bx_table x) of
        Some (i, c) \<Rightarrow>
          if pcb_state c = Exiting then Ok (from_atom ATOM_ERROR, x)
          else Ok (msg, x\<lparr>bx_table := modify i (deliver_and_wake msg) (bx_table x)\<rparr>)
      | None \<Rightarrow> Ok (from_atom ATOM_ERROR, x))"
  by (simp add: bif_send_def atom_result_def split: option.split)

section \<open>The registry\<close>

definition bif_entry_of :: "u32 \<times> u8 \<times> bif_fn \<Rightarrow> bif_entry" where
  "bif_entry_of = (\<lambda>(f, a, b). \<lparr>be_module = 0, be_func = f, be_arity = a, be_func_ptr = b\<rparr>)"

lemma bif_registry_entries:
  "br_entries bif_registry_new = map bif_entry_of bif_defaults"
  "br_by_index bif_registry_new = map bif_entry_of bif_defaults"
proof -
  have "fold (\<lambda>(f, a, b). bif_register_fn 0 f a b) xs r
      = \<lparr>br_entries = br_entries r @ map bif_entry_of xs, br_by_index = br_by_index r @ map bif_entry_of xs\<rparr>"
    for xs r
    by (induction xs arbitrary: r) (auto simp: bif_register_fn_def bif_entry_of_def Let_def)
  then show "br_entries bif_registry_new = map bif_entry_of bif_defaults"
    "br_by_index bif_registry_new = map bif_entry_of bif_defaults"
    by (simp_all add: bif_registry_new_def register_defaults_def)
qed

lemma bif_lookup_map_of:
  "map_option be_func_ptr (find (\<lambda>e. be_module e = m \<and> be_func e = f \<and> be_arity e = a) (map bif_entry_of xs))
   = (if m = 0 then map_of (map (\<lambda>(f, a, b). ((f, a), b)) xs) (f, a) else None)"
  by (induction xs) (auto simp: bif_entry_of_def)

lemma bif_defaults_numbered:
  "k < length bif_defaults \<Longrightarrow> fst (bif_defaults ! k) = of_nat k"
  "k < length bif_defaults \<Longrightarrow>
     (snd (snd (bif_defaults ! k)) = dispatch_arms ! k \<longleftrightarrow> k \<in> {0, 1, 19, 20, 21})"
proof -
  have "list_all (\<lambda>k. fst (bif_defaults ! k) = of_nat k \<and>
      (snd (snd (bif_defaults ! k)) = dispatch_arms ! k \<longleftrightarrow> k \<in> {0, 1, 19, 20, 21})) [0..<22]"
    by (simp add: bif_defaults_def dispatch_arms_def upt_conv_Cons)
  moreover have "length bif_defaults = 22" by (simp add: bif_defaults_def)
  ultimately show "k < length bif_defaults \<Longrightarrow> fst (bif_defaults ! k) = of_nat k"
    "k < length bif_defaults \<Longrightarrow>
     (snd (snd (bif_defaults ! k)) = dispatch_arms ! k \<longleftrightarrow> k \<in> {0, 1, 19, 20, 21})"
    by (simp_all add: list_all_iff)
qed

lemma bif_lookup_exact:
  "bif_lookup m f a bif_registry_new = Some b \<longleftrightarrow> m = 0 \<and> (f, a, b) \<in> set bif_defaults"
proof -
  have d: "distinct (map fst (map (\<lambda>(f, a, b). ((f, a), b)) bif_defaults))"
    by (simp add: bif_defaults_def)
  show ?thesis
    unfolding bif_lookup_def bif_registry_entries bif_lookup_map_of
    using map_of_eq_Some_iff [OF d, of "(f, a)" b] by (force split: if_splits)
qed

lemma bif_lookup_index_exact:
  "bif_lookup_by_index i bif_registry_new
   = (if unat i < length bif_defaults then Some (snd (snd (bif_defaults ! unat i))) else None)"
  by (simp add: bif_lookup_by_index_def bif_registry_entries bif_entry_of_def split_beta)

lemma bif_index_name:
  "bif_lookup_by_index i bif_registry_new = Some b \<longleftrightarrow> (\<exists>a. (i, a, b) \<in> set bif_defaults)"
proof
  assume "bif_lookup_by_index i bif_registry_new = Some b"
  then have k: "unat i < length bif_defaults" "b = snd (snd (bif_defaults ! unat i))"
    by (auto simp: bif_lookup_index_exact split: if_splits)
  then have "bif_defaults ! unat i = (i, fst (snd (bif_defaults ! unat i)), b)"
    using bif_defaults_numbered(1) [OF k(1)] by (simp add: prod_eq_iff)
  then show "\<exists>a. (i, a, b) \<in> set bif_defaults" using k(1) nth_mem by metis
next
  assume "\<exists>a. (i, a, b) \<in> set bif_defaults"
  then obtain a k where k: "k < length bif_defaults" "bif_defaults ! k = (i, a, b)"
    by (auto simp: in_set_conv_nth)
  have "i = of_nat k" using bif_defaults_numbered(1) [OF k(1)] k(2) by simp
  moreover have "k < 22" using k(1) by (simp add: bif_defaults_def)
  ultimately have "unat i = k" by (simp add: unat_of_nat)
  then show "bif_lookup_by_index i bif_registry_new = Some b"
    using k by (simp add: bif_lookup_index_exact)
qed

section \<open>Properties\<close>

text \<open>C4. Every dispatch of a built-in function, on a good table with a pid left and numbers
  that fit a small integer, returns: it never panics, keeps the invariant of the table, and
  leaves every process in its slot under its pid.\<close>

theorem bif_dispatch_total:
  assumes "ptable_ok t" and "get_by_index i t = Some c"
    and "unat (tb_pid_counter t) + 1 < 2 ^ 32" and "reportable t" and "now < 2 ^ 64"
  shows "\<exists>v g' t'. dispatch_bif_impl now g t i bc node_name = Ok (v, g', t') \<and> ptable_ok t'
    \<and> (\<forall>j d. get_by_index j t = Some d \<longrightarrow> (\<exists>d'. get_by_index j t' = Some d' \<and> pcb_pid d' = pcb_pid d))"
proof -
  let ?x = "\<lparr>bx_process = i, bx_table = t, bx_pid = pcb_pid c, bx_node_name = node_name,
    bx_monitor_counter = fst g, bx_trace_session = snd g\<rparr>"
  have "callable now ?x" using assms by (simp add: callable_def current_ok_def)
  from run_bif_total [OF this bif_args_short, of "bc_bif_id bc" c bc]
  show ?thesis using assms(2) by (auto simp: dispatch_bif_impl_def Let_def grown_def)
qed

text \<open>A pid becomes a term by its identifier alone and comes back with serial and creation
  zero, so a term reaches a process exactly when it is the first incarnation of its identifier
  in creation zero: to any other live process, \<^verbatim>\<open>send/2\<close> with the process's own term is an
  error without effect.\<close>

theorem send_reaches_first_incarnation:
  assumes "ptable_ok (bx_table x)" and "proc (bx_table x) p = Some c"
  shows "\<exists>i. bif_send now x [term_of_pid p, msg] =
    (if pid_serial p = 0 \<and> pid_creation p = 0 \<and> pcb_state c \<noteq> Exiting
     then Ok (msg, x\<lparr>bx_table := modify i (deliver_and_wake msg) (bx_table x)\<rparr>)
     else Ok (from_atom ATOM_ERROR, x))
    \<and> get_by_pid p (bx_table x) = Some (i, c)"
proof -
  obtain i where i: "get_by_pid p (bx_table x) = Some (i, c)"
    using assms(2) by (auto simp: proc_def)
  then have "p \<in> set (all_pids (bx_table x))"
    by (metis get_by_pid_None_iff option.distinct(1))
  from first_incarnation [OF assms(1) this] show ?thesis
    using i by (simp add: bif_send_by_id)
qed

text \<open>C27. The term \<^verbatim>\<open>spawn/1\<close> answers for a process that takes over the identifier of a
  terminated one names nobody: a message sent to it is lost with an error, until the serial
  wraps round to zero.\<close>

theorem reused_pid_unreachable:
  assumes "ptable_ok t" and "proc t p = Some c"
    and "spawn n (snd (terminate p t)) = Ok ((h, q), t')" and "bx_table x = t'"
    and "(pid_serial p + 1) AND 0x1FFF \<noteq> 0"
  shows "pid_id q = pid_id p \<and> proc t' q = Some (pcb_new q n)
    \<and> bif_send now x [term_of_pid q, msg] = Ok (from_atom ATOM_ERROR, x)"
proof -
  obtain i where i: "get_by_pid p t = Some (i, c)" using assms(2) by (auto simp: proc_def)
  let ?t = "snd (terminate p t)"
  have ok: "ptable_ok ?t" by (rule terminate_ok [OF assms(1)])
  have q: "fst (next_pid ?t) = pid_with_incremented_serial p"
    by (simp add: terminate_spec [OF i] next_pid_def)
  have "tb_reuse_queue ?t \<noteq> []" by (simp add: terminate_spec [OF i])
  with spawn_ok [OF ok, of n] obtain q' t2 where s:
    "spawn n ?t = Ok ((process_handle_new (length (tb_processes ?t)) q', q'), t2)" "ptable_ok t2"
    "q' \<notin> set (all_pids ?t)" "tb_processes t2 = tb_processes ?t @ [Some (pcb_new q' n)]" by blast
  then have e: "t2 = t'" "q' = q" using assms(3) by simp_all
  have "q = fst (next_pid ?t)"
    using assms(3) by (auto simp: spawn_def Let_def split: prod.splits if_splits)
  then have qp: "q = pid_with_incremented_serial p" using q by simp
  have pq: "proc t' = (proc ?t)(q \<mapsto> pcb_new q n)"
    by (rule proc_append) (use s e in \<open>simp_all add: pcb_new_def\<close>)
  then have c: "proc t' q = Some (pcb_new q n)" by simp
  then have m: "q \<in> set (all_pids t')" by (metis proc_None_iff option.distinct(1))
  have ok': "ptable_ok t'" using s(2) e by simp
  have id: "pid_id q = pid_id p" and "pid_serial q \<noteq> 0"
    using assms(5) by (simp_all add: qp pid_with_incremented_serial_def pid_next_serial_def)
  then have "get_by_pid (pid_new (pid_id q) 0 0) t' = None"
    using first_incarnation [OF ok' m] by presburger
  then show ?thesis using c id assms(4) by (simp add: bif_send_by_id)
qed

text \<open>\<^verbatim>\<open>spawn_link/1\<close> and \<^verbatim>\<open>spawn_monitor/1\<close> only spawn: the new process has neither link nor
  monitor, the caller and every other process are unchanged, no monitor reference is drawn, and
  \<^verbatim>\<open>spawn_monitor/1\<close> answers a clock value from which the new pid cannot be told.\<close>

theorem spawn_variants_only_spawn:
  assumes "ptable_ok (bx_table x)" and "unat (tb_pid_counter (bx_table x)) + 1 < 2 ^ 32"
  shows "\<exists>p x'. bif_spawn_link now x [f] = Ok (term_of_pid p, x')
    \<and> bif_spawn_monitor now x [f] = Ok (from_cons (generate_unique_ref now x), x')
    \<and> p \<notin> set (all_pids (bx_table x))
    \<and> proc (bx_table x') = (proc (bx_table x))(p \<mapsto> pcb_new p 8192)
    \<and> pcb_links (pcb_new p 8192) = [] \<and> pcb_monitors (pcb_new p 8192) = []
    \<and> bx_monitor_counter x' = bx_monitor_counter x"
proof -
  let ?t = "bx_table x" and ?n = "8192 :: nat"
  obtain p t' where s: "spawn ?n ?t = Ok ((process_handle_new (length (tb_processes ?t)) p, p), t')"
    "p \<notin> set (all_pids ?t)" "tb_processes t' = tb_processes ?t @ [Some (pcb_new p ?n)]"
    using spawn_ok [OF assms(1), of ?n] assms(2) by blast
  have "assign_state Running (pcb_new p ?n) = pcb_new p ?n"
    by (simp add: assign_state_def pcb_new_def)
  then have m: "modify (length (tb_processes ?t)) (assign_state Running) t' = t'"
    by (simp add: modify_def modify_slot_def s(3))
  have pr: "proc t' = (proc ?t)(p \<mapsto> pcb_new p ?n)"
    by (rule proc_append) (use s in \<open>simp_all add: pcb_new_def\<close>)
  have b: "bif_spawn now x [f] = Ok (term_of_pid p, x\<lparr>bx_table := t'\<rparr>)"
    using s(1) m by (simp add: bif_spawn_def process_handle_new_def split: option.split)
  show ?thesis
    using b s(2) pr
    by (intro exI [of _ p] exI [of _ "x\<lparr>bx_table := t'\<rparr>"])
      (simp add: bif_spawn_link_def bif_spawn_monitor_def generate_unique_ref_def pcb_new_def)
qed

text \<open>\<^verbatim>\<open>exit/2\<close> and \<^verbatim>\<open>kill/1\<close> put a process they can name into the exiting state whatever
  its state was, also when it traps exits or is dead, where \<^verbatim>\<open>ProcessControlBlock::exit\<close> refuses
  the transition; no signal is queued and no other process learns of it.\<close>

theorem forced_exit:
  assumes "proc (bx_table x) (pid_new i 0 0) = Some c"
  shows "\<exists>x' x''. bif_exit_reason now x [term_of_pid (pid_new i 0 0), reason] = Ok (from_atom ATOM_TRUE, x')
    \<and> proc (bx_table x') = (proc (bx_table x))
        (pid_new i 0 0 \<mapsto> c\<lparr>pcb_exit_reason := reason, pcb_state := Exiting\<rparr>)
    \<and> bif_kill now x [term_of_pid (pid_new i 0 0)] = Ok (from_atom ATOM_TRUE, x'')
    \<and> proc (bx_table x'') = (proc (bx_table x))
        (pid_new i 0 0 \<mapsto> c\<lparr>pcb_exit_reason := from_atom ATOM_KILL, pcb_state := Exiting\<rparr>)
    \<and> (pcb_state (exit reason c) = Exiting \<longleftrightarrow> pcb_state c \<in> {Running, Waiting, Exiting})"
proof -
  obtain k where k: "get_by_pid (pid_new i 0 0) (bx_table x) = Some (k, c)"
    using assms by (auto simp: proc_def)
  have "proc (force_exit_of (term_of_pid (pid_new i 0 0)) r (bx_table x))
      = (proc (bx_table x))(pid_new i 0 0 \<mapsto> c\<lparr>pcb_exit_reason := r, pcb_state := Exiting\<rparr>)" for r
    using proc_modify [OF k, of "force_exit r"] by (simp add: force_exit_of_def k force_exit_def)
  moreover have "pcb_state (exit reason c) = Exiting \<longleftrightarrow> pcb_state c \<in> {Running, Waiting, Exiting}"
    by (cases "pcb_state c") (simp_all add: exit_def set_state_def)
  ultimately show ?thesis
    by (simp add: bif_exit_reason_def bif_kill_def atom_result_def on_table_def)
qed

text \<open>The built-in registry answers a look-up exactly for module 0 and the name and arity of
  one of its entries, by index it gives the entry of that name; the dispatch of the virtual
  machine numbers the functions differently: on the registered indices the two agree only for
  0, 1, 19, 20 and 21.\<close>

theorem bif_registry_exact:
  "(bif_lookup m f a bif_registry_new = Some b \<longleftrightarrow> m = 0 \<and> (f, a, b) \<in> set bif_defaults)
   \<and> (bif_lookup_by_index i bif_registry_new = Some b \<longleftrightarrow> (\<exists>a. bif_lookup 0 i a bif_registry_new = Some b))
   \<and> (unat i < length bif_defaults \<longrightarrow>
       (bif_lookup_by_index i bif_registry_new = Some (dispatch_arms ! unat i)
         \<longleftrightarrow> unat i \<in> {0, 1, 19, 20, 21}))"
proof (intro conjI)
  show "bif_lookup_by_index i bif_registry_new = Some b \<longleftrightarrow> (\<exists>a. bif_lookup 0 i a bif_registry_new = Some b)"
    by (simp add: bif_lookup_exact bif_index_name)
  show "unat i < length bif_defaults \<longrightarrow>
       (bif_lookup_by_index i bif_registry_new = Some (dispatch_arms ! unat i)
         \<longleftrightarrow> unat i \<in> {0, 1, 19, 20, 21})"
    using bif_defaults_numbered(2) [of "unat i"] by (simp add: bif_lookup_index_exact)
qed (rule bif_lookup_exact)

text \<open>\<^verbatim>\<open>trace/3\<close> and \<^verbatim>\<open>trace_pattern/3\<close> are registered with three arguments, but a dispatch
  passes at most two and never register 0 as the first: both always answer badarg and change nothing.\<close>

theorem tracing_uncallable:
  "bif_lookup 0 19 3 bif_registry_new = Some BifTrace
   \<and> length (bif_args c bc) \<le> 2
   \<and> (bc_bif_id bc \<in> {19, 20} \<longrightarrow>
       dispatch_bif_impl now g t i bc node_name = Ok (from_atom ATOM_BADARG, g, t))"
  by (cases g) (auto simp: dispatch_bif_impl_def bif_args_def run_bif_def dispatch_arms_def
      bif_trace_def bif_trace_pattern_def atom_result_def bif_registry_new_def register_defaults_def
      bif_register_fn_def bif_defaults_def bif_lookup_def Let_def)

text \<open>\<^verbatim>\<open>put/2\<close> and \<^verbatim>\<open>get/1\<close> are a dictionary of the calling process: a put answers what the
  key had before (nil if nothing), afterwards a get answers the new value for this key and for
  any other key what it answered before.\<close>

theorem dictionary_bifs:
  assumes "current_ok x" and "bif_get now x [k] = Ok (old, x)"
  shows "\<exists>x'. bif_put now x [k, v] = Ok (old, x')
    \<and> bif_get now x' [k'] = (if k' = k then Ok (v, x')
        else bind_o (bif_get now x [k']) (\<lambda>(w, _). Ok (w, x')))"
proof -
  obtain c where c: "get_by_index (bx_process x) (bx_table x) = Some c"
    using assms(1) by (auto simp: current_ok_def)
  let ?f = "\<lambda>c. c\<lparr>pcb_dictionary := AList.update k v (pcb_dictionary c)\<rparr>"
  have cur: "bx_current x = c" "bx_current (on_current ?f x) = ?f c"
    using c by (simp_all add: bx_current_def on_current_def on_table_def get_by_index_modify)
  have "old = (case map_of (pcb_dictionary c) k of Some o' \<Rightarrow> o' | None \<Rightarrow> nil)"
    using assms(2) by (auto simp: bif_get_def cur split: option.splits)
  then show ?thesis
    by (auto simp: bif_put_def bif_get_def cur update_conv' Let_def split: option.splits)
qed

text \<open>\<^verbatim>\<open>nodes/0\<close> does not answer a list: with one connected node and room on the heap its cell
  holds the bare atom index where a cons cell has its header, and the head read from it is not
  the node's atom.\<close>

theorem nodes_list_unreadable:
  assumes "get_by_index (bx_process x) (bx_table x) = Some c"
    and "tb_connected_nodes (bx_table x) = [node]"
    and "heap_ok (pcb_heap c)" and "can_alloc 2 (pcb_heap c)" and "hp (pcb_heap c) < 2 ^ 61"
  shows "\<exists>v x'. bif_nodes now x [] = Ok (v, x') \<and> is_cons v
    \<and> word_or_0 (unat (to_cons v)) (pcb_heap (bx_current x'))
        = ucast (fst (intern_atom node (bx_table x)))
    \<and> read_cons_head (unat (to_cons v)) (pcb_heap (bx_current x'))
        \<noteq> from_atom (fst (intern_atom node (bx_table x)))"
proof -
  let ?t = "snd (intern_atom node (bx_table x))" and ?a = "fst (intern_atom node (bx_table x))"
  let ?h = "pcb_heap c" and ?i = "bx_process x"
  have t: "get_by_index ?i ?t = Some c"
    using assms(1) by (auto simp: intern_atom_def get_by_index_def split_beta split: if_splits)
  obtain h1 where h1: "alloc 2 ?h = (Some (hp ?h), h1)" "hend h1 = hend ?h" "heap_ok h1"
    using assms(3,4) by (auto simp: alloc_def can_alloc_def Let_def heap_ok_def active_buffer_def)
  let ?h2 = "set_word (hp ?h + 1) (to_cons nil) (set_word (hp ?h) (to_cons (from_atom ?a)) h1)"
  have r: "node_list [?a] nil ?h = (from_cons (of_nat (hp ?h)), ?h2)"
    by (simp add: h1(1))
  let ?x = "x\<lparr>bx_table := ?t\<rparr>"
  let ?x' = "on_current (\<lambda>_. c\<lparr>pcb_heap := ?h2\<rparr>) ?x"
  have "bif_nodes now x [] = Ok (on_current_heap (node_list [?a] nil) ?x)"
    by (simp add: bif_nodes_def assms(2) split_beta del: node_list.simps)
  then have b: "bif_nodes now x [] = Ok (from_cons (of_nat (hp ?h)), ?x')"
    using on_current_heap_eq [of ?x c "node_list [?a] nil", OF _ r] t by simp
  have c': "pcb_heap (bx_current ?x') = ?h2"
    using t by (simp add: bx_current_def on_current_def on_table_def get_by_index_modify)
  have p: "unat (to_cons (from_cons (of_nat (hp ?h)))) = hp ?h"
    using assms(5) by (simp add: to_from_ptr unsigned_take_bit_eq)
      (simp add: take_bit_eq_mod unat_of_nat)
  have room: "hp ?h + 1 < hend h1" using assms(4) h1(2) by (simp add: can_alloc_def)
  have w: "word_or_0 (hp ?h) ?h2 = to_cons (from_atom ?a)" "word_or_0 (hp ?h + 1) ?h2 = to_cons nil"
    using room h1(3) by (simp_all add: word_or_0_set_word set_word_ok)
  have a: "to_cons (from_atom ?a) = ucast ?a"
    by (rule bit_word_eqI)
      (auto simp: to_cons_def from_atom_def bit_simps tag_num.simps dest: bit_imp_le_length)
  have "tag (Term (to_cons nil)) = TagCons"
    by (simp add: to_cons_def nil_def from_atom_def tag_def)
  then have ne: "Term (to_cons nil) \<noteq> from_atom ?a" by (metis tag_from(1) term_tag.distinct(15))
  show ?thesis
    using b c' p w a ne
    by (intro exI [of _ "from_cons (of_nat (hp ?h))"] exI [of _ ?x'])
      (simp add: is_cons_def read_cons_head_def del: fun_upd_apply)
qed

text \<open>References are a clock value with the process identifier xored over its top 16 bits:
  at one clock value two processes draw the same reference exactly when their identifiers agree
  modulo 65536.\<close>

theorem unique_refs_collide:
  "generate_unique_ref now x = generate_unique_ref now y
   \<longleftrightarrow> unat (pid_id (bx_pid x)) mod 2 ^ 16 = unat (pid_id (bx_pid y)) mod 2 ^ 16"
proof -
  have shift: "push_bit 48 (ucast a :: u64) = push_bit 48 (ucast b) \<longleftrightarrow> take_bit 16 a = take_bit 16 b"
    for a b :: u32
  proof
    assume e: "push_bit 48 (ucast a :: u64) = push_bit 48 (ucast b)"
    show "take_bit 16 a = take_bit 16 b"
    proof (rule bit_word_eqI)
      fix n
      have "bit (push_bit 48 (ucast a :: u64)) (n + 48) = bit (push_bit 48 (ucast b :: u64)) (n + 48)"
        by (simp only: e)
      then show "bit (take_bit 16 a) n = bit (take_bit 16 b) n" by (auto simp: bit_simps)
    qed
  next
    assume e: "take_bit 16 a = take_bit 16 b"
    show "push_bit 48 (ucast a :: u64) = push_bit 48 (ucast b)"
    proof (rule bit_word_eqI)
      fix n assume "n < LENGTH(64)"
      then have "n - 48 < 16" by simp
      then have "bit a (n - 48) = bit b (n - 48)" using e by (metis bit_take_bit_iff)
      then show "bit (push_bit 48 (ucast a :: u64)) n = bit (push_bit 48 (ucast b :: u64)) n"
        by (simp add: bit_simps)
    qed
  qed
  have cancel: "a XOR t = b XOR t \<longleftrightarrow> a = b" for a b t :: u64
  proof
    assume "a XOR t = b XOR t"
    then have "(a XOR t) XOR t = (b XOR t) XOR t" by simp
    then show "a = b" by (simp add: xor.assoc)
  qed simp
  have low: "take_bit 16 a = take_bit 16 b \<longleftrightarrow> unat a mod 2 ^ 16 = unat b mod 2 ^ 16" for a b :: u32
    by (simp add: word_unat_eq_iff unsigned_take_bit_eq) (simp add: take_bit_eq_mod)
  show ?thesis
    by (simp only: generate_unique_ref_def Let_def cancel shift low)
qed

section \<open>Witnesses\<close>

text \<open>A context in the table of two processes, called by the first.\<close>

definition pair_context :: bif_context where
  "pair_context = \<lparr>bx_process = 0, bx_table = pair_table, bx_pid = pid_new 1 0 0,
     bx_node_name = ''n@h'', bx_monitor_counter = 1, bx_trace_session = None\<rparr>"

lemma pair_table_slots:
  "get_by_index 0 pair_table = Some (pcb_new (pid_new 1 0 0) 8)"
  "unat (tb_pid_counter pair_table) + 1 < 2 ^ 32" "reportable pair_table"
  by (simp_all add: pair_table_def get_by_index_def process_table_new_def reportable_def
      registered_names_def pcb_reportable_def pcb_new_def queue_new_def queue_len_def used_size_def
      total_heap_size_def heap_new_def heap_config_default_def get_stats_def gc_stats_default_def
      Let_def)

theorem bif_dispatch_total_witness:
  "\<exists>v g' t'. dispatch_bif_impl 1700000000000000000 (1, None) pair_table 0 (bif_call_new 14 0 1 2) ''n@h''
     = Ok (v, g', t') \<and> ptable_ok t'"
  using bif_dispatch_total [OF pair_table_ok pair_table_slots, of 1700000000000000000 "(1, None)"
      "bif_call_new 14 0 1 2" "''n@h''"] by auto

theorem send_reaches_first_incarnation_witness:
  "\<exists>i. bif_send 0 pair_context [term_of_pid (pid_new 2 0 0), nil]
     = Ok (nil, pair_context\<lparr>bx_table := modify i (deliver_and_wake nil) pair_table\<rparr>)"
proof -
  have "ptable_ok (bx_table pair_context)"
    "proc (bx_table pair_context) (pid_new 2 0 0) = Some (pcb_new (pid_new 2 0 0) 8)"
    by (simp_all add: pair_context_def pair_table_ok pair_table_proc)
  from send_reaches_first_incarnation [OF this, of 0 nil] show ?thesis
    by (auto simp: pair_context_def pcb_new_def)
qed

theorem reused_pid_unreachable_witness:
  "\<exists>h q t'. spawn 8 (snd (terminate (pid_new 2 0 0) pair_table)) = Ok ((h, q), t')
     \<and> bif_send 0 (pair_context\<lparr>bx_table := t'\<rparr>) [term_of_pid q, nil]
       = Ok (from_atom ATOM_ERROR, pair_context\<lparr>bx_table := t'\<rparr>)"
proof -
  let ?t = "snd (terminate (pid_new 2 0 0) pair_table)"
  have "ptable_ok ?t" by (rule terminate_ok [OF pair_table_ok])
  moreover have "tb_reuse_queue ?t \<noteq> []"
    using pair_table_proc(2) by (auto simp: proc_def terminate_spec)
  ultimately obtain h q t' where "spawn 8 ?t = Ok ((h, q), t')" using spawn_ok by blast
  with reused_pid_unreachable [OF pair_table_ok pair_table_proc(2) this,
      of "pair_context\<lparr>bx_table := t'\<rparr>" 0 nil]
  show ?thesis by auto
qed

theorem spawn_variants_only_spawn_witness:
  "\<exists>p x'. bif_spawn_link 0 pair_context [nil] = Ok (term_of_pid p, x')
     \<and> proc (bx_table x') = (proc pair_table)(p \<mapsto> pcb_new p 8192)"
  using spawn_variants_only_spawn [of pair_context 0 nil] pair_table_ok pair_table_slots(2)
  by (simp add: pair_context_def del: fun_upd_apply) blast

theorem forced_exit_witness:
  "\<exists>x'. bif_kill 0 pair_context [term_of_pid (pid_new 2 0 0)] = Ok (from_atom ATOM_TRUE, x')
     \<and> map_option pcb_state (proc (bx_table x') (pid_new 2 0 0)) = Some Exiting"
  using forced_exit [of pair_context 2 "pcb_new (pid_new 2 0 0) 8" 0 nil] pair_table_proc(2)
  by (auto simp: pair_context_def)

theorem bif_registry_exact_witness:
  "bif_lookup_by_index 2 bif_registry_new \<noteq> Some (dispatch_arms ! 2)"
  using bif_registry_exact [of 0 0 0 BifSelf 2] by (simp add: bif_defaults_def)

theorem tracing_uncallable_witness:
  "dispatch_bif_impl 0 (1, None) pair_table 0 (bif_call_new 19 0 1 2) ''n@h''
     = Ok (from_atom ATOM_BADARG, (1, None), pair_table)"
  using tracing_uncallable [of "pcb_new (pid_new 1 0 0) 8" "bif_call_new 19 0 1 2" 0 "(1, None)" pair_table 0 "''n@h''"]
  by (simp add: bif_call_new_def)

theorem dictionary_bifs_witness:
  "\<exists>x'. bif_put 0 pair_context [from_atom 7, from_atom 8] = Ok (nil, x')
     \<and> bif_get 0 x' [from_atom 7] = Ok (from_atom 8, x')"
proof -
  have "current_ok pair_context" "bif_get 0 pair_context [from_atom 7] = Ok (nil, pair_context)"
    using pair_table_slots(1)
    by (simp_all add: current_ok_def pair_context_def bif_get_def bx_current_def pcb_new_def)
  from dictionary_bifs [OF this, of "from_atom 8" "from_atom 7"] show ?thesis by auto
qed

theorem nodes_list_unreadable_witness:
  "\<exists>v x'. bif_nodes 0 (on_table (add_connected_node ''m@h'') pair_context) [] = Ok (v, x') \<and> is_cons v
     \<and> read_cons_head (unat (to_cons v)) (pcb_heap (bx_current x'))
       \<noteq> from_atom (fst (intern_atom ''m@h'' (add_connected_node ''m@h'' pair_table)))"
proof -
  let ?x = "on_table (add_connected_node ''m@h'') pair_context"
  have t: "bx_table ?x = add_connected_node ''m@h'' pair_table" "bx_process ?x = 0"
    by (simp_all add: on_table_def pair_context_def)
  have g: "get_by_index (bx_process ?x) (bx_table ?x) = Some (pcb_new (pid_new 1 0 0) 8)"
    and n: "tb_connected_nodes (bx_table ?x) = [''m@h'']"
    by (simp_all add: t add_connected_node_def get_by_index_def pair_table_def process_table_new_def)
  have "heap_ok (pcb_heap (pcb_new (pid_new 1 0 0) 8))"
    "can_alloc 2 (pcb_heap (pcb_new (pid_new 1 0 0) 8))" "hp (pcb_heap (pcb_new (pid_new 1 0 0) 8)) < 2 ^ 61"
    by (simp_all add: pcb_new_def heap_new_ok) (simp_all add: can_alloc_def heap_new_def)
  from nodes_list_unreadable [OF g n this, of 0] show ?thesis unfolding t(1) by blast
qed

end
