(* ===== verification/Vm.thy ===== *)
theory Vm
  imports Sched Bif
begin

text \<open>
  The virtual machine (\<^verbatim>\<open>VirtualMachine\<close> of \<^verbatim>\<open>crates/chimera_erlang_beam_vm/src/lib.rs\<close>):
  one scheduler, the process table, statistics and the name of the node.

  A step hands one instruction of the process at the front of the run queues to the
  interpreter, in a context made from the control block, and dispatches a trapping one to the
  built-in functions.  The clock and the state shared by all machines (\<open>bif_globals\<close>) go in
  and out of the operations that use them.
\<close>

section \<open>State\<close>

record vm_stats =
  vs_processes_running :: u64
  vs_processes_waiting :: u64
  vs_instructions_executed :: u64

definition vm_stats_default :: vm_stats where
  "vm_stats_default =
     \<lparr>vs_processes_running = 0, vs_processes_waiting = 0, vs_instructions_executed = 0\<rparr>"

record vm_metrics_snapshot =
  ms_stats :: vm_stats
  ms_scheduler_stats :: scheduler_stats
  ms_process_count :: nat
  ms_run_queue_depth :: nat

record virtual_machine =
  vm_scheduler :: scheduler
  vm_process_table :: process_table
  vm_stats :: vm_stats
  vm_node_name :: string

definition vm_new_with_node :: "u32 \<Rightarrow> string \<Rightarrow> virtual_machine" where
  "vm_new_with_node i node_name =
     \<lparr>vm_scheduler = scheduler_new i, vm_process_table = process_table_new 0,
      vm_stats = vm_stats_default, vm_node_name = node_name\<rparr>"

definition vm_new :: "u32 \<Rightarrow> virtual_machine" where
  "vm_new i =
     \<lparr>vm_scheduler = scheduler_new i, vm_process_table = process_table_new 0,
      vm_stats = vm_stats_default, vm_node_name = ''rustzigbeam@localhost''\<rparr>"

definition on_scheduler :: "(scheduler \<Rightarrow> scheduler) \<Rightarrow> virtual_machine \<Rightarrow> virtual_machine" where
  "on_scheduler f v = v\<lparr>vm_scheduler := f (vm_scheduler v)\<rparr>"

definition on_vm_table ::
  "(process_table \<Rightarrow> process_table) \<Rightarrow> virtual_machine \<Rightarrow> virtual_machine" where
  "on_vm_table f v = v\<lparr>vm_process_table := f (vm_process_table v)\<rparr>"

definition saturating_pred :: "u64 \<Rightarrow> u64" where
  "saturating_pred n = (if n = 0 then 0 else n - 1)"

definition one_less_running :: "virtual_machine \<Rightarrow> virtual_machine" where
  "one_less_running v =
     v\<lparr>vm_stats := (vm_stats v)
        \<lparr>vs_processes_running := saturating_pred (vs_processes_running (vm_stats v))\<rparr>\<rparr>"

section \<open>Spawning and sending\<close>

definition vm_spawn :: "nat \<Rightarrow> virtual_machine \<Rightarrow> (vm_error, pid \<times> virtual_machine) outcome" where
  "vm_spawn heap_size v =
     bind_o (spawn heap_size (vm_process_table v)) (\<lambda>((h, p), t).
       let s = reset_reduction_budget p (vm_scheduler v);
           s = enqueue h p s;
           s = increment_processes_spawned s;
           st = (vm_stats v)\<lparr>vs_processes_running := vs_processes_running (vm_stats v) + 1\<rparr>
       in Ok (p, v\<lparr>vm_process_table := t, vm_scheduler := s, vm_stats := st\<rparr>))"

text \<open>The wake-up: a waiting process becomes running, and an open receive is told that a
  message has arrived.\<close>

definition note_arrival :: "pcb \<Rightarrow> receive_state \<Rightarrow> receive_state" where
  "note_arrival c rs =
     (if \<not> rs_message_arrived rs \<and> has_message (pcb_mailbox c)
      then rs\<lparr>rs_message_arrived := True\<rparr> else rs)"

definition wake_receiver :: "pcb \<Rightarrow> pcb" where
  "wake_receiver c =
     (if pcb_state c = Waiting
      then (let c = c\<lparr>pcb_state := Running\<rparr>
            in c\<lparr>pcb_receive_state := map_option (note_arrival c) (pcb_receive_state c)\<rparr>)
      else c)"

definition vm_send ::
  "pid \<Rightarrow> pid \<Rightarrow> beam_term \<Rightarrow> virtual_machine \<Rightarrow> unit vm_result \<times> virtual_machine" where
  "vm_send sender receiver msg v =
     (case get_by_pid receiver (vm_process_table v) of
        None \<Rightarrow> (Inl ProcessNotFound, v)
      | Some (i, c) \<Rightarrow>
          if pcb_state c = Exiting \<or> pcb_state c = GarbageCollecting
          then (Inl (ProcessExited (term_raw (pcb_exit_reason c))), v)
          else
            (let t = modify i (\<lambda>c. wake_receiver (send_message msg c)) (vm_process_table v);
                 st = (vm_stats v)\<lparr>vs_processes_waiting := of_nat (table_len t)\<rparr>
             in (Inr (), v\<lparr>vm_process_table := t, vm_stats := st\<rparr>)))"

section \<open>The step\<close>

text \<open>The interpreter has no error values; its panics are panics here.\<close>

definition interpreter_out :: "(unit, 'a) outcome \<Rightarrow> (vm_error, 'a) outcome" where
  "interpreter_out r =
     (case r of Ok a \<Rightarrow> Ok a | Err _ \<Rightarrow> Panic ExplicitPanic | Panic p \<Rightarrow> Panic p
      | OutOfFuel \<Rightarrow> OutOfFuel)"

definition context_of_pcb :: "pcb \<Rightarrow> exec_context" where
  "context_of_pcb c =
     init_from_pcb (pcb_cp c) (pcb_fp c) (pcb_live c) (pcb_y c) (pcb_reduction_budget c)
       (pcb_current_instruction c) (pcb_bif_call c) (pcb_receive_state c) (pcb_exception_state c)
       (exec_context_new\<lparr>ec_ip := pcb_ip c, ec_x := pcb_x c\<rparr>)"

text \<open>A receive or an exception state that the context has closed stays in the control block.\<close>

definition update_pcb :: "exec_context \<Rightarrow> pcb \<Rightarrow> pcb" where
  "update_pcb x c =
     c\<lparr>pcb_ip := ec_ip x, pcb_cp := ec_cp x, pcb_fp := ec_fp x, pcb_live := ec_live x,
       pcb_x := ec_x x, pcb_y := ec_y x, pcb_reduction_budget := ec_reduction_budget x,
       pcb_current_instruction := ec_current_instruction x, pcb_bif_call := ec_bif_call x,
       pcb_receive_state :=
         (if ec_receive_state x \<noteq> None then ec_receive_state x else pcb_receive_state c),
       pcb_exception_state :=
         (if ec_exception_state x \<noteq> None then ec_exception_state x else pcb_exception_state c),
       pcb_reductions := ec_reductions x + 1\<rparr>"

definition counts_as_instruction :: "exec_result \<Rightarrow> bool" where
  "counts_as_instruction r \<longleftrightarrow> r \<in> {ExecOk, Yield, Trap, Wait}"

type_synonym vm_out = "(vm_error, bif_globals \<times> virtual_machine) outcome"

definition handle_trap ::
  "nat \<Rightarrow> bif_globals \<Rightarrow> process_handle \<Rightarrow> pid \<Rightarrow> pcb \<Rightarrow> virtual_machine \<Rightarrow> vm_out" where
  "handle_trap now g h p c v =
     (let i = ph_index h;
          dest = (case pcb_bif_call c of Some bc \<Rightarrow> bc_dest bc | None \<Rightarrow> 0);
          t = modify i (\<lambda>c. c\<lparr>pcb_bif_call := None\<rparr>) (vm_process_table v) in
      bind_o (case pcb_bif_call c of
                Some bc \<Rightarrow> dispatch_bif_impl now g t i bc (vm_node_name v)
              | None \<Rightarrow> Ok (from_atom ATOM_UNDEFINED, g, t))
        (\<lambda>(res, g, t). Ok (g, on_scheduler (enqueue h p)
           (v\<lparr>vm_process_table := modify i (pcb_set_x dest res) t\<rparr>))))"

definition handle_result ::
  "nat \<Rightarrow> bif_globals \<Rightarrow> process_handle \<Rightarrow> pid \<Rightarrow> pcb \<Rightarrow> exec_result \<Rightarrow> virtual_machine \<Rightarrow> vm_out" where
  "handle_result now g h p c r v =
     (let to_state = (\<lambda>s. Ok (g, on_vm_table (modify (ph_index h) (assign_state s)) v)) in
      case r of
        ExecOk \<Rightarrow> Ok (g, if pcb_state c = Running then on_scheduler (enqueue h p) v else v)
      | Yield \<Rightarrow> to_state Waiting
      | Trap \<Rightarrow> handle_trap now g h p c v
      | ExecErr \<Rightarrow> to_state Exiting
      | ExitDispatch \<Rightarrow> to_state Exiting
      | Wait \<Rightarrow> to_state Waiting)"

definition run_instruction ::
  "nat \<Rightarrow> bif_globals \<Rightarrow> process_handle \<Rightarrow> pid \<Rightarrow> pcb \<Rightarrow> virtual_machine \<Rightarrow> vm_out" where
  "run_instruction now g h p c v =
     bind_o (interpreter_out (execute_instruction (context_of_pcb c) (pcb_code c))) (\<lambda>(x, r).
       let c = update_pcb x c;
           v = on_vm_table (modify (ph_index h) (\<lambda>_. c)) v;
           v = on_scheduler (\<lambda>s. snd (consume_reduction p (increment_reductions s))) v;
           v = (if counts_as_instruction (sr_result r)
                then v\<lparr>vm_stats := (vm_stats v)
                  \<lparr>vs_instructions_executed := vs_instructions_executed (vm_stats v) + 1\<rparr>\<rparr>
                else v)
       in handle_result now g h p c (sr_result r) v)"

definition vm_step :: "nat \<Rightarrow> bif_globals \<Rightarrow> virtual_machine \<Rightarrow> vm_out" where
  "vm_step now g v0 =
     (let (r, s) = dequeue (vm_scheduler v0); v = v0\<lparr>vm_scheduler := s\<rparr> in
      case r of
        None \<Rightarrow> Ok (g, v)
      | Some (p, h) \<Rightarrow>
          (let v = on_scheduler increment_context_switches v in
           if \<not> is_alive p (vm_process_table v) then
             Ok (g, one_less_running (on_scheduler increment_processes_exited v))
           else
             (case get_by_handle h (vm_process_table v) of
                None \<Rightarrow> Ok (g, v)
              | Some c \<Rightarrow>
                  if is_budget_exhausted p (vm_scheduler v) then
                    Ok (g, on_vm_table (modify (ph_index h) (assign_state Waiting)) v)
                  else run_instruction now g h p c v)))"

section \<open>Exit, the loop, metrics\<close>

definition vm_exit_process ::
  "pid \<Rightarrow> beam_term \<Rightarrow> virtual_machine \<Rightarrow> unit vm_result \<times> virtual_machine" where
  "vm_exit_process p reason v =
     (let v = on_scheduler (\<lambda>s. snd (sc_remove_by_pid p s)) v;
          (r, t) = mark_exited p reason (vm_process_table v);
          v = v\<lparr>vm_process_table := t\<rparr>
      in case r of
           Inl e \<Rightarrow> (Inl e, v)
         | Inr _ \<Rightarrow> (Inr (), on_scheduler increment_processes_exited (one_less_running v)))"

text \<open>The loop: \<open>clock k\<close> is the reading of the clock in the \<open>k\<close>-th turn.  The condition is
  a closure (\<^verbatim>\<open>FnMut\<close>): it has a state of its own, which each call may change; it is assumed to
  return.  The loop has a value exactly when it ends.\<close>

partial_function (option) run_until ::
  "('s \<Rightarrow> vm_stats \<Rightarrow> bool \<times> 's) \<Rightarrow> 's \<Rightarrow> (nat \<Rightarrow> nat) \<Rightarrow> nat \<Rightarrow> bif_globals \<Rightarrow> virtual_machine
     \<Rightarrow> vm_out option" where
  "run_until predicate s clock k g v =
     (case predicate s (vm_stats v) of
        (holds, s') \<Rightarrow>
          if holds then Some (Ok (g, v))
          else
            (case vm_step (clock k) g v of
               Ok gv \<Rightarrow> run_until predicate s' clock (Suc k) (fst gv) (snd gv)
             | r \<Rightarrow> Some r))"

definition get_metrics :: "virtual_machine \<Rightarrow> vm_metrics_snapshot" where
  "get_metrics v =
     \<lparr>ms_stats = vm_stats v, ms_scheduler_stats = sc_stats (vm_scheduler v),
      ms_process_count = table_len (vm_process_table v),
      ms_run_queue_depth = sc_len (vm_scheduler v)\<rparr>"

definition get_scheduler_stats :: "virtual_machine \<Rightarrow> scheduler_stats" where
  "get_scheduler_stats v = sc_stats (vm_scheduler v)"

end
