(* ===== verification/Vm_Laws.thy ===== *)
theory Vm_Laws
  imports Vm Sched_Laws
begin

text \<open>
  What the virtual machine as a whole can do: how many instructions a run can execute, when its
  loop ends, and which processes it can still run.
\<close>

section \<open>Credit\<close>

text \<open>The pids in the run queues, and the budget that is left to them.\<close>

definition queued :: "scheduler \<Rightarrow> pid set" where
  "queued s = re_pid ` set (rq_list (sc_run_queues s))"

definition unique_queue :: "scheduler \<Rightarrow> bool" where
  "unique_queue s \<longleftrightarrow> distinct (map re_pid (rq_list (sc_run_queues s)))"

definition credit :: "scheduler \<Rightarrow> nat" where
  "credit s = (\<Sum>p\<in>queued s. unat (get_reduction_budget p s))"

lemma finite_queued [simp]: "finite (queued s)"
  by (simp add: queued_def)

lemma queue_pool:
  "queued s = rq_pool.keys (sc_run_queues s)" "unique_queue s = rq_pool.unique (sc_run_queues s)"
  by (simp_all add: queued_def unique_queue_def rq_keys rq_unique)

lemma enqueue_queue:
  "queued (enqueue h p s) = insert p (queued s)"
  "unique_queue s \<Longrightarrow> unique_queue (enqueue h p s)"
  "get_reduction_budget q (enqueue h p s) = get_reduction_budget q s"
  "sc_stats (enqueue h p s) = sc_stats s"
  by (simp_all add: queue_pool rq_pool.unique_enq enqueue_def enqueue_with_priority_def
      get_reduction_budget_def)

lemma credit_enqueue: "credit (enqueue h p s) \<le> credit s + unat (get_reduction_budget p s)"
  by (simp add: credit_def enqueue_queue sum.insert_if)

lemma dequeue_queue:
  assumes "dequeue s = (r, s')"
  shows "queued s' \<subseteq> queued s" and "unique_queue s \<Longrightarrow> unique_queue s'"
    and "get_reduction_budget q s' = get_reduction_budget q s" and "sc_stats s' = sc_stats s"
    and "r = None \<Longrightarrow> s' = s"
    and "unique_queue s \<Longrightarrow> r = Some (p, h) \<Longrightarrow> p \<notin> queued s' \<and> p \<in> queued s
      \<and> credit s' + unat (get_reduction_budget p s) \<le> credit s"
proof -
  let ?q = "sc_run_queues s"
  have s': "s' = s\<lparr>sc_run_queues := snd (rq_dequeue ?q)\<rparr>"
    and r: "r = map_option (\<lambda>e. (re_pid e, re_handle e)) (fst (rq_dequeue ?q))"
    using assms by (simp_all add: dequeue_def split_beta)
  have d: "rq_dequeue ?q = (fst (rq_dequeue ?q), sc_run_queues s')" by (simp add: s')
  show b: "get_reduction_budget q s' = get_reduction_budget q s" for q
    by (simp add: s' get_reduction_budget_def)
  show "sc_stats s' = sc_stats s" by (simp add: s')
  have none: "s' = s" if "fst (rq_dequeue ?q) = None"
    using rq_pool.deq_None [of ?q "sc_run_queues s'"] d that by (simp add: s')
  then show "r = None \<Longrightarrow> s' = s" by (simp add: r)
  have some: "insert (re_pid e) (queued s') = queued s \<and>
      (unique_queue s \<longrightarrow> unique_queue s' \<and> re_pid e \<notin> queued s')"
    if "fst (rq_dequeue ?q) = Some e" for e
    using rq_pool.deq_facts(4,5) [of ?q e "sc_run_queues s'"] d that by (simp add: queue_pool)
  show "queued s' \<subseteq> queued s"
    using none some by (cases "fst (rq_dequeue ?q)") auto
  show "unique_queue s \<Longrightarrow> unique_queue s'"
    using none some by (cases "fst (rq_dequeue ?q)") auto
  assume u: "unique_queue s" and "r = Some (p, h)"
  then obtain e where "fst (rq_dequeue ?q) = Some e" "p = re_pid e" by (auto simp: r)
  with some u have n: "queued s = insert p (queued s')" "p \<notin> queued s'" by auto
  then show "p \<notin> queued s' \<and> p \<in> queued s \<and> credit s' + unat (get_reduction_budget p s) \<le> credit s"
    by (simp add: credit_def b)
qed

lemma queue_frame:
  "queued (increment_context_switches s) = queued s" "queued (increment_processes_exited s) = queued s"
  "queued (increment_reductions s) = queued s" "queued (increment_processes_spawned s) = queued s"
  "queued (set_reduction_budget p b s) = queued s"
  "unique_queue (increment_context_switches s) = unique_queue s"
  "unique_queue (increment_processes_exited s) = unique_queue s"
  "unique_queue (increment_reductions s) = unique_queue s"
  "unique_queue (increment_processes_spawned s) = unique_queue s"
  "unique_queue (set_reduction_budget p b s) = unique_queue s"
  "get_reduction_budget q (increment_context_switches s) = get_reduction_budget q s"
  "get_reduction_budget q (increment_processes_exited s) = get_reduction_budget q s"
  "get_reduction_budget q (increment_reductions s) = get_reduction_budget q s"
  "get_reduction_budget q (increment_processes_spawned s) = get_reduction_budget q s"
  "get_reduction_budget q (set_reduction_budget p b s) = (if q = p then b else get_reduction_budget q s)"
  by (simp_all add: queued_def unique_queue_def get_reduction_budget_def set_reduction_budget_def
      increment_context_switches_def increment_processes_exited_def increment_reductions_def
      increment_processes_spawned_def)

text \<open>The instructions a scheduler has counted.\<close>

abbreviation executed :: "scheduler \<Rightarrow> nat" where
  "executed s \<equiv> unat (ss_reductions_executed (sc_stats s))"

lemma executed_frame:
  "executed (increment_context_switches s) = executed s"
  "executed (increment_processes_exited s) = executed s"
  "executed (increment_processes_spawned s) = executed s"
  "executed (set_reduction_budget p b s) = executed s"
  "executed (increment_reductions s) \<le> executed s + 1"
  by (simp_all add: increment_context_switches_def increment_processes_exited_def
      increment_processes_spawned_def increment_reductions_def set_reduction_budget_def
      unat_word_ariths)

text \<open>The account: instructions counted and credit left.\<close>

definition account :: "scheduler \<Rightarrow> nat" where
  "account s = executed s + credit s"

section \<open>One operation\<close>

lemma handle_result_scheduler:
  assumes "handle_result now g h p c r v = Ok (g', v')"
  shows "vm_scheduler v' \<in> {vm_scheduler v, enqueue h p (vm_scheduler v)} \<and> vm_stats v' = vm_stats v"
  using assms
  by (auto simp: handle_result_def handle_trap_def on_scheduler_def on_vm_table_def Let_def bind_o_Ok_iff
      split: exec_result.splits if_splits)

text \<open>What an operation keeps: the entries stay unique, and the instructions counted grow by no
  more than the credit falls, up to the credit \<open>k\<close> it brings in.\<close>

definition vm_counted :: "virtual_machine \<Rightarrow> nat" where
  "vm_counted v = unat (vs_instructions_executed (vm_stats v))"

definition paid :: "nat \<Rightarrow> virtual_machine \<Rightarrow> virtual_machine \<Rightarrow> bool" where
  "paid k v v' \<longleftrightarrow> unique_queue (vm_scheduler v') \<and>
     account (vm_scheduler v') \<le> account (vm_scheduler v) + k \<and>
     vm_counted v' + credit (vm_scheduler v') \<le> vm_counted v + credit (vm_scheduler v) + k"

lemma consumed:
  assumes "get_reduction_budget p s \<noteq> 0"
  shows "snd (consume_reduction p s) = set_reduction_budget p (get_reduction_budget p s - 1) s"
    and "unat (get_reduction_budget p s - 1) + 1 = unat (get_reduction_budget p s)"
proof -
  have "0 < get_reduction_budget p s" using assms by (simp add: word_greater_zero_iff)
  then show "snd (consume_reduction p s) = set_reduction_budget p (get_reduction_budget p s - 1) s"
    by (simp add: consume_reduction_def Let_def)
  show "unat (get_reduction_budget p s - 1) + 1 = unat (get_reduction_budget p s)"
    using assms by (simp add: unat_minus_one) (metis Suc_pred unat_gt_0)
qed

lemma credit_other:
  "p \<notin> queued s \<Longrightarrow> credit (set_reduction_budget p b s) = credit s"
  unfolding credit_def queue_frame by (rule sum.cong) auto

lemma credit_frame:
  "credit (increment_context_switches s) = credit s" "credit (increment_processes_exited s) = credit s"
  "credit (increment_reductions s) = credit s" "credit (increment_processes_spawned s) = credit s"
  by (simp_all add: credit_def queue_frame)

lemma run_instruction_paid:
  assumes "run_instruction now g h p c v = Ok (g', v')"
    and "unique_queue (vm_scheduler v)" and "p \<notin> queued (vm_scheduler v)"
    and "get_reduction_budget p (vm_scheduler v) \<noteq> 0"
  shows "paid (unat (get_reduction_budget p (vm_scheduler v))) v v'"
    and "queued (vm_scheduler v') \<subseteq> insert p (queued (vm_scheduler v))"
proof -
  let ?s = "vm_scheduler v" and ?b = "get_reduction_budget p (vm_scheduler v)"
  obtain x r v1 where v1: "handle_result now g h p (update_pcb x c) r v1 = Ok (g', v')"
    "vm_scheduler v1 = snd (consume_reduction p (increment_reductions ?s))"
    "vm_counted v1 \<le> vm_counted v + 1"
    using assms(1)
    by (auto simp: run_instruction_def bind_o_Ok_iff Let_def on_scheduler_def on_vm_table_def
        vm_counted_def unat_word_ariths split: if_splits)
  note hr = handle_result_scheduler [OF v1(1)]
  have b: "get_reduction_budget p (increment_reductions ?s) = ?b" by (simp add: queue_frame)
  have s1: "vm_scheduler v1 = set_reduction_budget p (?b - 1) (increment_reductions ?s)"
    using consumed(1) [of p "increment_reductions ?s"] assms(4) v1(2) by (simp add: b)
  have q1: "queued (vm_scheduler v1) = queued ?s" "unique_queue (vm_scheduler v1)"
    "get_reduction_budget p (vm_scheduler v1) = ?b - 1" "executed (vm_scheduler v1) \<le> executed ?s + 1"
    using assms(2) executed_frame(5) [of ?s] by (simp_all add: s1 queue_frame executed_frame)
  have c1: "credit (vm_scheduler v1) = credit ?s"
    using assms(3) by (simp add: s1 credit_other credit_frame queue_frame)
  have "credit (enqueue h p (vm_scheduler v1)) + 1 \<le> credit ?s + unat ?b"
    using credit_enqueue [of h p "vm_scheduler v1"] c1 q1(3) consumed(2) [OF assms(4)] by simp
  moreover have "credit (vm_scheduler v1) + 1 \<le> credit ?s + unat ?b"
    using c1 consumed(2) [OF assms(4)] by simp
  ultimately show "paid (unat ?b) v v'"
    using hr q1 v1(3) enqueue_queue(2) [of "vm_scheduler v1" h p]
    by (auto simp: paid_def account_def vm_counted_def enqueue_queue)
  show "queued (vm_scheduler v') \<subseteq> insert p (queued ?s)"
    using hr q1(1) by (auto simp: enqueue_queue)
qed

lemma vm_step_paid:
  assumes "vm_step now g v = Ok (g', v')" and "unique_queue (vm_scheduler v)"
  shows "paid 0 v v' \<and> queued (vm_scheduler v') \<subseteq> queued (vm_scheduler v)"
proof -
  let ?s = "vm_scheduler v"
  obtain r s where d: "dequeue ?s = (r, s)" by force
  note dq = dequeue_queue [OF d]
  show ?thesis
  proof (cases r)
    case None
    then have "v' = v" using assms(1) d dq(5) by (auto simp: vm_step_def)
    with assms(2) show ?thesis by (simp add: paid_def)
  next
    case (Some ph)
    then obtain p h where r: "r = Some (p, h)" by (cases ph) simp
    note n = dq(6) [OF assms(2) r]
    let ?v1 = "on_scheduler increment_context_switches (v\<lparr>vm_scheduler := s\<rparr>)"
    let ?s1 = "increment_context_switches s"
    have s1: "vm_scheduler ?v1 = ?s1" "vm_stats ?v1 = vm_stats v" by (simp_all add: on_scheduler_def)
    have less: "credit s \<le> credit ?s" using n by simp
    have u: "unique_queue s" using dq(2) assms(2) by simp
    have e: "executed s = executed ?s" using dq(4) by simp
    show ?thesis
    proof (cases "is_alive p (vm_process_table v) \<and> get_by_handle h (vm_process_table v) \<noteq> None
        \<and> \<not> is_budget_exhausted p ?s1")
      case False
      then have "vm_scheduler v' \<in> {?s1, increment_processes_exited ?s1}
          \<and> vs_instructions_executed (vm_stats v') = vs_instructions_executed (vm_stats v)"
        using assms(1) d r
        by (auto simp: vm_step_def on_scheduler_def on_vm_table_def one_less_running_def Let_def
            split: option.splits if_splits)
      then show ?thesis
        using less u e dq(1) by (auto simp: paid_def account_def vm_counted_def queue_frame
            credit_frame executed_frame)
    next
      case True
      then obtain c where "get_by_handle h (vm_process_table v) = Some c" by auto
      with True assms(1) d r have run: "run_instruction now g h p c ?v1 = Ok (g', v')"
        by (simp add: vm_step_def on_scheduler_def Let_def)
      have b: "get_reduction_budget p (vm_scheduler ?v1) = get_reduction_budget p ?s"
        unfolding s1 using dq(3) by (simp add: queue_frame)
      have nz: "get_reduction_budget p (vm_scheduler ?v1) \<noteq> 0"
        using True by (simp add: s1 is_budget_exhausted_def)
      note ri = run_instruction_paid [OF run _ _ nz]
      have "unique_queue (vm_scheduler ?v1)" "p \<notin> queued (vm_scheduler ?v1)"
        unfolding s1 using u n by (simp_all add: queue_frame)
      note ri = ri [OF this]
      show ?thesis
        using ri n e dq(1) dq(3) [of p] unfolding b s1
        by (auto simp: paid_def account_def vm_counted_def queue_frame credit_frame executed_frame s1)
    qed
  qed
qed

section \<open>Runs\<close>

datatype vm_op =
    VmSpawn nat
  | VmSend pid pid beam_term
  | VmExit pid beam_term
  | VmStep nat

fun exec_vm_op :: "vm_op \<Rightarrow> bif_globals \<times> virtual_machine \<Rightarrow> vm_out" where
  "exec_vm_op (VmSpawn n) (g, v) = bind_o (vm_spawn n v) (\<lambda>(_, v'). Ok (g, v'))"
| "exec_vm_op (VmSend a b m) (g, v) = Ok (g, snd (vm_send a b m v))"
| "exec_vm_op (VmExit p r) (g, v) = Ok (g, snd (vm_exit_process p r v))"
| "exec_vm_op (VmStep now) (g, v) = vm_step now g v"

definition is_vm_spawn :: "vm_op \<Rightarrow> bool" where
  "is_vm_spawn op \<longleftrightarrow> (\<exists>n. op = VmSpawn n)"

lemma remove_queue:
  assumes "unique_queue s"
  shows "unique_queue (snd (sc_remove_by_pid p s))"
    and "queued (snd (sc_remove_by_pid p s)) = queued s - {p}"
    and "credit (snd (sc_remove_by_pid p s)) \<le> credit s"
    and "sc_stats (snd (sc_remove_by_pid p s)) = sc_stats s"
proof -
  let ?s = "snd (sc_remove_by_pid p s)"
  note spec = rq_remove_spec [OF assms [unfolded unique_queue_def], of p]
  have l: "rq_list (sc_run_queues ?s) = filter (\<lambda>e. re_pid e \<noteq> p) (rq_list (sc_run_queues s))"
    using spec(2) by (simp add: sc_remove_by_pid_def split_beta Let_def)
  show u: "unique_queue ?s" using assms by (simp add: unique_queue_def l distinct_map_filter)
  show q: "queued ?s = queued s - {p}" by (auto simp: queued_def l)
  have b: "get_reduction_budget x ?s = get_reduction_budget x s" if "x \<noteq> p" for x
    using that by (simp add: sc_remove_by_pid_def get_reduction_budget_def split_beta Let_def)
  have "credit ?s = (\<Sum>x\<in>queued s - {p}. unat (get_reduction_budget x s))"
    unfolding credit_def q by (rule sum.cong) (auto simp: b)
  also have "\<dots> \<le> credit s" unfolding credit_def by (rule sum_mono2) auto
  finally show "credit ?s \<le> credit s" .
  show "sc_stats ?s = sc_stats s" by (simp add: sc_remove_by_pid_def split_beta Let_def)
qed

lemma vm_exit_paid:
  assumes "unique_queue (vm_scheduler v)"
  shows "paid 0 v (snd (vm_exit_process p r v))
    \<and> queued (vm_scheduler (snd (vm_exit_process p r v))) \<subseteq> queued (vm_scheduler v)"
proof -
  let ?s = "snd (sc_remove_by_pid p (vm_scheduler v))"
  have "vm_scheduler (snd (vm_exit_process p r v)) \<in> {?s, increment_processes_exited ?s}
      \<and> vm_counted (snd (vm_exit_process p r v)) = vm_counted v"
    by (auto simp: vm_exit_process_def Let_def on_scheduler_def one_less_running_def vm_counted_def
        split: prod.split sum.split)
  then obtain s' v' where v': "snd (vm_exit_process p r v) = v'" "vm_scheduler v' = s'"
    "vm_counted v' = vm_counted v" and s': "s' = ?s \<or> s' = increment_processes_exited ?s" by auto
  note rq = remove_queue [OF assms, of p]
  have "unique_queue s'" "queued s' \<subseteq> queued (vm_scheduler v)" "credit s' \<le> credit (vm_scheduler v)"
    "executed s' = executed (vm_scheduler v)"
    using s' rq(1,2,3) arg_cong [OF rq(4), of "\<lambda>st. unat (ss_reductions_executed st)"]
    by (elim disjE; simp add: queue_frame credit_frame executed_frame)+
  then show ?thesis unfolding v'(1) by (simp add: paid_def account_def v')
qed

lemma vm_spawn_paid:
  assumes "unique_queue (vm_scheduler v)" and "vm_spawn n v = Ok (p, v')"
  shows "paid 2000 v v' \<and> queued (vm_scheduler v') = insert p (queued (vm_scheduler v))"
proof -
  let ?s = "vm_scheduler v"
  let ?r = "set_reduction_budget p SCHED_REDUCTION_BUDGET ?s"
  obtain h where v': "vm_scheduler v' = increment_processes_spawned (enqueue h p ?r)"
    "vm_counted v' = vm_counted v"
    using assms(2) by (auto simp: vm_spawn_def bind_o_Ok_iff Let_def reset_reduction_budget_def
        vm_counted_def)
  have "credit (enqueue h p ?r) \<le> credit ?s + 2000"
  proof -
    have "credit (enqueue h p ?r) = (\<Sum>q\<in>insert p (queued ?s). unat (get_reduction_budget q ?r))"
      by (simp add: credit_def enqueue_queue queue_frame)
    also have "\<dots> = 2000 + (\<Sum>q\<in>queued ?s - {p}. unat (get_reduction_budget q ?r))"
      by (subst sum.insert_remove) (simp_all add: queue_frame SCHED_REDUCTION_BUDGET_def)
    also have "(\<Sum>q\<in>queued ?s - {p}. unat (get_reduction_budget q ?r))
        = (\<Sum>q\<in>queued ?s - {p}. unat (get_reduction_budget q ?s))"
      by (rule sum.cong) (auto simp: queue_frame)
    also have "\<dots> \<le> credit ?s" unfolding credit_def by (rule sum_mono2) auto
    finally show ?thesis by simp
  qed
  then show ?thesis
    using assms(1) enqueue_queue(2) [of ?r h p]
    by (simp add: v' paid_def account_def queue_frame credit_frame executed_frame enqueue_queue)
qed

lemma vm_send_paid:
  "unique_queue (vm_scheduler v) \<Longrightarrow> paid 0 v (snd (vm_send a b m v))
    \<and> vm_scheduler (snd (vm_send a b m v)) = vm_scheduler v"
  by (auto simp: paid_def account_def vm_counted_def vm_send_def Let_def split: option.split)

lemma exec_vm_op_paid:
  assumes "exec_vm_op op (g, v) = Ok (g', v')" and "unique_queue (vm_scheduler v)"
  shows "paid (if is_vm_spawn op then 2000 else 0) v v'
    \<and> (\<not> is_vm_spawn op \<longrightarrow> queued (vm_scheduler v') \<subseteq> queued (vm_scheduler v))"
proof (cases op)
  case (VmSpawn n)
  then show ?thesis
    using assms vm_spawn_paid by (fastforce simp: is_vm_spawn_def bind_o_Ok_iff)
next
  case (VmSend a b m)
  then show ?thesis using assms vm_send_paid [OF assms(2), of a b m] by (auto simp: is_vm_spawn_def)
next
  case (VmExit p r)
  then show ?thesis using assms vm_exit_paid [OF assms(2), of p r] by (auto simp: is_vm_spawn_def)
next
  case (VmStep now)
  then show ?thesis using assms vm_step_paid by (simp add: is_vm_spawn_def)
qed

lemma paid_trans: "paid j v v' \<Longrightarrow> paid k v' v'' \<Longrightarrow> paid (j + k) v v''"
  by (simp add: paid_def)

lemma exec_vm_ops_paid:
  "fold_o exec_vm_op ops (g, v) = Ok (g', v') \<Longrightarrow> unique_queue (vm_scheduler v) \<Longrightarrow>
   paid (2000 * length (filter is_vm_spawn ops)) v v'
   \<and> (filter is_vm_spawn ops = [] \<longrightarrow> queued (vm_scheduler v') \<subseteq> queued (vm_scheduler v))"
proof (induction ops arbitrary: g v)
  case Nil
  then show ?case by (simp add: paid_def)
next
  case (Cons op ops)
  from Cons.prems(1) obtain g1 v1 where s: "exec_vm_op op (g, v) = Ok (g1, v1)"
    "fold_o exec_vm_op ops (g1, v1) = Ok (g', v')" by (auto simp: bind_o_Ok_iff)
  note h = exec_vm_op_paid [OF s(1) Cons.prems(2)]
  then have "unique_queue (vm_scheduler v1)" by (simp add: paid_def)
  note t = Cons.IH [OF s(2) this]
  show ?case
    using h t paid_trans [OF h [THEN conjunct1] t [THEN conjunct1]]
    by (auto split: if_splits simp: add.commute)
qed

lemma vm_new_queue: "unique_queue (vm_scheduler (vm_new i))" "account (vm_scheduler (vm_new i)) = 0"
  "vm_counted (vm_new i) = 0" "credit (vm_scheduler (vm_new i)) = 0"
  by (simp_all add: vm_new_def scheduler_new_def unique_queue_def queued_def credit_def account_def
      vm_counted_def rq_list_def run_queues_new_def scheduler_stats_default_def vm_stats_default_def)

section \<open>The loop\<close>

text \<open>The state of a closure after it was asked \<open>j\<close> times with the same statistics.\<close>

primrec asked :: "('s \<Rightarrow> vm_stats \<Rightarrow> bool \<times> 's) \<Rightarrow> vm_stats \<Rightarrow> nat \<Rightarrow> 's \<Rightarrow> 's" where
  "asked P st 0 s = s"
| "asked P st (Suc j) s = asked P st j (snd (P s st))"

lemma run_until_paid:
  assumes "run_until P s clock k g v = Some r"
  shows "unique_queue (vm_scheduler v) \<longrightarrow>
    (case r of Ok (g', v') \<Rightarrow> (\<exists>s'. fst (P s' (vm_stats v'))) \<and> paid 0 v v' | _ \<Rightarrow> True)"
proof (induction rule: run_until.raw_induct [OF _ assms, rotated])
  case (1 f P s clock k g v r)
  show ?case
  proof (cases "fst (P s (vm_stats v))")
    case True
    with 1(2) show ?thesis by (auto simp: paid_def split_beta)
  next
    case False
    show ?thesis
    proof (cases "\<exists>gv. vm_step (clock k) g v = Ok gv")
      case True
      then obtain gv where Ok: "vm_step (clock k) g v = Ok gv" by blast
      then have f: "f P (snd (P s (vm_stats v))) clock (Suc k) (fst gv) (snd gv) = Some r"
        using 1(2) False by (simp add: split_beta)
      show ?thesis
      proof
        assume u: "unique_queue (vm_scheduler v)"
        have p: "paid 0 v (snd gv)" using vm_step_paid [of "clock k" g v "fst gv" "snd gv"] Ok u by simp
        then have "unique_queue (vm_scheduler (snd gv))" by (simp add: paid_def)
        with 1(1) [OF f]
        show "case r of Ok (g', v') \<Rightarrow> (\<exists>s'. fst (P s' (vm_stats v'))) \<and> paid 0 v v' | _ \<Rightarrow> True"
          using paid_trans [OF p] by (auto split: outcome.splits)
      qed
    next
      case none: False
      then have "r = vm_step (clock k) g v"
        using 1(2) False by (cases "vm_step (clock k) g v") (auto simp: split_beta)
      with none show ?thesis by (auto split: outcome.split)
    qed
  qed
qed

lemma vm_step_idle: "dequeue (vm_scheduler v) = (None, s) \<Longrightarrow> vm_step now g v = Ok (g, v)"
  using dequeue_queue(5) [of "vm_scheduler v" None s] by (simp add: vm_step_def)

text \<open>On an idle machine a turn changes nothing but the state of the closure.\<close>

lemma run_until_idle:
  assumes "run_until P s clock k g v = Some r"
  shows "fst (dequeue (vm_scheduler v)) = None \<longrightarrow> (\<exists>j. fst (P (asked P (vm_stats v) j s) (vm_stats v)))"
proof (induction rule: run_until.raw_induct [OF _ assms, rotated])
  case (1 f P s clock k g v r)
  show ?case
  proof
    assume "fst (dequeue (vm_scheduler v)) = None"
    then have st: "vm_step (clock k) g v = Ok (g, v)" "fst (dequeue (vm_scheduler v)) = None"
      using vm_step_idle [of v "snd (dequeue (vm_scheduler v))"] by (metis prod.collapse)+
    show "\<exists>j. fst (P (asked P (vm_stats v) j s) (vm_stats v))"
    proof (cases "fst (P s (vm_stats v))")
      case True
      then show ?thesis by (intro exI [of _ 0]) simp
    next
      case False
      then have "f P (snd (P s (vm_stats v))) clock (Suc k) g v = Some r"
        using 1(2) st(1) by (simp add: split_beta)
      from 1(1) [OF this] st(2) obtain j
        where "fst (P (asked P (vm_stats v) j (snd (P s (vm_stats v)))) (vm_stats v))" by auto
      then show ?thesis by (intro exI [of _ "Suc j"]) simp
    qed
  qed
qed

lemma run_until_idle_ends:
  assumes "fst (dequeue (vm_scheduler v)) = None" and "fst (P (asked P (vm_stats v) j s) (vm_stats v))"
  shows "run_until P s clock k g v = Some (Ok (g, v))"
  using assms(2)
proof (induction j arbitrary: s k)
  case 0
  then show ?case by (subst run_until.simps) (simp add: split_beta)
next
  case (Suc j)
  have st: "vm_step (clock k) g v = Ok (g, v)"
    using assms(1) vm_step_idle [of v "snd (dequeue (vm_scheduler v))"] by (metis prod.collapse)
  have "run_until P (snd (P s (vm_stats v))) clock (Suc k) g v = Some (Ok (g, v))"
    by (rule Suc.IH) (use Suc.prems in simp)
  with st show ?case by (subst run_until.simps) (simp add: split_beta)
qed

section \<open>Properties\<close>

text \<open>C3. A machine does a bounded amount of work: whatever is spawned, sent, exited and stepped,
  the instructions it counts, and those its scheduler counts, are at most 2000 for each process
  spawned on it, since no budget is ever renewed.\<close>

theorem vm_lifetime_budget:
  assumes "fold_o exec_vm_op ops (g, vm_new i) = Ok (g', v')"
  shows "unat (vs_instructions_executed (vm_stats v')) \<le> 2000 * length (filter is_vm_spawn ops)
    \<and> unat (ss_reductions_executed (sc_stats (vm_scheduler v'))) \<le> 2000 * length (filter is_vm_spawn ops)"
  using exec_vm_ops_paid [OF assms vm_new_queue(1)] vm_new_queue [of i]
  by (simp add: paid_def account_def vm_counted_def)

text \<open>C6. \<^verbatim>\<open>run_until\<close> never ends normally when its condition, a closure with a state, holds only
  after more instructions than 2000 for each process spawned so far: it spins, unless a step panics.
  On a machine with no runnable process it ends, without effect, exactly if the condition comes to
  hold when it is asked again and again with the same statistics, and spins for ever otherwise.\<close>

theorem run_until_can_spin:
  assumes "fold_o exec_vm_op ops (g, vm_new i) = Ok (g', v)"
    and "2000 * length (filter is_vm_spawn ops) < n"
    and "\<And>s st. fst (P s st) \<Longrightarrow> n \<le> unat (vs_instructions_executed st)"
  shows "run_until P s clock k g' v \<noteq> Some (Ok r)
    \<and> (sc_is_empty (vm_scheduler v) \<longrightarrow> run_until Q q clock k g' v =
        (if \<exists>j. fst (Q (asked Q (vm_stats v) j q) (vm_stats v)) then Some (Ok (g', v)) else None))"
proof (intro conjI impI notI)
  note p = exec_vm_ops_paid [OF assms(1) vm_new_queue(1)]
  then have u: "unique_queue (vm_scheduler v)" by (simp add: paid_def)
  obtain g2 v2 where r: "r = (g2, v2)" by (cases r) blast
  assume "run_until P s clock k g' v = Some (Ok r)"
  from run_until_paid [OF this] u assms(3) have "n \<le> vm_counted v2" "paid 0 v v2"
    by (auto simp: r vm_counted_def)
  then show False using p assms(2) vm_new_queue [of i] by (simp add: paid_def)
next
  assume "sc_is_empty (vm_scheduler v)"
  then have "rq_list (sc_run_queues (vm_scheduler v)) = []"
    by (simp add: sc_is_empty_def rq_is_empty_def rq_len_list)
  then have e: "fst (dequeue (vm_scheduler v)) = None"
    by (simp add: dequeue_def rq_dequeue_list(2))
  show "run_until Q q clock k g' v =
      (if \<exists>j. fst (Q (asked Q (vm_stats v) j q) (vm_stats v)) then Some (Ok (g', v)) else None)"
    using run_until_idle_ends [OF e, of Q _ q clock k g'] run_until_idle [of Q q clock k g' v] e
    by (cases "run_until Q q clock k g' v") auto
qed

text \<open>C5. A process that waits or yields is parked for ever: the step takes it out of the run queue
  in state waiting, and no later send, exit or step puts it back, whatever message wakes it.\<close>

theorem parked_for_ever:
  assumes "unique_queue (vm_scheduler v)" and "dequeue (vm_scheduler v) = (Some (p, h), s)"
    and "is_alive p (vm_process_table v)" and "get_by_handle h (vm_process_table v) = Some c"
    and "get_reduction_budget p (vm_scheduler v) \<noteq> 0"
    and "execute_instruction (context_of_pcb c) (pcb_code c) = Ok (x, r)"
    and "sr_result r \<in> {Wait, Yield}"
    and "filter is_vm_spawn ops = []"
  shows "\<exists>v1. vm_step now g v = Ok (g, v1)
    \<and> get_by_handle h (vm_process_table v1) = Some ((update_pcb x c)\<lparr>pcb_state := Waiting\<rparr>)
    \<and> (case fold_o exec_vm_op ops (g, v1) of
         Ok (g', v') \<Rightarrow> p \<notin> re_pid ` set (rq_list (sc_run_queues (vm_scheduler v'))) | _ \<Rightarrow> True)"
proof -
  have b: "get_reduction_budget p (increment_context_switches s) = get_reduction_budget p (vm_scheduler v)"
    using dequeue_queue(3) [OF assms(2), of p] by (simp add: queue_frame)
  then have nz: "\<not> is_budget_exhausted p (increment_context_switches s)"
    using assms(5) by (simp add: is_budget_exhausted_def)
  let ?v0 = "on_scheduler increment_context_switches (v\<lparr>vm_scheduler := s\<rparr>)"
  have st: "vm_step now g v = run_instruction now g h p c ?v0"
    using assms(3,4) nz by (simp add: vm_step_def assms(2) on_scheduler_def)
  have g: "get_by_index (ph_index h) (vm_process_table v) = Some c"
    using assms(4) by (simp add: get_by_handle_def)
  obtain v1 where v1: "run_instruction now g h p c ?v0 = Ok (g, v1)"
    "vm_scheduler v1 = snd (consume_reduction p (increment_reductions (increment_context_switches s)))"
    "vm_process_table v1 = modify (ph_index h) (assign_state Waiting)
       (modify (ph_index h) (\<lambda>_. update_pcb x c) (vm_process_table v))"
    using assms(6,7)
    by (auto simp: run_instruction_def interpreter_out_def handle_result_def counts_as_instruction_def
        on_scheduler_def on_vm_table_def Let_def)
  have "queued (vm_scheduler v1) = queued s"
    unfolding v1(2) by (simp add: consume_reduction_def Let_def queue_frame)
  then have np: "p \<notin> queued (vm_scheduler v1)"
    using dequeue_queue(6) [OF assms(2,1) refl] by simp
  have u: "unique_queue (vm_scheduler v1)"
    using vm_step_paid [of now g v g v1] st v1(1) assms(1) by (simp add: paid_def)
  have h: "get_by_handle h (vm_process_table v1) = Some ((update_pcb x c)\<lparr>pcb_state := Waiting\<rparr>)"
    by (simp add: v1(3) get_by_handle_def get_by_index_modify g assign_state_def)
  have "p \<notin> queued (vm_scheduler v')" if "fold_o exec_vm_op ops (g, v1) = Ok (g', v')" for g' v'
    using exec_vm_ops_paid [OF that u] assms(8) np by auto
  then show ?thesis
    using st v1(1) h by (auto simp: queued_def split: outcome.split)
qed

text \<open>What an instruction closes stays open: after a step whose context has no handler or no
  receive any more, the control block still has the ones it had, so that a handler that was
  removed is entered again by the next raise; the process heap is out of the instruction's
  reach, and the reduction count of the process is no total but the rest of one context, plus one.\<close>

theorem closed_states_stay:
  assumes "dequeue (vm_scheduler v) = (Some (p, h), s)"
    and "is_alive p (vm_process_table v)" and "get_by_handle h (vm_process_table v) = Some c"
    and "get_reduction_budget p (vm_scheduler v) \<noteq> 0"
    and "execute_instruction (context_of_pcb c) (pcb_code c) = Ok (x, r)"
    and "sr_result r \<noteq> Trap"
    and "ec_exception_state x = None" and "ec_receive_state x = None"
  shows "\<exists>v1 c1. vm_step now g v = Ok (g, v1) \<and> get_by_handle h (vm_process_table v1) = Some c1
    \<and> pcb_exception_state c1 = pcb_exception_state c \<and> pcb_receive_state c1 = pcb_receive_state c
    \<and> pcb_heap c1 = pcb_heap c \<and> pcb_reductions c1 = ec_reductions x + 1
    \<and> ec_heap (context_of_pcb c) = None"
proof -
  have b: "get_reduction_budget p (increment_context_switches s) = get_reduction_budget p (vm_scheduler v)"
    using dequeue_queue(3) [OF assms(1), of p] by (simp add: queue_frame)
  then have nz: "\<not> is_budget_exhausted p (increment_context_switches s)"
    using assms(4) by (simp add: is_budget_exhausted_def)
  let ?v0 = "on_scheduler increment_context_switches (v\<lparr>vm_scheduler := s\<rparr>)"
  have st: "vm_step now g v = run_instruction now g h p c ?v0"
    using assms(2,3) nz by (simp add: vm_step_def assms(1) on_scheduler_def)
  have gi: "get_by_index (ph_index h) (vm_process_table v) = Some c"
    using assms(3) by (simp add: get_by_handle_def)
  obtain v1 f where v1: "run_instruction now g h p c ?v0 = Ok (g, v1)"
    "vm_process_table v1 = modify (ph_index h) f (modify (ph_index h) (\<lambda>_. update_pcb x c) (vm_process_table v))"
    and f: "f = id \<or> f = assign_state Waiting \<or> f = assign_state Exiting"
  proof -
    have id: "modify i id t = t" for i t
      by (simp add: modify_def modify_slot_def list_update_id option.map_id)
    obtain v2 where v2: "run_instruction now g h p c ?v0
        = handle_result now g h p (update_pcb x c) (sr_result r) v2"
      "vm_process_table v2 = modify (ph_index h) (\<lambda>_. update_pcb x c) (vm_process_table v)"
      using assms(5) by (auto simp: run_instruction_def interpreter_out_def on_scheduler_def
          on_vm_table_def Let_def)
    have "\<exists>v1 f. handle_result now g h p (update_pcb x c) (sr_result r) v2 = Ok (g, v1)
        \<and> vm_process_table v1 = modify (ph_index h) f (vm_process_table v2)
        \<and> (f = id \<or> f = assign_state Waiting \<or> f = assign_state Exiting)"
    proof (cases "sr_result r")
      case ExecOk
      then show ?thesis by (auto simp: handle_result_def on_scheduler_def intro!: exI [of _ id] simp: id)
    qed (use assms(6) in \<open>auto simp: handle_result_def on_vm_table_def\<close>)
    then show thesis using that v2 by auto
  qed
  have g1: "get_by_handle h (vm_process_table v1) = Some (f (update_pcb x c))"
    by (simp add: v1(2) get_by_handle_def get_by_index_modify gi)
  have hp: "ec_heap (context_of_pcb c) = None"
    by (simp add: context_of_pcb_def init_from_pcb_def exec_context_new_def)
  show ?thesis
    unfolding st
    by (rule exI [of _ v1], rule exI [of _ "f (update_pcb x c)"])
      (use v1(1) g1 f hp assms(7,8) in \<open>auto simp: update_pcb_def assign_state_def\<close>)
qed

section \<open>Witnesses\<close>

text \<open>A machine with one process, queued with its full budget.\<close>

definition one_process_vm :: "pcb \<Rightarrow> virtual_machine" where
  "one_process_vm c = (vm_new 0)\<lparr>
     vm_process_table := (process_table_new 0)\<lparr>tb_processes := [Some c], tb_next_index := 1,
       tb_pid_counter := 2\<rparr>,
     vm_scheduler := enqueue (process_handle_new 0 (pid_new 1 0 0)) (pid_new 1 0 0) (scheduler_new 0)\<rparr>"

lemma one_process_vm_facts:
  assumes "pcb_pid c = pid_new 1 0 0" and "pcb_state c = Running"
  shows "unique_queue (vm_scheduler (one_process_vm c))"
    and "\<exists>s. dequeue (vm_scheduler (one_process_vm c))
      = (Some (pid_new 1 0 0, process_handle_new 0 (pid_new 1 0 0)), s)"
    and "is_alive (pid_new 1 0 0) (vm_process_table (one_process_vm c))"
    and "get_by_handle (process_handle_new 0 (pid_new 1 0 0)) (vm_process_table (one_process_vm c)) = Some c"
    and "get_reduction_budget (pid_new 1 0 0) (vm_scheduler (one_process_vm c)) \<noteq> 0"
  using assms
  by (simp_all add: one_process_vm_def unique_queue_def dequeue_def enqueue_def
      enqueue_with_priority_def rq_enqueue_def rq_dequeue_def pop_front_def contains_pid_def rq_list_def
      scheduler_new_def run_queues_new_def is_alive_def pcb_is_alive_def get_by_handle_def
      get_by_index_def process_handle_new_def get_reduction_budget_def SCHED_REDUCTION_BUDGET_def)

theorem vm_lifetime_budget_witness:
  "\<exists>g' v'. fold_o exec_vm_op [VmSpawn 8, VmStep 0] ((1, None), vm_new 0) = Ok (g', v')
     \<and> unat (ss_reductions_executed (sc_stats (vm_scheduler v'))) \<le> 2000"
proof -
  let ?p = "pid_new 1 0 0" and ?h = "process_handle_new 0 (pid_new 1 0 0)"
  obtain v1 where sp: "vm_spawn 8 (vm_new 0) = Ok (?p, v1)"
    and t1: "vm_process_table v1 = (process_table_new 0)\<lparr>tb_processes := [Some (pcb_new ?p 8)],
       tb_next_index := 1, tb_pid_counter := 2\<rparr>"
    and s1: "vm_scheduler v1 = increment_processes_spawned (enqueue ?h ?p
       (reset_reduction_budget ?p (scheduler_new 0)))"
    by (simp add: vm_spawn_def vm_new_def spawn_def next_pid_def process_table_new_def Let_def)
  obtain s where d: "dequeue (vm_scheduler v1) = (Some (?p, ?h), s)"
    by (simp add: s1 increment_processes_spawned_def dequeue_def enqueue_def enqueue_with_priority_def
        rq_enqueue_def contains_pid_def scheduler_new_def run_queues_new_def rq_dequeue_def
        pop_front_def reset_reduction_budget_def set_reduction_budget_def)
  have "get_reduction_budget ?p s = SCHED_REDUCTION_BUDGET"
    using dequeue_queue(3) [OF d, of ?p] by (simp add: s1 queue_frame enqueue_queue reset_reduction_budget_def)
  then have b: "\<not> is_budget_exhausted ?p (increment_context_switches s)"
    by (simp add: is_budget_exhausted_def queue_frame SCHED_REDUCTION_BUDGET_def)
  have al: "is_alive ?p (vm_process_table v1)" "get_by_handle ?h (vm_process_table v1) = Some (pcb_new ?p 8)"
    by (simp_all add: t1 is_alive_def pcb_is_alive_def get_by_handle_def get_by_index_def
        process_handle_new_def pcb_new_def)
  obtain v2 where st: "vm_step 0 (1, None) v1 = Ok ((1, None), v2)"
    using al b by (simp add: vm_step_def d on_scheduler_def run_instruction_def execute_instruction_def
        context_of_pcb_def init_from_pcb_def pcb_new_def step_with_def interpreter_out_def
        handle_result_def on_vm_table_def Let_def)
  have "fold_o exec_vm_op [VmSpawn 8, VmStep 0] ((1, None), vm_new 0) = Ok ((1, None), v2)"
    using sp st by simp
  with vm_lifetime_budget [OF this] show ?thesis by (auto simp: is_vm_spawn_def)
qed

text \<open>A new machine never reaches its first instruction, and a condition that counts its calls ends
  the loop on it.\<close>

theorem run_until_can_spin_witness:
  "(\<forall>r. run_until (\<lambda>u st. (1 \<le> unat (vs_instructions_executed st), u)) () id 0 (1, None) (vm_new 0)
     \<noteq> Some (Ok r))
   \<and> run_until (\<lambda>n st. (n = (3 :: nat), Suc n)) 0 id 0 (1, None) (vm_new 0) = Some (Ok ((1, None), vm_new 0))"
proof -
  let ?Q = "\<lambda>(n :: nat) (st :: vm_stats). (n = 3, Suc n)"
  have "fold_o exec_vm_op [] ((1, None), vm_new 0) = Ok ((1, None), vm_new 0)" by simp
  from run_until_can_spin [OF this, of 1 "\<lambda>u st. (1 \<le> unat (vs_instructions_executed st), u)" "()" id 0 _ ?Q 0]
  have t: "run_until (\<lambda>u st. (1 \<le> unat (vs_instructions_executed st), u)) () id 0 (1, None) (vm_new 0)
      \<noteq> Some (Ok r)"
    "sc_is_empty (vm_scheduler (vm_new 0)) \<Longrightarrow> run_until ?Q 0 id 0 (1, None) (vm_new 0) =
       (if \<exists>j. fst (?Q (asked ?Q (vm_stats (vm_new 0)) j 0) (vm_stats (vm_new 0)))
        then Some (Ok ((1, None), vm_new 0)) else None)" for r
    by simp_all
  have "fst (?Q (asked ?Q (vm_stats (vm_new 0)) 3 0) (vm_stats (vm_new 0)))"
    by (simp add: numeral_3_eq_3)
  then have "\<exists>j. fst (?Q (asked ?Q (vm_stats (vm_new 0)) j 0) (vm_stats (vm_new 0)))" by blast
  moreover have "sc_is_empty (vm_scheduler (vm_new 0))"
    by (simp add: vm_new_def sc_is_empty_def rq_is_empty_def rq_len_def scheduler_new_def run_queues_new_def)
  ultimately show ?thesis using t by simp
qed

theorem parked_for_ever_witness:
  "\<exists>v1. vm_step 0 (1, None) (one_process_vm (load_code [0x30071] (pcb_new (pid_new 1 0 0) 8)))
       = Ok ((1, None), v1)
     \<and> (case fold_o exec_vm_op [VmSend (pid_new 1 0 0) (pid_new 1 0 0) nil, VmStep 0] ((1, None), v1) of
          Ok (g', v') \<Rightarrow> pid_new 1 0 0 \<notin> re_pid ` set (rq_list (sc_run_queues (vm_scheduler v')))
        | _ \<Rightarrow> True)"
proof -
  let ?c = "load_code [0x30071] (pcb_new (pid_new 1 0 0) 8)" and ?p = "pid_new 1 0 0"
  have c: "pcb_pid ?c = ?p" "pcb_state ?c = Running" by (simp_all add: load_code_def pcb_new_def)
  have op: "decode_opcode 0x30071 = Valid (IRecv OpRecvWaitOp)"
    by (simp add: decode_opcode_Valid opcode_from_raw_def from_raw_arms_def)
  have d: "ec_receive_state (decrement_reductions n x) = ec_receive_state x" for n x
    by (simp add: decrement_reductions_def)
  obtain x r where ex: "execute_instruction (context_of_pcb ?c) (pcb_code ?c) = Ok (x, r)" "sr_result r = Wait"
    by (simp add: execute_instruction_def load_code_def context_of_pcb_def init_from_pcb_def op
        dispatch_def recv_wait_def step_with_def pcb_new_def d)
  note f = one_process_vm_facts [OF c]
  from f(2) obtain s where s: "dequeue (vm_scheduler (one_process_vm ?c)) = (Some (?p, process_handle_new 0 ?p), s)"
    by blast
  from parked_for_ever [OF f(1) s f(3-5) ex(1), of "[VmSend ?p ?p nil, VmStep 0]" 0 "(1, None)"] ex(2)
  show ?thesis by (auto simp: is_vm_spawn_def simp del: fold_o.simps)
qed

theorem closed_states_stay_witness:
  "\<exists>v1 c1. vm_step 0 (1, None) (one_process_vm ((load_code [121] (pcb_new (pid_new 1 0 0) 8))
         \<lparr>pcb_exception_state := Some \<lparr>es_reg = 0, es_handler = 0, es_stack_depth = 0, es_is_catch = False\<rparr>\<rparr>))
       = Ok ((1, None), v1)
     \<and> get_by_handle (process_handle_new 0 (pid_new 1 0 0)) (vm_process_table v1) = Some c1
     \<and> pcb_exception_state c1 \<noteq> None"
proof -
  let ?e = "\<lparr>es_reg = 0, es_handler = 0, es_stack_depth = 0, es_is_catch = False\<rparr>"
  let ?c = "(load_code [121] (pcb_new (pid_new 1 0 0) 8))\<lparr>pcb_exception_state := Some ?e\<rparr>"
  let ?p = "pid_new 1 0 0"
  have c: "pcb_pid ?c = ?p" "pcb_state ?c = Running" by (simp_all add: load_code_def pcb_new_def)
  have op: "decode_opcode 121 = Valid (IException OpTryEnd)"
    by (simp add: decode_opcode_Valid opcode_from_raw_def from_raw_arms_def)
  obtain x r where ex: "execute_instruction (context_of_pcb ?c) (pcb_code ?c) = Ok (x, r)"
    and r: "sr_result r \<noteq> Trap" "ec_exception_state x = None" "ec_receive_state x = None"
    by (simp add: execute_instruction_def load_code_def context_of_pcb_def init_from_pcb_def op
        dispatch_def step_with_def pcb_new_def decrement_reductions_def Let_def exec_context_new_def)
  note f = one_process_vm_facts [OF c]
  from f(2) obtain s where s: "dequeue (vm_scheduler (one_process_vm ?c)) = (Some (?p, process_handle_new 0 ?p), s)"
    by blast
  from closed_states_stay [OF s f(3-5) ex r, of 0 "(1, None)"] show ?thesis by auto
qed

end
