(* ===== verification/Boot.thy ===== *)
theory Boot
  imports Pcb Text_Util
begin

text \<open>
  Booting (\<^verbatim>\<open>crates/chimera_erlang_beam_vm/src/boot.rs\<close>): boot scripts and their text format,
  the boot configuration, the system process and the boot loader.

  Texts are ASCII: a character is one byte, so that byte offsets are indices.  A slice whose
  start is past its end panics.  The content of a boot file is the argument of the parser.
\<close>

section \<open>Applications and scripts\<close>

datatype application_type = Permanent | Transient | Temporary | LoadOnly

record application =
  ap_name :: string
  ap_version :: string
  ap_description :: string
  ap_modules :: "string list"
  ap_type :: application_type

definition application_new :: "string \<Rightarrow> string \<Rightarrow> application" where
  "application_new n v =
     \<lparr>ap_name = n, ap_version = v, ap_description = [], ap_modules = [], ap_type = Permanent\<rparr>"

definition with_modules :: "string list \<Rightarrow> application \<Rightarrow> application" where
  "with_modules ms a = a\<lparr>ap_modules := ms\<rparr>"

definition with_description :: "string \<Rightarrow> application \<Rightarrow> application" where
  "with_description d a = a\<lparr>ap_description := d\<rparr>"

datatype boot_entry =
    StartApplication string application_type
  | LoadModule string
  | RunCommand string string "beam_term list"
  | SetFlag string beam_term
  | RegisterName string pid

datatype boot_phase =
    Starting
  | LoadingModules
  | StartingApplications
  | RunningBoot
  | Ready
  | Failed

record boot_script =
  bs_entries :: "boot_entry list"
  bs_applications :: "string \<rightharpoonup> application"

definition boot_script_new :: boot_script where
  "boot_script_new = \<lparr>bs_entries = [], bs_applications = Map.empty\<rparr>"

definition add_entry :: "boot_entry \<Rightarrow> boot_script \<Rightarrow> boot_script" where
  "add_entry e s = s\<lparr>bs_entries := bs_entries s @ [e]\<rparr>"

definition add_application :: "application \<Rightarrow> boot_script \<Rightarrow> boot_script" where
  "add_application a s = s\<lparr>bs_applications := (bs_applications s)(ap_name a \<mapsto> a)\<rparr>"

definition get_application :: "string \<Rightarrow> boot_script \<Rightarrow> application option" where
  "get_application n s = bs_applications s n"

definition script_load_module :: "string \<Rightarrow> boot_script \<Rightarrow> boot_script" where
  "script_load_module m = add_entry (LoadModule m)"

definition script_start_application :: "string \<Rightarrow> application_type \<Rightarrow> boot_script \<Rightarrow> boot_script" where
  "script_start_application a ty = add_entry (StartApplication a ty)"

definition script_run :: "string \<Rightarrow> string \<Rightarrow> beam_term list \<Rightarrow> boot_script \<Rightarrow> boot_script" where
  "script_run m f args = add_entry (RunCommand m f args)"

section \<open>Configurations\<close>

record boot_config =
  bcf_boot_script :: boot_script
  bcf_system_apps :: "string list"
  bcf_initial_pcb_size :: nat
  bcf_boot_phase :: boot_phase

definition boot_config_new :: boot_config where
  "boot_config_new =
     \<lparr>bcf_boot_script = boot_script_new, bcf_system_apps = [], bcf_initial_pcb_size = 8192,
      bcf_boot_phase = Starting\<rparr>"

definition on_boot_script :: "(boot_script \<Rightarrow> boot_script) \<Rightarrow> boot_config \<Rightarrow> boot_config" where
  "on_boot_script f c = c\<lparr>bcf_boot_script := f (bcf_boot_script c)\<rparr>"

definition boot_minimal :: boot_config where
  "boot_minimal =
     (on_boot_script (script_load_module ''init'') boot_config_new)\<lparr>bcf_boot_phase := LoadingModules\<rparr>"

definition boot_standard :: boot_config where
  "boot_standard =
     (let c = boot_config_new\<lparr>bcf_system_apps := [''kernel'', ''stdlib''],
                bcf_initial_pcb_size := 16384, bcf_boot_phase := Starting\<rparr>;
          c = on_boot_script (script_load_module ''init'') c;
          c = on_boot_script (script_load_module ''otp_ring0'') c;
          c = on_boot_script (script_start_application ''kernel'' Permanent) c
      in on_boot_script (script_start_application ''stdlib'' Permanent) c)"

definition with_app :: "application \<Rightarrow> boot_config \<Rightarrow> boot_config" where
  "with_app a = on_boot_script (add_application a)"

definition with_kernel_app :: "boot_config \<Rightarrow> boot_config" where
  "with_kernel_app c =
     (let kernel = with_modules [''init'', ''kernel'', ''erts'', ''error_handler'', ''file_server'']
            (with_description ''ERTS kernel'' (application_new ''kernel'' ''4.0''));
          c = on_boot_script (add_application kernel) c
      in c\<lparr>bcf_system_apps := bcf_system_apps c @ [''kernel'']\<rparr>)"

definition with_stdlib_app :: "boot_config \<Rightarrow> boot_config" where
  "with_stdlib_app c =
     (let stdlib = with_modules [''supervisor'', ''gen_server'', ''gen_event'']
            (with_description ''ERTS standard library'' (application_new ''stdlib'' ''4.0''));
          c = on_boot_script (add_application stdlib) c
      in c\<lparr>bcf_system_apps := bcf_system_apps c @ [''stdlib'']\<rparr>)"

definition set_phase :: "boot_phase \<Rightarrow> boot_config \<Rightarrow> boot_config" where
  "set_phase ph c = c\<lparr>bcf_boot_phase := ph\<rparr>"

section \<open>The system process\<close>

datatype boot_event =
    EvLoadModule u32 string
  | EvStartApplication u32 string application_type
  | EvRunFunction u32 string string "beam_term list"
  | EvSetFlag u32 string beam_term
  | EvRegisterName u32 string pid

fun event_id :: "boot_event \<Rightarrow> u32" where
  "event_id (EvLoadModule i _) = i"
| "event_id (EvStartApplication i _ _) = i"
| "event_id (EvRunFunction i _ _ _) = i"
| "event_id (EvSetFlag i _ _) = i"
| "event_id (EvRegisterName i _ _) = i"

record system_process =
  sp_pid :: pid
  sp_pcb :: pcb
  sp_applications :: "string list"
  sp_boot_config :: boot_config

definition system_process_new :: "pid \<Rightarrow> boot_config \<Rightarrow> system_process" where
  "system_process_new p c =
     \<lparr>sp_pid = p, sp_pcb = pcb_new p (bcf_initial_pcb_size c), sp_applications = bcf_system_apps c,
      sp_boot_config = c\<rparr>"

fun event_of :: "u32 \<Rightarrow> boot_entry \<Rightarrow> boot_event" where
  "event_of i (LoadModule m) = EvLoadModule i m"
| "event_of i (StartApplication a ty) = EvStartApplication i a ty"
| "event_of i (RunCommand m f args) = EvRunFunction i m f args"
| "event_of i (SetFlag f v) = EvSetFlag i f v"
| "event_of i (RegisterName n p) = EvRegisterName i n p"

text \<open>The loop over the entries, numbered from 0: \<^verbatim>\<open>(0_u32..)\<close> wraps round after
  \<open>2 ^ 32\<close> entries.\<close>

fun boot_loop :: "u32 \<Rightarrow> boot_entry list \<Rightarrow> boot_event list \<Rightarrow> pcb \<Rightarrow> boot_event list \<times> pcb" where
  "boot_loop i [] events c = (events, c)"
| "boot_loop i (e # es) events c =
     boot_loop (i + 1) es (events @ [event_of i e])
       (case e of LoadModule _ \<Rightarrow> c\<lparr>pcb_state := Running\<rparr> | _ \<Rightarrow> c)"

definition start_boot_sequence ::
  "system_process \<Rightarrow> boot_event list vm_result \<times> system_process" where
  "start_boot_sequence s =
     (let c = (sp_pcb s)\<lparr>pcb_state := Running\<rparr>;
          (events, c) = boot_loop 0 (bs_entries (bcf_boot_script (sp_boot_config s))) [] c
      in (Inr events, s\<lparr>sp_pcb := c, sp_boot_config := set_phase Ready (sp_boot_config s)\<rparr>))"

definition boot_complete :: "system_process \<Rightarrow> system_process" where
  "boot_complete s = s\<lparr>sp_boot_config := set_phase Ready (sp_boot_config s)\<rparr>"

definition sp_phase :: "system_process \<Rightarrow> boot_phase" where
  "sp_phase s = bcf_boot_phase (sp_boot_config s)"

section \<open>The boot loader\<close>

record boot_loader =
  bl_config :: boot_config
  bl_system_process :: "system_process option"
  bl_modules_loaded :: "string list"

definition boot_loader_new :: "boot_config \<Rightarrow> boot_loader" where
  "boot_loader_new c = \<lparr>bl_config = c, bl_system_process = None, bl_modules_loaded = []\<rparr>"

definition loader_minimal :: boot_loader where
  "loader_minimal = boot_loader_new boot_minimal"

definition loader_standard :: boot_loader where
  "loader_standard = boot_loader_new boot_standard"

definition init_system_process :: "pid \<Rightarrow> boot_loader \<Rightarrow> unit vm_result \<times> boot_loader" where
  "init_system_process p l = (Inr (), l\<lparr>bl_system_process := Some (system_process_new p (bl_config l))\<rparr>)"

definition system_pid :: "boot_loader \<Rightarrow> pid option" where
  "system_pid l = map_option sp_pid (bl_system_process l)"

definition run_boot :: "boot_loader \<Rightarrow> boot_event list vm_result \<times> boot_loader" where
  "run_boot l =
     (case bl_system_process l of
        Some s \<Rightarrow> (let (r, s) = start_boot_sequence s in (r, l\<lparr>bl_system_process := Some s\<rparr>))
      | None \<Rightarrow> (Inl (Generic ''system process not initialized''), l))"

definition is_module_loaded :: "string \<Rightarrow> boot_loader \<Rightarrow> bool" where
  "is_module_loaded m l \<longleftrightarrow> list_ex (\<lambda>n. n = m) (bl_modules_loaded l)"

definition mark_module_loaded :: "string \<Rightarrow> boot_loader \<Rightarrow> boot_loader" where
  "mark_module_loaded m l =
     (if \<not> is_module_loaded m l then l\<lparr>bl_modules_loaded := bl_modules_loaded l @ [m]\<rparr> else l)"

section \<open>The text format\<close>

datatype boot_error = BootIoError string | BootParseError string nat

definition application_type_of :: "string \<Rightarrow> application_type option" where
  "application_type_of s =
     (if s = ''permanent'' then Some Permanent
      else if s = ''transient'' then Some Transient
      else if s = ''temporary'' then Some Temporary
      else if s = ''load'' then Some LoadOnly
      else None)"

text \<open>One \<^verbatim>\<open>if line.starts_with(..) { .. }\<close> block: it answers or falls through to the next.\<close>


definition parts_of :: "nat \<Rightarrow> (string \<Rightarrow> string list) \<Rightarrow> string \<Rightarrow> (string, string list) outcome" where
  "parts_of n f line = bind_o (slice n (length line - 1) line) (\<lambda>inner. Ok (f (trim inner)))"

definition parse_start :: "string list \<Rightarrow> (string, boot_entry) outcome option" where
  "parse_start parts =
     (if length parts \<ge> 2 then
        let app = trim (parts ! 0); type_str = trim (parts ! 1) in
        Some (case application_type_of type_str of
                Some ty \<Rightarrow> Ok (StartApplication app ty)
              | None \<Rightarrow> Err (''unknown application type: '' @ type_str))
      else None)"

definition parse_run :: "string list \<Rightarrow> (string, boot_entry) outcome option" where
  "parse_run parts =
     (if length parts \<ge> 2 then Some (Ok (RunCommand (trim (parts ! 0)) (trim (parts ! 1)) []))
      else None)"

definition parse_setflag :: "string list \<Rightarrow> (string, boot_entry) outcome option" where
  "parse_setflag parts =
     (if length parts \<ge> 2 then Some (Ok (SetFlag (trim (parts ! 0)) nil)) else None)"

definition parse_register :: "string list \<Rightarrow> (string, boot_entry) outcome option" where
  "parse_register parts =
     (if length parts \<ge> 2 then
        map_option (\<lambda>n. Ok (RegisterName (trim (parts ! 0)) (pid_new n 0 0))) (parse_u32 (trim (parts ! 1)))
      else None)"

definition boot_arm_of ::
  "string \<Rightarrow> (string \<Rightarrow> string list) \<Rightarrow> (string list \<Rightarrow> (string, boot_entry) outcome option) \<Rightarrow> string
     \<Rightarrow> (string, boot_entry option) outcome \<Rightarrow> (string, boot_entry option) outcome" where
  "boot_arm_of prefix f parse line rest =
     (if starts_with prefix line then
        bind_o (parts_of (length prefix) f line) (\<lambda>parts.
          case parse parts of
            Some r \<Rightarrow> bind_o r (\<lambda>e. Ok (Some e))
          | None \<Rightarrow> rest)
      else rest)"

definition parse_boot_line :: "string \<Rightarrow> (string, boot_entry option) outcome" where
  "parse_boot_line line0 =
     (let line = trim_end_matches (\<lambda>c. c = CHR ''.'') (trim line0) in
      if starts_with ''{load,'' line \<and> line \<noteq> [] \<and> last line = CHR ''}'' then
        bind_o (slice 6 (length line - 1) line) (\<lambda>inner. Ok (Some (LoadModule (trim inner))))
      else
        boot_arm_of ''{start,'' (split_at_char (CHR '','')) parse_start line
        (boot_arm_of ''{run,'' (splitn 3 (CHR '','')) parse_run line
        (boot_arm_of ''{setflag,'' (splitn 2 (CHR '','')) parse_setflag line
        (boot_arm_of ''{register,'' (splitn 2 (CHR '','')) parse_register line
        (Ok None)))))"

fun parse_boot_lines ::
  "nat \<Rightarrow> string list \<Rightarrow> boot_script \<Rightarrow> (boot_error, boot_script) outcome" where
  "parse_boot_lines line_no [] script = Ok script"
| "parse_boot_lines line_no (l # ls) script =
     (let line = trim l in
      if line = [] \<or> starts_with ''%'' line then parse_boot_lines (line_no + 1) ls script
      else
        (case parse_boot_line line of
           Ok (Some e) \<Rightarrow> parse_boot_lines (line_no + 1) ls (add_entry e script)
         | Ok None \<Rightarrow> parse_boot_lines (line_no + 1) ls script
         | Err m \<Rightarrow> Err (BootParseError m (line_no + 1))
         | Panic p \<Rightarrow> Panic p
         | OutOfFuel \<Rightarrow> OutOfFuel))"

definition parse_boot_content :: "string \<Rightarrow> (boot_error, boot_script) outcome" where
  "parse_boot_content content = parse_boot_lines 0 (content_lines content) boot_script_new"

definition parse_boot_file :: "string + string \<Rightarrow> (boot_error, boot_script) outcome" where
  "parse_boot_file content =
     (case content of Inl e \<Rightarrow> Err (BootIoError e) | Inr s \<Rightarrow> parse_boot_content s)"

section \<open>Writing scripts\<close>

fun type_name :: "application_type \<Rightarrow> string" where
  "type_name Permanent = ''permanent''"
| "type_name Transient = ''transient''"
| "type_name Temporary = ''temporary''"
| "type_name LoadOnly = ''load''"

fun entry_body :: "boot_entry \<Rightarrow> string" where
  "entry_body (LoadModule m) = ''{load,'' @ m"
| "entry_body (StartApplication a ty) = ''{start,'' @ a @ '','' @ type_name ty"
| "entry_body (RunCommand m f args) = ''{run,'' @ m @ '','' @ f @ '',[]''"
| "entry_body (SetFlag f v) = ''{setflag,'' @ f @ '',nil''"
| "entry_body (RegisterName n p) = ''{register,'' @ n @ '','' @ decimal (unat (pid_id p))"

definition show_entry :: "boot_entry \<Rightarrow> string" where
  "show_entry e = entry_body e @ ''}.''"

text \<open>The entries the format can carry: names without separators, no arguments, nil as the value
  of a flag, and pids of serial and creation zero.\<close>

definition plain_name :: "string \<Rightarrow> bool" where
  "plain_name s \<longleftrightarrow> (\<forall>c\<in>set s. \<not> is_space c \<and> c \<noteq> CHR '',''  \<and> c \<noteq> CHR ''}'')"

fun writable :: "boot_entry \<Rightarrow> bool" where
  "writable (LoadModule m) = plain_name m"
| "writable (StartApplication a ty) = plain_name a"
| "writable (RunCommand m f args) = (plain_name m \<and> plain_name f \<and> args = [])"
| "writable (SetFlag f v) = (plain_name f \<and> v = nil)"
| "writable (RegisterName n p) = (plain_name n \<and> p = pid_new (pid_id p) 0 0)"

section \<open>Parsing lemmas\<close>

lemma trim_end_matches_id: "s = [] \<or> \<not> P (last s) \<Longrightarrow> trim_end_matches P s = s"
proof -
  assume "s = [] \<or> \<not> P (last s)"
  then have "dropWhile P (rev s) = rev s" by (cases s rule: rev_cases) auto
  then show ?thesis by (simp add: trim_end_matches_def)
qed

lemma trim_id: "s = [] \<or> \<not> is_space (hd s) \<and> \<not> is_space (last s) \<Longrightarrow> trim s = s"
proof -
  assume "s = [] \<or> \<not> is_space (hd s) \<and> \<not> is_space (last s)"
  then have "dropWhile is_space s = s" by (cases s) auto
  then show ?thesis
    using \<open>s = [] \<or> _\<close> by (auto simp: trim_def intro!: trim_end_matches_id)
qed

lemma plain_trim: "(\<forall>c\<in>set s. \<not> is_space c) \<Longrightarrow> trim s = s"
  by (rule trim_id) (cases s, auto)

lemma not_space [simp]:
  "\<not> is_space (CHR ''{'')" "\<not> is_space (CHR ''}'')" "\<not> is_space (CHR ''.'')" "\<not> is_space (CHR '','')"
  by (simp_all add: is_space_def)

lemma split_at_char_nonempty [simp]: "split_at_char d s \<noteq> []"
  by (induction s) (auto split: list.split)

lemma type_name_parses [simp]: "application_type_of (type_name ty) = Some ty"
  by (cases ty) (simp_all add: application_type_of_def)

lemma type_name_plain: "\<forall>c\<in>set (type_name ty). \<not> is_space c \<and> c \<noteq> CHR '','' \<and> c \<noteq> CHR ''}''"
  by (cases ty) (auto simp: is_space_def)

text \<open>What the parser sees of a written line.\<close>

definition stripped :: "string \<Rightarrow> string" where
  "stripped l = trim_end_matches (\<lambda>c. c = CHR ''.'') (trim l)"

lemma stripped_entry: "stripped (show_entry e) = entry_body e @ ''}''"
proof -
  have "hd (show_entry e) = CHR ''{''" "last (show_entry e) = CHR ''.''" "show_entry e \<noteq> []"
    by (cases e; simp add: show_entry_def)+
  then have "trim (show_entry e) = show_entry e" by (intro trim_id) simp
  then have "stripped (show_entry e) = trim_end_matches (\<lambda>c. c = CHR ''.'') ((entry_body e @ ''}'') @ ''.'')"
    by (simp add: stripped_def show_entry_def)
  also have "\<dots> = trim_end_matches (\<lambda>c. c = CHR ''.'') (entry_body e @ ''}'')"
    by (simp add: trim_end_matches_def)
  also have "\<dots> = entry_body e @ ''}''" by (rule trim_end_matches_id) simp
  finally show ?thesis .
qed

lemma parts_of_body:
  "trim inner = inner \<Longrightarrow> parts_of (length p) f (p @ inner @ ''}'') = Ok (f inner)"
  by (simp add: parts_of_def slice_def)

lemma arm_taken:
  assumes "line = p @ inner @ ''}''" and "trim inner = inner" and "parse (f inner) = Some (Ok e)"
  shows "boot_arm_of p f parse line rest = Ok (Some e)"
  using assms by (simp add: boot_arm_of_def parts_of_body)

lemma arm_skipped: "\<not> starts_with p line \<Longrightarrow> boot_arm_of p f parse line rest = rest"
  by (simp add: boot_arm_of_def)

lemma inner_trim:
  assumes "a = [] \<or> \<not> is_space (hd a)" and "b = [] \<or> \<not> is_space (last b)"
  shows "trim (a @ '','' @ b) = a @ '','' @ b"
  using assms by (intro trim_id) (cases a; cases b rule: rev_cases; auto)

lemma plain_nameD:
  "plain_name s \<Longrightarrow> trim s = s" "plain_name s \<Longrightarrow> CHR '','' \<notin> set s"
  "plain_name s \<Longrightarrow> s = [] \<or> \<not> is_space (hd s)" "plain_name s \<Longrightarrow> s = [] \<or> \<not> is_space (last s)"
  by (auto simp: plain_name_def intro!: plain_trim dest: hd_in_set last_in_set)

lemma parse_entry:
  assumes "writable e"
  shows "parse_boot_line (show_entry e) = Ok (Some e)"
proof -
  have line: "parse_boot_line (show_entry e) =
      (let line = entry_body e @ ''}'' in
       if starts_with ''{load,'' line then
         bind_o (slice 6 (length line - 1) line) (\<lambda>inner. Ok (Some (LoadModule (trim inner))))
       else
        boot_arm_of ''{start,'' (split_at_char (CHR '','')) parse_start line
        (boot_arm_of ''{run,'' (splitn 3 (CHR '','')) parse_run line
        (boot_arm_of ''{setflag,'' (splitn 2 (CHR '','')) parse_setflag line
        (boot_arm_of ''{register,'' (splitn 2 (CHR '','')) parse_register line
        (Ok None)))))"
    using stripped_entry [of e] by (simp add: parse_boot_line_def stripped_def)
  show ?thesis
  proof (cases e)
    case (LoadModule m)
    then show ?thesis
      unfolding line using assms plain_nameD(1) [of m] by (simp add: starts_with_def slice_def)
  next
    case (StartApplication a ty)
    note p = plain_nameD [of a] assms
    have t: "CHR '','' \<notin> set (type_name ty)" using type_name_plain by blast
    have "boot_arm_of ''{start,'' (split_at_char (CHR '','')) parse_start (entry_body e @ ''}'') rest
        = Ok (Some e)" for rest
    proof (rule arm_taken [where inner = "a @ '','' @ type_name ty"])
      show "trim (a @ '','' @ type_name ty) = a @ '','' @ type_name ty"
        by (rule inner_trim) (use p StartApplication type_name_plain [of ty] in \<open>auto dest: last_in_set\<close>)
      show "parse_start (split_at_char (CHR '','') (a @ '','' @ type_name ty)) = Some (Ok e)"
        using p StartApplication t plain_trim [of "type_name ty"] type_name_plain [of ty]
        by (simp add: split_at_char_append split_at_char_id [OF t] parse_start_def Let_def)
    qed (simp add: StartApplication)
    then show ?thesis unfolding line by (simp add: StartApplication starts_with_def)
  next
    case (RunCommand m f args)
    note p = plain_nameD [of m] plain_nameD [of f] assms
    have "boot_arm_of ''{run,'' (splitn 3 (CHR '','')) parse_run (entry_body e @ ''}'') rest
        = Ok (Some e)" for rest
    proof (rule arm_taken [where inner = "m @ '','' @ f @ '',[]''"])
      show "trim (m @ '','' @ f @ '',[]'') = m @ '','' @ f @ '',[]''"
        by (rule inner_trim) (use p RunCommand in \<open>auto simp: is_space_def\<close>)
      have "splitn 3 (CHR '','') (m @ '','' @ f @ '',[]'') = [m, f, ''[]'']"
        using p RunCommand splitn_append [of "CHR '',''" m 1 "f @ '',[]''"]
          splitn_append [of "CHR '',''" f 0 "''[]''"] by (simp add: numeral_3_eq_3)
      then show "parse_run (splitn 3 (CHR '','') (m @ '','' @ f @ '',[]'')) = Some (Ok e)"
        using p RunCommand by (simp add: parse_run_def)
    qed (simp add: RunCommand)
    then show ?thesis unfolding line
      by (simp add: RunCommand starts_with_def boot_arm_of_def [of "''{start,''"])
  next
    case (SetFlag f v)
    note p = plain_nameD [of f] assms
    have "boot_arm_of ''{setflag,'' (splitn 2 (CHR '','')) parse_setflag (entry_body e @ ''}'') rest
        = Ok (Some e)" for rest
    proof (rule arm_taken [where inner = "f @ '','' @ ''nil''"])
      show "trim (f @ '','' @ ''nil'') = f @ '','' @ ''nil''"
        by (rule inner_trim) (use p SetFlag in \<open>auto simp: is_space_def\<close>)
      show "parse_setflag (splitn 2 (CHR '','') (f @ '','' @ ''nil'')) = Some (Ok e)"
        using p SetFlag splitn_append [of "CHR '',''" f 0 "''nil''"]
        by (simp add: numeral_2_eq_2 parse_setflag_def)
    qed (simp add: SetFlag)
    then show ?thesis unfolding line
      by (simp add: SetFlag starts_with_def boot_arm_of_def [of "''{start,''"] boot_arm_of_def [of "''{run,''"])
  next
    case (RegisterName n q)
    note p = plain_nameD [of n] assms
    let ?d = "decimal (unat (pid_id q))"
    have d: "trim ?d = ?d" "CHR '','' \<notin> set ?d" "?d = [] \<or> \<not> is_space (last ?d)"
      using decimal_chars [of "unat (pid_id q)"] by (auto intro!: plain_trim)
    have "boot_arm_of ''{register,'' (splitn 2 (CHR '','')) parse_register (entry_body e @ ''}'') rest
        = Ok (Some e)" for rest
    proof (rule arm_taken [where inner = "n @ '','' @ ?d"])
      show "trim (n @ '','' @ ?d) = n @ '','' @ ?d"
        by (rule inner_trim) (use p RegisterName d in auto)
      show "parse_register (splitn 2 (CHR '','') (n @ '','' @ ?d)) = Some (Ok e)"
        using p RegisterName d splitn_append [of "CHR '',''" n 0 ?d]
        by (simp add: numeral_2_eq_2 parse_register_def parse_int_decimal)
    qed (simp add: RegisterName)
    then show ?thesis unfolding line
      by (simp add: RegisterName starts_with_def boot_arm_of_def [of "''{start,''"]
          boot_arm_of_def [of "''{run,''"] boot_arm_of_def [of "''{setflag,''"])
  qed
qed

lemma show_entry_line:
  assumes "writable e"
  shows "CHR 0x0A \<notin> set (show_entry e)" and "trim (show_entry e) = show_entry e"
    and "show_entry e \<noteq> []" and "\<not> starts_with ''%'' (show_entry e)"
proof -
  have n: "CHR 0x0A \<notin> set s" if "\<forall>c\<in>set s. \<not> is_space c" for s
    using that by (auto simp: is_space_def)
  have "plain_name s \<Longrightarrow> CHR 0x0A \<notin> set s" "CHR 0x0A \<notin> set (type_name ty)"
    "CHR 0x0A \<notin> set (decimal k)" for s ty k
    using type_name_plain [of ty] decimal_chars [of k] by (auto simp: plain_name_def intro!: n)
  then show "CHR 0x0A \<notin> set (show_entry e)"
    using assms by (cases e) (simp_all add: show_entry_def)
  show "trim (show_entry e) = show_entry e" by (rule trim_id) (cases e; simp add: show_entry_def)
  show "show_entry e \<noteq> []" "\<not> starts_with ''%'' (show_entry e)"
    by (cases e; simp add: show_entry_def starts_with_def)+
qed

lemma content_lines_append:
  assumes "CHR 0x0A \<notin> set l"
  shows "content_lines (l @ CHR 0x0A # rest) = l # content_lines rest"
  using assms by (simp add: content_lines_def split_at_char_append Let_def)

lemma parse_entries:
  "list_all writable es \<Longrightarrow>
   parse_boot_lines k (content_lines (concat (map (\<lambda>e. show_entry e @ [CHR 0x0A]) es))) s
     = Ok (s\<lparr>bs_entries := bs_entries s @ es\<rparr>)"
proof (induction es arbitrary: k s)
  case Nil
  then show ?case by (simp add: content_lines_def)
next
  case (Cons e es)
  then show ?case
    using show_entry_line [of e] parse_entry [of e]
    by (simp add: content_lines_append Let_def add_entry_def)
qed

lemma starts_with_split: "starts_with p line \<longleftrightarrow> (\<exists>t. line = p @ t)"
  by (auto simp: starts_with_def) (metis append_take_drop_id)

lemma arm_never_panics:
  assumes "\<And>parts r. parse parts = Some r \<Longrightarrow> r \<noteq> Panic x" and "rest \<noteq> Panic x" and "line \<noteq> p"
  shows "boot_arm_of p f parse line rest \<noteq> Panic x"
proof (cases "starts_with p line")
  case True
  then obtain t where t: "line = p @ t" by (auto simp: starts_with_split)
  then have "t \<noteq> []" using assms(3) by auto
  then obtain parts where parts: "parts_of (length p) f line = Ok parts"
    using t by (cases t) (auto simp: parts_of_def slice_def)
  show ?thesis
  proof (cases "parse parts")
    case None
    then show ?thesis using assms(2) True parts by (simp add: boot_arm_of_def)
  next
    case (Some r)
    then show ?thesis using assms(1) [OF Some] True parts by (cases r) (simp_all add: boot_arm_of_def)
  qed
qed (use assms(2) in \<open>simp add: boot_arm_of_def\<close>)

lemma parse_parts_plain:
  "parse_start parts = Some r \<Longrightarrow> r \<noteq> Panic x" "parse_run parts = Some r \<Longrightarrow> r \<noteq> Panic x"
  "parse_setflag parts = Some r \<Longrightarrow> r \<noteq> Panic x" "parse_register parts = Some r \<Longrightarrow> r \<noteq> Panic x"
  by (auto simp: parse_start_def parse_run_def parse_setflag_def parse_register_def Let_def
      split: if_splits option.splits)

section \<open>Properties\<close>

text \<open>C36. The boot file format round-trips: the text written for any list of entries the format can
  carry parses to a script with exactly these entries, in order, and no applications.\<close>

theorem boot_script_roundtrip:
  assumes "list_all writable es"
  shows "parse_boot_content (concat (map (\<lambda>e. show_entry e @ [CHR 0x0A]) es))
    = Ok \<lparr>bs_entries = es, bs_applications = Map.empty\<rparr>"
  using parse_entries [OF assms, of 0 boot_script_new]
  by (simp add: parse_boot_content_def boot_script_new_def)

theorem boot_script_roundtrip_witness:
  "parse_boot_content (''{load,init}.'' @ [CHR 0x0A] @ ''{start,kernel,permanent}.'' @ [CHR 0x0A])
     = Ok \<lparr>bs_entries = [LoadModule ''init'', StartApplication ''kernel'' Permanent],
            bs_applications = Map.empty\<rparr>"
  using boot_script_roundtrip [of "[LoadModule ''init'', StartApplication ''kernel'' Permanent]"]
  by (simp add: plain_name_def is_space_def show_entry_def)

text \<open>A line of a boot file panics the parser exactly when, without spaces and final dots, it is
  nothing but the opening of an entry other than a load.\<close>

theorem boot_line_panics_iff:
  "parse_boot_line l = Panic x \<longleftrightarrow> x = IndexOutOfBounds \<and>
     trim_end_matches (\<lambda>c. c = CHR ''.'') (trim l)
       \<in> {''{start,'', ''{run,'', ''{setflag,'', ''{register,''}"
proof -
  let ?line = "trim_end_matches (\<lambda>c. c = CHR ''.'') (trim l)"
  have load: "slice 6 (length t - 1) t \<noteq> Panic x"
    if "starts_with ''{load,'' t" "last t = CHR ''}''" for t :: string
    using that by (auto simp: starts_with_split slice_def Suc_le_eq split: if_splits)
  have "parse_boot_line l \<noteq> Panic x" if "?line \<notin> {''{start,'', ''{run,'', ''{setflag,'', ''{register,''}"
  proof (cases "starts_with ''{load,'' ?line \<and> ?line \<noteq> [] \<and> last ?line = CHR ''}''")
    case True
    then show ?thesis
      using load [of ?line] by (cases "slice 6 (length ?line - 1) ?line :: (string, string) outcome")
        (auto simp: parse_boot_line_def Let_def slice_def split: if_splits)
  next
    case False
    have "parse_boot_line l = boot_arm_of ''{start,'' (split_at_char (CHR '','')) parse_start ?line
        (boot_arm_of ''{run,'' (splitn 3 (CHR '','')) parse_run ?line
        (boot_arm_of ''{setflag,'' (splitn 2 (CHR '','')) parse_setflag ?line
        (boot_arm_of ''{register,'' (splitn 2 (CHR '','')) parse_register ?line (Ok None))))"
      unfolding parse_boot_line_def Let_def by (simp only: False if_False)
    then show ?thesis
      by (simp only:) (intro arm_never_panics parse_parts_plain; use that in simp)
  qed
  moreover have "parse_boot_line l = Panic IndexOutOfBounds"
    if "?line \<in> {''{start,'', ''{run,'', ''{setflag,'', ''{register,''}"
    using that
    by (elim insertE emptyE; simp add: parse_boot_line_def Let_def starts_with_def boot_arm_of_def
        parts_of_def slice_def)
  ultimately show ?thesis by (metis outcome.inject(3))
qed

text \<open>Booting only reports: the sequence answers one event for each entry, in order and
  numbered from zero, and declares the system ready, but loads no module, starts no application
  and registers no name, and a second run answers the same.\<close>

theorem boot_only_reports:
  assumes "init_system_process p l = (r0, l0)" and "run_boot l0 = (r, l1)"
  shows "r = Inr (map (\<lambda>(i, e). event_of (of_nat i) e) (enumerate 0 (bs_entries (bcf_boot_script (bl_config l)))))
    \<and> bl_modules_loaded l1 = bl_modules_loaded l \<and> bl_config l1 = bl_config l
    \<and> map_option sp_phase (bl_system_process l1) = Some Ready
    \<and> map_option sp_pcb (bl_system_process l1) = Some (pcb_new p (bcf_initial_pcb_size (bl_config l)))
    \<and> run_boot l1 = (r, l1)"
proof -
  have loop: "boot_loop (of_nat k) es evs c =
      (evs @ map (\<lambda>(i, e). event_of (of_nat i) e) (enumerate k es), c)"
    if "pcb_state c = Running" for k es evs and c :: pcb
    using that
  proof (induction es arbitrary: k evs c)
    case (Cons e es)
    have "(case e of LoadModule _ \<Rightarrow> c\<lparr>pcb_state := Running\<rparr> | _ \<Rightarrow> c) = c"
      using Cons.prems by (cases e; cases c) simp_all
    then show ?case using Cons.IH [OF Cons.prems, of "Suc k" "evs @ [event_of (of_nat k) e]"]
      by (simp add: add.commute)
  qed simp
  let ?s = "system_process_new p (bl_config l)"
  let ?es = "bs_entries (bcf_boot_script (bl_config l))"
  let ?events = "map (\<lambda>(i, e). event_of (of_nat i) e) (enumerate 0 ?es)"
  have st: "(pcb_new p n)\<lparr>pcb_state := Running\<rparr> = pcb_new p n" "pcb_state (pcb_new p n) = Running" for n
    by (simp_all add: pcb_new_def)
  have boot: "start_boot_sequence s = (Inr ?events, s\<lparr>sp_boot_config := set_phase Ready (sp_boot_config s)\<rparr>)"
    if "sp_pcb s = pcb_new p n" "bcf_boot_script (sp_boot_config s) = bcf_boot_script (bl_config l)" for s n
    using that loop [OF st(2), of 0 ?es "[]" n]
    by (cases s) (simp add: start_boot_sequence_def st)
  have l0: "l0 = l\<lparr>bl_system_process := Some ?s\<rparr>"
    using assms(1) by (simp add: init_system_process_def)
  let ?s1 = "?s\<lparr>sp_boot_config := set_phase Ready (bl_config l)\<rparr>"
  have r: "r = Inr ?events" "l1 = l\<lparr>bl_system_process := Some ?s1\<rparr>"
    using assms(2) boot [of ?s "bcf_initial_pcb_size (bl_config l)"]
    by (simp_all add: run_boot_def l0 system_process_new_def)
  have again: "start_boot_sequence ?s1 = (Inr ?events, ?s1)"
    using boot [of ?s1 "bcf_initial_pcb_size (bl_config l)"]
    by (simp add: system_process_new_def set_phase_def)
  show ?thesis
    using again by (simp add: r run_boot_def sp_phase_def set_phase_def system_process_new_def)
qed

theorem boot_only_reports_witness:
  "fst (run_boot (snd (init_system_process (pid_new 1 0 0) loader_minimal))) = Inr [EvLoadModule 0 ''init'']"
  using boot_only_reports [OF prod.collapse [symmetric] prod.collapse [symmetric], of "pid_new 1 0 0" loader_minimal]
  by (simp add: loader_minimal_def boot_loader_new_def boot_minimal_def on_boot_script_def
      script_load_module_def add_entry_def boot_config_new_def boot_script_new_def)


end
