(* ===== verification/Nif.thy ===== *)
theory Nif
  imports Heap Text_Util
begin

text \<open>
  Native functions (\<^verbatim>\<open>crates/chimera_erlang_beam_nif/src/lib.rs\<close>): the environment of a call, the
  registry of libraries, and the built-in functions on tuples and lists.

  The raw pointer to the heap of the process is the heap it points to.  The pair of \<^verbatim>\<open>argc\<close> and
  \<^verbatim>\<open>argv\<close> is the list of the arguments.  A callback is the function it runs; \<open>None\<close> is a call
  that never returns, which \<^verbatim>\<open>list_to_tuple\<close> has for a cyclic list.
\<close>

section \<open>Errors, terms and environments\<close>

datatype nif_error =
    NifBadArg
  | NifNotFound
  | NifSystemLimit
  | NifLoadFailed
  | NifException beam_term

type_synonym nif_result = "nif_error + beam_term"

fun nif_error_to_term :: "nif_error \<Rightarrow> beam_term" where
  "nif_error_to_term NifBadArg = from_atom 6"
| "nif_error_to_term NifNotFound = from_atom 3"
| "nif_error_to_term NifSystemLimit = from_atom 3"
| "nif_error_to_term NifLoadFailed = from_atom 5"
| "nif_error_to_term (NifException t) = t"

datatype nif_term = NifTerm u64

fun nif_term_to_term :: "nif_term \<Rightarrow> beam_term" where
  "nif_term_to_term (NifTerm w) = Term w"

definition nif_term_from_term :: "beam_term \<Rightarrow> nif_term" where
  "nif_term_from_term t = NifTerm (term_raw t)"

fun nif_term_raw :: "nif_term \<Rightarrow> u64" where
  "nif_term_raw (NifTerm w) = w"

record nif_env =
  env_pid :: u32
  current_module :: "u32 option"
  current_function :: "u32 option"
  call_depth :: u32
  env_heap :: "process_heap option"

definition nif_env_new :: "u32 \<Rightarrow> nif_env" where
  "nif_env_new p =
     \<lparr>env_pid = p, current_module = None, current_function = None, call_depth = 0,
      env_heap = None\<rparr>"

definition nif_env_with_heap :: "u32 \<Rightarrow> process_heap \<Rightarrow> nif_env" where
  "nif_env_with_heap p h =
     \<lparr>env_pid = p, current_module = None, current_function = None, call_depth = 0,
      env_heap = Some h\<rparr>"

text \<open>What is done through \<^verbatim>\<open>heap_mut\<close>: a bad argument without a heap, and otherwise a
  change of the heap.\<close>

definition with_env_heap ::
  "(process_heap \<Rightarrow> nif_result \<times> process_heap) \<Rightarrow> nif_env \<Rightarrow> nif_result \<times> nif_env" where
  "with_env_heap f env =
     (case env_heap env of
        None \<Rightarrow> (Inl NifBadArg, env)
      | Some h \<Rightarrow> (let (r, h') = f h in (r, env\<lparr>env_heap := Some h'\<rparr>)))"

section \<open>Libraries and the registry\<close>

type_synonym nif_callback = "nif_env \<Rightarrow> beam_term list \<Rightarrow> (nif_result \<times> nif_env) option"

record nif_entry =
  entry_name :: string
  entry_arity :: u8
  entry_callback :: nif_callback

record nif_library =
  library_name :: string
  library_entries :: "string \<Rightarrow> nif_entry option"

definition nif_library_new :: "string \<Rightarrow> nif_library" where
  "nif_library_new n = \<lparr>library_name = n, library_entries = (\<lambda>_. None)\<rparr>"

definition nif_key :: "string \<Rightarrow> u8 \<Rightarrow> string" where
  "nif_key n a = n @ ''_'' @ decimal (unat a)"

definition nif_add :: "string \<Rightarrow> u8 \<Rightarrow> nif_callback \<Rightarrow> nif_library \<Rightarrow> nif_library" where
  "nif_add n a f l =
     l\<lparr>library_entries := (library_entries l)
         (nif_key n a \<mapsto> \<lparr>entry_name = n, entry_arity = a, entry_callback = f\<rparr>)\<rparr>"

definition nif_get :: "string \<Rightarrow> u8 \<Rightarrow> nif_library \<Rightarrow> nif_entry option" where
  "nif_get n a l = library_entries l (nif_key n a)"

text \<open>The registry: the libraries by their name, once it is initialised.\<close>

type_synonym nif_registry = "(string \<Rightarrow> nif_library option) option"

definition nif_init :: "nif_registry \<Rightarrow> nif_registry" where
  "nif_init r = Some (\<lambda>_. None)"

definition load_nif :: "string \<Rightarrow> nif_error + unit" where
  "load_nif path = Inl NifLoadFailed"

definition call_nif :: "nif_registry \<Rightarrow> string \<Rightarrow> string \<Rightarrow> u8 \<Rightarrow> nif_callback" where
  "call_nif r m f a env args =
     (case r of
        None \<Rightarrow> Some (Inl NifNotFound, env)
      | Some libs \<Rightarrow>
          (case libs m of
             None \<Rightarrow> Some (Inl NifNotFound, env)
           | Some lib \<Rightarrow>
               (case nif_get f a lib of
                  None \<Rightarrow> Some (Inl NifNotFound, env)
                | Some entry \<Rightarrow> entry_callback entry env args)))"

section \<open>The built-in functions\<close>

text \<open>The elements of the tuple at \<open>ptr\<close>, read with bounds checks.\<close>

definition nif_arity :: "u64 \<Rightarrow> u32" where
  "nif_arity header =
     (let sz = drop_bit 8 header AND 0xFFFFFF in ucast (if sz = 0 then 0 else sz - 1))"

fun read_elements :: "process_heap \<Rightarrow> nat \<Rightarrow> nat \<Rightarrow> beam_term list option" where
  "read_elements h p 0 = Some []"
| "read_elements h p (Suc n) =
     (case get_word h p of
        None \<Rightarrow> None
      | Some w \<Rightarrow> map_option (\<lambda>es. Term w # es) (read_elements h (Suc p) n))"

definition set_element_heap ::
  "i64 \<Rightarrow> beam_term \<Rightarrow> beam_term \<Rightarrow> process_heap \<Rightarrow> nif_result \<times> process_heap" where
  "set_element_heap idx tuple val h =
     (let tuple_ptr = unat (to_tuple tuple) in
      case get_word h tuple_ptr of
        None \<Rightarrow> (Inl NifBadArg, h)
      | Some header \<Rightarrow>
          (let arity = nif_arity header; replace_idx = (ucast idx :: u32) in
           if replace_idx = 0 \<or> replace_idx > arity then (Inl NifBadArg, h)
           else
             (case read_elements h (tuple_ptr + 1) (unat arity) of
                None \<Rightarrow> (Inl NifBadArg, h)
              | Some elements \<Rightarrow>
                  (case make_tuple (elements[unat (replace_idx - 1) := val]) h of
                     (None, h') \<Rightarrow> (Inl NifSystemLimit, h')
                   | (Some pos, h') \<Rightarrow> (Inr (from_tuple (of_nat pos)), h')))))"

definition SetElementNif :: nif_callback where
  "SetElementNif env args =
     Some (if length args \<noteq> 3 then (Inl NifBadArg, env)
           else
             (let index = args ! 0; tuple = args ! 1; val = args ! 2 in
              if \<not> is_small index then (Inl NifBadArg, env)
              else if tag tuple \<noteq> TagTuple then (Inl NifBadArg, env)
              else
                (let idx = to_small index in
                 if sint idx < 1 then (Inl NifBadArg, env)
                 else with_env_heap (set_element_heap idx tuple val) env)))"

text \<open>The list of the elements, from the last one to the first.\<close>

fun cons_up :: "beam_term list \<Rightarrow> beam_term \<Rightarrow> process_heap \<Rightarrow> nif_result \<times> process_heap" where
  "cons_up [] list_term h = (Inr list_term, h)"
| "cons_up (e # rev_rest) list_term h =
     (case make_cons e list_term h of
        (Some pos, h') \<Rightarrow> cons_up rev_rest (from_cons (of_nat pos)) h'
      | (None, h') \<Rightarrow> (Inl NifSystemLimit, h'))"

definition tuple_to_list_heap :: "beam_term \<Rightarrow> process_heap \<Rightarrow> nif_result \<times> process_heap" where
  "tuple_to_list_heap tuple h =
     (let tuple_ptr = unat (to_tuple tuple) in
      case get_word h tuple_ptr of
        None \<Rightarrow> (Inl NifBadArg, h)
      | Some header \<Rightarrow>
          (case read_elements h (tuple_ptr + 1) (unat (nif_arity header)) of
             None \<Rightarrow> (Inl NifBadArg, h)
           | Some elements \<Rightarrow> cons_up (rev elements) nil h))"

definition TupleToListNif :: nif_callback where
  "TupleToListNif env args =
     Some (if length args \<noteq> 1 then (Inl NifBadArg, env)
           else if tag (args ! 0) \<noteq> TagTuple then (Inl NifBadArg, env)
           else with_env_heap (tuple_to_list_heap (args ! 0)) env)"

text \<open>The two passes over a list: the first counts the cells and checks them, the second
  collects the heads.\<close>

partial_function (option) count_cells ::
  "process_heap \<Rightarrow> nat \<Rightarrow> beam_term \<Rightarrow> (nif_error + nat) option" where
  "count_cells h n current =
     (if is_nil current then Some (Inr n)
      else if \<not> is_cons current then Some (Inl NifBadArg)
      else
        (case get_word h (unat (to_cons current) + 2) of
           None \<Rightarrow> Some (Inl NifBadArg)
         | Some tl_word \<Rightarrow> count_cells h (n + 1) (Term tl_word)))"

partial_function (option) collect_cells ::
  "process_heap \<Rightarrow> beam_term list \<Rightarrow> beam_term \<Rightarrow> (nif_error + beam_term list) option" where
  "collect_cells h elements current =
     (if is_nil current then Some (Inr elements)
      else
        (case get_word h (unat (to_cons current) + 1) of
           None \<Rightarrow> Some (Inl NifBadArg)
         | Some hd_word \<Rightarrow>
             (case get_word h (unat (to_cons current) + 2) of
                None \<Rightarrow> Some (Inl NifBadArg)
              | Some tl_word \<Rightarrow> collect_cells h (elements @ [Term hd_word]) (Term tl_word))))"

definition list_to_tuple_heap ::
  "beam_term \<Rightarrow> process_heap \<Rightarrow> (nif_result \<times> process_heap) option" where
  "list_to_tuple_heap l h =
     (if is_nil l then
        Some (case make_tuple [] h of
                (None, h') \<Rightarrow> (Inl NifSystemLimit, h')
              | (Some pos, h') \<Rightarrow> (Inr (from_tuple (of_nat pos)), h'))
      else
        (case count_cells h 0 l of
           None \<Rightarrow> None
         | Some (Inl e) \<Rightarrow> Some (Inl e, h)
         | Some (Inr n) \<Rightarrow>
             (case collect_cells h [] l of
                None \<Rightarrow> None
              | Some (Inl e) \<Rightarrow> Some (Inl e, h)
              | Some (Inr elements) \<Rightarrow>
                  Some (case make_tuple elements h of
                          (None, h') \<Rightarrow> (Inl NifSystemLimit, h')
                        | (Some pos, h') \<Rightarrow> (Inr (from_tuple (of_nat pos)), h')))))"

definition ListToTupleNif :: nif_callback where
  "ListToTupleNif env args =
     (if length args \<noteq> 1 then Some (Inl NifBadArg, env)
      else if \<not> is_cons (args ! 0) \<and> \<not> is_nil (args ! 0) then Some (Inl NifBadArg, env)
      else
        (case env_heap env of
           None \<Rightarrow> Some (Inl NifBadArg, env)
         | Some h \<Rightarrow>
             map_option (\<lambda>(r, h'). (r, env\<lparr>env_heap := Some h'\<rparr>))
               (list_to_tuple_heap (args ! 0) h)))"

definition builtin_library :: nif_library where
  "builtin_library =
     nif_add ''list_to_tuple'' 1 ListToTupleNif
       (nif_add ''tuple_to_list'' 1 TupleToListNif
         (nif_add ''setelement'' 3 SetElementNif (nif_library_new ''erlang'')))"

definition init_builtin_nifs :: "nif_registry \<Rightarrow> nif_registry" where
  "init_builtin_nifs r =
     (case r of
        Some libs \<Rightarrow> Some (libs(''erlang'' \<mapsto> builtin_library))
      | None \<Rightarrow> Some ((\<lambda>_. None)(''erlang'' \<mapsto> builtin_library)))"

end
