(* ===== verification/Nif_Laws.thy ===== *)
theory Nif_Laws
  imports Nif
begin

text \<open>
  What the built-in native functions promise: \<open>tuple_at h t es\<close> and \<open>list_at h t es\<close> say that a
  term is the tuple or the proper list of the given elements on the used part of a heap.  The
  functions are described by these two predicates, the calls of \<^verbatim>\<open>list_to_tuple\<close> that return
  are characterised, and the registry is exact about which functions it knows.
\<close>

section \<open>Tuples and lists on a heap\<close>

definition tuple_at :: "process_heap \<Rightarrow> beam_term \<Rightarrow> beam_term list \<Rightarrow> bool" where
  "tuple_at h t es \<longleftrightarrow>
     (let p = unat (to_tuple t) in
      tag t = TagTuple \<and> p + length es < hp h \<and> length es < 2 ^ 24 - 1
      \<and> unat (nif_arity (word_or_0 p h)) = length es
      \<and> (\<forall>i<length es. read_tuple_element p (of_nat i) h = es ! i))"

fun list_at :: "process_heap \<Rightarrow> beam_term \<Rightarrow> beam_term list \<Rightarrow> bool" where
  "list_at h t [] \<longleftrightarrow> t = nil"
| "list_at h t (e # es) \<longleftrightarrow>
     is_cons t \<and> unat (to_cons t) + 2 < hp h \<and> read_cons_head (unat (to_cons t)) h = e
     \<and> list_at h (read_cons_tail (unat (to_cons t)) h) es"

text \<open>A heap that keeps the used part of another one.\<close>

definition extends :: "process_heap \<Rightarrow> process_heap \<Rightarrow> bool" where
  "extends h h' \<longleftrightarrow> heap_ok h' \<and> hend h' = hend h \<and> hp h \<le> hp h'
     \<and> (\<forall>j<hp h. word_or_0 j h' = word_or_0 j h)"

lemma extends_trans: "extends h1 h2 \<Longrightarrow> extends h2 h3 \<Longrightarrow> extends h1 h3"
  by (auto simp: extends_def)

lemma built_extends: "built h ws n p h' \<Longrightarrow> extends h h'"
  by (simp add: built_def extends_def)

lemma list_at_extends: "extends h h' \<Longrightarrow> list_at h t es \<Longrightarrow> list_at h' t es"
  by (induction h t es rule: list_at.induct)
    (auto simp: extends_def read_cons_head_def read_cons_tail_def)

lemma tuple_at_extends: "extends h h' \<Longrightarrow> tuple_at h t es \<Longrightarrow> tuple_at h' t es"
  by (auto simp: extends_def tuple_at_def Let_def read_tuple_element_def)

lemma get_word_used: "heap_ok h \<Longrightarrow> j < hp h \<Longrightarrow> get_word h j = Some (word_or_0 j h)"
  by (simp add: get_word_def word_or_0_def heap_ok_def active_buffer_def)

lemma unat_ptr: "n < 2 ^ 61 \<Longrightarrow> unat (to_cons (from_cons (of_nat n))) = n"
  "n < 2 ^ 61 \<Longrightarrow> unat (to_tuple (from_tuple (of_nat n))) = n"
  by (simp_all add: to_from_ptr_id unat_of_nat_u64)

lemma cons_not_nil: "is_cons t \<Longrightarrow> t \<noteq> nil"
  by (auto simp: is_cons_def nil_def)

lemma is_nil_iff: "is_nil t \<longleftrightarrow> t = nil"
  using beam_term.expand [of t nil] by (auto simp: is_nil_def)

lemma nif_arity_tuple_arity:
  "unat (tuple_arity p h) < 2 ^ 24 \<Longrightarrow> nif_arity (word_or_0 p h) = tuple_arity p h"
  by (auto simp: nif_arity_def tuple_arity_def Let_def unsigned_ucast_eq unsigned_minus_1_eq_mask
      mask_eq_exp_minus_1 take_bit_minus_one_eq_mask split: if_splits)

lemma make_tuple_at:
  assumes "heap_ok h" and "hend h < 2 ^ 61" and "length es < 2 ^ 24 - 1"
    and "make_tuple es h = (Some p, h')"
  shows "tuple_at h' (from_tuple (of_nat p)) es" and "extends h h'"
proof -
  have b: "built h (tuple_words es) (1 + length es) p h'"
    using make_tuple_built [OF assms(4,1)] assms(3) by simp
  then show "extends h h'" by (rule built_extends)
  have "p < 2 ^ 61" using b assms(1,2) by (simp add: built_def heap_ok_def)
  moreover have "nif_arity (word_or_0 p h') = tuple_arity p h'"
    by (rule nif_arity_tuple_arity) (use tuple_arity_built [OF b assms(3)] assms(3) in simp)
  ultimately show "tuple_at h' (from_tuple (of_nat p)) es"
    using make_tuple_spec [OF assms(1,3)] tuple_arity_built [OF b assms(3)] assms(3,4)
    by (auto simp: tuple_at_def unat_ptr)
qed

lemma make_cons_at:
  assumes "heap_ok h" and "hend h < 2 ^ 61" and "list_at h t es"
    and "make_cons e t h = (Some p, h')"
  shows "list_at h' (from_cons (of_nat p)) (e # es)" and "extends h h'"
proof -
  have b: "built h (cons_words e t) 3 p h'" by (rule make_cons_built [OF assms(4,1)])
  then show x: "extends h h'" by (rule built_extends)
  have "p < 2 ^ 61" using b assms(1,2) by (simp add: built_def heap_ok_def)
  then show "list_at h' (from_cons (of_nat p)) (e # es)"
    using b built_nth [OF b, of 1] built_nth [OF b, of 2] list_at_extends [OF x assms(3)]
    by (simp add: unat_ptr is_cons_def read_cons_head_def read_cons_tail_def cons_words_def built_def)
qed

lemma read_elements_eq:
  "heap_ok h \<Longrightarrow> p + n \<le> hp h \<Longrightarrow>
   read_elements h p n = Some (map (\<lambda>i. Term (word_or_0 (p + i) h)) [0..<n])"
proof (induction n arbitrary: p)
  case (Suc n)
  have "[0..<Suc n] = 0 # map Suc [0..<n]" by (simp add: upt_conv_Cons map_Suc_upt)
  with Suc show ?case by (simp add: get_word_used comp_def)
qed simp

lemma read_tuple_at:
  assumes "heap_ok h" and "tuple_at h t es"
  shows "get_word h (unat (to_tuple t)) = Some (word_or_0 (unat (to_tuple t)) h)"
    and "unat (nif_arity (word_or_0 (unat (to_tuple t)) h)) = length es"
    and "read_elements h (unat (to_tuple t) + 1) (length es) = Some es"
proof -
  show "get_word h (unat (to_tuple t)) = Some (word_or_0 (unat (to_tuple t)) h)"
    by (rule get_word_used [OF assms(1)]) (use assms(2) in \<open>auto simp: tuple_at_def Let_def\<close>)
  show "unat (nif_arity (word_or_0 (unat (to_tuple t)) h)) = length es"
    using assms(2) by (simp add: tuple_at_def Let_def)
  have "map (\<lambda>i. Term (word_or_0 (unat (to_tuple t) + 1 + i) h)) [0..<length es] = es"
    by (rule nth_equalityI) (use assms(2) in \<open>auto simp: tuple_at_def Let_def read_tuple_element_def\<close>)
  then show "read_elements h (unat (to_tuple t) + 1) (length es) = Some es"
    using read_elements_eq [OF assms(1), of "unat (to_tuple t) + 1" "length es"] assms(2)
    by (simp add: tuple_at_def Let_def)
qed

section \<open>The functions on tuples and lists\<close>

lemma make_tuple_cases:
  assumes "heap_ok h" and "hend h < 2 ^ 61" and "length es < 2 ^ 24 - 1"
  obtains "make_tuple es h = (None, h)" and "\<not> can_alloc (1 + length es) h"
  | p h' where "make_tuple es h = (Some p, h')" and "can_alloc (1 + length es) h"
      and "tuple_at h' (from_tuple (of_nat p)) es" and "extends h h'"
proof (cases "make_tuple es h")
  case (Pair r h')
  have n: "fst (make_tuple es h) = None \<longleftrightarrow> \<not> can_alloc (1 + length es) h"
    by (rule make_None_iff(3)) (use assms(3) in simp)
  show thesis
  proof (cases r)
    case None
    then show thesis using that(1) n Pair make_None_heap(2) [of es h h'] by simp
  next
    case (Some p)
    then show thesis using that(2) n Pair make_tuple_at [OF assms, of p h'] by simp
  qed
qed

lemma cons_up_spec:
  assumes "heap_ok h" and "hend h < 2 ^ 61" and "list_at h t es" and "can_alloc (3 * length rs) h"
  shows "\<exists>t' h'. cons_up rs t h = (Inr t', h') \<and> extends h h' \<and> list_at h' t' (rev rs @ es)
    \<and> hp h' = hp h + 3 * length rs"
  using assms
proof (induction rs arbitrary: t h es)
  case Nil
  then show ?case by (simp add: extends_def)
next
  case (Cons r rs)
  have "can_alloc 3 h" using Cons.prems(4) by (simp add: can_alloc_def)
  then obtain p h1 where m: "make_cons r t h = (Some p, h1)"
    using make_None_iff(1) [of r t h] by (cases "make_cons r t h") auto
  note at = make_cons_at [OF Cons.prems(1-3) m]
  have h1: "hp h1 = hp h + 3" "hend h1 = hend h" "heap_ok h1"
    using make_cons_built [OF m Cons.prems(1)] by (simp_all add: built_def)
  have "can_alloc (3 * length rs) h1" using Cons.prems(4) h1 by (simp add: can_alloc_def)
  from Cons.IH [OF h1(3) _ at(1) this] Cons.prems(2) h1
  obtain t' h' where "cons_up rs (from_cons (of_nat p)) h1 = (Inr t', h')" "extends h1 h'"
    "list_at h' t' (rev rs @ r # es)" "hp h' = hp h1 + 3 * length rs" by auto
  with m at(2) h1 show ?case by (auto intro: extends_trans)
qed

lemma count_cells_list_at:
  "heap_ok h \<Longrightarrow> list_at h t es \<Longrightarrow> count_cells h n t = Some (Inr (n + length es))"
proof (induction h t es arbitrary: n rule: list_at.induct)
  case (2 h t e es)
  then have "get_word h (unat (to_cons t) + 2) = Some (word_or_0 (unat (to_cons t) + 2) h)"
    by (intro get_word_used) auto
  with 2 show ?case
    by (subst count_cells.simps) (simp add: is_nil_iff cons_not_nil read_cons_tail_def)
qed (subst count_cells.simps, simp add: is_nil_iff)

lemma collect_cells_list_at:
  "heap_ok h \<Longrightarrow> list_at h t es \<Longrightarrow> collect_cells h acc t = Some (Inr (acc @ es))"
proof (induction h t es arbitrary: acc rule: list_at.induct)
  case (2 h t e es)
  then have "get_word h (unat (to_cons t) + k) = Some (word_or_0 (unat (to_cons t) + k) h)"
    if "k \<le> 2" for k
    using that by (intro get_word_used) auto
  from this [of 1] this [of 2] 2 show ?case
    by (subst collect_cells.simps)
      (simp add: is_nil_iff cons_not_nil read_cons_tail_def read_cons_head_def)
qed (subst collect_cells.simps, simp add: is_nil_iff)

text \<open>\<^verbatim>\<open>list_to_tuple\<close> of a proper list is one construction of a tuple, whether it is empty or
  not.\<close>

lemma list_to_tuple_proper:
  assumes "heap_ok h" and "list_at h l es"
  shows "list_to_tuple_heap l h =
    Some (case make_tuple es h of
            (None, h') \<Rightarrow> (Inl NifSystemLimit, h')
          | (Some pos, h') \<Rightarrow> (Inr (from_tuple (of_nat pos)), h'))"
proof (cases es)
  case Nil
  then show ?thesis using assms(2) by (simp add: list_to_tuple_heap_def is_nil_iff)
next
  case (Cons e es')
  then have "\<not> is_nil l" using assms(2) cons_not_nil by (auto simp: is_nil_iff)
  then show ?thesis
    using count_cells_list_at [OF assms] collect_cells_list_at [OF assms, of "[]"]
    by (simp add: list_to_tuple_heap_def)
qed

lemma list_at_shape: "list_at h l es \<Longrightarrow> is_cons l \<or> is_nil l"
  by (cases es) (auto simp: is_nil_iff)

lemma list_to_tuple_nif:
  assumes "heap_ok h" and "hend h < 2 ^ 61" and "list_at h l es" and "length es < 2 ^ 24 - 1"
    and "env_heap env = Some h"
  shows "if can_alloc (1 + length es) h
    then \<exists>t' h2. ListToTupleNif env [l] = Some (Inr t', env\<lparr>env_heap := Some h2\<rparr>)
      \<and> tuple_at h2 t' es \<and> list_at h2 l es \<and> extends h h2
    else ListToTupleNif env [l] = Some (Inl NifSystemLimit, env)"
proof -
  have env: "env\<lparr>env_heap := Some h\<rparr> = env" using assms(5) by (cases env) simp
  have run: "ListToTupleNif env [l]
      = map_option (\<lambda>(r, h'). (r, env\<lparr>env_heap := Some h'\<rparr>)) (list_to_tuple_heap l h)"
    using list_at_shape [OF assms(3)] assms(5) by (auto simp: ListToTupleNif_def)
  show ?thesis
    using list_to_tuple_proper [OF assms(1,3)] run env list_at_extends [OF _ assms(3)]
    by (cases rule: make_tuple_cases [OF assms(1,2,4)]) auto
qed

text \<open>Cells that do not all fit: the list is given up when the heap is full, what is used stays.\<close>

lemma cons_up_no_room:
  assumes "heap_ok h" and "\<not> can_alloc (3 * length rs) h"
  shows "\<exists>h'. cons_up rs t h = (Inl NifSystemLimit, h') \<and> extends h h'"
  using assms
proof (induction rs arbitrary: t h)
  case Nil
  then show ?case by (simp add: can_alloc_def heap_ok_def)
next
  case (Cons r rs)
  show ?case
  proof (cases "make_cons r t h")
    case (Pair x h1)
    show ?thesis
    proof (cases x)
      case None
      with Pair make_None_heap(1) [of r t h h1] Cons.prems(1) show ?thesis
        by (simp add: extends_def)
    next
      case (Some p)
      with Pair have m: "make_cons r t h = (Some p, h1)" by simp
      from make_cons_built [OF m Cons.prems(1)] have b: "built h (cons_words r t) 3 p h1" .
      then have h1: "hp h1 = hp h + 3" "hend h1 = hend h" "heap_ok h1" "extends h h1"
        using built_extends by (auto simp: built_def)
      have "\<not> can_alloc (3 * length rs) h1" using Cons.prems(2) h1 by (simp add: can_alloc_def)
      from Cons.IH [OF h1(3) this] obtain h'
        where "cons_up rs (from_cons (of_nat p)) h1 = (Inl NifSystemLimit, h')" "extends h1 h'" by blast
      with m extends_trans [OF h1(4)] show ?thesis by auto
    qed
  qed
qed

section \<open>When a list is walked to its end\<close>

text \<open>The terms reached by following the tails of cells.\<close>

definition next_cell :: "process_heap \<Rightarrow> beam_term \<Rightarrow> beam_term option" where
  "next_cell h t =
     (if is_cons t then map_option Term (get_word h (unat (to_cons t) + 2)) else None)"

fun walk :: "process_heap \<Rightarrow> nat \<Rightarrow> beam_term \<Rightarrow> beam_term option" where
  "walk h 0 t = Some t"
| "walk h (Suc k) t = (case next_cell h t of None \<Rightarrow> None | Some u \<Rightarrow> walk h k u)"

definition cyclic :: "process_heap \<Rightarrow> beam_term \<Rightarrow> bool" where
  "cyclic h t \<longleftrightarrow> (\<exists>i j u. i < j \<and> walk h i t = Some u \<and> walk h j t = Some u)"

lemma walk_add: "walk h (i + k) t = (case walk h i t of None \<Rightarrow> None | Some u \<Rightarrow> walk h k u)"
  by (induction i arbitrary: t) (auto split: option.split)

lemma count_cells_step:
  "count_cells h n t =
     (case next_cell h t of
        Some u \<Rightarrow> count_cells h (n + 1) u
      | None \<Rightarrow> Some (if is_nil t then Inr n else Inl NifBadArg))"
proof (cases "is_cons t")
  case True
  then have "\<not> is_nil t" using cons_not_nil by (auto simp: is_nil_iff)
  with True show ?thesis
    by (subst count_cells.simps)
      (cases "get_word h (unat (to_cons t) + 2)"; simp add: next_cell_def)
next
  case False
  then show ?thesis by (subst count_cells.simps) (simp add: next_cell_def)
qed

lemma count_cells_returns: "walk h k t = None \<Longrightarrow> count_cells h n t \<noteq> None"
proof (induction k arbitrary: t n)
  case (Suc k)
  then show ?case by (subst count_cells_step) (auto split: option.splits)
qed simp

lemma walk_count_cells:
  assumes "count_cells h n t = Some r"
  shows "\<exists>k. walk h k t = None"
proof (induction rule: count_cells.raw_induct [OF _ assms, rotated])
  case (1 loop h n t r)
  show ?case
  proof (cases "next_cell h t")
    case None
    then have "walk h 1 t = None" by simp
    then show ?thesis by blast
  next
    case (Some u)
    then obtain w where w: "is_cons t" "get_word h (unat (to_cons t) + 2) = Some w" "u = Term w"
      by (auto simp: next_cell_def split: if_splits)
    then have "\<not> is_nil t" using cons_not_nil by (auto simp: is_nil_iff)
    with w 1(2) have "loop h (n + 1) u = Some r" by simp
    from 1(1) [OF this] obtain k where "walk h k u = None" by blast
    with Some have "walk h (Suc k) t = None" by simp
    then show ?thesis by blast
  qed
qed

lemma walk_cell:
  assumes "walk h (Suc k) t \<noteq> None"
  shows "\<exists>u. walk h k t = Some u \<and> is_cons u \<and> unat (to_cons u) < length (active_buffer h)"
proof -
  from assms walk_add [of h k 1 t] obtain u where "walk h k t = Some u" "next_cell h u \<noteq> None"
    by (auto split: option.splits)
  then show ?thesis by (auto simp: next_cell_def get_word_def split: if_splits)
qed

lemma cons_term_eq: "is_cons u \<Longrightarrow> from_cons (to_cons u) = u"
  using term_eq_parts [of "term_raw u"] by (simp add: is_cons_def to_cons_def from_cons_def)

lemma endless_walk_cyclic:
  assumes "\<And>k. walk h k t \<noteq> None"
  shows "cyclic h t"
proof -
  define f where "f k = the (walk h k t)" for k
  have f: "walk h k t = Some (f k)" for k using assms [of k] by (simp add: f_def)
  have "f k \<in> (\<lambda>n. from_cons (of_nat n)) ` {..<length (active_buffer h)}" for k
  proof -
    have "is_cons (f k)" "unat (to_cons (f k)) < length (active_buffer h)"
      using walk_cell [OF assms, of k] f [of k] by auto
    moreover from this(1) have "f k = from_cons (of_nat (unat (to_cons (f k))))"
      by (simp add: cons_term_eq)
    ultimately show ?thesis by blast
  qed
  then have "range f \<subseteq> (\<lambda>n. from_cons (of_nat n)) ` {..<length (active_buffer h)}"
    by (rule image_subsetI)
  then have "finite (range f)" by (rule finite_subset) (intro finite_imageI finite_lessThan)
  then have "\<not> inj f" using finite_imageD [of f UNIV] infinite_UNIV_nat by blast
  then obtain a b where "f a = f b" "a \<noteq> b" by (auto simp: inj_def)
  then obtain i j where "f i = f j" "i < j" by (metis linorder_neqE_nat)
  with f [of i] f [of j] show ?thesis unfolding cyclic_def by auto
qed

lemma cyclic_walk_endless:
  assumes "cyclic h t"
  shows "walk h k t \<noteq> None"
proof
  assume n: "walk h k t = None"
  obtain i d u where u: "walk h i t = Some u" "walk h (i + Suc d) t = Some u"
    using assms unfolding cyclic_def by (metis less_imp_Suc_add add_Suc_right)
  have "walk h (i + m * Suc d) t = Some u" for m
  proof (induction m)
    case (Suc m)
    have "walk h (Suc d) u = Some u" using walk_add [of h i "Suc d" t] u by simp
    moreover have "i + Suc m * Suc d = (i + m * Suc d) + Suc d" by simp
    ultimately show ?case
      using walk_add [of h "i + m * Suc d" "Suc d" t] Suc by (simp only: option.case)
  qed (use u in simp)
  from this [of k] have "walk h (k + (i + k * d)) t = Some u" by (simp add: algebra_simps)
  with walk_add [of h k "i + k * d" t] n show False by simp
qed

lemma count_cells_returns_iff: "count_cells h n t = None \<longleftrightarrow> cyclic h t"
  using endless_walk_cyclic [of h t] cyclic_walk_endless [of h t] count_cells_returns [of h _ t n]
    walk_count_cells [of h n t] by (metis option.exhaust)

text \<open>The second pass follows the same tails, so it returns when the first one has found the
  end.\<close>

lemma collect_after_count:
  assumes "count_cells h n t = Some (Inr m)"
  shows "collect_cells h acc t \<noteq> None"
proof -
  have "r = Inr m \<Longrightarrow> collect_cells h acc t \<noteq> None" if "count_cells h n t = Some r" for r
  proof (induction arbitrary: acc rule: count_cells.raw_induct [OF _ that, rotated])
    case (1 loop h n t r)
    show ?case
    proof (cases "is_nil t")
      case True
      then show ?thesis by (subst collect_cells.simps) simp
    next
      case False
      with 1(2,3) obtain w where w: "get_word h (unat (to_cons t) + 2) = Some w"
        and l: "loop h (n + 1) (Term w) = Some r"
        by (auto split: if_splits option.splits)
      from 1(1) [OF l 1(3)] False w show ?thesis
        by (subst collect_cells.simps) (auto split: option.split)
    qed
  qed
  with assms show ?thesis by blast
qed

lemma list_to_tuple_heap_returns: "list_to_tuple_heap l h = None \<longleftrightarrow> cyclic h l"
proof (cases "is_nil l")
  case True
  then have "walk h 1 l = None" by (auto simp: next_cell_def is_nil_iff is_cons_def nil_def)
  with cyclic_walk_endless [of h l 1] True show ?thesis by (auto simp: list_to_tuple_heap_def)
next
  case False
  show ?thesis
  proof (cases "count_cells h 0 l")
    case None
    with False count_cells_returns_iff [of h 0 l] show ?thesis by (simp add: list_to_tuple_heap_def)
  next
    case (Some r)
    then have "\<not> cyclic h l" using count_cells_returns_iff [of h 0 l] by simp
    moreover have "list_to_tuple_heap l h \<noteq> None"
    proof (cases r)
      case (Inr m)
      with collect_after_count [of h 0 l m "[]"] Some False show ?thesis
        by (auto simp: list_to_tuple_heap_def split: sum.split)
    qed (use Some False in \<open>simp add: list_to_tuple_heap_def\<close>)
    ultimately show ?thesis by simp
  qed
qed

section \<open>Properties\<close>

lemma set_element_heap_spec:
  fixes x :: i64
  assumes "heap_ok h" and "hend h < 2 ^ 61" and "tuple_at h t es"
  defines "i \<equiv> unat (ucast x :: u32)"
  shows "set_element_heap x t v h =
     (if 1 \<le> i \<and> i \<le> length es
      then (case make_tuple (es[i - 1 := v]) h of
              (None, h') \<Rightarrow> (Inl NifSystemLimit, h')
            | (Some pos, h') \<Rightarrow> (Inr (from_tuple (of_nat pos)), h'))
      else (Inl NifBadArg, h))"
proof -
  note r = read_tuple_at [OF assms(1,3)]
  have z: "(ucast x :: u32) = 0 \<longleftrightarrow> i = 0" by (simp add: i_def unat_eq_0)
  have le: "(ucast x :: u32) > nif_arity (word_or_0 (unat (to_tuple t)) h) \<longleftrightarrow> length es < i"
    by (simp add: i_def word_less_nat_alt r(2))
  have "unat ((ucast x :: u32) - 1) = i - 1" if "i \<noteq> 0"
    using unat_minus_one [of "ucast x :: u32"] z that by (simp add: i_def)
  with r z le show ?thesis by (auto simp: set_element_heap_def Let_def)
qed

text \<open>C24. \<^verbatim>\<open>setelement\<close> of a small positive index and a tuple on the heap of the call: with \<open>i\<close> the
  index modulo \<open>2 ^ 32\<close>, it builds a new tuple in which element \<open>i\<close> is replaced and leaves the old
  tuple and the rest of the used heap alone when \<open>i\<close> is an index of the tuple and the heap has room,
  and otherwise answers a bad argument or the system limit without any effect.  So an index above
  \<open>2 ^ 32\<close> is taken for a small one.\<close>

theorem setelement_modulo:
  fixes x :: i64
  assumes "env_heap env = Some h" and "heap_ok h" and "hend h < 2 ^ 61"
    and "tuple_at h t es" and "is_small_int x" and "1 \<le> sint x"
  shows "let i = unat (ucast x :: u32); r = SetElementNif env [from_small_unchecked x, t, v] in
    if \<not> (1 \<le> i \<and> i \<le> length es) then r = Some (Inl NifBadArg, env)
    else if \<not> can_alloc (1 + length es) h then r = Some (Inl NifSystemLimit, env)
    else (\<exists>t' h'. r = Some (Inr t', env\<lparr>env_heap := Some h'\<rparr>)
           \<and> tuple_at h' t' (es[i - 1 := v]) \<and> tuple_at h' t es \<and> extends h h')"
proof -
  let ?i = "unat (ucast x :: u32)"
  have env: "env\<lparr>env_heap := Some h\<rparr> = env" using assms(1) by (cases env) simp
  have len: "length (es[?i - 1 := v]) < 2 ^ 24 - 1"
    using assms(4) by (simp add: tuple_at_def Let_def)
  have t: "tag t = TagTuple" using assms(4) by (simp add: tuple_at_def Let_def)
  have nif: "SetElementNif env [from_small_unchecked x, t, v]
      = Some (with_env_heap (set_element_heap x t v) env)"
    using t assms(5,6)
    by (simp add: SetElementNif_def from_small_unchecked_def is_small_def)
  show ?thesis
    using set_element_heap_spec [OF assms(2-4), of x v] tuple_at_extends [OF _ assms(4)]
    by (cases rule: make_tuple_cases [OF assms(2,3) len])
      (auto simp: nif with_env_heap_def assms(1) env Let_def)
qed

text \<open>A heap of sixteen words with the tuple of two atoms on it.\<close>

definition small_tuple_heap :: process_heap where
  "small_tuple_heap =
     snd (make_tuple [from_atom 3, from_atom 5] (heap_new (heap_config_default\<lparr>initial_size := 16\<rparr>)))"

lemma small_tuple_heap:
  "heap_ok small_tuple_heap" "hend small_tuple_heap = 16" "hp small_tuple_heap = 3"
  "tuple_at small_tuple_heap (from_tuple 0) [from_atom 3, from_atom 5]"
proof -
  let ?h = "heap_new (heap_config_default\<lparr>initial_size := 16\<rparr>)"
  have h: "heap_ok ?h" "hend ?h = 16" "hp ?h = 0" by (rule heap_new_ok) (simp_all add: heap_new_def)
  have "fst (make_tuple [from_atom 3, from_atom 5] ?h) \<noteq> None"
    using make_None_iff(3) [of "[from_atom 3, from_atom 5]" ?h] h by (simp add: can_alloc_def)
  then obtain p where m: "make_tuple [from_atom 3, from_atom 5] ?h = (Some p, small_tuple_heap)"
    by (cases "make_tuple [from_atom 3, from_atom 5] ?h") (auto simp: small_tuple_heap_def)
  have b: "built ?h (tuple_words [from_atom 3, from_atom 5]) 3 p small_tuple_heap"
    using make_tuple_built [OF m h(1)] by (simp add: numeral_3_eq_3)
  then show "heap_ok small_tuple_heap" "hend small_tuple_heap = 16" "hp small_tuple_heap = 3"
    using h by (simp_all add: built_def)
  show "tuple_at small_tuple_heap (from_tuple 0) [from_atom 3, from_atom 5]"
    using make_tuple_at(1) [OF h(1) _ _ m] b h by (simp add: built_def)
qed

lemma nif_env_with_heap_simps [simp]:
  "env_heap (nif_env_with_heap p h) = Some h"
  "(nif_env_with_heap p h)\<lparr>env_heap := Some h'\<rparr> = nif_env_with_heap p h'"
  by (simp_all add: nif_env_with_heap_def)

theorem setelement_modulo_witness:
  "\<exists>t' h'. SetElementNif (nif_env_with_heap 1 small_tuple_heap)
       [from_small_unchecked (2 ^ 32 + 1), from_tuple 0, from_atom 7]
     = Some (Inr t', nif_env_with_heap 1 h')
     \<and> tuple_at h' t' [from_atom 7, from_atom 5]"
proof -
  have "can_alloc (Suc (Suc (Suc 0))) small_tuple_heap" by (simp add: can_alloc_def small_tuple_heap)
  then show ?thesis
    using setelement_modulo [of "nif_env_with_heap 1 small_tuple_heap" small_tuple_heap
        "from_tuple 0" "[from_atom 3, from_atom 5]" "2 ^ 32 + 1" "from_atom 7"] small_tuple_heap
    by (auto simp: is_small_int_iff Let_def)
qed

text \<open>C23. \<^verbatim>\<open>tuple_to_list\<close> and \<^verbatim>\<open>list_to_tuple\<close> on any tuple and any proper list of a heap.  When
  there is room for three words for each element, the first makes a proper list of the elements of
  the tuple, from which the second gets a tuple of these elements back, or the system limit when there
  is no room for it; with less room the first answers the system limit.  The second makes a tuple of
  the elements of any proper list of fewer than 2^24 - 1 elements when there is room for one word more
  than it has elements, and otherwise answers the system limit without effect.  The used heap always
  stays as it was.\<close>

theorem tuple_list_roundtrip:
  assumes "heap_ok h" and "hend h < 2 ^ 61" and "env_heap env = Some h"
  shows "(tuple_at h t es \<longrightarrow>
      (if can_alloc (3 * length es) h
       then \<exists>l h1. TupleToListNif env [t] = Some (Inr l, env\<lparr>env_heap := Some h1\<rparr>)
         \<and> list_at h1 l es \<and> extends h h1
         \<and> (if can_alloc (1 + length es) h1
             then \<exists>t' h2. ListToTupleNif (env\<lparr>env_heap := Some h1\<rparr>) [l]
                     = Some (Inr t', env\<lparr>env_heap := Some h2\<rparr>)
                   \<and> tuple_at h2 t' es \<and> tuple_at h2 t es \<and> list_at h2 l es
             else ListToTupleNif (env\<lparr>env_heap := Some h1\<rparr>) [l]
                     = Some (Inl NifSystemLimit, env\<lparr>env_heap := Some h1\<rparr>))
       else \<exists>h1. TupleToListNif env [t] = Some (Inl NifSystemLimit, env\<lparr>env_heap := Some h1\<rparr>)
         \<and> extends h h1))
    \<and> (list_at h l es \<and> length es < 2 ^ 24 - 1 \<longrightarrow>
      (if can_alloc (1 + length es) h
       then \<exists>t' h2. ListToTupleNif env [l] = Some (Inr t', env\<lparr>env_heap := Some h2\<rparr>)
         \<and> tuple_at h2 t' es \<and> list_at h2 l es \<and> extends h h2
       else ListToTupleNif env [l] = Some (Inl NifSystemLimit, env)))"
proof (intro conjI impI)
  assume tup: "tuple_at h t es"
  have t: "tag t = TagTuple" "length es < 2 ^ 24 - 1"
    using tup by (simp_all add: tuple_at_def Let_def)
  have run: "TupleToListNif env [t] =
      (case cons_up (rev es) nil h of (r, h') \<Rightarrow> Some (r, env\<lparr>env_heap := Some h'\<rparr>))"
    using read_tuple_at [OF assms(1) tup] t assms(3)
    by (simp add: TupleToListNif_def with_env_heap_def tuple_to_list_heap_def split_beta)
  show "if can_alloc (3 * length es) h
       then \<exists>l h1. TupleToListNif env [t] = Some (Inr l, env\<lparr>env_heap := Some h1\<rparr>)
         \<and> list_at h1 l es \<and> extends h h1
         \<and> (if can_alloc (1 + length es) h1
             then \<exists>t' h2. ListToTupleNif (env\<lparr>env_heap := Some h1\<rparr>) [l]
                     = Some (Inr t', env\<lparr>env_heap := Some h2\<rparr>)
                   \<and> tuple_at h2 t' es \<and> tuple_at h2 t es \<and> list_at h2 l es
             else ListToTupleNif (env\<lparr>env_heap := Some h1\<rparr>) [l]
                     = Some (Inl NifSystemLimit, env\<lparr>env_heap := Some h1\<rparr>))
       else \<exists>h1. TupleToListNif env [t] = Some (Inl NifSystemLimit, env\<lparr>env_heap := Some h1\<rparr>)
         \<and> extends h h1"
  proof (cases "can_alloc (3 * length es) h")
    case True
    then obtain l h1 where u: "cons_up (rev es) nil h = (Inr l, h1)" "extends h h1" "list_at h1 l es"
      using cons_up_spec [OF assms(1,2), of nil "[]" "rev es"] by auto
    then have h1: "heap_ok h1" "hend h1 < 2 ^ 61" using assms(2) by (simp_all add: extends_def)
    note tuple_again = list_to_tuple_nif [OF h1 u(3) t(2), of "env\<lparr>env_heap := Some h1\<rparr>"]
    show ?thesis
      using run u tuple_again tuple_at_extends [OF u(2) tup] True
      by (auto split: if_splits intro: tuple_at_extends)
  next
    case False
    with cons_up_no_room [OF assms(1), of "rev es" nil] obtain h1
      where "cons_up (rev es) nil h = (Inl NifSystemLimit, h1)" "extends h h1" by auto
    with run False show ?thesis by (simp, blast)
  qed
next
  assume "list_at h l es \<and> length es < 2 ^ 24 - 1"
  with list_to_tuple_nif [OF assms(1,2), of l es env] assms(3)
  show "if can_alloc (1 + length es) h
       then \<exists>t' h2. ListToTupleNif env [l] = Some (Inr t', env\<lparr>env_heap := Some h2\<rparr>)
         \<and> tuple_at h2 t' es \<and> list_at h2 l es \<and> extends h h2
       else ListToTupleNif env [l] = Some (Inl NifSystemLimit, env)"
    by simp
qed

theorem tuple_list_roundtrip_witness:
  "(\<exists>l h1. TupleToListNif (nif_env_with_heap 1 small_tuple_heap) [from_tuple 0]
     = Some (Inr l, nif_env_with_heap 1 h1) \<and> list_at h1 l [from_atom 3, from_atom 5])
   \<and> (\<exists>t h1. ListToTupleNif (nif_env_with_heap 1 small_tuple_heap) [nil]
     = Some (Inr t, nif_env_with_heap 1 h1) \<and> tuple_at h1 t [])"
  using tuple_list_roundtrip [of small_tuple_heap "nif_env_with_heap 1 small_tuple_heap" "from_tuple 0"
      "[from_atom 3, from_atom 5]" nil]
    tuple_list_roundtrip [of small_tuple_heap "nif_env_with_heap 1 small_tuple_heap" nil "[]" nil]
    small_tuple_heap
  by (auto simp: can_alloc_def)

text \<open>C26. \<^verbatim>\<open>list_to_tuple\<close> returns exactly when the list is not cyclic: on a heap of \<open>n\<close> words a walk
  along the tails that does not end comes back to a cell it has seen.\<close>

theorem list_to_tuple_returns_iff:
  "ListToTupleNif env [l] = None \<longleftrightarrow>
     (case env_heap env of None \<Rightarrow> False | Some h \<Rightarrow> is_cons l \<and> cyclic h l)"
proof (cases "is_cons l")
  case True
  then show ?thesis
    by (auto simp: ListToTupleNif_def list_to_tuple_heap_returns split: option.split)
next
  case False
  then have "\<not> cyclic h l" for h
    using cyclic_walk_endless [of h l 1] by (auto simp: next_cell_def)
  with False show ?thesis
    by (auto simp: ListToTupleNif_def list_to_tuple_heap_returns split: option.split)
qed

section \<open>The registry\<close>

lemma append_mark_inject:
  "c \<notin> set u \<Longrightarrow> c \<notin> set v \<Longrightarrow> n @ c # u = m @ c # v \<longleftrightarrow> n = m \<and> u = v"
  by (auto simp: append_eq_append_conv2 append_eq_Cons_conv Cons_eq_append_conv)

lemma nif_key_inject [simp]: "nif_key n a = nif_key m b \<longleftrightarrow> n = m \<and> a = b"
proof -
  have d: "CHR ''_'' \<notin> set (decimal k)" for k
    using decimal_digits [of "CHR ''_''" k] by (auto simp: digit_value_def)
  from append_mark_inject [OF d d, of n "unat a" m "unat b"] show ?thesis
    using word_unat_eq_iff [of a b] by (simp add: nif_key_def decimal_inject)
qed

text \<open>After the built-in functions are registered, the calls of the module \<^verbatim>\<open>erlang\<close> are exactly
  the three built-in functions at their arities, whatever was registered for it before, and the
  calls of other modules are what they were.\<close>

theorem builtin_calls_exact:
  "call_nif (init_builtin_nifs r) m f a env args =
     (if m = ''erlang'' then
        (if f = ''setelement'' \<and> a = 3 then SetElementNif env args
         else if f = ''tuple_to_list'' \<and> a = 1 then TupleToListNif env args
         else if f = ''list_to_tuple'' \<and> a = 1 then ListToTupleNif env args
         else Some (Inl NifNotFound, env))
      else call_nif r m f a env args)"
  by (simp add: call_nif_def init_builtin_nifs_def builtin_library_def nif_add_def nif_get_def
      nif_library_new_def split: option.split)

end
