(* ===== verification/Kernels.thy ===== *)
theory Kernels
  imports Heap Core
begin

text \<open>
  The heap kernels: the exported functions of \<^verbatim>\<open>zig/src/root.zig\<close>, their safe wrappers and the
  Rust reference implementations (\<^verbatim>\<open>crates/chimera_erlang_beam_abi/src/heap_kernels.rs\<close>).

  A pointer with a length is the list of the words or bytes it leads to; a bare pointer is the
  list of those that may be accessed through it, and an access outside of them is a
  \<open>kernel_fault\<close>: undefined in Zig, where a read or a write through a bare pointer is not checked.
  \<open>Underflow\<close> and \<open>Overflow\<close> are unsigned results outside of
  their width, which Zig checks in its safe modes.  \<open>None\<close> is
  a kernel that never returns.
\<close>

section \<open>Result structures\<close>

datatype kernel_fault = OutOfBounds | Underflow | Overflow

record heap_result =
  hr_code :: u32
  hr_words_copied :: nat
  hr_words_scanned :: nat

record binary_match_result =
  bm_code :: u32
  bm_consumed :: nat
  bm_produced :: nat

definition BEAMZ_SUCCESS :: u32 where "BEAMZ_SUCCESS = 0"
definition BEAMZ_INVALID_INPUT :: u32 where "BEAMZ_INVALID_INPUT = 1"
definition BEAMZ_INSUFFICIENT_BUFFER :: u32 where "BEAMZ_INSUFFICIENT_BUFFER = 2"

definition size_field :: "u64 \<Rightarrow> nat" where
  "size_field header = unat (drop_bit 8 header AND 0xFFFFFF)"

section \<open>The kernels\<close>

partial_function (option) zig_scan_loop ::
  "u64 list \<Rightarrow> nat \<Rightarrow> nat \<Rightarrow> nat \<Rightarrow> nat \<Rightarrow> (nat \<times> nat) option" where
  "zig_scan_loop base hp_words offset words_scanned objects_found =
     (if offset < hp_words \<and> offset < length base then
        (let w = base ! offset; t = w AND 7 in
         if t = 0 \<or> t = 1 then
           zig_scan_loop base hp_words (offset + 1) (words_scanned + 1) (objects_found + 1)
         else if t = 2 then
           zig_scan_loop base hp_words (offset + 3) (words_scanned + 1) (objects_found + 1)
         else if t = 3 then
           zig_scan_loop base hp_words (offset + size_field w) (words_scanned + 1) (objects_found + 1)
         else zig_scan_loop base hp_words (offset + 1) (words_scanned + 1) objects_found)
      else Some (words_scanned, objects_found))"

definition beamz_heap_scan :: "u64 list \<Rightarrow> nat \<Rightarrow> heap_result option" where
  "beamz_heap_scan base hp_words =
     map_option (\<lambda>(scanned, found).
       \<lparr>hr_code = BEAMZ_SUCCESS, hr_words_copied = found, hr_words_scanned = scanned\<rparr>)
       (zig_scan_loop base hp_words 0 0 0)"

text \<open>The words \<open>n\<close> from \<open>i\<close> on written to the destination from \<open>j\<close> on.\<close>

definition put_words ::
  "u64 list \<Rightarrow> nat \<Rightarrow> nat \<Rightarrow> nat \<Rightarrow> u64 list \<Rightarrow> (kernel_fault, u64 list) outcome" where
  "put_words src i n j dst =
     (if i + n \<le> length src \<and> j + n \<le> length dst
      then Ok (take j dst @ take n (drop i src) @ drop (j + n) dst) else Err OutOfBounds)"

text \<open>The number of words the loop copies next, if it goes on.\<close>

definition copy_size :: "u64 list \<Rightarrow> nat \<Rightarrow> nat \<Rightarrow> nat \<Rightarrow> nat option" where
  "copy_size src budget offset words_copied =
     (if offset < length src \<and> words_copied < budget then
        (let w = src ! offset; t = w AND 7 in
         if t = 2 then
           (if words_copied + 3 \<le> budget \<and> offset + 3 \<le> length src then Some 3 else None)
         else if t = 3 then
           (if words_copied + size_field w \<le> budget \<and> offset + size_field w \<le> length src
            then Some (size_field w) else None)
         else Some 1)
      else None)"

partial_function (option) zig_copy_loop ::
  "u64 list \<Rightarrow> nat \<Rightarrow> nat \<Rightarrow> nat \<Rightarrow> u64 list \<Rightarrow>
   (kernel_fault, u64 list \<times> nat \<times> nat) outcome option" where
  "zig_copy_loop src budget offset words_copied dst =
     (case copy_size src budget offset words_copied of
        None \<Rightarrow> Some (Ok (dst, words_copied, offset))
      | Some n \<Rightarrow>
          (case put_words src offset n words_copied dst of
             Ok dst' \<Rightarrow> zig_copy_loop src budget (offset + n) (words_copied + n) dst'
           | Err e \<Rightarrow> Some (Err e)
           | Panic p \<Rightarrow> Some (Panic p)
           | OutOfFuel \<Rightarrow> Some OutOfFuel))"

definition beamz_heap_copy ::
  "u64 list \<Rightarrow> u64 list \<Rightarrow> nat \<Rightarrow> (kernel_fault, u64 list \<times> heap_result) outcome option" where
  "beamz_heap_copy src dst budget =
     map_option (\<lambda>r. bind_o r (\<lambda>(dst', copied, offset).
       Ok (dst', \<lparr>hr_code = BEAMZ_SUCCESS, hr_words_copied = copied, hr_words_scanned = offset\<rparr>)))
       (zig_copy_loop src budget 0 0 dst)"

definition object_size :: "u64 \<Rightarrow> nat" where
  "object_size w =
     (let t = w AND 7 in
      if t = 0 \<or> t = 1 then 1 else if t = 2 then 3 else if t = 3 then size_field w else 1)"

fun zig_compact_loop ::
  "u64 list \<Rightarrow> nat list \<Rightarrow> nat \<Rightarrow> u64 list \<Rightarrow> (kernel_fault, u64 list \<times> nat) outcome" where
  "zig_compact_loop src [] dst_offset dst = Ok (dst, dst_offset)"
| "zig_compact_loop src (src_idx # idxs) dst_offset dst =
     (if src_idx < length src then
        (let n = object_size (src ! src_idx) in
         bind_o (put_words src src_idx n dst_offset dst)
           (zig_compact_loop src idxs (dst_offset + n)))
      else Err OutOfBounds)"

definition beamz_heap_compact ::
  "u64 list \<Rightarrow> u64 list \<Rightarrow> nat list \<Rightarrow> (kernel_fault, u64 list \<times> heap_result) outcome" where
  "beamz_heap_compact src dst live =
     bind_o (zig_compact_loop src live 0 dst) (\<lambda>(dst', copied).
       Ok (dst', \<lparr>hr_code = BEAMZ_SUCCESS, hr_words_copied = copied,
                  hr_words_scanned = length live\<rparr>))"

text \<open>Every branch of the term copy returns its argument.\<close>

definition beamz_term_copy :: "u64 \<Rightarrow> u64 list \<Rightarrow> u64" where
  "beamz_term_copy w heap_base = w"

definition matches_at :: "u8 list \<Rightarrow> u8 list \<Rightarrow> nat \<Rightarrow> bool" where
  "matches_at input pat i \<longleftrightarrow> take (length pat) (drop i input) = pat"

fun match_loop :: "nat \<Rightarrow> u8 list \<Rightarrow> u8 list \<Rightarrow> nat \<Rightarrow> nat option" where
  "match_loop 0 input pat i = None"
| "match_loop (Suc k) input pat i =
     (if matches_at input pat i then Some i else match_loop k input pat (i + 1))"

definition beamz_binary_match :: "u8 list \<Rightarrow> u8 list \<Rightarrow> nat \<Rightarrow> binary_match_result" where
  "beamz_binary_match input pat budget =
     (if length pat = 0 then \<lparr>bm_code = BEAMZ_SUCCESS, bm_consumed = 0, bm_produced = 0\<rparr>
      else if length input < length pat then
        \<lparr>bm_code = BEAMZ_INVALID_INPUT, bm_consumed = length input, bm_produced = 0\<rparr>
      else
        (let scan_limit = min budget (length input - length pat) in
         case match_loop (scan_limit + 1) input pat 0 of
           Some i \<Rightarrow> \<lparr>bm_code = BEAMZ_SUCCESS, bm_consumed = i + length pat, bm_produced = i\<rparr>
         | None \<Rightarrow> \<lparr>bm_code = BEAMZ_INSUFFICIENT_BUFFER, bm_consumed = scan_limit + length pat,
                    bm_produced = scan_limit\<rparr>))"

text \<open>The bits of the pattern against the bits of the input from \<open>bit_pos\<close> on; a bit outside of
  the input does not match.\<close>

definition bits_match :: "u8 list \<Rightarrow> u8 list \<Rightarrow> nat \<Rightarrow> nat \<Rightarrow> nat \<Rightarrow> bool" where
  "bits_match input pat byte_offset bit_remainder bit_pos \<longleftrightarrow>
     list_all (\<lambda>pattern_bit.
       let overall_bit = bit_pos + pattern_bit;
           byte_idx = byte_offset + (bit_remainder + overall_bit) div 8
       in byte_idx < length input
          \<and> bit (input ! byte_idx) ((bit_remainder + overall_bit) mod 8)
            = bit (pat ! (pattern_bit div 8)) (pattern_bit mod 8))
       [0..<length pat * 8]"

function match_bits_loop ::
  "u8 list \<Rightarrow> u8 list \<Rightarrow> nat \<Rightarrow> nat \<Rightarrow> nat \<Rightarrow> nat \<Rightarrow> nat \<Rightarrow> bool \<times> nat" where
  "match_bits_loop input pat byte_offset bit_remainder max_bits budget_bits bit_pos =
     (if bit_pos \<le> max_bits \<and> bit_pos < budget_bits then
        (if bits_match input pat byte_offset bit_remainder bit_pos then (True, bit_pos)
         else match_bits_loop input pat byte_offset bit_remainder max_bits budget_bits (bit_pos + 1))
      else (False, bit_pos))"
  by pat_completeness auto
termination by (relation "measure (\<lambda>(_, _, _, _, _, n, i). n - i)") auto

declare match_bits_loop.simps [simp del]

definition beamz_binary_match_bits ::
  "u8 list \<Rightarrow> u8 list \<Rightarrow> nat \<Rightarrow> nat \<Rightarrow> (kernel_fault, binary_match_result) outcome" where
  "beamz_binary_match_bits input pat bit_offset budget_bits =
     (if length pat = 0 then Ok \<lparr>bm_code = BEAMZ_SUCCESS, bm_consumed = 0, bm_produced = 0\<rparr>
      else
        (let byte_offset = bit_offset div 8; bit_remainder = bit_offset mod 8 in
         if byte_offset \<ge> length input then
           Ok \<lparr>bm_code = BEAMZ_INVALID_INPUT, bm_consumed = length input * 8, bm_produced = 0\<rparr>
         else if (length input - byte_offset - 1) * 8 < bit_remainder then Err Underflow
         else
           (let max_bits = (length input - byte_offset - 1) * 8 - bit_remainder;
                (found, bit_pos) =
                  match_bits_loop input pat byte_offset bit_remainder max_bits budget_bits 0
            in Ok \<lparr>bm_code = (if found then BEAMZ_SUCCESS else BEAMZ_INSUFFICIENT_BUFFER),
                   bm_consumed = bit_pos + length pat * 8, bm_produced = bit_pos\<rparr>)))"

section \<open>The wrappers\<close>

record heap_scan_output =
  hs_words_scanned :: nat
  hs_terms_found :: nat
  hs_objects_found :: nat

definition heap_scan_output_of :: "heap_result \<Rightarrow> heap_scan_output" where
  "heap_scan_output_of r =
     \<lparr>hs_words_scanned = hr_words_scanned r, hs_terms_found = hr_words_copied r,
      hs_objects_found = hr_words_copied r\<rparr>"

definition heap_scan :: "u64 list \<Rightarrow> nat \<Rightarrow> heap_scan_output vm_result option" where
  "heap_scan base hp_words =
     (if base = [] then Some (Inl InvalidTerm)
      else map_option (\<lambda>r. if hr_code r = 0 then Inr (heap_scan_output_of r)
                           else Inl (Generic ''heap scan failed''))
             (beamz_heap_scan base hp_words))"

text \<open>The scan of a process heap for comparison: the roots and the counts are not used.\<close>

definition zig_scan_roots :: "beam_term list \<Rightarrow> process_heap \<Rightarrow> (gc_event + unit) option" where
  "zig_scan_roots roots h =
     map_option (\<lambda>r. case r of Inr _ \<Rightarrow> Inr () | Inl _ \<Rightarrow> Inl Minor) (heap_scan (active_buffer h) (hp h))"

definition heap_copy ::
  "u64 list \<Rightarrow> u64 list \<Rightarrow> nat \<Rightarrow> (kernel_fault, nat vm_result \<times> u64 list) outcome option" where
  "heap_copy dst src budget =
     (if dst = [] \<or> src = [] then Some (Ok (Inl InvalidTerm, dst))
      else map_option (\<lambda>r. bind_o r (\<lambda>(dst', r).
             Ok (if hr_code r = 0 then Inr (hr_words_copied r) else Inl (Generic ''heap copy failed''),
                 dst')))
             (beamz_heap_copy src dst budget))"

definition term_copy :: "u64 \<Rightarrow> u64 list \<Rightarrow> u64 vm_result" where
  "term_copy w heap_base =
     (if heap_base = [] then Inl InvalidTerm
      else (let r = beamz_term_copy w heap_base in
            if r \<noteq> 0 then Inr r else Inl (Generic ''term copy failed'')))"

definition heap_compact ::
  "u64 list \<Rightarrow> u64 list \<Rightarrow> nat list \<Rightarrow> (kernel_fault, nat vm_result \<times> u64 list) outcome" where
  "heap_compact dst src live =
     (if dst = [] \<or> src = [] \<or> live = [] then Ok (Inl InvalidTerm, dst)
      else bind_o (beamz_heap_compact src dst live) (\<lambda>(dst', r).
             Ok (if hr_code r = 0 then Inr (hr_words_copied r)
                 else Inl (Generic ''heap compact failed''), dst')))"

text \<open>Bytes copied between raw pointers.\<close>

definition beamz_copy_cons ::
  "u8 list \<Rightarrow> u8 list \<Rightarrow> nat \<Rightarrow> (kernel_fault, u8 list) outcome" where
  "beamz_copy_cons src dst len =
     (if len \<le> length src \<and> len \<le> length dst then Ok (take len src @ drop len dst)
      else Err OutOfBounds)"

definition copy_cons ::
  "u8 list \<Rightarrow> u8 list \<Rightarrow> nat \<Rightarrow> (kernel_fault, u8 list) outcome" where
  "copy_cons src dst len = beamz_copy_cons src dst len"

definition match_success :: "nat \<Rightarrow> nat \<Rightarrow> binary_match_result" where
  "match_success consumed produced = \<lparr>bm_code = 0, bm_consumed = consumed, bm_produced = produced\<rparr>"

definition insufficient_buffer :: "nat \<Rightarrow> nat \<Rightarrow> binary_match_result" where
  "insufficient_buffer consumed produced =
     \<lparr>bm_code = 2, bm_consumed = consumed, bm_produced = produced\<rparr>"

definition is_success :: "binary_match_result \<Rightarrow> bool" where
  "is_success r \<longleftrightarrow> bm_code r = 0"

definition binary_match :: "u8 list \<Rightarrow> u8 list \<Rightarrow> nat \<Rightarrow> binary_match_result vm_result" where
  "binary_match input pat budget =
     (if pat = [] then Inr (match_success 0 0) else Inr (beamz_binary_match input pat budget))"

definition binary_match_bits ::
  "u8 list \<Rightarrow> u8 list \<Rightarrow> nat \<Rightarrow> nat \<Rightarrow> (kernel_fault, binary_match_result vm_result) outcome" where
  "binary_match_bits input pat bit_offset budget_bits =
     (if pat = [] then Ok (Inr (match_success 0 0))
      else bind_o (beamz_binary_match_bits input pat bit_offset budget_bits) (\<lambda>r. Ok (Inr r)))"

section \<open>The reference implementations\<close>

partial_function (option) scan_words ::
  "u64 list \<Rightarrow> nat \<Rightarrow> nat \<Rightarrow> heap_scan_output \<Rightarrow> heap_scan_output option" where
  "scan_words base hp_words offset r =
     (if offset < min hp_words (length base) then
        (let r = r\<lparr>hs_words_scanned := hs_words_scanned r + 1\<rparr>;
             w = base ! offset; t = w AND 7;
             term = r\<lparr>hs_terms_found := hs_terms_found r + 1\<rparr>;
             object = term\<lparr>hs_objects_found := hs_objects_found r + 1\<rparr>
         in
         if t = 0 \<or> t = 1 then scan_words base hp_words (offset + 1) term
         else if t = 2 then scan_words base hp_words (offset + 3) object
         else if t = 3 then
           (if offset < length base then
              scan_words base hp_words (offset + min (size_field w) (length base - offset)) object
            else scan_words base hp_words (offset + 1) object)
         else scan_words base hp_words (offset + 1) r)
      else Some r)"

definition fallback_scan :: "u64 list \<Rightarrow> nat \<Rightarrow> heap_scan_output option" where
  "fallback_scan base hp_words =
     scan_words base hp_words 0 \<lparr>hs_words_scanned = 0, hs_terms_found = 0, hs_objects_found = 0\<rparr>"

definition fallback_copy :: "u64 list \<Rightarrow> u64 list \<Rightarrow> nat \<Rightarrow> nat \<times> u64 list" where
  "fallback_copy dst src budget =
     (let to_copy = min (min budget (length dst)) (length src)
      in (to_copy, take to_copy src @ drop to_copy dst))"

fun compact_words :: "u64 list \<Rightarrow> nat list \<Rightarrow> nat \<Rightarrow> u64 list \<Rightarrow> (unit, nat \<times> u64 list) outcome" where
  "compact_words src [] dst_offset dst = Ok (dst_offset, dst)"
| "compact_words src (src_idx # idxs) dst_offset dst =
     (if src_idx < length src then
        (if dst_offset < length dst
         then compact_words src idxs (dst_offset + 1) (dst[dst_offset := src ! src_idx])
         else Panic IndexOutOfBounds)
      else compact_words src idxs dst_offset dst)"

definition fallback_compact ::
  "u64 list \<Rightarrow> u64 list \<Rightarrow> nat list \<Rightarrow> (unit, nat \<times> u64 list) outcome" where
  "fallback_compact dst src live = compact_words src live 0 dst"

end
