(* ===== verification/Kernel_Laws.thy ===== *)
theory Kernel_Laws
  imports Kernels
begin

text \<open>
  What the heap kernels promise: the scanning kernel and its Rust reference visit the same words
  and return on the same heaps, the copying kernel copies a prefix and stays inside its
  destination when the budget does, and the matching kernels find the first occurrence.
\<close>

section \<open>Scanning\<close>

lemma object_size_le: "object_size w \<noteq> 0 \<or> (w AND 7 = 3 \<and> size_field w = 0)"
  by (auto simp: object_size_def Let_def)

abbreviation is_object :: "u64 \<Rightarrow> bool" where
  "is_object w \<equiv> w AND 7 = 0 \<or> w AND 7 = 1 \<or> w AND 7 = 2 \<or> w AND 7 = 3"

lemma zig_scan_loop_step:
  "zig_scan_loop base m o1 ws found =
     (if o1 < min m (length base)
      then zig_scan_loop base m (o1 + object_size (base ! o1)) (ws + 1)
             (if is_object (base ! o1) then found + 1 else found)
      else Some (ws, found))"
  by (subst zig_scan_loop.simps) (simp add: object_size_def Let_def)

lemmas zig_scan_in = trans [OF zig_scan_loop_step if_P]
lemmas zig_scan_out = trans [OF zig_scan_loop_step if_not_P]

definition note_word :: "u64 \<Rightarrow> heap_scan_output \<Rightarrow> heap_scan_output" where
  "note_word w r =
     r\<lparr>hs_words_scanned := hs_words_scanned r + 1,
       hs_terms_found := (if is_object w then hs_terms_found r + 1 else hs_terms_found r),
       hs_objects_found :=
         (if w AND 7 = 2 \<or> w AND 7 = 3 then hs_objects_found r + 1 else hs_objects_found r)\<rparr>"

lemma scan_words_step:
  "scan_words base m o1 r =
     (if o1 < min m (length base)
      then scan_words base m
             (o1 + (if base ! o1 AND 7 = 3 then min (object_size (base ! o1)) (length base - o1)
                   else object_size (base ! o1)))
             (note_word (base ! o1) r)
      else Some r)"
  by (subst scan_words.simps) (auto simp: object_size_def note_word_def Let_def)

lemmas scan_words_in = trans [OF scan_words_step if_P]
lemmas scan_words_out = trans [OF scan_words_step if_not_P]

text \<open>The two scans at offsets that are equal, or both past the end.\<close>

definition same_place :: "u64 list \<Rightarrow> nat \<Rightarrow> nat \<Rightarrow> bool" where
  "same_place base o1 o2 \<longleftrightarrow> o1 = o2 \<or> (length base \<le> o1 \<and> length base \<le> o2)"

definition same_counts :: "nat \<Rightarrow> nat \<Rightarrow> heap_scan_output \<Rightarrow> bool" where
  "same_counts ws found r \<longleftrightarrow> hs_words_scanned r = ws \<and> hs_terms_found r = found"

lemma same_place_step:
  "same_place base o1 o2 \<Longrightarrow> o1 < min m (length base) \<Longrightarrow>
   o2 = o1 \<and> same_place base (o1 + object_size (base ! o1))
     (o1 + (if base ! o1 AND 7 = 3 then min (object_size (base ! o1)) (length base - o1)
            else object_size (base ! o1)))"
  by (auto simp: same_place_def)

lemma same_counts_step:
  "same_counts ws found r \<Longrightarrow>
   same_counts (ws + 1) (if is_object w then found + 1 else found) (note_word w r)"
  by (simp add: same_counts_def note_word_def)

lemma zig_scan_sound:
  assumes "zig_scan_loop base m o1 ws found = Some y"
    and "same_place base o1 o2" and "same_counts ws found r"
  shows "\<exists>r'. scan_words base m o2 r = Some r' \<and> same_counts (fst y) (snd y) r'"
  using assms(2,3)
proof (induction arbitrary: o2 r rule: zig_scan_loop.raw_induct [OF _ assms(1), rotated])
  case (1 loop base m o1 ws found y)
  show ?case
  proof (cases "o1 < min m (length base)")
    case True
    with 1(2) have "loop base m (o1 + object_size (base ! o1)) (ws + 1)
        (if is_object (base ! o1) then found + 1 else found) = Some y"
      by (auto simp: object_size_def Let_def split: if_splits)
    from 1(1) [OF this conjunct2 [OF same_place_step [OF 1(3) True]] same_counts_step [OF 1(4)]]
    show ?thesis
      using same_place_step [OF 1(3) True] scan_words_in [OF True, of r] by metis
  next
    case False
    with 1(2) have "y = (ws, found)" by (auto split: if_splits)
    moreover have "\<not> o2 < min m (length base)" using False 1(3) by (auto simp: same_place_def)
    ultimately show ?thesis using 1(4) scan_words_out [of o2 m base r] by simp
  qed
qed

lemma zig_scan_complete:
  assumes "scan_words base m o2 r = Some r'"
    and "same_place base o1 o2" and "same_counts ws found r"
  shows "zig_scan_loop base m o1 ws found \<noteq> None"
  using assms(2,3)
proof (induction arbitrary: o1 ws found rule: scan_words.raw_induct [OF _ assms(1), rotated])
  case (1 loop base m o2 r r')
  show ?case
  proof (cases "o1 < min m (length base)")
    case True
    note st = same_place_step [OF 1(3) True]
    with 1(2) True have "loop base m (o1 + (if base ! o1 AND 7 = 3
        then min (object_size (base ! o1)) (length base - o1) else object_size (base ! o1)))
        (note_word (base ! o1) r) = Some r'"
      by (auto simp: object_size_def note_word_def Let_def split: if_splits)
    from 1(1) [OF this conjunct2 [OF st] same_counts_step [OF 1(4)]] zig_scan_in [OF True, of ws found]
    show ?thesis by metis
  next
    case False
    from zig_scan_out [OF this] show ?thesis by simp
  qed
qed

text \<open>C25. The scanning kernel behind its wrapper and the Rust reference implementation return on the
  same heaps and agree on the words scanned and the terms found, except that the wrapper refuses a heap
  without words.  The objects found differ: the
  wrapper reports the number of terms for it, the reference only those on the heap.\<close>

theorem scan_kernels_agree:
  "heap_scan base m = (if base = [] then Some (Inl InvalidTerm)
     else map_option (\<lambda>r. Inr (r\<lparr>hs_objects_found := hs_terms_found r\<rparr>)) (fallback_scan base m))"
proof (cases "base = []")
  case True
  then show ?thesis
    by (simp add: heap_scan_def)
next
  case False
  note nonempty = False
  let ?r = "\<lparr>hs_words_scanned = 0, hs_terms_found = 0, hs_objects_found = 0\<rparr>"
  have init: "same_place base 0 0" "same_counts 0 0 ?r"
    by (simp_all add: same_place_def same_counts_def)
  show ?thesis
  proof (cases "zig_scan_loop base m 0 0 0")
    case None
    then have "scan_words base m 0 ?r = None"
      using zig_scan_complete [OF _ init] by (cases "scan_words base m 0 ?r") auto
    with None nonempty show ?thesis
      by (simp add: heap_scan_def beamz_heap_scan_def fallback_scan_def)
  next
    case (Some y)
    from zig_scan_sound [OF this init] obtain r' where "scan_words base m 0 ?r = Some r'"
      "same_counts (fst y) (snd y) r'" by blast
    with Some nonempty show ?thesis
      by (cases y) (auto simp: heap_scan_def beamz_heap_scan_def fallback_scan_def
          heap_scan_output_of_def BEAMZ_SUCCESS_def same_counts_def)
  qed
qed

text \<open>The offsets a scan stands on.\<close>

definition scan_next :: "u64 list \<Rightarrow> nat \<Rightarrow> nat" where
  "scan_next base i = (if i < length base then i + object_size (base ! i) else i)"

definition scan_moves :: "u64 list \<Rightarrow> nat \<Rightarrow> nat \<Rightarrow> bool" where
  "scan_moves base m i \<longleftrightarrow>
     (\<forall>k. (scan_next base ^^ k) i < min m (length base) \<longrightarrow>
        object_size (base ! (scan_next base ^^ k) i) \<noteq> 0)"

lemma scan_moves_step:
  assumes "i < min m (length base)"
  shows "scan_moves base m i \<longleftrightarrow>
    object_size (base ! i) \<noteq> 0 \<and> scan_moves base m (i + object_size (base ! i))"
proof -
  have n: "scan_next base i = i + object_size (base ! i)" using assms by (simp add: scan_next_def)
  show ?thesis
  proof
    assume a: "scan_moves base m i"
    have "(scan_next base ^^ k) (scan_next base i) = (scan_next base ^^ Suc k) i" for k
      by (simp add: funpow_swap1)
    with a have "scan_moves base m (scan_next base i)" by (metis scan_moves_def)
    moreover have "object_size (base ! i) \<noteq> 0"
      using a assms unfolding scan_moves_def by (metis funpow_0)
    ultimately show "object_size (base ! i) \<noteq> 0 \<and> scan_moves base m (i + object_size (base ! i))"
      by (simp add: n)
  next
    assume a: "object_size (base ! i) \<noteq> 0 \<and> scan_moves base m (i + object_size (base ! i))"
    show "scan_moves base m i"
      unfolding scan_moves_def
    proof (intro allI impI)
      fix k assume l: "(scan_next base ^^ k) i < min m (length base)"
      show "object_size (base ! (scan_next base ^^ k) i) \<noteq> 0"
      proof (cases k)
        case (Suc j)
        then have "(scan_next base ^^ k) i = (scan_next base ^^ j) (i + object_size (base ! i))"
          by (simp add: funpow_swap1 n)
        with a l show ?thesis unfolding scan_moves_def by metis
      qed (use a in simp)
    qed
  qed
qed

lemma zig_scan_moves:
  assumes "zig_scan_loop base m i ws found = Some y"
  shows "scan_moves base m i"
proof (induction rule: zig_scan_loop.raw_induct [OF _ assms, rotated])
  case (1 loop base m i ws found y)
  show ?case
  proof (cases "i < min m (length base)")
    case True
    with 1(2) have "loop base m (i + object_size (base ! i)) (ws + 1)
        (if is_object (base ! i) then found + 1 else found) = Some y"
      by (auto simp: object_size_def Let_def split: if_splits)
    from 1(1) [OF this] have m: "scan_moves base m (i + object_size (base ! i))" .
    moreover have "object_size (base ! i) \<noteq> 0"
      using m True unfolding scan_moves_def by (metis funpow_0 add_0_right)
    ultimately show ?thesis using scan_moves_step [OF True] by blast
  next
    case False
    have "\<not> (scan_next base ^^ k) i < min m (length base)" for k
    proof (induction k)
      case (Suc k)
      have "(scan_next base ^^ k) i \<le> scan_next base ((scan_next base ^^ k) i)"
        by (simp add: scan_next_def)
      with Suc show ?case by auto
    qed (use False in simp)
    then show ?thesis unfolding scan_moves_def by blast
  qed
qed

lemma moves_zig_scan: "scan_moves base m i \<Longrightarrow> zig_scan_loop base m i ws found \<noteq> None"
proof (induction "min m (length base) - i" arbitrary: i ws found rule: less_induct)
  case less
  show ?case
  proof (cases "i < min m (length base)")
    case True
    with less.prems scan_moves_step [OF True]
    have "min m (length base) - (i + object_size (base ! i)) < min m (length base) - i"
      "scan_moves base m (i + object_size (base ! i))" by linarith+
    from less.hyps [OF this] zig_scan_in [OF True] show ?thesis by metis
  next
    case False
    from zig_scan_out [OF this] show ?thesis by simp
  qed
qed

text \<open>A scan, by the kernel or by the reference, returns exactly when it never stands on a tuple
  header of size zero.\<close>

theorem scan_returns_iff:
  "fallback_scan base m \<noteq> None \<longleftrightarrow> scan_moves base m 0"
proof -
  let ?r = "\<lparr>hs_words_scanned = 0, hs_terms_found = 0, hs_objects_found = 0\<rparr>"
  have init: "same_place base 0 0" "same_counts 0 0 ?r"
    by (simp_all add: same_place_def same_counts_def)
  have "fallback_scan base m \<noteq> None \<longleftrightarrow> zig_scan_loop base m 0 0 0 \<noteq> None"
    using zig_scan_complete [OF _ init, of m] zig_scan_sound [OF _ init, of m]
    by (fastforce simp: fallback_scan_def)
  then show ?thesis
    using zig_scan_moves [of base m 0 0 0] moves_zig_scan [of base m 0 0 0] by auto
qed

section \<open>Copying\<close>

lemma copy_size_bounds:
  "copy_size src budget n n = Some k \<Longrightarrow> n + k \<le> budget \<and> n + k \<le> length src"
  by (auto simp: copy_size_def Let_def split: if_splits)

lemma put_prefix:
  assumes "n + k \<le> length src" and "n + k \<le> length dst"
  shows "put_words src n k n (take n src @ drop n dst) = Ok (take (n + k) src @ drop (n + k) dst)"
proof -
  have "take (n + k) src = take n src @ take k (drop n src)" by (rule take_add)
  with assms show ?thesis by (simp add: put_words_def add.commute)
qed

lemma zig_copy_prefix:
  assumes "zig_copy_loop src budget n n (take n src @ drop n dst) = Some r"
    and "budget \<le> length dst" and "n \<le> budget" and "n \<le> length src"
  shows "\<exists>k. r = Ok (take k src @ drop k dst, k, k) \<and> n \<le> k \<and> k \<le> budget \<and> k \<le> length src"
proof -
  have "o1 = n \<Longrightarrow> o2 = n \<Longrightarrow> d = take n src @ drop n dst \<Longrightarrow> budget \<le> length dst \<Longrightarrow> n \<le> budget \<Longrightarrow>
      n \<le> length src \<Longrightarrow>
      \<exists>k. r = Ok (take k src @ drop k dst, k, k) \<and> n \<le> k \<and> k \<le> budget \<and> k \<le> length src"
    if "zig_copy_loop src budget o1 o2 d = Some r" for o1 o2 d
  proof (induction arbitrary: n rule: zig_copy_loop.raw_induct [OF _ that, rotated])
    case (1 loop src budget o1 o2 d r)
    show ?case
    proof (cases "copy_size src budget n n")
      case None
      with 1(2-8) show ?thesis by auto
    next
      case (Some k)
      note b = copy_size_bounds [OF this]
      with 1(6) have "put_words src n k n (take n src @ drop n dst)
          = Ok (take (n + k) src @ drop (n + k) dst)"
        by (intro put_prefix) auto
      with 1(2-5) Some have "loop src budget (n + k) (n + k) (take (n + k) src @ drop (n + k) dst) = Some r"
        by simp
      from 1(1) [OF this refl refl refl 1(6)] b show ?thesis by auto
    qed
  qed
  from this [OF assms(1) refl refl refl assms(2-4)] show ?thesis .
qed

text \<open>The copying kernel, with a budget inside the destination, stays inside it: what it does is the
  reference copy with a budget of its own, at most the given one.\<close>

theorem heap_copy_is_prefix:
  assumes "dst \<noteq> []" and "src \<noteq> []" and "budget \<le> length dst"
    and "heap_copy dst src budget = Some r"
  shows "\<exists>n dst'. r = Ok (Inr n, dst') \<and> n \<le> budget \<and> fallback_copy dst src n = (n, dst')"
proof -
  obtain x where x: "zig_copy_loop src budget 0 0 (take 0 src @ drop 0 dst) = Some x"
    and r: "r = bind_o (bind_o x (\<lambda>(dst', copied, offset).
        Ok (dst', \<lparr>hr_code = BEAMZ_SUCCESS, hr_words_copied = copied, hr_words_scanned = offset\<rparr>)))
      (\<lambda>(dst', r). Ok (if hr_code r = 0 then Inr (hr_words_copied r) else Inl (Generic ''heap copy failed''), dst'))"
    using assms by (auto simp: heap_copy_def beamz_heap_copy_def)
  from zig_copy_prefix [OF x assms(3)] obtain k where "x = Ok (take k src @ drop k dst, k, k)"
    "k \<le> budget" "k \<le> length src" by auto
  with r assms(3) show ?thesis by (auto simp: BEAMZ_SUCCESS_def fallback_copy_def)
qed

theorem heap_copy_is_prefix_witness:
  "\<exists>n dst'. heap_copy [7, 7] [0, 1, 0] 2 = Some (Ok (Inr n, dst')) \<and> n \<le> 2
     \<and> fallback_copy [7, 7] [0, 1, 0] n = (n, dst')"
proof -
  have "heap_copy [7, 7] [0, 1, 0] 2 \<noteq> None"
    by (simp add: heap_copy_def beamz_heap_copy_def zig_copy_loop.simps copy_size_def put_words_def)
  then obtain r where "heap_copy [7, 7] [0, 1, 0] 2 = Some r" by blast
  with heap_copy_is_prefix [OF _ _ _ this] show ?thesis by auto
qed

text \<open>The kernel is not told the size of its destination: on heaps of immediates it copies as many
  words as the budget and the source allow, and runs past a shorter destination.\<close>

lemma copy_immediates:
  assumes "\<forall>w\<in>set src. w AND 7 = 0 \<or> w AND 7 = 1" and "n \<le> length src" and "n \<le> length dst"
    and "n \<le> budget"
  shows "zig_copy_loop src budget n n (take n src @ drop n dst) =
    Some (let k = min budget (length src) in
          if k \<le> length dst then Ok (take k src @ drop k dst, k, k) else Err OutOfBounds)"
  using assms(2-4)
proof (induction "length src - n" arbitrary: n rule: less_induct)
  case less
  show ?case
  proof (cases "n < length src \<and> n < budget")
    case True
    then have "src ! n AND 7 = 0 \<or> src ! n AND 7 = 1" using assms(1) by auto
    with True have c: "copy_size src budget n n = Some 1" by (auto simp: copy_size_def Let_def)
    show ?thesis
    proof (cases "n < length dst")
      case in_dst: True
      have p: "put_words src n 1 n (take n src @ drop n dst) = Ok (take (n + 1) src @ drop (n + 1) dst)"
        by (rule put_prefix) (use True in_dst in auto)
      have "zig_copy_loop src budget n n (take n src @ drop n dst)
          = zig_copy_loop src budget (n + 1) (n + 1) (take (n + 1) src @ drop (n + 1) dst)"
        by (subst zig_copy_loop.simps) (simp only: c p option.case outcome.case)
      also have "\<dots> = Some (let k = min budget (length src) in
          if k \<le> length dst then Ok (take k src @ drop k dst, k, k) else Err OutOfBounds)"
        by (rule less.hyps) (use True in_dst in auto)
      finally show ?thesis .
    next
      case False
      with less.prems have n: "n = length dst" by simp
      with True c have "put_words src n 1 n (take n src @ drop n dst) = Err OutOfBounds"
        by (simp add: put_words_def)
      then have "zig_copy_loop src budget n n (take n src @ drop n dst) = Some (Err OutOfBounds)"
        by (subst zig_copy_loop.simps) (simp only: c option.case outcome.case)
      moreover have "\<not> min budget (length src) \<le> length dst" using n True by auto
      ultimately show ?thesis by (simp add: Let_def)
    qed
  next
    case False
    then have "copy_size src budget n n = None" by (auto simp: copy_size_def)
    then have "zig_copy_loop src budget n n (take n src @ drop n dst)
        = Some (Ok (take n src @ drop n dst, n, n))"
      by (subst zig_copy_loop.simps) (simp only: option.case)
    moreover have "min budget (length src) = n" using False less.prems by auto
    ultimately show ?thesis using less.prems by (simp add: Let_def)
  qed
qed

theorem heap_copy_overruns:
  assumes "\<forall>w\<in>set src. w AND 7 = 0 \<or> w AND 7 = 1" and "dst \<noteq> []" and "src \<noteq> []"
  shows "heap_copy dst src budget =
    Some (let k = min budget (length src) in
          if k \<le> length dst then Ok (Inr k, take k src @ drop k dst) else Err OutOfBounds)"
  using copy_immediates [OF assms(1), of 0 dst budget] assms(2,3)
  by (simp add: heap_copy_def beamz_heap_copy_def BEAMZ_SUCCESS_def Let_def)

theorem heap_copy_overruns_witness: "heap_copy [7] [8, 9] 2 = Some (Err OutOfBounds)"
  using heap_copy_overruns [of "[8, 9]" "[7]" 2] by simp

section \<open>Compacting\<close>

text \<open>The kernel copies the object at every live index, the reference only its first word.\<close>

theorem compact_reference:
  assumes "\<forall>i\<in>set live. i < length src" and "length live \<le> length dst"
  shows "fallback_compact dst src live
    = Ok (length live, map ((!) src) live @ drop (length live) dst)"
proof -
  have "compact_words src live n (xs @ ds) = Ok (n + length live, xs @ map ((!) src) live @ drop (length live) ds)"
    if "\<forall>i\<in>set live. i < length src" "length live \<le> length ds" "length xs = n" for xs ds n
    using that
  proof (induction live arbitrary: n xs ds)
    case (Cons i live)
    then obtain d ds' where ds: "ds = d # ds'" by (cases ds) auto
    have "compact_words src live (n + 1) ((xs @ [src ! i]) @ ds')
        = Ok (n + 1 + length live, (xs @ [src ! i]) @ map ((!) src) live @ drop (length live) ds')"
      by (rule Cons.IH) (use Cons.prems ds in auto)
    with Cons.prems ds show ?case by (simp add: list_update_append)
  qed simp
  from this [OF assms, of "[]" 0] show ?thesis by (simp add: fallback_compact_def)
qed

theorem compact_reference_witness:
  "fallback_compact [7, 7, 7] [2, 8, 9] [0] = Ok (1, [2, 7, 7])
   \<and> heap_compact [7, 7, 7] [2, 8, 9] [0] = Ok (Inr 3, [2, 8, 9])"
  using compact_reference [of "[0]" "[2, 8, 9]" "[7, 7, 7]"]
  by (simp add: heap_compact_def beamz_heap_compact_def object_size_def put_words_def BEAMZ_SUCCESS_def)

section \<open>Matching\<close>

lemma match_loop_first:
  "match_loop k input pat i = Some j \<longleftrightarrow>
     i \<le> j \<and> j < i + k \<and> matches_at input pat j \<and> (\<forall>n. i \<le> n \<and> n < j \<longrightarrow> \<not> matches_at input pat n)"
proof (induction k arbitrary: i)
  case (Suc k)
  have split: "i \<le> n \<longleftrightarrow> n = i \<or> i + 1 \<le> n" for n by auto
  show ?case
  proof (cases "matches_at input pat i")
    case True
    then show ?thesis by (auto simp: not_less le_less)
  next
    case False
    have "(i + 1 \<le> j \<and> j < i + 1 + k \<and> matches_at input pat j
          \<and> (\<forall>n. i + 1 \<le> n \<and> n < j \<longrightarrow> \<not> matches_at input pat n)) \<longleftrightarrow>
        (i \<le> j \<and> j < i + Suc k \<and> matches_at input pat j
          \<and> (\<forall>n. i \<le> n \<and> n < j \<longrightarrow> \<not> matches_at input pat n))"
      using False split by auto
    with False Suc.IH [of "i + 1"] show ?thesis by simp
  qed
qed auto

lemma match_loop_None:
  "match_loop k input pat i = None \<longleftrightarrow> (\<forall>n. i \<le> n \<and> n < i + k \<longrightarrow> \<not> matches_at input pat n)"
proof (induction k arbitrary: i)
  case (Suc k)
  have "i \<le> n \<longleftrightarrow> n = i \<or> i + 1 \<le> n" for n by auto
  with Suc.IH [of "i + 1"] show ?case by auto
qed auto

lemma matches_at_inside: "matches_at input pat i \<Longrightarrow> pat \<noteq> [] \<Longrightarrow> i + length pat \<le> length input"
proof -
  assume "matches_at input pat i" "pat \<noteq> []"
  then have "length (take (length pat) (drop i input)) = length pat" by (simp add: matches_at_def)
  with \<open>pat \<noteq> []\<close> show ?thesis by (cases pat) auto
qed

text \<open>C35. \<^verbatim>\<open>binary_match\<close> succeeds exactly when the pattern occurs at a position within the budget, and
  then reports the first such position and the bytes up to the end of that occurrence.\<close>

theorem binary_match_first:
  assumes "pat \<noteq> []"
  shows "case binary_match input pat budget of
      Inl e \<Rightarrow> False
    | Inr r \<Rightarrow>
        if is_success r
        then matches_at input pat (bm_produced r) \<and> bm_produced r \<le> budget
          \<and> (\<forall>i<bm_produced r. \<not> matches_at input pat i)
          \<and> bm_consumed r = bm_produced r + length pat
        else (\<forall>i\<le>budget. \<not> matches_at input pat i)"
proof -
  have far: "\<not> matches_at input pat i" if "length input < i + length pat" for i
    using matches_at_inside [of input pat i] assms that by auto
  show ?thesis
  proof (cases "length input < length pat")
    case True
    then show ?thesis using far assms
      by (auto simp: binary_match_def beamz_binary_match_def is_success_def BEAMZ_INVALID_INPUT_def)
  next
    case False
    define lim where "lim = min budget (length input - length pat)"
    have b: "binary_match input pat budget = Inr
       (case match_loop (lim + 1) input pat 0 of
           Some i \<Rightarrow> \<lparr>bm_code = BEAMZ_SUCCESS, bm_consumed = i + length pat, bm_produced = i\<rparr>
         | None \<Rightarrow> \<lparr>bm_code = BEAMZ_INSUFFICIENT_BUFFER, bm_consumed = lim + length pat,
                    bm_produced = lim\<rparr>)"
      using False assms
      by (simp add: binary_match_def beamz_binary_match_def lim_def [symmetric] del: match_loop.simps)
    show ?thesis
    proof (cases "match_loop (lim + 1) input pat 0")
      case None
      have "\<not> matches_at input pat i" if "i \<le> budget" for i
        using None [unfolded match_loop_None] far [of i] that False
        by (cases "i \<le> lim") (auto simp: lim_def)
      with None b show ?thesis by (simp add: is_success_def BEAMZ_INSUFFICIENT_BUFFER_def)
    next
      case (Some i)
      from Some [unfolded match_loop_first] b [unfolded Some] show ?thesis
        by (auto simp: is_success_def BEAMZ_SUCCESS_def lim_def)
    qed
  qed
qed

theorem binary_match_first_witness:
  "binary_match [9, 1, 2, 1, 2] [1, 2] 3 = Inr \<lparr>bm_code = 0, bm_consumed = 3, bm_produced = 1\<rparr>
   \<and> matches_at [9, 1, 2, 1, 2] [1, 2] 1"
proof -
  have m: "binary_match [9, 1, 2, 1, 2] [1, 2] 3 = Inr \<lparr>bm_code = 0, bm_consumed = 3, bm_produced = 1\<rparr>"
    by (simp add: binary_match_def beamz_binary_match_def matches_at_def BEAMZ_SUCCESS_def
        numeral_2_eq_2 numeral_3_eq_3)
  then show ?thesis
    using binary_match_first [of "[1, 2]" "[9, 1, 2, 1, 2]" 3] by (simp add: is_success_def)
qed

text \<open>Matching bits from an offset inside the last byte is not defined: the kernel subtracts the
  bits of the offset from zero.\<close>

theorem match_bits_underflows_iff:
  "binary_match_bits input pat off budget = Err Underflow \<longleftrightarrow>
     pat \<noteq> [] \<and> off div 8 + 1 = length input \<and> off mod 8 \<noteq> 0"
proof -
  have "off div 8 < length input \<Longrightarrow>
      (length input - off div 8 - 1) * 8 < off mod 8 \<longleftrightarrow> off div 8 + 1 = length input \<and> off mod 8 \<noteq> 0"
    using mod_less_divisor [of 8 off] by linarith
  then show ?thesis
    by (auto simp: binary_match_bits_def beamz_binary_match_bits_def Let_def not_le
        split: prod.split)
qed

text \<open>The copy of a term refuses the small integer zero, whose word is zero, and copies nothing for
  any other term.\<close>

theorem term_copy_exact:
  "term_copy w heap_base =
     (if heap_base = [] then Inl InvalidTerm
      else if w = 0 then Inl (Generic ''term copy failed'') else Inr w)"
  by (simp add: term_copy_def beamz_term_copy_def)

end
