(* ===== verification/Etf_Kernels.thy ===== *)
theory Etf_Kernels
  imports Kernels Etf
begin

text \<open>
  The kernels of the external term format (\<^verbatim>\<open>zig/src/etf.zig\<close>, exported by \<^verbatim>\<open>root.zig\<close>) behind
  their wrappers (\<^verbatim>\<open>crates/chimera_erlang_beam_abi/src/lib.rs\<close>), and how they relate to the encoder
  of theory Etf.

  Sizes are computed in the width of the length field (8, 16 or 32 bits); an overflow of that
  width, and a slice past its end, are faults that Zig checks in its safe modes.
\<close>

section \<open>Error codes and results\<close>

datatype beamz_error_code =
    CodeSuccess
  | CodeInvalidInput
  | CodeInsufficientBuffer
  | CodeMalformedTerm
  | CodeHeapExhausted
  | CodeUnknownError

fun to_vm_error :: "beamz_error_code \<Rightarrow> vm_error" where
  "to_vm_error CodeSuccess = Generic ''success''"
| "to_vm_error CodeInvalidInput = InvalidTerm"
| "to_vm_error CodeInsufficientBuffer = HeapExhausted"
| "to_vm_error CodeMalformedTerm = InvalidTerm"
| "to_vm_error CodeHeapExhausted = HeapExhausted"
| "to_vm_error CodeUnknownError = Generic ''unknown ABI error''"

datatype etf_scan_status = ScanValid | ScanInvalidVersion | ScanTruncated | ScanMalformed

record beamz_result =
  br_code :: u32
  br_consumed :: nat
  br_produced :: nat

record beamz_scan_result =
  sr_code :: u32
  sr_consumed :: nat
  sr_version :: u8

record etf_scan_output =
  es_status :: etf_scan_status
  es_consumed :: nat
  es_version :: "u8 option"

definition etf_scan_output_of :: "beamz_scan_result \<Rightarrow> etf_scan_output" where
  "etf_scan_output_of r =
     \<lparr>es_status = (if sr_code r = 0 then ScanValid else if sr_code r = 1 then ScanInvalidVersion
                   else if sr_code r = 2 then ScanTruncated else ScanMalformed),
      es_consumed = sr_consumed r,
      es_version = (if sr_code r = 0 then Some (sr_version r) else None)\<rparr>"

section \<open>The kernels\<close>

fun zig_scan_from :: "nat \<Rightarrow> u8 list \<Rightarrow> beamz_scan_result" where
  "zig_scan_from i [] = \<lparr>sr_code = 1, sr_consumed = 0, sr_version = 0\<rparr>"
| "zig_scan_from i (b # bs) =
     (if b = 131 then \<lparr>sr_code = 0, sr_consumed = i + 1, sr_version = 131\<rparr>
      else zig_scan_from (i + 1) bs)"

definition beamz_etf_scan :: "u8 list \<Rightarrow> beamz_scan_result" where
  "beamz_etf_scan input = zig_scan_from 0 input"

definition read_be16 :: "u8 list \<Rightarrow> nat" where
  "read_be16 d = unat (d ! 0) * 2 ^ 8 + unat (d ! 1)"

definition read_be32 :: "u8 list \<Rightarrow> nat" where
  "read_be32 d = unat (d ! 0) * 2 ^ 24 + unat (d ! 1) * 2 ^ 16 + unat (d ! 2) * 2 ^ 8 + unat (d ! 3)"

text \<open>A sum in \<open>w\<close> bits.\<close>

definition checked_sum :: "nat \<Rightarrow> nat \<Rightarrow> nat \<Rightarrow> (kernel_fault, nat) outcome" where
  "checked_sum w a b = (if a + b < 2 ^ w then Ok (a + b) else Err Overflow)"

definition if_present :: "u8 list \<Rightarrow> nat \<Rightarrow> nat" where
  "if_present d n = (if length d \<ge> n then n else 0)"

function calculate_term_size :: "u8 list \<Rightarrow> (kernel_fault, nat) outcome"
  and element_sizes :: "nat \<Rightarrow> u8 list \<Rightarrow> nat \<Rightarrow> (kernel_fault, nat) outcome" where
  "calculate_term_size d =
     (if length d < 1 then Ok 0
      else
        (let t = d ! 0 in
         if t = 97 then Ok (if_present d 2)
         else if t = 98 then Ok (if_present d 5)
         else if t = 100 \<or> t = 107 then
           (if length d < 3 then Ok 0
            else bind_o (checked_sum 16 3 (read_be16 (drop 1 d))) (\<lambda>n. Ok (if_present d n)))
         else if t = 106 then Ok 1
         else if t = 104 then
           (if length d < 2 then Ok 0 else element_sizes (unat (d ! 1)) (drop 2 d) 2)
         else if t = 108 then
           (if length d < 5 then Ok 0
            else bind_o (element_sizes (read_be32 (drop 1 d)) (drop 5 d) 5)
                   (\<lambda>n. Ok (if n = 0 then 0 else n + 1)))
         else if t = 109 then
           (if length d < 5 then Ok 0
            else bind_o (checked_sum 32 5 (read_be32 (drop 1 d))) (\<lambda>n. Ok (if_present d n)))
         else if t = 118 then
           (if length d < 2 then Ok 0
            else bind_o (checked_sum 8 2 (unat (d ! 1))) (\<lambda>n. Ok (if_present d n)))
         else if t = 105 then
           (if length d < 5 then Ok 0 else element_sizes (read_be32 (drop 1 d)) (drop 5 d) 5)
         else if t = 99 then Ok (if_present d 32)
         else Ok 1))"
| "element_sizes 0 rest n = Ok n"
| "element_sizes (Suc k) rest n =
     bind_o (calculate_term_size rest) (\<lambda>s.
       if s = 0 then Ok 0
       else if s > length rest then Err OutOfBounds
       else element_sizes k (drop s rest) (n + s))"
  by pat_completeness auto
termination
  by (relation "measure (\<lambda>x. case x of Inl d \<Rightarrow> 2 * length d | Inr (k, rest, n) \<Rightarrow> 2 * length rest + 1)")
    auto

declare calculate_term_size.simps [simp del]

definition sized :: "nat \<Rightarrow> beamz_result" where
  "sized n = \<lparr>br_code = 0, br_consumed = 1, br_produced = n\<rparr>"

definition truncated :: beamz_result where
  "truncated = \<lparr>br_code = 1, br_consumed = 0, br_produced = 0\<rparr>"

definition beamz_etf_term_size :: "u8 list \<Rightarrow> (kernel_fault, beamz_result) outcome" where
  "beamz_etf_term_size d =
     (if length d < 1 then Ok truncated
      else
        (let t = d ! 0; elements = (\<lambda>r f. bind_o r (\<lambda>n. Ok (if n = 0 then truncated else sized (f n)))) in
         if t = 131 then
           (if length d < 2 then Ok truncated
            else bind_o (calculate_term_size (drop 1 d)) (\<lambda>n. Ok (sized (1 + n))))
         else if t = 97 then Ok (sized 2)
         else if t = 98 then Ok (sized 5)
         else if t = 100 \<or> t = 107 then
           (if length d < 3 then Ok truncated
            else bind_o (checked_sum 16 3 (read_be16 (drop 1 d))) (\<lambda>n. Ok (sized n)))
         else if t = 106 then Ok (sized 1)
         else if t = 108 then
           (if length d < 5 then Ok truncated
            else elements (element_sizes (read_be32 (drop 1 d)) (drop 5 d) 5) (\<lambda>n. n + 1))
         else if t = 104 then
           (if length d < 2 then Ok truncated
            else elements (element_sizes (unat (d ! 1)) (drop 2 d) 2) (\<lambda>n. n))
         else if t = 109 then
           (if length d < 5 then Ok truncated
            else bind_o (checked_sum 32 5 (read_be32 (drop 1 d))) (\<lambda>n. Ok (sized n)))
         else if t = 105 then
           (if length d < 5 then Ok truncated
            else elements (element_sizes (read_be32 (drop 1 d)) (drop 5 d) 5) (\<lambda>n. n))
         else if t = 118 then
           (if length d < 2 then Ok truncated
            else bind_o (checked_sum 8 2 (unat (d ! 1))) (\<lambda>n. Ok (sized n)))
         else if t = 99 then Ok (if length d < 32 then truncated else sized 32)
         else Ok \<lparr>br_code = 2, br_consumed = 1, br_produced = 0\<rparr>))"

definition beamz_term_size :: "u64 \<Rightarrow> nat" where
  "beamz_term_size w =
     (case tag (Term w) of
        TagSmallInteger \<Rightarrow> 1
      | TagAtom \<Rightarrow> 1
      | TagCons \<Rightarrow> 2
      | TagTuple \<Rightarrow> 2
      | TagFloat \<Rightarrow> 9
      | TagBinary \<Rightarrow> 5
      | TagMap \<Rightarrow> 2
      | TagFun \<Rightarrow> 3)"

section \<open>The wrappers\<close>

definition etf_scan :: "u8 list \<Rightarrow> etf_scan_output vm_result" where
  "etf_scan input =
     (if input = [] then Inl InvalidTerm
      else
        (let r = beamz_etf_scan input in
         if sr_code r = 0 then Inr (etf_scan_output_of r)
         else Inl (to_vm_error (if sr_code r = 1 then CodeInvalidInput
                                else if sr_code r = 2 then CodeInsufficientBuffer
                                else CodeUnknownError))))"

definition etf_term_size :: "u8 list \<Rightarrow> (kernel_fault, nat vm_result) outcome" where
  "etf_term_size input =
     (if input = [] then Ok (Inl InvalidTerm)
      else bind_o (beamz_etf_term_size input) (\<lambda>r.
             Ok (if br_code r = 0 then Inr (br_produced r)
                 else Inl (to_vm_error (if br_code r = 1 then CodeInvalidInput else CodeUnknownError)))))"

definition abi_term_size :: "u64 \<Rightarrow> nat" where
  "abi_term_size w = beamz_term_size w"

record heap_view =
  hv_base :: nat
  hv_hp :: nat
  hv_end :: nat

definition heap_view_remaining :: "heap_view \<Rightarrow> u64" where
  "heap_view_remaining v = of_nat (hv_end v) - of_nat (hv_hp v)"

definition heap_view_has_space :: "heap_view \<Rightarrow> nat \<Rightarrow> bool" where
  "heap_view_has_space v n \<longleftrightarrow> unat (heap_view_remaining v) \<ge> n"

text \<open>Address zero is the null pointer.\<close>

definition validate_heap_view :: "heap_view \<Rightarrow> bool" where
  "validate_heap_view v \<longleftrightarrow>
     \<not> (hv_base v = 0 \<or> hv_hp v = 0 \<or> hv_end v = 0) \<and> \<not> (hv_hp v < hv_base v \<or> hv_end v < hv_hp v)"

section \<open>Properties\<close>

lemma zig_scan_from_spec:
  "zig_scan_from i bs =
     (if 131 \<in> set bs
      then \<lparr>sr_code = 0, sr_consumed = i + length (takeWhile (\<lambda>b. b \<noteq> 131) bs) + 1, sr_version = 131\<rparr>
      else \<lparr>sr_code = 1, sr_consumed = 0, sr_version = 0\<rparr>)"
  by (induction bs arbitrary: i) auto

text \<open>\<^verbatim>\<open>etf_scan\<close> takes the version byte from anywhere in the input: it accepts every input that
  holds the byte 131, whatever comes before it, and reports no status but a valid one.\<close>

theorem etf_scan_accepts_anywhere:
  "etf_scan input =
     (if 131 \<in> set input
      then Inr \<lparr>es_status = ScanValid,
                es_consumed = length (takeWhile (\<lambda>b. b \<noteq> 131) input) + 1, es_version = Some 131\<rparr>
      else Inl InvalidTerm)"
  by (auto simp: etf_scan_def beamz_etf_scan_def zig_scan_from_spec etf_scan_output_of_def Let_def)

lemma unknown_tag_size:
  "g \<in> {70, 110, 111, 115, 116} \<Longrightarrow> calculate_term_size (g # bs) = Ok 1"
  by (subst calculate_term_size.simps) auto

lemma known_tag_sizes:
  "calculate_term_size [97, b] = Ok 2"
  "calculate_term_size [98, b, c, d, e] = Ok 5"
  "calculate_term_size [106] = Ok 1"
  "calculate_term_size [104, 0] = Ok 2"
  "calculate_term_size [109, 0, 0, 0, 0, 0] = Ok 5"
  by (subst calculate_term_size.simps, simp add: if_present_def checked_sum_def read_be32_def)+

lemma encoded_tail_size:
  assumes "encode_term t = Ok bs"
  shows "\<exists>n. calculate_term_size bs = Ok n \<and> n \<le> length bs \<and>
    (n = length bs \<longleftrightarrow> tag t \<in> {TagCons, TagTuple, TagFun} \<or>
       tag t = TagSmallInteger \<and> - (2 ^ 31) \<le> sint (to_small t) \<and> sint (to_small t) \<le> 2 ^ 31 - 1)"
proof (cases "tag t")
  case TagSmallInteger
  let ?v = "to_small t"
  consider "0 \<le> sint ?v \<and> sint ?v \<le> 255"
    | "\<not> (0 \<le> sint ?v \<and> sint ?v \<le> 255)" "- (2 ^ 31) \<le> sint ?v \<and> sint ?v \<le> 2 ^ 31 - 1"
    | "\<not> (- (2 ^ 31) \<le> sint ?v \<and> sint ?v \<le> 2 ^ 31 - 1)" by blast
  then show ?thesis
  proof cases
    case 1
    with assms TagSmallInteger have "bs = [97, ucast ?v]"
      by (simp add: encode_term_def TAG_SMALL_INTEGER_def Let_def)
    with 1 TagSmallInteger show ?thesis by (simp add: known_tag_sizes)
  next
    case 2
    with assms TagSmallInteger have "bs = 98 # be_bytes32 (ucast ?v)"
      by (auto simp: encode_term_def TAG_INTEGER_def Let_def)
    with 2 TagSmallInteger show ?thesis by (simp add: be_bytes32_def known_tag_sizes)
  next
    case 3
    with assms TagSmallInteger have "bs = encode_big_integer ?v"
      by (auto simp: encode_term_def Let_def)
    then obtain g m sg ds where "bs = g # m # sg # ds" "g \<in> {110, 111}"
      by (auto simp: encode_big_integer_def Let_def TAG_SMALL_BIG_def TAG_LARGE_BIG_def)
    then show ?thesis using 3 TagSmallInteger unknown_tag_size [of g] by auto
  qed
next
  case TagAtom
  with assms obtain bs' where "bs = 115 # bs'" "1 < length bs"
    by (auto simp: encode_term_def TAG_ATOM_def be_bytes16_def Let_def)
  with TagAtom unknown_tag_size [of 115 bs'] show ?thesis by simp
next
  case TagFloat
  with assms have "bs = 70 # zero_text" by (simp add: encode_term_def TAG_FLOAT_def)
  with TagFloat unknown_tag_size [of 70 zero_text] show ?thesis by (simp add: zero_text_def)
next
  case TagMap
  with assms have "bs = 116 # be_bytes32 0" by (simp add: encode_term_def TAG_MAP_def)
  with TagMap unknown_tag_size [of 116 "be_bytes32 0"] show ?thesis by (simp add: be_bytes32_def)
qed (use assms in \<open>auto simp: encode_term_def encode_cons_list_def TAG_NIL_def TAG_SMALL_TUPLE_def
      TAG_BINARY_def be_bytes32_def known_tag_sizes\<close>)

text \<open>The size kernel against the encoder: on an encoded term with its version byte it always
  answers a size, at most the number of bytes, and the right one exactly for the integers of 32
  bits and the terms written as an empty list or tuple.  It does not know the tags the encoder
  writes for big integers, atoms, floats and maps, and misses the last byte of a binary.\<close>

theorem encoded_sizes:
  assumes "encode_with_version t = Ok bs"
  shows "\<exists>n. etf_term_size bs = Ok (Inr n) \<and> n \<le> length bs \<and>
    (n = length bs \<longleftrightarrow> tag t \<in> {TagCons, TagTuple, TagFun} \<or>
       tag t = TagSmallInteger \<and> - (2 ^ 31) \<le> sint (to_small t) \<and> sint (to_small t) \<le> 2 ^ 31 - 1)"
proof -
  obtain e where e: "encode_term t = Ok e" "bs = 131 # e"
    using assms by (auto simp: encode_with_version_def bind_o_Ok_iff VERSION_MAGIC_def)
  from encoded_tail_size [OF e(1)] obtain n where n: "calculate_term_size e = Ok n" "n \<le> length e"
    "n = length e \<longleftrightarrow> tag t \<in> {TagCons, TagTuple, TagFun} \<or>
       tag t = TagSmallInteger \<and> - (2 ^ 31) \<le> sint (to_small t) \<and> sint (to_small t) \<le> 2 ^ 31 - 1"
    by blast
  have "e \<noteq> []"
    using e(1) by (cases "tag t") (auto simp: encode_term_def encode_cons_list_def Let_def
        encode_big_integer_def split: if_splits)
  with e n have "etf_term_size bs = Ok (Inr (n + 1))"
    by (simp add: etf_term_size_def beamz_etf_term_size_def sized_def Suc_le_eq Let_def)
  with e n show ?thesis by auto
qed

theorem encoded_sizes_witness:
  "\<exists>n. etf_term_size [131, 115, 0, 6, 97, 116, 111, 109, 95, 52] = Ok (Inr n) \<and> n \<noteq> 10"
proof -
  have "decimal 4 = [52]" by (subst decimal.simps) simp
  then have "encode_with_version (from_atom 4) = Ok [131, 115, 0, 6, 97, 116, 111, 109, 95, 52]"
    by (simp add: encode_with_version_def encode_term_def etf_tags atom_prefix_def be_bytes16_def Let_def)
  from encoded_sizes [OF this] show ?thesis by auto
qed

end
