(* ===== verification/Shared_Code.thy ===== *)
theory Shared_Code
  imports Beam_File
begin

text \<open>
  The types the compiler shares with the machine (\<^verbatim>\<open>crates/chimera_beam_term/src/\<close>): atoms
  (\<^verbatim>\<open>atom.rs\<close>), function references (\<^verbatim>\<open>mfa.rs\<close>), compiled modules (\<^verbatim>\<open>module.rs\<close>) and a second
  reader and writer of chunk files (\<^verbatim>\<open>iff.rs\<close>).

  A reader over a cursor is the function of the bytes that are left.  Writing to a vector does not
  fail.  A float literal is the word of its bits.
\<close>

section \<open>Atoms and function references\<close>

datatype shared_atom = SharedAtom (shared_id: u32)

definition A_NIL :: shared_atom where "A_NIL = SharedAtom 0"
definition A_TRUE :: shared_atom where "A_TRUE = SharedAtom 1"
definition A_FALSE :: shared_atom where "A_FALSE = SharedAtom 2"

definition is_reserved :: "shared_atom \<Rightarrow> bool" where
  "is_reserved a \<longleftrightarrow> shared_id a \<le> 2"

definition atom_is_nil :: "shared_atom \<Rightarrow> bool" where "atom_is_nil a \<longleftrightarrow> shared_id a = 0"
definition atom_is_true :: "shared_atom \<Rightarrow> bool" where "atom_is_true a \<longleftrightarrow> shared_id a = 1"
definition atom_is_false :: "shared_atom \<Rightarrow> bool" where "atom_is_false a \<longleftrightarrow> shared_id a = 2"

definition atom_to_str :: "shared_atom \<Rightarrow> string" where
  "atom_to_str a =
     (if shared_id a = 0 then ''nil'' else if shared_id a = 1 then ''true''
      else if shared_id a = 2 then ''false'' else ''unknown'')"

record shared_mfa =
  sm_module :: shared_atom
  sm_function :: shared_atom
  sm_arity :: u8

definition mfa_new :: "shared_atom \<Rightarrow> shared_atom \<Rightarrow> u8 \<Rightarrow> shared_mfa" where
  "mfa_new m f a = \<lparr>sm_module = m, sm_function = f, sm_arity = a\<rparr>"

definition mfa_from_ids :: "u32 \<Rightarrow> u32 \<Rightarrow> u8 \<Rightarrow> shared_mfa" where
  "mfa_from_ids m f a = \<lparr>sm_module = SharedAtom m, sm_function = SharedAtom f, sm_arity = a\<rparr>"

definition mfa_module_id :: "shared_mfa \<Rightarrow> u32" where "mfa_module_id m = shared_id (sm_module m)"
definition mfa_function_id :: "shared_mfa \<Rightarrow> u32" where "mfa_function_id m = shared_id (sm_function m)"

definition mfa_to_tuple :: "shared_mfa \<Rightarrow> shared_atom \<times> shared_atom \<times> u8" where
  "mfa_to_tuple m = (sm_module m, sm_function m, sm_arity m)"

definition mfa_from_tuple :: "shared_atom \<times> shared_atom \<times> u8 \<Rightarrow> shared_mfa" where
  "mfa_from_tuple = (\<lambda>(m, f, a). \<lparr>sm_module = m, sm_function = f, sm_arity = a\<rparr>)"

section \<open>Compiled modules\<close>

record native_entry =
  ne_module :: shared_atom
  ne_function :: shared_atom

record export_entry =
  ee_offset :: u32
  ee_unused :: u32
  ee_native :: "native_entry option"

record import_entry =
  ie_module :: shared_atom
  ie_function :: shared_atom
  ie_arity :: u8

datatype literal =
    LitInteger i64
  | LitFloat u64
  | LitAtom shared_atom
  | LitTuple "literal list"
  | LitList "literal list"
  | LitMap "(literal \<times> literal) list"
  | LitBinary "u8 list"
  | LitFun shared_atom shared_atom u8 "literal list"

record line_info =
  li_offset :: u32
  li_line :: u32

record module_code =
  mc_name :: shared_atom
  mc_version :: u32
  mc_exports :: "shared_mfa \<Rightarrow> export_entry option"
  mc_imports :: "import_entry list"
  mc_literals :: "literal list"
  mc_code :: "u8 list"
  mc_atoms :: "shared_atom list"
  mc_atom_names :: "string list"
  mc_line_info :: "line_info list"

definition module_new :: "shared_atom \<Rightarrow> module_code" where
  "module_new n =
     \<lparr>mc_name = n, mc_version = 0, mc_exports = (\<lambda>_. None), mc_imports = [], mc_literals = [],
      mc_code = [], mc_atoms = [n], mc_atom_names = [], mc_line_info = []\<rparr>"

definition add_atom :: "string \<Rightarrow> module_code \<Rightarrow> shared_atom \<times> module_code" where
  "add_atom n m =
     (let i = of_nat (length (mc_atoms m)) in
      (SharedAtom i,
       m\<lparr>mc_atoms := mc_atoms m @ [SharedAtom i], mc_atom_names := mc_atom_names m @ [n]\<rparr>))"

definition add_export :: "shared_atom \<Rightarrow> u8 \<Rightarrow> u32 \<Rightarrow> module_code \<Rightarrow> module_code" where
  "add_export f a off m =
     m\<lparr>mc_exports := (mc_exports m)
         (mfa_new (mc_name m) f a \<mapsto> \<lparr>ee_offset = off, ee_unused = 0, ee_native = None\<rparr>)\<rparr>"

definition get_export_offset :: "shared_mfa \<Rightarrow> module_code \<Rightarrow> u32 option" where
  "get_export_offset f m = map_option ee_offset (mc_exports m f)"

definition name_str :: "module_code \<Rightarrow> string option" where
  "name_str m = (case mc_atom_names m of [] \<Rightarrow> None | s # _ \<Rightarrow> Some s)"

datatype shared_opcode =
    OpCall | OpCallExt | OpReturn | OpJump | OpMove | OpGetList | OpGetTail | OpAllocate
  | OpDeallocate | OpPutTerms | OpBadMatch | OpCaseHead | OpCaseTail | OpSelect | OpFuncInfo
  | OpTry | OpTryEnd | OpTryMatch | OpTryClear | OpRaise | OpGc | OpPutMap | OpMakeFun
  | OpTestHeap | OpResetHeap | OpCatch | OpCatchEnd | OpQueryGreeting | OpReturnToTrace

definition shared_opcodes :: "(u8 \<times> shared_opcode) list" where
  "shared_opcodes =
     [(1, OpCall), (2, OpCallExt), (3, OpReturn), (4, OpJump), (5, OpMove), (6, OpGetList),
      (7, OpGetTail), (8, OpAllocate), (9, OpDeallocate), (10, OpPutTerms), (11, OpBadMatch),
      (12, OpCaseHead), (13, OpCaseTail), (14, OpSelect), (15, OpFuncInfo), (16, OpTry),
      (17, OpTryEnd), (18, OpTryMatch), (19, OpTryClear), (20, OpRaise), (21, OpGc),
      (22, OpPutMap), (23, OpMakeFun), (24, OpTestHeap), (25, OpResetHeap), (26, OpCatch),
      (27, OpCatchEnd), (28, OpQueryGreeting), (29, OpReturnToTrace)]"

definition shared_opcode_from_u8 :: "u8 \<Rightarrow> shared_opcode option" where
  "shared_opcode_from_u8 v = map_of shared_opcodes v"

section \<open>Chunk files\<close>

record shared_chunk =
  sc_kind :: "u8 list"
  sc_data :: "u8 list"

datatype io_error = UnexpectedEof | InvalidData

definition chunk_len :: "shared_chunk \<Rightarrow> nat" where "chunk_len c = length (sc_data c)"
definition chunk_is_empty :: "shared_chunk \<Rightarrow> bool" where "chunk_is_empty c \<longleftrightarrow> sc_data c = []"

definition write_to :: "shared_chunk \<Rightarrow> u8 list" where
  "write_to c =
     sc_kind c @ be_bytes32 (of_nat (length (sc_data c))) @ sc_data c
       @ (if length (sc_data c) mod 2 \<noteq> 0 then [0] else [])"

definition read_from :: "u8 list \<Rightarrow> io_error + (shared_chunk \<times> u8 list)" where
  "read_from r =
     (if length r < 8 then Inl UnexpectedEof
      else
        (let len = unat (be32_at r 4); data_len = len + len mod 2; rest = drop 8 r in
         if length rest < data_len then Inl UnexpectedEof
         else Inr (\<lparr>sc_kind = take 4 r, sc_data = take len rest\<rparr>, drop data_len rest)))"

record shared_beam_file =
  bf_chunks :: "shared_chunk list"

definition shared_file_new :: shared_beam_file where
  "shared_file_new = \<lparr>bf_chunks = []\<rparr>"

function read_all :: "u8 list \<Rightarrow> io_error + shared_chunk list" where
  "read_all r =
     (if r = [] then Inr []
      else
        (case read_from r of
           Inl e \<Rightarrow> Inl e
         | Inr (c, rest) \<Rightarrow> (case read_all rest of Inl e \<Rightarrow> Inl e | Inr cs \<Rightarrow> Inr (c # cs))))"
  by pat_completeness auto
termination
  by (relation "measure length") (auto simp: read_from_def Let_def split: if_splits)

declare read_all.simps [simp del]

definition shared_parse :: "u8 list \<Rightarrow> io_error + shared_beam_file" where
  "shared_parse data =
     (if length data < 4 then Inl UnexpectedEof
      else if take 4 data \<noteq> BEAM_MAGIC then Inl InvalidData
      else (case read_all (drop 4 data) of Inl e \<Rightarrow> Inl e | Inr cs \<Rightarrow> Inr \<lparr>bf_chunks = cs\<rparr>))"

definition shared_to_bytes :: "shared_beam_file \<Rightarrow> u8 list" where
  "shared_to_bytes f = BEAM_MAGIC @ concat (map write_to (bf_chunks f))"

definition get_chunk :: "u8 list \<Rightarrow> shared_beam_file \<Rightarrow> shared_chunk option" where
  "get_chunk kind f = find (\<lambda>c. sc_kind c = kind) (bf_chunks f)"

definition get_chunk_str :: "u8 list \<Rightarrow> shared_beam_file \<Rightarrow> ('e, shared_chunk option) outcome" where
  "get_chunk_str kind f = (if length kind \<noteq> 4 then Panic ExplicitPanic else Ok (get_chunk kind f))"

fun replace_first :: "shared_chunk \<Rightarrow> shared_chunk list \<Rightarrow> shared_chunk list" where
  "replace_first c [] = [c]"
| "replace_first c (d # ds) = (if sc_kind d = sc_kind c then c # ds else d # replace_first c ds)"

definition set_chunk :: "shared_chunk \<Rightarrow> shared_beam_file \<Rightarrow> shared_beam_file" where
  "set_chunk c f = f\<lparr>bf_chunks := replace_first c (bf_chunks f)\<rparr>"

section \<open>Properties\<close>

definition shared_chunk_ok :: "shared_chunk \<Rightarrow> bool" where
  "shared_chunk_ok c \<longleftrightarrow> length (sc_kind c) = 4 \<and> length (sc_data c) < 2 ^ 32"

lemma read_write_chunk:
  assumes "shared_chunk_ok c"
  shows "read_from (write_to c @ rest) = Inr (c, rest)"
proof -
  define n where "n = length (sc_data c)"
  define w where "w = write_to c @ rest"
  have n: "unat (of_nat n :: u32) = n" "length (sc_kind c) = 4"
    using assms by (simp_all add: shared_chunk_ok_def n_def)
  have w: "w = sc_kind c @ be_bytes32 (of_nat n) @ sc_data c @ replicate (n mod 2) 0 @ rest"
    by (cases "n mod 2 = 0") (auto simp: w_def write_to_def n_def [symmetric] not_mod_2_eq_0_eq_1)
  have "drop 4 w = be_bytes32 (of_nat n) @ sc_data c @ replicate (n mod 2) 0 @ rest"
    using n by (simp add: w)
  then have b: "be32_at w 4 = of_nat n" by (rule be32_at_eq)
  have d: "drop 8 w = sc_data c @ replicate (n mod 2) 0 @ rest" "take 4 w = sc_kind c"
    "\<not> length w < 8"
    using n by (simp_all add: w)
  show ?thesis
    unfolding w_def [symmetric] read_from_def b n(1) d Let_def
    using d(3) by (simp add: n_def)
qed

lemma write_to_ne: "write_to c \<noteq> []"
  by (simp add: write_to_def be_bytes32_def)

lemma read_all_written:
  "list_all shared_chunk_ok cs \<Longrightarrow> read_all (concat (map write_to cs)) = Inr cs"
proof (induction cs)
  case (Cons c cs)
  then have "read_from (write_to c @ concat (map write_to cs)) = Inr (c, concat (map write_to cs))"
    by (intro read_write_chunk) simp
  with Cons write_to_ne [of c] show ?case by (subst read_all.simps) simp
qed (simp add: read_all.simps)

lemma BEAM_MAGIC_length [simp]: "length BEAM_MAGIC = 4"
  by (simp add: BEAM_MAGIC_def)

text \<open>A chunk file is read back as it was written, whatever its chunks of fewer than \<open>2 ^ 32\<close> bytes
  are; and the loader of the machine refuses it for its magic number, since it reads another
  container.\<close>

theorem shared_file_roundtrip:
  assumes "list_all shared_chunk_ok (bf_chunks f)"
  shows "shared_parse (shared_to_bytes f) = Inr f
    \<and> (parse_container (shared_to_bytes f) = Err Truncated
        \<or> parse_container (shared_to_bytes f) = Err (InvalidMagic BEAM_MAGIC))"
proof -
  have "slice (shared_to_bytes f) 0 4 = BEAM_MAGIC" by (simp add: shared_to_bytes_def slice_def)
  then show ?thesis
    using read_all_written [OF assms]
    by (auto simp: shared_parse_def shared_to_bytes_def parse_container_def FOR1_MAGIC_def
        BEAM_MAGIC_def)
qed

theorem shared_file_roundtrip_witness:
  "shared_parse (shared_to_bytes \<lparr>bf_chunks = [\<lparr>sc_kind = [65, 116, 111, 109], sc_data = [1, 2, 3]\<rparr>]\<rparr>)
     = Inr \<lparr>bf_chunks = [\<lparr>sc_kind = [65, 116, 111, 109], sc_data = [1, 2, 3]\<rparr>]\<rparr>"
  using shared_file_roundtrip
    [of "\<lparr>bf_chunks = [\<lparr>sc_kind = [65, 116, 111, 109], sc_data = [1, 2, 3]\<rparr>]\<rparr>"]
  by (simp add: shared_chunk_ok_def)

lemma find_replace_first:
  "find (\<lambda>d. sc_kind d = kind) (replace_first c cs) =
     (if kind = sc_kind c then Some c else find (\<lambda>d. sc_kind d = kind) cs)"
  by (induction cs) auto

text \<open>Setting a chunk replaces the first one of its kind or adds it, and leaves every other kind as it
  was.\<close>

theorem get_set_chunk:
  "get_chunk kind (set_chunk c f) = (if kind = sc_kind c then Some c else get_chunk kind f)"
  by (simp add: get_chunk_def set_chunk_def find_replace_first)

text \<open>An atom added to a module gets the next index of the atom table, while the names start one
  later: the name of the module is the first atom that was added to it.\<close>

theorem module_name_is_first_atom:
  "name_str (snd (add_atom n (module_new a))) = Some n
    \<and> fst (add_atom n (module_new a)) = SharedAtom 1"
  by (simp add: add_atom_def module_new_def name_str_def)

text \<open>An export is found at its own reference and no other reference is affected.\<close>

theorem export_lookup:
  "get_export_offset g (add_export f a off m) =
     (if g = mfa_new (mc_name m) f a then Some off else get_export_offset g m)"
  by (simp add: get_export_offset_def add_export_def)

end
