(* ===== verification/Sched_Thread.thy ===== *)
theory Sched_Thread
  imports Sched Timers Ports
begin

text \<open>
  The threads of the schedulers (\<^verbatim>\<open>spawn_thread\<close> of \<^verbatim>\<open>Scheduler\<close> and \<^verbatim>\<open>spawn_all\<close> of
  \<^verbatim>\<open>SchedulerRegistry\<close>, \<^verbatim>\<open>crates/chimera_erlang_beam_scheduler/src/lib.rs\<close>) as a system of
  concurrent steps: passes of the threads, and calls of the clients of the schedulers and of the
  shared timer managers.

  A pass holds the lock of each manager while it uses it, so that it is one step for the timers
  and one for the ports, of which the second changes nothing.  A mutex is the manager it guards,
  none when it is poisoned.  Whether the operating system starts a thread, and the clock a pass
  reads, are arguments.  \<^verbatim>\<open>stop\<close> is one step: the thread it waits for can at most finish a pass,
  which is a step before it.
\<close>

section \<open>The body of a thread\<close>

text \<open>What the closure captures beside the stop flag, which it shares with its scheduler.\<close>

record worker =
  wk_timer_manager :: "nat option"
  wk_port_manager :: "nat option"

definition spawn_thread :: "bool \<Rightarrow> scheduler \<Rightarrow> scheduler \<times> worker option" where
  "spawn_thread started s =
     (if sc_has_thread s then (s, None)
      else
        (s\<lparr>sc_has_thread := started\<rparr>,
         if started
         then Some \<lparr>wk_timer_manager = sc_timer_manager s, wk_port_manager = sc_port_manager s\<rparr>
         else None))"

text \<open>The entries that have expired are bound to a local vector, which is dropped.\<close>

definition pass_timers ::
  "i64 \<Rightarrow> worker \<Rightarrow> (nat \<rightharpoonup> timer_manager) \<Rightarrow> timer_entry list \<times> (nat \<rightharpoonup> timer_manager)" where
  "pass_timers now wk ts =
     (case wk_timer_manager wk of
        None \<Rightarrow> ([], ts)
      | Some i \<Rightarrow>
          (case ts i of
             None \<Rightarrow> ([], ts)
           | Some m \<Rightarrow> (let (expired, m') = get_expired_timers now m in (expired, ts(i \<mapsto> m')))))"

definition pass_ports :: "worker \<Rightarrow> (nat \<rightharpoonup> async_manager) \<Rightarrow> u32 list" where
  "pass_ports wk ps =
     (case wk_port_manager wk of
        None \<Rightarrow> []
      | Some i \<Rightarrow> (case ps i of None \<Rightarrow> [] | Some m \<Rightarrow> get_pending_wakeups m))"

text \<open>Both lists are read and dropped: the managers are all that a pass leaves behind.\<close>

definition thread_pass ::
  "i64 \<Rightarrow> worker \<Rightarrow> (nat \<rightharpoonup> timer_manager) \<times> (nat \<rightharpoonup> async_manager)
     \<Rightarrow> (nat \<rightharpoonup> timer_manager) \<times> (nat \<rightharpoonup> async_manager)" where
  "thread_pass now wk mgrs =
     (let (ts, ps) = mgrs; (expired, ts') = pass_timers now wk ts; pending = pass_ports wk ps
      in (ts', ps))"

text \<open>The threads that start are listed by the index of their scheduler.\<close>

fun spawn_each ::
  "(nat \<Rightarrow> bool) \<Rightarrow> nat \<Rightarrow> scheduler option list \<Rightarrow> scheduler option list \<times> (nat \<times> worker) list" where
  "spawn_each started k [] = ([], [])"
| "spawn_each started k (None # ss) =
     (let (ss', ws) = spawn_each started (Suc k) ss in (None # ss', ws))"
| "spawn_each started k (Some s # ss) =
     (let (s', w) = spawn_thread (started k) s; (ss', ws) = spawn_each started (Suc k) ss
      in (Some s' # ss', (case w of None \<Rightarrow> ws | Some w \<Rightarrow> (k, w) # ws)))"

definition spawn_all ::
  "(nat \<Rightarrow> bool) \<Rightarrow> scheduler_registry \<Rightarrow> scheduler_registry \<times> (nat \<times> worker) list" where
  "spawn_all started r =
     (let (ss, ws) = spawn_each started 0 (schedulers r) in (SchedulerRegistry ss, ws))"

section \<open>Threads and clients\<close>

record thread_world =
  tw_slots :: "scheduler option list"
  tw_workers :: "nat \<rightharpoonup> worker"
  tw_timers :: "nat \<rightharpoonup> timer_manager"
  tw_ports :: "nat \<rightharpoonup> async_manager"

datatype thread_event =
    SpawnThread nat
  | PassThread nat i64
  | LeaveThread nat
  | StopThread nat
  | UseScheduler nat
  | CallTimers nat timer_op

definition slot_scheduler :: "nat \<Rightarrow> thread_world \<Rightarrow> scheduler option" where
  "slot_scheduler k w = (if k < length (tw_slots w) then tw_slots w ! k else None)"

definition put_slot :: "nat \<Rightarrow> scheduler \<Rightarrow> thread_world \<Rightarrow> thread_world" where
  "put_slot k s w = w\<lparr>tw_slots := (tw_slots w)[k := Some s]\<rparr>"

definition run_pass :: "i64 \<Rightarrow> worker \<Rightarrow> thread_world \<Rightarrow> thread_world" where
  "run_pass now wk w =
     (let (ts, ps) = thread_pass now wk (tw_timers w, tw_ports w)
      in w\<lparr>tw_timers := ts, tw_ports := ps\<rparr>)"

text \<open>
  One step, with the entries it answers to a client.  A thread tests the stop flag of its
  scheduler before each pass and ends when it is set.  A client may do anything else to a
  scheduler: only \<^verbatim>\<open>spawn_thread\<close> and \<^verbatim>\<open>stop\<close> touch the thread and the flag.
\<close>

inductive thread_step ::
  "thread_world \<Rightarrow> thread_event \<Rightarrow> timer_entry list \<Rightarrow> thread_world \<Rightarrow> bool" where
  spawned:
    "slot_scheduler k w = Some s \<Longrightarrow> spawn_thread started s = (s', wk) \<Longrightarrow>
     thread_step w (SpawnThread k) []
       (put_slot k s' w\<lparr>tw_workers :=
          (case wk of None \<Rightarrow> tw_workers w | Some x \<Rightarrow> (tw_workers w)(k \<mapsto> x))\<rparr>)"
| passed:
    "slot_scheduler k w = Some s \<Longrightarrow> tw_workers w k = Some wk \<Longrightarrow> \<not> sc_stop_flag s \<Longrightarrow>
     thread_step w (PassThread k now) [] (run_pass now wk w)"
| left_loop:
    "slot_scheduler k w = Some s \<Longrightarrow> tw_workers w k = Some wk \<Longrightarrow> sc_stop_flag s \<Longrightarrow>
     thread_step w (LeaveThread k) [] (w\<lparr>tw_workers := (tw_workers w)(k := None)\<rparr>)"
| stopped:
    "slot_scheduler k w = Some s \<Longrightarrow>
     thread_step w (StopThread k) []
       (put_slot k (stop s) w\<lparr>tw_workers := (tw_workers w)(k := None)\<rparr>)"
| used:
    "slot_scheduler k w = Some s \<Longrightarrow> sc_stop_flag s' = sc_stop_flag s \<Longrightarrow>
     sc_has_thread s' = sc_has_thread s \<Longrightarrow> thread_step w (UseScheduler k) [] (put_slot k s' w)"
| called:
    "tw_timers w i = Some m \<Longrightarrow> timer_step a m = (answer, m') \<Longrightarrow>
     thread_step w (CallTimers i a) answer (w\<lparr>tw_timers := (tw_timers w)(i \<mapsto> m')\<rparr>)"

inductive_simps pass_simps: "thread_step w (PassThread k now) answer w'"
inductive_cases stop_cases: "thread_step w (StopThread k) answer w'"

text \<open>A run, with what it answers to the clients of the timer manager \<open>i\<close>.\<close>

definition answers_of :: "nat \<Rightarrow> thread_event \<Rightarrow> timer_entry list \<Rightarrow> timer_entry list" where
  "answers_of i e answer = (case e of CallTimers j a \<Rightarrow> if j = i then answer else [] | _ \<Rightarrow> [])"

inductive thread_run ::
  "nat \<Rightarrow> thread_world \<Rightarrow> thread_event list \<Rightarrow> timer_entry list \<Rightarrow> thread_world \<Rightarrow> bool" for i where
  run_nil: "thread_run i w [] [] w"
| run_cons:
    "thread_step w e answer w' \<Longrightarrow> thread_run i w' es answers w'' \<Longrightarrow>
     thread_run i w (e # es) (answers_of i e answer @ answers) w''"

text \<open>The timers started on a manager by its clients.\<close>

fun adds_on :: "nat \<Rightarrow> thread_event list \<Rightarrow> nat" where
  "adds_on i [] = 0"
| "adds_on i (e # es) = (case e of CallTimers j a \<Rightarrow> if j = i then adds [a] else 0 | _ \<Rightarrow> 0) + adds_on i es"

section \<open>A timer that has left its manager\<close>

text \<open>The identifier is in use, belongs to no entry, and will not be given again.\<close>

definition gone :: "u64 \<Rightarrow> timer_manager \<Rightarrow> bool" where
  "gone j m \<longleftrightarrow> timer_inv m \<and> j \<notin> tm_id ` set (mg_timers m) \<and> j < mg_next_timer_id m"

lemma gone_step:
  assumes "timer_step a m = (ex, m')" and "gone j m"
    and "unat (mg_next_timer_id m) + adds [a] < 2 ^ 64"
  shows "gone j m' \<and> j \<notin> tm_id ` set ex
    \<and> unat (mg_next_timer_id m') = unat (mg_next_timer_id m) + adds [a]"
proof -
  have inv: "timer_inv m" and j: "j \<notin> tm_id ` set (mg_timers m)" "j < mg_next_timer_id m"
    using assms(2) by (simp_all add: gone_def)
  note st = timer_step_inv [OF assms(1) inv assms(3)]
  have "mg_next_timer_id m \<le> mg_next_timer_id m'"
    using st(2) by (simp add: word_le_nat_alt)
  with j have "j < mg_next_timer_id m'" by simp
  moreover have "j \<notin> tm_id ` set (mg_timers m')"
    using st(6) j by fastforce
  moreover have "j \<notin> tm_id ` set ex"
    using st(5) j(1) by blast
  ultimately show ?thesis
    using st(1,2) by (simp add: gone_def)
qed

lemma gone_poll:
  assumes "get_expired_timers now m = (ex, m')" and "gone j m"
  shows "gone j m' \<and> mg_next_timer_id m' = mg_next_timer_id m"
  using poll_split [OF assms(1)] assms(2) by (auto simp: gone_def)

lemma due_gone:
  assumes "get_expired_timers now m = (ex, m')" and "timer_inv m" and "t \<in> set (mg_timers m)"
    and "due now (mg_cancelled m) t"
  shows "gone (tm_id t) m'"
proof -
  note p = poll_split [OF assms(1,2)]
  have "tm_id t \<in> tm_id ` set ex"
    using poll_fires_iff(2) [OF assms(1-3)] assms(4) by simp
  then have "tm_id t \<notin> tm_id ` set (mg_timers m')"
    using p(3) by blast
  moreover have "tm_id t < mg_next_timer_id m'"
    using assms(2,3) p(5) by (simp add: timer_inv_def)
  ultimately show ?thesis
    using p(1) by (simp add: gone_def)
qed

text \<open>What a pass does to one manager.\<close>

lemma run_pass_timers:
  assumes "tw_timers w i = Some m"
  shows "tw_timers (run_pass now wk w) i =
    Some (if wk_timer_manager wk = Some i then snd (get_expired_timers now m) else m)"
  using assms
  by (auto simp: run_pass_def thread_pass_def pass_timers_def Let_def
      split: option.split prod.split)

lemma run_pass_else [simp]:
  "tw_slots (run_pass now wk w) = tw_slots w" "tw_workers (run_pass now wk w) = tw_workers w"
  "tw_ports (run_pass now wk w) = tw_ports w"
  by (simp_all add: run_pass_def thread_pass_def Let_def split: prod.split)

lemma slot_put [simp]:
  "slot_scheduler k (put_slot j s w) =
     (if k = j \<and> k < length (tw_slots w) then Some s else slot_scheduler k w)"
  by (auto simp: slot_scheduler_def put_slot_def)

lemma put_slot_else [simp]:
  "tw_timers (put_slot j s w) = tw_timers w" "tw_workers (put_slot j s w) = tw_workers w"
  by (simp_all add: put_slot_def)

lemma slot_else [simp]:
  "slot_scheduler k (w\<lparr>tw_workers := x\<rparr>) = slot_scheduler k w"
  "slot_scheduler k (w\<lparr>tw_timers := y\<rparr>) = slot_scheduler k w"
  "slot_scheduler k (run_pass now wk w) = slot_scheduler k w"
  by (simp_all add: slot_scheduler_def)

lemma gone_thread_step:
  assumes "thread_step w e answer w'" and "tw_timers w i = Some m" and "gone j m"
    and "unat (mg_next_timer_id m) + adds_on i [e] < 2 ^ 64"
  shows "\<exists>m'. tw_timers w' i = Some m' \<and> gone j m' \<and> j \<notin> tm_id ` set (answers_of i e answer)
    \<and> unat (mg_next_timer_id m') = unat (mg_next_timer_id m) + adds_on i [e]"
  using assms(1)
proof (cases rule: thread_step.cases)
  case (passed k s wk now)
  have "gone j (snd (get_expired_timers now m))
      \<and> mg_next_timer_id (snd (get_expired_timers now m)) = mg_next_timer_id m"
    using gone_poll [OF _ assms(3)] by (metis prod.collapse)
  with passed assms(2,3) show ?thesis
    by (simp add: run_pass_timers answers_of_def)
next
  case (called i' m1 a m1')
  show ?thesis
  proof (cases "i' = i")
    case True
    with called assms(2) have st: "timer_step a m = (answer, m1')" by simp
    from True called assms(4) have "unat (mg_next_timer_id m) + adds [a] < 2 ^ 64" by simp
    from gone_step [OF st assms(3) this] True called show ?thesis
      by (simp add: answers_of_def)
  next
    case False
    with called assms(2,3) show ?thesis by (simp add: answers_of_def)
  qed
qed (use assms(2,3) in \<open>simp_all add: answers_of_def\<close>)

lemma gone_thread_run:
  assumes "thread_run i w es answers w'" and "tw_timers w i = Some m" and "gone j m"
    and "unat (mg_next_timer_id m) + adds_on i es < 2 ^ 64"
  shows "j \<notin> tm_id ` set answers"
  using assms
proof (induction arbitrary: m rule: thread_run.induct)
  case (run_cons w e answer w' es answers w'')
  have split: "adds_on i (e # es) = adds_on i [e] + adds_on i es" by simp
  have "unat (mg_next_timer_id m) + adds_on i [e] < 2 ^ 64"
    using run_cons.prems(3) split by linarith
  from gone_thread_step [OF run_cons.hyps(1) run_cons.prems(1,2) this]
  obtain m' where m': "tw_timers w' i = Some m'" "gone j m'"
    "j \<notin> tm_id ` set (answers_of i e answer)"
    "unat (mg_next_timer_id m') = unat (mg_next_timer_id m) + adds_on i [e]" by blast
  have "unat (mg_next_timer_id m') + adds_on i es < 2 ^ 64"
    using run_cons.prems(3) split m'(4) by linarith
  from run_cons.IH [OF m'(1,2) this] m'(3) show ?case by auto
qed simp

section \<open>Properties\<close>

text \<open>C15. A timer that is due when the thread of a scheduler passes is taken out of the shared timer
  manager without being delivered: in no continuation, whatever threads and clients do, is it
  answered to a client that polls the manager, as long as fewer than 2^64 timers are started.\<close>

theorem due_timer_lost:
  assumes "thread_step w (PassThread k now) [] w1" and "tw_workers w k = Some wk"
    and "wk_timer_manager wk = Some i" and "tw_timers w i = Some m" and "timer_inv m"
    and "t \<in> set (mg_timers m)" and "due now (mg_cancelled m) t"
    and "thread_run i w1 es answers w2" and "unat (mg_next_timer_id m) + adds_on i es < 2 ^ 64"
  shows "tm_id t \<notin> tm_id ` set answers"
proof -
  let ?m = "snd (get_expired_timers now m)"
  have g: "get_expired_timers now m = (fst (get_expired_timers now m), ?m)" by simp
  have "tw_timers w1 i = Some ?m"
    using assms(1-4) by (auto simp: pass_simps run_pass_timers)
  moreover have "gone (tm_id t) ?m"
    using due_gone [OF g assms(5-7)] .
  moreover have "unat (mg_next_timer_id ?m) + adds_on i es < 2 ^ 64"
    using poll_split(5) [OF g assms(5)] assms(9) by simp
  ultimately show ?thesis
    using gone_thread_run [OF assms(8)] by blast
qed

lemma slot_in: "slot_scheduler k w = Some s \<Longrightarrow> k < length (tw_slots w)"
  by (simp add: slot_scheduler_def split: if_splits)

lemma slot_stays:
  assumes "thread_step w e answer w'" and "slot_scheduler k w \<noteq> None"
  shows "slot_scheduler k w' \<noteq> None"
  using assms by (cases rule: thread_step.cases) auto

lemma slot_stays_run:
  assumes "thread_run i w es answers w'" and "slot_scheduler k w \<noteq> None"
  shows "slot_scheduler k w' \<noteq> None"
  using assms by (induction rule: thread_run.induct) (auto dest: slot_stays)

text \<open>One scheduler with its thread, a manager with a timer for the time 5: the thread passes at the
  time 10, and a client polls at the time 20.\<close>

definition lone_timer :: timer_entry where
  "lone_timer = \<lparr>tm_id = 1, tm_target_pid = pid_new 7 0 1, tm_message = nil,
     tm_timeout_timestamp = 5, tm_active = True\<rparr>"

definition lone_manager :: timer_manager where
  "lone_manager = timer_manager_new\<lparr>mg_timers := [lone_timer], mg_next_timer_id := 2\<rparr>"

definition lone_scheduler :: scheduler where
  "lone_scheduler = set_timer_manager 0 (scheduler_new 0)\<lparr>sc_has_thread := True\<rparr>"

definition lone_world :: thread_world where
  "lone_world =
     \<lparr>tw_slots = [Some lone_scheduler],
      tw_workers = [0 \<mapsto> \<lparr>wk_timer_manager = Some 0, wk_port_manager = None\<rparr>],
      tw_timers = [0 \<mapsto> lone_manager], tw_ports = Map.empty\<rparr>"

lemma lone_pass:
  "thread_step lone_world (PassThread 0 10) []
     (run_pass 10 \<lparr>wk_timer_manager = Some 0, wk_port_manager = None\<rparr> lone_world)"
  by (rule passed [where s = lone_scheduler])
    (simp_all add: lone_world_def lone_scheduler_def slot_scheduler_def set_timer_manager_def
      scheduler_new_def)

lemma lone_expired:
  "get_expired_timers 10 lone_manager =
     ([lone_timer\<lparr>tm_active := False\<rparr>], lone_manager\<lparr>mg_timers := []\<rparr>)"
  by (simp add: get_expired_timers_def lone_manager_def lone_timer_def timer_manager_new_def
      expire_loop.simps word_sle_eq)

lemma lone_poll:
  "\<exists>w2. thread_run 0 (run_pass 10 \<lparr>wk_timer_manager = Some 0, wk_port_manager = None\<rparr> lone_world)
     [CallTimers 0 (PollTimers 20)] [] w2"
proof -
  have "tw_timers (run_pass 10 \<lparr>wk_timer_manager = Some 0, wk_port_manager = None\<rparr> lone_world) 0
      = Some (lone_manager\<lparr>mg_timers := []\<rparr>)"
    by (subst run_pass_timers [of _ _ lone_manager]) (simp_all add: lone_world_def lone_expired)
  from called [OF this, of "PollTimers 20" "[]" "lone_manager\<lparr>mg_timers := []\<rparr>"] run_nil
  have "thread_run 0 (run_pass 10 \<lparr>wk_timer_manager = Some 0, wk_port_manager = None\<rparr> lone_world)
      [CallTimers 0 (PollTimers 20)] (answers_of 0 (CallTimers 0 (PollTimers 20)) [] @ [])
      (run_pass 10 \<lparr>wk_timer_manager = Some 0, wk_port_manager = None\<rparr> lone_world
        \<lparr>tw_timers := (tw_timers (run_pass 10 \<lparr>wk_timer_manager = Some 0, wk_port_manager = None\<rparr>
            lone_world))(0 \<mapsto> lone_manager\<lparr>mg_timers := []\<rparr>)\<rparr>)"
    by (intro run_cons)
      (simp_all add: get_expired_timers_def lone_manager_def timer_manager_new_def expire_loop.simps)
  then show ?thesis by (auto simp: answers_of_def)
qed

theorem due_timer_lost_witness:
  "\<exists>w1 w2. thread_step lone_world (PassThread 0 10) [] w1
     \<and> thread_run 0 w1 [CallTimers 0 (PollTimers 20)] [] w2
     \<and> lone_timer \<in> set (mg_timers lone_manager) \<and> due 20 [] lone_timer
     \<and> tm_id lone_timer \<notin> tm_id ` set ([] :: timer_entry list)"
proof -
  obtain w2 where w2: "thread_run 0
      (run_pass 10 \<lparr>wk_timer_manager = Some 0, wk_port_manager = None\<rparr> lone_world)
      [CallTimers 0 (PollTimers 20)] [] w2" using lone_poll by blast
  have facts: "lone_timer \<in> set (mg_timers lone_manager)" "due 20 [] lone_timer"
    "due 10 (mg_cancelled lone_manager) lone_timer" "timer_inv lone_manager"
    "tw_timers lone_world 0 = Some lone_manager"
    "tw_workers lone_world 0 = Some \<lparr>wk_timer_manager = Some 0, wk_port_manager = None\<rparr>"
    by (simp_all add: lone_manager_def lone_timer_def lone_world_def due_def timer_inv_def
        timer_manager_new_def word_sle_eq)
  have "tm_id lone_timer \<notin> tm_id ` set ([] :: timer_entry list)"
    by (rule due_timer_lost [OF lone_pass facts(6) _ facts(5,4,1,3) w2])
      (simp_all add: lone_manager_def adds_def)
  with facts lone_pass w2 show ?thesis by blast
qed

text \<open>A scheduler that has been stopped: its flag is never taken back.\<close>

definition halted :: "nat \<Rightarrow> thread_world \<Rightarrow> bool" where
  "halted k w \<longleftrightarrow> (\<forall>s. slot_scheduler k w = Some s \<longrightarrow> sc_stop_flag s)"

lemma halted_step:
  assumes "thread_step w e answer w'" and "halted k w"
  shows "halted k w' \<and> (\<forall>now. e \<noteq> PassThread k now)"
  using assms(1)
proof (cases rule: thread_step.cases)
  case (spawned k' s started s' wk)
  then show ?thesis
    using assms(2) by (auto simp: halted_def spawn_thread_def split: if_splits)
next
  case (used k' s s')
  then show ?thesis using assms(2) by (auto simp: halted_def)
qed (use assms(2) in \<open>auto simp: halted_def stop_def\<close>)

lemma halted_run:
  assumes "thread_run i w es answers w'" and "halted k w"
  shows "halted k w' \<and> (\<forall>now. PassThread k now \<notin> set es)"
  using assms by (induction rule: thread_run.induct) (auto dest: halted_step)

text \<open>Once a scheduler is stopped, its thread never passes again, also when it is put online
  and its thread is spawned again.\<close>

theorem stop_is_for_ever:
  assumes "thread_step w (StopThread k) [] w1" and "thread_run i w1 es answers w2"
  shows "PassThread k now \<notin> set es \<and> (case slot_scheduler k w2 of
      None \<Rightarrow> False | Some s \<Rightarrow> \<not> sc_is_running s)"
proof -
  obtain s where s: "slot_scheduler k w = Some s"
    "w1 = put_slot k (stop s) w\<lparr>tw_workers := (tw_workers w)(k := None)\<rparr>"
    using assms(1) by (auto elim: stop_cases)
  from slot_in [OF s(1)] s(2) have "slot_scheduler k w1 = Some (stop s)" by simp
  then have "halted k w1" and some: "slot_scheduler k w1 \<noteq> None"
    by (simp_all add: halted_def stop_def)
  with halted_run [OF assms(2)] have h: "halted k w2" "PassThread k now \<notin> set es" by simp_all
  from slot_stays_run [OF assms(2) some] have "slot_scheduler k w2 \<noteq> None" .
  with h show ?thesis by (auto simp: halted_def sc_is_running_def split: option.split)
qed

text \<open>All threads at once are the threads one after the other.\<close>

lemma spawn_each_slots:
  "fst (spawn_each started k ss) =
     map (\<lambda>(j, s). map_option (\<lambda>s. fst (spawn_thread (started j) s)) s) (enumerate k ss)"
proof (induction ss arbitrary: k)
  case (Cons x xs)
  then show ?case by (cases x) (simp_all add: split_beta)
qed simp

lemma spawn_each_none:
  assumes "list_all (case_option True sc_has_thread) ss"
  shows "snd (spawn_each started k ss) = []"
  using assms
proof (induction ss arbitrary: k)
  case (Cons x xs)
  from Cons.prems have "snd (spawn_each started (Suc k) xs) = []"
    by (intro Cons.IH) simp
  with Cons.prems show ?case
    by (cases x) (simp_all add: spawn_thread_def split_beta)
qed simp

lemma spawned_threads:
  "list_all (case_option True sc_has_thread) (fst (spawn_each (\<lambda>_. True) k ss))"
proof (induction ss arbitrary: k)
  case (Cons x xs)
  from Cons [of "Suc k"] show ?case
    by (cases x) (simp_all add: spawn_thread_def split_beta)
qed simp

lemma stopped_thread [simp]: "map_option stop x = Some s \<Longrightarrow> \<not> sc_has_thread s"
  by (auto simp: stop_def)

text \<open>Spawning the threads of a registry twice starts no second thread where the first one
  has started, and shutting it down leaves no scheduler with a thread.\<close>

theorem spawn_all_once:
  "snd (spawn_all started (fst (spawn_all (\<lambda>_. True) r))) = []
   \<and> (\<forall>s. Some s \<in> set (schedulers (shutdown (fst (spawn_all started r)))) \<longrightarrow> \<not> sc_has_thread s)"
proof -
  have "snd (spawn_each started 0 (fst (spawn_each (\<lambda>_. True) 0 (schedulers r)))) = []"
    by (rule spawn_each_none [OF spawned_threads])
  then show ?thesis
    by (auto simp: spawn_all_def shutdown_def split_beta dest: stopped_thread [OF sym])
qed

end
