(* ===== verification/Runtime.thy ===== *)
theory Runtime
  imports Core Boot Sched Vm Text_Util
begin

text \<open>
  The entry points of the program (\<^verbatim>\<open>crates/chimera_erlang_beam_runtime/src/lib.rs\<close>): the command
  line, the run of the machine, and the entry that is called from C.

  What is printed is left out, and ending the process is the result \<open>Inl\<close> with the exit code.
  Arguments are ASCII texts; a pointer to one is \<open>None\<close> when it is null.
\<close>

section \<open>The runtime handle\<close>

record runtime_handle =
  rh_config :: runtime_config
  rh_started :: bool

definition runtime_init :: "runtime_config \<Rightarrow> runtime_handle" where
  "runtime_init c = \<lparr>rh_config = c, rh_started = False\<rparr>"

definition runtime_start :: "runtime_handle \<Rightarrow> runtime_handle" where
  "runtime_start h = h\<lparr>rh_started := True\<rparr>"

definition runtime_stop :: "runtime_handle \<Rightarrow> runtime_handle" where
  "runtime_stop h = h\<lparr>rh_started := False\<rparr>"

definition runtime_is_running :: "runtime_handle \<Rightarrow> bool" where
  "runtime_is_running h \<longleftrightarrow> rh_started h"

section \<open>The command line\<close>

datatype module_paths = ModulePaths (mp_paths: "string list")

definition module_paths_new :: module_paths where
  "module_paths_new = ModulePaths []"

definition add_module_path :: "string \<Rightarrow> module_paths \<Rightarrow> module_paths" where
  "add_module_path p m = ModulePaths (mp_paths m @ [p])"

type_synonym parsed_args = "runtime_config \<times> boot_config \<times> module_paths"

fun parse_args_loop ::
  "runtime_config \<Rightarrow> module_paths \<Rightarrow> string list \<Rightarrow> 32 word + parsed_args" where
  "parse_args_loop c mp [] = Inr (c, boot_minimal, mp)"
| "parse_args_loop c mp (arg # args) =
     (if arg = ''-n'' then
        (case args of
           [] \<Rightarrow> parse_args_loop c mp []
         | node # args' \<Rightarrow> parse_args_loop (c\<lparr>rc_node_name := node\<rparr>) mp args')
      else if arg = ''-s'' then
        (case args of
           [] \<Rightarrow> parse_args_loop c mp []
         | n # args' \<Rightarrow>
             (case parse_u32 n of
                Some k \<Rightarrow> parse_args_loop (c\<lparr>rc_schedulers := k\<rparr>) mp args'
              | None \<Rightarrow> parse_args_loop c mp args'))
      else if arg = ''-h'' then
        (case args of
           [] \<Rightarrow> parse_args_loop c mp []
         | n # args' \<Rightarrow>
             (case parse_usize n of
                Some k \<Rightarrow> parse_args_loop (c\<lparr>rc_heap_size := k\<rparr>) mp args'
              | None \<Rightarrow> parse_args_loop c mp args'))
      else if arg = ''-boot'' then
        (case args of [] \<Rightarrow> parse_args_loop c mp [] | path # args' \<Rightarrow> parse_args_loop c mp args')
      else if arg = ''-pa'' then
        (case args of
           [] \<Rightarrow> parse_args_loop c mp []
         | path # args' \<Rightarrow> parse_args_loop c (add_module_path path mp) args')
      else if arg = ''--help'' then Inl 0
      else Inl 1)"

definition parse_args_from :: "string list \<Rightarrow> 32 word + parsed_args" where
  "parse_args_from args = parse_args_loop runtime_config_default module_paths_new args"

text \<open>The registry and the machine that \<^verbatim>\<open>run_vm\<close> makes are reported on and dropped.\<close>

definition run_vm :: "runtime_config \<Rightarrow> boot_config \<Rightarrow> string + unit" where
  "run_vm c b =
     (let registry = registry_new (rc_schedulers c); vm = vm_new 0; first = registry_get 0 registry
      in Inr ())"

definition cli_main_from :: "string list \<Rightarrow> 32 word" where
  "cli_main_from args =
     (case parse_args_from args of
        Inl code \<Rightarrow> code
      | Inr (c, b, paths) \<Rightarrow> (case run_vm c b of Inr u \<Rightarrow> 0 | Inl e \<Rightarrow> 1))"

definition cli_main :: "string list \<Rightarrow> 32 word" where
  "cli_main argv = cli_main_from (drop 1 argv)"

text \<open>The C entry.  Reading past the end of the vector of pointers, which C rules out, is the
  panic.\<close>

definition chimera_beam_runtime_entry ::
  "32 word \<Rightarrow> string option list option \<Rightarrow> (unit, 32 word) outcome" where
  "chimera_beam_runtime_entry argc argv =
     (let n = nat (max (sint argc) 0) in
      case argv of
        None \<Rightarrow> Ok (cli_main_from [])
      | Some ptrs \<Rightarrow>
          if n \<le> length ptrs then Ok (cli_main_from (slot_contents (take n ptrs)))
          else Panic IndexOutOfBounds)"

section \<open>Which command lines are accepted\<close>

definition value_flags :: "string list" where
  "value_flags = [''-n'', ''-s'', ''-h'', ''-boot'', ''-pa'']"

text \<open>Options with their values, each value whatever it is.\<close>

fun option_list :: "string list \<Rightarrow> bool" where
  "option_list [] = True"
| "option_list [flag] = False"
| "option_list (flag # v # rest) \<longleftrightarrow> flag \<in> set value_flags \<and> option_list rest"

definition unknown_arg :: "string \<Rightarrow> bool" where
  "unknown_arg a \<longleftrightarrow> a \<notin> set value_flags \<and> a \<noteq> ''--help''"

lemma parse_flag_step:
  assumes "flag \<in> set value_flags"
  shows "\<exists>c' mp'. parse_args_loop c mp (flag # v # rest) = parse_args_loop c' mp' rest"
proof -
  consider "flag = ''-n''" | "flag = ''-s''" | "flag = ''-h''" | "flag = ''-boot''" | "flag = ''-pa''"
    using assms by (auto simp: value_flags_def)
  then show ?thesis
  proof cases
    case 1
    then have "parse_args_loop c mp (flag # v # rest)
      = parse_args_loop (c\<lparr>rc_node_name := v\<rparr>) mp rest" by simp
    then show ?thesis by blast
  next
    case 2
    then have "parse_args_loop c mp (flag # v # rest)
      = parse_args_loop (case parse_u32 v of Some k \<Rightarrow> c\<lparr>rc_schedulers := k\<rparr> | None \<Rightarrow> c) mp rest"
      by (simp split: option.split)
    then show ?thesis by blast
  next
    case 3
    then have "parse_args_loop c mp (flag # v # rest)
      = parse_args_loop (case parse_usize v of Some k \<Rightarrow> c\<lparr>rc_heap_size := k\<rparr> | None \<Rightarrow> c) mp rest"
      by (simp split: option.split)
    then show ?thesis by blast
  next
    case 4
    then have "parse_args_loop c mp (flag # v # rest) = parse_args_loop c mp rest" by simp
    then show ?thesis by blast
  next
    case 5
    then have "parse_args_loop c mp (flag # v # rest)
      = parse_args_loop c (add_module_path v mp) rest" by simp
    then show ?thesis by blast
  qed
qed

lemma parse_no_flag:
  assumes "arg \<notin> set value_flags"
  shows "parse_args_loop c mp (arg # rest) = Inl (if unknown_arg arg then 1 else 0)"
  using assms by (simp add: value_flags_def unknown_arg_def)

lemma parse_last_flag:
  assumes "flag \<in> set value_flags"
  shows "parse_args_loop c mp [flag] = Inr (c, boot_minimal, mp)"
  using assms by (auto simp: value_flags_def)

text \<open>How an argument vector is read: its options, then the end, a flag without its value, or an
  argument that ends the process.\<close>

lemma option_list_cases:
  obtains "option_list args"
  | opts flag where "args = opts @ [flag]" "option_list opts" "flag \<in> set value_flags"
  | opts arg rest where "args = opts @ arg # rest" "option_list opts" "arg \<notin> set value_flags"
proof (induction args arbitrary: thesis rule: option_list.induct)
  case 1
  then show ?case by simp
next
  case (2 flag)
  then show ?case by (metis append_Nil option_list.simps(1))
next
  case (3 flag v rest)
  show ?case
  proof (cases "flag \<in> set value_flags")
    case True
    have glue: "option_list (flag # v # opts)" if "option_list opts" for opts
      using True that by simp
    show ?thesis
    proof (rule 3(1))
      assume "option_list rest"
      then show ?thesis using glue 3(2) by blast
    next
      fix opts f assume "rest = opts @ [f]" "option_list opts" "f \<in> set value_flags"
      then show ?thesis using glue 3(3) [of "flag # v # opts" f] by simp
    next
      fix opts a more assume "rest = opts @ a # more" "option_list opts" "a \<notin> set value_flags"
      then show ?thesis using glue 3(4) [of "flag # v # opts" a more] by simp
    qed
  next
    case False
    then show ?thesis using 3(4) [of "[]" flag "v # rest"] by simp
  qed
qed

lemma parse_options_step:
  assumes "option_list opts"
  shows "\<exists>c' mp'. parse_args_loop c mp (opts @ rest) = parse_args_loop c' mp' rest"
  using assms
proof (induction opts arbitrary: c mp rule: option_list.induct)
  case (3 flag v opts)
  then have "flag \<in> set value_flags" by simp
  from parse_flag_step [OF this, of c mp v "opts @ rest"] 3 show ?case by fastforce
qed auto

lemma cli_accepted:
  assumes "parse_args_from args = Inr r"
  shows "cli_main_from args = 0"
  using assms by (auto simp: cli_main_from_def run_vm_def Let_def split: prod.split)

lemma cli_code:
  "cli_main_from args = (case parse_args_from args of Inl code \<Rightarrow> code | Inr r \<Rightarrow> 0)"
  by (cases "parse_args_from args") (auto simp: cli_accepted, auto simp: cli_main_from_def)

lemma parse_after_options:
  assumes "option_list opts" and "arg \<notin> set value_flags"
  shows "parse_args_from (opts @ arg # rest) = Inl (if unknown_arg arg then 1 else 0)"
  using parse_options_step [OF assms(1), of _ _ "arg # rest"] parse_no_flag [OF assms(2)]
  by (metis parse_args_from_def)

lemma unknown_after_options:
  "option_list opts \<Longrightarrow> unknown_arg arg \<Longrightarrow> parse_args_from (opts @ arg # rest) = Inl 1"
  using parse_after_options [of opts arg rest] by (simp add: unknown_arg_def)

lemma accepted_vector:
  assumes "option_list args \<or> (\<exists>opts flag. args = opts @ [flag] \<and> option_list opts \<and> flag \<in> set value_flags)"
  shows "\<exists>r. parse_args_from args = Inr r"
  using assms
proof (elim disjE exE conjE)
  assume "option_list args"
  from parse_options_step [OF this, of _ _ "[]"] show ?thesis
    unfolding parse_args_from_def by (metis append_Nil2 parse_args_loop.simps(1))
next
  fix opts flag assume a: "args = opts @ [flag]" "option_list opts" "flag \<in> set value_flags"
  from parse_options_step [OF a(2), of _ _ "[flag]"] parse_last_flag [OF a(3)] show ?thesis
    unfolding parse_args_from_def a(1) by metis
qed

lemma parse_options_inr:
  "option_list args \<Longrightarrow> parse_args_from args = Inr (projr (parse_args_from args))"
  using accepted_vector [of args] by fastforce

text \<open>Options are read from the left, so that no vector begins with options in two ways.\<close>

lemma option_list_split:
  assumes "option_list opts" and "option_list opts'" and "arg \<notin> set value_flags"
    and "arg' \<notin> set value_flags" and "opts @ arg # rest = opts' @ arg' # rest'"
  shows "arg = arg'"
  using assms
proof (induction opts arbitrary: opts' rule: option_list.induct)
  case 1
  then show ?case by (cases opts' rule: option_list.cases) auto
next
  case (3 flag v opts)
  then show ?case by (cases opts' rule: option_list.cases) auto
qed simp

section \<open>Properties\<close>

text \<open>The program ends with the code 1 exactly when, after options with their values, an argument
  follows that is no option, and with the code 0 on every other command line: a missing or
  malformed value is not an error.\<close>

theorem cli_exit_code:
  "cli_main_from args =
     (if \<exists>opts arg rest. args = opts @ arg # rest \<and> option_list opts \<and> unknown_arg arg
      then 1 else 0)"
proof (cases rule: option_list_cases [of args])
  case 1
  then have 0: "cli_main_from args = 0" using accepted_vector cli_accepted by metis
  have "\<not> unknown_arg arg" if "args = opts @ arg # rest" "option_list opts" for opts arg rest
    using unknown_after_options [OF that(2), of arg rest] accepted_vector [of args] 1 that(1) by auto
  with 0 show ?thesis by auto
next
  case (2 opts0 flag)
  then have acc: "\<exists>r. parse_args_from args = Inr r" using accepted_vector [of args] by blast
  then have 0: "cli_main_from args = 0" using cli_accepted by metis
  have "\<not> unknown_arg arg" if "args = opts @ arg # rest" "option_list opts" for opts arg rest
    using unknown_after_options [OF that(2), of arg rest] acc that(1) by auto
  with 0 show ?thesis by auto
next
  case (3 opts0 arg0 rest0)
  have code: "cli_main_from args = (if unknown_arg arg0 then 1 else 0)"
    using parse_after_options [OF 3(2,3), of rest0] 3(1) by (simp add: cli_code)
  have same: "arg0 = arg" if "args = opts @ arg # rest" "option_list opts" "unknown_arg arg"
    for opts arg rest
    using option_list_split [OF 3(2) that(2) 3(3)] that(1,3) 3(1) by (simp add: unknown_arg_def)
  show ?thesis
  proof (cases "unknown_arg arg0")
    case True
    with 3(1,2) have "\<exists>opts arg rest. args = opts @ arg # rest \<and> option_list opts \<and> unknown_arg arg"
      by blast
    with code True show ?thesis by simp
  next
    case False
    with same have "\<nexists>opts arg rest. args = opts @ arg # rest \<and> option_list opts \<and> unknown_arg arg"
      by blast
    with code False show ?thesis by simp
  qed
qed

text \<open>The command line that asks for a configuration.\<close>

definition config_args :: "runtime_config \<Rightarrow> string list \<Rightarrow> string list" where
  "config_args c paths =
     [''-n'', rc_node_name c, ''-s'', decimal (unat (rc_schedulers c)), ''-h'', decimal (rc_heap_size c)]
     @ concat (map (\<lambda>p. [''-pa'', p]) paths)"

lemma parse_paths:
  "parse_args_loop c mp (concat (map (\<lambda>p. [''-pa'', p]) paths)) =
     Inr (c, boot_minimal, ModulePaths (mp_paths mp @ paths))"
  by (induction paths arbitrary: mp) (simp_all add: add_module_path_def)

text \<open>A node name, a number of schedulers, a heap size and search paths given on the command line
  are the ones that the parser answers.\<close>

theorem args_roundtrip:
  assumes "rc_heap_size c < 2 ^ 64"
  shows "parse_args_from (config_args c paths) =
    Inr (runtime_config_default\<lparr>rc_node_name := rc_node_name c, rc_schedulers := rc_schedulers c,
           rc_heap_size := rc_heap_size c\<rparr>, boot_minimal, ModulePaths paths)"
proof -
  have "parse_usize (decimal (rc_heap_size c)) = Some (rc_heap_size c)"
    using assms by (simp add: parse_usize_def parse_below_decimal)
  then show ?thesis
    by (simp add: parse_args_from_def config_args_def parse_int_decimal parse_paths module_paths_new_def)
qed

theorem args_roundtrip_witness:
  "parse_args_from (config_args (runtime_config_new ''a@b'') [''lib'']) =
     Inr (runtime_config_default\<lparr>rc_node_name := ''a@b'', rc_schedulers := 1, rc_heap_size := 8192\<rparr>,
          boot_minimal, ModulePaths [''lib''])"
  using args_roundtrip [of "runtime_config_new ''a@b''" "[''lib'']"]
  by (simp add: runtime_config_new_def runtime_config_default_def DEFAULT_HEAP_SIZE_def)

text \<open>C17. The C entry passes the name of the program on as the first option: called the way a C
  program is, it ends with the code 1 whatever the arguments are, where the Rust entry skips the name
  and accepts them.\<close>

theorem entry_refuses_program_name:
  assumes "unknown_arg prog" and "length args + 1 < 2 ^ 31"
  shows "chimera_beam_runtime_entry (of_nat (length args + 1)) (Some (map Some (prog # args) @ [None])) = Ok 1
    \<and> cli_main (prog # args) = cli_main_from args"
proof -
  have n: "nat (max (sint (of_nat (length args + 1) :: 32 word)) 0) = length args + 1"
    using assms(2) by (simp add: signed_of_nat signed_take_bit_int_eq_self del: of_nat_add of_nat_Suc)
  have "cli_main_from (prog # args) = 1"
    using parse_no_flag assms(1) by (simp add: cli_code parse_args_from_def unknown_arg_def)
  moreover have "slot_contents (map Some (prog # args)) = prog # args"
    by (simp add: slot_contents_def map_filter_def comp_def)
  ultimately show ?thesis
    unfolding chimera_beam_runtime_entry_def Let_def n by (simp add: cli_main_def)
qed

theorem entry_refuses_program_name_witness:
  "chimera_beam_runtime_entry 3 (Some [Some ''beam'', Some ''-s'', Some ''4'', None]) = Ok 1
   \<and> cli_main [''beam'', ''-s'', ''4''] = 0"
proof -
  have u: "unknown_arg ''beam''" by (simp add: unknown_arg_def value_flags_def)
  have "cli_main_from [''-s'', ''4''] = 0"
    using cli_accepted [OF parse_options_inr [of "[''-s'', ''4'']"]] by (simp add: value_flags_def)
  with entry_refuses_program_name [OF u, of "[''-s'', ''4'']"] show ?thesis by simp
qed

end
