(* ===== verification/Metrics.thy ===== *)
theory Metrics
  imports Complex_Main Prelude
begin

text \<open>
  Counters, gauges, timers and snapshots of the scheduler metrics
  (\<^verbatim>\<open>crates/chimera_erlang_beam_scheduler/src/metrics.rs\<close>).

  An atomic cell is its value; its operations are sequentially consistent, so that threads sharing
  it run some sequence of them.  The clock is an argument.  Rounding to a floating-point number is
  an argument of the one function that uses floating point.
\<close>

section \<open>Snapshots\<close>

record scheduler_metrics =
  sm_scheduler_id :: u32
  sm_run_queue_depth :: nat
  sm_reductions_executed :: u64
  sm_context_switches :: u64
  sm_processes_spawned :: u64
  sm_processes_exited :: u64
  sm_messages_sent :: u64
  sm_messages_received :: u64
  sm_dirty_cpu_jobs_submitted :: u64
  sm_dirty_cpu_jobs_completed :: u64
  sm_dirty_io_jobs_submitted :: u64
  sm_dirty_io_jobs_completed :: u64
  sm_total_cpu_time_ms :: u64
  sm_idle_time_ms :: u64

definition scheduler_metrics_new :: "u32 \<Rightarrow> scheduler_metrics" where
  "scheduler_metrics_new i =
     \<lparr>sm_scheduler_id = i, sm_run_queue_depth = 0, sm_reductions_executed = 0,
      sm_context_switches = 0, sm_processes_spawned = 0, sm_processes_exited = 0,
      sm_messages_sent = 0, sm_messages_received = 0, sm_dirty_cpu_jobs_submitted = 0,
      sm_dirty_cpu_jobs_completed = 0, sm_dirty_io_jobs_submitted = 0,
      sm_dirty_io_jobs_completed = 0, sm_total_cpu_time_ms = 0, sm_idle_time_ms = 0\<rparr>"

text \<open>The cast to \<^verbatim>\<open>u8\<close> truncates towards zero and saturates.\<close>

definition f64_to_u8 :: "rat \<Rightarrow> 8 word" where
  "f64_to_u8 x = of_int (min 255 (max 0 \<lfloor>x\<rfloor>))"

definition utilization_percent :: "(rat \<Rightarrow> rat) \<Rightarrow> scheduler_metrics \<Rightarrow> 8 word" where
  "utilization_percent rnd m =
     (if sm_total_cpu_time_ms m = 0 then 0
      else
        (let idle = min (sm_idle_time_ms m) (sm_total_cpu_time_ms m);
             active = sm_total_cpu_time_ms m - idle;
             ratio = rnd (rnd (of_nat (unat active)) / rnd (of_nat (unat (sm_total_cpu_time_ms m))))
         in f64_to_u8 (rnd (ratio * 100))))"

record vm_metrics =
  vmm_total_processes :: u64
  vmm_total_schedulers :: u32
  vmm_total_reductions :: u64
  vmm_total_context_switches :: u64
  vmm_total_messages_sent :: u64
  vmm_total_messages_received :: u64
  vmm_total_dirty_cpu_jobs :: u64
  vmm_total_dirty_io_jobs :: u64
  vmm_uptime_seconds :: u64
  vmm_steal_attempts :: u64
  vmm_steal_successes :: u64
  vmm_processes_migrated :: u64

text \<open>The uptime is read from the clock: it is the time of day.\<close>

definition vm_metrics_new :: "u64 \<Rightarrow> vm_metrics" where
  "vm_metrics_new now_s =
     \<lparr>vmm_total_processes = 0, vmm_total_schedulers = 0, vmm_total_reductions = 0,
      vmm_total_context_switches = 0, vmm_total_messages_sent = 0, vmm_total_messages_received = 0,
      vmm_total_dirty_cpu_jobs = 0, vmm_total_dirty_io_jobs = 0, vmm_uptime_seconds = now_s,
      vmm_steal_attempts = 0, vmm_steal_successes = 0, vmm_processes_migrated = 0\<rparr>"

section \<open>Registry, counters, gauges, timers\<close>

datatype metrics_registry = MetricsRegistry (mr_start_time: u64)

definition metrics_registry_new :: "u64 \<Rightarrow> metrics_registry" where
  "metrics_registry_new now_s = MetricsRegistry now_s"

definition registry_uptime_seconds :: "u64 \<Rightarrow> metrics_registry \<Rightarrow> u64" where
  "registry_uptime_seconds now_s r = now_s - mr_start_time r"

definition wall_time :: "u64 \<Rightarrow> metrics_registry \<Rightarrow> u64" where
  "wall_time now_s r = now_s"

datatype counter = Counter (ct_value: u64)

definition counter_new :: "u64 \<Rightarrow> counter" where
  "counter_new i = Counter i"

definition counter_add :: "u64 \<Rightarrow> counter \<Rightarrow> u64 \<times> counter" where
  "counter_add d c = (ct_value c, Counter (ct_value c + d))"

definition counter_increment :: "counter \<Rightarrow> u64 \<times> counter" where
  "counter_increment c = (ct_value c, Counter (ct_value c + 1))"

definition counter_get :: "counter \<Rightarrow> u64" where
  "counter_get c = ct_value c"

datatype gauge = Gauge (gg_value: u64)

definition gauge_new :: "u64 \<Rightarrow> gauge" where
  "gauge_new i = Gauge i"

definition gauge_set :: "u64 \<Rightarrow> gauge \<Rightarrow> gauge" where
  "gauge_set v g = Gauge v"

definition gauge_get :: "gauge \<Rightarrow> u64" where
  "gauge_get g = gg_value g"

definition gauge_increment :: "gauge \<Rightarrow> u64 \<times> gauge" where
  "gauge_increment g = (gg_value g, Gauge (gg_value g + 1))"

definition gauge_decrement :: "gauge \<Rightarrow> u64 \<times> gauge" where
  "gauge_decrement g = (gg_value g, Gauge (gg_value g - 1))"

record histogram_bucket =
  hb_le :: u64
  hb_count :: u64

definition histogram_bucket_new :: "u64 \<Rightarrow> histogram_bucket" where
  "histogram_bucket_new le = \<lparr>hb_le = le, hb_count = 0\<rparr>"

datatype stopwatch = Stopwatch (sw_start: u64)

definition stopwatch_new :: "u64 \<Rightarrow> stopwatch" where
  "stopwatch_new now_ms = Stopwatch now_ms"

definition elapsed_ms :: "u64 \<Rightarrow> stopwatch \<Rightarrow> u64" where
  "elapsed_ms now_ms t = now_ms - sw_start t"

definition stopwatch_reset :: "u64 \<Rightarrow> stopwatch \<Rightarrow> stopwatch" where
  "stopwatch_reset now_ms t = Stopwatch now_ms"

section \<open>Shared cells\<close>

datatype counter_op = Increment | Add u64

fun counter_step :: "counter_op \<Rightarrow> counter \<Rightarrow> u64 \<times> counter" where
  "counter_step Increment c = counter_increment c"
| "counter_step (Add d) c = counter_add d c"

fun delta :: "counter_op \<Rightarrow> u64" where
  "delta Increment = 1"
| "delta (Add d) = d"

fun counter_run :: "counter_op list \<Rightarrow> counter \<Rightarrow> u64 list \<times> counter" where
  "counter_run [] c = ([], c)"
| "counter_run (a # as) c =
     (let (r, c') = counter_step a c; (rs, c'') = counter_run as c' in (r # rs, c''))"

lemma counter_step_value:
  "counter_step a c = (ct_value c, Counter (ct_value c + delta a))"
  by (cases a) (simp_all add: counter_increment_def counter_add_def)

lemma counter_run_values:
  "counter_run as c =
     (map (\<lambda>k. ct_value c + sum_list (map delta (take k as))) [0..<length as],
      Counter (ct_value c + sum_list (map delta as)))"
proof (induction as arbitrary: c)
  case (Cons a as)
  have "[0..<length (a # as)] = 0 # map Suc [0..<length as]"
    by (metis length_Cons map_Suc_upt upt_conv_Cons zero_less_Suc)
  then show ?case
    using Cons by (simp add: counter_step_value add.assoc del: upt_Suc)
qed (cases c, simp)

section \<open>Properties\<close>

text \<open>Whatever operations threads perform on a counter, each is answered the sum of those before
  it, and no two of up to 2^64 increments are answered the same.\<close>

theorem counter_linear:
  "snd (counter_run as c) = Counter (ct_value c + sum_list (map delta as))
   \<and> fst (counter_run as c) =
       map (\<lambda>k. ct_value c + sum_list (map delta (take k as))) [0..<length as]
   \<and> distinct (fst (counter_run (replicate (unat (n :: u64)) Increment) c))"
proof -
  have r: "unat n < 2 ^ 64"
    using unsigned_less [of n, where ?'a = nat] by simp
  have "fst (counter_run (replicate (unat n) Increment) c) =
      map (\<lambda>k. ct_value c + of_nat k) [0..<unat n]"
    by (auto simp: counter_run_values sum_list_replicate min_def)
  moreover have "inj_on (\<lambda>k. ct_value c + (of_nat k :: u64)) {0..<unat n}"
  proof (rule inj_onI)
    fix i j assume ij: "i \<in> {0..<unat n}" "j \<in> {0..<unat n}"
      and "ct_value c + (of_nat i :: u64) = ct_value c + of_nat j"
    then have "unat (of_nat i :: u64) = unat (of_nat j :: u64)" by simp
    then show "i = j"
      using ij r by (simp add: unsigned_of_nat take_bit_nat_eq_self)
  qed
  ultimately have "distinct (fst (counter_run (replicate (unat n) Increment) c))"
    by (simp add: distinct_map)
  then show ?thesis by (simp add: counter_run_values)
qed

text \<open>A gauge counts down past zero to the greatest number, and a clock that is set back makes
  an uptime and an elapsed time greater than the clock.\<close>

theorem metrics_wrap:
  "gauge_decrement (Gauge 0) = (0, Gauge (2 ^ 64 - 1))
   \<and> (now < start \<longleftrightarrow> now < registry_uptime_seconds now (metrics_registry_new start))
   \<and> (now < start \<longleftrightarrow> now < elapsed_ms now (stopwatch_new start))"
proof -
  have "now < start \<longleftrightarrow> now < now - start"
  proof (cases "now < start")
    case True
    have "unat (now - start) = 2 ^ 64 + unat now - unat start"
      using True by (simp add: unat_sub_if_size word_less_nat_alt word_size)
    moreover have "unat start < 2 ^ 64"
      using unsigned_less [of start, where ?'a = nat] by simp
    ultimately show ?thesis using True by (simp add: word_less_nat_alt)
  next
    case False
    then have "unat (now - start) \<le> unat now"
      by (simp add: unat_sub word_less_nat_alt word_le_nat_alt)
    with False show ?thesis by (simp add: word_less_nat_alt)
  qed
  then show ?thesis
    by (simp add: gauge_decrement_def registry_uptime_seconds_def metrics_registry_new_def
        elapsed_ms_def stopwatch_new_def)
qed

text \<open>Whatever the rounding is, as long as it is monotone and exact on the integers up to 100,
  the utilization is at most 100, and exactly 100 for a scheduler that was never idle.\<close>

theorem utilization_bounded:
  assumes mono: "\<And>x y. x \<le> y \<Longrightarrow> rnd x \<le> rnd y"
    and exact: "\<And>n :: nat. n \<le> 100 \<Longrightarrow> rnd (of_nat n) = of_nat n"
  shows "utilization_percent rnd m \<le> 100
    \<and> (sm_idle_time_ms m = 0 \<and> sm_total_cpu_time_ms m \<noteq> 0 \<longrightarrow> utilization_percent rnd m = 100)"
proof (cases "sm_total_cpu_time_ms m = 0")
  case True
  then show ?thesis by (simp add: utilization_percent_def)
next
  case False
  define total where "total = sm_total_cpu_time_ms m"
  define active where "active = total - min (sm_idle_time_ms m) total"
  define A :: rat where "A = of_nat (unat active)"
  define T :: rat where "T = of_nat (unat total)"
  define ratio where "ratio = rnd (rnd A / rnd T)"
  have e: "rnd 0 = 0" "rnd 1 = 1" "rnd 100 = 100"
    using exact [of 0] exact [of 1] exact [of 100] by simp_all
  have "active \<le> total"
    unfolding active_def by (rule word_sub_le) simp
  then have AT: "0 \<le> A" "A \<le> T"
    unfolding A_def T_def of_nat_le_iff by (simp_all only: of_nat_0_le_iff word_le_nat_alt)
  have "1 \<le> unat total" using False by (simp add: total_def unat_gt_0 Suc_leI)
  then have "1 \<le> T"
    unfolding T_def by (metis of_nat_1 of_nat_le_iff)
  then have t: "1 \<le> rnd T" using mono [of 1 T] e by simp
  have a: "0 \<le> rnd A" "rnd A \<le> rnd T"
    using mono [of 0 A] mono [of A T] e AT by simp_all
  have ratio: "0 \<le> ratio" "ratio \<le> 1"
    using mono [of 0 "rnd A / rnd T"] mono [of "rnd A / rnd T" 1] e t a
    by (simp_all add: ratio_def divide_le_eq)
  have p: "0 \<le> rnd (ratio * 100)" "rnd (ratio * 100) \<le> 100"
    using mono [of 0 "ratio * 100"] mono [of "ratio * 100" 100] e ratio by simp_all
  have u: "utilization_percent rnd m = of_int \<lfloor>rnd (ratio * 100)\<rfloor>"
    using False p
    by (simp add: utilization_percent_def Let_def f64_to_u8_def ratio_def A_def T_def active_def total_def
        min_def [of 255] max_def [of 0] le_floor_iff floor_le_iff)
  define i where "i = \<lfloor>rnd (ratio * 100)\<rfloor>"
  have i: "0 \<le> i" "i \<le> 100"
    using p by (simp_all add: i_def floor_le_iff)
  then have "(of_int i :: 8 word) \<le> 100"
    by (simp add: word_le_def uint_word_of_int)
  moreover have "utilization_percent rnd m = 100" if "sm_idle_time_ms m = 0"
  proof -
    have "active = total" using that by (simp add: active_def)
    then have "A = T" by (simp add: A_def T_def)
    then have "ratio = 1" using e t by (simp add: ratio_def)
    then show ?thesis using e u by simp
  qed
  ultimately show ?thesis using u by (simp add: i_def)
qed

text \<open>Rounding to integers is such a rounding.\<close>

theorem utilization_bounded_witness:
  "utilization_percent (\<lambda>x. of_int \<lfloor>x\<rfloor>)
     ((scheduler_metrics_new 0)\<lparr>sm_total_cpu_time_ms := 80\<rparr>) = 100"
  using utilization_bounded [of "\<lambda>x. of_int \<lfloor>x\<rfloor>"
      "(scheduler_metrics_new 0)\<lparr>sm_total_cpu_time_ms := 80\<rparr>"]
  by (simp add: floor_mono scheduler_metrics_new_def)

end
