(* ===== verification/Gc_Kernel.thy ===== *)
theory Gc_Kernel
  imports Gc Kernel_Laws
begin

text \<open>
  The copying collector (\<^verbatim>\<open>heap/src/gc.rs\<close>) with the feature \<^verbatim>\<open>zig-kernels\<close>, with which an
  object is copied by the heap kernel.

  The feature is an argument.  A result is none when the kernel does not return, and a
  \<open>kernel_fault\<close> when it leaves the memory it was given, which it does not check.
\<close>

section \<open>Copying an object\<close>

type_synonym 'a kernel_run = "(kernel_fault, 'a) outcome option"

fun bind_k :: "'a kernel_run \<Rightarrow> ('a \<Rightarrow> 'b kernel_run) \<Rightarrow> 'b kernel_run" where
  "bind_k None f = None"
| "bind_k (Some (Ok x)) f = f x"
| "bind_k (Some (Err e)) f = Some (Err e)"
| "bind_k (Some (Panic p)) f = Some (Panic p)"
| "bind_k (Some OutOfFuel) f = Some OutOfFuel"

text \<open>The slices from the address and from the fill level on; the kernel may copy as many words as
  the first has.\<close>

definition copy_object_zig ::
  "nat \<Rightarrow> u64 list \<Rightarrow> gc_state \<Rightarrow> (nat vm_result \<times> gc_state) kernel_run" where
  "copy_object_zig addr from s =
     (if length from < addr \<or> length (gs_to s) < gs_hp s then Some (Panic IndexOutOfBounds)
      else
        (let src = drop addr from; dst = drop (gs_hp s) (gs_to s) in
         bind_k (heap_copy dst src (length src)) (\<lambda>(r, dst').
           let s' = s\<lparr>gs_to := take (gs_hp s) (gs_to s) @ dst'\<rparr> in
           case r of
             Inr n \<Rightarrow> Some (Ok (Inr (gs_hp s), s'\<lparr>gs_hp := gs_hp s + n\<rparr>))
           | Inl e \<Rightarrow> Some (Ok (Inl e, s')))))"

definition copy_object_with_kernel ::
  "bool \<Rightarrow> nat \<Rightarrow> u64 list \<Rightarrow> gc_state \<Rightarrow> (nat \<times> gc_state) kernel_run" where
  "copy_object_with_kernel zig addr from s =
     (if zig then
        bind_k (copy_object_zig addr from s) (\<lambda>(r, s').
          case r of Inr new_addr \<Rightarrow> Some (Ok (new_addr, s')) | Inl e \<Rightarrow> Some (Ok (copy_object addr from s')))
      else Some (Ok (copy_object addr from s)))"

definition evacuate_with ::
  "bool \<Rightarrow> u64 list \<Rightarrow> beam_term \<Rightarrow> gc_state \<Rightarrow> (beam_term \<times> gc_state) kernel_run" where
  "evacuate_with zig from t s =
     (case term_to_heap_addr t of
        None \<Rightarrow> Some (Ok (t, s))
      | Some addr \<Rightarrow>
          if addr < length from then
            bind_k (if gs_forward s ! addr = None
                    then bind_k (copy_object_with_kernel zig addr from s) (\<lambda>(new_addr, s').
                           Some (Ok (s'\<lparr>gs_forward := (gs_forward s')[addr := Some new_addr]\<rparr>)))
                    else Some (Ok s))
              (\<lambda>s'. Some (Ok (update_term_addr t (gs_forward s' ! addr), s')))
          else Some (Ok (t, s)))"

fun evacuate_roots_with ::
  "bool \<Rightarrow> u64 list \<Rightarrow> beam_term list \<Rightarrow> gc_state \<Rightarrow> (beam_term list \<times> gc_state) kernel_run" where
  "evacuate_roots_with zig from [] s = Some (Ok ([], s))"
| "evacuate_roots_with zig from (t # ts) s =
     bind_k (evacuate_with zig from t s) (\<lambda>(t', s').
       bind_k (evacuate_roots_with zig from ts s') (\<lambda>(ts', s'').
         Some (Ok (t' # ts', s''))))"

definition scan_word_with :: "bool \<Rightarrow> u64 list \<Rightarrow> nat \<Rightarrow> gc_state \<Rightarrow> gc_state kernel_run" where
  "scan_word_with zig from scan s =
     (let t = Term (gs_to s ! scan)
      in if is_heap_pointer t then
           (case term_to_heap_addr t of
              Some addr \<Rightarrow>
                if addr < length from then
                  bind_k (evacuate_with zig from t s) (\<lambda>(t', s').
                    Some (Ok (s'\<lparr>gs_to := (gs_to s')[scan := term_raw t']\<rparr>)))
                else Some (Ok s)
            | None \<Rightarrow> Some (Ok s))
         else Some (Ok s))"

partial_function (option) scan_loop_with ::
  "bool \<Rightarrow> u64 list \<Rightarrow> nat \<Rightarrow> gc_state \<Rightarrow> gc_state kernel_run" where
  "scan_loop_with zig from scan s =
     (if scan < gs_hp s then
        (if scan < length (gs_to s) then
           (case scan_word_with zig from scan s of
              None \<Rightarrow> None
            | Some r \<Rightarrow>
                (case r of
                   Ok s' \<Rightarrow> scan_loop_with zig from (Suc scan) s'
                 | Err e \<Rightarrow> Some (Err e)
                 | Panic p \<Rightarrow> Some (Panic p)
                 | OutOfFuel \<Rightarrow> Some OutOfFuel))
         else Some (Panic IndexOutOfBounds))
      else Some (Ok s))"

definition trace_gc_with ::
  "bool \<Rightarrow> beam_term list \<Rightarrow> process_heap \<Rightarrow> (bool \<times> beam_term list \<times> process_heap) kernel_run" where
  "trace_gc_with zig roots h0 =
     (let h = h0\<lparr>stats := count_minor (stats h0)\<rparr>; used = hp h in
      if used = 0 then Some (Ok (True, roots, h))
      else
        (let from = active_buffer h;
             to = (if length (inactive_buffer h) < used then resize used (inactive_buffer h)
                   else inactive_buffer h)
         in bind_k (evacuate_roots_with zig from roots
                      \<lparr>gs_to = to, gs_hp = 0, gs_forward = replicate (length from) None\<rparr>)
              (\<lambda>(roots', s). bind_k (scan_loop_with zig from 0 s) (\<lambda>s'.
                let h' = set_inactive_buffer (gs_to s') h
                in Some (Ok (True, roots',
                     h'\<lparr>hp := gs_hp s', in_to_space := \<not> in_to_space h',
                       stats := (stats h')\<lparr>words_collected :=
                         words_collected (stats h') + (of_nat used - of_nat (gs_hp s'))\<rparr>\<rparr>))))))"

section \<open>Without the feature\<close>

definition lift_run :: "(unit, 'a) outcome \<Rightarrow> 'a kernel_run" where
  "lift_run r = (case r of Ok x \<Rightarrow> Some (Ok x) | Err e \<Rightarrow> None | Panic p \<Rightarrow> Some (Panic p)
     | OutOfFuel \<Rightarrow> Some OutOfFuel)"

lemma evacuate_plain: "evacuate_with False from t s = Some (Ok (evacuate from t s))"
  by (simp add: evacuate_with_def evacuate_def copy_object_with_kernel_def Let_def split_beta
      split: option.split)

lemma evacuate_roots_plain:
  "evacuate_roots_with False from ts s = Some (Ok (evacuate_roots from ts s))"
  by (induction ts arbitrary: s) (simp_all add: evacuate_plain split_beta)

lemma scan_word_plain: "scan_word_with False from scan s = Some (Ok (scan_word from scan s))"
  by (simp add: scan_word_with_def scan_word_def evacuate_plain Let_def split_beta split: option.split)

lemma scan_loop_plain: "scan_loop_with False from scan s = lift_run (scan_loop from scan s)"
proof (induction "from" scan s rule: scan_loop.induct)
  case (1 fs scan s)
  show ?case
    by (subst scan_loop_with.simps, subst scan_loop.simps)
      (simp add: 1 scan_word_plain lift_run_def)
qed

section \<open>With the feature\<close>

text \<open>Words that the kernel walks over without leaving the heap: cells of three words, and words of
  their own; no header with a size field.\<close>

fun flat :: "u64 list \<Rightarrow> bool" where
  "flat [] = True"
| "flat (w # ws) =
     (if w AND 7 = 2 then (case ws of x # y # rest \<Rightarrow> flat rest | _ \<Rightarrow> False)
      else w AND 7 \<noteq> 3 \<and> flat ws)"

lemma flat_step:
  assumes "flat (drop n src)" and "n < length src"
  shows "\<exists>k. 0 < k \<and> copy_size src (length src) n n = Some k \<and> n + k \<le> length src
    \<and> flat (drop (n + k) src)"
proof -
  obtain w ws where d: "drop n src = w # ws" "src ! n = w"
    using assms(2) by (metis Cons_nth_drop_Suc)
  then have ws: "ws = drop (n + 1) src" and len: "length ws + n + 1 = length src"
    using Cons_nth_drop_Suc [OF assms(2)] assms(2) by auto
  show ?thesis
  proof (cases "w AND 7 = 2")
    case True
    with assms(1) d obtain x y rest where r: "ws = x # y # rest" "flat rest"
      by (auto split: list.splits)
    then have "rest = drop 3 (drop n src)" using d by simp
    then have "rest = drop (n + 3) src" "n + 3 \<le> length src"
      using r len by (simp_all add: add.commute)
    with True d r assms(2) show ?thesis
      by (intro exI [of _ 3]) (simp add: copy_size_def)
  next
    case False
    with assms d ws show ?thesis
      by (intro exI [of _ 1]) (simp add: copy_size_def Let_def)
  qed
qed

lemma copy_flat:
  assumes "flat (drop n src)" and "n \<le> length src" and "n \<le> length dst"
  shows "zig_copy_loop src (length src) n n (take n src @ drop n dst) =
    Some (if length src \<le> length dst then Ok (src @ drop (length src) dst, length src, length src)
          else Err OutOfBounds)"
  using assms
proof (induction "length src - n" arbitrary: n rule: less_induct)
  case less
  show ?case
  proof (cases "n < length src")
    case True
    from flat_step [OF less.prems(1) this] obtain k where k: "0 < k"
      "copy_size src (length src) n n = Some k" "n + k \<le> length src" "flat (drop (n + k) src)" by blast
    show ?thesis
    proof (cases "n + k \<le> length dst")
      case in_dst: True
      have p: "put_words src n k n (take n src @ drop n dst) = Ok (take (n + k) src @ drop (n + k) dst)"
        by (rule put_prefix [OF k(3) in_dst])
      have "zig_copy_loop src (length src) n n (take n src @ drop n dst)
          = zig_copy_loop src (length src) (n + k) (n + k) (take (n + k) src @ drop (n + k) dst)"
        by (subst zig_copy_loop.simps) (simp only: k(2) p option.case outcome.case)
      also have "\<dots> = Some (if length src \<le> length dst
          then Ok (src @ drop (length src) dst, length src, length src) else Err OutOfBounds)"
        by (rule less.hyps) (use True k in_dst in auto)
      finally show ?thesis .
    next
      case False
      with less.prems have "put_words src n k n (take n src @ drop n dst) = Err OutOfBounds"
        by (simp add: put_words_def)
      then have "zig_copy_loop src (length src) n n (take n src @ drop n dst) = Some (Err OutOfBounds)"
        by (subst zig_copy_loop.simps) (simp only: k(2) option.case outcome.case)
      moreover have "\<not> length src \<le> length dst" using False k(3) by simp
      ultimately show ?thesis by simp
    qed
  next
    case False
    then have c: "copy_size src (length src) n n = None" and n: "n = length src"
      using less.prems(2) by (simp_all add: copy_size_def)
    have "zig_copy_loop src (length src) n n (take n src @ drop n dst)
        = Some (Ok (take n src @ drop n dst, n, n))"
      by (subst zig_copy_loop.simps) (simp only: c option.case)
    then show ?thesis using n less.prems(3) by simp
  qed
qed

text \<open>One object is asked for, and all words behind it are copied.\<close>

lemma kernel_copies_rest:
  assumes "flat (drop addr from)" and "addr < length from" and "gs_hp s < length (gs_to s)"
  shows "copy_object_with_kernel True addr from s =
    (let n = length from - addr; room = length (gs_to s) - gs_hp s in
     Some (if n \<le> room
       then Ok (gs_hp s, s\<lparr>gs_to := take (gs_hp s) (gs_to s) @ drop addr from
                             @ drop (gs_hp s + n) (gs_to s),
                          gs_hp := gs_hp s + n\<rparr>)
       else Err OutOfBounds))"
proof -
  let ?src = "drop addr from" and ?dst = "drop (gs_hp s) (gs_to s)"
  from copy_flat [of 0 ?src ?dst] assms(1)
  have loop: "zig_copy_loop ?src (length ?src) 0 0 ?dst =
      Some (if length ?src \<le> length ?dst
        then Ok (?src @ drop (length ?src) ?dst, length ?src, length ?src) else Err OutOfBounds)"
    by simp
  have ne: "?src \<noteq> []" "?dst \<noteq> []" using assms(2,3) by auto
  show ?thesis
  proof (cases "length ?src \<le> length ?dst")
    case True
    with loop ne have "heap_copy ?dst ?src (length ?src)
        = Some (Ok (Inr (length ?src), ?src @ drop (length ?src) ?dst))"
      by (simp add: heap_copy_def beamz_heap_copy_def BEAMZ_SUCCESS_def)
    then show ?thesis
      using assms True
      by (simp add: copy_object_with_kernel_def copy_object_zig_def Let_def add.commute)
  next
    case False
    with loop ne have "heap_copy ?dst ?src (length ?src) = Some (Err OutOfBounds)"
      by (simp add: heap_copy_def beamz_heap_copy_def)
    then show ?thesis
      using assms False by (simp add: copy_object_with_kernel_def copy_object_zig_def Let_def)
  qed
qed

section \<open>Properties\<close>

text \<open>Without the feature the collector with the kernel is the copying collector.\<close>

theorem trace_gc_plain: "trace_gc_with False roots h = lift_run (trace_gc roots h)"
proof -
  have b: "bind_k (lift_run r) (\<lambda>x. Some (Ok (f x))) = lift_run (bind_o r (\<lambda>x. Ok (f x)))"
    for r :: "(unit, gc_state) outcome" and f :: "gc_state \<Rightarrow> bool \<times> beam_term list \<times> process_heap"
    by (cases r) (simp_all add: lift_run_def)
  show ?thesis
    unfolding trace_gc_with_def trace_gc_def Let_def evacuate_roots_plain scan_loop_plain
    by (simp add: b split_beta lift_run_def [of "Ok _"])
qed

text \<open>C16. With the feature, on a well-formed heap in use whose words from the two roots on are \<open>flat\<close>:
  walking from the root, a word with the tag of a cons cell has the two words of its cell behind it,
  and no other word it comes to has the tag of a tuple, whose size the kernel would follow.  Let the
  first root lie behind the start of the heap and the addresses of the two differ and add up to less
  than the size of the heap.  Then the copy of the first root moves not its object but all words from
  it to the end of the buffer, unused ones included, and the copy of the second runs past the end of
  the target.\<close>

theorem kernel_collection_overruns:
  assumes "heap_ok h" and "hp h \<noteq> 0"
    and "term_to_heap_addr t = Some a" and "term_to_heap_addr u = Some b"
    and "flat (drop a (active_buffer h))" and "flat (drop b (active_buffer h))"
    and "0 < a" and "a \<noteq> b" and "a + b < hend h"
    and "s = \<lparr>gs_to = inactive_buffer h, gs_hp = 0, gs_forward = replicate (hend h) None\<rparr>"
  shows "evacuate_with True (active_buffer h) t s =
      Some (Ok (update_term_addr t (Some 0),
        \<lparr>gs_to = drop a (active_buffer h) @ drop (hend h - a) (inactive_buffer h), gs_hp = hend h - a,
         gs_forward = (replicate (hend h) None)[a := Some 0]\<rparr>))
    \<and> trace_gc_with True (t # u # roots) h = Some (Err OutOfBounds)"
proof -
  let ?h = "h\<lparr>stats := count_minor (stats h)\<rparr>" and ?from = "active_buffer h"
  have len: "length ?from = hend h" "length (inactive_buffer h) = hend h" "hp h \<le> hend h"
    using assms(1) by (auto simp: heap_ok_def active_buffer_def inactive_buffer_def)
  have buffers: "active_buffer ?h = ?from" "inactive_buffer ?h = inactive_buffer h"
    by (simp_all add: active_buffer_def inactive_buffer_def)
  define s1 where "s1 = \<lparr>gs_to = drop a ?from @ drop (hend h - a) (inactive_buffer h),
    gs_hp = hend h - a, gs_forward = (replicate (hend h) None)[a := Some 0]\<rparr>"
  have ne: "0 < hend h" using assms(9) by simp
  have "copy_object_with_kernel True a ?from s =
      Some (Ok (0, s\<lparr>gs_to := drop a ?from @ drop (hend h - a) (inactive_buffer h),
        gs_hp := hend h - a\<rparr>))"
    using kernel_copies_rest [of a ?from s] assms(5,9,10) len ne by (simp add: Let_def)
  then have e1: "evacuate_with True ?from t s = Some (Ok (update_term_addr t (Some 0), s1))"
    using assms(3,9,10) len by (simp add: evacuate_with_def s1_def)
  have "copy_object_with_kernel True b ?from s1 = Some (Err OutOfBounds)"
    using kernel_copies_rest [of b ?from s1] assms(6-9) len by (simp add: s1_def Let_def)
  then have e2: "evacuate_with True ?from u s1 = Some (Err OutOfBounds)"
    using assms(4,8,9) len by (simp add: evacuate_with_def s1_def)
  have "trace_gc_with True (t # u # roots) h = Some (Err OutOfBounds)"
    using assms(2) len e1 e2 by (simp add: trace_gc_with_def Let_def buffers assms(10))
  with e1 show ?thesis by (simp add: s1_def)
qed

text \<open>Two cons cells at the start of a heap of eight words, the second one collected first: it moves
  with the two unused words behind it.\<close>

theorem kernel_collection_overruns_witness:
  "trace_gc_with True [from_cons 3, from_cons 0]
     ((heap_new heap_config_default)\<lparr>from_space := [0x302, 8, 16, 0x302, 8, 16, 0, 0],
        to_space := replicate 8 0, hp := 6, hend := 8\<rparr>) = Some (Err OutOfBounds)
   \<and> evacuate_with True [0x302, 8, 16, 0x302, 8, 16, 0, 0] (from_cons 3)
        \<lparr>gs_to = replicate 8 0, gs_hp = 0, gs_forward = replicate 8 None\<rparr> =
      Some (Ok (update_term_addr (from_cons 3) (Some 0),
        \<lparr>gs_to = [0x302, 8, 16, 0, 0, 0, 0, 0], gs_hp = 5,
         gs_forward = (replicate 8 None)[3 := Some 0]\<rparr>))"
proof -
  let ?h = "(heap_new heap_config_default)\<lparr>from_space := [0x302, 8, 16, 0x302, 8, 16, 0, 0],
    to_space := replicate 8 0, hp := 6, hend := 8\<rparr>"
  have b: "active_buffer ?h = [0x302, 8, 16, 0x302, 8, 16, 0, 0]" "inactive_buffer ?h = replicate 8 0"
    by (simp_all add: active_buffer_def inactive_buffer_def heap_new_def)
  have ok: "heap_ok ?h" by (simp add: heap_ok_def heap_new_def)
  have t: "term_to_heap_addr (from_cons 3) = Some 3" "term_to_heap_addr (from_cons 0) = Some 0"
    by (simp_all add: term_to_heap_addr_def tag_def from_cons_def to_cons_def)
  have f: "flat (drop 3 (active_buffer ?h))" "flat (drop 0 (active_buffer ?h))"
    unfolding b by simp_all
  have "(3 :: nat) + 0 < hend ?h" "(0 :: nat) < 3" "(3 :: nat) \<noteq> 0" "hp ?h \<noteq> 0" by simp_all
  from kernel_collection_overruns [OF ok this(4) t f this(2,3,1) refl, of "[]"]
  show ?thesis unfolding b by (simp add: numeral_eq_Suc)
qed

end
