(* ===== verification/Heap_Report.thy ===== *)
theory Heap_Report
  imports Heap_Verifier Text_Util
begin

text \<open>
  The diagnostic report of the heap verifier (\<^verbatim>\<open>DiagnosticReport\<close> of
  \<^verbatim>\<open>crates/chimera_erlang_beam_heap/src/heap_verifier.rs\<close>), as text.
\<close>

section \<open>Model\<close>

text \<open>The derived \<^verbatim>\<open>Debug\<close> of an enumeration writes the name of the variant.\<close>

fun corruption_debug :: "corruption_type \<Rightarrow> string" where
  "corruption_debug InvalidHeader = ''InvalidHeader''"
| "corruption_debug OutOfBoundsPointer = ''OutOfBoundsPointer''"
| "corruption_debug UnalignedPointer = ''UnalignedPointer''"
| "corruption_debug ObjectOverflow = ''ObjectOverflow''"
| "corruption_debug TagMismatch = ''TagMismatch''"
| "corruption_debug InvalidConsPointer = ''InvalidConsPointer''"
| "corruption_debug InvalidTupleElement = ''InvalidTupleElement''"
| "corruption_debug InvalidForwardingPointer = ''InvalidForwardingPointer''"
| "corruption_debug CyclicReference = ''CyclicReference''"
| "corruption_debug CanaryCorrupted = ''CanaryCorrupted''"
| "corruption_debug HpOverflow = ''HpOverflow''"
| "corruption_debug NullPointer = ''NullPointer''"

fun severity_str :: "severity \<Rightarrow> string" where
  "severity_str Warning = ''WARN''"
| "severity_str SevError = ''ERROR''"
| "severity_str Fatal = ''FATAL''"

definition format_issue :: "heap_issue \<Rightarrow> string" where
  "format_issue i =
     ''['' @ severity_str (hi_severity i) @ ''] '' @ corruption_debug (hi_corruption_type i)
     @ '' at offset '' @ decimal (hi_location i) @ '': '' @ hi_description i
     @ (case (hi_expected i, hi_actual i) of
          (Some expected, Some actual) \<Rightarrow>
            '' (expected: 0x'' @ hex16 expected @ '', actual: 0x'' @ hex16 actual @ '')''
        | _ \<Rightarrow> [])"

record diagnostic_report =
  dr_result :: verification_result
  dr_formatted_issues :: "string list"

definition report_from_result :: "verification_result \<Rightarrow> diagnostic_report" where
  "report_from_result r = \<lparr>dr_result = r, dr_formatted_issues = map format_issue (vr_issues r)\<rparr>"

definition scanned_line :: "verification_result \<Rightarrow> string" where
  "scanned_line r =
     ''Scanned '' @ decimal (vr_words_scanned r) @ '' words, '' @ decimal (vr_objects_scanned r)
     @ '' objects''"

definition format_report :: "diagnostic_report \<Rightarrow> string" where
  "format_report d =
     (let r = dr_result d; nl = CHR 0x0A in
      if passed r then ''Heap verification PASSED'' @ nl # scanned_line r @ [nl]
      else
        ''Heap verification FAILED - '' @ decimal (issue_count r) @ '' issues found'' @ nl
        # scanned_line r @ nl # nl
        # concat (map (\<lambda>i. ''  '' @ i @ [nl]) (dr_formatted_issues d)))"

section \<open>Lines\<close>

abbreviation one_line :: "string \<Rightarrow> bool" where
  "one_line s \<equiv> CHR 0x0A \<notin> set s"

lemma split_lines:
  assumes "\<forall>l\<in>set ls. one_line l"
  shows "split_at_char (CHR 0x0A) (concat (map (\<lambda>l. l @ [CHR 0x0A]) ls)) = ls @ [[]]"
  using assms by (induction ls) (simp_all add: split_at_char_append)

lemma content_of_lines:
  assumes "\<forall>l\<in>set ls. one_line l"
  shows "content_lines (concat (map (\<lambda>l. l @ [CHR 0x0A]) ls)) = ls"
  by (simp add: content_lines_def Let_def split_lines [OF assms])

lemma one_line_decimal [simp]: "one_line (decimal n)"
  using decimal_digits [of "CHR 0x0A" n] by (auto simp: digit_value_def)

lemma hex_digit_line: "w < 16 \<Longrightarrow> hex_digit w \<noteq> CHR 0x0A"
proof
  assume w: "w < 16" and "hex_digit w = CHR 0x0A"
  then have "(of_char (hex_digit w) :: nat) = 10" by simp
  moreover have "unat w < 16" using w by (simp add: word_less_nat_alt)
  ultimately show False by (simp add: hex_digit_def split: if_splits)
qed

lemma one_line_hex [simp]: "one_line (hex16 w)"
proof -
  have "drop_bit (4 * i) w AND 15 < 16" for i :: nat
    by (rule order_le_less_trans [OF word_and_le1]) simp
  then show ?thesis using hex_digit_line by (force simp: hex16_def)
qed

lemma one_line_debug [simp]: "one_line (corruption_debug t)"
  by (cases t) simp_all

lemma one_line_severity [simp]: "one_line (severity_str v)"
  by (cases v) simp_all

lemma one_line_issue: "one_line (hi_description i) \<Longrightarrow> one_line (format_issue i)"
  by (simp add: format_issue_def split: option.split)

section \<open>Properties\<close>

text \<open>The report of a result whose descriptions are single lines has, after its two head lines
  and an empty one, exactly one line for each issue, in their order; a result that passed is
  reported in two lines.\<close>

theorem report_lists_issues:
  assumes "\<forall>i\<in>set (vr_issues r). one_line (hi_description i)"
  shows "content_lines (format_report (report_from_result r)) =
    (if passed r then [''Heap verification PASSED'', scanned_line r]
     else (''Heap verification FAILED - '' @ decimal (issue_count r) @ '' issues found'')
       # scanned_line r # [] # map (\<lambda>i. ''  '' @ format_issue i) (vr_issues r))"
    (is "_ = ?lines")
proof -
  define issues where "issues = map (\<lambda>i. ''  '' @ format_issue i) (vr_issues r)"
  have issues: "one_line l" if "l \<in> set issues" for l
  proof -
    obtain i where "l = ''  '' @ format_issue i" "i \<in> set (vr_issues r)"
      using \<open>l \<in> set issues\<close> unfolding issues_def by auto
    with assms one_line_issue [of i] show ?thesis by simp
  qed
  have scanned: "one_line (scanned_line r)" by (simp add: scanned_line_def)
  have head: "one_line (''Heap verification FAILED - '' @ decimal (issue_count r) @ '' issues found'')"
    "one_line ''Heap verification PASSED''" by simp_all
  have "\<forall>l\<in>set ?lines. one_line l"
    unfolding issues_def [symmetric] using issues scanned head
    by (cases "passed r") (simp_all only: if_True if_False list.set ball_simps simp_thms, auto)
  moreover have "format_report (report_from_result r) = concat (map (\<lambda>l. l @ [CHR 0x0A]) ?lines)"
    by (simp add: format_report_def report_from_result_def Let_def comp_def)
  ultimately show ?thesis using content_of_lines [of ?lines] by (simp only:)
qed

theorem report_lists_issues_witness:
  "content_lines (format_report (report_from_result
     (add_issue (heap_issue_new InvalidHeader SevError 42 ''Test corruption'')
       verification_result_default)))
   = [''Heap verification FAILED - 1 issues found'', ''Scanned 0 words, 0 objects'', [],
      ''  [ERROR] InvalidHeader at offset 42: Test corruption'']"
proof -
  have d: "decimal 0 = ''0''" "decimal (Suc 0) = ''1''" "decimal 42 = ''42''"
    by (simp_all add: decimal.simps char_of_def bit_Suc_0_iff)
      
  show ?thesis
    by (subst report_lists_issues)
      (simp_all add: d passed_def add_issue_def heap_issue_new_def verification_result_default_def
        scanned_line_def issue_count_def format_issue_def)
qed

end
