(* ===== verification/Spec2Isabelle.thy ===== *)
theory Spec2Isabelle
  imports Prelude Interfaces Terms Boxed Ids OffHeap Heap Opcodes Exec Interp Interp_Loop
    Interp_Arith Map_Instr Core Atom_Table Signals Trace Roots Pcb
    Process_Laws Proc_Table Table_Laws Run_Queue Sched Sched_Laws Timers Ports Dirty
    Gc Gc_Laws Yield_Gc Yield_Laws Major_Gc Etf
    Beam_File Code_Loader Hot_Code Heap_Verifier Bytes Dist_Proto Dist_Conn Dist_Laws Dist_Nodes
    Bif Bif_Laws Vm Vm_Laws Text_Util Boot Nif Nif_Laws
    Kernels Kernel_Laws Etf_Kernels Shared_Code
    Sched_Thread Runtime Metrics Gc_Kernel Heap_Report
begin

text \<open>
  A model of chimera-beam, an Erlang virtual machine written in Rust.

  \<^bold>\<open>The program.\<close>  A machine (\<^verbatim>\<open>chimera_erlang_beam_vm\<close>) owns a process table, one
  scheduler and statistics.  A step of the machine takes the process at the front of the run
  queues, builds an execution context from its control block, lets the interpreter execute one
  instruction word, and writes the context back; an instruction that traps is dispatched to a
  built-in function, which works on the process table.  Processes exchange signals through
  mailboxes, are linked and monitored, and each has a word heap of its own, on which tagged terms
  live and which three collectors can clean.  Around this core stand the atom table, timers and
  ports, dirty schedulers, tracing, the loader of BEAM files with its versions of modules, the
  external term format, the distribution protocol with its connections and nodes, native
  functions, boot scripts, and kernels in Zig for the heap and the term format.

  \<^bold>\<open>Conventions\<close> (theory Prelude).  Machine integers keep their width and wrap, as in the
  release profile, which does not check overflows; a \<^verbatim>\<open>usize\<close> that counts the elements of a
  vector is a \<open>nat\<close>.  A Rust \<^verbatim>\<open>Result\<close> is a sum or an \<open>outcome\<close>, whose \<open>Panic\<close> is an
  index out of range, an unwrapped \<^verbatim>\<open>None\<close>, an explicit panic or a division overflow.  A
  mutable receiver is a state that is passed and returned.  Loops that may not end are partial
  functions with the value \<open>None\<close> when they do not; recursive decoders have fuel, one more than
  the number of bytes left, and are proved never to run out of it.  Clocks, random numbers,
  sockets, MD5 and the parser of floats are arguments, and so is the condition of
  \<^verbatim>\<open>run_until\<close>, a closure that is given its own state.  Allocation is taken never to fail, also where
  a decoder reserves room for a count it has read; a write outside the buffer of a heap, which
  panics in the code, is ignored by \<open>set_word\<close> and does not happen on a well-formed heap.
\<close>

section \<open>Theories and the code they model\<close>

text \<open>
  All paths are under \<^verbatim>\<open>src/crates/\<close>; the prefix \<^verbatim>\<open>chimera_erlang_beam_\<close> of the crates is left
  out.

  \<^item> \<open>Terms\<close>, \<open>Boxed\<close>, \<open>Ids\<close>, \<open>Atom_Table\<close>: \<^verbatim>\<open>term/src/\<close> (\<^verbatim>\<open>lib.rs\<close>, \<^verbatim>\<open>boxed.rs\<close>,
    \<^verbatim>\<open>pid.rs\<close>, \<^verbatim>\<open>atom.rs\<close>) and the \<^verbatim>\<open>Pid\<close> of \<^verbatim>\<open>process/src/lib.rs\<close>.  A term is a tagged
    word (\<open>beam_term\<close>), a header and an identifier are packed words; the atom table is a record of
    two association lists whose interning is two atomic steps, so that threads interleave.
  \<^item> \<open>Heap\<close>, \<open>OffHeap\<close>, \<open>Roots\<close>, \<open>Heap_Verifier\<close>, \<open>Heap_Report\<close>: \<^verbatim>\<open>heap/src/\<close> (\<^verbatim>\<open>lib.rs\<close>,
    \<^verbatim>\<open>off_heap_binary.rs\<close>, \<^verbatim>\<open>roots.rs\<close>, \<^verbatim>\<open>heap_verifier.rs\<close>).  \<open>process_heap\<close> has the
    fields of \<^verbatim>\<open>ProcessHeap\<close>; for each kind of object there is its allocator, its writers and
    its readers under their own names.
  \<^item> \<open>Gc\<close>, \<open>Gc_Laws\<close>: the copying collector (\<^verbatim>\<open>heap/src/gc.rs\<close>), \<open>Gc_Kernel\<close>: the
    same with the feature \<^verbatim>\<open>zig-kernels\<close>; \<open>Yield_Gc\<close>,
    \<open>Yield_Laws\<close>: the sliced one (\<^verbatim>\<open>yieldable_gc.rs\<close>); \<open>Major_Gc\<close>: the mark-compact
    collection of \<^verbatim>\<open>heap/src/lib.rs\<close>.
  \<^item> \<open>Opcodes\<close>, \<open>Exec\<close>, \<open>Interp\<close>, \<open>Interp_Loop\<close>, \<open>Interp_Arith\<close>, \<open>Map_Instr\<close>:
    \<^verbatim>\<open>instr/src/lib.rs\<close>.  \<open>opcode\<close> is the enumeration, \<open>exec_context\<close> the context,
    \<open>execute_instruction\<close> one step, in one definition for each group of opcodes, and \<open>run\<close>
    and \<open>run_reductions\<close> the loops.
  \<^item> \<open>Core\<close>: \<^verbatim>\<open>core/src/lib.rs\<close>, errors and configuration.
  \<^item> \<open>Signals\<close>, \<open>Pcb\<close>, \<open>Process_Laws\<close>, \<open>Proc_Table\<close>, \<open>Table_Laws\<close>:
    \<^verbatim>\<open>process/src/lib.rs\<close>.  \<open>pcb\<close> is \<^verbatim>\<open>ProcessControlBlock\<close>, \<open>process_table\<close> the vector
    of slots with the registry of names; a reference to a process is the index of its slot.
  \<^item> \<open>Run_Queue\<close>, \<open>Sched\<close>, \<open>Sched_Laws\<close>, \<open>Sched_Thread\<close>, \<open>Dirty\<close>, \<open>Metrics\<close>:
    \<^verbatim>\<open>scheduler/src/\<close> (\<^verbatim>\<open>lib.rs\<close>, \<^verbatim>\<open>dirty.rs\<close>, \<^verbatim>\<open>metrics.rs\<close>).  \<open>thread_step\<close> is the step
    relation of the threads of the schedulers and the clients of the shared timers.
  \<^item> \<open>Timers\<close>, \<open>Ports\<close>: \<^verbatim>\<open>timer/src/lib.rs\<close>; \<open>Trace\<close>: \<^verbatim>\<open>trace/src/lib.rs\<close>.
  \<^item> \<open>Etf\<close>, \<open>Bytes\<close>: \<^verbatim>\<open>term/src/etf.rs\<close>; \<open>Beam_File\<close>, \<open>Code_Loader\<close>, \<open>Hot_Code\<close>:
    \<^verbatim>\<open>code/src/\<close>.
  \<^item> \<open>Dist_Proto\<close>, \<open>Dist_Conn\<close>, \<open>Dist_Laws\<close>, \<open>Dist_Nodes\<close>: \<^verbatim>\<open>dist/src/lib.rs\<close>.
  \<^item> \<open>Bif\<close>, \<open>Bif_Laws\<close>: \<^verbatim>\<open>bif/src/lib.rs\<close> and \<^verbatim>\<open>vm/src/bif_dispatch.rs\<close>; \<open>Vm\<close>,
    \<open>Vm_Laws\<close>: \<^verbatim>\<open>vm/src/lib.rs\<close>; \<open>Boot\<close>, \<open>Text_Util\<close>: \<^verbatim>\<open>vm/src/boot.rs\<close>;
    \<open>Runtime\<close>: \<^verbatim>\<open>runtime/src/lib.rs\<close>.
  \<^item> \<open>Nif\<close>, \<open>Nif_Laws\<close>: \<^verbatim>\<open>nif/src/lib.rs\<close>.
  \<^item> \<open>Kernels\<close>, \<open>Kernel_Laws\<close>, \<open>Etf_Kernels\<close>: \<^verbatim>\<open>src/zig/src/\<close> (\<^verbatim>\<open>root.zig\<close>,
    \<^verbatim>\<open>etf.zig\<close>) behind \<^verbatim>\<open>abi/src/\<close> (\<^verbatim>\<open>heap_kernels.rs\<close>, \<^verbatim>\<open>lib.rs\<close>).
  \<^item> \<open>Shared_Code\<close>: \<^verbatim>\<open>chimera_beam_term/src/\<close>, the types shared with the compiler.
\<close>

section \<open>Interfaces\<close>

text \<open>
  The locales of theory Interfaces, and where they are interpreted on the model: \<open>fifo\<close> (the
  mailbox, Signals), \<open>packed_codec\<close> (pids, references and ports, Ids), \<open>id_supply\<close> (timers,
  ports, asynchronous ports, connections; Timers, Ports, Dist_Nodes), \<open>cells\<close> (the words of a
  heap and the two register files; Heap, Exec) and \<open>work_pool\<close> (the run queues that steal from
  each other, Run_Queue).  The locale \<open>entry_codec\<close> of Beam_File is what makes a table of
  entries readable; it is interpreted on the entries of atoms and of symbols.
\<close>

section \<open>What is proved\<close>

text \<open>
  \<^item> Representation: terms, headers and identifiers decode to what was encoded, exactly on the
    stated ranges; every object built on a heap is read back and leaves the heap below it alone;
    the orders on terms.
  \<^item> The interpreter keeps contexts well formed; \<open>run\<close> ends within the reductions of its
    context; the arithmetic is exact in the range of small integers; the map instructions refine
    finite maps; the loop \<open>run_reductions\<close> ends exactly when its limit is within the reductions
    left.
  \<^item> Processes: the invariant of the table under every sequence of its operations (distinct
    identifiers, names that lead to processes), the life cycle, selective receive, links, monitors
    and the propagation of exits.
  \<^item> Scheduling: priority and arrival order, conservation of processes under stealing and
    rebalancing, timers that fire once, ports that refine a finite map, dirty jobs; what the threads of
    the schedulers do to the shared timers in every interleaving.
  \<^item> Memory: the copying collector preserves the live graph on heaps whose headers cannot be taken
    for pointers, and loses objects on the heaps the program builds; when the sliced collector and
    the verifier end; the mark-compact collection discards everything.
  \<^item> Formats: round trips and exact grammars of terms, containers, modules, control messages, boot
    scripts, command lines and chunk files; that decoding ends on every input and when it panics.
  \<^item> The whole machine (Vm_Laws): every dispatch of a built-in function keeps the invariant of the
    table; a machine executes at most 2000 instructions for each process spawned on it, so a run
    that waits for more never returns normally; a parked process is never run again.
  \<^item> Distribution: which connections can become connected, who passes the handshake, how
    repeated losses of a link back off and which retry loop does not.
  \<^item> Concurrency: interning under every interleaving of the two locks of the atom table.
  \<^item> Entry points: the exit code of every command line, and the C entry against the Rust one.
  \<^item> Kernels: the copying collector on the heap kernel, which leaves its target; the scan and the copy against their reference implementations, the first match of a
    pattern, the sizes of encoded terms against the encoder.

  Several of these describe behaviour that is not intended; they are listed as findings beside
  the development.
\<close>

section \<open>Not modelled\<close>

text \<open>
  The just-in-time compiler, bindings to C++ behind a feature that is off; the front end, which is
  written in OCaml; the allocator of the test binaries; examples, benchmarks and fuzz targets, which
  call the crates; what is printed, and the texts of \<^verbatim>\<open>Display\<close> and \<^verbatim>\<open>Debug\<close> implementations; the system calls for the clock and random
  numbers.  A floating-point number is the word of its bits, and its arithmetic is not modelled,
  except in \<^verbatim>\<open>utilization_percent\<close>, where rounding is an argument; the ratios of the heap
  configuration are rationals.
\<close>

end
